(* ===== verification/Prelude.thy ===== *)
theory Prelude
  imports "HOL-Library.Word" "HOL-Library.Finite_Map" "HOL-Library.List_Lexorder"
    "HOL-Library.Multiset" "HOL-Library.Char_ord" "HOL-Library.Product_Lexorder"
begin

text \<open>
  Shared vocabulary of the zano-p2pool development: the machine integers of the C++ sources,
  \<open>std::array<std::uint8_t, N>\<close> as a type of byte strings of a fixed length with its
  lexicographic order, big-endian numbers, C++ exceptions as values of a sum type, the ordered
  traversal of \<open>std::map\<close>, and the lemmas on them that every component uses.
\<close>

unbundle bit_operations_syntax

named_theorems result_simps \<open>rewriting of the exception monad\<close>

section \<open>Machine integers and exceptions\<close>

type_synonym u8 = "8 word"
type_synonym u16 = "16 word"
type_synonym u32 = "32 word"
type_synonym u64 = "64 word"

datatype exn =
    Invalid_argument string
  | Out_of_range string
  | Runtime_error string
  | Logic_error string
  | Overflow_error string
  | Bad_alloc

type_synonym 'a result = "exn + 'a"

abbreviation Throw :: "exn \<Rightarrow> 'a result" where
  "Throw e \<equiv> Inl e"

abbreviation Ok :: "'a \<Rightarrow> 'a result" where
  "Ok x \<equiv> Inr x"

definition bindE :: "'a result \<Rightarrow> ('a \<Rightarrow> 'b result) \<Rightarrow> 'b result" where
  "bindE m f = (case m of Inl e \<Rightarrow> Inl e | Inr x \<Rightarrow> f x)"

lemma bindE_simps [simp, result_simps]:
  "bindE (Ok x) f = f x"
  "bindE (Throw e) f = Throw e"
  by (simp_all add: bindE_def)

lemma bindE_eq_Ok [result_simps]: "bindE m f = Ok y \<longleftrightarrow> (\<exists>x. m = Ok x \<and> f x = Ok y)"
  by (cases m) auto

lemma bindE_eq_Throw [result_simps]:
  "bindE m f = Throw e \<longleftrightarrow> m = Throw e \<or> (\<exists>x. m = Ok x \<and> f x = Throw e)"
  by (cases m) auto

lemma if_Throw_eq_Ok [result_simps]:
  "(if c then Throw e else m) = Ok y \<longleftrightarrow> \<not> c \<and> m = Ok y"
  by simp

text \<open>A loop over a sequence that threads a state and stops at the first throw.\<close>

fun forE :: "('a \<Rightarrow> 's \<Rightarrow> 's result) \<Rightarrow> 'a list \<Rightarrow> 's \<Rightarrow> 's result" where
  "forE body [] s = Ok s"
| "forE body (x # xs) s = bindE (body x s) (forE body xs)"

lemma forE_append: "forE body (xs @ ys) s = bindE (forE body xs s) (forE body ys)"
proof (induction xs arbitrary: s)
  case (Cons x xs)
  then show ?case by (cases "body x s") simp_all
qed simp

lemma forE_invariant:
  assumes "forE body xs s = Ok t" "I s"
    and "\<And>x s t. x \<in> set xs \<Longrightarrow> I s \<Longrightarrow> body x s = Ok t \<Longrightarrow> I t"
  shows "I t"
  using assms by (induction xs arbitrary: s) (auto simp: bindE_eq_Ok)

section \<open>Byte arrays of fixed length\<close>

typedef (overloaded) ('n::len) byte_array = "{xs :: u8 list. length xs = LENGTH('n)}"
  morphisms bytes_of array_of
  by (rule exI [of _ "replicate LENGTH('n) 0"]) simp

setup_lifting type_definition_byte_array

type_synonym hash256 = "32 byte_array"

lemma length_bytes_of [simp]: "length (bytes_of (a :: 'n::len byte_array)) = LENGTH('n)"
  using bytes_of [of a] by simp

lemma bytes_of_array_of [simp]:
  "length xs = LENGTH('n) \<Longrightarrow> bytes_of (array_of xs :: 'n::len byte_array) = xs"
  by (simp add: array_of_inverse)

lemma array_of_bytes_of [simp, code abstype]: "array_of (bytes_of a) = a"
  by (rule bytes_of_inverse)

lemma byte_array_eq_iff: "a = b \<longleftrightarrow> bytes_of a = bytes_of b"
  by (simp add: bytes_of_inject)

lemma array_of_eq_iff:
  "length xs = LENGTH('n) \<Longrightarrow> length ys = LENGTH('n) \<Longrightarrow>
    (array_of xs = (array_of ys :: 'n::len byte_array)) \<longleftrightarrow> xs = ys"
  by (simp add: byte_array_eq_iff)

instantiation byte_array :: (len) zero
begin

definition zero_byte_array :: "'a byte_array" where
  "zero_byte_array = array_of (replicate LENGTH('a) 0)"

instance ..

end

lemma bytes_of_zero [simp, code]: "bytes_of (0 :: 'n::len byte_array) = replicate LENGTH('n) 0"
  by (simp add: zero_byte_array_def)

instantiation byte_array :: (len) equal
begin

definition equal_byte_array :: "'a byte_array \<Rightarrow> 'a byte_array \<Rightarrow> bool" where
  "equal_byte_array a b \<longleftrightarrow> bytes_of a = bytes_of b"

instance
  by standard (simp add: equal_byte_array_def byte_array_eq_iff)

end

text \<open>\<open>std::array\<close> compares lexicographically, as \<open>std::lexicographical_compare\<close> does.\<close>

instantiation byte_array :: (len) linorder
begin

definition less_eq_byte_array :: "'a byte_array \<Rightarrow> 'a byte_array \<Rightarrow> bool" where
  "a \<le> b \<longleftrightarrow> bytes_of a \<le> bytes_of b"

definition less_byte_array :: "'a byte_array \<Rightarrow> 'a byte_array \<Rightarrow> bool" where
  "a < b \<longleftrightarrow> bytes_of a < bytes_of b"

instance
  by standard (auto simp: less_eq_byte_array_def less_byte_array_def byte_array_eq_iff)

end

section \<open>Big-endian numbers\<close>

definition be_val :: "u8 list \<Rightarrow> nat" where
  "be_val bs = foldl (\<lambda>v b. v * 256 + unat b) 0 bs"

fun be_bytes :: "nat \<Rightarrow> nat \<Rightarrow> u8 list" where
  "be_bytes 0 v = []"
| "be_bytes (Suc n) v = be_bytes n (v div 256) @ [word_of_nat v]"

lemma unat_u8_less [simp]: "unat (b :: u8) < 256"
  using unsigned_less [where w = b and ?'a = nat] by simp

lemma be_val_simps [simp]:
  "be_val [] = 0"
  "be_val (bs @ [b]) = be_val bs * 256 + unat b"
  by (simp_all add: be_val_def)

lemma be_val_append: "be_val (xs @ ys) = be_val xs * 256 ^ length ys + be_val ys"
  by (induction ys rule: rev_induct) (simp_all add: append_assoc [symmetric] algebra_simps
    del: append_assoc)

lemma be_val_Cons: "be_val (b # bs) = unat b * 256 ^ length bs + be_val bs"
  using be_val_append [of "[b]" bs] be_val_simps(2) [of "[]" b] by simp

lemma be_val_less: "be_val bs < 256 ^ length bs"
proof (induction bs rule: rev_induct)
  case (snoc b bs)
  have "be_val bs * 256 + unat b < (be_val bs + 1) * 256"
    using unat_u8_less [of b] by simp
  also have "\<dots> \<le> 256 ^ length bs * 256"
    using snoc by (intro mult_le_mono1) simp
  finally show ?case by simp
qed simp

lemma be_val_replicate_0 [simp]: "be_val (replicate n 0) = 0"
  by (induction n) (simp_all add: be_val_Cons)

lemma length_be_bytes [simp]: "length (be_bytes n v) = n"
  by (induction n arbitrary: v) simp_all

lemma be_val_be_bytes: "be_val (be_bytes n v) = v mod 256 ^ n"
proof (induction n arbitrary: v)
  case (Suc n)
  have "be_val (be_bytes (Suc n) v) = (v div 256) mod 256 ^ n * 256 + v mod 256"
    by (simp add: Suc unat_of_nat)
  also have "\<dots> = v mod (256 * 256 ^ n)"
    by (simp add: mod_mult2_eq mult.commute)
  finally show ?case by simp
qed simp

lemma be_val_inj: "length xs = length ys \<Longrightarrow> be_val xs = be_val ys \<Longrightarrow> xs = ys"
proof (induction xs arbitrary: ys rule: rev_induct)
  case (snoc x xs)
  then obtain y zs where ys: "ys = zs @ [y]" "length zs = length xs"
    by (cases ys rule: rev_cases) auto
  with snoc.prems have eq: "be_val xs * 256 + unat x = be_val zs * 256 + unat y" by simp
  then have "be_val xs = be_val zs"
    using unat_u8_less [of x] unat_u8_less [of y] by linarith
  moreover from this eq have "x = y" by (simp add: word_unat_eq_iff)
  ultimately show ?case using snoc.IH [of zs] ys by simp
qed simp

lemma be_bytes_be_val: "length bs = n \<Longrightarrow> be_bytes n (be_val bs) = bs"
  by (rule be_val_inj) (use be_val_less [of bs] in \<open>simp_all add: be_val_be_bytes\<close>)

lemma be_val_lexord:
  "length xs = length ys \<Longrightarrow> xs < ys \<longleftrightarrow> be_val xs < be_val ys"
proof (induction xs arbitrary: ys)
  case (Cons x xs)
  then obtain y zs where ys: "ys = y # zs" "length zs = length xs"
    by (cases ys) auto
  have b: "be_val xs < 256 ^ length xs" "be_val zs < 256 ^ length xs"
    using be_val_less [of xs] be_val_less [of zs] ys by simp_all
  have step: "unat u * 256 ^ length xs + m < unat v * 256 ^ length xs + k"
    if "unat u < unat v" "m < 256 ^ length xs" for u v :: u8 and m k
  proof -
    have "unat u * 256 ^ length xs + m < (unat u + 1) * 256 ^ length xs"
      using that(2) by simp
    also have "\<dots> \<le> unat v * 256 ^ length xs"
      using that(1) by (intro mult_le_mono1) simp
    finally show ?thesis by simp
  qed
  consider "unat x < unat y" | "unat y < unat x" | "x = y"
    by (metis linorder_less_linear word_unat_eq_iff)
  then show ?case
  proof cases
    case 1
    then have "x < y" by (simp add: word_less_nat_alt)
    with step [OF 1 b(1)] show ?thesis by (simp add: ys be_val_Cons)
  next
    case 2
    then have "\<not> x < y" "x \<noteq> y" by (auto simp: word_less_nat_alt)
    moreover have "be_val ys < be_val (x # xs)"
      using step [OF 2 b(2)] ys by (simp add: be_val_Cons)
    ultimately show ?thesis by (simp add: ys)
  next
    case 3
    with Cons.IH [of zs] ys show ?thesis by (simp add: be_val_Cons)
  qed
qed simp

definition arr_val :: "'n::len byte_array \<Rightarrow> nat" where
  "arr_val a = be_val (bytes_of a)"

lemma arr_val_less: "arr_val (a :: 'n::len byte_array) < 256 ^ LENGTH('n)"
  using be_val_less [of "bytes_of a"] by (simp add: arr_val_def)

lemma arr_val_zero [simp]: "arr_val 0 = 0"
  by (simp add: arr_val_def)

lemma arr_val_eq_iff: "arr_val a = arr_val b \<longleftrightarrow> a = b"
  unfolding arr_val_def byte_array_eq_iff by (auto intro: be_val_inj)

lemma arr_val_eq_0 [simp]: "arr_val a = 0 \<longleftrightarrow> a = 0"
  using arr_val_eq_iff [of a 0] by simp

lemma arr_val_pos [simp]: "0 < arr_val a \<longleftrightarrow> a \<noteq> 0"
  using arr_val_eq_0 [of a] by linarith

lemma less_arr_val: "a < b \<longleftrightarrow> arr_val a < arr_val b"
  unfolding less_byte_array_def arr_val_def by (rule be_val_lexord) simp

lemma less_eq_arr_val: "a \<le> b \<longleftrightarrow> arr_val a \<le> arr_val b"
  unfolding le_less less_arr_val arr_val_eq_iff [symmetric] by simp

lemma zero_least_array [simp]: "(0 :: 'n::len byte_array) \<le> a"
  by (simp add: less_eq_arr_val)

lemma list_all_zero_iff: "list_all (\<lambda>b. b = 0) (bytes_of a) \<longleftrightarrow> a = 0"
proof -
  have "list_all (\<lambda>b. b = (0::u8)) xs \<longleftrightarrow> xs = replicate (length xs) 0" for xs
    by (induction xs) auto
  then show ?thesis by (simp add: byte_array_eq_iff)
qed

text \<open>The array that holds the low \<open>LENGTH('n)\<close> bytes of a number, most significant first.\<close>

definition array_of_nat :: "nat \<Rightarrow> 'n::len byte_array" where
  "array_of_nat v = array_of (be_bytes LENGTH('n) v)"

lemma bytes_of_array_of_nat [simp, code]:
  "bytes_of (array_of_nat v :: 'n::len byte_array) = be_bytes LENGTH('n) v"
  by (simp add: array_of_nat_def)

lemma arr_val_array_of_nat: "arr_val (array_of_nat v :: 'n::len byte_array) = v mod 256 ^ LENGTH('n)"
  by (simp add: arr_val_def be_val_be_bytes)

lemma array_of_nat_arr_val [simp]: "array_of_nat (arr_val a) = a"
  by (simp add: arr_val_eq_iff [symmetric] arr_val_array_of_nat arr_val_less)

section \<open>State machines\<close>

text \<open>The states that a start predicate and a step relation reach, and the rule every component
  with a life cycle uses: what holds at the start and is kept by each step holds in all of them.\<close>

inductive reach :: "('s \<Rightarrow> bool) \<Rightarrow> ('s \<Rightarrow> 's \<Rightarrow> bool) \<Rightarrow> 's \<Rightarrow> bool"
  for start :: "'s \<Rightarrow> bool" and step :: "'s \<Rightarrow> 's \<Rightarrow> bool"
where
  reach_start: "start s \<Longrightarrow> reach start step s"
| reach_step: "reach start step s \<Longrightarrow> step s t \<Longrightarrow> reach start step t"

locale machine_invariant =
  fixes start :: "'s \<Rightarrow> bool" and step :: "'s \<Rightarrow> 's \<Rightarrow> bool" and Inv :: "'s \<Rightarrow> bool"
  assumes start_inv: "start s \<Longrightarrow> Inv s"
    and step_inv: "Inv s \<Longrightarrow> step s t \<Longrightarrow> Inv t"
begin

lemma reach_inv: "reach start step s \<Longrightarrow> Inv s"
  by (induction rule: reach.induct) (auto intro: start_inv step_inv)

end

end
