(* ===== verification/Byte_Codec.thy ===== *)
theory Byte_Codec
  imports Prelude
begin

text \<open>
  The big-endian field writers and readers that the serializers of the program share
  (\<open>append_u64_be\<close>, \<open>read_u64_be\<close>, \<open>append_array\<close>, \<open>read_array\<close> of
  \<open>src/src/share.cpp\<close> and the 16 and 32 bit ones of \<open>src/src/p2p_protocol.cpp\<close>), their
  inverse laws, and the locale \<open>canonical_codec\<close>: the contract of a serializer and a parser
  that accept exactly the same encodings. Every wire and storage format interprets it.
\<close>

section \<open>Field writers and readers\<close>

definition append_u16_be :: "u16 \<Rightarrow> u8 list" where
  "append_u16_be value = map (\<lambda>shift. ucast (drop_bit shift value)) [8, 0]"

definition append_u32_be :: "u32 \<Rightarrow> u8 list" where
  "append_u32_be value = map (\<lambda>shift. ucast (drop_bit shift value)) [24, 16, 8, 0]"

definition append_u64_be :: "u64 \<Rightarrow> u8 list" where
  "append_u64_be value = map (\<lambda>shift. ucast (drop_bit shift value)) [56, 48, 40, 32, 24, 16, 8, 0]"

definition shift_in :: "'a::len word \<Rightarrow> u8 \<Rightarrow> 'a word" where
  "shift_in value byte = push_bit 8 value OR ucast byte"

definition read_u64_be :: "u8 list \<Rightarrow> nat \<Rightarrow> (u64 \<times> nat) result" where
  "read_u64_be bytes offset =
    (if length bytes < offset \<or> length bytes - offset < 8
     then Throw (Runtime_error ''truncated share uint64 field'')
     else Ok (foldl shift_in 0 (take 8 (drop offset bytes)), offset + 8))"

definition read_array :: "u8 list \<Rightarrow> nat \<Rightarrow> ('n::len byte_array \<times> nat) result" where
  "read_array bytes offset =
    (if length bytes < offset \<or> length bytes - offset < LENGTH('n)
     then Throw (Runtime_error ''truncated share byte-array field'')
     else Ok (array_of (take LENGTH('n) (drop offset bytes)), offset + LENGTH('n)))"

text \<open>\<open>copy_n\<close> from a position that the caller has checked to be in range.\<close>

definition slice :: "nat \<Rightarrow> nat \<Rightarrow> u8 list \<Rightarrow> u8 list" where
  "slice offset n bytes = take n (drop offset bytes)"

section \<open>Laws of the fields\<close>

lemma read_u64_be_ok:
  "offset + 8 \<le> length bytes \<Longrightarrow>
    read_u64_be bytes offset = Ok (foldl shift_in 0 (take 8 (drop offset bytes)), offset + 8)"
  by (simp add: read_u64_be_def)

lemma read_array_ok:
  "offset + LENGTH('n::len) \<le> length bytes \<Longrightarrow>
    read_array bytes offset =
      Ok (array_of (take LENGTH('n) (drop offset bytes)) :: 'n byte_array, offset + LENGTH('n))"
  by (simp add: read_array_def)

lemma shift_in_alt: "8 \<le> LENGTH('a) \<Longrightarrow> shift_in (v :: 'a::len word) b = v * 256 + ucast b"
proof -
  assume len: "8 \<le> LENGTH('a)"
  have "push_bit 8 v AND ucast b = 0"
    by (rule bit_word_eqI) (auto simp: bit_simps dest: bit_imp_le_length)
  then have "push_bit 8 v OR ucast b = push_bit 8 v + ucast b"
    by (simp add: disjunctive_add_eq_or)
  then show ?thesis
    by (simp add: shift_in_def push_bit_eq_mult)
qed

lemma unat_shift_in:
  assumes "8 \<le> LENGTH('a)"
  shows "unat (shift_in (v :: 'a::len word) b) = (unat v * 256 + unat b) mod 2 ^ LENGTH('a)"
proof -
  have "shift_in v b = word_of_nat (unat v * 256 + unat b)"
    using assms by (simp add: shift_in_alt unsigned_ucast_eq)
  then show ?thesis by (simp only: unat_of_nat)
qed

lemma unat_foldl_shift_in:
  assumes "8 \<le> LENGTH('a)"
  shows "unat (foldl shift_in (0 :: 'a::len word) bs) = be_val bs mod 2 ^ LENGTH('a)"
proof (induction bs rule: rev_induct)
  case (snoc b bs)
  have "(m mod k * 256 + c) mod k = (m * 256 + c) mod k" for m c k :: nat
    by (metis mod_add_left_eq mod_mult_left_eq)
  with snoc show ?case
    by (simp add: unat_shift_in assms)
qed simp

lemma foldl_shift_in_be_bytes:
  assumes "LENGTH('a) = 8 * n" "0 < n"
  shows "foldl shift_in (0 :: 'a::len word) (be_bytes n (unat v)) = v"
proof -
  have "(256 :: nat) ^ n = 2 ^ LENGTH('a)"
    by (simp add: assms power_mult)
  moreover have "8 \<le> LENGTH('a)" using assms by simp
  ultimately show ?thesis
    by (simp add: word_unat_eq_iff unat_foldl_shift_in be_val_be_bytes)
qed

lemma ucast_drop_bit: "(ucast (drop_bit k (v :: 'a::len word)) :: u8) = word_of_nat (unat v div 2 ^ k)"
proof -
  have "(ucast (drop_bit k v) :: u8) = word_of_nat (unat (drop_bit k v))"
    by (simp only: of_nat_unat)
  also have "unat (drop_bit k v) = unat v div 2 ^ k"
    by (simp only: unat_drop_bit_eq) (simp only: drop_bit_eq_div)
  finally show ?thesis .
qed

lemma append_be_bytes:
  "append_u16_be v = be_bytes 2 (unat v)"
  "append_u32_be w = be_bytes 4 (unat w)"
  "append_u64_be x = be_bytes 8 (unat x)"
proof -
  have d: "a div 256 div 256 = a div 2 ^ 16" "a div 2 ^ 16 div 256 = a div 2 ^ 24"
    "a div 2 ^ 24 div 256 = a div 2 ^ 32" "a div 2 ^ 32 div 256 = a div 2 ^ 40"
    "a div 2 ^ 40 div 256 = a div 2 ^ 48" "a div 2 ^ 48 div 256 = a div 2 ^ 56"
    "a div 2 ^ 8 = a div 256" "a div 2 ^ 0 = a" for a :: nat
    by (simp_all add: div_mult2_eq [symmetric])
  have n: "2 = Suc (Suc 0)" "4 = Suc (Suc (Suc (Suc 0)))"
    "8 = Suc (Suc (Suc (Suc (Suc (Suc (Suc (Suc 0)))))))"
    by simp_all
  have b: "be_bytes 2 a = map word_of_nat [a div 256, a]"
    "be_bytes 4 a = map word_of_nat [a div 2 ^ 24, a div 2 ^ 16, a div 256, a]"
    "be_bytes 8 a = map word_of_nat [a div 2 ^ 56, a div 2 ^ 48, a div 2 ^ 40, a div 2 ^ 32,
       a div 2 ^ 24, a div 2 ^ 16, a div 256, a]" for a
    by (subst n, simp only: be_bytes.simps d append.simps list.map)+
  show "append_u16_be v = be_bytes 2 (unat v)"
    by (simp only: append_u16_be_def b ucast_drop_bit list.map d)
  show "append_u32_be w = be_bytes 4 (unat w)"
    by (simp only: append_u32_be_def b ucast_drop_bit list.map d)
  show "append_u64_be x = be_bytes 8 (unat x)"
    by (simp only: append_u64_be_def b ucast_drop_bit list.map d)
qed

lemma length_append_be [simp]:
  "length (append_u16_be v) = 2"
  "length (append_u32_be w) = 4"
  "length (append_u64_be x) = 8"
  by (simp_all add: append_be_bytes)

lemma foldl_append_be [simp]:
  "foldl shift_in 0 (append_u16_be v) = v"
  "foldl shift_in 0 (append_u32_be w) = w"
  "foldl shift_in 0 (append_u64_be x) = x"
  by (simp_all add: append_be_bytes foldl_shift_in_be_bytes)

lemma append_foldl_be:
  "length bs = 2 \<Longrightarrow> append_u16_be (foldl shift_in 0 bs) = bs"
  "length bs = 4 \<Longrightarrow> append_u32_be (foldl shift_in 0 bs) = bs"
  "length bs = 8 \<Longrightarrow> append_u64_be (foldl shift_in 0 bs) = bs"
  using be_val_less [of bs]
  by (simp_all add: append_be_bytes unat_foldl_shift_in be_bytes_be_val)

lemma take_drop_join: "k + n = m \<Longrightarrow> take n (drop k xs) @ drop m xs = drop k xs"
  by (metis add.commute append_take_drop_id drop_drop)

lemma nth_drop_join: "k < length xs \<Longrightarrow> m = Suc k \<Longrightarrow> xs ! k # drop m xs = drop k xs"
  by (simp add: Cons_nth_drop_Suc)

lemma length_slice [simp]: "offset + n \<le> length bs \<Longrightarrow> length (slice offset n bs) = n"
  by (simp add: slice_def)

section \<open>Canonical codecs\<close>

locale canonical_codec =
  fixes enc :: "'a \<Rightarrow> u8 list result"
    and dec :: "u8 list \<Rightarrow> 'a result"
  assumes dec_enc: "enc x = Ok bs \<Longrightarrow> dec bs = Ok x"
    and enc_dec: "dec bs = Ok x \<Longrightarrow> enc x = Ok bs"
begin

lemma dec_iff_enc: "dec bs = Ok x \<longleftrightarrow> enc x = Ok bs"
  using dec_enc enc_dec by blast

lemma enc_inj: "enc x = Ok bs \<Longrightarrow> enc y = Ok bs \<Longrightarrow> x = y"
  using dec_enc [of x bs] dec_enc [of y bs] by simp

lemma dec_inj: "dec bs = Ok x \<Longrightarrow> dec cs = Ok x \<Longrightarrow> bs = cs"
  using enc_dec [of bs x] enc_dec [of cs x] by simp

lemma dec_rejects: "(\<nexists>x. enc x = Ok bs) \<Longrightarrow> \<exists>e. dec bs = Throw e"
  using enc_dec by (cases "dec bs") auto

end

end
