(* ===== verification/Crypto_Hash.thy ===== *)
theory Crypto_Hash
  imports Byte_Codec
begin

text \<open>
  \<open>src/src/crypto_hash.cpp\<close>: the Keccak-f[1600] permutation, the CryptoNote fast hash
  (Keccak-256 with the original padding) from which every identifier of the sidechain is
  derived, and the hexadecimal codec. The state is the list of its 25 lanes.
\<close>

section \<open>Keccak-f[1600]\<close>

definition kRoundConstants :: "u64 list" where
  "kRoundConstants = [
    0x0000000000000001, 0x0000000000008082, 0x800000000000808a, 0x8000000080008000,
    0x000000000000808b, 0x0000000080000001, 0x8000000080008081, 0x8000000000008009,
    0x000000000000008a, 0x0000000000000088, 0x0000000080008009, 0x000000008000000a,
    0x000000008000808b, 0x800000000000008b, 0x8000000000008089, 0x8000000000008003,
    0x8000000000008002, 0x8000000000000080, 0x000000000000800a, 0x800000008000000a,
    0x8000000080008081, 0x8000000000008080, 0x0000000080000001, 0x8000000080008008]"

definition kRotationConstants :: "nat list" where
  "kRotationConstants = [
    1, 3, 6, 10, 15, 21, 28, 36, 45, 55, 2, 14,
    27, 41, 56, 8, 25, 43, 62, 18, 39, 61, 20, 44]"

definition kPiLane :: "nat list" where
  "kPiLane = [
    10, 7, 11, 17, 18, 3, 5, 16, 8, 21, 24, 4,
    15, 23, 19, 13, 12, 2, 20, 14, 22, 9, 6, 1]"

definition rotl64 :: "u64 \<Rightarrow> nat \<Rightarrow> u64" where
  "rotl64 value shift = push_bit shift value OR drop_bit (64 - shift) value"

definition load_le64 :: "u8 list \<Rightarrow> u64" where
  "load_le64 p = fold (\<lambda>i value. value OR push_bit (8 * i) (ucast (p ! i))) [0..<8] 0"

definition store_le64 :: "u64 \<Rightarrow> u8 list" where
  "store_le64 value = map (\<lambda>i. ucast (drop_bit (8 * i) value)) [0..<8]"

text \<open>The first two loops of a round: column parities, then every lane of column \<open>i\<close> xored.\<close>

definition keccak_theta :: "u64 list \<Rightarrow> u64 list" where
  "keccak_theta st =
    (let bc = map (\<lambda>i. st ! i XOR st ! (i + 5) XOR st ! (i + 10) XOR st ! (i + 15) XOR st ! (i + 20))
           [0..<5];
         t = map (\<lambda>i. bc ! ((i + 4) mod 5) XOR rotl64 (bc ! ((i + 1) mod 5)) 1) [0..<5]
     in map (\<lambda>k. st ! k XOR t ! (k mod 5)) [0..<25])"

text \<open>The third loop threads \<open>t\<close>, the lane displaced by the previous step.\<close>

fun keccak_rho_pi :: "u64 list \<Rightarrow> u64 \<Rightarrow> (nat \<times> nat) list \<Rightarrow> u64 list" where
  "keccak_rho_pi st t [] = st"
| "keccak_rho_pi st t ((j, r) # steps) = keccak_rho_pi (st[j := rotl64 t r]) (st ! j) steps"

definition keccak_chi :: "u64 list \<Rightarrow> u64 list" where
  "keccak_chi st = map (\<lambda>k. let j = 5 * (k div 5); i = k mod 5 in
     st ! k XOR (NOT (st ! (j + (i + 1) mod 5)) AND st ! (j + (i + 2) mod 5))) [0..<25]"

definition keccak_round :: "u64 \<Rightarrow> u64 list \<Rightarrow> u64 list" where
  "keccak_round rc st =
    (let st1 = keccak_theta st;
         st2 = keccak_rho_pi st1 (st1 ! 1) (zip kPiLane kRotationConstants);
         st3 = keccak_chi st2
     in st3[0 := st3 ! 0 XOR rc])"

definition keccak_f1600 :: "u64 list \<Rightarrow> u64 list" where
  "keccak_f1600 st = fold keccak_round kRoundConstants st"

section \<open>The CryptoNote fast hash\<close>

definition kRate :: nat where
  "kRate = 136"

definition absorb_block :: "u64 list \<Rightarrow> u8 list \<Rightarrow> u64 list" where
  "absorb_block st block =
    keccak_f1600 (map (\<lambda>i. if i < kRate div 8
       then st ! i XOR load_le64 (slice (8 * i) 8 block) else st ! i) [0..<25])"

text \<open>\<open>while (data.size() >= kRate)\<close>: the full blocks, then the rest of the data.\<close>

function absorb_full :: "u64 list \<Rightarrow> u8 list \<Rightarrow> u64 list \<times> u8 list" where
  "absorb_full st data =
    (if kRate \<le> length data then absorb_full (absorb_block st data) (drop kRate data)
     else (st, data))"
  by pat_completeness auto
termination
  by (relation "measure (\<lambda>(st, data). length data)") (auto simp: kRate_def)

declare absorb_full.simps [simp del]

definition pad_tail :: "u8 list \<Rightarrow> u8 list" where
  "pad_tail data =
    (let tail = (data @ replicate (kRate - length data) 0)[length data := 0x01]
     in tail[kRate - 1 := tail ! (kRate - 1) OR 0x80])"

definition cn_fast_hash :: "u8 list \<Rightarrow> hash256" where
  "cn_fast_hash data =
    (case absorb_full (replicate 25 0) data of
      (st, rest) \<Rightarrow>
        let st' = absorb_block st (pad_tail rest)
        in array_of (concat (map (\<lambda>i. store_le64 (st' ! i)) [0..<4])))"

lemma absorb_full_rest: "length (snd (absorb_full st data)) < kRate"
proof (induction st data rule: absorb_full.induct)
  case (1 st data)
  then show ?case
    by (cases "kRate \<le> length data") (simp_all add: absorb_full.simps [of st data])
qed

lemma length_absorb_block [simp]: "length (absorb_block st block) = 25"
proof -
  have r: "length (keccak_round rc s) = 25" for rc s
    by (simp add: keccak_round_def keccak_chi_def Let_def)
  show ?thesis
    by (simp add: absorb_block_def keccak_f1600_def kRoundConstants_def r)
qed

text \<open>The padded tail is one full block: the code's writes to \<open>tail\<close> are in range.\<close>

lemma length_pad_tail: "length data < kRate \<Longrightarrow> length (pad_tail data) = kRate"
  by (simp add: pad_tail_def Let_def)

lemma bytes_of_cn_fast_hash:
  "bytes_of (cn_fast_hash data) =
    (case absorb_full (replicate 25 0) data of
      (st, rest) \<Rightarrow> concat (map (\<lambda>i. store_le64 (absorb_block st (pad_tail rest) ! i)) [0..<4]))"
proof -
  have "length (store_le64 v) = 8" for v by (simp add: store_le64_def)
  then have l: "length (concat (map (\<lambda>i. store_le64 (s ! i)) [0..<4])) = 32" for s
    by (simp add: numeral_eq_Suc)
  show ?thesis
    by (simp add: cn_fast_hash_def l split: prod.split)
qed

section \<open>Hexadecimal text\<close>

definition hex_nibble :: "char \<Rightarrow> nat result" where
  "hex_nibble c =
    (if CHR ''0'' \<le> c \<and> c \<le> CHR ''9'' then Ok (of_char c - of_char CHR ''0'')
     else if CHR ''a'' \<le> c \<and> c \<le> CHR ''f'' then Ok (of_char c - of_char CHR ''a'' + 10)
     else if CHR ''A'' \<le> c \<and> c \<le> CHR ''F'' then Ok (of_char c - of_char CHR ''A'' + 10)
     else Throw (Invalid_argument ''invalid hexadecimal character''))"

fun hex_pairs :: "string \<Rightarrow> u8 list result" where
  "hex_pairs (h # l # rest) =
    bindE (hex_nibble h) (\<lambda>high. bindE (hex_nibble l) (\<lambda>low.
      bindE (hex_pairs rest) (\<lambda>bytes. Ok (word_of_nat (push_bit 4 high OR low) # bytes))))"
| "hex_pairs _ = Ok []"

definition strip_0x :: "string \<Rightarrow> string" where
  "strip_0x hex = (if take 2 hex = ''0x'' \<or> take 2 hex = ''0X'' then drop 2 hex else hex)"

definition hex_to_bytes :: "string \<Rightarrow> u8 list result" where
  "hex_to_bytes hex =
    (let digits = strip_0x hex
     in if odd (length digits)
        then Throw (Invalid_argument ''hex string must contain an even number of digits'')
        else hex_pairs digits)"

definition kHex :: string where
  "kHex = ''0123456789abcdef''"

definition bytes_to_hex :: "u8 list \<Rightarrow> string" where
  "bytes_to_hex bytes =
    concat (map (\<lambda>b. [kHex ! unat (drop_bit 4 b), kHex ! unat (b AND 0x0f)]) bytes)"

definition hash_to_hex :: "hash256 \<Rightarrow> string" where
  "hash_to_hex hash = bytes_to_hex (bytes_of hash)"

lemma hex_nibble_kHex: "n < 16 \<Longrightarrow> hex_nibble (kHex ! n) = Ok n"
proof -
  have "\<forall>k\<in>set [0..<16]. hex_nibble (kHex ! k) = Ok k" by code_simp
  then show "n < 16 \<Longrightarrow> hex_nibble (kHex ! n) = Ok n" by simp
qed

lemma or_nibbles: "l < 16 \<Longrightarrow> push_bit 4 h OR l = 16 * h + (l :: nat)"
proof -
  assume l: "l < 16"
  have "\<not> bit l n" if "4 \<le> n" for n
  proof -
    from l that have "l < 2 ^ n"
      using power_increasing [of 4 n "2::nat"] by simp
    then show ?thesis by (simp add: bit_iff_odd)
  qed
  then have "push_bit 4 h AND l = 0"
    by (intro bit_eqI) (auto simp: bit_simps)
  then show ?thesis
    by (simp add: disjunctive_add_eq_or [symmetric] push_bit_eq_mult)
qed

lemma unat_nibbles:
  "unat (drop_bit 4 (b :: u8)) = unat b div 16"
  "unat ((b :: u8) AND 0x0f) = unat b mod 16"
proof -
  show "unat (drop_bit 4 b) = unat b div 16"
    by (simp add: drop_bit_eq_div unat_div_distrib)
  have "(0x0f :: u8) = mask 4" by (simp add: mask_eq_exp_minus_1)
  then have "b AND 0x0f = take_bit 4 b" by (simp add: take_bit_eq_mask)
  then show "unat (b AND 0x0f) = unat b mod 16"
    by (simp add: take_bit_eq_mod unat_mod_distrib)
qed

lemma hex_pairs_bytes_to_hex: "hex_pairs (bytes_to_hex bytes) = Ok bytes"
proof (induction bytes)
  case (Cons b bytes)
  have "unat b div 16 < 16" by (rule less_mult_imp_div_less) simp
  moreover have "16 * word_of_nat (unat b div 16) + word_of_nat (unat b mod 16) = b"
  proof -
    have "word_of_nat (16 * (unat b div 16) + unat b mod 16) = b"
      by (simp only: mult_div_mod_eq) simp
    then show ?thesis by (simp only: of_nat_add of_nat_mult of_nat_numeral)
  qed
  ultimately show ?case
    using Cons by (simp add: bytes_to_hex_def unat_nibbles hex_nibble_kHex or_nibbles)
qed (simp add: bytes_to_hex_def)

lemma strip_0x_bytes_to_hex: "strip_0x (bytes_to_hex bytes) = bytes_to_hex bytes"
proof (cases bytes)
  case (Cons b bs)
  have "\<forall>k\<in>set [0..<16]. kHex ! k \<noteq> CHR ''x'' \<and> kHex ! k \<noteq> CHR ''X''" by code_simp
  then have "kHex ! unat (b AND 0x0f) \<noteq> CHR ''x''" "kHex ! unat (b AND 0x0f) \<noteq> CHR ''X''"
    by (simp_all add: unat_nibbles)
  with Cons show ?thesis by (simp add: strip_0x_def bytes_to_hex_def)
qed (simp add: strip_0x_def bytes_to_hex_def)

lemma hex_char_lower: "k < 16 \<Longrightarrow> kHex ! k \<in> set kHex"
  by (rule nth_mem) (simp add: kHex_def)

lemma set_bytes_to_hex: "set (bytes_to_hex bs) \<subseteq> set kHex"
  by (auto simp: bytes_to_hex_def unat_nibbles less_mult_imp_div_less intro!: hex_char_lower)

lemma length_bytes_to_hex: "length (bytes_to_hex bs) = 2 * length bs"
  by (induction bs) (simp_all add: bytes_to_hex_def)

text \<open>Hexadecimal text round trip: decoding the text that \<open>bytes_to_hex\<close> prints gives the
  bytes back, whatever they are.\<close>

theorem hex_to_bytes_bytes_to_hex: "hex_to_bytes (bytes_to_hex bytes) = Ok bytes"
  by (simp add: hex_to_bytes_def strip_0x_bytes_to_hex hex_pairs_bytes_to_hex length_bytes_to_hex Let_def)

end
