(* ===== verification/Pow_Target.thy ===== *)
theory Pow_Target
  imports Crypto_Hash
begin

text \<open>
  \<open>src/src/pow_target.cpp\<close>: decimal difficulties, the 256 bit target
  \<open>floor((2^256 - 1) / difficulty)\<close> and the comparison of a hash with it. The fixed
  width integers of boost (\<open>uint128_t\<close>, \<open>uint256_t\<close>, which wrap) are words of those widths.
\<close>

section \<open>Decimal parsing\<close>

definition is_decimal_digit :: "char \<Rightarrow> bool" where
  "is_decimal_digit ch \<longleftrightarrow> CHR ''0'' \<le> ch \<and> ch \<le> CHR ''9''"

definition digit_value :: "char \<Rightarrow> nat" where
  "digit_value ch = of_char ch - of_char CHR ''0''"

definition max128 :: "256 word" where
  "max128 = 2 ^ 128 - 1"

fun parse_difficulty_loop :: "string \<Rightarrow> 256 word \<Rightarrow> string \<Rightarrow> 256 word result" where
  "parse_difficulty_loop range_message value [] = Ok value"
| "parse_difficulty_loop range_message value (ch # digits) =
    (if \<not> is_decimal_digit ch
     then Throw (Invalid_argument ''difficulty must contain decimal digits only'')
     else let value' = value * 10 + word_of_nat (digit_value ch)
          in if value' > max128 then Throw (Out_of_range range_message)
             else parse_difficulty_loop range_message value' digits)"

definition parse_decimal :: "string \<Rightarrow> string \<Rightarrow> 128 word result" where
  "parse_decimal range_message digits =
    (if digits = [] then Throw (Invalid_argument ''difficulty is empty'')
     else bindE (parse_difficulty_loop range_message 0 digits) (\<lambda>value.
       if value = 0 then Throw (Invalid_argument ''difficulty must be greater than zero'')
       else Ok (ucast value)))"

definition parse_difficulty :: "string \<Rightarrow> 128 word result" where
  "parse_difficulty digits = parse_decimal ''difficulty exceeds Zano uint128 range'' digits"

section \<open>Target and comparison\<close>

definition bytes_to_uint256 :: "hash256 \<Rightarrow> 256 word" where
  "bytes_to_uint256 bytes = foldl shift_in 0 (bytes_of bytes)"

fun uint256_low_bytes :: "nat \<Rightarrow> 256 word \<Rightarrow> u8 list" where
  "uint256_low_bytes 0 value = []"
| "uint256_low_bytes (Suc n) value =
    uint256_low_bytes n (drop_bit 8 value) @ [ucast (value AND 0xff)]"

definition uint256_to_big_endian_bytes :: "256 word \<Rightarrow> hash256" where
  "uint256_to_big_endian_bytes value = array_of (uint256_low_bytes 32 value)"

record difficulty_target =
  big_endian :: hash256

definition target_hex :: "difficulty_target \<Rightarrow> string" where
  "target_hex target = bytes_to_hex (bytes_of (big_endian target))"

definition difficulty_to_target :: "string \<Rightarrow> difficulty_target result" where
  "difficulty_to_target difficulty_decimal =
    bindE (parse_difficulty difficulty_decimal) (\<lambda>difficulty.
      Ok \<lparr>big_endian = uint256_to_big_endian_bytes ((- 1) div ucast difficulty)\<rparr>)"

definition hash_meets_target :: "hash256 \<Rightarrow> difficulty_target \<Rightarrow> bool" where
  "hash_meets_target hash target \<longleftrightarrow> bytes_to_uint256 hash \<le> bytes_to_uint256 (big_endian target)"

definition hash_meets_difficulty :: "hash256 \<Rightarrow> string \<Rightarrow> bool result" where
  "hash_meets_difficulty hash difficulty_decimal =
    bindE (difficulty_to_target difficulty_decimal) (\<lambda>target. Ok (hash_meets_target hash target))"

section \<open>Decimal digits\<close>

definition digit_char :: "nat \<Rightarrow> char" where
  "digit_char d = char_of (48 + d)"

text \<open>The decimal digits of a number: what \<open>convert_to<std::string>\<close> and
  \<open>std::to_string\<close> print, no leading zeros and \<open>0\<close> for zero.\<close>

fun decimal_of_nat :: "nat \<Rightarrow> string" where
  "decimal_of_nat n =
    (if n < 10 then [digit_char n] else decimal_of_nat (n div 10) @ [digit_char (n mod 10)])"

declare decimal_of_nat.simps [simp del]

definition decimal_value :: "string \<Rightarrow> nat" where
  "decimal_value digits = foldl (\<lambda>v ch. v * 10 + digit_value ch) 0 digits"

lemma digit_char [simp]:
  "d < 10 \<Longrightarrow> is_decimal_digit (digit_char d)"
  "d < 10 \<Longrightarrow> digit_value (digit_char d) = d"
proof -
  have "\<forall>k\<in>set [0..<10]. is_decimal_digit (digit_char k) \<and> digit_value (digit_char k) = k"
    by code_simp
  then show "d < 10 \<Longrightarrow> is_decimal_digit (digit_char d)"
    "d < 10 \<Longrightarrow> digit_value (digit_char d) = d" by auto
qed

lemma digit_value_less: "is_decimal_digit ch \<Longrightarrow> digit_value ch < 10"
  by (auto simp: is_decimal_digit_def digit_value_def less_eq_char_def)

lemma decimal_of_nat_props:
  "decimal_of_nat n \<noteq> [] \<and> list_all is_decimal_digit (decimal_of_nat n) \<and>
    decimal_value (decimal_of_nat n) = n"
proof (induction n rule: decimal_of_nat.induct)
  case (1 n)
  then show ?case
    by (cases "n < 10") (simp_all add: decimal_of_nat.simps [of n] decimal_value_def)
qed

lemma decimal_value_mono: "foldl (\<lambda>v ch. v * 10 + digit_value ch) v digits \<ge> v"
  by (induction digits rule: rev_induct) (auto simp: algebra_simps intro: order_trans)

text \<open>The loop accepts exactly the decimal texts whose value fits 128 bits; the intermediate
  \<open>uint256_t\<close> arithmetic never wraps.\<close>

lemma parse_difficulty_loop_spec:
  assumes "v < 2 ^ 128" "list_all is_decimal_digit digits"
  shows "parse_difficulty_loop msg (word_of_nat v) digits =
    (let r = foldl (\<lambda>v ch. v * 10 + digit_value ch) v digits
     in if r < 2 ^ 128 then Ok (word_of_nat r)
        else Throw (Out_of_range msg))"
  using assms
proof (induction digits arbitrary: v)
  case Nil
  then show ?case by simp
next
  case (Cons ch digits)
  let ?v = "v * 10 + digit_value ch"
  from Cons.prems(2) have d: "is_decimal_digit ch" "list_all is_decimal_digit digits" by simp_all
  have "?v < 2 ^ 256"
    using Cons.prems(1) digit_value_less [OF d(1)] by simp
  then have u: "unat (word_of_nat ?v :: 256 word) = ?v"
    by (simp only: unat_of_nat) simp
  have m: "unat max128 = 2 ^ 128 - 1" by (simp add: max128_def)
  have gt: "(word_of_nat ?v :: 256 word) > max128 \<longleftrightarrow> \<not> ?v < 2 ^ 128"
    unfolding word_less_nat_alt u m by auto
  have eq: "word_of_nat v * 10 + word_of_nat (digit_value ch) = (word_of_nat ?v :: 256 word)"
    by simp
  show ?case
  proof (cases "?v < 2 ^ 128")
    case True
    then show ?thesis
      using Cons.IH [OF True d(2)] d(1) gt by (simp add: Let_def eq del: of_nat_add of_nat_mult)
  next
    case False
    then have "\<not> foldl (\<lambda>v ch. v * 10 + digit_value ch) ?v digits < 2 ^ 128"
      using decimal_value_mono [of ?v digits] by linarith
    with False show ?thesis
      using d(1) gt by (simp add: Let_def eq del: of_nat_add of_nat_mult)
  qed
qed

lemma parse_difficulty_loop_reject:
  "\<not> list_all is_decimal_digit digits \<Longrightarrow> \<exists>e. parse_difficulty_loop msg v digits = Throw e"
  by (induction digits arbitrary: v) (auto simp: Let_def)

lemma unat_ucast_128:
  "unat (ucast (w :: 128 word) :: 256 word) = unat w"
  by (simp add: unsigned_ucast_eq take_bit_nat_eq_self_iff less_trans [OF unsigned_less])

lemma parse_decimal_eq_Ok:
  "parse_decimal msg digits = Ok d \<longleftrightarrow>
    digits \<noteq> [] \<and> list_all is_decimal_digit digits \<and> 0 < decimal_value digits \<and>
    decimal_value digits < 2 ^ 128 \<and> d = word_of_nat (decimal_value digits)"
proof (cases "list_all is_decimal_digit digits")
  case False
  with parse_difficulty_loop_reject [OF False, of msg 0] show ?thesis
    by (auto simp: parse_decimal_def)
next
  case True
  let ?r = "decimal_value digits"
  have z: "(word_of_nat ?r :: 256 word) = 0 \<longleftrightarrow> ?r = 0" if "?r < 2 ^ 128"
    using that by (simp add: word_unat_eq_iff unat_of_nat)
  have c: "ucast (word_of_nat ?r :: 256 word) = (word_of_nat ?r :: 128 word)" if "?r < 2 ^ 128"
    using that by (simp add: word_unat_eq_iff unsigned_ucast_eq unat_of_nat take_bit_eq_mod)
  show ?thesis
    using parse_difficulty_loop_spec [of 0 digits msg] True z c
    by (auto simp: parse_decimal_def decimal_value_def [symmetric] Let_def split: if_splits)
qed

lemma uint256_low_bytes: "uint256_low_bytes n v = be_bytes n (unat v)"
proof (induction n arbitrary: v)
  case (Suc n)
  have "(0xff :: 256 word) = mask 8" by (simp add: mask_eq_exp_minus_1)
  then have "v AND 0xff = take_bit 8 v" by (simp add: take_bit_eq_mask)
  then have "(ucast (v AND 0xff) :: u8) = word_of_nat (unat v)"
    by (simp add: word_unat_eq_iff unsigned_ucast_eq unat_of_nat take_bit_eq_mod unat_mod_distrib)
  moreover have "unat (drop_bit 8 v) = unat v div 256"
    by (simp add: drop_bit_eq_div unat_div_distrib)
  ultimately show ?case using Suc by simp
qed simp

lemma unat_bytes_to_uint256: "unat (bytes_to_uint256 h) = arr_val h"
  using be_val_less [of "bytes_of h"]
  by (simp add: bytes_to_uint256_def unat_foldl_shift_in arr_val_def)

lemma arr_val_uint256_bytes: "arr_val (uint256_to_big_endian_bytes v) = unat v"
  using unsigned_less [where w = v and ?'a = nat]
  by (simp add: uint256_to_big_endian_bytes_def uint256_low_bytes arr_val_def be_val_be_bytes)

lemma arr_val_target:
  assumes "parse_difficulty digits = Ok d" "difficulty_to_target digits = Ok t"
  shows "arr_val (big_endian t) = (2 ^ 256 - 1) div unat d"
proof -
  have "unat (- 1 :: 256 word) = 2 ^ 256 - 1" by (simp add: unsigned_minus_1_eq_mask mask_eq_exp_minus_1)
  then show ?thesis
    using assms
    by (auto simp: difficulty_to_target_def arr_val_uint256_bytes unat_div_distrib unat_ucast_128)
qed

lemma hash_meets_difficulty_iff:
  assumes "parse_difficulty digits = Ok d"
  shows "hash_meets_difficulty h digits = Ok (arr_val h * unat d < 2 ^ 256)"
proof -
  obtain t where t: "difficulty_to_target digits = Ok t"
    using assms by (simp add: difficulty_to_target_def)
  from assms have "0 < unat d"
    by (auto simp: parse_difficulty_def parse_decimal_eq_Ok unat_of_nat)
  then have "arr_val h \<le> (2 ^ 256 - 1) div unat d \<longleftrightarrow> arr_val h * unat d \<le> 2 ^ 256 - 1"
    by (rule less_eq_div_iff_mult_less_eq)
  also have "\<dots> \<longleftrightarrow> arr_val h * unat d < 2 ^ 256" by auto
  finally show ?thesis
    by (simp add: hash_meets_difficulty_def t hash_meets_target_def word_le_nat_alt
        unat_bytes_to_uint256 arr_val_target [OF assms t])
qed

end
