(* ===== verification/Share.thy ===== *)
theory Share
  imports Pow_Target
begin

text \<open>
  \<open>src/include/zano_p2pool/share.hpp\<close> and \<open>src/src/share.cpp\<close>: the share record, 128 bit
  difficulties, the canonical encoding of versions 1 and 2 and the share identifier. The codec
  interprets \<open>canonical_codec\<close>.
\<close>

section \<open>Data\<close>

type_synonym share_id = hash256
type_synonym miner_id = hash256
type_synonym difficulty128 = "16 byte_array"

record payout_public_keys =
  spend_public_key :: hash256
  view_public_key :: hash256

record share =
  version :: u8
  parent_id :: share_id
  share_height :: u64
  timestamp :: u64
  zano_height :: u64
  mining_header_hash :: hash256
  nonce :: u64
  share_difficulty :: difficulty128
  network_difficulty :: difficulty128
  miner_id :: miner_id
  payout :: "payout_public_keys option"

definition kShareVersion1 :: u8 where
  "kShareVersion1 = 1"

definition kShareVersion2 :: u8 where
  "kShareVersion2 = 2"

definition kShareV1SerializedSize :: nat where
  "kShareV1SerializedSize = 165"

definition kShareV2SerializedSize :: nat where
  "kShareV2SerializedSize = kShareV1SerializedSize + 64"

definition kShareMagic :: "u8 list" where
  "kShareMagic = [0x5a, 0x50, 0x32, 0x53]"

definition kPayoutMinerDomain :: "u8 list" where
  "kPayoutMinerDomain = [0x5a, 0x50, 0x32, 0x50, 0]"

section \<open>128 bit difficulties\<close>

definition parse_uint128_decimal :: "string \<Rightarrow> 128 word result" where
  "parse_uint128_decimal digits = parse_decimal ''difficulty exceeds uint128 range'' digits"

fun uint128_low_bytes :: "nat \<Rightarrow> 128 word \<Rightarrow> u8 list" where
  "uint128_low_bytes 0 value = []"
| "uint128_low_bytes (Suc n) value =
    uint128_low_bytes n (drop_bit 8 value) @ [ucast (value AND 0xff)]"

definition difficulty128_from_decimal :: "string \<Rightarrow> difficulty128 result" where
  "difficulty128_from_decimal decimal =
    bindE (parse_uint128_decimal decimal) (\<lambda>value. Ok (array_of (uint128_low_bytes 16 value)))"

definition difficulty128_to_decimal :: "difficulty128 \<Rightarrow> string" where
  "difficulty128_to_decimal difficulty =
    decimal_of_nat (unat (foldl shift_in 0 (bytes_of difficulty) :: 128 word))"

definition difficulty128_is_zero :: "difficulty128 \<Rightarrow> bool" where
  "difficulty128_is_zero difficulty = list_all (\<lambda>byte. byte = 0) (bytes_of difficulty)"

definition is_zero_share_id :: "share_id \<Rightarrow> bool" where
  "is_zero_share_id i = list_all (\<lambda>byte. byte = 0) (bytes_of i)"

section \<open>Canonical encoding\<close>

definition miner_id_from_payout :: "payout_public_keys \<Rightarrow> miner_id" where
  "miner_id_from_payout p =
    cn_fast_hash (kPayoutMinerDomain @ bytes_of (spend_public_key p) @ bytes_of (view_public_key p))"

definition share_body :: "share \<Rightarrow> u8 list" where
  "share_body s =
    kShareMagic @ [version s] @ bytes_of (parent_id s) @ append_u64_be (share_height s) @
    append_u64_be (timestamp s) @ append_u64_be (zano_height s) @
    bytes_of (mining_header_hash s) @ append_u64_be (nonce s) @
    bytes_of (share_difficulty s) @ bytes_of (network_difficulty s) @ bytes_of (miner_id s)"

definition serialize_share :: "share \<Rightarrow> u8 list result" where
  "serialize_share s =
    (if version s \<noteq> kShareVersion1 \<and> version s \<noteq> kShareVersion2
     then Throw (Invalid_argument ''unsupported share version'')
     else if version s = kShareVersion1 \<and> payout s \<noteq> None
     then Throw (Invalid_argument ''share v1 cannot carry payout public keys'')
     else if version s = kShareVersion2 \<and> payout s = None
     then Throw (Invalid_argument ''share v2 requires payout public keys'')
     else if version s = kShareVersion2 \<and> miner_id s \<noteq> miner_id_from_payout (the (payout s))
     then Throw (Invalid_argument ''share v2 miner id does not match payout public keys'')
     else
       let expected_size = (if version s = kShareVersion1 then kShareV1SerializedSize
                            else kShareV2SerializedSize);
           bytes = share_body s @
             (if version s = kShareVersion2
              then bytes_of (spend_public_key (the (payout s))) @
                   bytes_of (view_public_key (the (payout s)))
              else [])
       in if length bytes \<noteq> expected_size
          then Throw (Logic_error ''share serialized-size invariant failed'')
          else Ok bytes)"

definition read_share_body :: "u8 list \<Rightarrow> u8 \<Rightarrow> nat \<Rightarrow> (share \<times> nat) result" where
  "read_share_body bytes ver offset0 =
    bindE (read_array bytes offset0) (\<lambda>(parent, offset1).
    bindE (read_u64_be bytes offset1) (\<lambda>(height, offset2).
    bindE (read_u64_be bytes offset2) (\<lambda>(time, offset3).
    bindE (read_u64_be bytes offset3) (\<lambda>(zheight, offset4).
    bindE (read_array bytes offset4) (\<lambda>(header, offset5).
    bindE (read_u64_be bytes offset5) (\<lambda>(n, offset6).
    bindE (read_array bytes offset6) (\<lambda>(sdiff, offset7).
    bindE (read_array bytes offset7) (\<lambda>(ndiff, offset8).
    bindE (read_array bytes offset8) (\<lambda>(miner, offset9).
      Ok (\<lparr>version = ver, parent_id = parent, share_height = height, timestamp = time,
           zano_height = zheight, mining_header_hash = header, nonce = n,
           share_difficulty = sdiff, network_difficulty = ndiff, miner_id = miner,
           payout = None\<rparr>, offset9))))))))))"

definition deserialize_share :: "u8 list \<Rightarrow> share result" where
  "deserialize_share bytes =
    (if length bytes < 5 then Throw (Runtime_error ''truncated share encoding'')
     else bindE (read_array bytes 0) (\<lambda>(magic :: 4 byte_array, offset).
       if bytes_of magic \<noteq> kShareMagic then Throw (Runtime_error ''invalid share domain marker'')
       else
         let ver = bytes ! offset;
             expected_size = (if ver = kShareVersion1 then kShareV1SerializedSize
                              else if ver = kShareVersion2 then kShareV2SerializedSize else 0)
         in if expected_size = 0 then Throw (Runtime_error ''unsupported share version'')
            else if length bytes \<noteq> expected_size
            then Throw (Runtime_error ''share has invalid serialized size'')
            else bindE (read_share_body bytes ver (offset + 1)) (\<lambda>(s, offset').
              if ver = kShareVersion2
              then bindE (read_array bytes offset') (\<lambda>(spend, offset1).
                   bindE (read_array bytes offset1) (\<lambda>(view, offset2).
                     let p = \<lparr>spend_public_key = spend, view_public_key = view\<rparr>
                     in if miner_id s \<noteq> miner_id_from_payout p
                        then Throw (Runtime_error
                          ''share v2 miner id does not match payout public keys'')
                        else if offset2 \<noteq> length bytes
                        then Throw (Logic_error
                          ''share parser did not consume canonical encoding'')
                        else Ok (s\<lparr>payout := Some p\<rparr>)))
              else if offset' \<noteq> length bytes
              then Throw (Logic_error ''share parser did not consume canonical encoding'')
              else Ok s)))"

text \<open>\<open>share_id\<close> hashes the encoding; it throws when the share has none.\<close>

definition share_id :: "share \<Rightarrow> share_id result" where
  "share_id s = bindE (serialize_share s) (\<lambda>bytes. Ok (cn_fast_hash bytes))"

section \<open>Difficulties: numbers and text\<close>

lemma is_zero_iff [simp]:
  "difficulty128_is_zero d \<longleftrightarrow> d = 0"
  "is_zero_share_id i \<longleftrightarrow> i = 0"
  by (simp_all add: difficulty128_is_zero_def is_zero_share_id_def list_all_zero_iff)

lemma uint128_low_bytes: "uint128_low_bytes n v = be_bytes n (unat v)"
proof (induction n arbitrary: v)
  case (Suc n)
  have "(0xff :: 128 word) = mask 8" by (simp add: mask_eq_exp_minus_1)
  then have "v AND 0xff = take_bit 8 v" by (simp add: take_bit_eq_mask)
  then have "(ucast (v AND 0xff) :: u8) = word_of_nat (unat v)"
    by (simp add: word_unat_eq_iff unsigned_ucast_eq unat_of_nat take_bit_eq_mod unat_mod_distrib)
  moreover have "unat (drop_bit 8 v) = unat v div 256"
    by (simp add: drop_bit_eq_div unat_div_distrib)
  ultimately show ?case using Suc by simp
qed simp

lemma difficulty128_to_decimal_alt: "difficulty128_to_decimal d = decimal_of_nat (arr_val d)"
  using be_val_less [of "bytes_of d"]
  by (simp add: difficulty128_to_decimal_def unat_foldl_shift_in arr_val_def)

lemma arr_val_128_less: "arr_val (d :: difficulty128) < 2 ^ 128"
  using arr_val_less [of d] by simp

lemma parse_difficulty_to_decimal:
  "d \<noteq> 0 \<Longrightarrow> parse_difficulty (difficulty128_to_decimal d) = Ok (word_of_nat (arr_val d))"
  using arr_val_128_less [of d]
  by (simp add: parse_difficulty_def parse_decimal_eq_Ok difficulty128_to_decimal_alt
      decimal_of_nat_props)

lemma hash_meets_difficulty128:
  assumes "d \<noteq> 0"
  shows "hash_meets_difficulty h (difficulty128_to_decimal d) = Ok (arr_val h * arr_val d < 2 ^ 256)"
  using hash_meets_difficulty_iff [OF parse_difficulty_to_decimal [OF assms], of h]
    arr_val_128_less [of d]
  by (simp add: unat_of_nat)

lemma difficulty128_from_decimal_iff:
  "difficulty128_from_decimal s = Ok d \<longleftrightarrow>
    s \<noteq> [] \<and> list_all is_decimal_digit s \<and> 0 < decimal_value s \<and> decimal_value s = arr_val d"
proof -
  have *: "array_of (uint128_low_bytes 16 w) = d \<longleftrightarrow> unat w = arr_val d" for w
    using unsigned_less [where w = w and ?'a = nat]
    by (simp add: arr_val_eq_iff [symmetric] uint128_low_bytes arr_val_def be_val_be_bytes)
  show ?thesis
    using arr_val_128_less [of d]
    by (auto simp: difficulty128_from_decimal_def bindE_eq_Ok parse_uint128_decimal_def
        parse_decimal_eq_Ok * unat_of_nat)
qed

text \<open>Decimal difficulties: \<open>difficulty128_from_decimal\<close> accepts exactly the nonempty
  all-digit texts whose value is positive and below \<open>2^128\<close>, and the array it returns holds
  that value.\<close>

theorem difficulty128_from_decimal_spec:
  "difficulty128_from_decimal s = Ok d \<longleftrightarrow>
    s \<noteq> [] \<and> list_all is_decimal_digit s \<and> 0 < decimal_value s \<and> decimal_value s = arr_val d"
  by (rule difficulty128_from_decimal_iff)

text \<open>Decimal round trip: printing a nonzero difficulty and parsing the text gives the
  difficulty back.\<close>

theorem difficulty128_decimal_roundtrip:
  "d \<noteq> 0 \<Longrightarrow> difficulty128_from_decimal (difficulty128_to_decimal d) = Ok d"
  unfolding difficulty128_to_decimal_alt difficulty128_from_decimal_iff
  by (simp add: decimal_of_nat_props)

theorem difficulty128_decimal_roundtrip_witness:
  "difficulty128_from_decimal (difficulty128_to_decimal (array_of_nat 1000)) = Ok (array_of_nat 1000)"
proof -
  have "arr_val (array_of_nat 1000 :: difficulty128) = 1000"
    by (simp add: arr_val_array_of_nat)
  then have "(array_of_nat 1000 :: difficulty128) \<noteq> 0"
    by (metis arr_val_zero zero_neq_numeral)
  then show ?thesis by (rule difficulty128_decimal_roundtrip)
qed

section \<open>The encoding is canonical\<close>

lemma length_kShareMagic [simp]: "length kShareMagic = 4"
  by (simp add: kShareMagic_def)

lemma length_share_body [simp]: "length (share_body s) = 165"
  by (simp add: share_body_def kShareMagic_def)

lemmas share_constants =
  kShareVersion1_def kShareVersion2_def kShareV1SerializedSize_def kShareV2SerializedSize_def

lemma serialize_share_eq_Ok:
  "serialize_share s = Ok bs \<longleftrightarrow>
    version s = kShareVersion1 \<and> payout s = None \<and> bs = share_body s \<or>
    version s = kShareVersion2 \<and>
    (\<exists>p. payout s = Some p \<and> miner_id s = miner_id_from_payout p \<and>
      bs = share_body s @ bytes_of (spend_public_key p) @ bytes_of (view_public_key p))"
  by (auto simp: serialize_share_def share_constants Let_def)

lemma share_body_prefix:
  "take 4 (share_body s @ rest) = kShareMagic" "(share_body s @ rest) ! 4 = version s"
  by (simp_all add: share_body_def kShareMagic_def)

lemma read_share_body_share_body:
  "read_share_body (share_body s @ rest) (version s) 5 = Ok (s\<lparr>payout := None\<rparr>, 165)"
  by (simp add: read_share_body_def read_array_def read_u64_be_def share_body_def kShareMagic_def)

lemma read_share_body_ok:
  assumes "165 \<le> length bs"
  shows "read_share_body bs ver 5 =
    Ok (\<lparr>version = ver, parent_id = array_of (take 32 (drop 5 bs)),
      share_height = foldl shift_in 0 (take 8 (drop 37 bs)),
      timestamp = foldl shift_in 0 (take 8 (drop 45 bs)),
      zano_height = foldl shift_in 0 (take 8 (drop 53 bs)),
      mining_header_hash = array_of (take 32 (drop 61 bs)),
      nonce = foldl shift_in 0 (take 8 (drop 93 bs)),
      share_difficulty = array_of (take 16 (drop 101 bs)),
      network_difficulty = array_of (take 16 (drop 117 bs)),
      miner_id = array_of (take 32 (drop 133 bs)), payout = None\<rparr>, 165)"
  using assms by (simp add: read_share_body_def read_array_ok read_u64_be_ok)

lemma share_body_read_share_body:
  assumes "read_share_body bs ver 5 = Ok (s, off)" "165 \<le> length bs"
  shows "share_body s @ drop 165 bs = kShareMagic @ [ver] @ drop 5 bs"
    and "version s = ver" "payout s = None" "off = 165"
  using assms(1) [unfolded read_share_body_ok [OF assms(2)]] assms(2)
  by (auto simp: share_body_def append_foldl_be take_drop_join)

lemma serialize_share_length:
  "serialize_share s = Ok bs \<Longrightarrow> length bs = kShareV1SerializedSize \<or> length bs = kShareV2SerializedSize"
  by (auto simp: serialize_share_eq_Ok share_constants)

lemma deserialize_serialize:
  assumes "serialize_share s = Ok bs"
  shows "deserialize_share bs = Ok s"
  using assms unfolding serialize_share_eq_Ok
proof (elim disjE conjE exE)
  assume v: "version s = kShareVersion1" "payout s = None" "bs = share_body s"
  show ?thesis
    using v share_body_prefix [of s "[]"] read_share_body_share_body [of s "[]"]
    by (simp add: deserialize_share_def read_array_ok share_constants)
next
  fix p
  assume v: "version s = kShareVersion2" "payout s = Some p" "miner_id s = miner_id_from_payout p"
    "bs = share_body s @ bytes_of (spend_public_key p) @ bytes_of (view_public_key p)"
  show ?thesis
    using v share_body_prefix [of s] read_share_body_share_body [of s]
    by (cases p) (simp add: deserialize_share_def read_array_ok share_constants Let_def)
qed

lemma serialize_deserialize:
  assumes "deserialize_share bs = Ok s"
  shows "serialize_share s = Ok bs"
proof -
  have len5: "5 \<le> length bs"
    using assms by (auto simp: deserialize_share_def split: if_splits)
  with assms have magic: "take 4 bs = kShareMagic"
    by (auto simp: deserialize_share_def read_array_ok split: if_splits)
  have bs: "kShareMagic @ [bs ! 4] @ drop 5 bs = bs"
    using len5 by (simp add: magic [symmetric] nth_drop_join)
  have d: "(let ver = bs ! 4; expected_size = (if ver = kShareVersion1 then kShareV1SerializedSize
                              else if ver = kShareVersion2 then kShareV2SerializedSize else 0)
       in expected_size \<noteq> 0 \<and> length bs = expected_size)"
    using assms len5 magic by (auto simp: deserialize_share_def read_array_ok Let_def split: if_splits)
  then consider (v1) "bs ! 4 = kShareVersion1" "length bs = 165"
    | (v2) "bs ! 4 = kShareVersion2" "length bs = 229"
    by (auto simp: share_constants Let_def split: if_splits)
  then show ?thesis
  proof cases
    case v1
    obtain t where t: "read_share_body bs (bs ! 4) 5 = Ok (t, 165)"
      using v1 by (simp add: read_share_body_ok)
    note T = share_body_read_share_body [OF t]
    have "s = t"
      using assms len5 magic v1 t by (simp add: deserialize_share_def read_array_ok share_constants)
    then show ?thesis
      using T v1 bs by (simp add: serialize_share_eq_Ok)
  next
    case v2
    obtain t where t: "read_share_body bs (bs ! 4) 5 = Ok (t, 165)"
      using v2 by (simp add: read_share_body_ok)
    note T = share_body_read_share_body [OF t]
    let ?p = "\<lparr>spend_public_key = array_of (take 32 (drop 165 bs)),
      view_public_key = array_of (take 32 (drop 197 bs))\<rparr>"
    have "s = t\<lparr>payout := Some ?p\<rparr>" and m: "miner_id t = miner_id_from_payout ?p"
      using assms len5 magic v2 t
      by (auto simp: deserialize_share_def read_array_ok share_constants Let_def split: if_splits)
    moreover have "share_body (t\<lparr>payout := Some ?p\<rparr>) = share_body t"
      by (simp add: share_body_def)
    ultimately show ?thesis
      using T v2 bs by (simp add: serialize_share_eq_Ok take_drop_join)
  qed
qed

interpretation share_codec: canonical_codec serialize_share deserialize_share
  by unfold_locales (fact deserialize_serialize serialize_deserialize)+

text \<open>Canonical share encoding: a byte string parses to a share exactly when it is the
  share's encoding. Parsing inverts serialization and no other encoding of a share is accepted.\<close>

theorem share_encoding_canonical: "deserialize_share bs = Ok s \<longleftrightarrow> serialize_share s = Ok bs"
  by (rule share_codec.dec_iff_enc)

text \<open>Serialized sizes and versions: serialization succeeds exactly on version 1 shares
  without payout keys, which take 165 bytes, and on version 2 shares whose miner id is the
  hash of their payout keys, which take 229 bytes.\<close>

theorem serialize_share_domain:
  "(\<exists>bs. serialize_share s = Ok bs \<and> length bs = n) \<longleftrightarrow>
    version s = 1 \<and> payout s = None \<and> n = 165 \<or>
    version s = 2 \<and> map_option miner_id_from_payout (payout s) = Some (miner_id s) \<and> n = 229"
  by (auto simp: serialize_share_eq_Ok kShareVersion1_def kShareVersion2_def)

end
