(* ===== verification/Share_Validation.thy ===== *)
theory Share_Validation
  imports Share
begin

text \<open>
  \<open>src/src/progpowz.cpp\<close> and \<open>src/src/share_validation.cpp\<close>: the wrapper of the external
  ProgPoWZ implementation and the classification of a candidate. The hash itself is code of
  Zano's ethash library, which is not part of the repository: it is the parameter
  \<open>progpow_backend\<close> of the definitions, \<open>None\<close> when the program is built without it.
\<close>

section \<open>The ProgPoWZ wrapper\<close>

record progpowz_result =
  final_hash :: hash256
  mix_hash :: hash256

datatype progpowz_context_mode = Light | Full

text \<open>What the library offers: a light context for every epoch, a full one if it could be
  allocated, and the hash of a block number, header and nonce under a context.\<close>

record progpow_backend =
  epoch_context :: "u64 \<Rightarrow> u64 \<Rightarrow> hash256 \<Rightarrow> u64 \<Rightarrow> progpowz_result"
  epoch_context_full :: "u64 \<Rightarrow> (u64 \<Rightarrow> hash256 \<Rightarrow> u64 \<Rightarrow> progpowz_result) option"

definition kProgPowZEpochLength :: u64 where
  "kProgPowZEpochLength = 30000"

definition kIntMax :: u64 where
  "kIntMax = 2147483647"

definition progpowz_epoch :: "u64 \<Rightarrow> u64" where
  "progpowz_epoch height = height div kProgPowZEpochLength"

definition progpowz_seed :: "u64 \<Rightarrow> hash256 result" where
  "progpowz_seed height =
    (if height > kIntMax
     then Throw (Out_of_range ''height exceeds the block-number range supported by ProgPoWZ'')
     else Ok (((\<lambda>seed :: hash256. cn_fast_hash (bytes_of seed)) ^^ unat (progpowz_epoch height)) 0))"

definition progpowz_available :: "progpow_backend option \<Rightarrow> bool" where
  "progpowz_available backend \<longleftrightarrow> backend \<noteq> None"

definition progpowz_hash ::
  "progpow_backend option \<Rightarrow> u64 \<Rightarrow> hash256 \<Rightarrow> u64 \<Rightarrow> progpowz_context_mode \<Rightarrow> progpowz_result result"
where
  "progpowz_hash backend height header_hash n mode =
    (case backend of
      None \<Rightarrow> Throw (Runtime_error ''ProgPoWZ support is not enabled'')
    | Some b \<Rightarrow>
        if height > kIntMax
        then Throw (Out_of_range ''height exceeds the block-number range supported by ProgPoWZ'')
        else let epoch = progpowz_epoch height in
          (case mode of
            Light \<Rightarrow> Ok (epoch_context b epoch height header_hash n)
          | Full \<Rightarrow> (case epoch_context_full b epoch of
                None \<Rightarrow> Throw Bad_alloc
              | Some ctx \<Rightarrow> Ok (ctx height header_hash n))))"

section \<open>Candidate classification\<close>

datatype candidate_classification = Invalid | Share_Candidate | Block_Candidate

record candidate_validation =
  pow :: progpowz_result
  meets_share_difficulty :: bool
  meets_network_difficulty :: bool
  classification :: candidate_classification

definition classify_pow_hash :: "hash256 \<Rightarrow> string \<Rightarrow> string \<Rightarrow> candidate_classification result" where
  "classify_pow_hash pow_hash share_diff network_diff =
    bindE (hash_meets_difficulty pow_hash network_diff) (\<lambda>is_block.
      if is_block then Ok Block_Candidate
      else bindE (hash_meets_difficulty pow_hash share_diff) (\<lambda>is_share.
        if is_share then Ok Share_Candidate else Ok Invalid))"

definition validate_candidate ::
  "progpow_backend option \<Rightarrow> u64 \<Rightarrow> hash256 \<Rightarrow> u64 \<Rightarrow> string \<Rightarrow> string \<Rightarrow> progpowz_context_mode \<Rightarrow>
    candidate_validation result"
where
  "validate_candidate backend height header_hash n share_diff network_diff mode =
    bindE (progpowz_hash backend height header_hash n mode) (\<lambda>p.
    bindE (hash_meets_difficulty (final_hash p) share_diff) (\<lambda>meets_share.
    bindE (hash_meets_difficulty (final_hash p) network_diff) (\<lambda>meets_network.
      Ok \<lparr>pow = p, meets_share_difficulty = meets_share, meets_network_difficulty = meets_network,
          classification = (if meets_network then Block_Candidate
                            else if meets_share then Share_Candidate else Invalid)\<rparr>)))"

definition candidate_classification_name :: "candidate_classification \<Rightarrow> string" where
  "candidate_classification_name c =
    (case c of Invalid \<Rightarrow> ''invalid'' | Share_Candidate \<Rightarrow> ''share'' | Block_Candidate \<Rightarrow> ''block'')"

section \<open>Correctness\<close>

lemma validate_candidate_difficulty128:
  assumes "sd \<noteq> 0" "nd \<noteq> 0"
  shows "validate_candidate B h header n (difficulty128_to_decimal sd) (difficulty128_to_decimal nd) mode =
    bindE (progpowz_hash B h header n mode) (\<lambda>p.
      let v = arr_val (final_hash p) in
      Ok \<lparr>pow = p, meets_share_difficulty = (v * arr_val sd < 2 ^ 256),
          meets_network_difficulty = (v * arr_val nd < 2 ^ 256),
          classification = (if v * arr_val nd < 2 ^ 256 then Block_Candidate
                            else if v * arr_val sd < 2 ^ 256 then Share_Candidate else Invalid)\<rparr>)"
  by (simp add: validate_candidate_def hash_meets_difficulty128 assms Let_def cong: if_cong)

lemma classify_pow_hash_eq:
  assumes "sd \<noteq> 0" "nd \<noteq> 0"
  shows "classify_pow_hash h (difficulty128_to_decimal sd) (difficulty128_to_decimal nd) =
    Ok (if arr_val h * arr_val nd < 2 ^ 256 then Block_Candidate
        else if arr_val h * arr_val sd < 2 ^ 256 then Share_Candidate else Invalid)"
  by (simp add: classify_pow_hash_def hash_meets_difficulty128 assms)

text \<open>Classification is the arithmetic of the target: for positive difficulties a hash value
  \<open>v\<close> is a block exactly when \<open>v * network < 2^256\<close>, a share exactly when it is no block and
  \<open>v * share < 2^256\<close>, and invalid otherwise; \<open>floor((2^256 - 1) / d)\<close> loses nothing.\<close>

theorem classify_pow_hash_spec:
  assumes "sd \<noteq> 0" "nd \<noteq> 0"
  shows "classify_pow_hash h (difficulty128_to_decimal sd) (difficulty128_to_decimal nd) =
    Ok (if arr_val h * arr_val nd < 2 ^ 256 then Block_Candidate
        else if arr_val h * arr_val sd < 2 ^ 256 then Share_Candidate else Invalid)"
  using assms by (rule classify_pow_hash_eq)

theorem classify_pow_hash_spec_witness:
  "(array_of_nat 1 :: difficulty128) \<noteq> 0 \<and>
   classify_pow_hash 0 (difficulty128_to_decimal (array_of_nat 1))
     (difficulty128_to_decimal (array_of_nat 2)) = Ok Block_Candidate"
proof -
  have n: "(array_of_nat 1 :: difficulty128) \<noteq> 0" "(array_of_nat 2 :: difficulty128) \<noteq> 0"
    by (simp_all add: arr_val_eq_0 [symmetric] arr_val_array_of_nat del: arr_val_eq_0)
  show ?thesis using n classify_pow_hash_spec [OF n, of 0] by simp
qed

text \<open>A validated candidate is consistent: with a share difficulty at most the network
  difficulty, meeting the network difficulty implies meeting the share difficulty, and the
  stored classification is exactly the one \<open>classify_pow_hash\<close> computes for the same hash.\<close>

theorem validate_candidate_consistent:
  assumes "validate_candidate B h header n (difficulty128_to_decimal sd)
             (difficulty128_to_decimal nd) mode = Ok v"
    and "sd \<noteq> 0" "sd \<le> nd"
  shows "(meets_network_difficulty v \<longrightarrow> meets_share_difficulty v) \<and>
    (classification v = Invalid \<longleftrightarrow> \<not> meets_share_difficulty v) \<and>
    (classification v = Block_Candidate \<longleftrightarrow> meets_network_difficulty v) \<and>
    classify_pow_hash (final_hash (pow v)) (difficulty128_to_decimal sd)
      (difficulty128_to_decimal nd) = Ok (classification v)"
proof -
  have nd: "nd \<noteq> 0" using assms(2,3) by (auto simp: less_eq_arr_val)
  have le: "x * arr_val sd < m" if "x * arr_val nd < m" for x m
    using that assms(3) by (meson le_less_trans less_eq_arr_val mult_le_mono2)
  show ?thesis
    using assms(1) le
    by (auto simp: validate_candidate_difficulty128 assms(2) nd bindE_eq_Ok Let_def
        classify_pow_hash_eq)
qed

text \<open>A backend for the witnesses: every hash is the zero hash, which meets every target.\<close>

definition zero_hash_backend :: progpow_backend where
  "zero_hash_backend =
    \<lparr>epoch_context = (\<lambda>_ _ _ _. \<lparr>final_hash = 0, mix_hash = 0\<rparr>), epoch_context_full = (\<lambda>_. None)\<rparr>"

definition zero_hash_validation :: candidate_validation where
  "zero_hash_validation =
    \<lparr>pow = \<lparr>final_hash = 0, mix_hash = 0\<rparr>, meets_share_difficulty = True,
     meets_network_difficulty = True, classification = Block_Candidate\<rparr>"

lemma array_of_nat_128_neq_0 [simp]:
  "0 < v \<Longrightarrow> v < 2 ^ 128 \<Longrightarrow> (array_of_nat v :: difficulty128) \<noteq> 0"
  by (simp add: arr_val_eq_0 [symmetric] arr_val_array_of_nat del: arr_val_eq_0)

lemma validate_zero_hash:
  assumes "sd \<noteq> 0" "nd \<noteq> 0" "h \<le> kIntMax"
  shows "validate_candidate (Some zero_hash_backend) h header n (difficulty128_to_decimal sd)
      (difficulty128_to_decimal nd) Light = Ok zero_hash_validation"
  using assms
  by (simp add: validate_candidate_difficulty128 progpowz_hash_def zero_hash_backend_def
      zero_hash_validation_def Let_def not_less)

theorem validate_candidate_consistent_witness:
  "(array_of_nat 5 :: difficulty128) \<noteq> 0 \<and>
    classify_pow_hash 0 (difficulty128_to_decimal (array_of_nat 5))
      (difficulty128_to_decimal (array_of_nat 7)) = Ok Block_Candidate"
proof -
  have n: "(array_of_nat 5 :: difficulty128) \<noteq> 0" "(array_of_nat 7 :: difficulty128) \<noteq> 0"
    "(array_of_nat 5 :: difficulty128) \<le> array_of_nat 7"
    by (simp_all add: less_eq_arr_val arr_val_array_of_nat)
  have "(3 :: u64) \<le> kIntMax" by (simp add: kIntMax_def)
  from validate_candidate_consistent [OF validate_zero_hash [OF n(1,2) this] n(1,3)] n
  show ?thesis by (simp add: zero_hash_validation_def)
qed

end
