(* ===== verification/Sidechain_Params.thy ===== *)
theory Sidechain_Params
  imports Share
begin

text \<open>
  \<open>src/include/zano_p2pool/sidechain_params.hpp\<close>: the consensus parameters of the sidechain,
  their validation and canonical encoding, and the sidechain identifier derived from it.
\<close>

section \<open>Data\<close>

datatype sidechain_parent_network = Testnet | Mainnet

fun network_byte :: "sidechain_parent_network \<Rightarrow> u8" where
  "network_byte Testnet = 1"
| "network_byte Mainnet = 2"

record sidechain_parameters =
  parameter_version :: u8
  parent_network :: sidechain_parent_network
  minimum_share_version :: u8
  maximum_share_version :: u8
  max_future_seconds :: u64
  max_parent_backstep_seconds :: u64
  target_share_seconds :: u64
  minimum_share_difficulty :: u64
  difficulty_window_shares :: u64
  pplns_window_shares :: u64
  pplns_max_network_difficulty_multiplier :: u64
  operator_fee_basis_points :: u64
  operator_fee_payout :: payout_public_keys

definition kShareMaxFutureSeconds :: u64 where
  "kShareMaxFutureSeconds = 60"

definition kShareMaxParentBackstepSeconds :: u64 where
  "kShareMaxParentBackstepSeconds = 60"

definition kSidechainParameterVersion :: u8 where
  "kSidechainParameterVersion = 4"

definition kSidechainIdDomain :: "u8 list" where
  "kSidechainIdDomain = [0x5a, 0x50, 0x32, 0x53, 0x49, 0x44, 0x56, 0x34]"

definition kOperatorFeeBasisPointDenominator :: u64 where
  "kOperatorFeeBasisPointDenominator = 10000"

definition kCanonicalOperatorFeeBasisPoints :: u64 where
  "kCanonicalOperatorFeeBasisPoints = 100"

definition kCanonicalPplnsWindowShares :: u64 where
  "kCanonicalPplnsWindowShares = 31"

definition kCanonicalOperatorFeePayout :: payout_public_keys where
  "kCanonicalOperatorFeePayout =
    \<lparr>spend_public_key = array_of [
       0x0a, 0x7e, 0x53, 0xf7, 0x00, 0xf4, 0x6f, 0x2e, 0x5d, 0x28, 0x3a, 0xaa, 0xcb, 0xfc, 0x6e, 0x69,
       0xc9, 0x53, 0x2a, 0x56, 0x28, 0xc9, 0xfd, 0xf8, 0x07, 0xf2, 0x58, 0xe0, 0xcb, 0xba, 0x0c, 0xe1],
     view_public_key = array_of [
       0xdd, 0x5d, 0xd9, 0x0b, 0x2c, 0xc8, 0xc1, 0x97, 0xea, 0x29, 0x7e, 0x06, 0x56, 0x19, 0x29, 0xc0,
       0x42, 0x2b, 0xfe, 0x9b, 0xff, 0x49, 0x5c, 0x5d, 0x62, 0x72, 0xc2, 0x37, 0x3f, 0x5f, 0x12, 0x9e]\<rparr>"

definition canonical_sidechain_parameters :: "sidechain_parent_network \<Rightarrow> sidechain_parameters" where
  "canonical_sidechain_parameters network =
    \<lparr>parameter_version = kSidechainParameterVersion, parent_network = network,
     minimum_share_version = kShareVersion2, maximum_share_version = kShareVersion2,
     max_future_seconds = kShareMaxFutureSeconds,
     max_parent_backstep_seconds = kShareMaxParentBackstepSeconds,
     target_share_seconds = 10, minimum_share_difficulty = 100000000,
     difficulty_window_shares = 2160, pplns_window_shares = kCanonicalPplnsWindowShares,
     pplns_max_network_difficulty_multiplier = 2,
     operator_fee_basis_points = kCanonicalOperatorFeeBasisPoints,
     operator_fee_payout = kCanonicalOperatorFeePayout\<rparr>"

section \<open>Canonical encoding\<close>

definition sidechain_parameter_bytes :: "sidechain_parameters \<Rightarrow> u8 list" where
  "sidechain_parameter_bytes params =
    kSidechainIdDomain @ [network_byte (parent_network params)] @
    [minimum_share_version params] @ [maximum_share_version params] @
    append_u64_be (max_future_seconds params) @
    append_u64_be (max_parent_backstep_seconds params) @
    append_u64_be (target_share_seconds params) @
    append_u64_be (minimum_share_difficulty params) @
    append_u64_be (difficulty_window_shares params) @
    append_u64_be (pplns_window_shares params) @
    append_u64_be (pplns_max_network_difficulty_multiplier params) @
    append_u64_be (operator_fee_basis_points params) @
    bytes_of (spend_public_key (operator_fee_payout params)) @
    bytes_of (view_public_key (operator_fee_payout params))"

definition serialize_sidechain_parameters :: "sidechain_parameters \<Rightarrow> u8 list result" where
  "serialize_sidechain_parameters params =
    (if parameter_version params \<noteq> kSidechainParameterVersion
     then Throw (Invalid_argument ''unsupported sidechain parameter version'')
     else if minimum_share_version params = 0 \<or>
       maximum_share_version params < minimum_share_version params
     then Throw (Invalid_argument ''invalid sidechain share-version range'')
     else if target_share_seconds params = 0
     then Throw (Invalid_argument ''sidechain target share interval must be nonzero'')
     else if minimum_share_difficulty params = 0
     then Throw (Invalid_argument ''sidechain minimum share difficulty must be nonzero'')
     else if difficulty_window_shares params < 2
     then Throw (Invalid_argument ''sidechain difficulty window must contain at least 2 shares'')
     else if pplns_window_shares params = 0 \<or>
       pplns_window_shares params > kCanonicalPplnsWindowShares
     then Throw (Invalid_argument ''sidechain PPLNS share window must be between 1 and 31'')
     else if pplns_max_network_difficulty_multiplier params = 0
     then Throw (Invalid_argument ''sidechain PPLNS work multiplier must be nonzero'')
     else if operator_fee_basis_points params = 0 \<or>
       operator_fee_basis_points params \<ge> kOperatorFeeBasisPointDenominator
     then Throw (Invalid_argument ''sidechain operator fee must be between 1 and 9999 basis points'')
     else if spend_public_key (operator_fee_payout params) = 0 \<or>
       view_public_key (operator_fee_payout params) = 0
     then Throw (Invalid_argument ''sidechain operator fee payout identity must be nonzero'')
     else Ok (sidechain_parameter_bytes params))"

definition sidechain_id :: "sidechain_parameters \<Rightarrow> hash256 result" where
  "sidechain_id params =
    bindE (serialize_sidechain_parameters params) (\<lambda>bytes. Ok (cn_fast_hash bytes))"

definition is_zero_sidechain_id :: "hash256 \<Rightarrow> bool" where
  "is_zero_sidechain_id i \<longleftrightarrow> list_all (\<lambda>byte. byte = 0) (bytes_of i)"

section \<open>Laws\<close>

lemma is_zero_sidechain_id_iff [simp]: "is_zero_sidechain_id i \<longleftrightarrow> i = 0"
  by (simp add: is_zero_sidechain_id_def list_all_zero_iff)

text \<open>The parameters the serializer accepts.\<close>

definition valid_parameters :: "sidechain_parameters \<Rightarrow> bool" where
  "valid_parameters params \<longleftrightarrow> serialize_sidechain_parameters params = Ok (sidechain_parameter_bytes params)"

lemma valid_parametersD:
  assumes "valid_parameters params"
  shows "parameter_version params = 4" "minimum_share_version params \<noteq> 0"
    "minimum_share_version params \<le> maximum_share_version params"
    "target_share_seconds params \<noteq> 0" "minimum_share_difficulty params \<noteq> 0"
    "2 \<le> difficulty_window_shares params" "pplns_window_shares params \<noteq> 0"
    "pplns_window_shares params \<le> 31" "pplns_max_network_difficulty_multiplier params \<noteq> 0"
    "operator_fee_basis_points params \<noteq> 0" "operator_fee_basis_points params < 10000"
  using assms unfolding valid_parameters_def serialize_sidechain_parameters_def
    kSidechainParameterVersion_def kCanonicalPplnsWindowShares_def
    kOperatorFeeBasisPointDenominator_def
  by (auto split: if_splits)

lemma serialize_sidechain_eq_Ok:
  "serialize_sidechain_parameters params = Ok bs \<longleftrightarrow>
    valid_parameters params \<and> bs = sidechain_parameter_bytes params"
  unfolding valid_parameters_def serialize_sidechain_parameters_def by (auto split: if_splits)

lemma append_u64_be_inj: "append_u64_be x = append_u64_be y \<longleftrightarrow> x = y"
  using foldl_append_be(3) by metis

lemma sidechain_parameter_bytes_inj:
  assumes "sidechain_parameter_bytes p = sidechain_parameter_bytes q"
    "parameter_version p = parameter_version q"
  shows "p = q"
proof -
  have "parent_network p = parent_network q"
    using assms(1)
    by (cases "parent_network p"; cases "parent_network q")
      (simp_all add: sidechain_parameter_bytes_def)
  with assms show ?thesis
    by (simp add: sidechain_parameter_bytes_def append_eq_append_conv append_u64_be_inj
        byte_array_eq_iff [symmetric])
qed

end
