(* ===== verification/Sidechain_Difficulty.thy ===== *)
theory Sidechain_Difficulty
  imports Sidechain_Params
begin

text \<open>
  \<open>src/include/zano_p2pool/sidechain_difficulty.hpp\<close>: the branch-relative retarget. The
  unbounded \<open>cpp_int\<close> values are never negative here and are \<open>nat\<close>; timestamps stay 64 bit
  words and the deltas 32 bit words. \<open>std::nth_element\<close> promises the element that sorting would
  put at the index, which is what \<open>sort deltas ! index\<close> says.
\<close>

section \<open>Definitions\<close>

type_synonym chain_work = "32 byte_array"

record sidechain_difficulty_sample =
  sample_timestamp :: u64
  sample_cumulative_work :: chain_work

definition big_endian_to_int :: "u8 list \<Rightarrow> nat" where
  "big_endian_to_int bytes = foldl (\<lambda>value byte. push_bit 8 value + unat byte) 0 bytes"

fun int_low_bytes :: "nat \<Rightarrow> nat \<Rightarrow> u8 list \<times> nat" where
  "int_low_bytes 0 value = ([], value)"
| "int_low_bytes (Suc n) value =
    (case int_low_bytes n (drop_bit 8 value) of
      (bytes, rest) \<Rightarrow> (bytes @ [word_of_nat (value AND 0xff)], rest))"

definition int_to_difficulty128 :: "nat \<Rightarrow> difficulty128 result" where
  "int_to_difficulty128 value =
    (if value = 0 then Throw (Runtime_error ''sidechain difficulty must be positive'')
     else case int_low_bytes 16 value of
       (bytes, rest) \<Rightarrow>
         if rest \<noteq> 0 then Throw (Runtime_error ''sidechain difficulty exceeds 128 bits'')
         else Ok (array_of bytes))"

definition oldest_timestamp :: "sidechain_difficulty_sample list \<Rightarrow> u64" where
  "oldest_timestamp samples = fold (\<lambda>s oldest. min oldest (sample_timestamp s)) samples (- 1)"

fun timestamp_deltas :: "u64 \<Rightarrow> sidechain_difficulty_sample list \<Rightarrow> u32 list result" where
  "timestamp_deltas oldest [] = Ok []"
| "timestamp_deltas oldest (s # samples) =
    (let delta = sample_timestamp s - oldest
     in if delta > 0xffffffff
        then Throw (Runtime_error ''sidechain difficulty timestamp range is too large'')
        else bindE (timestamp_deltas oldest samples) (\<lambda>deltas. Ok (ucast delta # deltas)))"

definition retained_step ::
  "u64 \<Rightarrow> u64 \<Rightarrow> sidechain_difficulty_sample \<Rightarrow> (nat \<times> nat) option \<Rightarrow> (nat \<times> nat) option"
where
  "retained_step timestamp1 timestamp2 s found =
    (if sample_timestamp s < timestamp1 \<or> sample_timestamp s > timestamp2 then found
     else let work = big_endian_to_int (bytes_of (sample_cumulative_work s))
          in case found of
               None \<Rightarrow> Some (work, work)
             | Some (minimum_work, maximum_work) \<Rightarrow> Some (min minimum_work work, max maximum_work work))"

definition retained_work ::
  "u64 \<Rightarrow> u64 \<Rightarrow> sidechain_difficulty_sample list \<Rightarrow> (nat \<times> nat) option"
where
  "retained_work timestamp1 timestamp2 samples = fold (retained_step timestamp1 timestamp2) samples None"

definition retarget_samples ::
  "sidechain_difficulty_sample list \<Rightarrow> u64 \<Rightarrow> nat \<Rightarrow> nat \<Rightarrow> difficulty128 result"
where
  "retarget_samples samples target_seconds effective_minimum network =
    (let sample_count = length samples;
         oldest = oldest_timestamp samples
     in bindE (timestamp_deltas oldest samples) (\<lambda>deltas.
       let cut_size = (sample_count + 9) div 10;
           index1 = cut_size - 1;
           index2 = sample_count - cut_size;
           timestamp1 = oldest + ucast (sort deltas ! index1);
           timestamp2 = oldest + ucast (sort deltas ! index2);
           delta_index = (if index2 > index1 then word_of_nat (index2 - index1) else 1);
           timestamp_span = (if timestamp2 > timestamp1 then timestamp2 - timestamp1 else 0);
           delta_t = max timestamp_span delta_index
       in case retained_work timestamp1 timestamp2 samples of
            None \<Rightarrow> Throw (Runtime_error ''sidechain difficulty retained no samples'')
          | Some (minimum_work, maximum_work) \<Rightarrow>
              int_to_difficulty128
                (min (max ((maximum_work - minimum_work) * unat target_seconds div unat delta_t)
                       effective_minimum) network)))"

definition calculate_next_sidechain_difficulty ::
  "sidechain_difficulty_sample list \<Rightarrow> u64 \<Rightarrow> u64 \<Rightarrow> u64 \<Rightarrow> difficulty128 \<Rightarrow> difficulty128 result"
where
  "calculate_next_sidechain_difficulty history target_seconds minimum_difficulty window network_diff =
    (if target_seconds = 0 \<or> minimum_difficulty = 0 \<or> window < 2
     then Throw (Invalid_argument ''invalid sidechain difficulty parameters'')
     else if difficulty128_is_zero network_diff
     then Throw (Invalid_argument ''network difficulty must be nonzero'')
     else
       let network = big_endian_to_int (bytes_of network_diff);
           effective_minimum = min (unat minimum_difficulty) network
       in if history = [] then int_to_difficulty128 effective_minimum
          else retarget_samples (take (min (length history) (unat window)) history)
                 target_seconds effective_minimum network)"

definition calculate_next_sidechain_difficulty_params ::
  "sidechain_difficulty_sample list \<Rightarrow> sidechain_parameters \<Rightarrow> difficulty128 \<Rightarrow> difficulty128 result"
where
  "calculate_next_sidechain_difficulty_params history params network_diff =
    calculate_next_sidechain_difficulty history (target_share_seconds params)
      (minimum_share_difficulty params) (difficulty_window_shares params) network_diff"

section \<open>Conversions\<close>

lemma big_endian_to_int_be_val: "big_endian_to_int bytes = be_val bytes"
  by (simp add: big_endian_to_int_def be_val_def push_bit_eq_mult mult.commute)

lemma int_low_bytes: "int_low_bytes n v = (be_bytes n v, v div 256 ^ n)"
proof (induction n arbitrary: v)
  case (Suc n)
  have "v AND 0xff = v mod 256"
    using take_bit_eq_mask [of 8 v] by (simp add: mask_eq_exp_minus_1 take_bit_eq_mod)
  then have "(word_of_nat (v AND 0xff) :: u8) = word_of_nat v"
    by (simp add: word_unat_eq_iff unat_of_nat)
  with Suc show ?case
    by (simp add: drop_bit_eq_div div_mult2_eq)
qed simp

lemma int_to_difficulty128_ok:
  "0 < v \<Longrightarrow> v < 2 ^ 128 \<Longrightarrow> int_to_difficulty128 v = Ok (array_of_nat v)"
  by (simp add: int_to_difficulty128_def int_low_bytes array_of_nat_def)

section \<open>Retargeting\<close>

lemma oldest_timestamp_le: "s \<in> set samples \<Longrightarrow> oldest_timestamp samples \<le> sample_timestamp s"
proof -
  have "fold (\<lambda>s oldest. min oldest (sample_timestamp s)) samples x \<le> x \<and>
    (\<forall>s\<in>set samples. fold (\<lambda>s oldest. min oldest (sample_timestamp s)) samples x \<le> sample_timestamp s)"
    for x
  proof (induction samples arbitrary: x)
    case (Cons a samples)
    from Cons [of "min x (sample_timestamp a)"] show ?case by simp
  qed simp
  then show "s \<in> set samples \<Longrightarrow> oldest_timestamp samples \<le> sample_timestamp s"
    by (simp add: oldest_timestamp_def)
qed

lemma timestamp_deltas_Ok:
  "timestamp_deltas oldest samples = Ok deltas \<longleftrightarrow>
    (\<forall>s\<in>set samples. sample_timestamp s - oldest \<le> 0xffffffff) \<and>
    deltas = map (\<lambda>s. ucast (sample_timestamp s - oldest)) samples"
  by (induction samples arbitrary: deltas) (auto simp: Let_def bindE_eq_Ok not_less)

lemma retained_work_None:
  "retained_work t1 t2 samples = None \<longleftrightarrow>
    (\<forall>s\<in>set samples. sample_timestamp s < t1 \<or> t2 < sample_timestamp s)"
proof -
  have "fold (retained_step t1 t2) samples found = None \<longleftrightarrow>
    found = None \<and> (\<forall>s\<in>set samples. sample_timestamp s < t1 \<or> t2 < sample_timestamp s)" for found
    by (induction samples arbitrary: found)
      (auto simp: retained_step_def Let_def split: option.splits)
  then show ?thesis by (simp add: retained_work_def)
qed

lemma ucast_delta:
  assumes "(t :: u64) - oldest \<le> 0xffffffff"
  shows "ucast (ucast (t - oldest) :: u32) = t - oldest"
proof -
  have "unat (t - oldest) < 2 ^ 32"
    using assms by (simp add: word_le_nat_alt)
  then show ?thesis
    by (simp add: word_unat_eq_iff unsigned_ucast_eq unsigned_take_bit_eq take_bit_nat_eq_self)
qed

abbreviation range_error :: exn where
  "range_error \<equiv> Runtime_error ''sidechain difficulty timestamp range is too large''"

text \<open>The trimmed band is never empty: the sample at the lower cut has the lower timestamp.\<close>

lemma retained_band:
  assumes ne: "samples \<noteq> []" and d: "timestamp_deltas (oldest_timestamp samples) samples = Ok deltas"
    and i: "i \<le> j" "j < length samples"
  defines "t \<equiv> \<lambda>k. oldest_timestamp samples + ucast (sort deltas ! k)"
  shows "\<exists>s\<in>set samples. sample_timestamp s = t i" and "t i \<le> t j"
proof -
  let ?o = "oldest_timestamp samples"
  have D: "deltas = map (\<lambda>s. ucast (sample_timestamp s - ?o)) samples"
    and small: "\<And>s. s \<in> set samples \<Longrightarrow> sample_timestamp s - ?o \<le> 0xffffffff"
    using d by (auto simp: timestamp_deltas_Ok)
  have ex: "\<exists>s\<in>set samples. sort deltas ! k = ucast (sample_timestamp s - ?o) \<and> sample_timestamp s = t k"
    if "k < length samples" for k
  proof -
    from that have "sort deltas ! k \<in> set (sort deltas)"
      by (intro nth_mem) (simp add: D)
    then obtain s where s: "s \<in> set samples" "sort deltas ! k = ucast (sample_timestamp s - ?o)"
      by (auto simp: D)
    with ucast_delta [OF small [OF s(1)]] show ?thesis by (auto simp: t_def)
  qed
  from ex [of i] i show "\<exists>s\<in>set samples. sample_timestamp s = t i" by auto
  obtain a b where a: "a \<in> set samples" "sort deltas ! i = ucast (sample_timestamp a - ?o)"
      "sample_timestamp a = t i"
    and b: "b \<in> set samples" "sort deltas ! j = ucast (sample_timestamp b - ?o)"
      "sample_timestamp b = t j"
    using ex [of i] ex [of j] i by auto
  have "sort deltas ! i \<le> sort deltas ! j"
    using i by (intro sorted_nth_mono) (simp_all add: D)
  then have "(ucast (sort deltas ! i) :: u64) \<le> ucast (sort deltas ! j)"
    by (simp add: word_le_nat_alt unsigned_ucast_eq take_bit_nat_eq_self less_trans [OF unsigned_less])
  then have "t i - ?o \<le> t j - ?o"
    using a b ucast_delta [OF small [OF a(1)]] ucast_delta [OF small [OF b(1)]] by simp
  then show "t i \<le> t j"
    using oldest_timestamp_le [OF a(1)] oldest_timestamp_le [OF b(1)] a(3) b(3)
    by (simp add: word_le_nat_alt unat_sub)
qed

lemma retarget_samples_bounds:
  assumes "samples \<noteq> []" "0 < emin" "emin \<le> network" "network < 2 ^ 128"
    and d: "timestamp_deltas (oldest_timestamp samples) samples = Ok deltas"
  shows "\<exists>v. retarget_samples samples target emin network = Ok v \<and>
    emin \<le> arr_val v \<and> arr_val v \<le> network"
proof -
  let ?n = "length samples"
  let ?c = "(?n + 9) div 10"
  have n: "0 < ?n" using assms(1) by simp
  then have idx: "?c - 1 \<le> ?n - ?c" "?n - ?c < ?n" by linarith+
  note band = retained_band [OF assms(1) d idx]
  from band have "retained_work (oldest_timestamp samples + ucast (sort deltas ! (?c - 1)))
      (oldest_timestamp samples + ucast (sort deltas ! (?n - ?c))) samples \<noteq> None"
    unfolding retained_work_None by (metis leD order_less_irrefl)
  then obtain lo hi where r: "retained_work (oldest_timestamp samples + ucast (sort deltas ! (?c - 1)))
      (oldest_timestamp samples + ucast (sort deltas ! (?n - ?c))) samples = Some (lo, hi)"
    by (auto simp del: One_nat_def)
  have clamp: "\<exists>v. int_to_difficulty128 (min (max x emin) network) = Ok v \<and>
    emin \<le> arr_val v \<and> arr_val v \<le> network" for x
  proof -
    let ?m = "min (max x emin) network"
    have "0 < ?m" "?m < 2 ^ 128" using assms(2-4) by linarith+
    then show ?thesis
      using assms(3) by (simp add: int_to_difficulty128_ok arr_val_array_of_nat)
  qed
  show ?thesis
    unfolding retarget_samples_def Let_def d bindE_simps r option.case prod.case by (rule clamp)
qed

lemma calculate_next_cases:
  assumes "target \<noteq> 0" "minimum \<noteq> 0" "2 \<le> window" "net \<noteq> 0"
  shows "let samples = take (unat window) history in
    if \<exists>s\<in>set samples. sample_timestamp s - oldest_timestamp samples > 0xffffffff
    then calculate_next_sidechain_difficulty history target minimum window net =
      Throw range_error
    else \<exists>d. calculate_next_sidechain_difficulty history target minimum window net = Ok d \<and>
      min (unat minimum) (arr_val net) \<le> arr_val d \<and> arr_val d \<le> arr_val net"
proof -
  define samples where "samples = take (unat window) history"
  let ?emin = "min (unat minimum) (arr_val net)"
  have m: "0 < unat minimum" using assms(2) by (simp add: unat_gt_0)
  have e: "0 < ?emin" "?emin \<le> arr_val net" "arr_val net < 2 ^ 128" "?emin < 2 ^ 128"
    using m assms(4) arr_val_128_less [of net] by auto
  have calc: "calculate_next_sidechain_difficulty history target minimum window net =
      (if history = [] then Ok (array_of_nat ?emin)
       else retarget_samples samples target ?emin (arr_val net))"
  proof -
    have "take (min (length history) (unat window)) history = samples"
      by (simp add: samples_def min_def)
    moreover have "int_to_difficulty128 ?emin = Ok (array_of_nat ?emin)"
      using e by (intro int_to_difficulty128_ok)
    moreover have "\<not> window < 2" using assms(3) by simp
    ultimately show ?thesis
      using assms(1,2,4)
      by (simp add: calculate_next_sidechain_difficulty_def big_endian_to_int_be_val
          arr_val_def [symmetric] Let_def)
  qed
  have "if \<exists>s\<in>set samples. sample_timestamp s - oldest_timestamp samples > 0xffffffff
    then calculate_next_sidechain_difficulty history target minimum window net =
      Throw range_error
    else \<exists>d. calculate_next_sidechain_difficulty history target minimum window net = Ok d \<and>
      min (unat minimum) (arr_val net) \<le> arr_val d \<and> arr_val d \<le> arr_val net" (is ?G)
  proof (cases "history = []")
    case True
    then show ?G
      using e calc by (simp add: samples_def arr_val_array_of_nat)
  next
    case False
    have "0 < unat window" using assms(3) by (auto simp: word_le_nat_alt)
    with False have ne: "samples \<noteq> []" by (simp add: samples_def)
    show ?G
    proof (cases "timestamp_deltas (oldest_timestamp samples) samples")
      case (Inl exn)
      moreover have "exn = Runtime_error ''sidechain difficulty timestamp range is too large''"
        if "timestamp_deltas x ys = Throw exn" for x ys
        using that by (induction ys) (auto simp: Let_def bindE_eq_Throw split: if_splits)
      moreover have "\<exists>s\<in>set samples. sample_timestamp s - oldest_timestamp samples > 0xffffffff"
        using Inl timestamp_deltas_Ok [of "oldest_timestamp samples" samples] by (auto simp: not_le)
      ultimately show ?G
        using False calc by (simp add: retarget_samples_def)
    next
      case (Inr deltas)
      then show ?G
        using False calc retarget_samples_bounds [OF ne e(1-3) Inr, of target]
        by (auto simp: timestamp_deltas_Ok not_less)
    qed
  qed
  then show ?thesis unfolding samples_def Let_def .
qed

text \<open>C40. The retarget is total and bounded: with valid parameters and a nonzero network
  difficulty it fails only when the timestamps of the window span more than \<open>2^32 - 1\<close> seconds;
  otherwise it returns a difficulty between the effective minimum (the configured one capped by
  the network) and the network difficulty. It never retains an empty band of samples.\<close>

theorem calculate_next_sidechain_difficulty_bounds:
  assumes "target \<noteq> 0" "minimum \<noteq> 0" "2 \<le> window" "net \<noteq> 0"
  shows "let samples = take (unat window) history in
    if \<exists>s\<in>set samples. sample_timestamp s - oldest_timestamp samples > 0xffffffff
    then calculate_next_sidechain_difficulty history target minimum window net =
      Throw range_error
    else \<exists>d. calculate_next_sidechain_difficulty history target minimum window net = Ok d \<and>
      min (unat minimum) (arr_val net) \<le> arr_val d \<and> arr_val d \<le> arr_val net"
  using assms by (rule calculate_next_cases)

theorem calculate_next_sidechain_difficulty_bounds_witness:
  "\<exists>d. calculate_next_sidechain_difficulty
      [\<lparr>sample_timestamp = 110, sample_cumulative_work = array_of_nat 900\<rparr>,
       \<lparr>sample_timestamp = 100, sample_cumulative_work = array_of_nat 500\<rparr>]
      10 100 2160 (array_of_nat 5000) = Ok d \<and>
    100 \<le> arr_val d \<and> arr_val d \<le> 5000"
proof -
  have "(array_of_nat 5000 :: difficulty128) \<noteq> 0"
    by (simp add: arr_val_eq_0 [symmetric] arr_val_array_of_nat del: arr_val_eq_0)
  from calculate_next_sidechain_difficulty_bounds [of 10 100 2160, OF _ _ _ this,
      of "[\<lparr>sample_timestamp = 110, sample_cumulative_work = array_of_nat 900\<rparr>,
       \<lparr>sample_timestamp = 100, sample_cumulative_work = array_of_nat 500\<rparr>]"]
  show ?thesis
    by (simp add: oldest_timestamp_def arr_val_array_of_nat)
qed

end
