(* ===== verification/Share_Chain.thy ===== *)
theory Share_Chain
  imports Share_Validation Sidechain_Difficulty
begin

text \<open>
  \<open>src/include/zano_p2pool/share_chain.hpp\<close> and \<open>src/src/share_chain.cpp\<close>: cumulative work, the
  share chain state and every operation on it. A \<open>std::map\<close> is a finite map whose traversal is in
  key order. An operation that changes the state and may throw returns the state it leaves behind
  together with the result, so that a throw in the middle of a change keeps the partial change.
  \<open>std::sort\<close> with the comparators of this file orders by a key that is a total order, so its
  result is the stable sort by that key.
\<close>

section \<open>Cumulative work\<close>

definition share_work :: "difficulty128 \<Rightarrow> chain_work result" where
  "share_work difficulty =
    (if difficulty128_is_zero difficulty
     then Throw (Invalid_argument ''share difficulty must be greater than zero'')
     else Ok (array_of (replicate (32 - 16) 0 @ bytes_of difficulty)))"

definition chain_work_hex :: "chain_work \<Rightarrow> string" where
  "chain_work_hex work = bytes_to_hex (bytes_of work)"

text \<open>The addition loop, from the last byte to the first, with its carry.\<close>

fun add_bytes_carry :: "u8 list \<Rightarrow> u8 list \<Rightarrow> u8 list \<times> nat" where
  "add_bytes_carry (l # left) (r # right) =
    (case add_bytes_carry left right of
      (bytes, carry) \<Rightarrow>
        let sum = unat l + unat r + carry
        in (word_of_nat (sum AND 0xff) # bytes, drop_bit 8 sum))"
| "add_bytes_carry _ _ = ([], 0)"

definition add_chain_work_checked :: "chain_work \<Rightarrow> chain_work \<Rightarrow> bool \<times> chain_work" where
  "add_chain_work_checked left right =
    (case add_bytes_carry (bytes_of left) (bytes_of right) of
      (bytes, carry) \<Rightarrow> (carry = 0, array_of bytes))"

section \<open>State\<close>

record share_work_context =
  ctx_zano_height :: u64
  ctx_mining_header_hash :: hash256
  ctx_network_difficulty :: difficulty128

datatype share_disposition = Connected | Orphan | Duplicate | Rejected

datatype share_reject_reason =
    No_Reason
  | UnexpectedShareVersion
  | ZeroShareDifficulty
  | ZeroNetworkDifficulty
  | ShareDifficultyAboveNetwork
  | UnexpectedShareDifficulty
  | InvalidRootHeight
  | InvalidNonRootHeight
  | ParentHeightMismatch
  | TimestampTooFarFuture
  | TimestampBeforeParentTolerance
  | ZanoHeightMismatch
  | MiningHeaderMismatch
  | NetworkDifficultyMismatch
  | PowBackendUnavailable
  | InvalidPow
  | CumulativeWorkOverflow

record add_share_result =
  disposition :: share_disposition
  reject_reason :: share_reject_reason
  result_id :: share_id
  promoted_orphans :: nat
  best_tip_changed :: bool

datatype revalidate_share_status =
  Validated | AlreadyValidated | NotConnected | ParentUnvalidated | Revalidate_Rejected

record revalidate_share_result =
  revalidate_status :: revalidate_share_status
  revalidate_reason :: share_reject_reason
  revalidate_id :: share_id

record replay_validation_record =
  replay_share_id :: share_id
  replay_validation :: candidate_validation

record connected_share =
  cs_share :: share
  cs_id :: share_id
  cumulative_work :: chain_work
  pow_validation :: "candidate_validation option"
  validated_ancestry :: bool

record orphan_share =
  os_share :: share
  os_id :: share_id
  os_pow_validation :: "candidate_validation option"
  os_enforce_sidechain_difficulty :: bool

record difficulty_policy =
  policy_minimum_share_version :: u8
  policy_maximum_share_version :: u8
  policy_target_share_seconds :: u64
  policy_minimum_share_difficulty :: u64
  policy_difficulty_window_shares :: u64

record share_chain =
  connected :: "(share_id, connected_share) fmap"
  orphans :: "(share_id, orphan_share) fmap"
  orphans_by_parent :: "(share_id, share_id list) fmap"
  best_tip_id :: "share_id option"
  difficulty_policy :: "difficulty_policy option"
  parameter_id :: "hash256 option"

section \<open>Names\<close>

definition share_disposition_name :: "share_disposition \<Rightarrow> string" where
  "share_disposition_name d =
    (case d of Connected \<Rightarrow> ''connected'' | Orphan \<Rightarrow> ''orphan'' | Duplicate \<Rightarrow> ''duplicate''
     | Rejected \<Rightarrow> ''rejected'')"

definition revalidate_share_status_name :: "revalidate_share_status \<Rightarrow> string" where
  "revalidate_share_status_name st =
    (case st of Validated \<Rightarrow> ''validated'' | AlreadyValidated \<Rightarrow> ''already-validated''
     | NotConnected \<Rightarrow> ''not-connected'' | ParentUnvalidated \<Rightarrow> ''parent-unvalidated''
     | Revalidate_Rejected \<Rightarrow> ''rejected'')"

definition share_reject_reason_name :: "share_reject_reason \<Rightarrow> string" where
  "share_reject_reason_name reason =
    (case reason of
      No_Reason \<Rightarrow> ''none''
    | UnexpectedShareVersion \<Rightarrow> ''unexpected-share-version''
    | ZeroShareDifficulty \<Rightarrow> ''zero-share-difficulty''
    | ZeroNetworkDifficulty \<Rightarrow> ''zero-network-difficulty''
    | ShareDifficultyAboveNetwork \<Rightarrow> ''share-difficulty-above-network''
    | UnexpectedShareDifficulty \<Rightarrow> ''unexpected-share-difficulty''
    | InvalidRootHeight \<Rightarrow> ''invalid-root-height''
    | InvalidNonRootHeight \<Rightarrow> ''invalid-non-root-height''
    | ParentHeightMismatch \<Rightarrow> ''parent-height-mismatch''
    | TimestampTooFarFuture \<Rightarrow> ''timestamp-too-far-future''
    | TimestampBeforeParentTolerance \<Rightarrow> ''timestamp-before-parent-tolerance''
    | ZanoHeightMismatch \<Rightarrow> ''zano-height-mismatch''
    | MiningHeaderMismatch \<Rightarrow> ''mining-header-mismatch''
    | NetworkDifficultyMismatch \<Rightarrow> ''network-difficulty-mismatch''
    | PowBackendUnavailable \<Rightarrow> ''pow-backend-unavailable''
    | InvalidPow \<Rightarrow> ''invalid-pow''
    | CumulativeWorkOverflow \<Rightarrow> ''cumulative-work-overflow'')"

section \<open>Construction and queries\<close>

definition empty_share_chain :: share_chain where
  "empty_share_chain =
    \<lparr>connected = fmempty, orphans = fmempty, orphans_by_parent = fmempty, best_tip_id = None,
     difficulty_policy = None, parameter_id = None\<rparr>"

definition make_share_chain :: "sidechain_parameters \<Rightarrow> share_chain result" where
  "make_share_chain params =
    bindE (serialize_sidechain_parameters params) (\<lambda>_.
    bindE (sidechain_id params) (\<lambda>i.
      Ok (empty_share_chain\<lparr>
        parameter_id := Some i,
        difficulty_policy := Some
          \<lparr>policy_minimum_share_version = minimum_share_version params,
           policy_maximum_share_version = maximum_share_version params,
           policy_target_share_seconds = target_share_seconds params,
           policy_minimum_share_difficulty = minimum_share_difficulty params,
           policy_difficulty_window_shares = difficulty_window_shares params\<rparr>\<rparr>)))"

definition enforces_sidechain_difficulty :: "share_chain \<Rightarrow> bool" where
  "enforces_sidechain_difficulty c \<longleftrightarrow> difficulty_policy c \<noteq> None"

definition matches_sidechain_parameters :: "share_chain \<Rightarrow> sidechain_parameters \<Rightarrow> bool result" where
  "matches_sidechain_parameters c params =
    (case parameter_id c of
      None \<Rightarrow> Ok False
    | Some p \<Rightarrow> bindE (sidechain_id params) (\<lambda>i. Ok (p = i)))"

definition find :: "share_chain \<Rightarrow> share_id \<Rightarrow> connected_share option" where
  "find c i = fmlookup (connected c) i"

definition find_orphan_share :: "share_chain \<Rightarrow> share_id \<Rightarrow> share option" where
  "find_orphan_share c i = map_option os_share (fmlookup (orphans c) i)"

definition best_tip :: "share_chain \<Rightarrow> connected_share option" where
  "best_tip c = (case best_tip_id c of None \<Rightarrow> None | Some i \<Rightarrow> find c i)"

definition contains :: "share_chain \<Rightarrow> share_id \<Rightarrow> bool" where
  "contains c i \<longleftrightarrow> i |\<in>| fmdom (connected c)"

definition is_orphan :: "share_chain \<Rightarrow> share_id \<Rightarrow> bool" where
  "is_orphan c i \<longleftrightarrow> i |\<in>| fmdom (orphans c)"

text \<open>The walk towards the root; \<open>None\<close> stands for a walk that never ends.\<close>

partial_function (option) walk_to :: "share_chain \<Rightarrow> share_id \<Rightarrow> connected_share option \<Rightarrow> bool option" where
  "walk_to c i current =
    (case current of
      None \<Rightarrow> Some False
    | Some cs \<Rightarrow>
        if cs_id cs = i then Some True
        else if is_zero_share_id (parent_id (cs_share cs)) then Some False
        else walk_to c i (find c (parent_id (cs_share cs))))"

definition is_on_best_chain :: "share_chain \<Rightarrow> share_id \<Rightarrow> bool option" where
  "is_on_best_chain c i = walk_to c i (best_tip c)"

definition is_stale :: "share_chain \<Rightarrow> share_id \<Rightarrow> bool option" where
  "is_stale c i = (if contains c i then map_option Not (is_on_best_chain c i) else Some False)"

definition connected_size :: "share_chain \<Rightarrow> nat" where
  "connected_size c = fcard (fmdom (connected c))"

definition orphan_size :: "share_chain \<Rightarrow> nat" where
  "orphan_size c = fcard (fmdom (orphans c))"

definition connected_share_ids :: "share_chain \<Rightarrow> share_id list" where
  "connected_share_ids c = sorted_list_of_fset (fmdom (connected c))"

definition persistence_snapshot :: "share_chain \<Rightarrow> share list" where
  "persistence_snapshot c =
    (let records = map (\<lambda>(i, cs). (i, cs_share cs)) (sorted_list_of_fmap (connected c)) @
                   map (\<lambda>(i, os). (i, os_share os)) (sorted_list_of_fmap (orphans c))
     in map snd (sort_key (\<lambda>(i, s). (share_height s, i)) records))"

section \<open>Admission checks\<close>

definition structural_reject_reason :: "share_chain \<Rightarrow> share \<Rightarrow> share_reject_reason" where
  "structural_reject_reason c s =
    (if (case difficulty_policy c of
           None \<Rightarrow> False
         | Some p \<Rightarrow> version s < policy_minimum_share_version p \<or> version s > policy_maximum_share_version p)
     then UnexpectedShareVersion
     else if difficulty128_is_zero (share_difficulty s) then ZeroShareDifficulty
     else if difficulty128_is_zero (network_difficulty s) then ZeroNetworkDifficulty
     else if share_difficulty s > network_difficulty s then ShareDifficultyAboveNetwork
     else if is_zero_share_id (parent_id s)
     then (if share_height s \<noteq> 0 then InvalidRootHeight else No_Reason)
     else if share_height s = 0 then InvalidNonRootHeight
     else No_Reason)"

definition trusted_context_reject_reason :: "share \<Rightarrow> share_work_context \<Rightarrow> share_reject_reason" where
  "trusted_context_reject_reason s ctx =
    (if zano_height s \<noteq> ctx_zano_height ctx then ZanoHeightMismatch
     else if mining_header_hash s \<noteq> ctx_mining_header_hash ctx then MiningHeaderMismatch
     else if network_difficulty s \<noteq> ctx_network_difficulty ctx then NetworkDifficultyMismatch
     else No_Reason)"

definition absolute_timestamp_reject_reason :: "share \<Rightarrow> u64 \<Rightarrow> share_reject_reason" where
  "absolute_timestamp_reject_reason s now =
    (if timestamp s > now \<and> timestamp s - now > kShareMaxFutureSeconds
     then TimestampTooFarFuture else No_Reason)"

definition parent_timestamp_reject_reason :: "share \<Rightarrow> share \<Rightarrow> share_reject_reason" where
  "parent_timestamp_reject_reason s parent =
    (if timestamp s \<ge> timestamp parent then No_Reason
     else if timestamp parent - timestamp s > kShareMaxParentBackstepSeconds
     then TimestampBeforeParentTolerance else No_Reason)"

text \<open>The guard \<open>parent.share_height == UINT64_MAX || share.share_height != parent.share_height + 1\<close>.\<close>

definition parent_height_mismatch :: "share \<Rightarrow> share \<Rightarrow> bool" where
  "parent_height_mismatch s parent \<longleftrightarrow>
    share_height parent = - 1 \<or> share_height s \<noteq> share_height parent + 1"

section \<open>Expected difficulty\<close>

definition sample_of :: "connected_share \<Rightarrow> sidechain_difficulty_sample" where
  "sample_of cs =
    \<lparr>sample_timestamp = timestamp (cs_share cs), sample_cumulative_work = cumulative_work cs\<rparr>"

function difficulty_history ::
  "share_chain \<Rightarrow> nat \<Rightarrow> connected_share \<Rightarrow> sidechain_difficulty_sample list \<Rightarrow>
    sidechain_difficulty_sample list result"
where
  "difficulty_history c window current history =
    (if length history < window then
       let history' = history @ [sample_of current]
       in if is_zero_share_id (parent_id (cs_share current)) then Ok history'
          else case find c (parent_id (cs_share current)) of
                 None \<Rightarrow> Throw (Logic_error ''connected sidechain share has a missing parent'')
               | Some parent \<Rightarrow> difficulty_history c window parent history'
     else Ok history)"
  by pat_completeness auto
termination
  by (relation "measure (\<lambda>(c, window, current, history). window - length history)") auto

declare difficulty_history.simps [simp del]

definition expected_child_share_difficulty ::
  "share_chain \<Rightarrow> share_id \<Rightarrow> difficulty128 \<Rightarrow> difficulty128 result"
where
  "expected_child_share_difficulty c parent network_diff =
    (case difficulty_policy c of
      None \<Rightarrow> Throw (Logic_error ''sidechain difficulty policy is not configured'')
    | Some p \<Rightarrow>
        bindE
          (if is_zero_share_id parent then Ok []
           else case find c parent of
             None \<Rightarrow> Throw (Invalid_argument ''sidechain difficulty parent is not connected'')
           | Some cs \<Rightarrow> difficulty_history c (unat (policy_difficulty_window_shares p)) cs [])
          (\<lambda>history.
            calculate_next_sidechain_difficulty history (policy_target_share_seconds p)
              (policy_minimum_share_difficulty p) (policy_difficulty_window_shares p) network_diff))"

definition expected_next_share_difficulty :: "share_chain \<Rightarrow> difficulty128 \<Rightarrow> difficulty128 result" where
  "expected_next_share_difficulty c network_diff =
    expected_child_share_difficulty c
      (case best_tip c of None \<Rightarrow> 0 | Some tip \<Rightarrow> cs_id tip) network_diff"

definition expected_difficulty_reject_reason :: "share_chain \<Rightarrow> share \<Rightarrow> share_reject_reason result" where
  "expected_difficulty_reject_reason c s =
    (if difficulty_policy c = None then Ok No_Reason
     else if \<not> is_zero_share_id (parent_id s) \<and> \<not> contains c (parent_id s) then Ok No_Reason
     else bindE (expected_child_share_difficulty c (parent_id s) (network_difficulty s)) (\<lambda>expected.
       Ok (if share_difficulty s = expected then No_Reason else UnexpectedShareDifficulty)))"

section \<open>Connecting a share\<close>

definition better_tip :: "connected_share \<Rightarrow> connected_share \<Rightarrow> bool" where
  "better_tip candidate current =
    (if cumulative_work candidate \<noteq> cumulative_work current
     then cumulative_work candidate > cumulative_work current
     else if share_height (cs_share candidate) \<noteq> share_height (cs_share current)
     then share_height (cs_share candidate) > share_height (cs_share current)
     else cs_id candidate < cs_id current)"

text \<open>The checks of \<open>connect_share\<close> up to the insertion: a reject reason, or the cumulative work
  of the new share. They do not change the chain.\<close>

definition connect_parent_reason :: "share_chain \<Rightarrow> share \<Rightarrow> share_reject_reason result" where
  "connect_parent_reason c s =
    (if is_zero_share_id (parent_id s) then Ok No_Reason
     else case fmlookup (connected c) (parent_id s) of
       None \<Rightarrow> Throw (Logic_error ''connect_share called without a connected parent'')
     | Some parent \<Rightarrow>
         Ok (if parent_height_mismatch s (cs_share parent) then ParentHeightMismatch
             else parent_timestamp_reject_reason s (cs_share parent)))"

definition connect_checks :: "share_chain \<Rightarrow> share \<Rightarrow> bool \<Rightarrow> (share_reject_reason + chain_work) result" where
  "connect_checks c s enforce =
    bindE (share_work (share_difficulty s)) (\<lambda>own_work.
    bindE (connect_parent_reason c s) (\<lambda>parent_reason.
      if parent_reason \<noteq> No_Reason then Ok (Inl parent_reason)
      else bindE (if enforce then expected_difficulty_reject_reason c s else Ok No_Reason)
        (\<lambda>difficulty_reason.
          if difficulty_reason \<noteq> No_Reason then Ok (Inl difficulty_reason)
          else if is_zero_share_id (parent_id s) then Ok (Inr own_work)
          else case add_chain_work_checked
                 (cumulative_work (the (fmlookup (connected c) (parent_id s)))) own_work of
            (fits, summed) \<Rightarrow> Ok (if fits then Inr summed else Inl CumulativeWorkOverflow))))"

definition connect_validated_ancestry ::
  "share_chain \<Rightarrow> share \<Rightarrow> candidate_validation option \<Rightarrow> bool \<Rightarrow> bool"
where
  "connect_validated_ancestry c s validation enforce \<longleftrightarrow>
    enforce \<and> (case validation of None \<Rightarrow> False | Some v \<Rightarrow> meets_share_difficulty v) \<and>
    (is_zero_share_id (parent_id s) \<or>
     validated_ancestry (the (fmlookup (connected c) (parent_id s))))"

text \<open>The insertion and the choice of the best tip; the flag is the \<open>best_tip_changed\<close> reference.\<close>

definition insert_connected :: "share_chain \<Rightarrow> connected_share \<Rightarrow> bool \<Rightarrow> share_chain \<times> bool result" where
  "insert_connected c cs changed =
    (if cs_id cs |\<in>| fmdom (connected c)
     then (c, Throw (Logic_error ''duplicate share reached connect_share''))
     else
       let c' = c\<lparr>connected := fmupd (cs_id cs) cs (connected c)\<rparr>
       in case best_tip_id c' of
            None \<Rightarrow> (c'\<lparr>best_tip_id := Some (cs_id cs)\<rparr>, Ok True)
          | Some b \<Rightarrow>
              (case fmlookup (connected c') b of
                None \<Rightarrow> (c', Throw (Logic_error ''best-tip invariant failed''))
              | Some best \<Rightarrow>
                  if better_tip cs best then (c'\<lparr>best_tip_id := Some (cs_id cs)\<rparr>, Ok True)
                  else (c', Ok changed)))"

definition connect_share ::
  "share_chain \<Rightarrow> share \<Rightarrow> share_id \<Rightarrow> candidate_validation option \<Rightarrow> bool \<Rightarrow> bool \<Rightarrow>
    share_chain \<times> (share_reject_reason \<times> bool) result"
where
  "connect_share c s i validation enforce changed =
    (case connect_checks c s enforce of
      Inl e \<Rightarrow> (c, Throw e)
    | Inr (Inl reason) \<Rightarrow> (c, Ok (reason, changed))
    | Inr (Inr cumulative) \<Rightarrow>
        (case insert_connected c
                \<lparr>cs_share = s, cs_id = i, cumulative_work = cumulative, pow_validation = validation,
                 validated_ancestry = connect_validated_ancestry c s validation enforce\<rparr> changed of
          (c', Inl e) \<Rightarrow> (c', Throw e)
        | (c', Inr changed') \<Rightarrow> (c', Ok (No_Reason, changed'))))"

section \<open>Promoting orphans\<close>

lemma insert_connected_frame:
  assumes "insert_connected c cs b = (c', r)"
  shows "orphans c' = orphans c" "orphans_by_parent c' = orphans_by_parent c"
    "difficulty_policy c' = difficulty_policy c" "parameter_id c' = parameter_id c"
  using assms by (auto simp: insert_connected_def Let_def split: if_splits option.splits)

lemma connect_share_frame:
  assumes "connect_share c s i v e b = (c', r)"
  shows "orphans c' = orphans c" "orphans_by_parent c' = orphans_by_parent c"
    "difficulty_policy c' = difficulty_policy c" "parameter_id c' = parameter_id c"
proof -
  consider "c' = c" | cs x where "insert_connected c cs b = (c', x)"
    using assms unfolding connect_share_def
    by (cases "connect_checks c s e"; force split: sum.splits prod.splits)
  then show "orphans c' = orphans c" "orphans_by_parent c' = orphans_by_parent c"
    "difficulty_policy c' = difficulty_policy c" "parameter_id c' = parameter_id c"
    using insert_connected_frame by (cases; simp)+
qed

lemma fcard_fmdrop_less:
  "fmlookup m k = Some v \<Longrightarrow> fcard (fmdom m |-| {|k|}) < fcard (fmdom m)"
  by (rule pfsubset_fcard_mono) (auto dest: fmdomI)

text \<open>
  \<open>promote_children\<close> connects the orphans that wait for a share, depth first: the waiting list of
  a promoted child is handled before the child's next sibling. The recursion is written with the
  list of identifiers still to handle; \<open>promote_loop_Cons_promote\<close> below restates it in the
  recursive form of the source.
\<close>

function promote_loop ::
  "share_id list \<Rightarrow> share_chain \<Rightarrow> nat \<Rightarrow> bool \<Rightarrow> share_chain \<times> (nat \<times> bool) result"
where
  "promote_loop [] c promoted changed = (c, Ok (promoted, changed))"
| "promote_loop (child # rest) c promoted changed =
    (case fmlookup (orphans c) child of
      None \<Rightarrow> promote_loop rest c promoted changed
    | Some orphan \<Rightarrow>
        (case connect_share c (os_share orphan) child (os_pow_validation orphan)
                (os_enforce_sidechain_difficulty orphan) changed of
          (c1, Inl e) \<Rightarrow> (c1, Throw e)
        | (c1, Inr (reason, changed')) \<Rightarrow>
            let c2 = c1\<lparr>orphans := fmdrop child (orphans c1)\<rparr>
            in if reason = No_Reason then
                 (case fmlookup (orphans_by_parent c2) child of
                   None \<Rightarrow> promote_loop rest c2 (Suc promoted) changed'
                 | Some waiting \<Rightarrow>
                     promote_loop (sort waiting @ rest)
                       (c2\<lparr>orphans_by_parent := fmdrop child (orphans_by_parent c2)\<rparr>)
                       (Suc promoted) changed')
               else promote_loop rest c2 promoted changed'))"
  by pat_completeness auto
termination
  by (relation "measures [\<lambda>(ids, c, _). fcard (fmdom (orphans_by_parent c)), \<lambda>(ids, c, _). length ids]")
    (auto dest: connect_share_frame(2) [OF sym] simp: fcard_fmdrop_less)

declare promote_loop.simps(2) [simp del]

definition promote_children ::
  "share_chain \<Rightarrow> share_id \<Rightarrow> nat \<Rightarrow> bool \<Rightarrow> share_chain \<times> (nat \<times> bool) result"
where
  "promote_children c parent promoted changed =
    (case fmlookup (orphans_by_parent c) parent of
      None \<Rightarrow> (c, Ok (promoted, changed))
    | Some waiting \<Rightarrow>
        promote_loop (sort waiting)
          (c\<lparr>orphans_by_parent := fmdrop parent (orphans_by_parent c)\<rparr>) promoted changed)"

section \<open>Adding shares\<close>

definition fresh_result :: "share_id \<Rightarrow> add_share_result" where
  "fresh_result i =
    \<lparr>disposition = Rejected, reject_reason = No_Reason, result_id = i, promoted_orphans = 0,
     best_tip_changed = False\<rparr>"

definition is_known :: "share_chain \<Rightarrow> share_id \<Rightarrow> bool" where
  "is_known c i \<longleftrightarrow> i |\<in>| fmdom (connected c) \<or> i |\<in>| fmdom (orphans c)"

text \<open>The branch that keeps a share whose parent is unknown.\<close>

definition keep_orphan ::
  "share_chain \<Rightarrow> share \<Rightarrow> share_id \<Rightarrow> candidate_validation option \<Rightarrow> bool \<Rightarrow> share_chain"
where
  "keep_orphan c s i validation enforce =
    c\<lparr>orphans := fmupd i \<lparr>os_share = s, os_id = i, os_pow_validation = validation,
                         os_enforce_sidechain_difficulty = enforce\<rparr> (orphans c),
      orphans_by_parent := fmupd (parent_id s)
        ((case fmlookup (orphans_by_parent c) (parent_id s) of None \<Rightarrow> [] | Some ids \<Rightarrow> ids) @ [i])
        (orphans_by_parent c)\<rparr>"

text \<open>The branch that connects a share and then promotes the orphans that waited for it.\<close>

definition connect_and_promote ::
  "share_chain \<Rightarrow> share \<Rightarrow> share_id \<Rightarrow> candidate_validation option \<Rightarrow> bool \<Rightarrow>
    share_chain \<times> add_share_result result"
where
  "connect_and_promote c s i validation enforce =
    (case connect_share c s i validation enforce False of
      (c1, Inl e) \<Rightarrow> (c1, Throw e)
    | (c1, Inr (reason, changed)) \<Rightarrow>
        if reason \<noteq> No_Reason
        then (c1, Ok ((fresh_result i)\<lparr>reject_reason := reason, best_tip_changed := changed\<rparr>))
        else
          (case promote_children c1 i 0 changed of
            (c2, Inl e) \<Rightarrow> (c2, Throw e)
          | (c2, Inr (promoted, _)) \<Rightarrow>
              (c2, Ok ((fresh_result i)\<lparr>disposition := Connected, promoted_orphans := promoted,
                         best_tip_changed := (best_tip_id c \<noteq> best_tip_id c2)\<rparr>))))"

definition add_prevalidated_share ::
  "share_chain \<Rightarrow> share \<Rightarrow> candidate_validation option \<Rightarrow> bool \<Rightarrow> share_chain \<times> add_share_result result"
where
  "add_prevalidated_share c s validation enforce =
    (case share_id s of
      Inl e \<Rightarrow> (c, Throw e)
    | Inr i \<Rightarrow>
        if is_known c i then (c, Ok ((fresh_result i)\<lparr>disposition := Duplicate\<rparr>))
        else let reason = structural_reject_reason c s in
          if reason \<noteq> No_Reason then (c, Ok ((fresh_result i)\<lparr>reject_reason := reason\<rparr>))
          else if \<not> is_zero_share_id (parent_id s) \<and> parent_id s |\<notin>| fmdom (connected c)
          then (keep_orphan c s i validation enforce, Ok ((fresh_result i)\<lparr>disposition := Orphan\<rparr>))
          else connect_and_promote c s i validation enforce)"

definition add_share_unchecked :: "share_chain \<Rightarrow> share \<Rightarrow> share_chain \<times> add_share_result result" where
  "add_share_unchecked c s = add_prevalidated_share c s None False"

text \<open>The checks of \<open>submit_share\<close> against a parent that is already connected.\<close>

definition submit_parent_reason :: "share_chain \<Rightarrow> share \<Rightarrow> share_reject_reason" where
  "submit_parent_reason c s =
    (if is_zero_share_id (parent_id s) then No_Reason
     else case fmlookup (connected c) (parent_id s) of
       None \<Rightarrow> No_Reason
     | Some parent \<Rightarrow>
         if parent_height_mismatch s (cs_share parent) then ParentHeightMismatch
         else parent_timestamp_reject_reason s (cs_share parent))"

definition submit_pow ::
  "progpow_backend option \<Rightarrow> share \<Rightarrow> share_work_context \<Rightarrow> progpowz_context_mode \<Rightarrow>
    candidate_validation result"
where
  "submit_pow backend s ctx mode =
    validate_candidate backend (ctx_zano_height ctx) (ctx_mining_header_hash ctx) (nonce s)
      (difficulty128_to_decimal (share_difficulty s))
      (difficulty128_to_decimal (ctx_network_difficulty ctx)) mode"

definition submit_share ::
  "progpow_backend option \<Rightarrow> share_chain \<Rightarrow> share \<Rightarrow> share_work_context \<Rightarrow> u64 \<Rightarrow> progpowz_context_mode \<Rightarrow>
    share_chain \<times> add_share_result result"
where
  "submit_share backend c s ctx now mode =
    (case share_id s of
      Inl e \<Rightarrow> (c, Throw e)
    | Inr i \<Rightarrow>
        let reject = (\<lambda>reason. (c, Ok ((fresh_result i)\<lparr>reject_reason := reason\<rparr>))) in
        if is_known c i then (c, Ok ((fresh_result i)\<lparr>disposition := Duplicate\<rparr>))
        else if structural_reject_reason c s \<noteq> No_Reason then reject (structural_reject_reason c s)
        else if trusted_context_reject_reason s ctx \<noteq> No_Reason
        then reject (trusted_context_reject_reason s ctx)
        else if absolute_timestamp_reject_reason s now \<noteq> No_Reason
        then reject (absolute_timestamp_reject_reason s now)
        else if submit_parent_reason c s \<noteq> No_Reason then reject (submit_parent_reason c s)
        else (case expected_difficulty_reject_reason c s of
          Inl e \<Rightarrow> (c, Throw e)
        | Inr difficulty_reason \<Rightarrow>
            if difficulty_reason \<noteq> No_Reason then reject difficulty_reason
            else if \<not> progpowz_available backend then reject PowBackendUnavailable
            else (case submit_pow backend s ctx mode of
              Inl e \<Rightarrow> (c, Throw e)
            | Inr v \<Rightarrow>
                if \<not> meets_share_difficulty v \<or> classification v = Invalid then reject InvalidPow
                else add_prevalidated_share c s (Some v) (difficulty_policy c \<noteq> None))))"

section \<open>Revalidation of replayed shares\<close>

definition revalidate_result ::
  "share_id \<Rightarrow> revalidate_share_status \<Rightarrow> share_reject_reason \<Rightarrow> revalidate_share_result"
where
  "revalidate_result i status reason =
    \<lparr>revalidate_status = status, revalidate_reason = reason, revalidate_id = i\<rparr>"

text \<open>The parent checks: \<open>None\<close> when they pass, the early result otherwise.\<close>

definition revalidate_parent ::
  "share_chain \<Rightarrow> share_id \<Rightarrow> share \<Rightarrow> revalidate_share_result option"
where
  "revalidate_parent c i s =
    (if is_zero_share_id (parent_id s) then None
     else case fmlookup (connected c) (parent_id s) of
       None \<Rightarrow> Some (revalidate_result i Revalidate_Rejected ParentHeightMismatch)
     | Some parent \<Rightarrow>
         if \<not> validated_ancestry parent then Some (revalidate_result i ParentUnvalidated No_Reason)
         else if parent_height_mismatch s (cs_share parent)
         then Some (revalidate_result i Revalidate_Rejected ParentHeightMismatch)
         else if parent_timestamp_reject_reason s (cs_share parent) \<noteq> No_Reason
         then Some (revalidate_result i Revalidate_Rejected
                (parent_timestamp_reject_reason s (cs_share parent)))
         else None)"

definition revalidate_connected_share ::
  "progpow_backend option \<Rightarrow> share_chain \<Rightarrow> share_id \<Rightarrow> share_work_context \<Rightarrow> u64 \<Rightarrow> progpowz_context_mode \<Rightarrow>
    share_chain \<times> revalidate_share_result result"
where
  "revalidate_connected_share backend c i ctx now mode =
    (let done = (\<lambda>status reason. (c, Ok (revalidate_result i status reason))) in
     case fmlookup (connected c) i of
       None \<Rightarrow> done NotConnected No_Reason
     | Some cs \<Rightarrow>
         if validated_ancestry cs then done AlreadyValidated No_Reason
         else if difficulty_policy c = None then done Revalidate_Rejected UnexpectedShareDifficulty
         else let s = cs_share cs in
           if structural_reject_reason c s \<noteq> No_Reason
           then done Revalidate_Rejected (structural_reject_reason c s)
           else if trusted_context_reject_reason s ctx \<noteq> No_Reason
           then done Revalidate_Rejected (trusted_context_reject_reason s ctx)
           else if absolute_timestamp_reject_reason s now \<noteq> No_Reason
           then done Revalidate_Rejected (absolute_timestamp_reject_reason s now)
           else (case revalidate_parent c i s of
             Some early \<Rightarrow> (c, Ok early)
           | None \<Rightarrow>
               (case expected_difficulty_reject_reason c s of
                 Inl e \<Rightarrow> (c, Throw e)
               | Inr difficulty_reason \<Rightarrow>
                   if difficulty_reason \<noteq> No_Reason then done Revalidate_Rejected difficulty_reason
                   else if \<not> progpowz_available backend then done Revalidate_Rejected PowBackendUnavailable
                   else (case submit_pow backend s ctx mode of
                     Inl e \<Rightarrow> (c, Throw e)
                   | Inr v \<Rightarrow>
                       if \<not> meets_share_difficulty v \<or> classification v = Invalid
                       then done Revalidate_Rejected InvalidPow
                       else (c\<lparr>connected := fmupd i
                                 (cs\<lparr>pow_validation := Some v, validated_ancestry := True\<rparr>)
                                 (connected c)\<rparr>,
                             Ok (revalidate_result i Validated No_Reason))))))"

section \<open>Replay-validation snapshots\<close>

definition replay_validation_consistent :: "candidate_validation \<Rightarrow> bool" where
  "replay_validation_consistent v \<longleftrightarrow>
    meets_share_difficulty v \<and>
    (case classification v of
      Share_Candidate \<Rightarrow> \<not> meets_network_difficulty v
    | Block_Candidate \<Rightarrow> meets_network_difficulty v
    | Invalid \<Rightarrow> False)"

definition replay_validation_equal :: "candidate_validation \<Rightarrow> candidate_validation \<Rightarrow> bool" where
  "replay_validation_equal left right \<longleftrightarrow>
    final_hash (pow left) = final_hash (pow right) \<and>
    mix_hash (pow left) = mix_hash (pow right) \<and>
    meets_share_difficulty left = meets_share_difficulty right \<and>
    meets_network_difficulty left = meets_network_difficulty right \<and>
    classification left = classification right"

definition parent_validated :: "share_chain \<Rightarrow> share \<Rightarrow> bool" where
  "parent_validated c s \<longleftrightarrow>
    (case fmlookup (connected c) (parent_id s) of
      None \<Rightarrow> False | Some parent \<Rightarrow> validated_ancestry parent)"

definition snapshot_step ::
  "share_chain \<Rightarrow> share_id \<times> connected_share \<Rightarrow> connected_share list \<Rightarrow> connected_share list result"
where
  "snapshot_step c entry validated =
    (let cs = snd entry in
     if \<not> validated_ancestry cs then Ok validated
     else if (case pow_validation cs of None \<Rightarrow> True | Some v \<Rightarrow> \<not> replay_validation_consistent v)
     then Throw (Logic_error ''validated replay share has inconsistent PoW cache'')
     else bindE (share_id (cs_share cs)) (\<lambda>i.
       if i \<noteq> cs_id cs
       then Throw (Logic_error ''connected replay-validation ShareId invariant failed'')
       else if \<not> is_zero_share_id (parent_id (cs_share cs)) \<and> \<not> parent_validated c (cs_share cs)
       then Throw (Logic_error ''validated replay share has unvalidated parent'')
       else Ok (validated @ [cs])))"

definition replay_validation_snapshot :: "share_chain \<Rightarrow> replay_validation_record list result" where
  "replay_validation_snapshot c =
    (if difficulty_policy c = None
     then Throw (Logic_error ''replay-validation snapshot requires configured sidechain policy'')
     else bindE (forE (snapshot_step c) (sorted_list_of_fmap (connected c)) []) (\<lambda>validated.
       Ok (map (\<lambda>cs. \<lparr>replay_share_id = cs_id cs, replay_validation = the (pow_validation cs)\<rparr>)
             (sort_key (\<lambda>cs. (share_height (cs_share cs), cs_id cs)) validated))))"

text \<open>Restore, first part: the invariant of the state that is already validated.\<close>

definition restore_existing_step ::
  "share_id \<times> connected_share \<Rightarrow> share_id set \<Rightarrow> share_id set result"
where
  "restore_existing_step entry validated =
    (let i = fst entry; cs = snd entry in
     if \<not> validated_ancestry cs then Ok validated
     else if (case pow_validation cs of None \<Rightarrow> True | Some v \<Rightarrow> \<not> replay_validation_consistent v)
     then Throw (Logic_error ''existing validated replay share has inconsistent PoW cache'')
     else bindE (share_id (cs_share cs)) (\<lambda>j.
       if j \<noteq> i then Throw (Logic_error ''existing connected ShareId invariant failed'')
       else Ok (insert i validated)))"

definition restore_ancestry_step ::
  "share_chain \<Rightarrow> share_id \<times> connected_share \<Rightarrow> unit \<Rightarrow> unit result"
where
  "restore_ancestry_step c entry u =
    (let cs = snd entry in
     if \<not> validated_ancestry cs \<or> is_zero_share_id (parent_id (cs_share cs)) then Ok u
     else if \<not> parent_validated c (cs_share cs)
     then Throw (Logic_error ''existing validated ancestry has invalid parent state'')
     else Ok u)"

text \<open>Second part: every record names one connected share.\<close>

definition restore_resolve_step ::
  "share_chain \<Rightarrow> replay_validation_record \<Rightarrow> share_id set \<times> replay_validation_record list \<Rightarrow>
    (share_id set \<times> replay_validation_record list) result"
where
  "restore_resolve_step c r st =
    (case st of (seen, ordered) \<Rightarrow>
      if is_zero_share_id (replay_share_id r)
      then Throw (Runtime_error ''replay-validation restore contains zero ShareId'')
      else if replay_share_id r \<in> seen
      then Throw (Runtime_error ''replay-validation restore contains duplicate ShareId'')
      else if \<not> replay_validation_consistent (replay_validation r)
      then Throw (Runtime_error ''replay-validation restore contains inconsistent PoW state'')
      else (case fmlookup (connected c) (replay_share_id r) of
        None \<Rightarrow> Throw (Runtime_error ''replay-validation restore ShareId is not connected'')
      | Some cs \<Rightarrow> bindE (share_id (cs_share cs)) (\<lambda>i.
          if i \<noteq> replay_share_id r
          then Throw (Logic_error ''replay-validation restore ShareId invariant failed'')
          else Ok (insert (replay_share_id r) seen, ordered @ [r]))))"

definition restore_order ::
  "share_chain \<Rightarrow> replay_validation_record list \<Rightarrow> replay_validation_record list"
where
  "restore_order c rs =
    sort_key (\<lambda>r. (share_height (cs_share (the (fmlookup (connected c) (replay_share_id r)))),
                  replay_share_id r)) rs"

text \<open>Third part: structure, policy and ancestry of every record, before any change.\<close>

definition restore_parent_check :: "share_chain \<Rightarrow> share_id set \<Rightarrow> share \<Rightarrow> unit result" where
  "restore_parent_check c validated s =
    (if is_zero_share_id (parent_id s) then Ok ()
     else case fmlookup (connected c) (parent_id s) of
       None \<Rightarrow> Throw (Runtime_error ''replay-validation restore parent is not connected'')
     | Some parent \<Rightarrow>
         if parent_id s \<notin> validated
         then Throw (Runtime_error ''replay-validation restore parent is not validated'')
         else if parent_height_mismatch s (cs_share parent)
         then Throw (Runtime_error ''replay-validation restore parent height mismatch'')
         else if parent_timestamp_reject_reason s (cs_share parent) \<noteq> No_Reason
         then Throw (Runtime_error (''replay-validation restore parent rejection: '' @
                share_reject_reason_name (parent_timestamp_reject_reason s (cs_share parent))))
         else Ok ())"

definition restore_preflight_step ::
  "share_chain \<Rightarrow> replay_validation_record \<Rightarrow> share_id set \<Rightarrow> share_id set result"
where
  "restore_preflight_step c r validated =
    (let cs = the (fmlookup (connected c) (replay_share_id r)); s = cs_share cs in
     if validated_ancestry cs
     then (if (case pow_validation cs of
                 None \<Rightarrow> True | Some v \<Rightarrow> \<not> replay_validation_equal v (replay_validation r))
           then Throw (Runtime_error
             ''replay-validation restore conflicts with already-validated state'')
           else Ok (insert (replay_share_id r) validated))
     else if structural_reject_reason c s \<noteq> No_Reason
     then Throw (Runtime_error (''replay-validation restore structural rejection: '' @
            share_reject_reason_name (structural_reject_reason c s)))
     else bindE (restore_parent_check c validated s) (\<lambda>_.
       bindE (expected_difficulty_reject_reason c s) (\<lambda>reason.
         if reason \<noteq> No_Reason
         then Throw (Runtime_error (''replay-validation restore difficulty rejection: '' @
                share_reject_reason_name reason))
         else Ok (insert (replay_share_id r) validated))))"

text \<open>Last part: the changes, parent first.\<close>

definition restore_apply_step ::
  "replay_validation_record \<Rightarrow> share_chain \<times> nat \<Rightarrow> share_chain \<times> nat"
where
  "restore_apply_step r st =
    (case st of (c, restored) \<Rightarrow>
      let cs = the (fmlookup (connected c) (replay_share_id r)) in
      if validated_ancestry cs then (c, restored)
      else (c\<lparr>connected := fmupd (replay_share_id r)
                (cs\<lparr>pow_validation := Some (replay_validation r), validated_ancestry := True\<rparr>)
                (connected c)\<rparr>, Suc restored))"

definition restore_plan :: "share_chain \<Rightarrow> replay_validation_record list \<Rightarrow> replay_validation_record list result" where
  "restore_plan c records =
    (if difficulty_policy c = None
     then Throw (Logic_error ''replay-validation restore requires configured sidechain policy'')
     else
       bindE (forE restore_existing_step (sorted_list_of_fmap (connected c)) {}) (\<lambda>validated.
       bindE (forE (restore_ancestry_step c) (sorted_list_of_fmap (connected c)) ()) (\<lambda>_.
       bindE (forE (restore_resolve_step c) records ({}, [])) (\<lambda>(seen, resolved).
         let ordered = restore_order c resolved
         in bindE (forE (restore_preflight_step c) ordered validated) (\<lambda>_. Ok ordered)))))"

definition restore_replay_validation ::
  "share_chain \<Rightarrow> replay_validation_record list \<Rightarrow> share_chain \<times> nat result"
where
  "restore_replay_validation c records =
    (if records = [] then (c, Ok 0)
     else case restore_plan c records of
       Inl e \<Rightarrow> (c, Throw e)
     | Inr ordered \<Rightarrow>
         (case fold restore_apply_step ordered (c, 0) of (c', restored) \<Rightarrow> (c', Ok restored)))"

section \<open>Pruning\<close>

definition children_of :: "share_chain \<Rightarrow> share_id \<Rightarrow> share_id list" where
  "children_of c parent =
    map fst (filter (\<lambda>(i, cs). \<not> is_zero_share_id (parent_id (cs_share cs)) \<and>
                              parent_id (cs_share cs) = parent)
              (sorted_list_of_fmap (connected c)))"

text \<open>The list \<open>removed\<close> grows while the loop indexes it; \<open>None\<close> stands for a loop without end.\<close>

partial_function (option) collect_subtree ::
  "share_chain \<Rightarrow> share_id list \<Rightarrow> nat \<Rightarrow> share_id list option"
where
  "collect_subtree c removed index =
    (if index < length removed
     then collect_subtree c (removed @ children_of c (removed ! index)) (Suc index)
     else Some removed)"

definition select_tip_step ::
  "(share_id, connected_share) fmap \<Rightarrow> share_id \<times> connected_share \<Rightarrow> share_id option \<Rightarrow>
    share_id option result"
where
  "select_tip_step m entry best =
    (case best of
      None \<Rightarrow> Ok (Some (fst entry))
    | Some b \<Rightarrow>
        (case fmlookup m b of
          None \<Rightarrow> Throw (Logic_error ''best-tip recomputation invariant failed'')
        | Some current \<Rightarrow>
            Ok (if better_tip (snd entry) current then Some (fst entry) else Some b)))"

definition select_best_tip :: "(share_id, connected_share) fmap \<Rightarrow> share_id option result" where
  "select_best_tip m = forE (select_tip_step m) (sorted_list_of_fmap m) None"

definition prune_connected_subtree_ids ::
  "share_chain \<Rightarrow> share_id \<Rightarrow> (share_chain \<times> share_id list result) option"
where
  "prune_connected_subtree_ids c root =
    (if \<not> contains c root then Some (c, Ok [])
     else case collect_subtree c [root] 0 of
       None \<Rightarrow> None
     | Some removed \<Rightarrow>
         let kept = fold fmdrop removed (connected c)
         in Some (case select_best_tip kept of
              Inl e \<Rightarrow> (c\<lparr>connected := kept, best_tip_id := None\<rparr>, Throw e)
            | Inr best \<Rightarrow> (c\<lparr>connected := kept, best_tip_id := best\<rparr>, Ok (sort removed))))"

definition prune_connected_subtree ::
  "share_chain \<Rightarrow> share_id \<Rightarrow> (share_chain \<times> nat result) option"
where
  "prune_connected_subtree c root =
    map_option (\<lambda>(c', r). (c', bindE r (\<lambda>ids. Ok (length ids)))) (prune_connected_subtree_ids c root)"

end
