(* ===== verification/Chain_Work.thy ===== *)
theory Chain_Work
  imports Share_Chain
begin

text \<open>
  Cumulative work and the choice of the best tip. Chain work is exact 256 bit arithmetic, the
  byte-wise order on it is the numeric one, and \<open>better_tip\<close> is a strict total order on shares
  with different identifiers: the locale \<open>strict_choice\<close> states that contract and the client
  lemmas (one best element, kept up to date by insertions) once.
\<close>

section \<open>Exact work arithmetic\<close>

lemma add_bytes_carry_spec:
  "length l = length r \<Longrightarrow> add_bytes_carry l r = (bs, c) \<Longrightarrow>
    length bs = length l \<and> c \<le> 1 \<and> be_val bs + c * 256 ^ length l = be_val l + be_val r"
proof (induction l r arbitrary: bs c rule: add_bytes_carry.induct)
  case (1 x l y r)
  obtain bs' c' where rec: "add_bytes_carry l r = (bs', c')" by fastforce
  let ?sum = "unat x + unat y + c'"
  have IH: "length bs' = length l" "c' \<le> 1" "be_val bs' + c' * 256 ^ length l = be_val l + be_val r"
    using "1.IH" [OF _ rec] "1.prems"(1) by simp_all
  have sum: "?sum AND 0xff = ?sum mod 256" "drop_bit 8 ?sum = ?sum div 256"
    using take_bit_eq_mask [of 8 ?sum] by (simp_all add: mask_eq_exp_minus_1 take_bit_eq_mod drop_bit_eq_div)
  have bs: "bs = word_of_nat (?sum mod 256) # bs'" "c = ?sum div 256"
    using "1.prems"(2) by (simp_all add: rec Let_def sum)
  have "?sum < 512" using unat_u8_less [of x] unat_u8_less [of y] IH(2) by linarith
  then have "c \<le> 1" using bs(2) by linarith
  moreover have "be_val bs + c * 256 ^ length (x # l) = be_val (x # l) + be_val (y # r)"
  proof -
    let ?p = "(256::nat) ^ length l"
    define m where "m = ?sum mod 256"
    have "be_val bs + c * 256 ^ length (x # l) = (m + 256 * c) * ?p + be_val bs'"
      using bs(1) IH(1) by (simp add: be_val_Cons unat_of_nat m_def algebra_simps)
    also have "\<dots> = ?sum * ?p + be_val bs'"
      by (simp only: m_def bs(2) mod_mult_div_eq)
    also have "\<dots> = be_val (x # l) + be_val (y # r)"
      using IH(3) "1.prems"(1) by (simp add: be_val_Cons algebra_simps)
    finally show ?thesis .
  qed
  ultimately show ?case using bs IH(1) by simp
qed auto

lemma add_chain_work_checked_alt:
  "add_chain_work_checked l r =
    (arr_val l + arr_val r < 2 ^ 256, array_of_nat (arr_val l + arr_val r))"
proof -
  obtain bs c where bc: "add_bytes_carry (bytes_of l) (bytes_of r) = (bs, c)" by fastforce
  have s: "length bs = 32" "c \<le> 1" "be_val bs + c * 2 ^ 256 = arr_val l + arr_val r"
    using add_bytes_carry_spec [OF _ bc] by (simp_all add: arr_val_def)
  have b: "be_val bs < 2 ^ 256" using be_val_less [of bs] s(1) by simp
  have "c = 0 \<longleftrightarrow> arr_val l + arr_val r < 2 ^ 256"
    using s(2,3) b by (cases c) auto
  moreover have "array_of bs = (array_of_nat (arr_val l + arr_val r) :: chain_work)"
  proof -
    have "arr_val (array_of bs :: chain_work) = be_val bs" using s(1) by (simp add: arr_val_def)
    also have "\<dots> = (be_val bs + c * 2 ^ 256) mod 2 ^ 256" using b by simp
    also have "\<dots> = (arr_val l + arr_val r) mod 2 ^ 256" by (simp only: s(3))
    finally show ?thesis
      by (simp add: arr_val_eq_iff [symmetric] arr_val_array_of_nat)
  qed
  ultimately show ?thesis by (simp add: add_chain_work_checked_def bc)
qed

text \<open>Checked work addition is exact: it reports success exactly when the sum of the two
  256 bit numbers fits 256 bits, and then the result array holds the sum.\<close>

theorem add_chain_work_checked_spec:
  "add_chain_work_checked l r =
    (arr_val l + arr_val r < 2 ^ 256, array_of_nat (arr_val l + arr_val r))"
  by (rule add_chain_work_checked_alt)

lemma share_work_ok:
  assumes "d \<noteq> 0"
  obtains w where "share_work d = Ok w" "arr_val w = arr_val d"
proof
  show "share_work d = Ok (array_of (replicate 16 0 @ bytes_of d))"
    using assms by (simp add: share_work_def)
  show "arr_val (array_of (replicate 16 0 @ bytes_of d) :: chain_work) = arr_val d"
    by (simp add: arr_val_def be_val_append)
qed

section \<open>Choosing a best element\<close>

locale strict_choice =
  fixes better :: "'a \<Rightarrow> 'a \<Rightarrow> bool"
    and ident :: "'a \<Rightarrow> 'k"
  assumes better_irrefl: "\<not> better x x"
    and better_trans: "better x y \<Longrightarrow> better y z \<Longrightarrow> better x z"
    and better_total: "ident x \<noteq> ident y \<Longrightarrow> better x y \<or> better y x"
begin

definition best_of :: "'a set \<Rightarrow> 'a \<Rightarrow> bool" where
  "best_of S b \<longleftrightarrow> b \<in> S \<and> (\<forall>x\<in>S. ident x \<noteq> ident b \<longrightarrow> better b x)"

lemma better_asym: "better x y \<Longrightarrow> \<not> better y x"
  using better_irrefl better_trans by blast

lemma best_of_unique:
  assumes "best_of S a" "best_of S b"
  shows "ident a = ident b"
  using assms better_asym unfolding best_of_def by metis

lemma best_of_insert:
  assumes "best_of S b" "ident x \<noteq> ident b"
    and "\<And>y. y \<in> S \<Longrightarrow> ident y = ident b \<Longrightarrow> y = b"
  shows "best_of (insert x S) (if better x b then x else b)"
proof (cases "better x b")
  case True
  have "better x y" if "y \<in> S" for y
    using assms(1,3) that True better_trans unfolding best_of_def by (cases "ident y = ident b") auto
  with True show ?thesis by (auto simp: best_of_def)
next
  case False
  with assms(2) have "better b x" using better_total by metis
  with False assms(1) show ?thesis by (auto simp: best_of_def)
qed

lemma best_of_singleton: "best_of {x} x"
  by (simp add: best_of_def)

end

lemma better_tip_iff:
  "better_tip a b \<longleftrightarrow>
    cumulative_work b < cumulative_work a \<or>
    cumulative_work a = cumulative_work b \<and>
      (share_height (cs_share b) < share_height (cs_share a) \<or>
       share_height (cs_share a) = share_height (cs_share b) \<and> cs_id a < cs_id b)"
  by (auto simp: better_tip_def)

interpretation tip: strict_choice better_tip cs_id
proof
  fix x y z
  show "\<not> better_tip x x" by (simp add: better_tip_iff)
  show "better_tip x y \<Longrightarrow> better_tip y z \<Longrightarrow> better_tip x z"
    unfolding better_tip_iff by (elim disjE conjE) (auto intro: less_trans)
  show "cs_id x \<noteq> cs_id y \<Longrightarrow> better_tip x y \<or> better_tip y x"
    unfolding better_tip_iff by (metis linorder_less_linear)
qed

section \<open>The selected tip of a set of connected shares\<close>

definition keyed :: "(share_id, connected_share) fmap \<Rightarrow> bool" where
  "keyed m \<longleftrightarrow> (\<forall>i cs. fmlookup m i = Some cs \<longrightarrow> cs_id cs = i)"

definition tip_selected :: "(share_id, connected_share) fmap \<Rightarrow> share_id option \<Rightarrow> bool" where
  "tip_selected m best \<longleftrightarrow>
    (case best of
      None \<Rightarrow> m = fmempty
    | Some b \<Rightarrow> (\<exists>cs. fmlookup m b = Some cs \<and>
        (\<forall>i other. fmlookup m i = Some other \<and> i \<noteq> b \<longrightarrow> better_tip cs other)))"

lemma keyed_fmupd: "keyed m \<Longrightarrow> cs_id cs = i \<Longrightarrow> keyed (fmupd i cs m)"
  by (auto simp: keyed_def)

lemma tip_selected_best_of:
  assumes "keyed m"
  shows "tip_selected m (Some b) \<longleftrightarrow> (\<exists>cs. fmlookup m b = Some cs \<and> tip.best_of (fmran' m) cs)"
proof -
  have key: "cs_id x = i" if "fmlookup m i = Some x" for i x
    using assms that by (simp add: keyed_def)
  have "(\<forall>i other. fmlookup m i = Some other \<and> i \<noteq> b \<longrightarrow> better_tip cs other) \<longleftrightarrow>
      tip.best_of (fmran' m) cs" if "fmlookup m b = Some cs" for cs
    using that key unfolding tip.best_of_def fmlookup_ran'_iff
    by (auto simp: fmran'I)
  then show ?thesis unfolding tip_selected_def by auto
qed

lemma tip_selected_unique:
  assumes "tip_selected m a" "tip_selected m b"
  shows "a = b"
proof (cases a)
  case None
  with assms show ?thesis by (cases b) (auto simp: tip_selected_def)
next
  case (Some x)
  then obtain y where y: "b = Some y" using assms by (cases b) (auto simp: tip_selected_def)
  from assms(1) Some obtain s where s: "fmlookup m x = Some s"
    "\<And>i other. fmlookup m i = Some other \<Longrightarrow> i \<noteq> x \<Longrightarrow> better_tip s other"
    by (auto simp: tip_selected_def)
  from assms(2) y obtain t where t: "fmlookup m y = Some t"
    "\<And>i other. fmlookup m i = Some other \<Longrightarrow> i \<noteq> y \<Longrightarrow> better_tip t other"
    by (auto simp: tip_selected_def)
  have "x = y" using s(2) [OF t(1)] t(2) [OF s(1)] tip.better_asym by blast
  with Some y show ?thesis by simp
qed

lemma tip_selected_fmupd:
  assumes "keyed m" "cs_id cs = i" "fmlookup m i = None" "tip_selected m (Some b)"
    "fmlookup m b = Some best"
  shows "tip_selected (fmupd i cs m) (Some (if better_tip cs best then i else b))"
proof -
  have ne: "i \<noteq> b" using assms(3,5) by auto
  have "cs_id best = b" using assms(1,5) by (simp add: keyed_def)
  then have tot: "better_tip cs best \<or> better_tip best cs"
    using ne assms(2) tip.better_total [of cs best] by auto
  have best: "better_tip best other" if "fmlookup m j = Some other" "j \<noteq> b" for j other
    using assms(4,5) that by (auto simp: tip_selected_def)
  show ?thesis
  proof (cases "better_tip cs best")
    case True
    have "better_tip cs other" if "fmlookup m j = Some other" for j other
      using that True best [OF that] assms(5) tip.better_trans by (cases "j = b") auto
    with True show ?thesis by (auto simp: tip_selected_def)
  next
    case False
    with tot best ne assms(5) show ?thesis by (auto simp: tip_selected_def)
  qed
qed

lemma tip_selected_single: "fmlookup m i = Some cs \<Longrightarrow> fmdom m = {|i|} \<Longrightarrow> tip_selected m (Some i)"
  by (auto simp: tip_selected_def dest: fmdomI)

section \<open>Recomputing the tip\<close>

lemma select_tip_forE:
  assumes "\<And>i cs. (i, cs) \<in> set xs \<Longrightarrow> fmlookup m i = Some cs" "keyed m" "distinct (map fst xs)"
  shows "\<exists>best. forE (select_tip_step m) xs None = Ok best \<and>
    (if xs = [] then best = None
     else \<exists>b cs. best = Some b \<and> (b, cs) \<in> set xs \<and>
       (\<forall>i other. (i, other) \<in> set xs \<and> i \<noteq> b \<longrightarrow> better_tip cs other))"
  using assms
proof (induction xs rule: rev_induct)
  case (snoc x xs)
  obtain i cs where x: "x = (i, cs)" by fastforce
  have key: "cs_id y = j" if "fmlookup m j = Some y" for j y
    using snoc.prems(2) that by (simp add: keyed_def)
  have i: "fmlookup m i = Some cs" using snoc.prems(1) x by simp
  from snoc have IH: "\<exists>best. forE (select_tip_step m) xs None = Ok best \<and>
    (if xs = [] then best = None
     else \<exists>b cs. best = Some b \<and> (b, cs) \<in> set xs \<and>
       (\<forall>i other. (i, other) \<in> set xs \<and> i \<noteq> b \<longrightarrow> better_tip cs other))" by simp
  show ?case
  proof (cases "xs = []")
    case True
    then show ?thesis by (auto simp: select_tip_step_def x)
  next
    case False
    with IH obtain b best where b: "forE (select_tip_step m) xs None = Ok (Some b)"
      "(b, best) \<in> set xs" "\<And>j other. (j, other) \<in> set xs \<Longrightarrow> j \<noteq> b \<Longrightarrow> better_tip best other"
      by fastforce
    have lb: "fmlookup m b = Some best" using snoc.prems(1) b(2) by simp
    have ne: "i \<noteq> b" using snoc.prems(3) b(2) x by force
    have step: "forE (select_tip_step m) (xs @ [x]) None =
        Ok (Some (if better_tip cs best then i else b))"
      by (simp add: forE_append b(1) select_tip_step_def x lb)
    have "better_tip cs best \<or> better_tip best cs"
      using ne key [OF i] key [OF lb] tip.better_total [of cs best] by auto
    moreover have "better_tip cs other" if "better_tip cs best" "(j, other) \<in> set xs" for j other
      using that b(3) [of j other] snoc.prems(1) [of j other] lb tip.better_trans
      by (cases "j = b") auto
    ultimately show ?thesis
      unfolding step using b(2,3) by (auto simp: x)
  qed
qed simp

lemma set_sorted_list_of_fmap [simp]:
  "(i, x) \<in> set (sorted_list_of_fmap m) \<longleftrightarrow> fmlookup m i = Some x"
  by (auto simp: sorted_list_of_fmap_def fmlookup_dom_iff)

lemma sorted_list_of_fset_alt: "sorted_list_of_fset X = sorted_list_of_set (fset X)"
  by (simp add: sorted_list_of_fset.rep_eq)

lemma sorted_list_of_fset_facts [simp]:
  "distinct (sorted_list_of_fset X)" "sorted (sorted_list_of_fset X)"
  by (simp_all add: sorted_list_of_fset_alt)

lemma map_fst_sorted_list_of_fmap [simp]:
  "map fst (sorted_list_of_fmap m) = sorted_list_of_fset (fmdom m)"
  by (simp add: sorted_list_of_fmap_def comp_def)

lemma select_best_tip_ok:
  assumes "keyed m"
  shows "\<exists>best. select_best_tip m = Ok best \<and> tip_selected m best"
proof -
  let ?xs = "sorted_list_of_fmap m"
  have d: "distinct (map fst ?xs)" by simp
  have nil: "?xs = [] \<longleftrightarrow> m = fmempty"
  proof
    assume "?xs = []"
    then have "fmlookup m i = None" for i
      using set_sorted_list_of_fmap [of i _ m] by (cases "fmlookup m i") auto
    then show "m = fmempty" by (intro fmap_ext) simp
  qed (simp add: sorted_list_of_fmap_def sorted_list_of_fset_alt)
  from select_tip_forE [of ?xs m, OF _ assms d] obtain best where
    best: "select_best_tip m = Ok best"
    "if ?xs = [] then best = None
     else \<exists>b cs. best = Some b \<and> (b, cs) \<in> set ?xs \<and>
       (\<forall>i other. (i, other) \<in> set ?xs \<and> i \<noteq> b \<longrightarrow> better_tip cs other)"
    by (auto simp: select_best_tip_def)
  have "tip_selected m best"
    using best(2) unfolding nil tip_selected_def by (auto split: if_splits)
  with best(1) show ?thesis by blast
qed

end
