(* ===== verification/Chain_Inv.thy ===== *)
theory Chain_Inv
  imports Chain_Work
begin

text \<open>
  The invariant of the share chain. Every connected share hangs on its parent with exact
  cumulative work, validated shares carry a consistent proof of work, the prescribed difficulty
  and a validated parent, the best tip is the best of all connected shares, orphans wait for a
  parent that is not connected and the parent index names exactly them. The lemmas of this theory
  show what connecting one share keeps of it; \<open>Chain_Ops\<close> lifts that to the public operations.
\<close>

section \<open>Invariant\<close>

definition linked :: "(share_id, connected_share) fmap \<Rightarrow> connected_share \<Rightarrow> bool" where
  "linked m cs \<longleftrightarrow>
    (let s = cs_share cs in
     if parent_id s = 0 then arr_val (cumulative_work cs) = arr_val (share_difficulty s)
     else (\<exists>p. fmlookup m (parent_id s) = Some p \<and> \<not> parent_height_mismatch s (cs_share p) \<and>
       parent_timestamp_reject_reason s (cs_share p) = No_Reason \<and>
       arr_val (cumulative_work cs) = arr_val (cumulative_work p) + arr_val (share_difficulty s)))"

definition pow_consistent :: "candidate_validation option \<Rightarrow> bool" where
  "pow_consistent v \<longleftrightarrow> (case v of None \<Rightarrow> True | Some v \<Rightarrow> replay_validation_consistent v)"

definition validated_ok :: "share_chain \<Rightarrow> connected_share \<Rightarrow> bool" where
  "validated_ok c cs \<longleftrightarrow>
    (validated_ancestry cs \<longrightarrow>
      pow_validation cs \<noteq> None \<and> difficulty_policy c \<noteq> None \<and>
      (parent_id (cs_share cs) = 0 \<or> parent_validated c (cs_share cs)) \<and>
      expected_difficulty_reject_reason c (cs_share cs) = Ok No_Reason)"

definition share_ok :: "share_chain \<Rightarrow> share_id \<Rightarrow> connected_share \<Rightarrow> bool" where
  "share_ok c i cs \<longleftrightarrow>
    cs_id cs = i \<and> share_id (cs_share cs) = Ok i \<and>
    structural_reject_reason c (cs_share cs) = No_Reason \<and>
    linked (connected c) cs \<and> pow_consistent (pow_validation cs) \<and> validated_ok c cs"

definition policy_ok :: "share_chain \<Rightarrow> bool" where
  "policy_ok c \<longleftrightarrow>
    (case difficulty_policy c of
      None \<Rightarrow> True
    | Some p \<Rightarrow> policy_target_share_seconds p \<noteq> 0 \<and> policy_minimum_share_difficulty p \<noteq> 0 \<and>
        2 \<le> policy_difficulty_window_shares p)"

definition conn_inv :: "share_chain \<Rightarrow> bool" where
  "conn_inv c \<longleftrightarrow>
    policy_ok c \<and> (\<forall>i cs. fmlookup (connected c) i = Some cs \<longrightarrow> share_ok c i cs) \<and>
    tip_selected (connected c) (best_tip_id c)"

lemma conn_invD:
  assumes "conn_inv c"
  shows "policy_ok c" "fmlookup (connected c) i = Some cs \<Longrightarrow> share_ok c i cs"
    "tip_selected (connected c) (best_tip_id c)" "keyed (connected c)"
  using assms by (auto simp: conn_inv_def share_ok_def keyed_def)

lemma structural_okD:
  assumes "structural_reject_reason c s = No_Reason"
  shows "share_difficulty s \<noteq> 0" "network_difficulty s \<noteq> 0" "share_difficulty s \<le> network_difficulty s"
    "parent_id s = 0 \<longleftrightarrow> share_height s = 0"
  using assms by (auto simp: structural_reject_reason_def is_zero_iff split: if_splits)

lemma share_ok_parent:
  assumes "share_ok c i cs" "parent_id (cs_share cs) \<noteq> 0"
  obtains p where "fmlookup (connected c) (parent_id (cs_share cs)) = Some p"
    "unat (share_height (cs_share cs)) = Suc (unat (share_height (cs_share p)))"
    "arr_val (cumulative_work cs) =
      arr_val (cumulative_work p) + arr_val (share_difficulty (cs_share cs))"
proof -
  from assms obtain p where p: "fmlookup (connected c) (parent_id (cs_share cs)) = Some p"
    "\<not> parent_height_mismatch (cs_share cs) (cs_share p)"
    "arr_val (cumulative_work cs) =
      arr_val (cumulative_work p) + arr_val (share_difficulty (cs_share cs))"
    by (auto simp: share_ok_def linked_def Let_def)
  have "unat (1 + share_height (cs_share p)) = Suc (unat (share_height (cs_share p)))"
    using p(2) by (intro unatSuc) (auto simp: parent_height_mismatch_def eq_neg_iff_add_eq_0 add.commute)
  with p that show thesis by (simp add: parent_height_mismatch_def add.commute)
qed

section \<open>Growing the connected set\<close>

text \<open>One map extends another when it keeps the shares and their work; the proof-of-work fields
  may change.\<close>

definition extends :: "(share_id, connected_share) fmap \<Rightarrow> (share_id, connected_share) fmap \<Rightarrow> bool" where
  "extends m m' \<longleftrightarrow>
    (\<forall>i a. fmlookup m i = Some a \<longrightarrow>
      (\<exists>b. fmlookup m' i = Some b \<and> cs_share b = cs_share a \<and> cs_id b = cs_id a \<and>
        cumulative_work b = cumulative_work a))"

lemma extendsD:
  assumes "extends m m'" "fmlookup m i = Some a"
  obtains b where "fmlookup m' i = Some b" "cs_share b = cs_share a" "cs_id b = cs_id a"
    "cumulative_work b = cumulative_work a"
  using assms by (auto simp: extends_def)

lemma extends_fmupd: "fmlookup m i = None \<Longrightarrow> extends m (fmupd i cs m)"
  by (auto simp: extends_def)

lemma linked_extends: "linked m cs \<Longrightarrow> extends m m' \<Longrightarrow> linked m' cs"
  unfolding linked_def Let_def by (auto elim: extendsD split: if_splits)

lemma difficulty_history_extends:
  assumes "\<And>i cs. fmlookup (connected c) i = Some cs \<Longrightarrow> linked (connected c) cs"
    "extends (connected c) (connected c')" "linked (connected c) a"
    "cs_share b = cs_share a" "cumulative_work b = cumulative_work a"
  shows "difficulty_history c' w b h = difficulty_history c w a h"
  using assms
proof (induction c w a h arbitrary: b rule: difficulty_history.induct)
  case (1 c w a h)
  have s: "sample_of b = sample_of a" using "1.prems" by (simp add: sample_of_def)
  show ?case
  proof (cases "length h < w \<and> parent_id (cs_share a) \<noteq> 0")
    case True
    then obtain p where p: "find c (parent_id (cs_share a)) = Some p"
      using "1.prems"(3) by (auto simp: linked_def find_def Let_def)
    then obtain q where q: "find c' (parent_id (cs_share a)) = Some q" "cs_share q = cs_share p"
      "cumulative_work q = cumulative_work p"
      using "1.prems"(2) unfolding find_def by (blast elim: extendsD)
    have "difficulty_history c' w q (h @ [sample_of a]) = difficulty_history c w p (h @ [sample_of a])"
      using True p q "1.prems" by (intro "1.IH") (auto simp: find_def)
    with True p q "1.prems"(4) s show ?thesis
      by (simp add: difficulty_history.simps [of _ _ a] difficulty_history.simps [of _ _ b] Let_def)
  next
    case False
    with "1.prems"(4) s show ?thesis
      by (auto simp: difficulty_history.simps [of _ _ a] difficulty_history.simps [of _ _ b] Let_def)
  qed
qed

lemma expected_difficulty_extends:
  assumes "\<And>i cs. fmlookup (connected c) i = Some cs \<Longrightarrow> linked (connected c) cs"
    "extends (connected c) (connected c')" "difficulty_policy c' = difficulty_policy c"
    "parent_id s = 0 \<or> fmlookup (connected c) (parent_id s) \<noteq> None"
  shows "expected_difficulty_reject_reason c' s = expected_difficulty_reject_reason c s"
proof (cases "parent_id s = 0")
  case True
  then show ?thesis
    using assms(3)
    by (simp add: expected_difficulty_reject_reason_def expected_child_share_difficulty_def
        split: option.split)
next
  case False
  with assms(4) obtain a where a: "fmlookup (connected c) (parent_id s) = Some a" by auto
  with assms(2) obtain b where b: "fmlookup (connected c') (parent_id s) = Some b"
    "cs_share b = cs_share a" "cumulative_work b = cumulative_work a"
    by (auto elim: extendsD)
  have "difficulty_history c' w b [] = difficulty_history c w a []" for w
    using assms(1,2) assms(1) [OF a] b by (intro difficulty_history_extends) auto
  with a b assms(3) show ?thesis
    by (simp add: expected_difficulty_reject_reason_def expected_child_share_difficulty_def
        find_def contains_def fmdomI split: option.split)
qed

lemma parent_validated_mono:
  assumes "\<And>i a. fmlookup (connected c) i = Some a \<Longrightarrow> validated_ancestry a \<Longrightarrow>
      \<exists>b. fmlookup (connected c') i = Some b \<and> validated_ancestry b"
    and "parent_validated c s"
  shows "parent_validated c' s"
  using assms(2) assms(1) [of "parent_id s"] unfolding parent_validated_def
  by (auto split: option.splits)

lemma structural_cong:
  "difficulty_policy c' = difficulty_policy c \<Longrightarrow>
    structural_reject_reason c' s = structural_reject_reason c s"
  by (simp add: structural_reject_reason_def)

lemma share_ok_extends:
  assumes "share_ok c i cs" "\<And>i cs. fmlookup (connected c) i = Some cs \<Longrightarrow> linked (connected c) cs"
    "extends (connected c) (connected c')" "difficulty_policy c' = difficulty_policy c"
    "\<And>i a. fmlookup (connected c) i = Some a \<Longrightarrow> validated_ancestry a \<Longrightarrow>
      \<exists>b. fmlookup (connected c') i = Some b \<and> validated_ancestry b"
  shows "share_ok c' i cs"
proof -
  have l: "linked (connected c) cs" using assms(1) by (simp add: share_ok_def)
  then have "parent_id (cs_share cs) = 0 \<or> fmlookup (connected c) (parent_id (cs_share cs)) \<noteq> None"
    by (auto simp: linked_def Let_def split: if_splits)
  then have "expected_difficulty_reject_reason c' (cs_share cs) =
      expected_difficulty_reject_reason c (cs_share cs)"
    by (intro expected_difficulty_extends assms(2-4))
  moreover have "validated_ok c cs" using assms(1) by (simp add: share_ok_def)
  ultimately have "validated_ok c' cs"
    using assms(4) parent_validated_mono [OF assms(5)] by (auto simp: validated_ok_def)
  with assms(1) linked_extends [OF l assms(3)] structural_cong [OF assms(4)] show ?thesis
    by (simp add: share_ok_def)
qed

section \<open>The expected difficulty cannot fail but for the timestamp span\<close>

lemma difficulty_history_total:
  assumes "conn_inv c" "linked (connected c) cs"
  shows "\<exists>h'. difficulty_history c w cs h = Ok h'"
  using assms
proof (induction c w cs h rule: difficulty_history.induct)
  case (1 c w cs h)
  show ?case
  proof (cases "length h < w \<and> parent_id (cs_share cs) \<noteq> 0")
    case True
    then obtain p where p: "fmlookup (connected c) (parent_id (cs_share cs)) = Some p"
      using "1.prems"(2) by (auto simp: linked_def Let_def)
    have "linked (connected c) p"
      using conn_invD(2) [OF "1.prems"(1) p] by (simp add: share_ok_def)
    then have "\<exists>h'. difficulty_history c w p (h @ [sample_of cs]) = Ok h'"
      using True p "1.prems" by (intro "1.IH") (auto simp: find_def)
    with True p show ?thesis
      by (simp add: difficulty_history.simps [of _ _ cs] Let_def find_def)
  next
    case False
    then show ?thesis by (auto simp: difficulty_history.simps [of _ _ cs] Let_def)
  qed
qed

lemma expected_child_cases:
  assumes "conn_inv c" "network \<noteq> 0" "difficulty_policy c = Some p"
    "parent = 0 \<or> fmlookup (connected c) parent \<noteq> None"
  shows "(\<exists>d. expected_child_share_difficulty c parent network = Ok d \<and> d \<noteq> 0 \<and> d \<le> network) \<or>
    expected_child_share_difficulty c parent network = Throw range_error"
proof -
  have "\<exists>h. (if parent = 0 then Ok []
      else case find c parent of
        None \<Rightarrow> Throw (Invalid_argument ''sidechain difficulty parent is not connected'')
      | Some cs \<Rightarrow> difficulty_history c (unat (policy_difficulty_window_shares p)) cs []) = Ok h"
  proof (cases "parent = 0")
    case False
    with assms(4) obtain cs where cs: "fmlookup (connected c) parent = Some cs" by auto
    then have "linked (connected c) cs"
      using conn_invD(2) [OF assms(1) cs] by (simp add: share_ok_def)
    then show ?thesis
      using False cs difficulty_history_total [OF assms(1)] by (simp add: find_def)
  qed simp
  then obtain h where eq: "expected_child_share_difficulty c parent network =
      calculate_next_sidechain_difficulty h (policy_target_share_seconds p)
        (policy_minimum_share_difficulty p) (policy_difficulty_window_shares p) network"
    using assms(3) by (auto simp: expected_child_share_difficulty_def)
  have pol: "policy_target_share_seconds p \<noteq> 0" "policy_minimum_share_difficulty p \<noteq> 0"
    "2 \<le> policy_difficulty_window_shares p"
    using conn_invD(1) [OF assms(1)] assms(3) by (simp_all add: policy_ok_def)
  have pos: "0 < min (unat (policy_minimum_share_difficulty p)) (arr_val network)"
    using pol(2) assms(2) by (simp add: unat_gt_0)
  have nz: "d \<noteq> 0 \<and> d \<le> network"
    if "min (unat (policy_minimum_share_difficulty p)) (arr_val network) \<le> arr_val d"
      "arr_val d \<le> arr_val network" for d
    using that pos unfolding less_eq_arr_val by (metis arr_val_zero less_le_trans less_irrefl)
  show ?thesis
    using calculate_next_cases [OF pol assms(2), of h] nz unfolding eq Let_def
    by (auto split: if_splits)
qed

lemma expected_reason_cases:
  assumes "conn_inv c" "network_difficulty s \<noteq> 0"
  shows "expected_difficulty_reject_reason c s = Ok No_Reason \<or>
    expected_difficulty_reject_reason c s = Ok UnexpectedShareDifficulty \<or>
    expected_difficulty_reject_reason c s = Throw range_error"
proof (cases "difficulty_policy c = None \<or> (parent_id s \<noteq> 0 \<and> fmlookup (connected c) (parent_id s) = None)")
  case True
  then show ?thesis
    by (auto simp: expected_difficulty_reject_reason_def contains_def fmlookup_dom_iff)
next
  case False
  then obtain p where "difficulty_policy c = Some p"
    "parent_id s = 0 \<or> fmlookup (connected c) (parent_id s) \<noteq> None" by auto
  from expected_child_cases [OF assms this]
  show ?thesis
    by (auto simp: expected_difficulty_reject_reason_def)
qed

section \<open>Connecting one share\<close>

text \<open>What the caller of \<open>connect_share\<close> has established.\<close>

definition connectable :: "share_chain \<Rightarrow> share \<Rightarrow> share_id \<Rightarrow> candidate_validation option \<Rightarrow> bool \<Rightarrow> bool" where
  "connectable c s i v enforce \<longleftrightarrow>
    share_id s = Ok i \<and> fmlookup (connected c) i = None \<and>
    structural_reject_reason c s = No_Reason \<and> pow_consistent v \<and>
    (enforce \<longrightarrow> difficulty_policy c \<noteq> None) \<and>
    (parent_id s = 0 \<or> fmlookup (connected c) (parent_id s) \<noteq> None)"

lemma connect_checks_cases:
  assumes "conn_inv c" "connectable c s i v enforce"
  obtains "connect_checks c s enforce = Throw range_error"
    | reason where "reason \<noteq> No_Reason" "connect_checks c s enforce = Ok (Inl reason)"
    | w where "connect_checks c s enforce = Ok (Inr w)"
      "\<forall>cs. cs_share cs = s \<longrightarrow> cumulative_work cs = w \<longrightarrow> linked (connected c) cs"
      "enforce \<longrightarrow> expected_difficulty_reject_reason c s = Ok No_Reason"
proof -
  note st = structural_okD [of c s]
  have conn: "structural_reject_reason c s = No_Reason"
    "parent_id s = 0 \<or> fmlookup (connected c) (parent_id s) \<noteq> None"
    using assms(2) by (simp_all add: connectable_def)
  obtain own where own: "share_work (share_difficulty s) = Ok own" "arr_val own = arr_val (share_difficulty s)"
    using share_work_ok [OF st(1) [OF conn(1)]] .
  have "\<exists>pr. connect_parent_reason c s = Ok pr"
    using conn(2) by (auto simp: connect_parent_reason_def)
  then obtain pr where pr: "connect_parent_reason c s = Ok pr" by blast
  define dr where "dr = (if enforce then expected_difficulty_reject_reason c s else Ok No_Reason)"
  have chk: "connect_checks c s enforce =
      (if pr \<noteq> No_Reason then Ok (Inl pr)
       else bindE dr (\<lambda>difficulty_reason.
          if difficulty_reason \<noteq> No_Reason then Ok (Inl difficulty_reason)
          else if parent_id s = 0 then Ok (Inr own)
          else case add_chain_work_checked
                 (cumulative_work (the (fmlookup (connected c) (parent_id s)))) own of
            (fits, summed) \<Rightarrow> Ok (if fits then Inr summed else Inl CumulativeWorkOverflow)))"
    unfolding connect_checks_def own(1) pr dr_def bindE_simps is_zero_iff ..
  consider (parent) "pr \<noteq> No_Reason" | (diff) reason where "pr = No_Reason" "dr = Ok reason" "reason \<noteq> No_Reason"
    | (throw) "pr = No_Reason" "dr = Throw range_error" | (ok) "pr = No_Reason" "dr = Ok No_Reason"
    using expected_reason_cases [OF assms(1) st(2) [OF conn(1)]] unfolding dr_def
    by (cases enforce) auto
  then show thesis
  proof cases
    case ok
    have e: "enforce \<longrightarrow> expected_difficulty_reject_reason c s = Ok No_Reason"
      using ok(2) by (simp add: dr_def split: if_splits)
    show thesis
    proof (cases "parent_id s = 0")
      case True
      with own(2) have "linked (connected c) cs" if "cs_share cs = s" "cumulative_work cs = own" for cs
        using that by (simp add: linked_def)
      with True ok chk e show thesis by (intro that(3) [of own]) auto
    next
      case False
      with conn(2) obtain p where p: "fmlookup (connected c) (parent_id s) = Some p" by auto
      with pr ok(1) False have pok: "\<not> parent_height_mismatch s (cs_share p)"
        "parent_timestamp_reject_reason s (cs_share p) = No_Reason"
        by (auto simp: connect_parent_reason_def split: if_splits)
      define w :: chain_work where "w = array_of_nat (arr_val (cumulative_work p) + arr_val own)"
      show thesis
      proof (cases "arr_val (cumulative_work p) + arr_val own < 2 ^ 256")
        case True
        then have "arr_val w = arr_val (cumulative_work p) + arr_val own"
          by (simp add: w_def arr_val_array_of_nat)
        then have "linked (connected c) cs" if "cs_share cs = s" "cumulative_work cs = w" for cs
          using that False p pok own(2) by (simp add: linked_def)
        moreover have "connect_checks c s enforce = Ok (Inr w)"
          using True False p ok chk by (simp add: add_chain_work_checked_alt w_def)
        ultimately show thesis using e by (intro that(3) [of w]) auto
      next
        case over: False
        with False p ok chk show thesis
          by (intro that(2) [of CumulativeWorkOverflow]) (simp_all add: add_chain_work_checked_alt)
      qed
    qed
  qed (use that(1,2) chk in auto)
qed

lemma share_ok_cong:
  assumes "connected c' = connected c" "difficulty_policy c' = difficulty_policy c"
  shows "share_ok c' i cs \<longleftrightarrow> share_ok c i cs"
proof -
  have "difficulty_history c' w x h = difficulty_history c w x h" for w x h
    using assms(1)
  proof (induction c w x h rule: difficulty_history.induct)
    case (1 c w x h)
    then show ?case
      by (subst (1 2) difficulty_history.simps) (auto simp: find_def Let_def split: option.split)
  qed
  then have fn: "find c' = find c" "contains c' = contains c" "difficulty_history c' = difficulty_history c"
    using assms(1) by (simp_all add: fun_eq_iff find_def contains_def)
  have "expected_difficulty_reject_reason c' s = expected_difficulty_reject_reason c s" for s
    by (simp only: expected_difficulty_reject_reason_def expected_child_share_difficulty_def fn assms(2))
  then show ?thesis
    using assms by (simp add: share_ok_def validated_ok_def parent_validated_def structural_cong [OF assms(2)])
qed

lemma insert_connected_ok:
  assumes "conn_inv c" "fmlookup (connected c) i = None" "cs_id cs = i"
    "share_ok (c\<lparr>connected := fmupd i cs (connected c)\<rparr>) i cs"
  obtains tip where
    "insert_connected c cs b =
      (c\<lparr>connected := fmupd i cs (connected c), best_tip_id := Some tip\<rparr>,
       Ok (b \<or> best_tip_id c \<noteq> Some tip))"
    "conn_inv (c\<lparr>connected := fmupd i cs (connected c), best_tip_id := Some tip\<rparr>)"
proof -
  note inv = conn_invD [OF assms(1)]
  let ?m = "fmupd i cs (connected c)"
  let ?new = "c\<lparr>connected := ?m\<rparr>"
  have old: "share_ok ?new j x" if "fmlookup (connected c) j = Some x" for j x
  proof (rule share_ok_extends [OF inv(2) [OF that]])
    show "extends (connected c) (connected ?new)" using extends_fmupd [OF assms(2)] by simp
  qed (use assms(2) inv(2) in \<open>auto simp: share_ok_def\<close>)
  have all: "share_ok ?new j x" if "fmlookup ?m j = Some x" for j x
    using that old assms(4) by (cases "j = i") auto
  have inv': "conn_inv (?new\<lparr>best_tip_id := Some tip\<rparr>)" if "tip_selected ?m (Some tip)" for tip
  proof -
    have "share_ok (?new\<lparr>best_tip_id := Some tip\<rparr>) j x" if "fmlookup ?m j = Some x" for j x
      using all [OF that] share_ok_cong [of "?new\<lparr>best_tip_id := Some tip\<rparr>" ?new] by simp
    with that inv(1) show ?thesis by (simp add: conn_inv_def policy_ok_def)
  qed
  have dom: "cs_id cs |\<notin>| fmdom (connected c)" using assms(2,3) by (simp add: fmlookup_dom_iff)
  show thesis
  proof (cases "best_tip_id c")
    case None
    then have "connected c = fmempty" using inv(3) by (simp add: tip_selected_def)
    then have "tip_selected ?m (Some i)" by (simp add: tip_selected_def)
    from inv' [OF this] None dom assms(3) show thesis
      by (intro that [of i]) (simp_all add: insert_connected_def)
  next
    case (Some t)
    with inv(3) obtain best where best: "fmlookup (connected c) t = Some best"
      by (auto simp: tip_selected_def)
    with assms(2) have ne: "i \<noteq> t" by auto
    define u where "u = (if better_tip cs best then i else t)"
    have "tip_selected ?m (Some u)"
      using tip_selected_fmupd [OF inv(4) assms(3,2) _ best] inv(3) Some by (simp add: u_def)
    from inv' [OF this] Some best ne dom assms(3) show thesis
      by (intro that [of u]) (simp_all add: insert_connected_def u_def)
  qed
qed

lemma connect_share_cases:
  assumes "conn_inv c" "connectable c s i v enforce" "connect_share c s i v enforce b = (c', r)"
  obtains "c' = c" "r = Throw range_error"
    | reason where "reason \<noteq> No_Reason" "c' = c" "r = Ok (reason, b)"
    | cs tip where "c' = c\<lparr>connected := fmupd i cs (connected c), best_tip_id := Some tip\<rparr>"
      "r = Ok (No_Reason, b \<or> best_tip_id c \<noteq> Some tip)" "conn_inv c'"
      "cs_share cs = s" "cs_id cs = i" "pow_validation cs = v"
      "validated_ancestry cs = connect_validated_ancestry c s v enforce"
      "connect_checks c s enforce = Ok (Inr (cumulative_work cs))"
proof -
  consider "connect_checks c s enforce = Throw range_error"
    | reason where "reason \<noteq> No_Reason" "connect_checks c s enforce = Ok (Inl reason)"
    | w where "connect_checks c s enforce = Ok (Inr w)"
      "\<forall>cs. cs_share cs = s \<longrightarrow> cumulative_work cs = w \<longrightarrow> linked (connected c) cs"
      "enforce \<longrightarrow> expected_difficulty_reject_reason c s = Ok No_Reason"
    by (rule connect_checks_cases [OF assms(1,2)])
  then show thesis
  proof cases
    case 1
    then show thesis using that(1) assms(3) by (simp add: connect_share_def)
  next
    case (2 reason)
    then show thesis using that(2) assms(3) by (simp add: connect_share_def)
  next
    case (3 w)
    let ?cs = "\<lparr>cs_share = s, cs_id = i, cumulative_work = w, pow_validation = v,
      validated_ancestry = connect_validated_ancestry c s v enforce\<rparr>"
    let ?new = "c\<lparr>connected := fmupd i ?cs (connected c)\<rparr>"
    have con: "share_id s = Ok i" "fmlookup (connected c) i = None" "structural_reject_reason c s = No_Reason"
      "pow_consistent v" "enforce \<longrightarrow> difficulty_policy c \<noteq> None"
      "parent_id s = 0 \<or> fmlookup (connected c) (parent_id s) \<noteq> None"
      using assms(2) by (simp_all add: connectable_def)
    note inv = conn_invD [OF assms(1)]
    have ext: "extends (connected c) (connected ?new)" using extends_fmupd [OF con(2)] by simp
    have lnk: "linked (connected c) x" if "fmlookup (connected c) j = Some x" for j x
      using inv(2) [OF that] by (simp add: share_ok_def)
    have "linked (connected ?new) ?cs" using 3(2) linked_extends [OF _ ext, of ?cs] by simp
    moreover have "expected_difficulty_reject_reason ?new s = expected_difficulty_reject_reason c s"
      by (rule expected_difficulty_extends [OF lnk ext _ con(6)]) simp_all
    moreover have "parent_id s = 0 \<or> parent_validated ?new s \<or>
        \<not> validated_ancestry (the (fmlookup (connected c) (parent_id s)))"
      using con(2,6) by (auto simp: parent_validated_def)
    moreover have "structural_reject_reason ?new s = No_Reason"
      using structural_cong [of ?new c s] con(3) by simp
    ultimately have "share_ok ?new i ?cs"
      using con 3(3)
      by (auto simp: share_ok_def validated_ok_def connect_validated_ancestry_def
          split: option.splits)
    from insert_connected_ok [OF assms(1) con(2) _ this, of b] obtain tip where
      "insert_connected c ?cs b = (?new\<lparr>best_tip_id := Some tip\<rparr>, Ok (b \<or> best_tip_id c \<noteq> Some tip))"
      "conn_inv (?new\<lparr>best_tip_id := Some tip\<rparr>)" by auto
    with 3(1) assms(3) show thesis
      by (intro that(3) [where cs = ?cs and tip = tip]) (simp_all add: connect_share_def)
  qed
qed

end
