(* ===== verification/Chain_Ops.thy ===== *)
theory Chain_Ops
  imports Chain_Inv
begin

text \<open>
  The public operations of the share chain keep its invariant. \<open>core_inv\<close> holds after every call,
  also after one that throws; \<open>chain_inv\<close> adds that no orphan is stranded and holds after every
  call that returns. The only exceptions that can leave an operation are the timestamp range of
  the retarget and what \<open>share_id\<close> and the proof-of-work backend throw: the logic errors of the
  code are unreachable.
\<close>

section \<open>Invariant with orphans\<close>

definition orphan_ok :: "share_chain \<Rightarrow> share_id \<Rightarrow> orphan_share \<Rightarrow> bool" where
  "orphan_ok c i orph \<longleftrightarrow>
    os_id orph = i \<and> share_id (os_share orph) = Ok i \<and>
    structural_reject_reason c (os_share orph) = No_Reason \<and> parent_id (os_share orph) \<noteq> 0 \<and>
    pow_consistent (os_pow_validation orph) \<and>
    (os_enforce_sidechain_difficulty orph \<longrightarrow> difficulty_policy c \<noteq> None) \<and>
    fmlookup (connected c) i = None"

definition index_sound :: "share_chain \<Rightarrow> bool" where
  "index_sound c \<longleftrightarrow>
    (\<forall>p ids. fmlookup (orphans_by_parent c) p = Some ids \<longrightarrow>
      distinct ids \<and>
      (\<forall>i\<in>set ids. \<exists>orph. fmlookup (orphans c) i = Some orph \<and> parent_id (os_share orph) = p))"

definition core_inv :: "share_chain \<Rightarrow> bool" where
  "core_inv c \<longleftrightarrow>
    conn_inv c \<and> index_sound c \<and>
    (\<forall>i orph. fmlookup (orphans c) i = Some orph \<longrightarrow> orphan_ok c i orph)"

definition waiting :: "share_chain \<Rightarrow> share_id \<Rightarrow> orphan_share \<Rightarrow> bool" where
  "waiting c i orph \<longleftrightarrow>
    fmlookup (connected c) (parent_id (os_share orph)) = None \<and>
    (\<exists>ids. fmlookup (orphans_by_parent c) (parent_id (os_share orph)) = Some ids \<and> i \<in> set ids)"

text \<open>With \<open>full\<close> no orphan is stranded: each waits, indexed, for a parent that is not connected.\<close>

definition chain_inv :: "bool \<Rightarrow> share_chain \<Rightarrow> bool" where
  "chain_inv full c \<longleftrightarrow>
    core_inv c \<and> (full \<longrightarrow> (\<forall>i orph. fmlookup (orphans c) i = Some orph \<longrightarrow> waiting c i orph))"

lemma core_invD:
  assumes "core_inv c"
  shows "conn_inv c" "index_sound c" "fmlookup (orphans c) i = Some orph \<Longrightarrow> orphan_ok c i orph"
  using assms by (auto simp: core_inv_def)

lemma chain_invD:
  assumes "chain_inv full c"
  shows "core_inv c" "conn_inv c" "full \<Longrightarrow> fmlookup (orphans c) i = Some orph \<Longrightarrow> waiting c i orph"
  using assms by (auto simp: chain_inv_def core_inv_def)

lemma index_soundD:
  assumes "index_sound c" "fmlookup (orphans_by_parent c) p = Some ids"
  shows "distinct ids" "i \<in> set ids \<Longrightarrow> \<exists>orph. fmlookup (orphans c) i = Some orph \<and> parent_id (os_share orph) = p"
  using assms by (auto simp: index_sound_def)

lemma chain_inv_empty: "policy_ok c \<Longrightarrow> connected c = fmempty \<Longrightarrow> orphans c = fmempty \<Longrightarrow>
    orphans_by_parent c = fmempty \<Longrightarrow> best_tip_id c = None \<Longrightarrow> chain_inv full c"
  by (simp add: chain_inv_def core_inv_def conn_inv_def index_sound_def tip_selected_def)

text \<open>What one call may change: connected shares stay as they are, no share appears from nowhere.\<close>

definition grows :: "share_chain \<Rightarrow> share_chain \<Rightarrow> bool" where
  "grows c c' \<longleftrightarrow>
    (\<forall>i cs. fmlookup (connected c) i = Some cs \<longrightarrow> fmlookup (connected c') i = Some cs) \<and>
    (\<forall>i cs. fmlookup (connected c') i = Some cs \<longrightarrow>
      fmlookup (connected c) i = Some cs \<or>
      (\<exists>orph. fmlookup (orphans c) i = Some orph \<and> cs_share cs = os_share orph)) \<and>
    (\<forall>i orph. fmlookup (orphans c') i = Some orph \<longrightarrow> fmlookup (orphans c) i = Some orph) \<and>
    difficulty_policy c' = difficulty_policy c \<and> parameter_id c' = parameter_id c"

text \<open>The shares a chain holds, connected or waiting.\<close>

definition held :: "share_chain \<Rightarrow> share \<Rightarrow> bool" where
  "held c s \<longleftrightarrow> (\<exists>i cs. fmlookup (connected c) i = Some cs \<and> cs_share cs = s) \<or>
    (\<exists>i orph. fmlookup (orphans c) i = Some orph \<and> os_share orph = s)"

lemma grows_held: "grows c c' \<Longrightarrow> held c' s \<Longrightarrow> held c s"
  unfolding grows_def held_def by metis

lemma held_connect:
  assumes "connected d = fmupd i cs (connected c)" "orphans d = orphans c" "held d t"
  shows "t = cs_share cs \<or> held c t"
  using assms unfolding held_def by (auto split: if_splits)

lemma grows_refl: "grows c c"
  by (auto simp: grows_def)

lemma grows_trans: "grows c1 c2 \<Longrightarrow> grows c2 c3 \<Longrightarrow> grows c1 c3"
  unfolding grows_def by (clarify; intro conjI; metis)

section \<open>Promotion\<close>

definition promote_inv :: "bool \<Rightarrow> share_id list \<Rightarrow> share_chain \<Rightarrow> bool" where
  "promote_inv full ids c \<longleftrightarrow>
    core_inv c \<and>
    (\<forall>i\<in>set ids. \<forall>orph. fmlookup (orphans c) i = Some orph \<longrightarrow>
      fmlookup (connected c) (parent_id (os_share orph)) \<noteq> None \<and>
      fmlookup (orphans_by_parent c) (parent_id (os_share orph)) = None) \<and>
    (full \<longrightarrow> (\<forall>i orph. fmlookup (orphans c) i = Some orph \<longrightarrow> i \<in> set ids \<or> waiting c i orph))"

lemma orphan_connectable:
  assumes "core_inv c" "fmlookup (orphans c) i = Some orph"
    "fmlookup (connected c) (parent_id (os_share orph)) \<noteq> None"
  shows "connectable c (os_share orph) i (os_pow_validation orph) (os_enforce_sidechain_difficulty orph)"
  using core_invD(3) [OF assms(1,2)] assms(3) by (simp add: orphan_ok_def connectable_def)

text \<open>Dropping an orphan that no index entry names.\<close>

lemma core_inv_drop_orphan:
  assumes "core_inv c" "fmlookup (orphans c) i = Some orph"
    "fmlookup (orphans_by_parent c) (parent_id (os_share orph)) = None"
  shows "core_inv (c\<lparr>orphans := fmdrop i (orphans c)\<rparr>)"
proof -
  let ?c = "c\<lparr>orphans := fmdrop i (orphans c)\<rparr>"
  have "conn_inv ?c"
    using core_invD(1) [OF assms(1)] share_ok_cong [of ?c c]
    by (simp add: conn_inv_def policy_ok_def)
  moreover have "index_sound ?c"
    unfolding index_sound_def
  proof (intro allI impI)
    fix p ids assume p: "fmlookup (orphans_by_parent ?c) p = Some ids"
    then have "p \<noteq> parent_id (os_share orph)" using assms(3) by auto
    with p assms(2) index_soundD [OF core_invD(2) [OF assms(1)], of p ids]
    show "distinct ids \<and> (\<forall>i\<in>set ids. \<exists>orph. fmlookup (orphans ?c) i = Some orph \<and>
        parent_id (os_share orph) = p)"
      by (auto; fastforce)
  qed
  ultimately show ?thesis
    using core_invD(3) [OF assms(1)]
    by (auto simp: core_inv_def orphan_ok_def structural_reject_reason_def split: if_splits)
qed

lemma promote_inv_reject:
  assumes "promote_inv full (i # rest) c" "fmlookup (orphans c) i = Some orph"
  shows "promote_inv full rest (c\<lparr>orphans := fmdrop i (orphans c)\<rparr>)"
proof -
  from assms have *: "core_inv c" "fmlookup (orphans_by_parent c) (parent_id (os_share orph)) = None"
    by (auto simp: promote_inv_def)
  from core_inv_drop_orphan [OF *(1) assms(2) *(2)] assms show ?thesis
    by (auto simp: promote_inv_def waiting_def split: if_splits)
qed

lemma core_inv_connect_orphan:
  assumes "core_inv (c\<lparr>orphans := fmdrop i (orphans c)\<rparr>)"
    "conn_inv (c\<lparr>connected := fmupd i cs (connected c), best_tip_id := t\<rparr>)"
  shows "core_inv (c\<lparr>connected := fmupd i cs (connected c), best_tip_id := t,
      orphans := fmdrop i (orphans c)\<rparr>)" (is "core_inv ?d")
proof -
  have "conn_inv ?d"
    using assms(2) share_ok_cong [of ?d "c\<lparr>connected := fmupd i cs (connected c), best_tip_id := t\<rparr>"]
    by (simp add: conn_inv_def policy_ok_def)
  then show ?thesis
    using assms(1)
    by (auto simp: core_inv_def index_sound_def orphan_ok_def structural_reject_reason_def
        split: if_splits)
qed

lemma promote_inv_connect:
  assumes "promote_inv full (i # rest) c" "fmlookup (orphans c) i = Some orph"
    "conn_inv (c\<lparr>connected := fmupd i cs (connected c), best_tip_id := t\<rparr>)"
  defines "d \<equiv> c\<lparr>connected := fmupd i cs (connected c), best_tip_id := t,
      orphans := fmdrop i (orphans c)\<rparr>"
  shows "fmlookup (orphans_by_parent d) i = None \<Longrightarrow> promote_inv full rest d"
    and "fmlookup (orphans_by_parent d) i = Some ids \<Longrightarrow>
      promote_inv full (sort ids @ rest) (d\<lparr>orphans_by_parent := fmdrop i (orphans_by_parent d)\<rparr>)"
proof -
  have rej: "promote_inv full rest (c\<lparr>orphans := fmdrop i (orphans c)\<rparr>)"
    using promote_inv_reject [OF assms(1,2)] .
  then have core: "core_inv d"
    unfolding d_def by (intro core_inv_connect_orphan assms(3)) (simp add: promote_inv_def)
  show "promote_inv full rest d" if "fmlookup (orphans_by_parent d) i = None"
    using core rej that by (auto simp: promote_inv_def waiting_def d_def) (metis option.distinct(1))
  assume ids: "fmlookup (orphans_by_parent d) i = Some ids"
  let ?e = "d\<lparr>orphans_by_parent := fmdrop i (orphans_by_parent d)\<rparr>"
  have "conn_inv ?e"
    using core_invD(1) [OF core] share_ok_cong [of ?e d] by (simp add: conn_inv_def policy_ok_def)
  then have "core_inv ?e"
    using core by (auto simp: core_inv_def index_sound_def orphan_ok_def structural_reject_reason_def
        split: if_splits)
  moreover have "\<exists>orph. fmlookup (orphans d) j = Some orph \<and> parent_id (os_share orph) = i"
    if "j \<in> set ids" for j
    using index_soundD(2) [OF core_invD(2) [OF core] ids that] .
  ultimately show "promote_inv full (sort ids @ rest) ?e"
    using rej ids by (fastforce simp: promote_inv_def waiting_def d_def split: if_splits)
qed

lemma grows_connect_orphan:
  assumes "fmlookup (orphans c) i = Some orph" "cs_share cs = os_share orph"
    "fmlookup (connected c) i = None"
  shows "grows c (c\<lparr>connected := fmupd i cs (connected c), best_tip_id := t,
      orphans := fmdrop i (orphans c)\<rparr>)"
  using assms by (auto simp: grows_def split: if_splits)

lemma connected_size_fmupd:
  "fmlookup (connected c) i = None \<Longrightarrow>
    connected_size (c\<lparr>connected := fmupd i cs (connected c), best_tip_id := t, orphans := u\<rparr>) =
      Suc (connected_size c)"
  by (simp add: connected_size_def fmdom_notI fcard_finsert_disjoint)

lemma promote_loop_step:
  assumes "promote_inv full (i # rest) c" "fmlookup (orphans c) i = Some orph"
  obtains "promote_loop (i # rest) c n b = (c, Throw range_error)"
    | b' where "promote_loop (i # rest) c n b =
        promote_loop rest (c\<lparr>orphans := fmdrop i (orphans c)\<rparr>) n b'"
    | ids d b' where "promote_loop (i # rest) c n b = promote_loop (ids @ rest) d (Suc n) b'"
      "promote_inv full (ids @ rest) d" "grows c d" "connected_size d = Suc (connected_size c)"
      "fcard (fmdom (orphans d)) < fcard (fmdom (orphans c))"
proof -
  let ?s = "os_share orph" and ?v = "os_pow_validation orph" and ?e = "os_enforce_sidechain_difficulty orph"
  have core: "core_inv c" using assms(1) by (simp add: promote_inv_def)
  have "fmlookup (connected c) (parent_id ?s) \<noteq> None"
    using assms by (simp add: promote_inv_def)
  then have con: "connectable c ?s i ?v ?e" by (rule orphan_connectable [OF core assms(2)])
  then have new: "fmlookup (connected c) i = None" by (simp add: connectable_def)
  obtain c1 r where eq: "connect_share c ?s i ?v ?e b = (c1, r)" by fastforce
  from core_invD(1) [OF core] con eq show thesis
  proof (cases rule: connect_share_cases)
    case 1
    then show thesis using that(1) eq assms(2) by (simp add: promote_loop.simps)
  next
    case (2 reason)
    then show thesis using that(2) [of b] eq assms(2) by (simp add: promote_loop.simps)
  next
    case (3 cs t)
    define d where "d = c\<lparr>connected := fmupd i cs (connected c), best_tip_id := Some t,
      orphans := fmdrop i (orphans c)\<rparr>"
    have c1: "c1\<lparr>orphans := fmdrop i (orphans c1)\<rparr> = d" using 3(1) by (simp add: d_def)
    note pc = promote_inv_connect [OF assms 3(3) [unfolded 3(1)], folded d_def]
    have g: "grows c d" unfolding d_def by (rule grows_connect_orphan [OF assms(2) 3(4) new])
    have sz: "connected_size d = Suc (connected_size c)"
      unfolding d_def by (rule connected_size_fmupd [OF new])
    have fc: "fcard (fmdom (orphans d)) < fcard (fmdom (orphans c))"
      using fcard_fmdrop_less [OF assms(2)] by (simp add: d_def)
    show thesis
    proof (cases "fmlookup (orphans_by_parent d) i")
      case None
      then show thesis
        using eq 3(2) assms(2) c1 pc(1) g sz fc
        by (intro that(3) [where ids = "[]" and d = d]) (simp_all add: promote_loop.simps)
    next
      case (Some ids)
      have "grows d (d\<lparr>orphans_by_parent := fmdrop i (orphans_by_parent d)\<rparr>)"
        by (auto simp: grows_def)
      with g have "grows c (d\<lparr>orphans_by_parent := fmdrop i (orphans_by_parent d)\<rparr>)"
        by (rule grows_trans)
      then show thesis
        using eq 3(2) assms(2) c1 pc(2) [OF Some] sz fc Some
        by (intro that(3) [where ids = "sort ids" and
              d = "d\<lparr>orphans_by_parent := fmdrop i (orphans_by_parent d)\<rparr>"])
          (simp_all add: promote_loop.simps connected_size_def)
    qed
  qed
qed

lemma chain_inv_promote_Nil: "promote_inv full [] c \<Longrightarrow> chain_inv full c"
  by (simp add: promote_inv_def chain_inv_def)

lemma promote_inv_skip: "promote_inv full (i # rest) c \<Longrightarrow> fmlookup (orphans c) i = None \<Longrightarrow> promote_inv full rest c"
  by (auto simp: promote_inv_def) (metis option.distinct(1))

text \<open>What a run of the promotion may leave: \<open>n\<close> counts the promoted shares so far.\<close>

definition promoted_to :: "bool \<Rightarrow> share_chain \<Rightarrow> nat \<Rightarrow> share_chain \<times> (nat \<times> bool) result \<Rightarrow> bool" where
  "promoted_to full c n out \<longleftrightarrow>
    (case out of (c', r) \<Rightarrow>
      core_inv c' \<and> grows c c' \<and>
      (case r of
        Inl e \<Rightarrow> e = range_error
      | Inr (m, b) \<Rightarrow> chain_inv full c' \<and> connected_size c' + n = connected_size c + m))"

lemma promoted_to_trans:
  "grows c d \<Longrightarrow> connected_size d = connected_size c + k \<Longrightarrow> promoted_to full d (n + k) out \<Longrightarrow>
    promoted_to full c n out"
  by (auto simp: promoted_to_def elim: grows_trans split: prod.splits sum.splits)

lemma promote_loop_promoted:
  assumes "promote_inv full ids c"
  shows "promoted_to full c n (promote_loop ids c n b)"
  using assms
proof (induction "fcard (fmdom (orphans c))" arbitrary: ids c n b rule: less_induct)
  case less
  note outer = less.hyps
  from less.prems show ?case
  proof (induction ids)
    case Nil
    then show ?case
      using chain_inv_promote_Nil by (auto simp: promoted_to_def grows_refl promote_inv_def)
  next
    case (Cons i rest)
    show ?case
    proof (cases "fmlookup (orphans c) i")
      case None
      with Cons promote_inv_skip show ?thesis by (simp add: promote_loop.simps)
    next
      case (Some orph)
      from Cons.prems Some show ?thesis
      proof (cases rule: promote_loop_step [where n = n and b = b])
        case 1
        with Cons.prems show ?thesis
          by (simp add: promoted_to_def grows_refl promote_inv_def)
      next
        case (2 b')
        let ?d = "c\<lparr>orphans := fmdrop i (orphans c)\<rparr>"
        have "promoted_to full ?d n (promote_loop rest ?d n b')"
          using fcard_fmdrop_less [OF Some] promote_inv_reject [OF Cons.prems Some]
          by (intro outer) simp_all
        moreover have "grows c ?d" by (auto simp: grows_def split: if_splits)
        ultimately show ?thesis
          unfolding 2 by (intro promoted_to_trans [of c ?d 0]) (simp_all add: connected_size_def)
      next
        case (3 ids d b')
        have "promoted_to full d (Suc n) (promote_loop (ids @ rest) d (Suc n) b')"
          using 3 by (intro outer)
        with 3 show ?thesis by (intro promoted_to_trans [of c d 1]) simp_all
      qed
    qed
  qed
qed

section \<open>Adding a share\<close>

text \<open>The state right after a share was connected: its waiting orphans are still to be promoted.\<close>

lemma promote_children_promoted:
  assumes "chain_inv full c" "fmlookup (connected c) i = None" "fmlookup (orphans c) i = None"
    "conn_inv (c\<lparr>connected := fmupd i cs (connected c), best_tip_id := t\<rparr>)"
  defines "d \<equiv> c\<lparr>connected := fmupd i cs (connected c), best_tip_id := t\<rparr>"
  shows "promoted_to full d n (promote_children d i n b)"
proof -
  note inv = chain_invD [OF assms(1)]
  have core: "core_inv d"
    using assms(3,4) inv(1) unfolding d_def
    by (auto simp: core_inv_def index_sound_def orphan_ok_def structural_reject_reason_def
        split: if_splits)
  have wait: "parent_id (os_share orph) = i \<and> (\<exists>ids. fmlookup (orphans_by_parent c) i = Some ids \<and> j \<in> set ids)
      \<or> waiting d j orph"
    if full "fmlookup (orphans c) j = Some orph" for j orph
    using inv(3) [OF that] by (auto simp: waiting_def d_def)
  show ?thesis
  proof (cases "fmlookup (orphans_by_parent c) i")
    case None
    with core wait have "chain_inv full d" by (auto simp: chain_inv_def d_def)
    with None core show ?thesis
      by (simp add: promote_children_def d_def promoted_to_def grows_refl)
  next
    case (Some ids)
    let ?e = "d\<lparr>orphans_by_parent := fmdrop i (orphans_by_parent d)\<rparr>"
    have "conn_inv ?e"
      using core_invD(1) [OF core] share_ok_cong [of ?e d] by (simp add: conn_inv_def policy_ok_def)
    then have "core_inv ?e"
      using core by (auto simp: core_inv_def index_sound_def orphan_ok_def structural_reject_reason_def
          split: if_splits)
    moreover have "\<exists>orph. fmlookup (orphans c) j = Some orph \<and> parent_id (os_share orph) = i"
      if "j \<in> set ids" for j
      using index_soundD(2) [OF core_invD(2) [OF inv(1)] Some that] .
    ultimately have "promote_inv full (sort ids) ?e"
      using wait Some by (fastforce simp: promote_inv_def waiting_def d_def split: if_splits)
    from promote_loop_promoted [OF this] have "promoted_to full ?e n (promote_children d i n b)"
      by (simp add: promote_children_def d_def Some)
    then show ?thesis
      by (intro promoted_to_trans [of d ?e 0]) (auto simp: connected_size_def grows_def)
  qed
qed

lemma keep_orphan_chain_inv:
  assumes "chain_inv full c" "share_id s = Ok i" "\<not> is_known c i"
    "structural_reject_reason c s = No_Reason" "pow_consistent v"
    "enforce \<longrightarrow> difficulty_policy c \<noteq> None"
    "parent_id s \<noteq> 0" "fmlookup (connected c) (parent_id s) = None"
  shows "chain_inv full (keep_orphan c s i v enforce)"
proof -
  let ?d = "keep_orphan c s i v enforce"
  note inv = chain_invD [OF assms(1)]
  have new: "fmlookup (connected c) i = None" "fmlookup (orphans c) i = None"
    using assms(3) by (simp_all add: is_known_def fmlookup_dom_iff)
  have fields: "connected ?d = connected c" "best_tip_id ?d = best_tip_id c"
    "difficulty_policy ?d = difficulty_policy c"
    by (simp_all add: keep_orphan_def)
  have "conn_inv ?d"
    using inv(2) share_ok_cong [OF fields(1,3)] unfolding conn_inv_def policy_ok_def fields by simp
  moreover have "index_sound ?d"
    unfolding index_sound_def
  proof (intro allI impI)
    fix p ids assume p: "fmlookup (orphans_by_parent ?d) p = Some ids"
    define old where "old = (case fmlookup (orphans_by_parent c) p of None \<Rightarrow> [] | Some ids \<Rightarrow> ids)"
    have ids: "ids = (if p = parent_id s then old @ [i] else old)"
      using p by (auto simp: keep_orphan_def old_def split: if_splits)
    have old: "distinct old"
      "\<And>j. j \<in> set old \<Longrightarrow> \<exists>orph. fmlookup (orphans c) j = Some orph \<and> parent_id (os_share orph) = p"
      using index_soundD [OF core_invD(2) [OF inv(1)], of p]
      by (cases "fmlookup (orphans_by_parent c) p"; simp add: old_def)+
    have ni: "i \<notin> set old" using old(2) [of i] new(2) by auto
    have "\<exists>orph. fmlookup (orphans ?d) j = Some orph \<and> parent_id (os_share orph) = p"
      if "j \<in> set ids" for j
      using that old(2) [of j] ni unfolding ids by (auto simp: keep_orphan_def split: if_splits)
    then show "distinct ids \<and> (\<forall>j\<in>set ids. \<exists>orph. fmlookup (orphans ?d) j = Some orph \<and>
        parent_id (os_share orph) = p)"
      using old(1) ni by (simp add: ids)
  qed
  moreover have "orphan_ok ?d j orph" if "fmlookup (orphans ?d) j = Some orph" for j orph
  proof (cases "j = i")
    case True
    with that have "orph = \<lparr>os_share = s, os_id = i, os_pow_validation = v,
        os_enforce_sidechain_difficulty = enforce\<rparr>"
      by (simp add: keep_orphan_def)
    with True assms(2,4-7) new(1) fields structural_cong [OF fields(3), of s] show ?thesis
      by (cases enforce) (simp_all add: orphan_ok_def)
  next
    case False
    with that have "orphan_ok c j orph" by (intro core_invD(3) [OF inv(1)]) (simp add: keep_orphan_def)
    with fields structural_cong [OF fields(3), of "os_share orph"] show ?thesis
      by (simp add: orphan_ok_def)
  qed
  moreover have "waiting ?d j orph" if full "fmlookup (orphans ?d) j = Some orph" for j orph
  proof (cases "j = i")
    case True
    with that(2) have "parent_id (os_share orph) = parent_id s" by (auto simp: keep_orphan_def)
    with True assms(8) show ?thesis by (simp add: waiting_def keep_orphan_def)
  next
    case False
    with that have "waiting c j orph" by (intro inv(3)) (simp_all add: keep_orphan_def)
    then show ?thesis by (auto simp: waiting_def keep_orphan_def)
  qed
  ultimately show ?thesis unfolding chain_inv_def core_inv_def by blast
qed

lemma add_prevalidated_share_cases:
  assumes "chain_inv full c" "pow_consistent v" "enforce \<longrightarrow> difficulty_policy c \<noteq> None"
    "add_prevalidated_share c s v enforce = (c', r)"
  obtains (no_id) e where "share_id s = Throw e" "c' = c" "r = Throw e"
    | (duplicate) i where "share_id s = Ok i" "is_known c i" "c' = c"
      "r = Ok ((fresh_result i)\<lparr>disposition := Duplicate\<rparr>)"
    | (reject) i reason where "share_id s = Ok i" "\<not> is_known c i" "reason \<noteq> No_Reason" "c' = c"
      "r = Ok ((fresh_result i)\<lparr>reject_reason := reason\<rparr>)"
    | (orphan) i where "share_id s = Ok i" "\<not> is_known c i" "c' = keep_orphan c s i v enforce"
      "parent_id s \<noteq> 0" "fmlookup (connected c) (parent_id s) = None" "chain_inv full c'"
      "r = Ok ((fresh_result i)\<lparr>disposition := Orphan\<rparr>)"
    | (throws) i where "share_id s = Ok i" "\<not> is_known c i" "core_inv c'" "r = Throw range_error"
      "extends (connected c) (connected c')" "difficulty_policy c' = difficulty_policy c"
      "parameter_id c' = parameter_id c" "\<And>t. held c' t \<Longrightarrow> t = s \<or> held c t"
    | (connects) i cs d n where "share_id s = Ok i" "\<not> is_known c i" "cs_share cs = s" "cs_id cs = i"
      "pow_validation cs = v" "connect_checks c s enforce = Ok (Inr (cumulative_work cs))"
      "validated_ancestry cs = connect_validated_ancestry c s v enforce"
      "connected d = fmupd i cs (connected c)" "orphans d = orphans c"
      "difficulty_policy d = difficulty_policy c" "parameter_id d = parameter_id c"
      "conn_inv d" "grows d c'" "chain_inv full c'" "connected_size c' = Suc (connected_size c) + n"
      "r = Ok ((fresh_result i)\<lparr>disposition := Connected, promoted_orphans := n,
             best_tip_changed := (best_tip_id c \<noteq> best_tip_id c')\<rparr>)"
proof (cases "share_id s")
  case (Inl e)
  then show thesis using assms(4) by (intro no_id [OF Inl]) (simp_all add: add_prevalidated_share_def)
next
  case id: (Inr i)
  let ?known = "parent_id s = 0 \<or> fmlookup (connected c) (parent_id s) \<noteq> None"
  consider "is_known c i" | "\<not> is_known c i" "structural_reject_reason c s \<noteq> No_Reason"
    | "\<not> is_known c i" "structural_reject_reason c s = No_Reason" "\<not> ?known"
    | "\<not> is_known c i" "structural_reject_reason c s = No_Reason" ?known by blast
  then show thesis
  proof cases
    case 1
    then show thesis
      using assms(4) id by (intro duplicate [OF id 1]) (simp_all add: add_prevalidated_share_def)
  next
    case 2
    then show thesis
      using assms(4) id by (intro reject [OF id 2]) (auto simp: add_prevalidated_share_def Let_def)
  next
    case 3
    then have eq: "c' = keep_orphan c s i v enforce" "r = Ok ((fresh_result i)\<lparr>disposition := Orphan\<rparr>)"
      using id assms(4) by (auto simp: add_prevalidated_share_def Let_def fmlookup_dom_iff)
    moreover have "chain_inv full (keep_orphan c s i v enforce)"
      using 3 by (intro keep_orphan_chain_inv assms(1-3) id) auto
    ultimately show thesis using 3 by (intro orphan [OF id]) auto
  next
    case 4
    have new: "fmlookup (connected c) i = None" "fmlookup (orphans c) i = None"
      using 4(1) by (simp_all add: is_known_def fmlookup_dom_iff)
    have con: "connectable c s i v enforce"
      using 4 id new assms by (simp add: connectable_def)
    have out: "connect_and_promote c s i v enforce = (c', r)"
      using 4 id assms(4) by (auto simp: add_prevalidated_share_def Let_def fmlookup_dom_iff)
    obtain c1 r1 where eq: "connect_share c s i v enforce False = (c1, r1)" by fastforce
    from chain_invD(2) [OF assms(1)] con eq show thesis
    proof (cases rule: connect_share_cases)
      case 1
      then show thesis
        using out eq chain_invD(1) [OF assms(1)]
        by (intro throws [OF id 4(1)]) (simp_all add: connect_and_promote_def extends_def)
    next
      case (2 reason)
      then show thesis
        using out eq
        by (intro reject [OF id 4(1), of reason]) (simp_all add: connect_and_promote_def fresh_result_def)
    next
      case (3 cs t)
      obtain c2 r2 where pr: "promote_children c1 i 0 (best_tip_id c \<noteq> Some t) = (c2, r2)" by fastforce
      have prom: "promoted_to full c1 0 (c2, r2)"
        using promote_children_promoted [OF assms(1) new, where cs = cs and t = "Some t" and n = 0] 3(1,3) pr by metis
      then have gr: "core_inv c2" "grows c1 c2" by (simp_all add: promoted_to_def)
      have ext: "extends (connected c) (connected c2)"
        unfolding extends_def
      proof (intro allI impI)
        fix j a assume j: "fmlookup (connected c) j = Some a"
        with new(1) have "fmlookup (connected c1) j = Some a" by (auto simp: 3(1))
        with gr(2) have "fmlookup (connected c2) j = Some a" by (simp add: grows_def)
        then show "\<exists>b. fmlookup (connected c2) j = Some b \<and> cs_share b = cs_share a \<and>
            cs_id b = cs_id a \<and> cumulative_work b = cumulative_work a" by simp
      qed
      have c'2: "c' = c2"
        using out eq 3(2) pr by (auto simp: connect_and_promote_def split: sum.splits prod.splits)
      show thesis
      proof (cases r2)
        case (Inl e)
        with prom have "r = Throw range_error"
          using out eq 3(2) pr by (simp add: connect_and_promote_def promoted_to_def)
        moreover have "difficulty_policy c2 = difficulty_policy c" "parameter_id c2 = parameter_id c"
          using gr(2) 3(1) by (simp_all add: grows_def)
        moreover have "t' = s \<or> held c t'" if "held c2 t'" for t'
          using held_connect [of c1 i cs c t'] grows_held [OF gr(2) that] 3(1,4) by auto
        ultimately show thesis using gr ext c'2 by (intro throws [OF id 4(1)]) auto
      next
        case (Inr mb)
        obtain n b where mb: "mb = (n, b)" by fastforce
        have ok: "chain_inv full c2" "connected_size c2 = connected_size c1 + n"
          using prom Inr mb by (simp_all add: promoted_to_def)
        have "connected_size c1 = Suc (connected_size c)"
          using new(1) 3(1) by (simp add: connected_size_def fmdom_notI fcard_finsert_disjoint)
        moreover have "r = Ok ((fresh_result i)\<lparr>disposition := Connected, promoted_orphans := n,
             best_tip_changed := (best_tip_id c \<noteq> best_tip_id c2)\<rparr>)"
          using out eq 3(2) pr Inr mb by (auto simp: connect_and_promote_def)
        ultimately show thesis
          using ok gr c'2 3(1,3) by (intro connects [OF id 4(1) 3(4-6,8,7), of c1 n]) simp_all
      qed
    qed
  qed
qed

end
