(* ===== verification/Chain_Admission.thy ===== *)
theory Chain_Admission
  imports Chain_Ops
begin

text \<open>
  Admission of new shares and revalidation of replayed ones. \<open>submit_share\<close> and
  \<open>revalidate_connected_share\<close> are the only operations that mark a share as validated; the lemmas
  say which checks have passed when they do, that they keep the invariant, and which exceptions
  they let through.
\<close>

section \<open>Submitting a share\<close>

lemma submit_pow_consistent:
  assumes "structural_reject_reason c s = No_Reason" "trusted_context_reject_reason s ctx = No_Reason"
    "submit_pow backend s ctx mode = Ok v" "meets_share_difficulty v" "classification v \<noteq> Invalid"
  shows "replay_validation_consistent v"
proof -
  note st = structural_okD [OF assms(1)]
  have nd: "ctx_network_difficulty ctx = network_difficulty s"
    using assms(2) by (auto simp: trusted_context_reject_reason_def split: if_splits)
  show ?thesis
    using assms(3-5) st(1,2) unfolding submit_pow_def nd
    by (auto simp: validate_candidate_difficulty128 bindE_eq_Ok Let_def replay_validation_consistent_def)
qed

definition admission_checks ::
  "progpow_backend option \<Rightarrow> share_chain \<Rightarrow> share \<Rightarrow> share_work_context \<Rightarrow> u64 \<Rightarrow> progpowz_context_mode \<Rightarrow>
    candidate_validation \<Rightarrow> bool"
where
  "admission_checks backend c s ctx now mode v \<longleftrightarrow>
    structural_reject_reason c s = No_Reason \<and> trusted_context_reject_reason s ctx = No_Reason \<and>
    absolute_timestamp_reject_reason s now = No_Reason \<and> submit_parent_reason c s = No_Reason \<and>
    expected_difficulty_reject_reason c s = Ok No_Reason \<and>
    submit_pow backend s ctx mode = Ok v \<and> meets_share_difficulty v \<and> classification v \<noteq> Invalid"

lemma admission_checks_consistent:
  "admission_checks backend c s ctx now mode v \<Longrightarrow> pow_consistent (Some v)"
  unfolding admission_checks_def pow_consistent_def by (auto intro: submit_pow_consistent)

lemma submit_share_cases:
  assumes "submit_share backend c s ctx now mode = (c', r)"
  obtains (throws) e where "c' = c" "r = Throw e"
      "share_id s = Throw e \<or> expected_difficulty_reject_reason c s = Throw e \<and>
         structural_reject_reason c s = No_Reason \<or> submit_pow backend s ctx mode = Throw e"
    | (rejects) i reason where "share_id s = Ok i" "c' = c" "reason \<noteq> No_Reason" "\<not> is_known c i"
      "r = Ok ((fresh_result i)\<lparr>reject_reason := reason\<rparr>)"
    | (duplicate) i where "share_id s = Ok i" "c' = c" "is_known c i"
      "r = Ok ((fresh_result i)\<lparr>disposition := Duplicate\<rparr>)"
    | (admits) i v where "share_id s = Ok i" "\<not> is_known c i"
      "admission_checks backend c s ctx now mode v"
      "add_prevalidated_share c s (Some v) (difficulty_policy c \<noteq> None) = (c', r)"
proof (cases "share_id s")
  case (Inl e)
  with assms show thesis by (intro throws [of e]) (auto simp: submit_share_def)
next
  case id: (Inr i)
  show thesis
  proof (cases "is_known c i")
    case True
    with id assms show thesis by (intro duplicate [of i]) (auto simp: submit_share_def)
  next
    case new: False
    let ?reasons = "[structural_reject_reason c s, trusted_context_reject_reason s ctx,
      absolute_timestamp_reject_reason s now, submit_parent_reason c s]"
    show thesis
    proof (cases "list_all (\<lambda>x. x = No_Reason) ?reasons")
      case False
      then have "\<exists>reason. reason \<noteq> No_Reason \<and>
          submit_share backend c s ctx now mode = (c, Ok ((fresh_result i)\<lparr>reject_reason := reason\<rparr>))"
        using id new by (auto simp: submit_share_def)
      with assms show thesis using rejects [OF id _ _ new] by auto
    next
      case True
      show thesis
      proof (cases "expected_difficulty_reject_reason c s")
        case (Inl e)
        with True id new assms show thesis by (intro throws [of e]) (auto simp: submit_share_def)
      next
        case ex: (Inr reason)
        show thesis
        proof (cases "reason = No_Reason \<and> progpowz_available backend")
          case False
          with True id new assms ex have "c' = c" "\<exists>x. x \<noteq> No_Reason \<and>
              r = Ok ((fresh_result i)\<lparr>reject_reason := x\<rparr>)"
            by (auto simp: submit_share_def split: if_splits)
          then show thesis using rejects [OF id _ _ new] by auto
        next
          case ok: True
          show thesis
          proof (cases "submit_pow backend s ctx mode")
            case (Inl e)
            with True id new assms ex ok show thesis
              by (intro throws [of e]) (auto simp: submit_share_def)
          next
            case pow: (Inr v)
            show thesis
            proof (cases "\<not> meets_share_difficulty v \<or> classification v = Invalid")
              case bad: True
              with True id new assms ex ok pow have
                "c' = c" "r = Ok ((fresh_result i)\<lparr>reject_reason := InvalidPow\<rparr>)"
                by (auto simp: submit_share_def)
              then show thesis by (intro rejects [OF id _ _ new, of InvalidPow]) auto
            next
              case good: False
              then have "admission_checks backend c s ctx now mode v"
                using True ex ok pow by (auto simp: admission_checks_def)
              moreover have "add_prevalidated_share c s (Some v) (difficulty_policy c \<noteq> None) = (c', r)"
                using True id new assms ex ok pow good by (auto simp: submit_share_def)
              ultimately show thesis by (rule admits [OF id new])
            qed
          qed
        qed
      qed
    qed
  qed
qed

lemma extends_refl: "extends m m"
  by (simp add: extends_def)

lemma extends_grows: "fmlookup (connected c) i = None \<Longrightarrow> connected d = fmupd i cs (connected c) \<Longrightarrow>
    grows d c' \<Longrightarrow> extends (connected c) (connected c')"
  unfolding extends_def grows_def by (metis fmupd_lookup option.distinct(1))

text \<open>What every call that may add shares leaves behind; \<open>Known\<close> are the exceptions it lets through.\<close>

definition kept :: "bool \<Rightarrow> share_chain \<Rightarrow> (exn \<Rightarrow> bool) \<Rightarrow> share_chain \<times> 'a result \<Rightarrow> bool" where
  "kept full c Known out \<longleftrightarrow>
    (case out of (c', r) \<Rightarrow>
      core_inv c' \<and> extends (connected c) (connected c') \<and>
      difficulty_policy c' = difficulty_policy c \<and> parameter_id c' = parameter_id c \<and>
      (case r of Inl e \<Rightarrow> Known e | Inr _ \<Rightarrow> chain_inv full c'))"

lemma kept_unchanged:
  "chain_inv full c \<Longrightarrow> (\<And>e. r = Throw e \<Longrightarrow> Known e) \<Longrightarrow> kept full c Known (c, r)"
  by (auto simp: kept_def extends_refl chain_invD(1) split: sum.split)

lemma add_prevalidated_share_kept:
  assumes "chain_inv full c" "pow_consistent v" "enforce \<longrightarrow> difficulty_policy c \<noteq> None"
  shows "kept full c (\<lambda>e. e = range_error \<or> share_id s = Throw e) (add_prevalidated_share c s v enforce)"
proof -
  obtain c' r where eq: "add_prevalidated_share c s v enforce = (c', r)" by fastforce
  from assms eq show ?thesis
  proof (cases rule: add_prevalidated_share_cases)
    case (orphan i)
    then show ?thesis
      using chain_invD(1) [OF orphan(6)] unfolding eq
      by (simp add: kept_def keep_orphan_def extends_refl)
  next
    case (throws i)
    then show ?thesis unfolding eq by (simp add: kept_def)
  next
    case (connects i cs d n)
    have "fmlookup (connected c) i = None" using connects(2) by (simp add: is_known_def fmlookup_dom_iff)
    from extends_grows [OF this connects(8,13)] connects chain_invD(1) [OF connects(14)]
    show ?thesis unfolding eq by (simp add: kept_def grows_def)
  qed (auto simp: eq intro!: kept_unchanged [OF assms(1)])
qed

lemma add_share_unchecked_kept:
  "chain_inv full c \<Longrightarrow>
    kept full c (\<lambda>e. e = range_error \<or> share_id s = Throw e) (add_share_unchecked c s)"
  unfolding add_share_unchecked_def by (intro add_prevalidated_share_kept) (simp_all add: pow_consistent_def)

lemma submit_share_kept:
  assumes "chain_inv full c"
  shows "kept full c (\<lambda>e. e = range_error \<or> share_id s = Throw e \<or> submit_pow backend s ctx mode = Throw e)
    (submit_share backend c s ctx now mode)"
proof -
  obtain c' r where eq: "submit_share backend c s ctx now mode = (c', r)" by fastforce
  then show ?thesis
  proof (cases rule: submit_share_cases)
    case (throws e)
    have "expected_difficulty_reject_reason c s = Throw e \<Longrightarrow> structural_reject_reason c s = No_Reason \<Longrightarrow>
        e = range_error"
      using expected_reason_cases [OF chain_invD(2) [OF assms(1)], of s] structural_okD(2) [of c s] by auto
    with throws show ?thesis unfolding eq throws(1) by (intro kept_unchanged [OF assms]) auto
  next
    case (admits i v)
    from admission_checks_consistent [OF admits(3)]
    have "kept full c (\<lambda>e. e = range_error \<or> share_id s = Throw e) (c', r)"
      unfolding admits(4) [symmetric] by (intro add_prevalidated_share_kept [OF assms]) simp_all
    then show ?thesis unfolding eq by (auto simp: kept_def split: sum.splits)
  qed (auto simp: eq intro!: kept_unchanged [OF assms])
qed

section \<open>Marking a connected share as validated\<close>

definition mark_validated ::
  "share_chain \<Rightarrow> share_id \<Rightarrow> connected_share \<Rightarrow> candidate_validation \<Rightarrow> share_chain"
where
  "mark_validated c i cs v =
    c\<lparr>connected := fmupd i (cs\<lparr>pow_validation := Some v, validated_ancestry := True\<rparr>) (connected c)\<rparr>"

lemma extends_fmupd_same:
  assumes "fmlookup m i = Some cs" "cs_share cs' = cs_share cs" "cs_id cs' = cs_id cs"
    "cumulative_work cs' = cumulative_work cs"
  shows "extends m (fmupd i cs' m)"
  using assms by (auto simp: extends_def)

lemma tip_selected_fmupd_same:
  assumes "fmlookup m i = Some cs" "cs_share cs' = cs_share cs" "cs_id cs' = cs_id cs"
    "cumulative_work cs' = cumulative_work cs" "tip_selected m best"
  shows "tip_selected (fmupd i cs' m) best"
proof (cases best)
  case None
  with assms show ?thesis by (simp add: tip_selected_def)
next
  case (Some b)
  have same: "better_tip cs' x = better_tip cs x" "better_tip x cs' = better_tip x cs" for x
    using assms by (simp_all add: better_tip_def)
  from Some assms(5) obtain x where x: "fmlookup m b = Some x"
    "\<And>j y. fmlookup m j = Some y \<Longrightarrow> j \<noteq> b \<Longrightarrow> better_tip x y"
    by (auto simp: tip_selected_def)
  show ?thesis
  proof (cases "b = i")
    case True
    with x assms(1) Some show ?thesis by (auto simp: tip_selected_def same)
  next
    case False
    with x assms(1) Some show ?thesis by (auto simp: tip_selected_def same split: if_splits)
  qed
qed

lemma mark_validated_inv:
  assumes "chain_inv full c" "fmlookup (connected c) i = Some cs" "difficulty_policy c \<noteq> None"
    "replay_validation_consistent v"
    "parent_id (cs_share cs) = 0 \<or> parent_validated c (cs_share cs)"
    "expected_difficulty_reject_reason c (cs_share cs) = Ok No_Reason"
  shows "chain_inv full (mark_validated c i cs v)"
proof -
  let ?cs = "cs\<lparr>pow_validation := Some v, validated_ancestry := True\<rparr>"
  let ?d = "mark_validated c i cs v"
  note inv = chain_invD [OF assms(1)]
  note cinv = conn_invD [OF inv(2)]
  have d: "connected ?d = fmupd i ?cs (connected c)" "orphans ?d = orphans c"
    "orphans_by_parent ?d = orphans_by_parent c" "best_tip_id ?d = best_tip_id c"
    "difficulty_policy ?d = difficulty_policy c"
    by (simp_all add: mark_validated_def)
  have lnk: "linked (connected c) x" if "fmlookup (connected c) j = Some x" for j x
    using cinv(2) [OF that] by (simp add: share_ok_def)
  have ext: "extends (connected c) (connected ?d)"
    unfolding d(1) by (rule extends_fmupd_same [OF assms(2)]) simp_all
  have mono: "\<exists>b. fmlookup (connected ?d) j = Some b \<and> validated_ancestry b"
    if "fmlookup (connected c) j = Some a" "validated_ancestry a" for j a
    using that by (auto simp: d(1))
  have old: "share_ok ?d j x" if "fmlookup (connected c) j = Some x" for j x
    by (rule share_ok_extends [OF cinv(2) [OF that] lnk ext d(5) mono])
  have "parent_id (cs_share cs) = 0 \<or> fmlookup (connected c) (parent_id (cs_share cs)) \<noteq> None"
    using assms(5) by (auto simp: parent_validated_def split: option.splits)
  then have "expected_difficulty_reject_reason ?d (cs_share cs) = Ok No_Reason"
    using expected_difficulty_extends [of c, OF lnk ext d(5)] assms(6) by simp
  moreover have "parent_id (cs_share cs) = 0 \<or> parent_validated ?d (cs_share cs)"
    using assms(5) parent_validated_mono [of c ?d, OF mono] by auto
  ultimately have "share_ok ?d i ?cs"
    using old [OF assms(2)] assms(3,4) d(5)
    by (auto simp: share_ok_def validated_ok_def linked_def Let_def pow_consistent_def)
  then have shares: "share_ok ?d j x" if "fmlookup (connected ?d) j = Some x" for j x
    using that old by (auto simp: d(1) split: if_splits)
  have "tip_selected (connected ?d) (best_tip_id ?d)"
    unfolding d(1,4) by (rule tip_selected_fmupd_same [OF assms(2) _ _ _ cinv(3)]) simp_all
  with shares cinv(1) d(5) have "conn_inv ?d" by (simp add: conn_inv_def policy_ok_def)
  moreover have "orphan_ok ?d j orph" if "fmlookup (orphans c) j = Some orph" for j orph
    using core_invD(3) [OF inv(1) that] assms(2) structural_cong [OF d(5)] d(1,5)
    by (auto simp: orphan_ok_def)
  moreover have "waiting ?d j orph" if full "fmlookup (orphans c) j = Some orph" for j orph
    using inv(3) [OF that] assms(2) d(1,3) by (auto simp: waiting_def)
  moreover have "index_sound ?d" using core_invD(2) [OF inv(1)] d by (simp add: index_sound_def)
  ultimately show ?thesis unfolding chain_inv_def core_inv_def d(2) by blast
qed

section \<open>Revalidating a connected share\<close>

definition revalidation_checks ::
  "progpow_backend option \<Rightarrow> share_chain \<Rightarrow> share \<Rightarrow> share_work_context \<Rightarrow> u64 \<Rightarrow> progpowz_context_mode \<Rightarrow>
    candidate_validation \<Rightarrow> bool"
where
  "revalidation_checks backend c s ctx now mode v \<longleftrightarrow>
    difficulty_policy c \<noteq> None \<and> (parent_id s = 0 \<or> parent_validated c s) \<and>
    admission_checks backend c s ctx now mode v"

lemma revalidate_parent_None:
  "revalidate_parent c i s = None \<longleftrightarrow>
    (parent_id s = 0 \<or> parent_validated c s) \<and> submit_parent_reason c s = No_Reason"
  by (auto simp: revalidate_parent_def parent_validated_def submit_parent_reason_def split: option.splits)

lemma revalidate_parent_Some:
  "revalidate_parent c i s = Some res \<Longrightarrow> revalidate_status res \<noteq> Validated"
  by (auto simp: revalidate_parent_def revalidate_result_def split: if_splits option.splits)

lemma revalidate_cases:
  assumes "revalidate_connected_share backend c i ctx now mode = (c', r)"
  obtains (throws) e cs where "c' = c" "r = Throw e" "fmlookup (connected c) i = Some cs"
      "expected_difficulty_reject_reason c (cs_share cs) = Throw e \<and>
         structural_reject_reason c (cs_share cs) = No_Reason \<or>
       submit_pow backend (cs_share cs) ctx mode = Throw e"
    | (unchanged) res where "c' = c" "r = Ok res" "revalidate_status res \<noteq> Validated"
    | (validates) cs v where "fmlookup (connected c) i = Some cs" "\<not> validated_ancestry cs"
      "revalidation_checks backend c (cs_share cs) ctx now mode v"
      "c' = mark_validated c i cs v" "r = Ok (revalidate_result i Validated No_Reason)"
proof (cases "fmlookup (connected c) i")
  case None
  with assms show thesis
    by (intro unchanged) (auto simp: revalidate_connected_share_def revalidate_result_def)
next
  case cs: (Some cs)
  let ?s = "cs_share cs"
  define early where "early \<longleftrightarrow> validated_ancestry cs \<or> difficulty_policy c = None \<or>
    structural_reject_reason c ?s \<noteq> No_Reason \<or> trusted_context_reject_reason ?s ctx \<noteq> No_Reason \<or>
    absolute_timestamp_reject_reason ?s now \<noteq> No_Reason"
  note defs = revalidate_connected_share_def revalidate_result_def cs early_def
  consider (early) early | (parent) res where "\<not> early" "revalidate_parent c i ?s = Some res"
    | (throw) e where "\<not> early" "revalidate_parent c i ?s = None"
        "expected_difficulty_reject_reason c ?s = Throw e"
    | (diff) reason where "\<not> early" "revalidate_parent c i ?s = None"
        "expected_difficulty_reject_reason c ?s = Ok reason"
        "reason \<noteq> No_Reason \<or> \<not> progpowz_available backend"
    | (pow) "\<not> early" "revalidate_parent c i ?s = None" "progpowz_available backend"
        "expected_difficulty_reject_reason c ?s = Ok No_Reason"
    by (metis not_None_eq sum.exhaust)
  then show thesis
  proof cases
    case early
    with assms have "c' = c \<and> (\<exists>res. r = Ok res \<and> revalidate_status res \<noteq> Validated)"
      by (auto simp: defs Let_def split: if_splits)
    then show thesis using unchanged by blast
  next
    case (parent res)
    with assms show thesis
      by (intro unchanged [of res] revalidate_parent_Some [of c i ?s]) (auto simp: defs)
  next
    case (throw e)
    with assms show thesis by (intro throws [OF _ _ cs]) (auto simp: defs)
  next
    case (diff reason)
    with assms have "c' = c \<and> (\<exists>res. r = Ok res \<and> revalidate_status res \<noteq> Validated)"
      by (auto simp: defs split: if_splits)
    then show thesis using unchanged by blast
  next
    case pow
    show thesis
    proof (cases "submit_pow backend ?s ctx mode")
      case (Inl e)
      with pow assms show thesis by (intro throws [OF _ _ cs, of e]) (auto simp: defs)
    next
      case (Inr v)
      show thesis
      proof (cases "\<not> meets_share_difficulty v \<or> classification v = Invalid")
        case True
        with Inr pow assms show thesis by (intro unchanged) (auto simp: defs)
      next
        case False
        with Inr pow have "revalidation_checks backend c ?s ctx now mode v"
          by (auto simp: revalidation_checks_def admission_checks_def revalidate_parent_None early_def)
        then show thesis
          using False Inr pow assms
          by (intro validates [OF cs _ _]) (auto simp: defs mark_validated_def)
      qed
    qed
  qed
qed

lemma revalidate_kept:
  assumes "chain_inv full c"
  shows "kept full c (\<lambda>e. e = range_error \<or>
      (\<exists>cs. fmlookup (connected c) i = Some cs \<and> submit_pow backend (cs_share cs) ctx mode = Throw e))
    (revalidate_connected_share backend c i ctx now mode)"
proof -
  obtain c' r where eq: "revalidate_connected_share backend c i ctx now mode = (c', r)" by fastforce
  then show ?thesis
  proof (cases rule: revalidate_cases)
    case (throws e cs)
    have "expected_difficulty_reject_reason c (cs_share cs) = Throw e \<Longrightarrow>
        structural_reject_reason c (cs_share cs) = No_Reason \<Longrightarrow> e = range_error"
      using expected_reason_cases [OF chain_invD(2) [OF assms(1)]] structural_okD(2) by fastforce
    with throws show ?thesis unfolding eq throws(1) by (intro kept_unchanged [OF assms]) auto
  next
    case (unchanged res)
    then show ?thesis unfolding eq by (auto intro!: kept_unchanged [OF assms])
  next
    case (validates cs v)
    have chk: "difficulty_policy c \<noteq> None" "parent_id (cs_share cs) = 0 \<or> parent_validated c (cs_share cs)"
      "admission_checks backend c (cs_share cs) ctx now mode v"
      using validates(3) by (auto simp: revalidation_checks_def)
    have "chain_inv full (mark_validated c i cs v)"
      using admission_checks_consistent [OF chk(3)] chk
      by (intro mark_validated_inv [OF assms validates(1)])
        (auto simp: pow_consistent_def admission_checks_def)
    moreover have "extends (connected c) (connected (mark_validated c i cs v))"
      unfolding mark_validated_def using extends_fmupd_same [OF validates(1)] by simp
    ultimately show ?thesis
      unfolding eq validates using chain_invD(1) by (auto simp: kept_def mark_validated_def)
  qed
qed

end
