(* ===== verification/Chain_Replay.thy ===== *)
theory Chain_Replay
  imports Chain_Admission
begin

text \<open>
  Replay-validation snapshots: the records of the validated shares, parents first, and their
  restoration into a chain that was replayed without proof of work. A restore keeps the invariant,
  changes nothing when it throws, and brings back exactly the state whose snapshot it is given.
\<close>

section \<open>The checks before a restore\<close>

definition validated_ids :: "share_chain \<Rightarrow> share_id set" where
  "validated_ids c = {i. \<exists>cs. fmlookup (connected c) i = Some cs \<and> validated_ancestry cs}"

lemma validated_share:
  assumes "conn_inv c" "fmlookup (connected c) i = Some cs" "validated_ancestry cs"
  obtains v where "pow_validation cs = Some v" "replay_validation_consistent v" "share_id (cs_share cs) = Ok i"
    "cs_id cs = i" "parent_id (cs_share cs) = 0 \<or> parent_validated c (cs_share cs)"
    "expected_difficulty_reject_reason c (cs_share cs) = Ok No_Reason" "difficulty_policy c \<noteq> None"
  using conn_invD(2) [OF assms(1,2)] assms(3)
  by (auto simp: share_ok_def validated_ok_def pow_consistent_def split: option.splits)

lemma restore_existing_ok:
  assumes "conn_inv c" "\<And>i cs. (i, cs) \<in> set xs \<Longrightarrow> fmlookup (connected c) i = Some cs"
  shows "forE restore_existing_step xs V = Ok (V \<union> {i. \<exists>cs. (i, cs) \<in> set xs \<and> validated_ancestry cs})"
  using assms(2)
proof (induction xs arbitrary: V)
  case (Cons x xs)
  obtain i cs where x: "x = (i, cs)" by fastforce
  have "restore_existing_step (i, cs) V = Ok (if validated_ancestry cs then insert i V else V)"
  proof (cases "validated_ancestry cs")
    case True
    have "fmlookup (connected c) i = Some cs" using Cons.prems x by simp
    from this True obtain v where "pow_validation cs = Some v" "replay_validation_consistent v"
      "share_id (cs_share cs) = Ok i"
      by (rule validated_share [OF assms(1)])
    with True show ?thesis by (simp add: restore_existing_step_def)
  qed (simp add: restore_existing_step_def)
  with Cons show ?case by (auto simp: x)
qed simp

lemma restore_ancestry_ok:
  assumes "conn_inv c" "\<And>i cs. (i, cs) \<in> set xs \<Longrightarrow> fmlookup (connected c) i = Some cs"
  shows "forE (restore_ancestry_step c) xs () = Ok ()"
  using assms(2)
proof (induction xs)
  case (Cons x xs)
  obtain i cs where x: "x = (i, cs)" by fastforce
  have "restore_ancestry_step c (i, cs) () = Ok ()"
  proof (cases "validated_ancestry cs")
    case True
    have "fmlookup (connected c) i = Some cs" using Cons.prems x by simp
    from this True have "parent_id (cs_share cs) = 0 \<or> parent_validated c (cs_share cs)"
      by (rule validated_share [OF assms(1)])
    with True show ?thesis by (auto simp: restore_ancestry_step_def)
  qed (simp add: restore_ancestry_step_def)
  with Cons show ?case by (auto simp: x)
qed simp

lemma restore_resolve_iff:
  assumes "conn_inv c"
  shows "forE (restore_resolve_step c) rs (seen, ord) = Ok out \<longleftrightarrow>
    out = (seen \<union> replay_share_id ` set rs, ord @ rs) \<and> distinct (map replay_share_id rs) \<and>
    replay_share_id ` set rs \<inter> seen = {} \<and>
    (\<forall>r\<in>set rs. replay_share_id r \<noteq> 0 \<and> replay_validation_consistent (replay_validation r) \<and>
      fmlookup (connected c) (replay_share_id r) \<noteq> None)"
proof (induction rs arbitrary: seen ord)
  case (Cons r rs)
  let ?i = "replay_share_id r"
  have step: "restore_resolve_step c r (seen, ord) = Ok st \<longleftrightarrow>
      st = (insert ?i seen, ord @ [r]) \<and> ?i \<noteq> 0 \<and> ?i \<notin> seen \<and>
      replay_validation_consistent (replay_validation r) \<and> fmlookup (connected c) ?i \<noteq> None" for st
  proof (cases "fmlookup (connected c) ?i")
    case (Some cs)
    with conn_invD(2) [OF assms Some] show ?thesis
      by (auto simp: restore_resolve_step_def share_ok_def)
  qed (simp add: restore_resolve_step_def)
  show ?case
    unfolding forE.simps bindE_eq_Ok step by (auto simp: Cons.IH)
qed auto

section \<open>Applying the records\<close>

lemma extends_trans:
  assumes "extends m1 m2" "extends m2 m3"
  shows "extends m1 m3"
  unfolding extends_def
proof (intro allI impI)
  fix i a assume "fmlookup m1 i = Some a"
  with assms(1) obtain b where b: "fmlookup m2 i = Some b" "cs_share b = cs_share a" "cs_id b = cs_id a"
    "cumulative_work b = cumulative_work a" by (rule extendsD)
  from assms(2) b(1) obtain x where "fmlookup m3 i = Some x" "cs_share x = cs_share b" "cs_id x = cs_id b"
    "cumulative_work x = cumulative_work b" by (rule extendsD)
  with b show "\<exists>b. fmlookup m3 i = Some b \<and> cs_share b = cs_share a \<and> cs_id b = cs_id a \<and>
    cumulative_work b = cumulative_work a" by simp
qed

lemma restore_apply_mark:
  "fmlookup (connected d) (replay_share_id r) = Some cs \<Longrightarrow> \<not> validated_ancestry cs \<Longrightarrow>
    restore_apply_step r (d, n) = (mark_validated d (replay_share_id r) cs (replay_validation r), Suc n)"
  by (simp add: restore_apply_step_def mark_validated_def)

lemma restore_apply_skip:
  "fmlookup (connected d) (replay_share_id r) = Some cs \<Longrightarrow> validated_ancestry cs \<Longrightarrow>
    restore_apply_step r (d, n) = (d, n)"
  by (simp add: restore_apply_step_def)

lemma restore_preflight_Ok:
  assumes "fmlookup (connected c) (replay_share_id r) = Some cs"
    "restore_preflight_step c r V = Ok V'"
  shows "V' = insert (replay_share_id r) V"
    "validated_ancestry cs \<or>
      structural_reject_reason c (cs_share cs) = No_Reason \<and>
      (parent_id (cs_share cs) = 0 \<or> parent_id (cs_share cs) \<in> V) \<and>
      expected_difficulty_reject_reason c (cs_share cs) = Ok No_Reason"
    "validated_ancestry cs \<Longrightarrow> \<exists>v. pow_validation cs = Some v \<and> replay_validation_equal v (replay_validation r)"
  using assms
  by (auto simp: restore_preflight_step_def restore_parent_check_def bindE_eq_Ok Let_def
      split: if_splits option.splits)

lemma parent_validatedI:
  "i \<in> validated_ids c \<Longrightarrow> parent_id s = i \<Longrightarrow> parent_validated c s"
  by (auto simp: validated_ids_def parent_validated_def)

text \<open>The loop of changes, from a state \<open>d\<close> reached from \<open>c\<close> by validating shares.\<close>

definition restored ::
  "bool \<Rightarrow> share_chain \<Rightarrow> replay_validation_record list \<Rightarrow> share_chain \<Rightarrow> nat \<Rightarrow> share_chain \<times> nat \<Rightarrow> bool"
where
  "restored full c rs d n out \<longleftrightarrow>
    (case out of (d', n') \<Rightarrow>
      chain_inv full d' \<and> extends (connected c) (connected d') \<and>
      difficulty_policy d' = difficulty_policy c \<and> parameter_id d' = parameter_id c \<and>
      n' = n + length (filter (\<lambda>r. replay_share_id r \<notin> validated_ids c) rs) \<and>
      (\<forall>r\<in>set rs. \<exists>cs v. fmlookup (connected d') (replay_share_id r) = Some cs \<and> validated_ancestry cs \<and>
        pow_validation cs = Some v \<and> replay_validation_equal v (replay_validation r)) \<and>
      (\<forall>j. j \<notin> replay_share_id ` set rs \<longrightarrow> fmlookup (connected d') j = fmlookup (connected d) j) \<and>
      (\<forall>j. fmlookup (connected d') j = None \<longleftrightarrow> fmlookup (connected d) j = None))"

lemma restored_Cons:
  assumes "restored full c rs e m out" "replay_share_id r \<notin> replay_share_id ` set rs"
    "m = n + (if replay_share_id r \<in> validated_ids c then 0 else 1)"
    "\<And>j. j \<noteq> replay_share_id r \<Longrightarrow> fmlookup (connected e) j = fmlookup (connected d) j"
    "fmlookup (connected e) (replay_share_id r) = Some cs" "validated_ancestry cs"
    "pow_validation cs = Some v" "replay_validation_equal v (replay_validation r)"
    "fmlookup (connected d) (replay_share_id r) \<noteq> None"
  shows "restored full c (r # rs) d n out"
proof (cases out)
  case (Pair d' n')
  have "fmlookup (connected e) j = None \<longleftrightarrow> fmlookup (connected d) j = None" for j
    using assms(4,5,9) by (cases "j = replay_share_id r") auto
  moreover have "fmlookup (connected d') (replay_share_id r) = Some cs"
    using assms(1,2,5) Pair by (simp add: restored_def)
  ultimately show ?thesis using assms Pair by (auto simp: restored_def)
qed

lemma restore_apply_loop:
  assumes "chain_inv full c" "difficulty_policy c \<noteq> None"
    and "chain_inv full d" "extends (connected c) (connected d)" "difficulty_policy d = difficulty_policy c"
    "parameter_id d = parameter_id c" "V \<subseteq> validated_ids d"
    and "forE (restore_preflight_step c) rs V = Ok V'" "distinct (map replay_share_id rs)"
    "\<And>r. r \<in> set rs \<Longrightarrow> replay_validation_consistent (replay_validation r) \<and>
      fmlookup (connected c) (replay_share_id r) \<noteq> None \<and>
      fmlookup (connected d) (replay_share_id r) = fmlookup (connected c) (replay_share_id r)"
  shows "restored full c rs d n (fold restore_apply_step rs (d, n))"
  using assms(3-10)
proof (induction rs arbitrary: d V n)
  case Nil
  then show ?case by (simp add: restored_def)
next
  case (Cons r rs)
  let ?i = "replay_share_id r"
  from Cons.prems(8) [of r] obtain cs where cs: "fmlookup (connected c) ?i = Some cs"
    "fmlookup (connected d) ?i = Some cs" and rv: "replay_validation_consistent (replay_validation r)" by auto
  from Cons.prems(6) obtain V1 where V1: "restore_preflight_step c r V = Ok V1"
    "forE (restore_preflight_step c) rs V1 = Ok V'"
    by (auto simp: bindE_eq_Ok)
  note pre = restore_preflight_Ok [OF cs(1) V1(1)]
  have other: "?i \<notin> replay_share_id ` set rs" "distinct (map replay_share_id rs)"
    using Cons.prems(7) by auto
  show ?case
  proof (cases "validated_ancestry cs")
    case True
    have "V1 \<subseteq> validated_ids d" using pre(1) Cons.prems(5) cs True by (auto simp: validated_ids_def)
    then have "restored full c rs d n (fold restore_apply_step rs (d, n))"
      using Cons.prems(8) by (intro Cons.IH [OF Cons.prems(1-4) _ V1(2) other(2)]) auto
    moreover have "?i \<in> validated_ids c" using cs(1) True by (auto simp: validated_ids_def)
    ultimately show ?thesis
      using pre(3) [OF True] True restore_apply_skip [OF cs(2) True] cs(2)
      by (auto intro: restored_Cons [OF _ other(1)])
  next
    case False
    let ?e = "mark_validated d ?i cs (replay_validation r)"
    have lnk: "linked (connected c) x" if "fmlookup (connected c) j = Some x" for j x
      using conn_invD(2) [OF chain_invD(2) [OF assms(1)] that] by (simp add: share_ok_def)
    from False pre(2) have chk: "parent_id (cs_share cs) = 0 \<or> parent_id (cs_share cs) \<in> V"
      "expected_difficulty_reject_reason c (cs_share cs) = Ok No_Reason" by auto
    have "parent_id (cs_share cs) = 0 \<or> fmlookup (connected c) (parent_id (cs_share cs)) \<noteq> None"
      using lnk [OF cs(1)] by (auto simp: linked_def Let_def split: if_splits)
    then have "expected_difficulty_reject_reason d (cs_share cs) = Ok No_Reason"
      using expected_difficulty_extends [of c d, OF lnk Cons.prems(2,3)] chk(2) by simp
    moreover have "parent_id (cs_share cs) = 0 \<or> parent_validated d (cs_share cs)"
      using chk(1) Cons.prems(5) parent_validatedI by blast
    ultimately have inv: "chain_inv full ?e"
      using assms(2) Cons.prems(3) rv by (intro mark_validated_inv [OF Cons.prems(1) cs(2)]) auto
    have look: "fmlookup (connected ?e) j = (if j = ?i then
        Some (cs\<lparr>pow_validation := Some (replay_validation r), validated_ancestry := True\<rparr>)
        else fmlookup (connected d) j)" for j
      by (simp add: mark_validated_def)
    have ext: "extends (connected c) (connected ?e)"
      using extends_fmupd_same [OF cs(2)]
      by (intro extends_trans [OF Cons.prems(2)]) (simp add: mark_validated_def)
    have "V1 \<subseteq> validated_ids ?e" using pre(1) Cons.prems(5) look by (auto simp: validated_ids_def)
    then have "restored full c rs ?e (Suc n) (fold restore_apply_step rs (?e, Suc n))"
      using Cons.prems(3,4,8) other(1)
      by (intro Cons.IH [OF inv ext _ _ _ V1(2) other(2)])
        (auto simp: mark_validated_def dest: Cons.prems(8))
    moreover have "?i \<notin> validated_ids c" using cs(1) False by (auto simp: validated_ids_def)
    ultimately have "restored full c (r # rs) d n (fold restore_apply_step rs (?e, Suc n))"
      using look cs(2)
      by (intro restored_Cons [where e = ?e and m = "Suc n", OF _ other(1)])
        (auto simp: replay_validation_equal_def)
    then show ?thesis using restore_apply_mark [OF cs(2) False] by simp
  qed
qed

section \<open>Restoring\<close>

lemma restore_order_props [simp]:
  "set (restore_order c rs) = set rs" "mset (restore_order c rs) = mset rs"
  "distinct (map replay_share_id (restore_order c rs)) \<longleftrightarrow> distinct (map replay_share_id rs)"
proof -
  show m: "mset (restore_order c rs) = mset rs" by (simp add: restore_order_def)
  then show "set (restore_order c rs) = set rs" by (metis set_mset_mset)
  from m have "mset (map replay_share_id (restore_order c rs)) = mset (map replay_share_id rs)" by simp
  then show "distinct (map replay_share_id (restore_order c rs)) \<longleftrightarrow> distinct (map replay_share_id rs)"
    by (rule mset_eq_imp_distinct_iff)
qed

lemma restore_plan_eq:
  assumes "conn_inv c" "difficulty_policy c \<noteq> None"
  shows "restore_plan c rs =
    bindE (forE (restore_resolve_step c) rs ({}, [])) (\<lambda>(seen, resolved).
      bindE (forE (restore_preflight_step c) (restore_order c resolved) (validated_ids c))
        (\<lambda>_. Ok (restore_order c resolved)))"
proof -
  let ?xs = "sorted_list_of_fmap (connected c)"
  have "forE restore_existing_step ?xs {} = Ok (validated_ids c)"
    using restore_existing_ok [OF assms(1), of ?xs "{}"] by (simp add: validated_ids_def)
  moreover have "forE (restore_ancestry_step c) ?xs () = Ok ()"
    using restore_ancestry_ok [OF assms(1), of ?xs] by simp
  ultimately show ?thesis using assms(2) by (auto simp: restore_plan_def Let_def)
qed

lemma restore_plan_Ok:
  assumes "conn_inv c" "restore_plan c rs = Ok ordered"
  shows "difficulty_policy c \<noteq> None" "ordered = restore_order c rs" "distinct (map replay_share_id rs)"
    "\<exists>V. forE (restore_preflight_step c) ordered (validated_ids c) = Ok V"
    "r \<in> set rs \<Longrightarrow> replay_share_id r \<noteq> 0 \<and> replay_validation_consistent (replay_validation r) \<and>
      fmlookup (connected c) (replay_share_id r) \<noteq> None"
proof -
  show pol: "difficulty_policy c \<noteq> None"
    using assms(2) by (auto simp: restore_plan_def split: if_splits)
  from assms(2) obtain st where st: "forE (restore_resolve_step c) rs ({}, []) = Ok st"
    "forE (restore_preflight_step c) (restore_order c (snd st)) (validated_ids c) \<noteq> Throw e"
    "\<exists>V. forE (restore_preflight_step c) (restore_order c (snd st)) (validated_ids c) = Ok V"
    "ordered = restore_order c (snd st)" for e
    unfolding restore_plan_eq [OF assms(1) pol] by (auto simp: bindE_eq_Ok split: prod.splits)
  from st(1) have "st = (replay_share_id ` set rs, rs)" "distinct (map replay_share_id rs)"
    "\<forall>r\<in>set rs. replay_share_id r \<noteq> 0 \<and> replay_validation_consistent (replay_validation r) \<and>
      fmlookup (connected c) (replay_share_id r) \<noteq> None"
    unfolding restore_resolve_iff [OF assms(1)] by auto
  with st show "ordered = restore_order c rs" "distinct (map replay_share_id rs)"
    "\<exists>V. forE (restore_preflight_step c) ordered (validated_ids c) = Ok V"
    "r \<in> set rs \<Longrightarrow> replay_share_id r \<noteq> 0 \<and> replay_validation_consistent (replay_validation r) \<and>
      fmlookup (connected c) (replay_share_id r) \<noteq> None"
    by auto
qed

lemma restore_cases:
  assumes "chain_inv full c" "restore_replay_validation c rs = (c', r)"
  obtains (throws) e where "c' = c" "r = Throw e"
    | (restores) n where "r = Ok n" "restored full c rs c 0 (c', n)"
proof (cases "rs = []")
  case True
  with assms show thesis
    by (intro restores [of 0]) (auto simp: restore_replay_validation_def restored_def extends_refl)
next
  case False
  show thesis
  proof (cases "restore_plan c rs")
    case (Inl e)
    with False assms show thesis by (intro throws) (auto simp: restore_replay_validation_def)
  next
    case (Inr ordered)
    note plan = restore_plan_Ok [OF chain_invD(2) [OF assms(1)] Inr]
    from plan(4) obtain V where V: "forE (restore_preflight_step c) ordered (validated_ids c) = Ok V" by auto
    have "restored full c ordered c 0 (fold restore_apply_step ordered (c, 0))"
      using plan(2,3,5)
      by (intro restore_apply_loop [OF assms(1) plan(1) assms(1) extends_refl _ _ _ V]) auto
    moreover have "length (filter P ordered) = length (filter P rs)" for P
      using plan(2) by (metis mset_filter restore_order_props(2) size_mset)
    moreover obtain d n where dn: "fold restore_apply_step ordered (c, 0) = (d, n)" by fastforce
    ultimately have "restored full c rs c 0 (d, n)" using plan(2) by (simp add: restored_def)
    with False Inr dn assms(2) show thesis
      by (intro restores) (auto simp: restore_replay_validation_def)
  qed
qed

section \<open>Snapshot and restore\<close>

text \<open>The chain as it is after a replay without proof of work: validated shares lose their mark
  and their cached proof of work.\<close>

definition forget_share :: "connected_share \<Rightarrow> connected_share" where
  "forget_share cs =
    (if validated_ancestry cs then cs\<lparr>pow_validation := None, validated_ancestry := False\<rparr> else cs)"

definition forget_validation :: "share_chain \<Rightarrow> share_chain" where
  "forget_validation c = c\<lparr>connected := fmmap forget_share (connected c)\<rparr>"

lemma forget_share_simps [simp]:
  "cs_share (forget_share cs) = cs_share cs" "cs_id (forget_share cs) = cs_id cs"
  "cumulative_work (forget_share cs) = cumulative_work cs" "\<not> validated_ancestry (forget_share cs)"
  by (simp_all add: forget_share_def)

lemma forget_lookup [simp]:
  "fmlookup (connected (forget_validation c)) i = map_option forget_share (fmlookup (connected c) i)"
  "orphans (forget_validation c) = orphans c" "orphans_by_parent (forget_validation c) = orphans_by_parent c"
  "best_tip_id (forget_validation c) = best_tip_id c"
  "difficulty_policy (forget_validation c) = difficulty_policy c"
  "parameter_id (forget_validation c) = parameter_id c"
  by (simp_all add: forget_validation_def)

lemma extends_forget: "extends (connected c) (connected (forget_validation c))"
  by (auto simp: extends_def)

lemma better_tip_forget [simp]: "better_tip (forget_share a) (forget_share b) = better_tip a b"
  by (simp add: better_tip_def)

lemma expected_forget:
  assumes "conn_inv c" "linked (connected c) cs"
  shows "expected_difficulty_reject_reason (forget_validation c) (cs_share cs) =
    expected_difficulty_reject_reason c (cs_share cs)"
proof (rule expected_difficulty_extends [OF _ extends_forget])
  show "linked (connected c) x" if "fmlookup (connected c) i = Some x" for i x
    using conn_invD(2) [OF assms(1) that] by (simp add: share_ok_def)
  show "parent_id (cs_share cs) = 0 \<or> fmlookup (connected c) (parent_id (cs_share cs)) \<noteq> None"
    using assms(2) by (auto simp: linked_def Let_def split: if_splits)
qed simp

lemma chain_inv_forget:
  assumes "chain_inv full c"
  shows "chain_inv full (forget_validation c)"
proof -
  let ?d = "forget_validation c"
  note inv = chain_invD [OF assms]
  note cinv = conn_invD [OF inv(2)]
  have "share_ok ?d i x" if "fmlookup (connected ?d) i = Some x" for i x
  proof -
    from that obtain cs where cs: "fmlookup (connected c) i = Some cs" "x = forget_share cs" by auto
    have ok: "share_ok c i cs" using cinv(2) [OF cs(1)] .
    then have "linked (connected ?d) cs" using linked_extends [OF _ extends_forget] by (simp add: share_ok_def)
    then have "linked (connected ?d) x" unfolding linked_def cs(2) forget_share_simps .
    moreover have "pow_consistent (pow_validation x)"
      using ok by (simp add: cs(2) forget_share_def share_ok_def pow_consistent_def)
    ultimately show ?thesis
      using ok structural_cong [of ?d c] by (simp add: share_ok_def cs(2) validated_ok_def)
  qed
  moreover have "tip_selected (connected ?d) (best_tip_id ?d)"
  proof (cases "best_tip_id c")
    case None
    with cinv(3) show ?thesis by (simp add: tip_selected_def forget_validation_def)
  next
    case (Some b)
    with cinv(3) show ?thesis by (fastforce simp: tip_selected_def)
  qed
  ultimately have "conn_inv ?d" using cinv(1) by (simp add: conn_inv_def policy_ok_def)
  with assms show ?thesis
    using structural_cong [of ?d c]
    by (simp add: chain_inv_def core_inv_def index_sound_def orphan_ok_def waiting_def)
qed

lemma snapshot_forE:
  assumes "conn_inv c" "\<And>i cs. (i, cs) \<in> set xs \<Longrightarrow> fmlookup (connected c) i = Some cs"
  shows "forE (snapshot_step c) xs acc = Ok (acc @ map snd (filter (\<lambda>(i, cs). validated_ancestry cs) xs))"
  using assms(2)
proof (induction xs arbitrary: acc)
  case (Cons x xs)
  obtain i cs where x: "x = (i, cs)" by fastforce
  have "snapshot_step c (i, cs) acc = Ok (if validated_ancestry cs then acc @ [cs] else acc)"
  proof (cases "validated_ancestry cs")
    case True
    have "fmlookup (connected c) i = Some cs" using Cons.prems x by simp
    from this True obtain v where "pow_validation cs = Some v" "replay_validation_consistent v"
      "share_id (cs_share cs) = Ok i" "cs_id cs = i"
      "parent_id (cs_share cs) = 0 \<or> parent_validated c (cs_share cs)"
      by (rule validated_share [OF assms(1)])
    with True show ?thesis by (auto simp: snapshot_step_def)
  qed (simp add: snapshot_step_def)
  with Cons show ?case by (auto simp: x)
qed simp

lemma snapshot_ok:
  assumes "conn_inv c" "difficulty_policy c \<noteq> None"
  obtains rs where "replay_validation_snapshot c = Ok rs" "distinct (map replay_share_id rs)"
    "\<forall>i v. (\<exists>r\<in>set rs. replay_share_id r = i \<and> replay_validation r = v) \<longleftrightarrow>
      (\<exists>cs. fmlookup (connected c) i = Some cs \<and> validated_ancestry cs \<and> pow_validation cs = Some v)"
proof -
  let ?xs = "filter (\<lambda>(i, cs). validated_ancestry cs) (sorted_list_of_fmap (connected c))"
  let ?rec = "\<lambda>cs. \<lparr>replay_share_id = cs_id cs, replay_validation = the (pow_validation cs)\<rparr>"
  define l where "l = sort_key (\<lambda>cs. (share_height (cs_share cs), cs_id cs)) (map snd ?xs)"
  have snap: "replay_validation_snapshot c = Ok (map ?rec l)"
    using assms(2) snapshot_forE [OF assms(1), of "sorted_list_of_fmap (connected c)" "[]"]
    by (auto simp: replay_validation_snapshot_def l_def)
  have mem: "cs \<in> set l \<longleftrightarrow> (\<exists>i. fmlookup (connected c) i = Some cs \<and> validated_ancestry cs)" for cs
    by (force simp: l_def)
  have key: "cs_id cs = i" if "fmlookup (connected c) i = Some cs" for i cs
    using conn_invD(4) [OF assms(1)] that by (simp add: keyed_def)
  have "map (cs_id \<circ> snd) ?xs = map fst ?xs"
    by (rule map_cong) (auto simp: key)
  moreover have "distinct (map fst ?xs)"
    by (rule distinct_map_filter) simp
  ultimately have "distinct (map cs_id (map snd ?xs))" unfolding map_map by metis
  moreover have "mset (map cs_id l) = mset (map cs_id (map snd ?xs))"
    by (simp add: l_def multiset.map_comp)
  ultimately have "distinct (map cs_id l)" using mset_eq_imp_distinct_iff by blast
  then have d: "distinct (map replay_share_id (map ?rec l))" by (simp add: comp_def)
  show thesis
  proof (rule that [OF snap d], intro allI)
    fix i v
    show "(\<exists>r\<in>set (map ?rec l). replay_share_id r = i \<and> replay_validation r = v) \<longleftrightarrow>
      (\<exists>cs. fmlookup (connected c) i = Some cs \<and> validated_ancestry cs \<and> pow_validation cs = Some v)"
    proof
      assume "\<exists>r\<in>set (map ?rec l). replay_share_id r = i \<and> replay_validation r = v"
      then obtain cs j where cs: "fmlookup (connected c) j = Some cs" "validated_ancestry cs"
        "cs_id cs = i" "the (pow_validation cs) = v" by (auto simp: mem)
      moreover from cs(1,2) have "pow_validation cs \<noteq> None"
        by (rule validated_share [OF assms(1)]) simp
      ultimately show "\<exists>cs. fmlookup (connected c) i = Some cs \<and> validated_ancestry cs \<and>
          pow_validation cs = Some v"
        using key [OF cs(1)] by auto
    next
      assume "\<exists>cs. fmlookup (connected c) i = Some cs \<and> validated_ancestry cs \<and> pow_validation cs = Some v"
      then obtain cs where cs: "fmlookup (connected c) i = Some cs" "validated_ancestry cs"
        "pow_validation cs = Some v" by auto
      then have "cs \<in> set l" using mem by blast
      then have "?rec cs \<in> set (map ?rec l)" by simp
      with cs key [OF cs(1)] show "\<exists>r\<in>set (map ?rec l). replay_share_id r = i \<and> replay_validation r = v"
        by (intro bexI [of _ "?rec cs"]) auto
    qed
  qed
qed

lemma replay_validation_equal_iff [simp]: "replay_validation_equal a b \<longleftrightarrow> a = b"
  by (cases a; cases b; cases "pow a"; cases "pow b") (auto simp: replay_validation_equal_def)

lemma restore_apply_frame:
  "fold restore_apply_step rs (d, n) = (d', n') \<Longrightarrow>
    orphans d' = orphans d \<and> orphans_by_parent d' = orphans_by_parent d \<and>
    best_tip_id d' = best_tip_id d \<and> difficulty_policy d' = difficulty_policy d \<and>
    parameter_id d' = parameter_id d"
proof (induction rs arbitrary: d n)
  case (Cons r rs)
  obtain e m where e: "restore_apply_step r (d, n) = (e, m)" by fastforce
  then have "orphans e = orphans d \<and> orphans_by_parent e = orphans_by_parent d \<and>
    best_tip_id e = best_tip_id d \<and> difficulty_policy e = difficulty_policy d \<and>
    parameter_id e = parameter_id d"
    by (auto simp: restore_apply_step_def Let_def split: if_splits)
  with Cons e show ?case by simp
qed simp

text \<open>Sorted by height, every parent comes before its children, so every record passes.\<close>

lemma restore_preflight_forgotten:
  assumes inv: "conn_inv c" and pol: "difficulty_policy c \<noteq> None"
    and sorted: "sorted (map (\<lambda>r. (share_height (cs_share (the (fmlookup (connected d) (replay_share_id r)))),
      replay_share_id r)) (ys @ zs))"
    and all: "replay_share_id ` set (ys @ zs) = validated_ids c"
    and d: "d = forget_validation c"
  shows "forE (restore_preflight_step d) zs (replay_share_id ` set ys) = Ok (validated_ids c)"
  using sorted all
proof (induction zs arbitrary: ys)
  case (Cons r zs)
  let ?i = "replay_share_id r"
  have "?i \<in> validated_ids c" using Cons.prems(2) by auto
  then obtain cs where cs: "fmlookup (connected c) ?i = Some cs" "validated_ancestry cs"
    by (auto simp: validated_ids_def)
  have ok: "share_ok c ?i cs" using conn_invD(2) [OF inv cs(1)] .
  from cs have val: "parent_id (cs_share cs) = 0 \<or> parent_validated c (cs_share cs)"
    "expected_difficulty_reject_reason c (cs_share cs) = Ok No_Reason"
    by (auto intro: validated_share [OF inv])
  have "restore_parent_check d (replay_share_id ` set ys) (cs_share cs) = Ok ()"
  proof (cases "parent_id (cs_share cs) = 0")
    case False
    with ok obtain p where p: "fmlookup (connected c) (parent_id (cs_share cs)) = Some p"
      "\<not> parent_height_mismatch (cs_share cs) (cs_share p)"
      "parent_timestamp_reject_reason (cs_share cs) (cs_share p) = No_Reason"
      by (auto simp: share_ok_def linked_def Let_def)
    from share_ok_parent [OF ok False] p(1) have h: "share_height (cs_share p) < share_height (cs_share cs)"
      by (metis lessI option.inject word_less_nat_alt)
    have "parent_id (cs_share cs) \<in> validated_ids c"
      using val(1) False p(1) by (auto simp: parent_validated_def validated_ids_def)
    then obtain r' where r': "r' \<in> set (ys @ r # zs)" "replay_share_id r' = parent_id (cs_share cs)"
      using Cons.prems(2) by (metis imageE)
    have "r' \<noteq> r" using h r'(2) p(1) cs(1) by auto
    moreover have "r' \<notin> set zs"
    proof
      assume "r' \<in> set zs"
      with Cons.prems(1) have "share_height (cs_share (the (fmlookup (connected d) ?i))) \<le>
          share_height (cs_share (the (fmlookup (connected d) (replay_share_id r'))))"
        by (auto simp: sorted_append)
      with h r'(2) p(1) cs(1) show False by (simp add: d)
    qed
    ultimately have "parent_id (cs_share cs) \<in> replay_share_id ` set ys"
      using r' by (metis Un_iff image_eqI set_ConsD set_append)
    with False p show ?thesis by (simp add: restore_parent_check_def d)
  qed (simp add: restore_parent_check_def)
  moreover have "expected_difficulty_reject_reason d (cs_share cs) = Ok No_Reason"
    using expected_forget [OF inv, of cs] ok val(2) by (simp add: share_ok_def d)
  moreover have "structural_reject_reason d (cs_share cs) = No_Reason"
    using ok structural_cong [of d c] by (simp add: share_ok_def d)
  ultimately have "restore_preflight_step d r (replay_share_id ` set ys) =
      Ok (replay_share_id ` set (ys @ [r]))"
    using cs by (simp add: restore_preflight_step_def d)
  with Cons.IH [of "ys @ [r]"] Cons.prems show ?case by simp
qed simp

text \<open>The order of the records does not matter.\<close>

lemma records_restore:
  assumes "chain_inv full c" "difficulty_policy c \<noteq> None" "fmlookup (connected c) 0 = None"
    and rs: "distinct (map replay_share_id rs)"
      "\<forall>i v. (\<exists>r\<in>set rs. replay_share_id r = i \<and> replay_validation r = v) \<longleftrightarrow>
        (\<exists>cs. fmlookup (connected c) i = Some cs \<and> validated_ancestry cs \<and> pow_validation cs = Some v)"
  shows "restore_replay_validation (forget_validation c) rs = (c, Ok (length rs))"
proof -
  let ?d = "forget_validation c"
  note inv = chain_invD [OF assms(1)]
  have dinv: "chain_inv full ?d" using assms(1) by (rule chain_inv_forget)
  have rec: "\<exists>cs. fmlookup (connected c) (replay_share_id r) = Some cs \<and> validated_ancestry cs \<and>
      pow_validation cs = Some (replay_validation r)" if "r \<in> set rs" for r
    using rs(2) that by blast
  have ids: "replay_share_id ` set rs = validated_ids c"
  proof
    show "replay_share_id ` set rs \<subseteq> validated_ids c" using rec by (fastforce simp: validated_ids_def)
    show "validated_ids c \<subseteq> replay_share_id ` set rs"
    proof
      fix i assume "i \<in> validated_ids c"
      then obtain cs where cs: "fmlookup (connected c) i = Some cs" "validated_ancestry cs"
        by (auto simp: validated_ids_def)
      from cs obtain v where "pow_validation cs = Some v" by (rule validated_share [OF inv(2)])
      with cs rs(2) have "\<exists>r\<in>set rs. replay_share_id r = i \<and> replay_validation r = v" by blast
      then show "i \<in> replay_share_id ` set rs" by auto
    qed
  qed
  have resolve: "forE (restore_resolve_step ?d) rs ({}, []) = Ok (replay_share_id ` set rs, rs)"
    unfolding restore_resolve_iff [OF chain_invD(2) [OF dinv]]
  proof (intro conjI ballI)
    fix r assume "r \<in> set rs"
    from rec [OF this] obtain cs where cs: "fmlookup (connected c) (replay_share_id r) = Some cs"
      "validated_ancestry cs" "pow_validation cs = Some (replay_validation r)" by auto
    show "replay_share_id r \<noteq> 0" using cs(1) assms(3) by auto
    show "fmlookup (connected ?d) (replay_share_id r) \<noteq> None" using cs(1) by simp
    from cs(1,2) show "replay_validation_consistent (replay_validation r)"
      by (rule validated_share [OF inv(2)]) (use cs(3) in simp)
  qed (use rs(1) in auto)
  have vd: "validated_ids ?d = {}" by (auto simp: validated_ids_def)
  have "forE (restore_preflight_step ?d) (restore_order ?d rs) {} = Ok (validated_ids c)"
    using restore_preflight_forgotten [OF inv(2) assms(2), of ?d "[]" "restore_order ?d rs"] ids
    by (simp add: restore_order_def)
  then have plan: "restore_plan ?d rs = Ok (restore_order ?d rs)"
    using restore_plan_eq [OF chain_invD(2) [OF dinv]] assms(2) resolve vd by simp
  obtain c' n where out: "fold restore_apply_step (restore_order ?d rs) (?d, 0) = (c', n)" by fastforce
  have eq: "restore_replay_validation ?d rs = (c', Ok n)"
    using plan out by (cases "rs = []") (auto simp: restore_replay_validation_def restore_order_def)
  have res: "restored full ?d rs ?d 0 (c', n)"
    using dinv eq by (cases rule: restore_cases) auto
  have "c' = c"
  proof -
    have "fmlookup (connected c') i = fmlookup (connected c) i" for i
    proof (cases "i \<in> validated_ids c")
      case True
      then obtain cs where cs: "fmlookup (connected c) i = Some cs" "validated_ancestry cs"
        by (auto simp: validated_ids_def)
      from True ids obtain r where r: "r \<in> set rs" "replay_share_id r = i" by (metis imageE)
      with res obtain x where x: "fmlookup (connected c') i = Some x" "validated_ancestry x"
        "pow_validation x = Some (replay_validation r)" by (auto simp: restored_def)
      from rec [OF r(1)] r(2) cs have pv: "pow_validation cs = Some (replay_validation r)" by auto
      have "extends (connected c) (connected c')"
        using res extends_trans [OF extends_forget] by (auto simp: restored_def)
      from this cs(1) x(1) have "cs_share x = cs_share cs" "cs_id x = cs_id cs"
        "cumulative_work x = cumulative_work cs" by (auto elim!: extendsD)
      with x cs pv show ?thesis by (simp add: connected_share.equality)
    next
      case False
      then have "fmlookup (connected c') i = map_option forget_share (fmlookup (connected c) i)"
        using res ids by (simp add: restored_def)
      with False show ?thesis
        by (cases "fmlookup (connected c) i") (auto simp: validated_ids_def forget_share_def)
    qed
    then have "connected c' = connected c" by (rule fmap_ext)
    with restore_apply_frame [OF out] show ?thesis by (intro share_chain.equality) simp_all
  qed
  moreover have "n = length rs" using res vd by (simp add: restored_def)
  ultimately show ?thesis using eq by auto
qed

lemma snapshot_restore:
  assumes "chain_inv full c" "difficulty_policy c \<noteq> None" "fmlookup (connected c) 0 = None"
  shows "\<exists>rs. replay_validation_snapshot c = Ok rs \<and>
    restore_replay_validation (forget_validation c) rs = (c, Ok (length rs))"
proof -
  obtain rs where "replay_validation_snapshot c = Ok rs" "distinct (map replay_share_id rs)"
    "\<forall>i v. (\<exists>r\<in>set rs. replay_share_id r = i \<and> replay_validation r = v) \<longleftrightarrow>
      (\<exists>cs. fmlookup (connected c) i = Some cs \<and> validated_ancestry cs \<and> pow_validation cs = Some v)"
    using snapshot_ok [OF chain_invD(2) [OF assms(1)] assms(2)] .
  with records_restore [OF assms] show ?thesis by blast
qed

end
