(* ===== verification/Chain_Prune.thy ===== *)
theory Chain_Prune
  imports Chain_Replay
begin

text \<open>
  Walks and pruning. Heights grow by one along every parent link, so the walk to the root and the
  collection of a subtree end; pruning removes exactly the descendants of a share and elects the
  best of what remains. The recursion of \<open>promote_children\<close> in the form of the source is the last
  group of lemmas.
\<close>

section \<open>Ancestry\<close>

definition child_of :: "share_chain \<Rightarrow> (share_id \<times> share_id) set" where
  "child_of c = {(p, i). p \<noteq> 0 \<and> (\<exists>cs. fmlookup (connected c) i = Some cs \<and> parent_id (cs_share cs) = p)}"

definition descendants :: "share_chain \<Rightarrow> share_id \<Rightarrow> share_id set" where
  "descendants c root = {i. (root, i) \<in> (child_of c)\<^sup>*}"

definition height_of :: "share_chain \<Rightarrow> share_id \<Rightarrow> nat" where
  "height_of c i = (case fmlookup (connected c) i of None \<Rightarrow> 0 | Some cs \<Rightarrow> unat (share_height (cs_share cs)))"

lemma child_of_height:
  assumes "conn_inv c" "(p, i) \<in> child_of c"
  shows "height_of c i = Suc (height_of c p)" "fmlookup (connected c) p \<noteq> None" "fmlookup (connected c) i \<noteq> None"
proof -
  from assms(2) obtain cs where cs: "fmlookup (connected c) i = Some cs" "parent_id (cs_share cs) = p" "p \<noteq> 0"
    by (auto simp: child_of_def)
  obtain q where "fmlookup (connected c) p = Some q"
    "unat (share_height (cs_share cs)) = Suc (unat (share_height (cs_share q)))"
    using share_ok_parent [OF conn_invD(2) [OF assms(1) cs(1)]] cs(2,3) by metis
  with cs show "height_of c i = Suc (height_of c p)" "fmlookup (connected c) p \<noteq> None"
    "fmlookup (connected c) i \<noteq> None"
    by (simp_all add: height_of_def)
qed

lemma descendant_height:
  assumes "conn_inv c" "(root, i) \<in> (child_of c)\<^sup>*"
  shows "height_of c root \<le> height_of c i" "i = root \<or> height_of c root < height_of c i"
    "fmlookup (connected c) root \<noteq> None \<Longrightarrow> fmlookup (connected c) i \<noteq> None"
proof -
  from assms(2) have "height_of c root \<le> height_of c i \<and> (i = root \<or> height_of c root < height_of c i) \<and>
    (fmlookup (connected c) root \<noteq> None \<longrightarrow> fmlookup (connected c) i \<noteq> None)"
  proof (induction rule: rtrancl_induct)
    case (step p i)
    with child_of_height [OF assms(1) step(2)] show ?case by auto
  qed simp
  then show "height_of c root \<le> height_of c i" "i = root \<or> height_of c root < height_of c i"
    "fmlookup (connected c) root \<noteq> None \<Longrightarrow> fmlookup (connected c) i \<noteq> None" by auto
qed

lemma set_children_of: "set (children_of c p) = {i. (p, i) \<in> child_of c}"
  by (force simp: children_of_def child_of_def)

lemma distinct_children_of: "distinct (children_of c p)"
  unfolding children_of_def by (rule distinct_map_filter) simp

section \<open>Collecting a subtree\<close>

definition collect_inv :: "share_chain \<Rightarrow> share_id \<Rightarrow> share_id list \<Rightarrow> nat \<Rightarrow> bool" where
  "collect_inv c root removed k \<longleftrightarrow>
    distinct removed \<and> root \<in> set removed \<and> set removed \<subseteq> descendants c root \<and> k \<le> length removed \<and>
    (\<forall>p\<in>set (take k removed). \<forall>i. (p, i) \<in> child_of c \<longrightarrow> i \<in> set removed) \<and>
    (\<forall>i\<in>set removed. i = root \<or> (\<exists>p\<in>set (take k removed). (p, i) \<in> child_of c))"

lemma child_of_unique: "(p, i) \<in> child_of c \<Longrightarrow> (q, i) \<in> child_of c \<Longrightarrow> p = q"
  by (auto simp: child_of_def)

lemma collect_inv_step:
  assumes "conn_inv c" "collect_inv c root removed k" "k < length removed"
  shows "collect_inv c root (removed @ children_of c (removed ! k)) (Suc k)"
proof -
  let ?x = "removed ! k"
  have inv: "distinct removed" "root \<in> set removed" "set removed \<subseteq> descendants c root"
    "\<And>p i. p \<in> set (take k removed) \<Longrightarrow> (p, i) \<in> child_of c \<Longrightarrow> i \<in> set removed"
    "\<And>i. i \<in> set removed \<Longrightarrow> i = root \<or> (\<exists>p\<in>set (take k removed). (p, i) \<in> child_of c)"
    using assms(2) by (auto simp: collect_inv_def)
  have x: "(root, ?x) \<in> (child_of c)\<^sup>*" using subsetD [OF inv(3) nth_mem [OF assms(3)]] by (simp add: descendants_def)
  have fresh: "?x \<notin> set (take k removed)"
    using inv(1) assms(3) by (metis id_take_nth_drop distinct_append disjoint_iff list.set_intros(1))
  have "i \<notin> set removed" if "(?x, i) \<in> child_of c" for i
  proof
    assume "i \<in> set removed"
    then consider "i = root" | p where "p \<in> set (take k removed)" "(p, i) \<in> child_of c" using inv(5) by blast
    then show False
    proof cases
      case 1
      with child_of_height(1) [OF assms(1) that] descendant_height(1) [OF assms(1) x] show False by simp
    next
      case 2
      with child_of_unique [OF that] fresh show False by auto
    qed
  qed
  then have d: "distinct (removed @ children_of c ?x)"
    using inv(1) by (auto simp: set_children_of distinct_children_of)
  have tk: "take (Suc k) (removed @ children_of c ?x) = take k removed @ [?x]"
    using assms(3) by (simp add: take_Suc_conv_app_nth)
  have "set (children_of c ?x) \<subseteq> descendants c root"
    using x by (auto simp: set_children_of descendants_def intro: rtrancl_into_rtrancl)
  with inv d assms(3) show ?thesis
    unfolding collect_inv_def tk by (auto simp: set_children_of)
qed

lemma collect_inv_done:
  assumes "collect_inv c root removed (length removed)"
  shows "set removed = descendants c root"
proof -
  have "i \<in> set removed" if "(root, i) \<in> (child_of c)\<^sup>*" for i
    using that
  proof (induction rule: rtrancl_induct)
    case base
    show ?case using assms by (simp add: collect_inv_def)
  next
    case (step p i)
    with assms show ?case by (auto simp: collect_inv_def)
  qed
  with assms show ?thesis by (auto simp: collect_inv_def descendants_def)
qed

lemma collect_subtree_total:
  assumes "conn_inv c" "fmlookup (connected c) root \<noteq> None" "collect_inv c root removed k"
  shows "\<exists>ids. collect_subtree c removed k = Some ids \<and> distinct ids \<and> set ids = descendants c root"
  using assms(3)
proof (induction "connected_size c - k" arbitrary: removed k rule: less_induct)
  case less
  have "set removed \<subseteq> fset (fmdom (connected c))"
    using less.prems descendant_height(3) [OF assms(1) _ assms(2)]
    by (auto simp: collect_inv_def descendants_def fmlookup_dom_iff)
  then have "card (set removed) \<le> connected_size c"
    unfolding connected_size_def fcard.rep_eq by (intro card_mono) auto
  then have len: "length removed \<le> connected_size c"
    using less.prems by (simp add: collect_inv_def distinct_card)
  show ?case
  proof (cases "k < length removed")
    case True
    then have "\<exists>ids. collect_subtree c (removed @ children_of c (removed ! k)) (Suc k) = Some ids \<and>
        distinct ids \<and> set ids = descendants c root"
      using len collect_inv_step [OF assms(1) less.prems] by (intro less.hyps) auto
    with True show ?thesis by (simp add: collect_subtree.simps [of c removed k])
  next
    case False
    with less.prems have "k = length removed" by (simp add: collect_inv_def)
    moreover have "collect_subtree c removed k = Some removed"
      using False by (subst collect_subtree.simps) simp
    moreover have "distinct removed" using less.prems by (simp add: collect_inv_def)
    ultimately show ?thesis using collect_inv_done less.prems by blast
  qed
qed

lemma collect_subtree_root:
  assumes "conn_inv c" "fmlookup (connected c) root \<noteq> None"
  obtains ids where "collect_subtree c [root] 0 = Some ids" "distinct ids" "set ids = descendants c root"
proof -
  have "collect_inv c root [root] 0" by (simp add: collect_inv_def descendants_def)
  from collect_subtree_total [OF assms this] that show thesis by blast
qed

section \<open>Pruning\<close>

lemma fmlookup_fold_fmdrop:
  "fmlookup (fold fmdrop ids m) i = (if i \<in> set ids then None else fmlookup m i)"
  by (induction ids arbitrary: m) auto

lemma kept_parent:
  assumes "fmlookup (connected c) i = Some cs" "parent_id (cs_share cs) \<noteq> 0" "i \<notin> descendants c root"
  shows "parent_id (cs_share cs) \<notin> descendants c root"
proof
  assume "parent_id (cs_share cs) \<in> descendants c root"
  moreover have "(parent_id (cs_share cs), i) \<in> child_of c" using assms by (simp add: child_of_def)
  ultimately show False using assms(3) by (auto simp: descendants_def intro: rtrancl_into_rtrancl)
qed

lemma pruned_inv:
  assumes "chain_inv full c" "connected d = fold fmdrop ids (connected c)" "set ids = descendants c root"
    "tip_selected (connected d) (best_tip_id d)" "orphans d = orphans c"
    "orphans_by_parent d = orphans_by_parent c" "difficulty_policy d = difficulty_policy c"
  shows "chain_inv full d"
proof -
  note inv = chain_invD [OF assms(1)]
  note cinv = conn_invD [OF inv(2)]
  have look: "fmlookup (connected d) i = (if i \<in> descendants c root then None else fmlookup (connected c) i)" for i
    by (simp add: assms(2,3) fmlookup_fold_fmdrop)
  have lnk: "linked (connected d) cs" if "fmlookup (connected d) i = Some cs" for i cs
  proof -
    from that have cs: "fmlookup (connected c) i = Some cs" "i \<notin> descendants c root"
      by (auto simp: look split: if_splits)
    have "linked (connected c) cs" using cinv(2) [OF cs(1)] by (simp add: share_ok_def)
    then show ?thesis using kept_parent [OF cs(1) _ cs(2)] by (auto simp: linked_def Let_def look)
  qed
  have ext: "extends (connected d) (connected c)" by (auto simp: extends_def look split: if_splits)
  have "share_ok d i cs" if i: "fmlookup (connected d) i = Some cs" for i cs
  proof -
    from i have cs: "fmlookup (connected c) i = Some cs" "i \<notin> descendants c root"
      by (auto simp: look split: if_splits)
    have "parent_id (cs_share cs) = 0 \<or> fmlookup (connected d) (parent_id (cs_share cs)) \<noteq> None"
      using lnk [OF i] by (auto simp: linked_def Let_def split: if_splits)
    then have "expected_difficulty_reject_reason c (cs_share cs) =
        expected_difficulty_reject_reason d (cs_share cs)"
      using assms(7) by (intro expected_difficulty_extends [OF lnk ext]) simp_all
    moreover have "parent_validated d (cs_share cs)"
      if "parent_id (cs_share cs) \<noteq> 0" "parent_validated c (cs_share cs)"
      using that kept_parent [OF cs(1) _ cs(2)] by (simp add: parent_validated_def look)
    moreover have "validated_ok c cs" using cinv(2) [OF cs(1)] by (simp add: share_ok_def)
    ultimately have "validated_ok d cs" using assms(7) unfolding validated_ok_def by auto
    with cinv(2) [OF cs(1)] lnk [OF i] structural_cong [OF assms(7)] show ?thesis
      by (simp add: share_ok_def)
  qed
  then have "conn_inv d" using cinv(1) assms(4,7) by (simp add: conn_inv_def policy_ok_def)
  moreover have "orphan_ok d i orph" if "fmlookup (orphans c) i = Some orph" for i orph
    using core_invD(3) [OF inv(1) that] structural_cong [OF assms(7)] assms(7)
    by (simp add: orphan_ok_def look)
  moreover have "waiting d i orph" if full "fmlookup (orphans c) i = Some orph" for i orph
    using inv(3) [OF that] by (simp add: waiting_def look assms(6))
  moreover have "index_sound d" using core_invD(2) [OF inv(1)] assms(5,6) by (simp add: index_sound_def)
  ultimately show ?thesis unfolding chain_inv_def core_inv_def assms(5) by blast
qed

lemma prune_result:
  assumes "chain_inv full c"
  obtains d ids where "prune_connected_subtree_ids c root = Some (d, Ok ids)" "chain_inv full d"
    "sorted ids" "distinct ids"
    "set ids = (if contains c root then descendants c root else {})"
    "\<And>i. fmlookup (connected d) i = (if i \<in> set ids then None else fmlookup (connected c) i)"
    "orphans d = orphans c" "orphans_by_parent d = orphans_by_parent c"
    "difficulty_policy d = difficulty_policy c" "parameter_id d = parameter_id c"
proof (cases "contains c root")
  case False
  with assms show thesis
    by (intro that [of c "[]"]) (simp_all add: prune_connected_subtree_ids_def)
next
  case True
  then have "fmlookup (connected c) root \<noteq> None" by (simp add: contains_def fmlookup_dom_iff)
  from collect_subtree_root [OF chain_invD(2) [OF assms] this] obtain ids where
    ids: "collect_subtree c [root] 0 = Some ids" "distinct ids" "set ids = descendants c root" .
  let ?m = "fold fmdrop ids (connected c)"
  have "keyed ?m"
    using conn_invD(4) [OF chain_invD(2) [OF assms]] by (simp add: keyed_def fmlookup_fold_fmdrop)
  from select_best_tip_ok [OF this] obtain best where
    best: "select_best_tip ?m = Ok best" "tip_selected ?m best" by blast
  let ?d = "c\<lparr>connected := ?m, best_tip_id := best\<rparr>"
  have "chain_inv full ?d" using best(2) by (intro pruned_inv [OF assms _ ids(3)]) simp_all
  moreover have "prune_connected_subtree_ids c root = Some (?d, Ok (sort ids))"
    using True ids(1) best(1) by (simp add: prune_connected_subtree_ids_def)
  ultimately show thesis
    using True ids(2,3) by (intro that [of ?d "sort ids"]) (simp_all add: fmlookup_fold_fmdrop)
qed

section \<open>Walking to the root\<close>

lemma walk_to_eq:
  assumes "conn_inv c" "fmlookup (connected c) t = Some cs"
  shows "walk_to c i (Some cs) = Some ((i, t) \<in> (child_of c)\<^sup>*)"
  using assms(2)
proof (induction "height_of c t" arbitrary: t cs rule: less_induct)
  case less
  have ok: "share_ok c t cs" using conn_invD(2) [OF assms(1) less.prems] .
  then have id: "cs_id cs = t" by (simp add: share_ok_def)
  let ?p = "parent_id (cs_share cs)"
  have up: "(i, t) \<in> (child_of c)\<^sup>* \<longleftrightarrow> i = t \<or> ?p \<noteq> 0 \<and> (i, ?p) \<in> (child_of c)\<^sup>*"
  proof
    assume "(i, t) \<in> (child_of c)\<^sup>*"
    then show "i = t \<or> ?p \<noteq> 0 \<and> (i, ?p) \<in> (child_of c)\<^sup>*"
      by (cases rule: rtrancl.cases) (use less.prems in \<open>auto simp: child_of_def\<close>)
  next
    assume "i = t \<or> ?p \<noteq> 0 \<and> (i, ?p) \<in> (child_of c)\<^sup>*"
    moreover have "(?p, t) \<in> child_of c" if "?p \<noteq> 0"
      using that less.prems by (simp add: child_of_def)
    ultimately show "(i, t) \<in> (child_of c)\<^sup>*" by (auto intro: rtrancl_into_rtrancl)
  qed
  show ?case
  proof (cases "i = t \<or> ?p = 0")
    case True
    then show ?thesis by (subst walk_to.simps) (auto simp: id up)
  next
    case False
    then obtain q where q: "fmlookup (connected c) ?p = Some q" using share_ok_parent [OF ok] by metis
    have "(?p, t) \<in> child_of c" using False less.prems by (simp add: child_of_def)
    from child_of_height(1) [OF assms(1) this] have "walk_to c i (Some q) = Some ((i, ?p) \<in> (child_of c)\<^sup>*)"
      by (intro less.hyps [OF _ q]) simp
    with False q show ?thesis by (subst walk_to.simps) (auto simp: id up find_def)
  qed
qed

lemma is_on_best_chain_eq:
  assumes "conn_inv c"
  shows "is_on_best_chain c i =
    Some (case best_tip_id c of None \<Rightarrow> False | Some t \<Rightarrow> (i, t) \<in> (child_of c)\<^sup>*)"
proof (cases "best_tip_id c")
  case None
  then show ?thesis by (simp add: is_on_best_chain_def best_tip_def walk_to.simps)
next
  case (Some t)
  with conn_invD(3) [OF assms] obtain cs where "fmlookup (connected c) t = Some cs"
    by (auto simp: tip_selected_def)
  with Some walk_to_eq [OF assms] show ?thesis
    by (simp add: is_on_best_chain_def best_tip_def find_def)
qed

section \<open>Work along the ancestry\<close>

definition ancestry :: "share_chain \<Rightarrow> share_id \<Rightarrow> share_id set" where
  "ancestry c i = {j. (j, i) \<in> (child_of c)\<^sup>*}"

definition difficulty_of :: "share_chain \<Rightarrow> share_id \<Rightarrow> nat" where
  "difficulty_of c i =
    (case fmlookup (connected c) i of None \<Rightarrow> 0 | Some cs \<Rightarrow> arr_val (share_difficulty (cs_share cs)))"

lemma ancestry_step:
  assumes "fmlookup (connected c) i = Some cs" "parent_id (cs_share cs) \<noteq> 0"
  shows "ancestry c i = insert i (ancestry c (parent_id (cs_share cs)))"
proof -
  let ?p = "parent_id (cs_share cs)"
  have e: "(?p, i) \<in> child_of c" using assms by (simp add: child_of_def)
  have "(j, i) \<in> (child_of c)\<^sup>* \<longleftrightarrow> j = i \<or> (j, ?p) \<in> (child_of c)\<^sup>*" for j
    using e child_of_unique [OF e] by (metis rtrancl.cases rtrancl.simps)
  then show ?thesis by (auto simp: ancestry_def)
qed

lemma ancestry_root:
  assumes "fmlookup (connected c) i = Some cs" "parent_id (cs_share cs) = 0"
  shows "ancestry c i = {i}"
proof -
  have "(j, i) \<in> (child_of c)\<^sup>* \<longleftrightarrow> j = i" for j
    using assms by (auto elim: rtranclE simp: child_of_def)
  then show ?thesis by (simp add: ancestry_def)
qed

lemma ancestry_work:
  assumes "conn_inv c" "fmlookup (connected c) i = Some cs"
  shows "finite (ancestry c i) \<and> arr_val (cumulative_work cs) = (\<Sum>j\<in>ancestry c i. difficulty_of c j)"
  using assms(2)
proof (induction "height_of c i" arbitrary: i cs rule: less_induct)
  case less
  let ?p = "parent_id (cs_share cs)"
  have ok: "share_ok c i cs" using conn_invD(2) [OF assms(1) less.prems] .
  show ?case
  proof (cases "?p = 0")
    case True
    with ok less.prems show ?thesis
      by (simp add: ancestry_root share_ok_def linked_def difficulty_of_def)
  next
    case False
    from share_ok_parent [OF ok False] obtain q where q: "fmlookup (connected c) ?p = Some q"
      "arr_val (cumulative_work cs) = arr_val (cumulative_work q) + arr_val (share_difficulty (cs_share cs))" .
    have e: "(?p, i) \<in> child_of c" using False less.prems by (simp add: child_of_def)
    have h: "height_of c ?p < height_of c i" using child_of_height(1) [OF assms(1) e] by simp
    have "i \<notin> ancestry c ?p" using descendant_height(1) [OF assms(1), of i ?p] h by (auto simp: ancestry_def)
    with less.hyps [OF h q(1)] q(2) less.prems False show ?thesis
      by (simp add: ancestry_step difficulty_of_def)
  qed
qed

section \<open>The recursion of promote\_children\<close>

definition continue_promotion ::
  "share_id list \<Rightarrow> share_chain \<times> (nat \<times> bool) result \<Rightarrow> share_chain \<times> (nat \<times> bool) result"
where
  "continue_promotion rest out =
    (case out of (c, Inl e) \<Rightarrow> (c, Throw e) | (c, Inr (n, b)) \<Rightarrow> promote_loop rest c n b)"

lemma promote_loop_append:
  "promote_loop (xs @ ys) c n b = continue_promotion ys (promote_loop xs c n b)"
proof (induction xs c n b rule: promote_loop.induct)
  case (1 c n b)
  then show ?case by (simp add: continue_promotion_def)
next
  case (2 child rest c n b)
  show ?case
  proof (cases "fmlookup (orphans c) child")
    case None
    with 2(1) show ?thesis by (simp add: promote_loop.simps)
  next
    case (Some orphan)
    obtain c1 r where cs: "connect_share c (os_share orphan) child (os_pow_validation orphan)
        (os_enforce_sidechain_difficulty orphan) b = (c1, r)" by fastforce
    show ?thesis
    proof (cases r)
      case (Inl e)
      with Some cs show ?thesis by (simp add: promote_loop.simps continue_promotion_def)
    next
      case (Inr x)
      obtain reason b' where x: "x = (reason, b')" by fastforce
      note IH = 2(2-4) [OF Some cs [symmetric] Inr x [symmetric] refl]
      show ?thesis
      proof (cases "reason = No_Reason")
        case True
        with Some cs Inr x IH(1,2) show ?thesis
          by (cases "fmlookup (orphans_by_parent (c1\<lparr>orphans := fmdrop child (orphans c1)\<rparr>)) child")
            (simp_all add: promote_loop.simps)
      next
        case False
        with Some cs Inr x IH(3) show ?thesis by (simp add: promote_loop.simps)
      qed
    qed
  qed
qed

text \<open>One round of the source's loop: connect, erase the orphan, recurse into \<open>promote_children\<close>
  for the child, then go on with the next identifier.\<close>

lemma promote_loop_Cons_promote:
  "promote_loop (child # rest) c n b =
    (case fmlookup (orphans c) child of
      None \<Rightarrow> promote_loop rest c n b
    | Some orphan \<Rightarrow>
        (case connect_share c (os_share orphan) child (os_pow_validation orphan)
                (os_enforce_sidechain_difficulty orphan) b of
          (c1, Inl e) \<Rightarrow> (c1, Throw e)
        | (c1, Inr (reason, b')) \<Rightarrow>
            let c2 = c1\<lparr>orphans := fmdrop child (orphans c1)\<rparr>
            in if reason = No_Reason then continue_promotion rest (promote_children c2 child (Suc n) b')
               else promote_loop rest c2 n b'))"
proof -
  have "(case fmlookup (orphans_by_parent c2) child of
      None \<Rightarrow> promote_loop rest c2 (Suc n) b'
    | Some ids \<Rightarrow> promote_loop (sort ids @ rest)
        (c2\<lparr>orphans_by_parent := fmdrop child (orphans_by_parent c2)\<rparr>) (Suc n) b') =
    continue_promotion rest (promote_children c2 child (Suc n) b')" for c2 b'
    by (simp add: promote_children_def promote_loop_append continue_promotion_def split: option.split)
  then show ?thesis by (simp only: promote_loop.simps Let_def)
qed

end
