(* ===== verification/Chain_Machine.thy ===== *)
theory Chain_Machine
  imports Chain_Prune Sidechain_Params
begin

text \<open>
  The share chain as a state machine: the states that any sequence of public operations reaches
  from a freshly constructed chain, and what holds in all of them. With \<open>full\<close> the sequence is one
  in which every call returns; without it calls may throw in between.
\<close>

section \<open>The machine\<close>

definition chain_start :: "share_chain \<Rightarrow> bool" where
  "chain_start c \<longleftrightarrow> c = empty_share_chain \<or> (\<exists>params. make_share_chain params = Ok c)"

definition returned :: "bool \<Rightarrow> 'a result \<Rightarrow> bool" where
  "returned full r \<longleftrightarrow> \<not> full \<or> (\<exists>x. r = Ok x)"

inductive chain_step :: "bool \<Rightarrow> progpow_backend option \<Rightarrow> share_chain \<Rightarrow> share_chain \<Rightarrow> bool"
  for full :: bool and backend :: "progpow_backend option"
where
  submit: "submit_share backend c s ctx now mode = (c', r) \<Longrightarrow> returned full r \<Longrightarrow>
    chain_step full backend c c'"
| replay: "add_share_unchecked c s = (c', r) \<Longrightarrow> returned full r \<Longrightarrow> chain_step full backend c c'"
| revalidate: "revalidate_connected_share backend c i ctx now mode = (c', rr) \<Longrightarrow> returned full rr \<Longrightarrow>
    chain_step full backend c c'"
| restore: "restore_replay_validation c records = (c', n) \<Longrightarrow> returned full n \<Longrightarrow>
    chain_step full backend c c'"
| prune: "prune_connected_subtree_ids c root = Some (c', ids) \<Longrightarrow> returned full ids \<Longrightarrow>
    chain_step full backend c c'"

inductive_cases chain_stepE: "chain_step full backend c c'"

abbreviation chain_reachable :: "bool \<Rightarrow> progpow_backend option \<Rightarrow> share_chain \<Rightarrow> bool" where
  "chain_reachable full backend \<equiv> reach chain_start (chain_step full backend)"

section \<open>Invariant\<close>

lemma make_share_chain_Ok:
  assumes "make_share_chain params = Ok c"
  shows "valid_parameters params"
    "c = empty_share_chain\<lparr>
        parameter_id := Some (cn_fast_hash (sidechain_parameter_bytes params)),
        difficulty_policy := Some
          \<lparr>policy_minimum_share_version = minimum_share_version params,
           policy_maximum_share_version = maximum_share_version params,
           policy_target_share_seconds = target_share_seconds params,
           policy_minimum_share_difficulty = minimum_share_difficulty params,
           policy_difficulty_window_shares = difficulty_window_shares params\<rparr>\<rparr>"
  using assms
  by (auto simp: make_share_chain_def sidechain_id_def bindE_eq_Ok serialize_sidechain_eq_Ok)

lemma chain_start_inv: "chain_start c \<Longrightarrow> chain_inv full c"
  unfolding chain_start_def
proof (elim disjE exE)
  assume "c = empty_share_chain"
  then show ?thesis
    by (intro chain_inv_empty) (simp_all add: empty_share_chain_def policy_ok_def)
next
  fix params assume "make_share_chain params = Ok c"
  note c = make_share_chain_Ok [OF this]
  have "policy_ok c"
    using valid_parametersD(4-6) [OF c(1)] by (simp add: c(2) policy_ok_def)
  then show ?thesis by (intro chain_inv_empty) (simp_all add: c(2) empty_share_chain_def)
qed

lemma kept_step: "kept full c Known (c', r) \<Longrightarrow> returned full r \<Longrightarrow> chain_inv full c'"
  by (auto simp: kept_def returned_def chain_inv_def split: sum.splits)

lemma chain_step_inv: "chain_inv full c \<Longrightarrow> chain_step full backend c c' \<Longrightarrow> chain_inv full c'"
proof (erule chain_stepE)
  assume inv: "chain_inv full c"
  show "chain_inv full c'" if "submit_share backend c s ctx now mode = (c', r)" "returned full r" for s ctx now mode r
    using submit_share_kept [OF inv, of s backend ctx mode now] that(2) unfolding that(1) by (rule kept_step)
  show "chain_inv full c'" if "add_share_unchecked c s = (c', r)" "returned full r" for s r
    using add_share_unchecked_kept [OF inv, of s] that(2) unfolding that(1) by (rule kept_step)
  show "chain_inv full c'" if "revalidate_connected_share backend c i ctx now mode = (c', rr)"
    "returned full rr" for i ctx now mode rr
    using revalidate_kept [OF inv, of i backend ctx mode now] that(2) unfolding that(1) by (rule kept_step)
  show "chain_inv full c'" if "restore_replay_validation c records = (c', n)" for records n
    using inv that by (cases rule: restore_cases) (auto simp: restored_def inv)
  show "chain_inv full c'" if "prune_connected_subtree_ids c root = Some (c', ids)" for root ids
    using that by (auto intro: prune_result [OF inv, of root])
qed

interpretation chain: machine_invariant chain_start "chain_step full backend" "chain_inv full"
  by unfold_locales (auto intro: chain_start_inv chain_step_inv)

lemma reachable_conn: "chain_reachable full backend c \<Longrightarrow> conn_inv c"
  using chain.reach_inv chain_invD(2) by blast

section \<open>A chain for the examples\<close>

text \<open>The canonical testnet chain and its first share, mined against the zero hash.\<close>

definition sample_share :: share where
  "sample_share =
    \<lparr>version = 2, parent_id = 0, share_height = 0, timestamp = 1000, zano_height = 3,
     mining_header_hash = 0, nonce = 42, share_difficulty = array_of_nat 100000000,
     network_difficulty = array_of_nat 200000000,
     miner_id = miner_id_from_payout kCanonicalOperatorFeePayout,
     payout = Some kCanonicalOperatorFeePayout\<rparr>"

definition sample_context :: share_work_context where
  "sample_context =
    \<lparr>ctx_zano_height = 3, ctx_mining_header_hash = 0, ctx_network_difficulty = array_of_nat 200000000\<rparr>"

definition sample_id :: share_id where
  "sample_id = projr (share_id sample_share)"

definition sample_connected :: connected_share where
  "sample_connected =
    \<lparr>cs_share = sample_share, cs_id = sample_id, cumulative_work = array_of_nat 100000000,
     pow_validation = Some zero_hash_validation, validated_ancestry = True\<rparr>"

definition sample_start :: share_chain where
  "sample_start = projr (make_share_chain (canonical_sidechain_parameters Testnet))"

definition sample_chain :: share_chain where
  "sample_chain =
    sample_start\<lparr>connected := fmupd sample_id sample_connected fmempty, best_tip_id := Some sample_id\<rparr>"

lemma canonical_valid: "valid_parameters (canonical_sidechain_parameters network)"
proof -
  have "spend_public_key kCanonicalOperatorFeePayout \<noteq> 0" "view_public_key kCanonicalOperatorFeePayout \<noteq> 0"
    by (auto simp: kCanonicalOperatorFeePayout_def byte_array_eq_iff dest: arg_cong [where f = hd])
  then show ?thesis
    by (simp add: valid_parameters_def serialize_sidechain_parameters_def canonical_sidechain_parameters_def
        kSidechainParameterVersion_def share_constants kCanonicalPplnsWindowShares_def
        kCanonicalOperatorFeeBasisPoints_def kOperatorFeeBasisPointDenominator_def)
qed

lemma sample_start_ok: "make_share_chain (canonical_sidechain_parameters Testnet) = Ok sample_start"
  using canonical_valid [of Testnet]
  by (simp add: sample_start_def make_share_chain_def sidechain_id_def valid_parameters_def)

lemma sample_id_ok: "share_id sample_share = Ok sample_id"
  by (simp add: sample_id_def share_id_def serialize_share_def sample_share_def share_constants Let_def)

lemma sample_start_fields:
  "connected sample_start = fmempty" "orphans sample_start = fmempty"
  "orphans_by_parent sample_start = fmempty" "best_tip_id sample_start = None"
  "difficulty_policy sample_start = Some
    \<lparr>policy_minimum_share_version = 2, policy_maximum_share_version = 2,
     policy_target_share_seconds = 10, policy_minimum_share_difficulty = 100000000,
     policy_difficulty_window_shares = 2160\<rparr>"
  by (simp_all add: make_share_chain_Ok(2) [OF sample_start_ok] empty_share_chain_def
      canonical_sidechain_parameters_def share_constants)

lemma sample_difficulties:
  "(array_of_nat 100000000 :: difficulty128) \<noteq> 0" "(array_of_nat 200000000 :: difficulty128) \<noteq> 0"
  "\<not> (array_of_nat 200000000 :: difficulty128) < array_of_nat 100000000"
  "arr_val (array_of_nat 100000000 :: difficulty128) = 100000000"
  "arr_val (array_of_nat 200000000 :: difficulty128) = 200000000"
  by (simp_all add: less_arr_val arr_val_array_of_nat)

lemma sample_expected:
  "expected_difficulty_reject_reason sample_start sample_share = Ok No_Reason"
  by (simp add: expected_difficulty_reject_reason_def expected_child_share_difficulty_def
      sample_start_fields sample_share_def calculate_next_sidechain_difficulty_def
      big_endian_to_int_be_val arr_val_def [symmetric] int_to_difficulty128_ok sample_difficulties Let_def
      del: bytes_of_array_of_nat)

lemma sample_structural: "structural_reject_reason sample_start sample_share = No_Reason"
  by (simp add: structural_reject_reason_def sample_start_fields sample_share_def sample_difficulties)

lemma sample_pow: "submit_pow (Some zero_hash_backend) sample_share sample_context Light = Ok zero_hash_validation"
  unfolding submit_pow_def sample_share_def sample_context_def
  by (simp add: validate_zero_hash kIntMax_def sample_difficulties)

lemma sample_work: "share_work (share_difficulty sample_share) = Ok (array_of_nat 100000000)"
proof -
  have "array_of (replicate 16 0 @ be_bytes 16 100000000) = (array_of_nat 100000000 :: chain_work)"
    by (simp add: arr_val_eq_iff [symmetric] arr_val_array_of_nat arr_val_def be_val_append be_val_be_bytes)
  then show ?thesis by (simp add: share_work_def sample_share_def sample_difficulties)
qed

lemma sample_connect:
  "connect_and_promote sample_start sample_share sample_id (Some zero_hash_validation) True =
    (sample_chain, Ok \<lparr>disposition = Connected, reject_reason = No_Reason, result_id = sample_id,
      promoted_orphans = 0, best_tip_changed = True\<rparr>)"
proof -
  have p: "parent_id sample_share = 0" by (simp add: sample_share_def)
  have chk: "connect_checks sample_start sample_share True = Ok (Inr (array_of_nat 100000000))"
    by (simp add: connect_checks_def sample_work connect_parent_reason_def p sample_expected)
  have anc: "connect_validated_ancestry sample_start sample_share (Some zero_hash_validation) True"
    by (simp add: connect_validated_ancestry_def p zero_hash_validation_def)
  have "connect_share sample_start sample_share sample_id (Some zero_hash_validation) True False =
      (sample_chain, Ok (No_Reason, True))"
    by (simp add: connect_share_def chk anc insert_connected_def sample_start_fields sample_chain_def
        sample_connected_def)
  moreover have "promote_children sample_chain sample_id 0 True = (sample_chain, Ok (0, True))"
    by (simp add: promote_children_def sample_chain_def sample_start_fields)
  ultimately show ?thesis
    by (simp add: connect_and_promote_def fresh_result_def sample_start_fields sample_chain_def)
qed

lemma submit_sample:
  "submit_share (Some zero_hash_backend) sample_start sample_share sample_context 1000 Light =
    (sample_chain, Ok \<lparr>disposition = Connected, reject_reason = No_Reason, result_id = sample_id,
      promoted_orphans = 0, best_tip_changed = True\<rparr>)"
proof -
  have "trusted_context_reject_reason sample_share sample_context = No_Reason"
    "absolute_timestamp_reject_reason sample_share 1000 = No_Reason"
    "submit_parent_reason sample_start sample_share = No_Reason" "parent_id sample_share = 0"
    by (simp_all add: trusted_context_reject_reason_def absolute_timestamp_reject_reason_def
        submit_parent_reason_def sample_share_def sample_context_def)
  moreover have "\<not> is_known sample_start sample_id" by (simp add: is_known_def sample_start_fields)
  moreover have "meets_share_difficulty zero_hash_validation" "classification zero_hash_validation \<noteq> Invalid"
    by (simp_all add: zero_hash_validation_def)
  moreover have "difficulty_policy sample_start \<noteq> None" by (simp add: sample_start_fields)
  ultimately show ?thesis
    by (simp add: submit_share_def sample_id_ok sample_structural sample_expected sample_pow sample_connect
        progpowz_available_def add_prevalidated_share_def)
qed

lemma sample_reachable: "chain_reachable True (Some zero_hash_backend) sample_chain"
proof (rule reach_step)
  show "chain_reachable True (Some zero_hash_backend) sample_start"
    using sample_start_ok by (intro reach_start) (auto simp: chain_start_def)
  show "chain_step True (Some zero_hash_backend) sample_start sample_chain"
    by (rule chain_step.submit [OF submit_sample]) (simp add: returned_def)
qed

lemma sample_matches:
  "matches_sidechain_parameters sample_start (canonical_sidechain_parameters Testnet) = Ok True"
  "matches_sidechain_parameters sample_chain (canonical_sidechain_parameters Testnet) = Ok True"
proof -
  have "serialize_sidechain_parameters (canonical_sidechain_parameters Testnet) =
      Ok (sidechain_parameter_bytes (canonical_sidechain_parameters Testnet))"
    by (simp add: serialize_sidechain_eq_Ok canonical_valid)
  then show "matches_sidechain_parameters sample_start (canonical_sidechain_parameters Testnet) = Ok True"
    "matches_sidechain_parameters sample_chain (canonical_sidechain_parameters Testnet) = Ok True"
    by (simp_all add: matches_sidechain_parameters_def make_share_chain_Ok(2) [OF sample_start_ok] sidechain_id_def
        sample_chain_def)
qed

section \<open>Admission\<close>

lemma connect_checks_work:
  assumes "conn_inv c" "connect_checks c s enforce = Ok (Inr w)"
  shows "arr_val w = (if parent_id s = 0 then 0
      else arr_val (cumulative_work (the (find c (parent_id s))))) + arr_val (share_difficulty s)"
proof -
  from assms(2) obtain own where own: "share_work (share_difficulty s) = Ok own"
    by (auto simp: connect_checks_def bindE_eq_Ok)
  then have d: "share_difficulty s \<noteq> 0" by (auto simp: share_work_def)
  obtain own' where "share_work (share_difficulty s) = Ok own'" "arr_val own' = arr_val (share_difficulty s)"
    using share_work_ok [OF d] .
  with own have v: "arr_val own = arr_val (share_difficulty s)" by simp
  show ?thesis
  proof (cases "parent_id s = 0")
    case True
    with assms(2) own v show ?thesis
      by (auto simp: connect_checks_def bindE_eq_Ok split: if_splits)
  next
    case False
    let ?p = "cumulative_work (the (fmlookup (connected c) (parent_id s)))"
    from False assms(2) own have "arr_val ?p + arr_val own < 2 ^ 256 \<and> w = array_of_nat (arr_val ?p + arr_val own)"
      by (auto simp: connect_checks_def bindE_eq_Ok add_chain_work_checked_alt split: if_splits)
    with False v show ?thesis by (simp add: arr_val_array_of_nat find_def)
  qed
qed

lemma submit_connected_facts:
  assumes "chain_reachable full backend c"
    and "submit_share backend c s ctx now mode = (c', Ok res)" "disposition res = Connected"
  shows "share_id s = Ok (result_id res) \<and> \<not> contains c (result_id res) \<and>
    structural_reject_reason c s = No_Reason \<and> trusted_context_reject_reason s ctx = No_Reason \<and>
    absolute_timestamp_reject_reason s now = No_Reason \<and> submit_parent_reason c s = No_Reason \<and>
    expected_difficulty_reject_reason c s = Ok No_Reason \<and>
    (\<exists>v cs. submit_pow backend s ctx mode = Ok v \<and> meets_share_difficulty v \<and>
      find c' (result_id res) = Some cs \<and> cs_share cs = s \<and> pow_validation cs = Some v \<and>
      arr_val (cumulative_work cs) =
        (if parent_id s = 0 then 0 else arr_val (cumulative_work (the (find c (parent_id s))))) +
        arr_val (share_difficulty s)) \<and>
    (\<forall>i cs. find c i = Some cs \<longrightarrow> find c' i = Some cs) \<and>
    connected_size c' = connected_size c + 1 + promoted_orphans res \<and>
    (best_tip_changed res \<longleftrightarrow> best_tip_id c \<noteq> best_tip_id c')"
proof -
  have inv: "chain_inv full c" using assms(1) by (rule chain.reach_inv)
  from assms(2) show ?thesis
  proof (cases rule: submit_share_cases)
    case (admits i v)
    note adm = admits(3) [unfolded admission_checks_def]
    have "pow_consistent (Some v)" "difficulty_policy c \<noteq> None \<longrightarrow> difficulty_policy c \<noteq> None"
      using admits(3) by (simp_all add: admission_checks_consistent)
    from inv this admits(4) show ?thesis
    proof (cases rule: add_prevalidated_share_cases)
      case (connects j cs d n)
      have new: "\<not> contains c j" "fmlookup (connected c) j = None"
        using connects(2) by (simp_all add: is_known_def contains_def fmlookup_dom_iff)
      have look: "find c' j = Some cs"
        using connects(8,13) by (simp add: grows_def find_def)
      have old: "find c' i = Some x" if "find c i = Some x" for i x
      proof -
        have "fmlookup (connected d) i = Some x" using that new(2) connects(8) by (auto simp: find_def)
        with connects(13) show ?thesis by (simp add: grows_def find_def)
      qed
      have res: "result_id res = j" "promoted_orphans res = n"
        "best_tip_changed res \<longleftrightarrow> best_tip_id c \<noteq> best_tip_id c'"
        using connects(16) by (simp_all add: fresh_result_def)
      show ?thesis
        using adm connects(1,3,5,15) new(1) look old res
          connect_checks_work [OF chain_invD(2) [OF inv] connects(6)] by auto
    qed (use assms(3) in \<open>auto simp: fresh_result_def\<close>)
  qed (use assms(3) in \<open>auto simp: fresh_result_def\<close>)
qed

text \<open>C3. A submitted share is connected only after every check of the protocol has passed:
  its identifier is new, structure, trusted work context, clock, parent link and prescribed
  difficulty are accepted, and the proof of work meets the share difficulty. It is then stored
  under its identifier with that proof of work and exactly the parent's cumulative work plus its
  own difficulty, every connected share is still there, and the counters of the result are exact.\<close>

theorem submit_share_connected:
  assumes "chain_reachable full backend c"
    and "submit_share backend c s ctx now mode = (c', Ok res)" "disposition res = Connected"
  shows "share_id s = Ok (result_id res) \<and> \<not> contains c (result_id res) \<and>
    structural_reject_reason c s = No_Reason \<and> trusted_context_reject_reason s ctx = No_Reason \<and>
    absolute_timestamp_reject_reason s now = No_Reason \<and> submit_parent_reason c s = No_Reason \<and>
    expected_difficulty_reject_reason c s = Ok No_Reason \<and>
    (\<exists>v cs. submit_pow backend s ctx mode = Ok v \<and> meets_share_difficulty v \<and>
      find c' (result_id res) = Some cs \<and> cs_share cs = s \<and> pow_validation cs = Some v \<and>
      arr_val (cumulative_work cs) =
        (if parent_id s = 0 then 0 else arr_val (cumulative_work (the (find c (parent_id s))))) +
        arr_val (share_difficulty s)) \<and>
    (\<forall>i cs. find c i = Some cs \<longrightarrow> find c' i = Some cs) \<and>
    connected_size c' = connected_size c + 1 + promoted_orphans res \<and>
    (best_tip_changed res \<longleftrightarrow> best_tip_id c \<noteq> best_tip_id c')"
  using submit_connected_facts [OF assms] .

theorem submit_share_connected_witness:
  "\<exists>cs. find sample_chain sample_id = Some cs \<and> cs_share cs = sample_share \<and>
    arr_val (cumulative_work cs) = 100000000 \<and>
    structural_reject_reason sample_start sample_share = No_Reason"
proof -
  have "chain_reachable True (Some zero_hash_backend) sample_start"
    using sample_start_ok by (intro reach_start) (auto simp: chain_start_def)
  from submit_share_connected [OF this submit_sample] show ?thesis
    by (auto simp: sample_share_def sample_difficulties)
qed

section \<open>Exceptions\<close>

lemma kept_throw: "kept full c Known (c', Throw e) \<Longrightarrow> Known e"
  by (simp add: kept_def)

text \<open>C39. The internal consistency errors of the share chain cannot happen. In every state that
  any sequence of calls reaches, even one with calls that threw, an exception of a submission, a
  replay or a revalidation is the timestamp range of the retarget, the failure to encode the share
  or an error of the proof-of-work backend; pruning always terminates and never throws.\<close>

theorem chain_exceptions:
  assumes "chain_reachable full backend c"
  shows "(submit_share backend c s ctx now mode = (c1, Throw e1) \<longrightarrow>
      e1 = range_error \<or> share_id s = Throw e1 \<or> submit_pow backend s ctx mode = Throw e1) \<and>
    (add_share_unchecked c s = (c2, Throw e2) \<longrightarrow> e2 = range_error \<or> share_id s = Throw e2) \<and>
    (revalidate_connected_share backend c i ctx now mode = (c3, Throw e3) \<longrightarrow>
      e3 = range_error \<or> (\<exists>cs. find c i = Some cs \<and> submit_pow backend (cs_share cs) ctx mode = Throw e3)) \<and>
    (\<exists>d ids. prune_connected_subtree_ids c root = Some (d, Ok ids))"
proof -
  have inv: "chain_inv full c" using assms(1) by (rule chain.reach_inv)
  have "e1 = range_error \<or> share_id s = Throw e1 \<or> submit_pow backend s ctx mode = Throw e1"
    if "submit_share backend c s ctx now mode = (c1, Throw e1)"
    using submit_share_kept [OF inv, of s backend ctx mode now] unfolding that by (rule kept_throw)
  moreover have "e2 = range_error \<or> share_id s = Throw e2" if "add_share_unchecked c s = (c2, Throw e2)"
    using add_share_unchecked_kept [OF inv, of s] unfolding that by (rule kept_throw)
  moreover have "e3 = range_error \<or> (\<exists>cs. fmlookup (connected c) i = Some cs \<and>
      submit_pow backend (cs_share cs) ctx mode = Throw e3)"
    if "revalidate_connected_share backend c i ctx now mode = (c3, Throw e3)"
    using revalidate_kept [OF inv, of i backend ctx mode now] unfolding that by (rule kept_throw)
  moreover have "\<exists>d ids. prune_connected_subtree_ids c root = Some (d, Ok ids)"
    by (rule prune_result [OF inv, of root]) auto
  ultimately show ?thesis unfolding find_def by blast
qed

theorem chain_exceptions_witness:
  "\<exists>d ids. prune_connected_subtree_ids sample_chain sample_id = Some (d, Ok ids)"
  using chain_exceptions [OF sample_reachable] by blast

end
