(* ===== verification/Chain_Spec.thy ===== *)
theory Chain_Spec
  imports Chain_Machine
begin

text \<open>
  What holds in every state the share chain reaches: the choice of the tip and its independence
  of the order of arrival, exact work, sound validation marks, orphans that wait, walks that end,
  exact pruning and the round trip of the replay-validation snapshot.
\<close>

section \<open>The best tip\<close>

text \<open>C2. The best tip is the best connected share: there is one as soon as a share is connected,
  and it beats every other connected share by work, then height, then the smaller identifier.\<close>

theorem best_tip_best:
  assumes "chain_reachable full backend c"
  shows "(best_tip_id c = None \<longleftrightarrow> connected_size c = 0) \<and>
    (\<forall>t. best_tip_id c = Some t \<longrightarrow>
      (\<exists>tip. best_tip c = Some tip \<and> cs_id tip = t \<and>
        (\<forall>i other. find c i = Some other \<and> i \<noteq> t \<longrightarrow>
          cumulative_work other < cumulative_work tip \<or>
          cumulative_work other = cumulative_work tip \<and>
            (share_height (cs_share other) < share_height (cs_share tip) \<or>
             share_height (cs_share other) = share_height (cs_share tip) \<and> cs_id tip < cs_id other))))"
proof -
  have inv: "conn_inv c" using assms by (rule reachable_conn)
  note sel = conn_invD(3) [OF inv]
  have "best_tip_id c = None \<longleftrightarrow> connected c = fmempty"
    using sel by (cases "best_tip_id c") (auto simp: tip_selected_def)
  moreover have "connected c = fmempty \<longleftrightarrow> connected_size c = 0"
    by (metis connected_size_def fcard_fempty fcard_0_eq fmdom_empty fmrestrict_fset_dom
        fmrestrict_fset_null)
  ultimately have empty: "best_tip_id c = None \<longleftrightarrow> connected_size c = 0" by simp
  have "\<exists>tip. best_tip c = Some tip \<and> cs_id tip = t \<and>
      (\<forall>i other. find c i = Some other \<and> i \<noteq> t \<longrightarrow> better_tip tip other)"
    if "best_tip_id c = Some t" for t
    using sel that conn_invD(4) [OF inv]
    by (auto simp: tip_selected_def best_tip_def find_def keyed_def)
  with empty show ?thesis unfolding better_tip_iff by metis
qed

theorem best_tip_best_witness:
  "best_tip_id sample_chain = Some sample_id \<and> (\<exists>tip. best_tip sample_chain = Some tip \<and> cs_id tip = sample_id)"
  using best_tip_best [OF sample_reachable] by (auto simp: sample_chain_def)

text \<open>The shares of a chain without work and marks.\<close>

definition shares_of :: "share_chain \<Rightarrow> share_id \<Rightarrow> share option" where
  "shares_of c i = map_option cs_share (find c i)"

lemma shares_of_child: "shares_of c = shares_of d \<Longrightarrow> child_of c = child_of d"
proof -
  assume eq: "shares_of c = shares_of d"
  have "child_of x = {(p, i). p \<noteq> 0 \<and> (\<exists>s. shares_of x i = Some s \<and> parent_id s = p)}" for x
    by (auto simp: child_of_def shares_of_def find_def)
  with eq show ?thesis by simp
qed

lemma shares_of_work:
  assumes "conn_inv c" "conn_inv d" "shares_of c = shares_of d"
    "fmlookup (connected c) i = Some a" "fmlookup (connected d) i = Some b"
  shows "cs_share a = cs_share b" "cumulative_work a = cumulative_work b" "cs_id a = cs_id b"
proof -
  show "cs_share a = cs_share b"
    using assms(3-5) by (metis find_def option.inject option.map(2) shares_of_def)
  have "difficulty_of x j = (case shares_of x j of None \<Rightarrow> 0 | Some s \<Rightarrow> arr_val (share_difficulty s))" for x j
    by (simp add: difficulty_of_def shares_of_def find_def split: option.split)
  moreover have "ancestry c i = ancestry d i" by (simp add: ancestry_def shares_of_child [OF assms(3)])
  ultimately show "cumulative_work a = cumulative_work b"
    using ancestry_work [OF assms(1,4)] ancestry_work [OF assms(2,5)] assms(3)
    by (simp add: arr_val_eq_iff [symmetric])
  show "cs_id a = cs_id b"
    using conn_invD(4) [OF assms(1)] conn_invD(4) [OF assms(2)] assms(4,5) by (simp add: keyed_def)
qed

lemma shares_of_tip:
  assumes ic: "conn_inv c" and id: "conn_inv d" and eq: "shares_of c = shares_of d"
  shows "best_tip_id c = best_tip_id d"
proof -
  have ex: "fmlookup (connected c) i = None \<longleftrightarrow> fmlookup (connected d) i = None" for i
    using fun_cong [OF eq, of i]
    by (cases "fmlookup (connected c) i"; cases "fmlookup (connected d) i")
      (simp_all add: shares_of_def find_def)
  have "tip_selected (connected d) (best_tip_id c)"
  proof (cases "best_tip_id c")
    case None
    then have "connected c = fmempty" using conn_invD(3) [OF ic] by (simp add: tip_selected_def)
    then have "connected d = fmempty" using ex by (intro fmap_ext) simp
    with None show ?thesis by (simp add: tip_selected_def)
  next
    case (Some t)
    then obtain a where a: "fmlookup (connected c) t = Some a"
      "\<And>i x. fmlookup (connected c) i = Some x \<Longrightarrow> i \<noteq> t \<Longrightarrow> better_tip a x"
      using conn_invD(3) [OF ic] by (auto simp: tip_selected_def)
    obtain b where b: "fmlookup (connected d) t = Some b"
      using a(1) ex [of t] by (cases "fmlookup (connected d) t") auto
    have "better_tip b y" if y: "fmlookup (connected d) i = Some y" "i \<noteq> t" for i y
    proof -
      obtain x where x: "fmlookup (connected c) i = Some x"
        using y(1) ex [of i] by (cases "fmlookup (connected c) i") auto
      have "better_tip a x" using a(2) x y(2) by blast
      then show ?thesis
        using shares_of_work [OF ic id eq a(1) b] shares_of_work [OF ic id eq x y(1)]
        by (simp add: better_tip_iff)
    qed
    with b Some show ?thesis by (auto simp: tip_selected_def)
  qed
  from tip_selected_unique [OF this conn_invD(3) [OF id]] show ?thesis .
qed

text \<open>C1. Consensus does not depend on the order of arrival: two nodes whose chains hold the
  same shares, however they got there, have the same cumulative work for each of them and the
  same best tip.\<close>

theorem best_tip_order_independent:
  assumes "chain_reachable f1 b1 c" "chain_reachable f2 b2 d" "shares_of c = shares_of d"
  shows "best_tip_id c = best_tip_id d \<and>
    (\<forall>i a b. find c i = Some a \<and> find d i = Some b \<longrightarrow> cumulative_work a = cumulative_work b)"
  using shares_of_tip shares_of_work(2) reachable_conn [OF assms(1)] reachable_conn [OF assms(2)] assms(3)
  unfolding find_def by blast

lemma reachable_replay:
  assumes "chain_reachable full backend c" "add_share_unchecked c s = (c', Ok res)"
  shows "chain_reachable full backend c'"
  by (rule reach_step [OF assms(1) chain_step.replay [OF assms(2)]]) (simp add: returned_def)

text \<open>The sample share replayed without proof of work instead of submitted with it.\<close>

lemma replay_sample:
  "\<exists>res. add_share_unchecked sample_start sample_share = (forget_validation sample_chain, Ok res)"
proof -
  have p: "parent_id sample_share = 0" by (simp add: sample_share_def)
  have chk: "connect_checks sample_start sample_share False = Ok (Inr (array_of_nat 100000000))"
    by (simp add: connect_checks_def sample_work connect_parent_reason_def p)
  have conn: "connect_share sample_start sample_share sample_id None False False =
      (forget_validation sample_chain, Ok (No_Reason, True))"
    by (simp add: connect_share_def chk connect_validated_ancestry_def insert_connected_def
        sample_start_fields sample_chain_def sample_connected_def forget_validation_def forget_share_def fmmap_fmupd)
  have "promote_children (forget_validation sample_chain) sample_id 0 True =
      (forget_validation sample_chain, Ok (0, True))"
    by (simp add: promote_children_def sample_chain_def sample_start_fields)
  then have "\<exists>res. connect_and_promote sample_start sample_share sample_id None False =
      (forget_validation sample_chain, Ok res)"
    by (simp add: connect_and_promote_def conn)
  moreover have "\<not> is_known sample_start sample_id" by (simp add: is_known_def sample_start_fields)
  ultimately show ?thesis
    by (simp add: add_share_unchecked_def add_prevalidated_share_def sample_id_ok sample_structural p Let_def)
qed

theorem best_tip_order_independent_witness:
  "best_tip_id (forget_validation sample_chain) = best_tip_id sample_chain \<and>
    find (forget_validation sample_chain) sample_id \<noteq> find sample_chain sample_id"
proof -
  have "chain_reachable True None sample_start"
    using sample_start_ok by (intro reach_start) (auto simp: chain_start_def)
  then have "chain_reachable True None (forget_validation sample_chain)"
    using replay_sample reachable_replay by blast
  moreover have "shares_of (forget_validation sample_chain) = shares_of sample_chain"
    by (auto simp: shares_of_def find_def option.map_comp comp_def)
  ultimately show ?thesis
    using best_tip_order_independent [OF _ sample_reachable]
    by (simp add: find_def sample_chain_def sample_connected_def forget_share_def)
qed

section \<open>Work and validation marks\<close>

text \<open>C4. Cumulative work is exact: it is the sum of the share difficulties over the finite
  ancestry of a share, the share included, and the sum fits 256 bits.\<close>

theorem cumulative_work_sum:
  assumes "chain_reachable full backend c" "find c i = Some cs"
  shows "finite (ancestry c i) \<and>
    arr_val (cumulative_work cs) = (\<Sum>j\<in>ancestry c i. difficulty_of c j) \<and>
    (\<Sum>j\<in>ancestry c i. difficulty_of c j) < 2 ^ 256"
  using ancestry_work [OF reachable_conn [OF assms(1)], of i cs] assms(2)
    arr_val_less [of "cumulative_work cs"] by (simp add: find_def)

theorem cumulative_work_sum_witness:
  "arr_val (cumulative_work sample_connected) = (\<Sum>j\<in>ancestry sample_chain sample_id. difficulty_of sample_chain j)"
  using cumulative_work_sum [OF sample_reachable, of sample_id sample_connected]
  by (simp add: find_def sample_chain_def)



section \<open>Orphans\<close>

text \<open>No orphan is forgotten: when no call has thrown, every orphan is absent from the
  connected shares, waits for a parent that is not connected, and is named exactly once in the
  index entry of that parent, so the arrival of the parent finds it.\<close>

theorem orphans_wait:
  assumes "chain_reachable True backend c" "fmlookup (orphans c) i = Some orph"
  shows "\<not> contains c i \<and> \<not> contains c (parent_id (os_share orph)) \<and>
    share_id (os_share orph) = Ok i \<and>
    (\<exists>ids. fmlookup (orphans_by_parent c) (parent_id (os_share orph)) = Some ids \<and> distinct ids \<and> i \<in> set ids)"
proof -
  note inv = chain_invD [OF chain.reach_inv [OF assms(1)]]
  from inv(3) [OF _ assms(2)] core_invD(3) [OF inv(1) assms(2)] index_soundD(1) [OF core_invD(2) [OF inv(1)]]
  show ?thesis by (auto simp: waiting_def orphan_ok_def contains_def fmlookup_dom_iff)
qed

text \<open>A share whose parent the sample chain does not know.\<close>

definition sample_child :: share where
  "sample_child = sample_share\<lparr>parent_id := array_of_nat 1, share_height := 1\<rparr>"

lemma keep_sample_child:
  "\<exists>i. share_id sample_child = Ok i \<and>
    add_share_unchecked sample_start sample_child =
      (keep_orphan sample_start sample_child i None False,
       Ok ((fresh_result i)\<lparr>disposition := Orphan\<rparr>))"
proof -
  have id: "\<exists>i. share_id sample_child = Ok i"
    by (simp add: share_id_def serialize_share_def sample_child_def sample_share_def share_constants Let_def)
  have p: "parent_id sample_child \<noteq> 0"
    by (simp add: sample_child_def arr_val_eq_0 [symmetric] arr_val_array_of_nat del: arr_val_eq_0)
  then have "structural_reject_reason sample_start sample_child = No_Reason"
    by (simp add: structural_reject_reason_def sample_start_fields sample_difficulties)
      (simp add: sample_child_def sample_share_def sample_difficulties)
  with id p show ?thesis
    by (auto simp: add_share_unchecked_def add_prevalidated_share_def is_known_def sample_start_fields Let_def)
qed

theorem orphans_wait_witness:
  "\<exists>i ids. share_id sample_child = Ok i \<and>
    fmlookup (orphans_by_parent (keep_orphan sample_start sample_child i None False)) (array_of_nat 1) = Some ids \<and>
    i \<in> set ids"
proof -
  obtain i where i: "share_id sample_child = Ok i" "add_share_unchecked sample_start sample_child =
      (keep_orphan sample_start sample_child i None False, Ok ((fresh_result i)\<lparr>disposition := Orphan\<rparr>))"
    using keep_sample_child by blast
  have "chain_reachable True None sample_start"
    using sample_start_ok by (intro reach_start) (auto simp: chain_start_def)
  then have "chain_reachable True None (keep_orphan sample_start sample_child i None False)"
    using i(2) by (rule reachable_replay)
  from orphans_wait [OF this, of i] i(1) show ?thesis
    by (auto simp: keep_orphan_def) (simp add: sample_child_def)
qed

section \<open>Walks and pruning\<close>

text \<open>The walk of \<open>is_on_best_chain\<close> always ends, and it answers whether the share is an
  ancestor of the best tip or the tip itself.\<close>

theorem is_on_best_chain_ancestor:
  assumes "chain_reachable full backend c"
  shows "is_on_best_chain c i =
    Some (case best_tip_id c of None \<Rightarrow> False | Some t \<Rightarrow> i \<in> ancestry c t)"
  using is_on_best_chain_eq [OF reachable_conn [OF assms], of i]
  by (simp add: ancestry_def split: option.split)

theorem is_on_best_chain_ancestor_witness: "is_on_best_chain sample_chain sample_id = Some True"
  using is_on_best_chain_ancestor [OF sample_reachable, of sample_id]
  by (simp add: sample_chain_def ancestry_def)

text \<open>C20. Pruning is exact: from a reachable chain it ends, removes the named share with all its
  descendants and nothing else, returns their identifiers in increasing order, leaves the orphans
  alone, and elects a tip that beats every remaining share.\<close>

theorem prune_exact:
  assumes "chain_reachable full backend c" "contains c root"
  shows "\<exists>d ids. prune_connected_subtree_ids c root = Some (d, Ok ids) \<and>
    sorted ids \<and> distinct ids \<and> set ids = descendants c root \<and>
    (\<forall>i. find d i = (if i \<in> descendants c root then None else find c i)) \<and>
    orphans d = orphans c \<and>
    (case best_tip d of
      None \<Rightarrow> connected d = fmempty
    | Some tip \<Rightarrow> \<forall>i other. find d i = Some other \<and> i \<noteq> cs_id tip \<longrightarrow> better_tip tip other)"
proof -
  have inv: "chain_inv full c" using assms(1) by (rule chain.reach_inv)
  obtain d ids where d: "prune_connected_subtree_ids c root = Some (d, Ok ids)" "chain_inv full d"
    "sorted ids" "distinct ids" "set ids = (if contains c root then descendants c root else {})"
    "\<forall>i. fmlookup (connected d) i = (if i \<in> set ids then None else fmlookup (connected c) i)"
    "orphans d = orphans c"
    by (rule prune_result [OF inv, of root]) blast
  have tip: "case best_tip d of None \<Rightarrow> connected d = fmempty
    | Some tip \<Rightarrow> \<forall>i other. find d i = Some other \<and> i \<noteq> cs_id tip \<longrightarrow> better_tip tip other"
    using conn_invD(3,4) [OF chain_invD(2) [OF d(2)]]
    by (auto simp: tip_selected_def best_tip_def find_def keyed_def split: option.splits)
  show ?thesis using d tip assms(2) by (intro exI [of _ d] exI [of _ ids]) (simp add: find_def)
qed

theorem prune_exact_witness:
  "\<exists>d ids. prune_connected_subtree_ids sample_chain sample_id = Some (d, Ok ids) \<and>
    set ids = descendants sample_chain sample_id \<and> find d sample_id = None"
proof -
  have "contains sample_chain sample_id" by (simp add: contains_def sample_chain_def)
  from prune_exact [OF sample_reachable this] show ?thesis by (auto simp: descendants_def)
qed

lemma reachable_loose: "chain_reachable True backend c \<Longrightarrow> chain_reachable False backend c"
proof (induction rule: reach.induct)
  case (reach_step c d)
  from reach_step.hyps(2) have "chain_step False backend c d"
    by (cases rule: chain_stepE) (auto simp: returned_def intro: chain_step.intros)
  with reach_step.IH show ?case by (rule reach.reach_step)
qed (rule reach.reach_start)

section \<open>Replay-validation snapshots\<close>

text \<open>A snapshot restores what it recorded: the replay-validation snapshot of a reachable
  chain with a policy succeeds, and restoring it into the same chain replayed without proof of
  work gives back the chain exactly, counting every record. The only shares a restore refuses
  by value are ones whose identifier is the zero hash.\<close>

theorem replay_snapshot_roundtrip:
  assumes "chain_reachable full backend c" "difficulty_policy c \<noteq> None" "\<not> contains c 0"
  shows "\<exists>records. replay_validation_snapshot c = Ok records \<and>
    restore_replay_validation (forget_validation c) records = (c, Ok (length records))"
  using snapshot_restore [OF chain.reach_inv [OF assms(1)] assms(2)] assms(3)
  by (simp add: contains_def fmlookup_dom_iff)

theorem replay_snapshot_roundtrip_witness:
  "\<exists>records. replay_validation_snapshot sample_start = Ok records \<and>
    restore_replay_validation (forget_validation sample_start) records = (sample_start, Ok (length records))"
proof -
  have "chain_reachable True None sample_start"
    using sample_start_ok by (intro reach_start) (auto simp: chain_start_def)
  moreover have "difficulty_policy sample_start \<noteq> None" "\<not> contains sample_start 0"
    by (simp_all add: sample_start_fields contains_def)
  ultimately show ?thesis by (rule replay_snapshot_roundtrip)
qed

text \<open>A restore is all or nothing and only adds marks: if it throws, the chain is unchanged;
  if it returns, every recorded share is validated with the recorded proof of work, no other
  share changes, the count is the number of newly validated shares, and the invariant holds.\<close>

theorem restore_replay_validation_spec:
  assumes "chain_reachable full backend c" "restore_replay_validation c records = (c', r)"
  shows "case r of
      Inl e \<Rightarrow> c' = c
    | Inr n \<Rightarrow>
        n = length (filter (\<lambda>r. replay_share_id r \<notin> validated_ids c) records) \<and>
        (\<forall>r\<in>set records. \<exists>cs. find c' (replay_share_id r) = Some cs \<and> validated_ancestry cs \<and>
          pow_validation cs = Some (replay_validation r) \<and>
          map_option cs_share (find c (replay_share_id r)) = Some (cs_share cs)) \<and>
        (\<forall>i. i \<notin> replay_share_id ` set records \<longrightarrow> find c' i = find c i)"
  using chain.reach_inv [OF assms(1)] assms(2)
proof (cases rule: restore_cases)
  case (restores n)
  have ext: "extends (connected c) (connected c')" using restores(2) by (simp add: restored_def)
  have "map_option cs_share (find c i) = Some (cs_share cs)"
    if "fmlookup (connected c') i = Some cs" for i cs
  proof -
    have "\<forall>j. fmlookup (connected c') j = None \<longleftrightarrow> fmlookup (connected c) j = None"
      using restores(2) by (simp add: restored_def)
    with that have "fmlookup (connected c) i \<noteq> None" by (metis option.distinct(1))
    then obtain a where a: "fmlookup (connected c) i = Some a" by auto
    from ext a have "cs_share cs = cs_share a" using that by (auto elim!: extendsD)
    with a show ?thesis by (simp add: find_def)
  qed
  with restores show ?thesis by (fastforce simp: restored_def find_def)
qed simp

theorem restore_replay_validation_spec_witness:
  "case restore_replay_validation sample_chain
      [\<lparr>replay_share_id = sample_id, replay_validation = zero_hash_validation\<rparr>] of
     (c', Inl e) \<Rightarrow> c' = sample_chain
   | (c', Inr n) \<Rightarrow> n = 0 \<and> (\<exists>cs. find c' sample_id = Some cs \<and> validated_ancestry cs)"
proof -
  let ?rs = "[\<lparr>replay_share_id = sample_id, replay_validation = zero_hash_validation\<rparr>]"
  obtain c' r where eq: "restore_replay_validation sample_chain ?rs = (c', r)" by fastforce
  have "sample_id \<in> validated_ids sample_chain"
    by (simp add: validated_ids_def sample_chain_def sample_connected_def)
  with restore_replay_validation_spec [OF sample_reachable eq] eq show ?thesis
    by (auto split: sum.splits)
qed

end
