(* ===== verification/Pplns.thy ===== *)
theory Pplns
  imports Chain_Machine
begin

text \<open>
  \<open>src/src/pplns.cpp\<close>: the payout window over the ancestry of a share and the exact division of a
  reward among its miners. \<open>cpp_int\<close> values are natural numbers: the code never makes one negative.
  A \<open>std::map\<close> keyed by miner is a finite map traversed in key order.
\<close>

section \<open>Data\<close>

record pplns_miner_work =
  pm_miner_id :: miner_id
  pm_work :: chain_work
  pm_payout :: "payout_public_keys option"

record pplns_window =
  requested_work :: chain_work
  covered_work :: chain_work
  included_shares :: nat
  complete :: bool
  miners :: "pplns_miner_work list"

record pplns_payout =
  pp_miner_id :: miner_id
  pp_work :: chain_work
  amount :: u64
  pp_payout :: "payout_public_keys option"

record credited_work =
  cw_work :: nat
  cw_payout :: "payout_public_keys option"

type_synonym credited = "(miner_id, credited_work) fmap"

definition empty_window :: pplns_window where
  "empty_window = \<lparr>requested_work = 0, covered_work = 0, included_shares = 0, complete = False, miners = []\<rparr>"

section \<open>Helpers\<close>

definition work_to_int :: "chain_work \<Rightarrow> nat" where
  "work_to_int work = foldl (\<lambda>value byte. push_bit 8 value OR unat byte) 0 (bytes_of work)"

definition int_to_work :: "nat \<Rightarrow> chain_work result" where
  "int_to_work value =
    (case int_low_bytes 32 value of (bytes, rest) \<Rightarrow>
      if rest \<noteq> 0 then Throw (Overflow_error ''PPLNS work exceeds 256 bits'') else Ok (array_of bytes))"

definition require_validated_payout_ancestry :: "share_chain \<Rightarrow> connected_share \<Rightarrow> unit result" where
  "require_validated_payout_ancestry chain cs =
    (if enforces_sidechain_difficulty chain \<and> \<not> validated_ancestry cs
     then Throw (Logic_error ''PPLNS encountered connected share without validated ancestry'')
     else Ok ())"

definition merge_payout_identity :: "credited_work \<Rightarrow> share \<Rightarrow> credited_work result" where
  "merge_payout_identity row s =
    (case payout s of
      None \<Rightarrow> Ok row
    | Some p \<Rightarrow>
        if version s \<noteq> kShareVersion2 \<or> miner_id s \<noteq> miner_id_from_payout p
        then Throw (Logic_error ''PPLNS encountered invalid v2 payout binding'')
        else if cw_payout row \<noteq> None \<and> cw_payout row \<noteq> payout s
        then Throw (Logic_error ''PPLNS MinerId has conflicting payout identities'')
        else Ok (row\<lparr>cw_payout := payout s\<rparr>))"

definition credited_row :: "credited \<Rightarrow> miner_id \<Rightarrow> credited_work" where
  "credited_row credited miner =
    (case fmlookup credited miner of None \<Rightarrow> \<lparr>cw_work = 0, cw_payout = None\<rparr> | Some row \<Rightarrow> row)"

section \<open>The window at a parent\<close>

lemma bindE_cong [fundef_cong]:
  "m = m' \<Longrightarrow> (\<And>x. m' = Ok x \<Longrightarrow> f x = g x) \<Longrightarrow> bindE m f = bindE m' g"
  by (cases m') auto

text \<open>The loop of \<open>build_pplns_window_at_parent\<close>; the result is the remaining work, the number of
  included shares and the credited rows.\<close>

function pplns_walk ::
  "share_chain \<Rightarrow> connected_share \<Rightarrow> nat \<Rightarrow> nat \<Rightarrow> credited \<Rightarrow> (nat \<times> nat \<times> credited) result"
where
  "pplns_walk chain current remaining included_count credited =
    (if remaining = 0 then Ok (remaining, included_count, credited)
     else
       bindE (require_validated_payout_ancestry chain current) (\<lambda>_.
       bindE (share_work (share_difficulty (cs_share current))) (\<lambda>own.
         let current_work = work_to_int own in
         if current_work = 0 then Throw (Logic_error ''connected share has zero work'')
         else
           let included = min current_work remaining;
               miner = miner_id (cs_share current);
               row = credited_row credited miner
           in bindE (merge_payout_identity (row\<lparr>cw_work := cw_work row + included\<rparr>) (cs_share current))
             (\<lambda>merged.
               let credited' = fmupd miner merged credited;
                   remaining' = remaining - included;
                   parent = parent_id (cs_share current)
               in if remaining' = 0 \<or> is_zero_share_id parent
                  then Ok (remaining', Suc included_count, credited')
                  else (case find chain parent of
                    None \<Rightarrow> Throw (Logic_error
                      ''best-chain PPLNS traversal encountered a missing parent'')
                  | Some next_share \<Rightarrow>
                      pplns_walk chain next_share remaining' (Suc included_count) credited')))))"
  by pat_completeness auto
termination
  by (relation "measure (\<lambda>(chain, current, remaining, _). remaining)") auto

declare pplns_walk.simps [simp del]

definition window_row :: "miner_id \<times> credited_work \<Rightarrow> pplns_miner_work list \<Rightarrow> pplns_miner_work list result" where
  "window_row entry rows =
    (if cw_work (snd entry) = 0 then Ok rows
     else bindE (int_to_work (cw_work (snd entry))) (\<lambda>w.
       Ok (rows @ [\<lparr>pm_miner_id = fst entry, pm_work = w, pm_payout = cw_payout (snd entry)\<rparr>])))"

definition build_pplns_window_at_parent ::
  "share_chain \<Rightarrow> share_id \<Rightarrow> chain_work \<Rightarrow> pplns_window result"
where
  "build_pplns_window_at_parent chain parent requested_arr =
    (let requested = work_to_int requested_arr in
     if requested = 0 then Throw (Invalid_argument ''PPLNS requested work must be nonzero'')
     else
       bindE
         (if is_zero_share_id parent then Ok (requested, 0, fmempty)
          else case find chain parent of
            None \<Rightarrow> Throw (Invalid_argument ''PPLNS parent is not connected'')
          | Some current \<Rightarrow> pplns_walk chain current requested 0 fmempty)
         (\<lambda>(remaining, included_count, credited).
           bindE (int_to_work (requested - remaining)) (\<lambda>covered.
           bindE (forE window_row (sorted_list_of_fmap credited) []) (\<lambda>rows.
             Ok \<lparr>requested_work = requested_arr, covered_work = covered, included_shares = included_count,
                 complete = (remaining = 0), miners = rows\<rparr>))))"

section \<open>The sidechain window\<close>

function recent_work ::
  "share_chain \<Rightarrow> u64 \<Rightarrow> connected_share \<Rightarrow> nat \<Rightarrow> nat \<Rightarrow> nat result"
where
  "recent_work chain window current recent counted =
    (if counted < unat window then
       bindE (require_validated_payout_ancestry chain current) (\<lambda>_.
       bindE (share_work (share_difficulty (cs_share current))) (\<lambda>own.
         let current_work = work_to_int own in
         if current_work = 0 then Throw (Logic_error ''connected share has zero work'')
         else if is_zero_share_id (parent_id (cs_share current)) then Ok (recent + current_work)
         else (case find chain (parent_id (cs_share current)) of
           None \<Rightarrow> Throw (Logic_error ''best-chain PPLNS traversal encountered a missing parent'')
         | Some next_share \<Rightarrow> recent_work chain window next_share (recent + current_work) (Suc counted))))
     else Ok recent)"
  by pat_completeness auto
termination
  by (relation "measure (\<lambda>(chain, window, current, recent, counted). unat window - counted)") auto

declare recent_work.simps [simp del]

definition build_sidechain_pplns_window_at_parent ::
  "share_chain \<Rightarrow> share_id \<Rightarrow> sidechain_parameters \<Rightarrow> difficulty128 \<Rightarrow> pplns_window result"
where
  "build_sidechain_pplns_window_at_parent chain parent params network =
    (if pplns_window_shares params = 0 \<or> pplns_window_shares params > kCanonicalPplnsWindowShares
     then Throw (Invalid_argument ''sidechain PPLNS share window must be between 1 and 31'')
     else if pplns_max_network_difficulty_multiplier params = 0
     then Throw (Invalid_argument ''sidechain PPLNS network-difficulty multiplier must be nonzero'')
     else if difficulty128_is_zero network
     then Throw (Invalid_argument ''sidechain PPLNS network difficulty must be nonzero'')
     else if is_zero_share_id parent then Ok empty_window
     else case find chain parent of
       None \<Rightarrow> Throw (Invalid_argument ''PPLNS parent is not connected'')
     | Some current \<Rightarrow>
         bindE (recent_work chain (pplns_window_shares params) current 0 0) (\<lambda>recent.
         bindE (share_work network) (\<lambda>network_work.
           let work_cap = work_to_int network_work * unat (pplns_max_network_difficulty_multiplier params);
               requested = min recent work_cap
           in if requested = 0 then Throw (Logic_error ''sidechain PPLNS policy produced zero work'')
              else bindE (int_to_work requested) (\<lambda>requested_arr.
                bindE (build_pplns_window_at_parent chain parent requested_arr) (\<lambda>result.
                  if \<not> complete result \<or> included_shares result > unat (pplns_window_shares params)
                  then Throw (Logic_error ''sidechain PPLNS policy bound was violated'')
                  else Ok result)))))"

definition build_pplns_window :: "share_chain \<Rightarrow> chain_work \<Rightarrow> pplns_window result" where
  "build_pplns_window chain requested =
    build_pplns_window_at_parent chain (case best_tip chain of None \<Rightarrow> 0 | Some tip \<Rightarrow> cs_id tip) requested"

definition build_sidechain_pplns_window ::
  "share_chain \<Rightarrow> sidechain_parameters \<Rightarrow> difficulty128 \<Rightarrow> pplns_window result"
where
  "build_sidechain_pplns_window chain params network =
    build_sidechain_pplns_window_at_parent chain
      (case best_tip chain of None \<Rightarrow> 0 | Some tip \<Rightarrow> cs_id tip) params network"

section \<open>Dividing a reward\<close>

definition aggregate_row :: "pplns_miner_work \<Rightarrow> credited \<Rightarrow> credited result" where
  "aggregate_row row credited =
    (let work = work_to_int (pm_work row) in
     if work = 0 then Ok credited
     else
       let old = credited_row credited (pm_miner_id row);
           aggregate = old\<lparr>cw_work := cw_work old + work\<rparr>
       in case pm_payout row of
            None \<Rightarrow> Ok (fmupd (pm_miner_id row) aggregate credited)
          | Some p \<Rightarrow>
              if pm_miner_id row \<noteq> miner_id_from_payout p
              then Throw (Logic_error ''PPLNS row has invalid payout binding'')
              else if cw_payout aggregate \<noteq> None \<and> cw_payout aggregate \<noteq> pm_payout row
              then Throw (Logic_error ''PPLNS payout rows conflict for one MinerId'')
              else Ok (fmupd (pm_miner_id row) (aggregate\<lparr>cw_payout := pm_payout row\<rparr>) credited))"

record fractional_row =
  fr_miner_id :: miner_id
  fr_remainder :: nat
  payout_index :: nat

definition allocate_step ::
  "u64 \<Rightarrow> nat \<Rightarrow> miner_id \<times> credited_work \<Rightarrow> pplns_payout list \<times> fractional_row list \<times> u64 \<Rightarrow>
    (pplns_payout list \<times> fractional_row list \<times> u64) result"
where
  "allocate_step reward_atomic total_work entry st =
    (case st of (payouts, fractional, allocated) \<Rightarrow>
      let numerator = unat reward_atomic * cw_work (snd entry);
          quotient = numerator div total_work;
          rem_part = numerator mod total_work;
          amt = (word_of_nat quotient :: u64)
      in if amt > reward_atomic - allocated
         then Throw (Overflow_error ''PPLNS reward allocation overflow'')
         else bindE (int_to_work (cw_work (snd entry))) (\<lambda>w.
           Ok (payouts @ [\<lparr>pp_miner_id = fst entry, pp_work = w, amount = amt,
                            pp_payout = cw_payout (snd entry)\<rparr>],
               fractional @ [\<lparr>fr_miner_id = fst entry, fr_remainder = rem_part,
                               payout_index = length payouts\<rparr>],
               allocated + amt)))"

definition bump :: "fractional_row \<Rightarrow> pplns_payout list \<Rightarrow> pplns_payout list" where
  "bump row payouts =
    payouts[payout_index row := (payouts ! payout_index row)\<lparr>amount := amount (payouts ! payout_index row) + 1\<rparr>]"

definition allocate_pplns_reward :: "pplns_window \<Rightarrow> u64 \<Rightarrow> pplns_payout list result" where
  "allocate_pplns_reward window reward_atomic =
    bindE (forE aggregate_row (miners window) fmempty) (\<lambda>credited.
      if credited = fmempty then Ok []
      else
        let rows = sorted_list_of_fmap credited;
            total_work = fold (\<lambda>entry total. total + cw_work (snd entry)) rows 0
        in if total_work = 0 then Throw (Logic_error ''PPLNS payout has no credited work'')
           else bindE (forE (allocate_step reward_atomic total_work) rows ([], [], 0))
             (\<lambda>(payouts, fractional, allocated).
               let leftover = reward_atomic - allocated in
               if unat leftover > length fractional
               then Throw (Logic_error ''PPLNS largest-remainder invariant exceeded miner count'')
               else
                 let ordered = sort_key (\<lambda>f. (- int (fr_remainder f), fr_miner_id f)) fractional
                 in Ok (fold bump (take (unat leftover) ordered) payouts)))"

end
