(* ===== verification/Pplns_Alloc.thy ===== *)
theory Pplns_Alloc
  imports Pplns
begin

text \<open>
  The division of a reward by largest remainders. The guards against overflow and against too
  many leftover units never fire, the amounts sum exactly to the reward, every miner gets the
  floor of its proportional part or one unit more, and the extra units go to the largest
  remainders, ties to the smaller miner identifier.
\<close>

section \<open>Work as numbers\<close>

lemma push_bit_or_byte: "push_bit 8 v OR unat (b :: u8) = v * 256 + unat b"
proof -
  have "\<not> bit (push_bit 8 v) n \<or> \<not> bit (unat b) n" for n
  proof (cases "n < 8")
    case True
    then show ?thesis by (simp add: bit_push_bit_iff)
  next
    case False
    then have "\<not> bit b n" using bit_imp_le_length [of b n] by auto
    then show ?thesis by (simp add: bit_unsigned_iff)
  qed
  then have "push_bit 8 v + unat b = push_bit 8 v OR unat b" by (intro disjunctive_add) auto
  then show ?thesis by (simp add: push_bit_eq_mult)
qed

lemma work_to_int_arr_val: "work_to_int w = arr_val w"
  by (simp add: work_to_int_def arr_val_def be_val_def push_bit_or_byte)

lemma int_to_work_eq:
  "int_to_work v =
    (if v < 2 ^ 256 then Ok (array_of_nat v) else Throw (Overflow_error ''PPLNS work exceeds 256 bits''))"
  by (simp add: int_to_work_def int_low_bytes array_of_nat_def div_eq_0_iff)

lemma int_to_work_Ok: "int_to_work v = Ok w \<Longrightarrow> arr_val w = v"
  by (auto simp: int_to_work_eq arr_val_array_of_nat split: if_splits)

lemma unat_of_nat_u64: "n < 2 ^ 64 \<Longrightarrow> unat (word_of_nat n :: u64) = n"
  by (simp add: unat_of_nat)

section \<open>Largest remainders\<close>

lemma sum_list_div_mod:
  "sum_list (map f xs) = (\<Sum>x\<leftarrow>xs. f x div t) * t + (\<Sum>x\<leftarrow>xs. f x mod (t :: nat))"
  by (induction xs) (auto simp: algebra_simps)

lemma floor_shares_bound:
  fixes r :: nat
  assumes "t = sum_list ws" "0 < t"
  shows "(\<Sum>w\<leftarrow>ws. r * w div t) \<le> r" "r - (\<Sum>w\<leftarrow>ws. r * w div t) < length ws"
proof -
  let ?q = "\<Sum>w\<leftarrow>ws. r * w div t" and ?m = "\<Sum>w\<leftarrow>ws. r * w mod t"
  have eq: "r * t = ?q * t + ?m"
    using sum_list_div_mod [of "\<lambda>w. r * w" ws t] assms(1) by (simp add: sum_list_const_mult)
  then have "?q * t \<le> r * t" by simp
  then show le: "?q \<le> r" using assms(2) by simp
  have "ws \<noteq> []" using assms by auto
  have "?m < length ws * t"
  proof -
    have "?m \<le> (\<Sum>w\<leftarrow>ws. t - 1)" using assms(2) by (intro sum_list_mono) (simp add: Suc_leI less_Suc_eq_le [symmetric])
    also have "\<dots> = length ws * (t - 1)" by (simp add: sum_list_triv)
    also have "\<dots> < length ws * t" using assms(2) \<open>ws \<noteq> []\<close> by simp
    finally show ?thesis .
  qed
  moreover have "?m = (r - ?q) * t" using eq le by (simp add: diff_mult_distrib)
  ultimately show "r - ?q < length ws" by simp
qed

section \<open>The allocation loop\<close>

definition floor_payout :: "u64 \<Rightarrow> nat \<Rightarrow> miner_id \<times> credited_work \<Rightarrow> pplns_payout" where
  "floor_payout reward t entry =
    \<lparr>pp_miner_id = fst entry, pp_work = array_of_nat (cw_work (snd entry)),
     amount = word_of_nat (unat reward * cw_work (snd entry) div t), pp_payout = cw_payout (snd entry)\<rparr>"

definition remainder_row :: "u64 \<Rightarrow> nat \<Rightarrow> nat \<Rightarrow> miner_id \<times> credited_work \<Rightarrow> fractional_row" where
  "remainder_row reward t i entry =
    \<lparr>fr_miner_id = fst entry, fr_remainder = unat reward * cw_work (snd entry) mod t, payout_index = i\<rparr>"

lemma allocate_forE:
  assumes "\<forall>e\<in>set xs. cw_work (snd e) < 2 ^ 256"
    "unat al + (\<Sum>e\<leftarrow>xs. unat reward * cw_work (snd e) div t) \<le> unat (reward :: u64)"
  shows "forE (allocate_step reward t) xs (ps, fs, al) =
    Ok (ps @ map (floor_payout reward t) xs,
        fs @ map (\<lambda>(i, e). remainder_row reward t i e) (enumerate (length ps) xs),
        al + word_of_nat (\<Sum>e\<leftarrow>xs. unat reward * cw_work (snd e) div t))"
  using assms
proof (induction xs arbitrary: ps fs al)
  case (Cons e xs)
  let ?q = "unat reward * cw_work (snd e) div t"
  have r: "unat reward < 2 ^ 64" using unsigned_less [where w = reward and ?'a = nat] by simp
  have le: "unat al + ?q \<le> unat reward" using Cons.prems(2) by simp
  then have q: "unat (word_of_nat ?q :: u64) = ?q" using r by (simp add: unat_of_nat)
  have alr: "al \<le> reward" using le by (simp add: word_le_nat_alt)
  then have "unat (reward - al) = unat reward - unat al" by (simp add: unat_sub)
  then have ok: "\<not> word_of_nat ?q > reward - al" using q le by (simp add: word_less_nat_alt)
  have al': "unat (al + word_of_nat ?q) = unat al + ?q"
    using q le r by (subst unat_add_lem [THEN iffD1]) auto
  have "forE (allocate_step reward t) xs
      (ps @ [floor_payout reward t e], fs @ [remainder_row reward t (length ps) e], al + word_of_nat ?q) =
    Ok ((ps @ [floor_payout reward t e]) @ map (floor_payout reward t) xs,
        (fs @ [remainder_row reward t (length ps) e]) @
          map (\<lambda>(i, e). remainder_row reward t i e) (enumerate (length (ps @ [floor_payout reward t e])) xs),
        (al + word_of_nat ?q) + word_of_nat (\<Sum>e\<leftarrow>xs. unat reward * cw_work (snd e) div t))"
    using Cons.prems al' by (intro Cons.IH) auto
  moreover have "allocate_step reward t e (ps, fs, al) =
      Ok (ps @ [floor_payout reward t e], fs @ [remainder_row reward t (length ps) e], al + word_of_nat ?q)"
    using ok Cons.prems(1)
    by (simp add: allocate_step_def int_to_work_eq floor_payout_def remainder_row_def Let_def)
  ultimately show ?case by (simp add: add.assoc)
qed simp

section \<open>Handing out the leftover units\<close>

lemma fold_bump:
  assumes "distinct (map payout_index fs)" "\<forall>f\<in>set fs. payout_index f < length ps"
  shows "length (fold bump fs ps) = length ps"
    "i < length ps \<Longrightarrow> fold bump fs ps ! i =
      (if i \<in> payout_index ` set fs then (ps ! i)\<lparr>amount := amount (ps ! i) + 1\<rparr> else ps ! i)"
proof -
  from assms have "length (fold bump fs ps) = length ps \<and> (\<forall>i<length ps. fold bump fs ps ! i =
      (if i \<in> payout_index ` set fs then (ps ! i)\<lparr>amount := amount (ps ! i) + 1\<rparr> else ps ! i))"
  proof (induction fs arbitrary: ps)
    case (Cons f fs)
    have len: "length (bump f ps) = length ps" by (simp add: bump_def)
    from Cons.IH [of "bump f ps"] Cons.prems len have
      IH: "length (fold bump fs (bump f ps)) = length ps"
      "\<And>i. i < length ps \<Longrightarrow> fold bump fs (bump f ps) ! i =
        (if i \<in> payout_index ` set fs then (bump f ps ! i)\<lparr>amount := amount (bump f ps ! i) + 1\<rparr>
         else bump f ps ! i)"
      by auto
    have nth: "bump f ps ! i = (if i = payout_index f then (ps ! i)\<lparr>amount := amount (ps ! i) + 1\<rparr> else ps ! i)"
      if "i < length ps" for i
      using that by (auto simp: bump_def)
    show ?case
    proof (intro conjI allI impI)
      show "length (fold bump (f # fs) ps) = length ps" using IH(1) by simp
      fix i assume i: "i < length ps"
      show "fold bump (f # fs) ps ! i =
        (if i \<in> payout_index ` set (f # fs) then (ps ! i)\<lparr>amount := amount (ps ! i) + 1\<rparr> else ps ! i)"
        using IH(2) [OF i] nth [OF i] Cons.prems(1) by (cases "i = payout_index f") auto
    qed
  qed simp
  then show "length (fold bump fs ps) = length ps"
    "i < length ps \<Longrightarrow> fold bump fs ps ! i =
      (if i \<in> payout_index ` set fs then (ps ! i)\<lparr>amount := amount (ps ! i) + 1\<rparr> else ps ! i)"
    by auto
qed

lemma enumerate_rows:
  "map payout_index (map (\<lambda>(i, e). remainder_row reward t i e) (enumerate n xs)) = [n..<n + length xs]"
  by (simp add: comp_def case_prod_unfold remainder_row_def enumerate_eq_zip)

lemma ordered_index_mset:
  "mset (map payout_index (sort_key key (map (\<lambda>(i, e). remainder_row reward t i e) (enumerate 0 xs)))) =
    mset [0..<length xs]"
  unfolding mset_map mset_sort unfolding mset_map [symmetric] enumerate_rows [unfolded map_map]
  by (simp only: map_map enumerate_rows [unfolded map_map] add_0)

text \<open>Which rows get an extra unit: the first \<open>k\<close> in the order of the comparator.\<close>

definition extra_rows :: "u64 \<Rightarrow> nat \<Rightarrow> (miner_id \<times> credited_work) list \<Rightarrow> nat \<Rightarrow> nat set" where
  "extra_rows reward t xs k =
    payout_index ` set (take k (sort_key (\<lambda>f. (- int (fr_remainder f), fr_miner_id f))
      (map (\<lambda>(i, e). remainder_row reward t i e) (enumerate 0 xs))))"

lemma extra_rows_card:
  assumes "k \<le> length xs"
  shows "extra_rows reward t xs k \<subseteq> {..<length xs}" "card (extra_rows reward t xs k) = k"
    "finite (extra_rows reward t xs k)"
proof -
  let ?fs = "map (\<lambda>(i, e). remainder_row reward t i e) (enumerate 0 xs)"
  let ?s = "sort_key (\<lambda>f. (- int (fr_remainder f), fr_miner_id f)) ?fs"
  have ms: "mset (map payout_index ?s) = mset [0..<length xs]"
    by (rule ordered_index_mset)
  then have d: "distinct (map payout_index ?s)"
    using mset_eq_imp_distinct_iff [OF ms] by simp
  have "set (map payout_index ?s) = {..<length xs}"
    using mset_eq_setD [OF ms] by (simp add: atLeast0LessThan)
  then show "extra_rows reward t xs k \<subseteq> {..<length xs}"
    unfolding extra_rows_def using image_mono [OF set_take_subset [of k ?s], of payout_index] by simp
  have "card (extra_rows reward t xs k) = length (take k ?s)"
  proof -
    have "distinct (map payout_index (take k ?s))" using d by (simp flip: take_map)
    from distinct_card [OF this] show ?thesis by (simp add: extra_rows_def)
  qed
  then show "card (extra_rows reward t xs k) = k" using assms by simp
  show "finite (extra_rows reward t xs k)" by (simp add: extra_rows_def)
qed

lemma extra_rows_fair:
  assumes "i \<in> extra_rows reward t xs k" "j < length xs" "j \<notin> extra_rows reward t xs k"
  shows "let r = \<lambda>i. unat reward * cw_work (snd (xs ! i)) mod t in
    r j < r i \<or> r j = r i \<and> fst (xs ! i) \<le> fst (xs ! j)"
proof -
  let ?fs = "map (\<lambda>(i, e). remainder_row reward t i e) (enumerate 0 xs)"
  let ?key = "\<lambda>f. (- int (fr_remainder f), fr_miner_id f)"
  let ?s = "sort_key ?key ?fs"
  have row: "f = remainder_row reward t (payout_index f) (xs ! payout_index f)" if "f \<in> set ?s" for f
    using that by (auto simp: in_set_enumerate_eq remainder_row_def)
  from assms(1) obtain f where f: "f \<in> set (take k ?s)" "payout_index f = i"
    by (auto simp: extra_rows_def)
  have "remainder_row reward t j (xs ! j) \<in> set ?fs"
  proof -
    have "(j, xs ! j) \<in> set (enumerate 0 xs)" using assms(2) by (simp add: in_set_enumerate_eq)
    from imageI [OF this, of "\<lambda>(i, e). remainder_row reward t i e"] show ?thesis by simp
  qed
  then have "remainder_row reward t j (xs ! j) \<in> set (take k ?s) \<union> set (drop k ?s)"
    unfolding set_append [symmetric] append_take_drop_id set_sort .
  moreover have "remainder_row reward t j (xs ! j) \<notin> set (take k ?s)"
    using assms(3) by (force simp: extra_rows_def remainder_row_def)
  ultimately have g: "remainder_row reward t j (xs ! j) \<in> set (drop k ?s)" by blast
  have "sorted (map ?key (take k ?s @ drop k ?s))" by (simp del: map_append)
  then have "?key f \<le> ?key (remainder_row reward t j (xs ! j))"
    using f(1) g by (auto simp: sorted_append simp del: append_take_drop_id)
  moreover have "f = remainder_row reward t i (xs ! i)"
    using row [OF in_set_takeD [OF f(1)]] f(2) by simp
  ultimately show ?thesis by (auto simp: remainder_row_def Let_def)
qed

lemma sum_list_plus_indicator:
  fixes f :: "nat \<Rightarrow> nat"
  assumes "S \<subseteq> {..<n}"
  shows "(\<Sum>i\<leftarrow>[0..<n]. f i + (if i \<in> S then 1 else 0)) = (\<Sum>i\<leftarrow>[0..<n]. f i) + card S"
proof -
  have "(\<Sum>i\<leftarrow>[0..<n]. if i \<in> S then 1 else 0 :: nat) = (\<Sum>i\<in>{..<n}. if i \<in> S then 1 else 0)"
    by (simp add: sum_list_distinct_conv_sum_set atLeast0LessThan)
  also have "\<dots> = card S" using assms by (simp add: sum.If_cases Int_absorb1)
  finally show ?thesis by (simp add: sum_list_addf)
qed

lemma allocate_rows:
  fixes reward :: u64
  assumes "t = (\<Sum>e\<leftarrow>xs. cw_work (snd e))" "0 < t" "\<forall>e\<in>set xs. cw_work (snd e) < 2 ^ 256"
  defines "k \<equiv> unat reward - (\<Sum>e\<leftarrow>xs. unat reward * cw_work (snd e) div t)"
  obtains ps fs al where
    "forE (allocate_step reward t) xs ([], [], 0) = Ok (ps, fs, al)" "unat (reward - al) = k"
    "k \<le> length fs"
    "fold bump (take k (sort_key (\<lambda>f. (- int (fr_remainder f), fr_miner_id f)) fs)) ps =
      map (\<lambda>i. (floor_payout reward t (xs ! i))\<lparr>amount := word_of_nat
        (unat reward * cw_work (snd (xs ! i)) div t + (if i \<in> extra_rows reward t xs k then 1 else 0))\<rparr>)
        [0..<length xs]"
    "k \<le> length xs"
proof -
  let ?q = "\<Sum>e\<leftarrow>xs. unat reward * cw_work (snd e) div t"
  have b: "?q \<le> unat reward" "unat reward - ?q < length xs"
    using floor_shares_bound [of t "map (cw_work \<circ> snd) xs" "unat reward"] assms(1,2) by (simp_all add: comp_def)
  let ?ps = "map (floor_payout reward t) xs"
  let ?fs = "map (\<lambda>(i, e). remainder_row reward t i e) (enumerate 0 xs)"
  have run: "forE (allocate_step reward t) xs ([], [], 0) = Ok (?ps, ?fs, word_of_nat ?q)"
    using allocate_forE [OF assms(3), of 0 reward t "[]" "[]"] b by simp
  have "unat reward < 2 ^ 64" using unsigned_less [where w = reward and ?'a = nat] by simp
  then have "unat (word_of_nat ?q :: u64) = ?q" using b(1) by (simp add: unat_of_nat)
  then have left: "unat (reward - word_of_nat ?q) = k"
    using b(1) by (simp add: k_def unat_sub word_le_nat_alt)
  have k: "k \<le> length xs" using b(2) by (simp add: k_def)
  let ?s = "sort_key (\<lambda>f. (- int (fr_remainder f), fr_miner_id f)) ?fs"
  have ms: "mset (map payout_index ?s) = mset [0..<length xs]"
    by (rule ordered_index_mset)
  have d: "distinct (map payout_index (take k ?s))"
    using mset_eq_imp_distinct_iff [OF ms] by (simp flip: take_map)
  have lt: "\<forall>f\<in>set (take k ?s). payout_index f < length ?ps"
    using mset_eq_setD [OF ms] by (auto dest!: in_set_takeD)
  note fb = fold_bump [OF d lt]
  have "fold bump (take k ?s) ?ps =
      map (\<lambda>i. (floor_payout reward t (xs ! i))\<lparr>amount := word_of_nat
        (unat reward * cw_work (snd (xs ! i)) div t + (if i \<in> extra_rows reward t xs k then 1 else 0))\<rparr>)
        [0..<length xs]" (is "?l = ?r")
  proof (rule nth_equalityI)
    show "length ?l = length ?r" using fb(1) by simp
    fix i assume "i < length ?l"
    then have i: "i < length xs" using fb(1) by simp
    with fb(2) [of i] show "?l ! i = ?r ! i"
      by (auto simp: extra_rows_def floor_payout_def add.commute)
  qed
  with that run left k show thesis by simp
qed

section \<open>Aggregation by miner\<close>

definition miner_work :: "pplns_miner_work list \<Rightarrow> miner_id \<Rightarrow> nat" where
  "miner_work rows m = (\<Sum>r\<leftarrow>rows. if pm_miner_id r = m then arr_val (pm_work r) else 0)"

lemma aggregate_row_Ok:
  assumes "aggregate_row r cr = Ok cr'" "\<forall>m row. fmlookup cr m = Some row \<longrightarrow> 0 < cw_work row"
  shows "cw_work (credited_row cr' m) = cw_work (credited_row cr m) + miner_work [r] m"
    "\<forall>m row. fmlookup cr' m = Some row \<longrightarrow> 0 < cw_work row"
proof -
  let ?w = "arr_val (pm_work r)"
  consider "?w = 0" "cr' = cr" |
    p where "0 < ?w" "cr' = fmupd (pm_miner_id r)
      \<lparr>cw_work = cw_work (credited_row cr (pm_miner_id r)) + ?w, cw_payout = p\<rparr> cr"
    using assms(1)
    by (cases "credited_row cr (pm_miner_id r)")
      (auto simp: aggregate_row_def work_to_int_arr_val Let_def split: if_splits option.splits)
  then have "cw_work (credited_row cr' m) = cw_work (credited_row cr m) + miner_work [r] m \<and>
      (\<forall>m row. fmlookup cr' m = Some row \<longrightarrow> 0 < cw_work row)"
    using assms(2) by cases (auto simp: miner_work_def credited_row_def)
  then show "cw_work (credited_row cr' m) = cw_work (credited_row cr m) + miner_work [r] m"
    "\<forall>m row. fmlookup cr' m = Some row \<longrightarrow> 0 < cw_work row" by auto
qed

lemma aggregate_forE:
  assumes "forE aggregate_row rows cr = Ok cr'" "\<forall>m row. fmlookup cr m = Some row \<longrightarrow> 0 < cw_work row"
  shows "cw_work (credited_row cr' m) = cw_work (credited_row cr m) + miner_work rows m"
    "\<forall>m row. fmlookup cr' m = Some row \<longrightarrow> 0 < cw_work row"
proof -
  from assms have "cw_work (credited_row cr' m) = cw_work (credited_row cr m) + miner_work rows m \<and>
      (\<forall>m row. fmlookup cr' m = Some row \<longrightarrow> 0 < cw_work row)"
  proof (induction rows arbitrary: cr)
    case Nil
    then show ?case by (simp add: miner_work_def)
  next
    case (Cons r rows)
    from Cons.prems(1) obtain c1 where c1: "aggregate_row r cr = Ok c1" "forE aggregate_row rows c1 = Ok cr'"
      by (auto simp: bindE_eq_Ok)
    from Cons.IH [OF c1(2) aggregate_row_Ok(2) [OF c1(1) Cons.prems(2)]]
      aggregate_row_Ok(1) [OF c1(1) Cons.prems(2), of m]
    show ?case by (auto simp: miner_work_def)
  qed
  then show "cw_work (credited_row cr' m) = cw_work (credited_row cr m) + miner_work rows m"
    "\<forall>m row. fmlookup cr' m = Some row \<longrightarrow> 0 < cw_work row" by auto
qed

lemma aggregate_empty:
  assumes "forE aggregate_row rows fmempty = Ok cr"
  shows "fmlookup cr m = Some row \<Longrightarrow> cw_work row = miner_work rows m \<and> 0 < cw_work row"
    "cr = fmempty \<Longrightarrow> miner_work rows m = 0"
  using aggregate_forE [OF assms] by (auto simp: credited_row_def) (metis option.simps(5))

lemma fold_total: "fold (\<lambda>e s. s + cw_work (snd e)) xs n = n + (\<Sum>e\<leftarrow>xs. cw_work (snd e))"
  by (induction xs arbitrary: n) simp_all

lemma allocate_step_fits:
  assumes "forE (allocate_step reward t) xs st = Ok out"
  shows "\<forall>e\<in>set xs. cw_work (snd e) < 2 ^ 256"
  using assms
  by (induction xs arbitrary: st)
    (auto simp: bindE_eq_Ok allocate_step_def int_to_work_eq Let_def split: if_splits prod.splits)

lemma allocate_Ok:
  assumes "forE aggregate_row (miners window) fmempty = Ok cr" "cr \<noteq> fmempty"
    "allocate_pplns_reward window reward = Ok payouts \<or>
      (\<forall>e\<in>set (sorted_list_of_fmap cr). cw_work (snd e) < 2 ^ 256)"
  defines "xs \<equiv> sorted_list_of_fmap cr"
  defines "t \<equiv> \<Sum>e\<leftarrow>xs. cw_work (snd e)"
  defines "k \<equiv> unat reward - (\<Sum>e\<leftarrow>xs. unat reward * cw_work (snd e) div t)"
  shows "0 < t" "k \<le> length xs" "\<forall>e\<in>set xs. cw_work (snd e) < 2 ^ 256"
    "allocate_pplns_reward window reward = Ok
      (map (\<lambda>i. (floor_payout reward t (xs ! i))\<lparr>amount := word_of_nat
        (unat reward * cw_work (snd (xs ! i)) div t + (if i \<in> extra_rows reward t xs k then 1 else 0))\<rparr>)
        [0..<length xs])"
proof -
  obtain m row where mr: "fmlookup cr m = Some row"
    using assms(2) by (metis fmap_ext fmempty_lookup not_None_eq)
  then have "(m, row) \<in> set xs" "0 < cw_work row"
    using aggregate_empty(1) [OF assms(1) mr] by (simp_all add: xs_def)
  then have "cw_work row \<le> t" unfolding t_def by (intro member_le_sum_list) (auto intro: image_eqI [of _ _ "(m, row)"])
  with \<open>0 < cw_work row\<close> show t: "0 < t" by simp
  have eq: "allocate_pplns_reward window reward =
      bindE (forE (allocate_step reward t) xs ([], [], 0))
             (\<lambda>(payouts, fractional, allocated).
               let leftover = reward - allocated in
               if unat leftover > length fractional
               then Throw (Logic_error ''PPLNS largest-remainder invariant exceeded miner count'')
               else
                 let ordered = sort_key (\<lambda>f. (- int (fr_remainder f), fr_miner_id f)) fractional
                 in Ok (fold bump (take (unat leftover) ordered) payouts))"
  proof -
    have "fold (\<lambda>e s. s + cw_work (snd e)) xs 0 = t" by (simp add: fold_total t_def)
    with t show ?thesis
      by (simp add: allocate_pplns_reward_def assms(1,2) xs_def [symmetric] Let_def)
  qed
  show fits: "\<forall>e\<in>set xs. cw_work (snd e) < 2 ^ 256"
    using assms(3)
  proof
    assume "allocate_pplns_reward window reward = Ok payouts"
    then show ?thesis unfolding eq bindE_eq_Ok using allocate_step_fits by blast
  qed (simp add: xs_def)
  obtain ps fs al where run: "forE (allocate_step reward t) xs ([], [], 0) = Ok (ps, fs, al)"
    "unat (reward - al) = k" "k \<le> length fs"
    "fold bump (take k (sort_key (\<lambda>f. (- int (fr_remainder f), fr_miner_id f)) fs)) ps =
      map (\<lambda>i. (floor_payout reward t (xs ! i))\<lparr>amount := word_of_nat
        (unat reward * cw_work (snd (xs ! i)) div t + (if i \<in> extra_rows reward t xs k then 1 else 0))\<rparr>)
        [0..<length xs]" "k \<le> length xs"
    by (rule allocate_rows [OF meta_eq_to_obj_eq [OF t_def] t fits, where reward = reward, folded k_def])
  then show "k \<le> length xs" by simp
  show "allocate_pplns_reward window reward = Ok
      (map (\<lambda>i. (floor_payout reward t (xs ! i))\<lparr>amount := word_of_nat
        (unat reward * cw_work (snd (xs ! i)) div t + (if i \<in> extra_rows reward t xs k then 1 else 0))\<rparr>)
        [0..<length xs])"
    unfolding eq run(1) bindE_simps prod.case Let_def run(2) using run(3,4) by simp
qed

section \<open>Correctness\<close>

lemma miners_sorted: "sorted_wrt (<) (map fst (sorted_list_of_fmap cr))"
  by (simp add: sorted_list_of_fset_alt)

text \<open>The floor part and the remainder of a payout row.\<close>

definition quota :: "u64 \<Rightarrow> pplns_payout list \<Rightarrow> pplns_payout \<Rightarrow> nat" where
  "quota reward ps p = unat reward * arr_val (pp_work p) div (\<Sum>q\<leftarrow>ps. arr_val (pp_work q))"

definition quota_rest :: "u64 \<Rightarrow> pplns_payout list \<Rightarrow> pplns_payout \<Rightarrow> nat" where
  "quota_rest reward ps p = unat reward * arr_val (pp_work p) mod (\<Sum>q\<leftarrow>ps. arr_val (pp_work q))"

lemma allocate_exact:
  assumes "allocate_pplns_reward window reward = Ok payouts" "payouts \<noteq> []"
  shows "(\<Sum>p\<leftarrow>payouts. unat (amount p)) = unat reward"
    "sorted_wrt (<) (map pp_miner_id payouts)"
    "p \<in> set payouts \<Longrightarrow> arr_val (pp_work p) = miner_work (miners window) (pp_miner_id p)"
    "p \<in> set payouts \<Longrightarrow> unat (amount p) = quota reward payouts p \<or> unat (amount p) = quota reward payouts p + 1"
    "p \<in> set payouts \<Longrightarrow> q \<in> set payouts \<Longrightarrow>
      unat (amount p) = quota reward payouts p + 1 \<Longrightarrow> unat (amount q) = quota reward payouts q \<Longrightarrow>
      quota_rest reward payouts q < quota_rest reward payouts p \<or>
      quota_rest reward payouts q = quota_rest reward payouts p \<and> pp_miner_id p < pp_miner_id q"
proof -
  obtain cr where cr: "forE aggregate_row (miners window) fmempty = Ok cr" "cr \<noteq> fmempty"
    using assms by (auto simp: allocate_pplns_reward_def bindE_eq_Ok split: if_splits)
  define xs where "xs = sorted_list_of_fmap cr"
  define t where "t = (\<Sum>e\<leftarrow>xs. cw_work (snd e))"
  define k where "k = unat reward - (\<Sum>e\<leftarrow>xs. unat reward * cw_work (snd e) div t)"
  define S where "S = extra_rows reward t xs k"
  let ?q = "\<lambda>i. unat reward * cw_work (snd (xs ! i)) div t"
  define P where "P i = (floor_payout reward t (xs ! i))\<lparr>amount := word_of_nat (?q i + (if i \<in> S then 1 else 0))\<rparr>" for i
  note ok = allocate_Ok [OF cr disjI1 [OF assms(1)], folded xs_def, folded t_def, folded k_def, folded S_def]
  have pay: "payouts = map P [0..<length xs]" using ok(4) assms(1) by (simp add: P_def [abs_def])
  have S: "S \<subseteq> {..<length xs}" "card S = k" using extra_rows_card [OF ok(2)] by (simp_all add: S_def)
  have r: "unat reward < 2 ^ 64" using unsigned_less [where w = reward and ?'a = nat] by simp
  have idx: "(\<Sum>i\<leftarrow>[0..<length xs]. f (xs ! i)) = (\<Sum>e\<leftarrow>xs. f e)" for f :: "_ \<Rightarrow> nat"
  proof -
    have "map (\<lambda>i. f (xs ! i)) [0..<length xs] = map f xs" by (rule nth_equalityI) simp_all
    then show ?thesis by simp
  qed
  have le: "(\<Sum>e\<leftarrow>xs. unat reward * cw_work (snd e) div t) \<le> unat reward"
    using floor_shares_bound(1) [of t "map (cw_work \<circ> snd) xs" "unat reward"] ok(1)
    by (simp add: comp_def t_def)
  have total: "(\<Sum>i\<leftarrow>[0..<length xs]. ?q i + (if i \<in> S then 1 else 0)) = unat reward"
    using sum_list_plus_indicator [OF S(1), of ?q] le
    by (simp add: S(2) k_def idx [of "\<lambda>e. unat reward * cw_work (snd e) div t"])
  have amt: "unat (amount (P i)) = ?q i + (if i \<in> S then 1 else 0)" if "i < length xs" for i
  proof -
    have "?q i + (if i \<in> S then 1 else 0) \<le> (\<Sum>i\<leftarrow>[0..<length xs]. ?q i + (if i \<in> S then 1 else 0))"
      using that by (intro member_le_sum_list) auto
    then have small: "?q i + (if i \<in> S then 1 else 0) < 2 ^ 64" using r total by linarith
    have "amount (P i) = word_of_nat (?q i + (if i \<in> S then 1 else 0))" by (simp add: P_def)
    then show ?thesis using unat_of_nat_u64 [OF small] by presburger
  qed
  have work: "arr_val (pp_work (P i)) = cw_work (snd (xs ! i))" if "i < length xs" for i
    using that ok(3) by (simp add: P_def floor_payout_def arr_val_array_of_nat)
  have "map (\<lambda>q. arr_val (pp_work q)) payouts = map (\<lambda>i. cw_work (snd (xs ! i))) [0..<length xs]"
    unfolding pay map_map
  proof (rule map_cong [OF refl])
    fix i assume "i \<in> set [0..<length xs]"
    then have "i < length xs" by simp
    from work [OF this] show "((\<lambda>q. arr_val (pp_work q)) \<circ> P) i = cw_work (snd (xs ! i))"
      unfolding comp_def .
  qed
  then have tw: "(\<Sum>q\<leftarrow>payouts. arr_val (pp_work q)) = t"
    using idx [of "\<lambda>e. cw_work (snd e)"] by (simp add: t_def)
  have quot: "quota reward payouts (P i) = ?q i"
    "quota_rest reward payouts (P i) = unat reward * cw_work (snd (xs ! i)) mod t" if "i < length xs" for i
    using work [OF that] tw by (simp_all add: quota_def quota_rest_def)
  have mem: "\<exists>i<length xs. p = P i" if "p \<in> set payouts" for p
    using that by (auto simp: pay)
  have id: "pp_miner_id (P i) = fst (xs ! i)" for i by (simp add: P_def floor_payout_def)
  have "map (\<lambda>p. unat (amount p)) payouts = map (\<lambda>i. ?q i + (if i \<in> S then 1 else 0)) [0..<length xs]"
    unfolding pay map_map
  proof (rule map_cong [OF refl])
    fix i assume "i \<in> set [0..<length xs]"
    then have "i < length xs" by simp
    from amt [OF this] show "((\<lambda>p. unat (amount p)) \<circ> P) i = ?q i + (if i \<in> S then 1 else 0)"
      unfolding comp_def .
  qed
  then show "(\<Sum>p\<leftarrow>payouts. unat (amount p)) = unat reward" using total by simp
  have "map pp_miner_id payouts = map fst xs"
    unfolding pay by (rule nth_equalityI) (simp_all add: id)
  then show "sorted_wrt (<) (map pp_miner_id payouts)" using miners_sorted [of cr] by (simp add: xs_def)
  show "arr_val (pp_work p) = miner_work (miners window) (pp_miner_id p)" if p: "p \<in> set payouts"
  proof -
    from mem [OF p] obtain i where i: "i < length xs" "p = P i" by blast
    have "fmlookup cr (fst (xs ! i)) = Some (snd (xs ! i))"
      using nth_mem [OF i(1)] unfolding xs_def by (metis prod.collapse set_sorted_list_of_fmap)
    from aggregate_empty(1) [OF cr(1) this] work [OF i(1)] show ?thesis unfolding i(2) id by simp
  qed
  show "unat (amount p) = quota reward payouts p \<or> unat (amount p) = quota reward payouts p + 1"
    if p: "p \<in> set payouts"
  proof -
    from mem [OF p] obtain i where "i < length xs" "p = P i" by blast
    then show ?thesis using amt [of i] quot(1) [of i] by simp
  qed
  show "quota_rest reward payouts q < quota_rest reward payouts p \<or>
      quota_rest reward payouts q = quota_rest reward payouts p \<and> pp_miner_id p < pp_miner_id q"
    if p: "p \<in> set payouts" and q: "q \<in> set payouts" and "unat (amount p) = quota reward payouts p + 1"
      "unat (amount q) = quota reward payouts q"
  proof -
    from mem [OF p] obtain i where i: "i < length xs" "p = P i" by blast
    from mem [OF q] obtain j where j: "j < length xs" "q = P j" by blast
    have "i \<in> S" "j \<notin> S"
      using that(3,4) amt [OF i(1)] amt [OF j(1)] quot(1) [OF i(1)] quot(1) [OF j(1)] i(2) j(2)
      by (auto split: if_splits)
    then have f: "quota_rest reward payouts q < quota_rest reward payouts p \<or>
        quota_rest reward payouts q = quota_rest reward payouts p \<and> fst (xs ! i) \<le> fst (xs ! j)"
      using extra_rows_fair [of i reward t xs k j] j(1) quot(2) [OF i(1)] quot(2) [OF j(1)] i(2) j(2)
      by (simp add: S_def Let_def)
    have "distinct (map fst xs)" by (simp add: xs_def)
    moreover have "i \<noteq> j" using \<open>i \<in> S\<close> \<open>j \<notin> S\<close> by auto
    ultimately have "fst (xs ! i) \<noteq> fst (xs ! j)"
      using i(1) j(1) by (metis length_map nth_eq_iff_index_eq nth_map)
    with f show ?thesis unfolding i(2) j(2) id by auto
  qed
qed

text \<open>C15. The reward is divided exactly. When the division returns payouts, their amounts sum to
  the reward, the rows are strictly ordered by miner, each row carries exactly the work credited
  to its miner in the window, each amount is the floor of the proportional part or one unit more,
  and a unit more goes to the larger remainder, on a tie to the smaller miner identifier.\<close>

theorem allocate_pplns_reward_exact:
  assumes "allocate_pplns_reward window reward = Ok payouts" "payouts \<noteq> []"
  shows "(\<Sum>p\<leftarrow>payouts. unat (amount p)) = unat reward \<and>
    sorted_wrt (<) (map pp_miner_id payouts) \<and>
    (\<forall>p\<in>set payouts. arr_val (pp_work p) = miner_work (miners window) (pp_miner_id p)) \<and>
    (\<forall>p\<in>set payouts. unat (amount p) = quota reward payouts p \<or> unat (amount p) = quota reward payouts p + 1) \<and>
    (\<forall>p\<in>set payouts. \<forall>q\<in>set payouts.
      unat (amount p) = quota reward payouts p + 1 \<and> unat (amount q) = quota reward payouts q \<longrightarrow>
      quota_rest reward payouts q < quota_rest reward payouts p \<or>
      quota_rest reward payouts q = quota_rest reward payouts p \<and> pp_miner_id p < pp_miner_id q)"
  using allocate_exact [OF assms] by blast

section \<open>The division returns\<close>

lemma aggregate_total:
  assumes "distinct (map pm_miner_id rows)" "\<forall>r\<in>set rows. fmlookup cr (pm_miner_id r) = None"
    "\<forall>r\<in>set rows. \<forall>p. pm_payout r = Some p \<longrightarrow> pm_miner_id r = miner_id_from_payout p"
  shows "\<exists>cr'. forE aggregate_row rows cr = Ok cr'"
  using assms
proof (induction rows arbitrary: cr)
  case (Cons r rows)
  have "\<exists>c1. aggregate_row r cr = Ok c1 \<and> (\<forall>m. m \<noteq> pm_miner_id r \<longrightarrow> fmlookup c1 m = fmlookup cr m)"
    using Cons.prems(2,3)
    by (auto simp: aggregate_row_def credited_row_def Let_def split: option.split)
  then obtain c1 where c1: "aggregate_row r cr = Ok c1"
    "\<forall>m. m \<noteq> pm_miner_id r \<longrightarrow> fmlookup c1 m = fmlookup cr m" by blast
  have "\<exists>cr'. forE aggregate_row rows c1 = Ok cr'"
    using Cons.prems c1(2) by (intro Cons.IH) (auto simp: image_iff)
  with c1(1) show ?case by simp
qed simp

lemma sorted_list_of_fmap_not_Nil: "fmlookup m k = Some v \<Longrightarrow> sorted_list_of_fmap m \<noteq> []"
  by (metis empty_iff list.set(1) set_sorted_list_of_fmap)

lemma miner_work_distinct:
  assumes "distinct (map pm_miner_id rows)"
  shows "miner_work rows m < 2 ^ 256"
proof -
  have step: "miner_work (r # rows) m = (if pm_miner_id r = m then arr_val (pm_work r) else 0) + miner_work rows m"
    for r rows by (simp add: miner_work_def)
  have none: "miner_work rows m = 0" if "m \<notin> pm_miner_id ` set rows" for rows
    using that by (induction rows) (auto simp: step, simp add: miner_work_def)
  have "miner_work rows m = 0 \<or> (\<exists>r\<in>set rows. miner_work rows m = arr_val (pm_work r))"
    using assms
  proof (induction rows)
    case (Cons r rows)
    then show ?case using none [of rows] by (cases "pm_miner_id r = m") (auto simp: step)
  qed (simp add: miner_work_def)
  moreover have "arr_val (pm_work r) < 2 ^ 256" for r using arr_val_less [of "pm_work r"] by simp
  ultimately show ?thesis by auto
qed

lemma allocate_total:
  assumes "distinct (map pm_miner_id (miners window))"
    "\<forall>r\<in>set (miners window). \<forall>p. pm_payout r = Some p \<longrightarrow> pm_miner_id r = miner_id_from_payout p"
  shows "\<exists>payouts. allocate_pplns_reward window reward = Ok payouts \<and>
    (payouts = [] \<longleftrightarrow> (\<forall>m. miner_work (miners window) m = 0))"
proof -
  obtain cr where cr: "forE aggregate_row (miners window) fmempty = Ok cr"
    using aggregate_total [OF assms(1) _ assms(2), of fmempty] by auto
  show ?thesis
  proof (cases "cr = fmempty")
    case True
    with cr aggregate_empty(2) [OF cr] show ?thesis by (simp add: allocate_pplns_reward_def)
  next
    case False
    have fits: "\<forall>e\<in>set (sorted_list_of_fmap cr). cw_work (snd e) < 2 ^ 256"
      using aggregate_empty(1) [OF cr] miner_work_distinct [OF assms(1)] by auto
    obtain m row where mr: "fmlookup cr m = Some row"
      using False by (metis fmap_ext fmempty_lookup not_None_eq)
    then have "miner_work (miners window) m \<noteq> 0" using aggregate_empty(1) [OF cr mr] by auto
    moreover have "sorted_list_of_fmap cr \<noteq> []" using mr by (rule sorted_list_of_fmap_not_Nil)
    ultimately show ?thesis using allocate_Ok(4) [OF cr False disjI2 [OF fits], of reward] by auto
  qed
qed

text \<open>The division never fails on a window: if every miner has one row and every row's payout
  identity hashes to its miner, it returns payouts for every reward, and none only if the window
  credits no work at all.\<close>

theorem allocate_pplns_reward_total:
  assumes "distinct (map pm_miner_id (miners window))"
    "\<forall>r\<in>set (miners window). \<forall>p. pm_payout r = Some p \<longrightarrow> pm_miner_id r = miner_id_from_payout p"
  shows "\<exists>payouts. allocate_pplns_reward window reward = Ok payouts \<and>
    (payouts = [] \<longleftrightarrow> (\<forall>m. miner_work (miners window) m = 0))"
  using assms by (rule allocate_total)

text \<open>A window with two miners: ten units over works one and two.\<close>

definition sample_window :: pplns_window where
  "sample_window =
    \<lparr>requested_work = array_of_nat 3, covered_work = array_of_nat 3, included_shares = 2, complete = True,
     miners = [\<lparr>pm_miner_id = array_of_nat 7, pm_work = array_of_nat 1, pm_payout = None\<rparr>,
               \<lparr>pm_miner_id = array_of_nat 9, pm_work = array_of_nat 2, pm_payout = None\<rparr>]\<rparr>"

lemma sample_window_payout: "\<forall>r\<in>set (miners sample_window). pm_payout r = None"
  by (simp add: sample_window_def)

lemma sample_window_work: "miner_work (miners sample_window) (array_of_nat 7) = 1"
  "distinct (map pm_miner_id (miners sample_window))"
proof -
  have "(array_of_nat 9 :: miner_id) \<noteq> array_of_nat 7"
    unfolding arr_val_eq_iff [symmetric] arr_val_array_of_nat by simp
  then show "miner_work (miners sample_window) (array_of_nat 7) = 1"
    "distinct (map pm_miner_id (miners sample_window))"
    by (auto simp: miner_work_def sample_window_def arr_val_array_of_nat)
qed

theorem allocate_pplns_reward_total_witness:
  "\<exists>payouts. allocate_pplns_reward sample_window 10 = Ok payouts \<and> payouts \<noteq> []"
  using allocate_pplns_reward_total [OF sample_window_work(2), of 10] sample_window_work(1)
  by (auto simp: sample_window_def)

lemma sample_window_allocates: "\<exists>payouts. allocate_pplns_reward sample_window 10 = Ok payouts \<and> payouts \<noteq> []"
  using allocate_total [OF sample_window_work(2), of 10] sample_window_work(1) sample_window_payout by auto

theorem allocate_pplns_reward_exact_witness:
  "\<exists>payouts. allocate_pplns_reward sample_window 10 = Ok payouts \<and>
    (\<Sum>p\<leftarrow>payouts. unat (amount p)) = 10"
proof -
  obtain ps where ps: "allocate_pplns_reward sample_window 10 = Ok ps" "ps \<noteq> []"
    using sample_window_allocates by blast
  from allocate_pplns_reward_exact [OF this] ps(1) show ?thesis by simp
qed

end
