(* ===== verification/Pplns_Window.thy ===== *)
theory Pplns_Window
  imports Pplns_Alloc Chain_Spec
begin

text \<open>
  The payout window. Walking back from a connected share credits exactly the requested work or all
  the work there is, the share-count bound of the sidechain policy holds by construction, and the
  window can always be turned into payouts. The one failure that remains possible on a chain of
  validated shares is a miner identifier with two different payout identities, a hash collision.
\<close>

section \<open>Credited work\<close>

definition credited_total :: "credited \<Rightarrow> nat" where
  "credited_total cr = (\<Sum>m\<in>fmdom' cr. cw_work (credited_row cr m))"

lemma credited_total_fmempty [simp]: "credited_total fmempty = 0"
  by (simp add: credited_total_def)

lemma credited_total_fmupd:
  assumes "cw_work row = cw_work (credited_row cr m) + x"
  shows "credited_total (fmupd m row cr) = credited_total cr + x"
proof -
  let ?S = "fmdom' cr - {m}"
  have other: "cw_work (credited_row (fmupd m row cr) k) = cw_work (credited_row cr k)" if "k \<noteq> m" for k
    using that by (simp add: credited_row_def)
  have "credited_total (fmupd m row cr) = cw_work row + (\<Sum>k\<in>?S. cw_work (credited_row (fmupd m row cr) k))"
    unfolding credited_total_def
    by (simp add: fmdom'_fmupd sum.insert_remove finite_fmdom' credited_row_def)
  moreover have "(\<Sum>k\<in>?S. cw_work (credited_row (fmupd m row cr) k)) = (\<Sum>k\<in>?S. cw_work (credited_row cr k))"
    by (simp add: other)
  moreover have "(\<Sum>k\<in>?S. cw_work (credited_row cr k)) + cw_work (credited_row cr m) = credited_total cr"
  proof (cases "m \<in> fmdom' cr")
    case True
    then show ?thesis unfolding credited_total_def by (simp add: sum.remove [OF finite_fmdom' True])
  next
    case False
    then have "cw_work (credited_row cr m) = 0"
      by (simp add: credited_row_def fmdom'_notD)
    with False show ?thesis by (simp add: credited_total_def)
  qed
  ultimately show ?thesis using assms by simp
qed

lemma credited_total_list: "credited_total cr = (\<Sum>e\<leftarrow>sorted_list_of_fmap cr. cw_work (snd e))"
proof -
  have "(\<Sum>e\<leftarrow>sorted_list_of_fmap cr. cw_work (snd e)) =
      (\<Sum>k\<leftarrow>sorted_list_of_fset (fmdom cr). cw_work (the (fmlookup cr k)))"
    by (simp add: sorted_list_of_fmap_def comp_def)
  also have "\<dots> = (\<Sum>k\<in>fmdom' cr. cw_work (the (fmlookup cr k)))"
    by (simp add: sum_list_distinct_conv_sum_set fmdom'_alt_def)
  also have "\<dots> = credited_total cr"
    unfolding credited_total_def by (rule sum.cong) (auto simp: credited_row_def fmlookup_dom'_iff)
  finally show ?thesis by simp
qed

abbreviation conflict_error :: exn where
  "conflict_error \<equiv> Logic_error ''PPLNS MinerId has conflicting payout identities''"

text \<open>A row of a credited map keeps positive work and a payout identity that hashes to its miner.\<close>

definition rows_ok :: "credited \<Rightarrow> bool" where
  "rows_ok cr \<longleftrightarrow>
    (\<forall>m row. fmlookup cr m = Some row \<longrightarrow>
      0 < cw_work row \<and> (\<forall>p. cw_payout row = Some p \<longrightarrow> m = miner_id_from_payout p))"

lemma merge_cases:
  assumes "share_id s = Ok i"
  obtains "merge_payout_identity row s = Throw conflict_error" |
    p where "merge_payout_identity row s = Ok (row\<lparr>cw_payout := p\<rparr>)"
      "p = cw_payout row \<or> (\<exists>k. p = Some k \<and> miner_id s = miner_id_from_payout k)"
proof -
  from assms obtain bs where "serialize_share s = Ok bs" by (auto simp: share_id_def bindE_eq_Ok)
  then have "payout s = None \<or> (\<exists>k. payout s = Some k \<and> version s = kShareVersion2 \<and>
      miner_id s = miner_id_from_payout k)"
    by (auto simp: serialize_share_eq_Ok)
  then show thesis
  proof (elim disjE exE conjE)
    assume "payout s = None"
    then show thesis using that(2) [of "cw_payout row"] by (simp add: merge_payout_identity_def)
  next
    fix k assume "payout s = Some k" "version s = kShareVersion2" "miner_id s = miner_id_from_payout k"
    then show thesis using that(1) that(2) [of "Some k"]
      by (cases "cw_payout row \<noteq> None \<and> cw_payout row \<noteq> payout s")
        (auto simp: merge_payout_identity_def)
  qed
qed

lemma rows_ok_fmupd:
  assumes "rows_ok cr" "0 < x" "row = (credited_row cr m)\<lparr>cw_work := cw_work (credited_row cr m) + x\<rparr>"
    "p = cw_payout row \<or> (\<exists>k. p = Some k \<and> m = miner_id_from_payout k)"
  shows "rows_ok (fmupd m (row\<lparr>cw_payout := p\<rparr>) cr)"
  using assms by (auto simp: rows_ok_def credited_row_def split: option.splits)

section \<open>The walk\<close>

lemma share_work_connected:
  assumes "conn_inv c" "fmlookup (connected c) i = Some cs"
  obtains own where "share_work (share_difficulty (cs_share cs)) = Ok own"
    "work_to_int own = arr_val (share_difficulty (cs_share cs))" "share_difficulty (cs_share cs) \<noteq> 0"
proof -
  have nz: "share_difficulty (cs_share cs) \<noteq> 0"
    using conn_invD(2) [OF assms] structural_okD(1) by (auto simp: share_ok_def)
  from share_work_ok [OF nz] that nz show thesis by (auto simp: work_to_int_arr_val)
qed

text \<open>The state in which the walk may credit a share.\<close>

definition payable :: "share_chain \<Rightarrow> connected_share \<Rightarrow> bool" where
  "payable c cs \<longleftrightarrow> (difficulty_policy c \<noteq> None \<longrightarrow> validated_ancestry cs)"

lemma payable_require: "payable c cs \<Longrightarrow> require_validated_payout_ancestry c cs = Ok ()"
  by (auto simp: payable_def require_validated_payout_ancestry_def enforces_sidechain_difficulty_def)

lemma payable_parent:
  assumes "conn_inv c" "fmlookup (connected c) i = Some cs" "payable c cs" "parent_id (cs_share cs) \<noteq> 0"
  obtains p where "fmlookup (connected c) (parent_id (cs_share cs)) = Some p" "payable c p"
    "arr_val (cumulative_work cs) = arr_val (cumulative_work p) + arr_val (share_difficulty (cs_share cs))"
proof -
  have ok: "share_ok c i cs" using conn_invD(2) [OF assms(1,2)] .
  obtain p where p: "fmlookup (connected c) (parent_id (cs_share cs)) = Some p"
    "arr_val (cumulative_work cs) = arr_val (cumulative_work p) + arr_val (share_difficulty (cs_share cs))"
    using share_ok_parent [OF ok assms(4)] by metis
  moreover have "payable c p"
    using ok assms(3,4) p(1) by (auto simp: payable_def share_ok_def validated_ok_def parent_validated_def)
  ultimately show thesis using that by blast
qed

text \<open>What the walk may return: \<open>avail\<close> is the work of the ancestry.\<close>

definition walked :: "nat \<Rightarrow> nat \<Rightarrow> credited \<Rightarrow> (nat \<times> nat \<times> credited) result \<Rightarrow> bool" where
  "walked remaining avail cr out \<longleftrightarrow>
    out = Throw conflict_error \<or>
    (\<exists>n cr'. out = Ok (remaining - avail, n, cr') \<and> rows_ok cr' \<and>
      credited_total cr' = credited_total cr + min remaining avail)"

lemma walked_step:
  assumes "walked (remaining - min d remaining) avail cr' out" "credited_total cr' = credited_total cr + min d remaining"
  shows "walked remaining (avail + d) cr out"
proof -
  have "remaining - min d remaining - avail = remaining - (avail + d)"
    "min d remaining + min (remaining - min d remaining) avail = min remaining (avail + d)" by linarith+
  with assms show ?thesis unfolding walked_def by (metis add.assoc)
qed

lemma pplns_walk_walked:
  assumes "conn_inv c" "fmlookup (connected c) i = Some cs" "payable c cs" "rows_ok cr"
  shows "walked remaining (arr_val (cumulative_work cs)) cr (pplns_walk c cs remaining n cr)"
  using assms
proof (induction remaining arbitrary: i cs n cr rule: less_induct)
  case (less remaining)
  let ?s = "cs_share cs"
  let ?d = "arr_val (share_difficulty ?s)"
  let ?m = "miner_id ?s"
  let ?row = "(credited_row cr ?m)\<lparr>cw_work := cw_work (credited_row cr ?m) + min ?d remaining\<rparr>"
  have ok: "share_ok c i cs" using conn_invD(2) [OF less.prems(1,2)] .
  obtain own where own: "share_work (share_difficulty ?s) = Ok own" "work_to_int own = ?d"
    "share_difficulty ?s \<noteq> 0"
    using share_work_connected [OF less.prems(1,2)] .
  note req = payable_require [OF less.prems(3)]
  show ?case
  proof (cases "remaining = 0")
    case True
    with less.prems(4) show ?thesis by (subst pplns_walk.simps) (simp add: walked_def)
  next
    case rem: False
    have pos: "0 < min ?d remaining" using rem own(3) by simp
    have id: "share_id ?s = Ok i" using ok by (simp add: share_ok_def)
    have le: "?d \<le> arr_val (cumulative_work cs)"
      using ok by (auto simp: share_ok_def linked_def Let_def split: if_splits)
    show ?thesis
      using id
    proof (cases rule: merge_cases [where row = ?row])
      case conf: 1
      with rem req own show ?thesis
        by (subst pplns_walk.simps) (simp add: walked_def Let_def)
    next
      case (2 p)
      let ?cr = "fmupd ?m (?row\<lparr>cw_payout := p\<rparr>) cr"
      have rows: "rows_ok ?cr" using rows_ok_fmupd [OF less.prems(4) pos refl] 2(2) by simp
      have tot: "credited_total ?cr = credited_total cr + min ?d remaining"
        by (rule credited_total_fmupd) simp
      have unfold: "pplns_walk c cs remaining n cr =
          (if remaining - min ?d remaining = 0 \<or> parent_id ?s = 0
           then Ok (remaining - min ?d remaining, Suc n, ?cr)
           else (case find c (parent_id ?s) of
             None \<Rightarrow> Throw (Logic_error ''best-chain PPLNS traversal encountered a missing parent'')
           | Some next_share \<Rightarrow> pplns_walk c next_share (remaining - min ?d remaining) (Suc n) ?cr))"
        using rem req own 2(1) by (subst pplns_walk.simps) (simp add: Let_def)
      show ?thesis
      proof (cases "remaining - min ?d remaining = 0 \<or> parent_id ?s = 0")
        case True
        have "arr_val (cumulative_work cs) = ?d" if "parent_id ?s = 0"
          using ok that by (simp add: share_ok_def linked_def)
        with True le rows tot show ?thesis unfolding unfold by (auto simp: walked_def min_def)
      next
        case False
        obtain q where q: "fmlookup (connected c) (parent_id ?s) = Some q" "payable c q"
          "arr_val (cumulative_work cs) = arr_val (cumulative_work q) + ?d"
          using payable_parent [OF less.prems(1-3)] False by metis
        have "walked (remaining - min ?d remaining) (arr_val (cumulative_work q)) ?cr
            (pplns_walk c q (remaining - min ?d remaining) (Suc n) ?cr)"
          using pos by (intro less.IH [OF _ less.prems(1) q(1,2) rows]) auto
        from walked_step [OF this tot] show ?thesis
          using False q by (simp add: unfold find_def)
      qed
    qed
  qed
qed

section \<open>The share-count bound\<close>

lemma pplns_walk_count:
  assumes "conn_inv c" "fmlookup (connected c) i = Some cs" "payable c cs" "rows_ok cr"
    "recent_work c window cs acc counted = Ok total_work" "remaining \<le> total_work - acc" "counted \<le> unat window"
    "pplns_walk c cs remaining n cr = Ok (rest, n', cr')"
  shows "rest = 0 \<and> n' + counted \<le> n + unat window"
  using assms
proof (induction remaining arbitrary: i cs n cr acc counted rule: less_induct)
  case (less remaining)
  let ?s = "cs_share cs"
  let ?d = "arr_val (share_difficulty ?s)"
  let ?m = "miner_id ?s"
  let ?row = "(credited_row cr ?m)\<lparr>cw_work := cw_work (credited_row cr ?m) + min ?d remaining\<rparr>"
  obtain own where own: "share_work (share_difficulty ?s) = Ok own" "work_to_int own = ?d"
    "share_difficulty ?s \<noteq> 0"
    using share_work_connected [OF less.prems(1,2)] .
  note req = payable_require [OF less.prems(3)]
  show ?case
  proof (cases "remaining = 0")
    case True
    with less.prems(7,8) show ?thesis by (simp add: pplns_walk.simps)
  next
    case rem: False
    have cnt: "counted < unat window"
    proof (rule ccontr)
      assume "\<not> counted < unat window"
      with less.prems(5) have "total_work = acc" by (simp add: recent_work.simps)
      with less.prems(6) rem show False by simp
    qed
    have id: "share_id ?s = Ok i"
      using conn_invD(2) [OF less.prems(1,2)] by (simp add: share_ok_def)
    have rec: "recent_work c window cs acc counted =
        (if parent_id ?s = 0 then Ok (acc + ?d)
         else (case find c (parent_id ?s) of
           None \<Rightarrow> Throw (Logic_error ''best-chain PPLNS traversal encountered a missing parent'')
         | Some next_share \<Rightarrow> recent_work c window next_share (acc + ?d) (Suc counted)))"
      using cnt req own by (subst recent_work.simps) (simp add: Let_def split: option.split)
    from id show ?thesis
    proof (cases rule: merge_cases [where row = ?row])
      case 1
      with rem req own less.prems(8) show ?thesis
        by (subst (asm) pplns_walk.simps) (simp add: Let_def)
    next
      case (2 p)
      let ?cr = "fmupd ?m (?row\<lparr>cw_payout := p\<rparr>) cr"
      have rows: "rows_ok ?cr"
        using rows_ok_fmupd [OF less.prems(4), of "min ?d remaining" ?row ?m p] 2(2) rem own(3) by simp
      have walk: "pplns_walk c cs remaining n cr =
          (if remaining - min ?d remaining = 0 \<or> parent_id ?s = 0
           then Ok (remaining - min ?d remaining, Suc n, ?cr)
           else (case find c (parent_id ?s) of
             None \<Rightarrow> Throw (Logic_error ''best-chain PPLNS traversal encountered a missing parent'')
           | Some next_share \<Rightarrow> pplns_walk c next_share (remaining - min ?d remaining) (Suc n) ?cr))"
        using rem req own 2(1) by (subst pplns_walk.simps) (simp add: Let_def)
      show ?thesis
      proof (cases "remaining - min ?d remaining = 0 \<or> parent_id ?s = 0")
        case True
        have "remaining - min ?d remaining = 0"
        proof (cases "parent_id ?s = 0")
          case True
          with rec less.prems(5,6) show ?thesis by auto
        qed (use True in auto)
        with True walk less.prems(8) cnt show ?thesis by auto
      next
        case False
        obtain q where q: "fmlookup (connected c) (parent_id ?s) = Some q" "payable c q"
          using payable_parent [OF less.prems(1-3)] False by metis
        have "remaining - min ?d remaining < remaining" using rem own(3) by auto
        moreover have "recent_work c window q (acc + ?d) (Suc counted) = Ok total_work"
          using rec less.prems(5) False q(1) by (simp add: find_def)
        moreover have "remaining - min ?d remaining \<le> total_work - (acc + ?d)" using less.prems(6) False by linarith
        moreover have "pplns_walk c q (remaining - min ?d remaining) (Suc n) ?cr = Ok (rest, n', cr')"
          using walk less.prems(8) False q(1) by (simp add: find_def)
        ultimately have "rest = 0 \<and> n' + Suc counted \<le> Suc n + unat window"
          using less.IH [OF _ less.prems(1) q rows] cnt by (metis Suc_leI)
        then show ?thesis by simp
      qed
    qed
  qed
qed

lemma recent_work_total:
  assumes "conn_inv c" "fmlookup (connected c) i = Some cs" "payable c cs" "counted < unat window"
  shows "\<exists>w. recent_work c window cs acc counted = Ok w \<and> acc < w \<and>
    w \<le> acc + arr_val (cumulative_work cs)"
  using assms
proof (induction "unat window - counted" arbitrary: i cs acc counted rule: less_induct)
  case less
  let ?s = "cs_share cs"
  let ?d = "arr_val (share_difficulty ?s)"
  obtain own where own: "share_work (share_difficulty ?s) = Ok own" "work_to_int own = ?d"
    "share_difficulty ?s \<noteq> 0"
    using share_work_connected [OF less.prems(1,2)] .
  have ok: "share_ok c i cs" using conn_invD(2) [OF less.prems(1,2)] .
  have rec: "recent_work c window cs acc counted =
      (if parent_id ?s = 0 then Ok (acc + ?d)
       else (case find c (parent_id ?s) of
         None \<Rightarrow> Throw (Logic_error ''best-chain PPLNS traversal encountered a missing parent'')
       | Some next_share \<Rightarrow> recent_work c window next_share (acc + ?d) (Suc counted)))"
    using less.prems(4) payable_require [OF less.prems(3)] own
    by (subst recent_work.simps) (simp add: Let_def split: option.split)
  have pos: "0 < ?d" using own(3) by simp
  show ?case
  proof (cases "parent_id ?s = 0")
    case True
    then have "arr_val (cumulative_work cs) = ?d" using ok by (simp add: share_ok_def linked_def)
    with True rec pos show ?thesis by simp
  next
    case False
    obtain q where q: "fmlookup (connected c) (parent_id ?s) = Some q" "payable c q"
      "arr_val (cumulative_work cs) = arr_val (cumulative_work q) + ?d"
      using payable_parent [OF less.prems(1-3) False] by metis
    show ?thesis
    proof (cases "Suc counted < unat window")
      case True
      have "\<exists>w. recent_work c window q (acc + ?d) (Suc counted) = Ok w \<and> acc + ?d < w \<and>
          w \<le> acc + ?d + arr_val (cumulative_work q)"
        using less.prems(4) by (intro less.hyps [OF _ less.prems(1) q(1,2) True]) simp
      with False q rec pos show ?thesis by (auto simp: find_def)
    next
      case last: False
      have "recent_work c window q (acc + ?d) (Suc counted) = Ok (acc + ?d)"
        using last by (subst recent_work.simps) simp
      with False q rec pos show ?thesis by (auto simp: find_def)
    qed
  qed
qed

section \<open>Windows\<close>

lemma window_rows:
  assumes "\<forall>e\<in>set xs. 0 < cw_work (snd e) \<and> cw_work (snd e) < 2 ^ 256"
  shows "forE window_row xs rows = Ok (rows @ map (\<lambda>e. \<lparr>pm_miner_id = fst e,
    pm_work = array_of_nat (cw_work (snd e)), pm_payout = cw_payout (snd e)\<rparr>) xs)"
  using assms by (induction xs arbitrary: rows) (simp_all add: window_row_def int_to_work_eq)

definition window_ok :: "pplns_window \<Rightarrow> bool" where
  "window_ok w \<longleftrightarrow>
    sorted_wrt (<) (map pm_miner_id (miners w)) \<and>
    (\<Sum>r\<leftarrow>miners w. arr_val (pm_work r)) = arr_val (covered_work w) \<and>
    (\<forall>r\<in>set (miners w). pm_work r \<noteq> 0 \<and>
      (\<forall>p. pm_payout r = Some p \<longrightarrow> pm_miner_id r = miner_id_from_payout p))"

lemma window_of_walk:
  assumes "rows_ok cr" "credited_total cr = covered" "covered < 2 ^ 256"
  obtains rows where "forE window_row (sorted_list_of_fmap cr) [] = Ok rows"
    "sorted_wrt (<) (map pm_miner_id rows)" "(\<Sum>r\<leftarrow>rows. arr_val (pm_work r)) = covered"
    "\<forall>r\<in>set rows. pm_work r \<noteq> 0 \<and> (\<forall>p. pm_payout r = Some p \<longrightarrow> pm_miner_id r = miner_id_from_payout p)"
proof -
  let ?xs = "sorted_list_of_fmap cr"
  let ?f = "\<lambda>e. \<lparr>pm_miner_id = fst e, pm_work = array_of_nat (cw_work (snd e)), pm_payout = cw_payout (snd e)\<rparr>"
  have le: "cw_work (snd e) \<le> covered" if "e \<in> set ?xs" for e
    using that assms(2) unfolding credited_total_list by (auto intro!: member_le_sum_list)
  have fits: "\<forall>e\<in>set ?xs. 0 < cw_work (snd e) \<and> cw_work (snd e) < 2 ^ 256"
    using assms(1,3) le by (fastforce simp: rows_ok_def)
  have val: "arr_val (array_of_nat (cw_work (snd e)) :: chain_work) = cw_work (snd e)" if "e \<in> set ?xs" for e
    using fits that by (simp add: arr_val_array_of_nat)
  show thesis
  proof (rule that)
    show "forE window_row ?xs [] = Ok (map ?f ?xs)" using window_rows [OF fits, of "[]"] by simp
    show "sorted_wrt (<) (map pm_miner_id (map ?f ?xs))" using miners_sorted [of cr] by (simp add: comp_def)
    have "(\<Sum>r\<leftarrow>map ?f ?xs. arr_val (pm_work r)) = (\<Sum>e\<leftarrow>?xs. cw_work (snd e))"
      by (simp add: comp_def val cong: map_cong)
    then show "(\<Sum>r\<leftarrow>map ?f ?xs. arr_val (pm_work r)) = covered"
      using assms(2) by (simp add: credited_total_list)
    show "\<forall>r\<in>set (map ?f ?xs). pm_work r \<noteq> 0 \<and>
        (\<forall>p. pm_payout r = Some p \<longrightarrow> pm_miner_id r = miner_id_from_payout p)"
    proof
      fix r assume "r \<in> set (map ?f ?xs)"
      then obtain e where e: "e \<in> set ?xs" "r = ?f e" by auto
      then have "fmlookup cr (fst e) = Some (snd e)" by (metis prod.collapse set_sorted_list_of_fmap)
      with assms(1) have "0 < cw_work (snd e)" "\<forall>p. cw_payout (snd e) = Some p \<longrightarrow> fst e = miner_id_from_payout p"
        by (auto simp: rows_ok_def)
      with val [OF e(1)] e(2) show "pm_work r \<noteq> 0 \<and>
          (\<forall>p. pm_payout r = Some p \<longrightarrow> pm_miner_id r = miner_id_from_payout p)"
        by (metis arr_val_zero less_irrefl pplns_miner_work.select_convs)
    qed
  qed
qed

lemma build_window_cases:
  assumes "conn_inv c" "fmlookup (connected c) i = Some cs" "payable c cs" "i \<noteq> 0" "requested \<noteq> 0"
  obtains "build_pplns_window_at_parent c i requested = Throw conflict_error"
  | w n cr where "build_pplns_window_at_parent c i requested = Ok w" "window_ok w" "requested_work w = requested"
    "arr_val (covered_work w) = min (arr_val requested) (arr_val (cumulative_work cs))"
    "complete w \<longleftrightarrow> arr_val requested \<le> arr_val (cumulative_work cs)" "included_shares w = n"
    "pplns_walk c cs (arr_val requested) 0 fmempty =
      Ok (arr_val requested - arr_val (cumulative_work cs), n, cr)"
proof -
  let ?r = "arr_val requested" and ?a = "arr_val (cumulative_work cs)"
  have eq: "build_pplns_window_at_parent c i requested =
      bindE (pplns_walk c cs ?r 0 fmempty)
         (\<lambda>(remaining, included_count, credited).
           bindE (int_to_work (?r - remaining)) (\<lambda>covered.
           bindE (forE window_row (sorted_list_of_fmap credited) []) (\<lambda>rows.
             Ok \<lparr>requested_work = requested, covered_work = covered, included_shares = included_count,
                 complete = (remaining = 0), miners = rows\<rparr>)))"
    using assms(2,4,5) by (simp add: build_pplns_window_at_parent_def work_to_int_arr_val find_def Let_def)
  have "rows_ok fmempty" by (simp add: rows_ok_def)
  from pplns_walk_walked [OF assms(1-3) this, of ?r 0] consider
    "pplns_walk c cs ?r 0 fmempty = Throw conflict_error"
  | n cr where "pplns_walk c cs ?r 0 fmempty = Ok (?r - ?a, n, cr)" "rows_ok cr" "credited_total cr = min ?r ?a"
    by (auto simp: walked_def)
  then show thesis
  proof cases
    case 1
    then show thesis using that(1) eq by simp
  next
    case (2 n cr)
    have small: "min ?r ?a < 2 ^ 256" using arr_val_less [of requested] by simp
    obtain rows where rows: "forE window_row (sorted_list_of_fmap cr) [] = Ok rows"
      "sorted_wrt (<) (map pm_miner_id rows)" "(\<Sum>r\<leftarrow>rows. arr_val (pm_work r)) = min ?r ?a"
      "\<forall>r\<in>set rows. pm_work r \<noteq> 0 \<and> (\<forall>p. pm_payout r = Some p \<longrightarrow> pm_miner_id r = miner_id_from_payout p)"
      using window_of_walk [OF 2(2,3) small] .
    have "?r - (?r - ?a) = min ?r ?a" by linarith
    then have cov: "int_to_work (?r - (?r - ?a)) = Ok (array_of_nat (min ?r ?a))" using small by (simp add: int_to_work_eq)
    let ?w = "\<lparr>requested_work = requested, covered_work = array_of_nat (min ?r ?a), included_shares = n,
      complete = (?r - ?a = 0), miners = rows\<rparr>"
    have val: "arr_val (array_of_nat (min ?r ?a) :: chain_work) = min ?r ?a"
      using small by (simp add: arr_val_array_of_nat)
    show thesis
    proof (rule that(2) [where w = ?w and n = n and cr = cr])
      show "build_pplns_window_at_parent c i requested = Ok ?w"
        unfolding eq 2(1) bindE_simps prod.case cov rows(1) ..
      show "window_ok ?w" using rows val by (simp add: window_ok_def)
    qed (use val 2(1) in simp_all)
  qed
qed



lemma miner_work_ge: "r \<in> set rows \<Longrightarrow> arr_val (pm_work r) \<le> miner_work rows (pm_miner_id r)"
  by (induction rows) (auto simp: miner_work_def)

lemma sidechain_window_cases:
  assumes "conn_inv c" "fmlookup (connected c) i = Some cs" "payable c cs" "i \<noteq> 0" "network \<noteq> 0"
    "pplns_window_shares params \<noteq> 0" "pplns_window_shares params \<le> kCanonicalPplnsWindowShares"
    "pplns_max_network_difficulty_multiplier params \<noteq> 0"
  shows "build_sidechain_pplns_window_at_parent c i params network = Throw conflict_error \<or>
    (\<exists>w. build_sidechain_pplns_window_at_parent c i params network = Ok w \<and> window_ok w \<and> complete w \<and>
      covered_work w \<noteq> 0 \<and> included_shares w \<le> unat (pplns_window_shares params) \<and>
      arr_val (covered_work w) \<le> arr_val network * unat (pplns_max_network_difficulty_multiplier params))"
proof -
  let ?W = "pplns_window_shares params" and ?mult = "unat (pplns_max_network_difficulty_multiplier params)"
  have W: "0 < unat ?W" using assms(6) by (simp add: unat_gt_0)
  from recent_work_total [OF assms(1-3) W, of 0] obtain recent where
    rec: "recent_work c ?W cs 0 0 = Ok recent" "0 < recent" "recent \<le> arr_val (cumulative_work cs)" by auto
  obtain nw where nw: "share_work network = Ok nw" "work_to_int nw = arr_val network"
    using share_work_ok [OF assms(5)] work_to_int_arr_val by metis
  define req where "req = min recent (arr_val network * ?mult)"
  have "0 < ?mult" using assms(8) by (simp add: unat_gt_0)
  then have pos: "0 < req" using rec(2) assms(5) by (simp add: req_def)
  have small: "req < 2 ^ 256" using rec(3) arr_val_less [of "cumulative_work cs"] by (simp add: req_def)
  let ?req = "array_of_nat req :: chain_work"
  have val: "arr_val ?req = req" using small by (simp add: arr_val_array_of_nat)
  then have nz: "?req \<noteq> 0" using pos by (metis arr_val_zero less_irrefl)
  have bound: "\<not> kCanonicalPplnsWindowShares < ?W" using assms(7) by simp
  have eq: "build_sidechain_pplns_window_at_parent c i params network =
      bindE (build_pplns_window_at_parent c i ?req) (\<lambda>result.
        if \<not> complete result \<or> included_shares result > unat ?W
        then Throw (Logic_error ''sidechain PPLNS policy bound was violated'') else Ok result)"
    using assms(2,4-6,8) pos small rec(1) nw
    by (simp add: build_sidechain_pplns_window_at_parent_def find_def req_def [symmetric]
        int_to_work_eq Let_def) (use bound in blast)
  from assms(1-4) nz show ?thesis
  proof (cases rule: build_window_cases)
    case 1
    then show ?thesis by (simp add: eq)
  next
    case (2 w n cr)
    have le: "req \<le> arr_val (cumulative_work cs)" using rec(3) by (simp add: req_def)
    have "rows_ok fmempty" by (simp add: rows_ok_def)
    moreover have "pplns_walk c cs req 0 fmempty = Ok (0, n, cr)" using 2(7) le val by simp
    ultimately have "n \<le> unat ?W"
      using pplns_walk_count [OF assms(1-3) _ rec(1), of fmempty req 0 0 n cr] by (simp add: req_def)
    moreover have "covered_work w \<noteq> 0" using 2(4) val pos le by (metis arr_val_zero less_irrefl min.absorb1)
    ultimately show ?thesis using 2 val le by (simp add: eq req_def)
  qed
qed

text \<open>The sidechain window keeps its bounds: with valid policy values and a nonzero network
  difficulty, the window of a payable connected share is complete, credits positive work of at
  most the network difficulty times the multiplier, and includes no more shares than the policy
  allows, so the consistency checks at its end never fire; and the window can be paid out for any
  reward. Only a collision of miner identifiers makes it fail.\<close>

theorem build_sidechain_pplns_window_bounds:
  assumes "chain_reachable full backend c" "find c parent = Some cs"
    "enforces_sidechain_difficulty c \<longrightarrow> validated_ancestry cs" "valid_parameters params" "network \<noteq> 0"
  shows "parent = 0 \<and> build_sidechain_pplns_window_at_parent c parent params network = Ok empty_window \<or>
    build_sidechain_pplns_window_at_parent c parent params network =
      Throw (Logic_error ''PPLNS MinerId has conflicting payout identities'') \<or>
    (\<exists>w. build_sidechain_pplns_window_at_parent c parent params network = Ok w \<and> complete w \<and>
      included_shares w \<le> unat (pplns_window_shares params) \<and> included_shares w \<le> 31 \<and>
      arr_val (covered_work w) \<le> arr_val network * unat (pplns_max_network_difficulty_multiplier params) \<and>
      (\<exists>payouts. allocate_pplns_reward w reward = Ok payouts \<and> payouts \<noteq> [] \<and>
        (\<Sum>p\<leftarrow>payouts. unat (amount p)) = unat reward))"
proof (cases "parent = 0")
  case True
  have "\<not> kCanonicalPplnsWindowShares < pplns_window_shares params"
    using valid_parametersD(8) [OF assms(4)] by (simp add: kCanonicalPplnsWindowShares_def)
  with True valid_parametersD(7,9) [OF assms(4)] assms(5) show ?thesis
    by (simp add: build_sidechain_pplns_window_at_parent_def)
next
  case False
  have "payable c cs" using assms(3) by (simp add: payable_def enforces_sidechain_difficulty_def)
  note par = valid_parametersD [OF assms(4)]
  have canon: "pplns_window_shares params \<le> kCanonicalPplnsWindowShares"
    using par(8) by (simp add: kCanonicalPplnsWindowShares_def)
  have w31: "unat (pplns_window_shares params) \<le> 31" using par(8) by (simp add: word_le_nat_alt)
  show ?thesis
    using sidechain_window_cases [OF reachable_conn [OF assms(1)] assms(2) [unfolded find_def]
        \<open>payable c cs\<close> False assms(5) par(7) canon par(9)]
  proof (elim disjE exE conjE)
    fix w assume w: "build_sidechain_pplns_window_at_parent c parent params network = Ok w" "window_ok w"
      "complete w" "covered_work w \<noteq> 0" "included_shares w \<le> unat (pplns_window_shares params)"
      "arr_val (covered_work w) \<le> arr_val network * unat (pplns_max_network_difficulty_multiplier params)"
    then have d: "distinct (map pm_miner_id (miners w))"
      by (auto simp: window_ok_def strict_sorted_iff)
    obtain r where "r \<in> set (miners w)" "pm_work r \<noteq> 0"
      using w(2,4) by (cases "miners w") (auto simp: window_ok_def)
    then have "miner_work (miners w) (pm_miner_id r) \<noteq> 0"
      using miner_work_ge [of r "miners w"] by (metis arr_val_pos le_zero_eq less_irrefl)
    with allocate_total [OF d, of reward] w(2) obtain payouts where
      "allocate_pplns_reward w reward = Ok payouts" "payouts \<noteq> []"
      by (auto simp: window_ok_def)
    with allocate_exact(1) [of w reward payouts] w w31 show ?thesis by auto
  qed simp
qed

theorem build_sidechain_pplns_window_bounds_witness:
  "\<exists>r. build_sidechain_pplns_window_at_parent sample_chain sample_id
      (canonical_sidechain_parameters Testnet) (array_of_nat 200000000) = r \<and>
    (r = Ok empty_window \<or> r = Throw (Logic_error ''PPLNS MinerId has conflicting payout identities'') \<or>
     (\<exists>w. r = Ok w \<and> complete w \<and> included_shares w \<le> 31))"
proof -
  have f: "find sample_chain sample_id = Some sample_connected" "validated_ancestry sample_connected"
    by (simp_all add: find_def sample_chain_def sample_connected_def)
  from build_sidechain_pplns_window_bounds [OF sample_reachable f(1) _ canonical_valid sample_difficulties(2), of Testnet 0] f(2)
  show ?thesis by auto
qed

end
