(* ===== verification/Pplns_Coinbase.thy ===== *)
theory Pplns_Coinbase
  imports Pplns_Window
begin

text \<open>
  \<open>src/src/pplns_coinbase.cpp\<close>: the payout plan of a block. The operator fee is deducted first, the
  rest is divided among the miners of the window, and both become at most 32 outputs. All amounts
  are 64 bit words; every overflow check of the code is a branch.
\<close>

section \<open>Definitions\<close>

definition kZanoHf6MaxCoinbaseOutputs :: nat where
  "kZanoHf6MaxCoinbaseOutputs = 32"

datatype pplns_coinbase_plan_status =
    Ready
  | EmptyWindow
  | IncompleteWindow
  | MissingPayoutIdentity
  | TooManyRecipients
  | ZeroPayout
  | RewardSumMismatch

record pplns_coinbase_destination =
  cd_miner_id :: miner_id
  cd_payout :: payout_public_keys
  cd_amount :: u64

record pplns_coinbase_plan =
  plan_status :: pplns_coinbase_plan_status
  plan_reward_atomic :: u64
  plan_destinations :: "pplns_coinbase_destination list"

definition calculate_basis_point_share :: "u64 \<Rightarrow> u64 \<Rightarrow> u64 option" where
  "calculate_basis_point_share amt basis_points =
    (if basis_points \<ge> kOperatorFeeBasisPointDenominator then None
     else
       let whole = amt div kOperatorFeeBasisPointDenominator;
           rest = amt mod kOperatorFeeBasisPointDenominator
       in if basis_points \<noteq> 0 \<and> whole > (- 1) div basis_points then None
          else
            let whole_fee = whole * basis_points;
                rest_fee = (rest * basis_points) div kOperatorFeeBasisPointDenominator
            in if rest_fee > (- 1) - whole_fee then None else Some (whole_fee + rest_fee))"

text \<open>The loop over the payouts: the running total and the destinations, or the status of the early return.\<close>

fun collect_destinations ::
  "pplns_payout list \<Rightarrow> u64 \<Rightarrow> pplns_coinbase_destination list \<Rightarrow>
    pplns_coinbase_plan_status + u64 \<times> pplns_coinbase_destination list"
where
  "collect_destinations [] running destinations = Inr (running, destinations)"
| "collect_destinations (p # payouts) running destinations =
    (case pp_payout p of
      None \<Rightarrow> Inl MissingPayoutIdentity
    | Some keys \<Rightarrow>
        if pp_miner_id p \<noteq> miner_id_from_payout keys then Inl MissingPayoutIdentity
        else if amount p = 0 then Inl ZeroPayout
        else if amount p > (- 1) - running then Inl RewardSumMismatch
        else collect_destinations payouts (running + amount p)
          (destinations @ [\<lparr>cd_miner_id = pp_miner_id p, cd_payout = keys, cd_amount = amount p\<rparr>]))"

text \<open>The operator's destination: merged into the first one with the same payout keys, else a new one.\<close>

definition credit_operator ::
  "u64 \<Rightarrow> payout_public_keys \<Rightarrow> pplns_coinbase_destination list \<Rightarrow>
    pplns_coinbase_plan_status + pplns_coinbase_destination list"
where
  "credit_operator operator_fee keys destinations =
    (if operator_fee = 0 then Inr destinations
     else
       let pos = length (takeWhile (\<lambda>d. cd_payout d \<noteq> keys) destinations) in
       if pos < length destinations
       then (if operator_fee > (- 1) - cd_amount (destinations ! pos) then Inl RewardSumMismatch
             else Inr (destinations[pos := (destinations ! pos)
               \<lparr>cd_amount := cd_amount (destinations ! pos) + operator_fee\<rparr>]))
       else if length destinations \<ge> kZanoHf6MaxCoinbaseOutputs then Inl TooManyRecipients
       else Inr (destinations @
         [\<lparr>cd_miner_id = miner_id_from_payout keys, cd_payout = keys, cd_amount = operator_fee\<rparr>]))"

definition make_pplns_coinbase_plan ::
  "pplns_window \<Rightarrow> u64 \<Rightarrow> sidechain_parameters \<Rightarrow> pplns_coinbase_plan result"
where
  "make_pplns_coinbase_plan window reward_atomic params =
    bindE (serialize_sidechain_parameters params) (\<lambda>_.
      let stop = (\<lambda>status. Ok \<lparr>plan_status = status, plan_reward_atomic = reward_atomic,
            plan_destinations = []\<rparr>) in
      if miners window = [] then stop EmptyWindow
      else if \<not> complete window then stop IncompleteWindow
      else (case calculate_basis_point_share reward_atomic (operator_fee_basis_points params) of
        None \<Rightarrow> stop ZeroPayout
      | Some operator_fee \<Rightarrow>
          if operator_fee \<ge> reward_atomic then stop ZeroPayout
          else
            let miner_reward = reward_atomic - operator_fee in
            bindE (allocate_pplns_reward window miner_reward) (\<lambda>payouts.
              if payouts = [] then stop EmptyWindow
              else if length payouts > kZanoHf6MaxCoinbaseOutputs - 1 \<or>
                length payouts > unat (pplns_window_shares params)
              then stop TooManyRecipients
              else (case collect_destinations payouts 0 [] of
                Inl status \<Rightarrow> stop status
              | Inr (running, destinations) \<Rightarrow>
                  if running \<noteq> miner_reward then stop RewardSumMismatch
                  else (case credit_operator operator_fee (operator_fee_payout params) destinations of
                    Inl status \<Rightarrow> stop status
                  | Inr destinations' \<Rightarrow>
                      if operator_fee > (- 1) - running then stop RewardSumMismatch
                      else if running + operator_fee \<noteq> reward_atomic then stop RewardSumMismatch
                      else Ok \<lparr>plan_status = Ready, plan_reward_atomic = reward_atomic,
                        plan_destinations = destinations'\<rparr>)))))"

definition pplns_coinbase_plan_status_name :: "pplns_coinbase_plan_status \<Rightarrow> string" where
  "pplns_coinbase_plan_status_name status =
    (case status of
      Ready \<Rightarrow> ''ready''
    | EmptyWindow \<Rightarrow> ''empty-window''
    | IncompleteWindow \<Rightarrow> ''incomplete-window''
    | MissingPayoutIdentity \<Rightarrow> ''missing-payout-identity''
    | TooManyRecipients \<Rightarrow> ''too-many-recipients''
    | ZeroPayout \<Rightarrow> ''zero-payout''
    | RewardSumMismatch \<Rightarrow> ''reward-sum-mismatch'')"

section \<open>The operator fee\<close>

lemma unat_max_u64: "unat (- 1 :: u64) = 18446744073709551615"
  by (simp add: unsigned_minus_1_eq_mask mask_eq_exp_minus_1)

lemma u64_sub_max: "unat ((- 1) - x :: u64) = 18446744073709551615 - unat x"
proof -
  have "x \<le> - 1" by simp
  then show ?thesis by (simp add: unat_sub unat_max_u64)
qed

lemma unat_less_u64: "unat (x :: u64) < 18446744073709551616"
  using unsigned_less [where w = x and ?'a = nat] by simp

lemma basis_points_split:
  "(a div 10000) * b + (a mod 10000) * b div 10000 = a * b div (10000 :: nat)"
proof -
  have "a * b = (a div 10000 * b) * 10000 + a mod 10000 * b"
    using div_mult_mod_eq [of a 10000] by (metis add_mult_distrib mult.assoc mult.commute)
  then show ?thesis by simp
qed

text \<open>The fee is the floor of the exact product, and none of the overflow checks can fail.\<close>

lemma calculate_basis_point_share_exact:
  assumes "b < 10000"
  shows "\<exists>fee. calculate_basis_point_share a b = Some fee \<and> unat fee = unat a * unat b div 10000"
proof -
  have b: "unat b < 10000" using assms by (simp add: word_less_nat_alt)
  have d: "unat (a div 10000) = unat a div 10000" "unat (a mod 10000) = unat a mod 10000"
    by (simp_all add: unat_div_distrib unat_mod_distrib)
  have le: "unat a div 10000 * unat b + unat a mod 10000 * unat b div 10000 \<le> unat a"
  proof -
    have "unat a * unat b div 10000 \<le> unat a * 10000 div 10000"
      using b by (intro div_le_mono mult_le_mono2) simp
    then show ?thesis by (simp add: basis_points_split)
  qed
  have whole: "unat ((a div 10000) * b) = unat a div 10000 * unat b"
    using le unat_less_u64 [of a] by (simp add: unat_word_ariths d)
  have small: "unat a mod 10000 * unat b < 10000 * 10000"
    using b by (intro mult_strict_mono) auto
  then have rest: "unat ((a mod 10000) * b div 10000) = unat a mod 10000 * unat b div 10000"
    by (simp add: unat_div_distrib unat_word_ariths d)
  have c1: "\<not> (b \<noteq> 0 \<and> a div 10000 > (- 1) div b)"
  proof
    assume "b \<noteq> 0 \<and> a div 10000 > (- 1) div b"
    then have "0 < unat b" "18446744073709551615 div unat b < unat a div 10000"
      by (simp_all add: word_less_nat_alt unat_div_distrib unat_max_u64 d unat_gt_0)
    then have "18446744073709551615 < unat a div 10000 * unat b"
      by (simp add: div_less_iff_less_mult)
    then show False using le unat_less_u64 [of a] by linarith
  qed
  have c2: "\<not> (a mod 10000) * b div 10000 > (- 1) - (a div 10000) * b"
    using le unat_less_u64 [of a] by (simp add: word_less_nat_alt u64_sub_max whole rest)
  have "unat ((a div 10000) * b + (a mod 10000) * b div 10000) =
      unat a div 10000 * unat b + unat a mod 10000 * unat b div 10000"
    using le unat_less_u64 [of a] by (simp add: unat_word_ariths(1) whole rest)
  then show ?thesis
    using assms c1 c2
    by (simp add: calculate_basis_point_share_def kOperatorFeeBasisPointDenominator_def Let_def
        basis_points_split not_le)
qed

section \<open>Destinations\<close>

definition destination_of :: "pplns_payout \<Rightarrow> pplns_coinbase_destination" where
  "destination_of p = \<lparr>cd_miner_id = pp_miner_id p, cd_payout = the (pp_payout p), cd_amount = amount p\<rparr>"

definition payable :: "pplns_payout \<Rightarrow> bool" where
  "payable p \<longleftrightarrow> (\<exists>keys. pp_payout p = Some keys \<and> pp_miner_id p = miner_id_from_payout keys) \<and> amount p \<noteq> 0"

lemma destination_amounts:
  "(\<Sum>d\<leftarrow>map destination_of payouts. unat (cd_amount d)) = (\<Sum>p\<leftarrow>payouts. unat (amount p))"
  by (simp add: destination_of_def comp_def)

lemma unat_add_u64:
  "unat a + unat b \<le> 18446744073709551615 \<Longrightarrow> unat (a + b :: u64) = unat a + unat b"
  by (simp add: unat_word_ariths(1))

lemma collect_destinations_Inr:
  assumes "collect_destinations payouts run ds = Inr (run', ds')"
  shows "ds' = ds @ map destination_of payouts \<and> (\<forall>p\<in>set payouts. payable p) \<and>
    unat run' = unat run + (\<Sum>p\<leftarrow>payouts. unat (amount p))"
  using assms
proof (induction payouts run ds rule: collect_destinations.induct)
  case (2 p payouts run ds)
  then obtain keys where p: "pp_payout p = Some keys" "pp_miner_id p = miner_id_from_payout keys"
    "amount p \<noteq> 0" "\<not> amount p > (- 1) - run"
    "collect_destinations payouts (run + amount p)
      (ds @ [\<lparr>cd_miner_id = pp_miner_id p, cd_payout = keys, cd_amount = amount p\<rparr>]) = Inr (run', ds')"
    by (auto split: option.splits if_splits)
  have "unat (run + amount p) = unat run + unat (amount p)"
    using p(4) unat_less_u64 [of run] by (intro unat_add_u64) (simp add: word_less_nat_alt u64_sub_max)
  with "2.IH" [OF p(1) _ p(3,4,5)] p show ?case
    by (simp add: payable_def destination_of_def)
qed simp

lemma collect_destinations_sum:
  assumes "unat run + (\<Sum>p\<leftarrow>payouts. unat (amount p)) \<le> 18446744073709551615"
  shows "collect_destinations payouts run ds \<noteq> Inl RewardSumMismatch \<and> collect_destinations payouts run ds \<noteq> Inl Ready"
  using assms
proof (induction payouts run ds rule: collect_destinations.induct)
  case (2 p payouts run ds)
  have ok: "\<not> amount p > (- 1) - run"
    using "2.prems" by (simp add: word_less_nat_alt u64_sub_max)
  have "unat (run + amount p) = unat run + unat (amount p)"
    using "2.prems" by (intro unat_add_u64) simp
  with "2.prems" have "unat (run + amount p) + (\<Sum>p\<leftarrow>payouts. unat (amount p)) \<le> 18446744073709551615"
    by simp
  with 2 ok show ?case by (auto split: option.splits)
qed simp

text \<open>What crediting the operator yields: the destinations pay the fee on top, to one payout identity.\<close>

definition credited_to :: "u64 \<Rightarrow> payout_public_keys \<Rightarrow> pplns_coinbase_destination list \<Rightarrow>
    pplns_coinbase_destination list \<Rightarrow> bool"
where
  "credited_to fee keys ds ds' \<longleftrightarrow>
    (\<Sum>d\<leftarrow>ds'. unat (cd_amount d)) = (\<Sum>d\<leftarrow>ds. unat (cd_amount d)) + unat fee \<and>
    distinct (map cd_payout ds') \<and> (length ds < 32 \<longrightarrow> length ds' \<le> 32) \<and>
    (\<forall>d\<in>set ds'. cd_amount d \<noteq> 0 \<and> cd_miner_id d = miner_id_from_payout (cd_payout d)) \<and>
    (fee \<noteq> 0 \<longrightarrow> (\<exists>d\<in>set ds'. cd_payout d = keys \<and> fee \<le> cd_amount d)) \<and>
    (\<forall>d\<in>set ds. cd_payout d \<noteq> keys \<longrightarrow> d \<in> set ds')"

lemma credit_merge:
  assumes "distinct (map cd_payout ds)"
    "\<forall>d\<in>set ds. cd_amount d \<noteq> 0 \<and> cd_miner_id d = miner_id_from_payout (cd_payout d)"
    "pos < length ds" "cd_payout (ds ! pos) = keys" "\<not> fee > (- 1) - cd_amount (ds ! pos)"
  shows "credited_to fee keys ds (ds[pos := (ds ! pos)\<lparr>cd_amount := cd_amount (ds ! pos) + fee\<rparr>])"
proof -
  define d where "d = ds ! pos"
  define d' where "d' = d\<lparr>cd_amount := cd_amount d + fee\<rparr>"
  let ?ds = "ds[pos := d']"
  have d: "cd_payout d = keys" "d \<in> set ds" using assms(3,4) by (simp_all add: d_def)
  have sum: "unat (cd_amount d') = unat (cd_amount d) + unat fee"
    unfolding d'_def using assms(5) unat_less_u64 [of "cd_amount d"]
    by (simp add: unat_add_u64 word_less_nat_alt u64_sub_max d_def)
  have p: "cd_payout d' = keys" "cd_miner_id d' = cd_miner_id d" using d(1) by (simp_all add: d'_def)
  have "map cd_payout ?ds = map cd_payout ds"
    by (metis d(1) d_def list_update_id map_update p(1))
  moreover have "(\<Sum>x\<leftarrow>?ds. unat (cd_amount x)) = (\<Sum>x\<leftarrow>ds. unat (cd_amount x)) + unat fee"
    using assms(3) sum by (simp add: map_update sum_list_update d_def [symmetric])
  moreover have "cd_amount d' \<noteq> 0" using sum assms(2) d(2) by (metis add_is_0 unat_eq_zero)
  moreover have "fee \<le> cd_amount d'" using sum by (simp add: word_le_nat_alt)
  moreover have "x \<in> set ?ds" if "x \<in> set ds" "cd_payout x \<noteq> keys" for x
  proof -
    from that(1) obtain k where k: "k < length ds" "ds ! k = x" by (auto simp: in_set_conv_nth)
    with that(2) d(1) have "k \<noteq> pos" by (auto simp: d_def)
    with k show ?thesis by (metis length_list_update nth_list_update_neq nth_mem)
  qed
  moreover have "d' \<in> set ?ds" using assms(3) by (rule set_update_memI)
  moreover have "set ?ds \<subseteq> insert d' (set ds)" by (rule set_update_subset_insert)
  ultimately show ?thesis
    unfolding credited_to_def d_def [symmetric] d'_def [symmetric]
    using assms(1,2) d p by (auto simp: subset_iff)
qed

lemma credit_operator_Inr:
  assumes "credit_operator fee keys ds = Inr ds'" "distinct (map cd_payout ds)"
    "\<forall>d\<in>set ds. cd_amount d \<noteq> 0 \<and> cd_miner_id d = miner_id_from_payout (cd_payout d)"
  shows "credited_to fee keys ds ds'"
proof -
  let ?pos = "length (takeWhile (\<lambda>d. cd_payout d \<noteq> keys) ds)"
  consider (none) "fee = 0" "ds' = ds"
    | (merge) "?pos < length ds" "\<not> fee > (- 1) - cd_amount (ds ! ?pos)"
      "ds' = ds[?pos := (ds ! ?pos)\<lparr>cd_amount := cd_amount (ds ! ?pos) + fee\<rparr>]"
    | (new) "fee \<noteq> 0" "\<not> ?pos < length ds" "length ds < 32"
      "ds' = ds @ [\<lparr>cd_miner_id = miner_id_from_payout keys, cd_payout = keys, cd_amount = fee\<rparr>]"
    using assms(1) by (auto simp: credit_operator_def Let_def kZanoHf6MaxCoinbaseOutputs_def split: if_splits)
  then show ?thesis
  proof cases
    case none
    with assms(2,3) show ?thesis by (simp add: credited_to_def)
  next
    case merge
    have "cd_payout (ds ! ?pos) = keys" using nth_length_takeWhile [OF merge(1)] by simp
    from credit_merge [OF assms(2,3) merge(1) this merge(2)] merge(3) show ?thesis by simp
  next
    case new
    then have "takeWhile (\<lambda>d. cd_payout d \<noteq> keys) ds = ds"
      by (metis length_takeWhile_le linorder_neqE_nat not_le takeWhile_eq_take take_all_iff)
    then have "\<forall>d\<in>set ds. cd_payout d \<noteq> keys" by (simp add: takeWhile_eq_all_conv)
    with new assms(2,3) show ?thesis by (auto simp: credited_to_def)
  qed
qed

lemma credit_operator_never:
  assumes "(\<Sum>d\<leftarrow>ds. unat (cd_amount d)) + unat fee \<le> 18446744073709551615" "length ds < 32"
  shows "\<exists>ds'. credit_operator fee keys ds = Inr ds'"
proof -
  have "unat (cd_amount d) + unat fee \<le> 18446744073709551615" if "d \<in> set ds" for d
    using assms(1) member_le_sum_list [of "unat (cd_amount d)" "map (\<lambda>d. unat (cd_amount d)) ds"] that by simp
  then show ?thesis
    using assms(2) nth_mem [of "length (takeWhile (\<lambda>d. cd_payout d \<noteq> keys) ds)" ds]
    by (fastforce simp: credit_operator_def Let_def kZanoHf6MaxCoinbaseOutputs_def word_less_nat_alt u64_sub_max)
qed

section \<open>The plan\<close>

text \<open>The branches of the plan. The three checks that end in \<open>RewardSumMismatch\<close> and the second
  output limit never fail.\<close>

lemma coinbase_plan_cases:
  assumes "make_pplns_coinbase_plan window reward params = Ok plan"
  obtains (stopped) "plan_status plan \<notin> {Ready, RewardSumMismatch}" "plan_destinations plan = []"
      "plan_reward_atomic plan = reward"
    | (planned) fee payouts ds where "valid_parameters params" "complete window"
      "calculate_basis_point_share reward (operator_fee_basis_points params) = Some fee" "fee < reward"
      "allocate_pplns_reward window (reward - fee) = Ok payouts" "payouts \<noteq> []" "length payouts \<le> 31"
      "\<forall>p\<in>set payouts. payable p"
      "credit_operator fee (operator_fee_payout params) (map destination_of payouts) = Inr ds"
      "plan = \<lparr>plan_status = Ready, plan_reward_atomic = reward, plan_destinations = ds\<rparr>"
proof -
  let ?stop = "\<lambda>status. \<lparr>plan_status = status, plan_reward_atomic = reward, plan_destinations = []\<rparr>"
  have valid: "valid_parameters params"
    using assms by (auto simp: make_pplns_coinbase_plan_def bindE_eq_Ok serialize_sidechain_eq_Ok)
  obtain fee where fee: "calculate_basis_point_share reward (operator_fee_basis_points params) = Some fee"
    using calculate_basis_point_share_exact [OF valid_parametersD(11) [OF valid]] by blast
  have early: thesis if "plan = ?stop status" "status \<notin> {Ready, RewardSumMismatch}" for status
    using that by (intro stopped) simp_all
  show thesis
  proof (cases "miners window = [] \<or> \<not> complete window \<or> fee \<ge> reward")
    case True
    then have "plan \<in> {?stop EmptyWindow, ?stop IncompleteWindow, ?stop ZeroPayout}"
      using assms fee by (auto simp: make_pplns_coinbase_plan_def bindE_eq_Ok Let_def split: if_splits)
    then show thesis using early by auto
  next
    case False
    obtain payouts where al: "allocate_pplns_reward window (reward - fee) = Ok payouts"
      using assms fee False by (auto simp: make_pplns_coinbase_plan_def bindE_eq_Ok Let_def)
    show thesis
    proof (cases "payouts = [] \<or> length payouts > 31 \<or> length payouts > unat (pplns_window_shares params)")
      case True
      then have "plan \<in> {?stop EmptyWindow, ?stop TooManyRecipients}"
        using assms fee False al
        by (auto simp: make_pplns_coinbase_plan_def bindE_eq_Ok Let_def kZanoHf6MaxCoinbaseOutputs_def
            split: if_splits)
      then show thesis using early by auto
    next
      case few: False
      have sum: "(\<Sum>p\<leftarrow>payouts. unat (amount p)) = unat (reward - fee)"
        using allocate_exact(1) [OF al] few by blast
      show thesis
      proof (cases "collect_destinations payouts 0 []")
        case (Inl status)
        then have "status \<notin> {Ready, RewardSumMismatch}"
          using collect_destinations_sum [of 0 payouts "[]"] unat_less_u64 [of "reward - fee"] sum by auto
        moreover have "plan = ?stop status"
          using assms fee False al few Inl
          by (auto simp: make_pplns_coinbase_plan_def bindE_eq_Ok Let_def kZanoHf6MaxCoinbaseOutputs_def)
        ultimately show thesis by (intro early)
      next
        case (Inr rd)
        obtain run ds where rd: "rd = (run, ds)" by fastforce
        note C = collect_destinations_Inr [OF Inr [unfolded rd]]
        have run: "run = reward - fee" using C sum by (simp add: word_unat_eq_iff)
        have total: "unat run + unat fee = unat reward"
          using False by (simp add: run unat_sub word_le_nat_alt)
        have "(\<Sum>d\<leftarrow>map destination_of payouts. unat (cd_amount d)) + unat fee = unat reward"
          unfolding destination_amounts using sum run total by simp
        then obtain ds' where ds': "credit_operator fee (operator_fee_payout params) (map destination_of payouts) = Inr ds'"
          using credit_operator_never [of "map destination_of payouts" fee] unat_less_u64 [of reward] few by auto
        have "run + fee = reward" "\<not> fee > (- 1) - run"
          using total unat_less_u64 [of reward] by (simp_all add: run word_less_nat_alt u64_sub_max [of "reward - fee"])
        then have "plan = \<lparr>plan_status = Ready, plan_reward_atomic = reward, plan_destinations = ds'\<rparr>"
          using assms fee False al few Inr rd C run ds'
          by (auto simp: make_pplns_coinbase_plan_def bindE_eq_Ok Let_def kZanoHf6MaxCoinbaseOutputs_def)
        then show thesis
          using planned [OF valid _ fee _ al _ _ _ ds'] False few C by auto
      qed
    qed
  qed
qed

lemma payable_destinations:
  assumes "\<forall>p\<in>set payouts. payable p" "sorted_wrt (<) (map pp_miner_id payouts)"
  shows "distinct (map cd_payout (map destination_of payouts))"
    "\<forall>d\<in>set (map destination_of payouts). cd_amount d \<noteq> 0 \<and> cd_miner_id d = miner_id_from_payout (cd_payout d)"
proof -
  show b: "\<forall>d\<in>set (map destination_of payouts). cd_amount d \<noteq> 0 \<and> cd_miner_id d = miner_id_from_payout (cd_payout d)"
    using assms(1) by (auto simp: payable_def destination_of_def)
  have "map pp_miner_id payouts = map miner_id_from_payout (map cd_payout (map destination_of payouts))"
    using assms(1) by (auto simp: payable_def destination_of_def)
  moreover have "distinct (map pp_miner_id payouts)"
    using assms(2) strict_sorted_iff by blast
  ultimately show "distinct (map cd_payout (map destination_of payouts))"
    by (metis distinct_map)
qed

text \<open>C16. The coinbase plan pays exactly the block reward. A plan never reports a reward mismatch.
  Unless it is ready it has no destinations. A ready plan pays at most 32 distinct payout
  identities, each a positive amount under the miner identifier of its keys, and the amounts sum to
  the reward. The operator's fee is the floor of the reward times the fee in basis points, a nonzero
  fee is part of the operator's destination, and every other miner of the division of the
  remaining reward receives exactly its share.\<close>

theorem coinbase_plan_exact:
  assumes "make_pplns_coinbase_plan window reward params = Ok plan"
  shows "plan_status plan \<noteq> RewardSumMismatch \<and> plan_reward_atomic plan = reward \<and>
    (plan_status plan \<noteq> Ready \<longrightarrow> plan_destinations plan = []) \<and>
    (plan_status plan = Ready \<longrightarrow>
      (\<Sum>d\<leftarrow>plan_destinations plan. unat (cd_amount d)) = unat reward \<and>
      length (plan_destinations plan) \<le> 32 \<and> distinct (map cd_payout (plan_destinations plan)) \<and>
      (\<forall>d\<in>set (plan_destinations plan). cd_amount d \<noteq> 0 \<and> cd_miner_id d = miner_id_from_payout (cd_payout d)) \<and>
      (\<exists>fee payouts. unat fee = unat reward * unat (operator_fee_basis_points params) div 10000 \<and>
        (fee \<noteq> 0 \<longrightarrow> (\<exists>d\<in>set (plan_destinations plan). cd_payout d = operator_fee_payout params \<and> fee \<le> cd_amount d)) \<and>
        allocate_pplns_reward window (reward - fee) = Ok payouts \<and>
        (\<forall>p\<in>set payouts. pp_payout p \<noteq> Some (operator_fee_payout params) \<longrightarrow>
          (\<exists>d\<in>set (plan_destinations plan). Some (cd_payout d) = pp_payout p \<and> cd_amount d = amount p))))"
  using assms
proof (cases rule: coinbase_plan_cases)
  case (planned fee payouts ds)
  have sorted: "sorted_wrt (<) (map pp_miner_id payouts)"
    and sum: "(\<Sum>p\<leftarrow>payouts. unat (amount p)) = unat (reward - fee)"
    using allocate_exact(1,2) [OF planned(5,6)] by simp_all
  note ds = credit_operator_Inr [OF planned(9) payable_destinations [OF planned(8) sorted], unfolded credited_to_def]
  have total: "(\<Sum>d\<leftarrow>ds. unat (cd_amount d)) = unat reward"
    using ds [unfolded destination_amounts] sum planned(4)
    by (simp add: unat_sub word_le_nat_alt word_less_nat_alt)
  have fee: "unat fee = unat reward * unat (operator_fee_basis_points params) div 10000"
    using calculate_basis_point_share_exact [OF valid_parametersD(11) [OF planned(1)], of reward] planned(3) by auto
  have "\<exists>d\<in>set ds. Some (cd_payout d) = pp_payout p \<and> cd_amount d = amount p"
    if p: "p \<in> set payouts" "pp_payout p \<noteq> Some (operator_fee_payout params)" for p
  proof (rule bexI [of _ "destination_of p"])
    from planned(8) p(1) obtain keys where k: "pp_payout p = Some keys" by (auto simp: payable_def)
    with p ds show "destination_of p \<in> set ds" by (auto simp: destination_of_def)
    show "Some (cd_payout (destination_of p)) = pp_payout p \<and> cd_amount (destination_of p) = amount p"
      using k by (simp add: destination_of_def)
  qed
  then show ?thesis
    unfolding planned(10) using total fee ds planned(5,7) by auto
qed auto


text \<open>A window with the operator as its only miner: fee and share become one output.\<close>

definition operator_window :: pplns_window where
  "operator_window =
    \<lparr>requested_work = array_of_nat 5, covered_work = array_of_nat 5, included_shares = 1, complete = True,
     miners = [\<lparr>pm_miner_id = miner_id_from_payout kCanonicalOperatorFeePayout, pm_work = array_of_nat 5,
       pm_payout = Some kCanonicalOperatorFeePayout\<rparr>]\<rparr>"

lemma sorted_list_of_fmap_single: "sorted_list_of_fmap (fmupd k v fmempty) = [(k, v)]"
  by (simp add: sorted_list_of_fmap_def sorted_list_of_fset_alt)

lemma operator_window_allocates:
  "allocate_pplns_reward operator_window 9900 =
    Ok [\<lparr>pp_miner_id = miner_id_from_payout kCanonicalOperatorFeePayout, pp_work = array_of_nat 5, amount = 9900,
         pp_payout = Some kCanonicalOperatorFeePayout\<rparr>]"
proof -
  have w: "work_to_int (array_of_nat 5) = 5" "int_to_work 5 = Ok (array_of_nat 5)"
    by (simp_all add: work_to_int_arr_val arr_val_array_of_nat int_to_work_eq)
  show ?thesis
    by (simp add: allocate_pplns_reward_def operator_window_def aggregate_row_def credited_row_def w
        sorted_list_of_fmap_single allocate_step_def Let_def)
qed

theorem coinbase_plan_exact_witness:
  "\<exists>plan. make_pplns_coinbase_plan operator_window 10000 (canonical_sidechain_parameters Testnet) = Ok plan \<and>
    plan_status plan = Ready \<and> (\<Sum>d\<leftarrow>plan_destinations plan. unat (cd_amount d)) = 10000"
proof -
  let ?p = "canonical_sidechain_parameters Testnet"
  let ?d = "\<lparr>cd_miner_id = miner_id_from_payout kCanonicalOperatorFeePayout,
      cd_payout = kCanonicalOperatorFeePayout, cd_amount = 10000\<rparr>"
  let ?plan = "\<lparr>plan_status = Ready, plan_reward_atomic = 10000, plan_destinations = [?d]\<rparr>"
  have fields: "operator_fee_basis_points ?p = 100" "pplns_window_shares ?p = 31"
    "operator_fee_payout ?p = kCanonicalOperatorFeePayout"
    by (simp_all add: canonical_sidechain_parameters_def kCanonicalOperatorFeeBasisPoints_def
        kCanonicalPplnsWindowShares_def)
  have fee: "calculate_basis_point_share 10000 100 = Some 100"
    by (simp add: calculate_basis_point_share_def kOperatorFeeBasisPointDenominator_def Let_def)
  have "serialize_sidechain_parameters ?p = Ok (sidechain_parameter_bytes ?p)"
    using canonical_valid [of Testnet] by (simp add: valid_parameters_def)
  moreover have "miners operator_window \<noteq> []" "complete operator_window"
    by (simp_all add: operator_window_def)
  ultimately have "make_pplns_coinbase_plan operator_window 10000 ?p = Ok ?plan"
    by (simp add: make_pplns_coinbase_plan_def fields fee operator_window_allocates
        kZanoHf6MaxCoinbaseOutputs_def credit_operator_def)
  from coinbase_plan_exact [OF this] this show ?thesis by auto
qed

end
