(* ===== verification/P2p_Protocol.thy ===== *)
theory P2p_Protocol
  imports Sidechain_Params
begin

text \<open>
  \<open>src/src/p2p_protocol.cpp\<close>: the framing of every peer-to-peer message and the handshake that
  opens a connection. The enumerations with an underlying \<open>std::uint8_t\<close> are datatypes with the
  byte each value is sent as; a byte becomes a value only after the code has checked it.
  The locale \<open>p2p_message\<close> is the contract every message kind of the protocol has to meet:
  its maker and its parser over envelopes. What the wire carries is then proved once for all kinds.
\<close>

section \<open>Data\<close>

datatype p2p_message_type =
    Handshake
  | Share_announce
  | Share_request
  | Share_response
  | Tip_announce
  | Mining_context_announce
  | Mining_work_request
  | Mining_work_response

fun message_type_byte :: "p2p_message_type \<Rightarrow> u8" where
  "message_type_byte Handshake = 1"
| "message_type_byte Share_announce = 2"
| "message_type_byte Share_request = 3"
| "message_type_byte Share_response = 4"
| "message_type_byte Tip_announce = 5"
| "message_type_byte Mining_context_announce = 6"
| "message_type_byte Mining_work_request = 7"
| "message_type_byte Mining_work_response = 8"

text \<open>The cast back; it is only applied to supported bytes.\<close>

definition message_type_of :: "u8 \<Rightarrow> p2p_message_type" where
  "message_type_of value =
    (if value = 1 then Handshake else if value = 2 then Share_announce
     else if value = 3 then Share_request else if value = 4 then Share_response
     else if value = 5 then Tip_announce else if value = 6 then Mining_context_announce
     else if value = 7 then Mining_work_request else Mining_work_response)"

datatype p2p_network = P2p_Testnet | P2p_Mainnet

fun p2p_network_byte :: "p2p_network \<Rightarrow> u8" where
  "p2p_network_byte P2p_Testnet = 1"
| "p2p_network_byte P2p_Mainnet = 2"

definition p2p_network_of :: "u8 \<Rightarrow> p2p_network" where
  "p2p_network_of value = (if value = 1 then P2p_Testnet else P2p_Mainnet)"

type_synonym node_id = hash256

record p2p_envelope =
  env_version :: u8
  env_type :: p2p_message_type
  env_flags :: u16
  env_payload :: "u8 list"

record p2p_handshake =
  hs_network :: p2p_network
  hs_node_id :: node_id
  hs_capabilities :: u64
  hs_listen_port :: u16
  hs_best_share_id :: share_id
  hs_best_share_height :: u64
  hs_sidechain_id :: hash256

datatype p2p_handshake_status = Accept | Wrong_network | Wrong_sidechain | Self_connection

definition kP2pMagic :: "u8 list" where
  "kP2pMagic = [0x5a, 0x50, 0x32, 0x50]"

definition kP2pProtocolVersion :: u8 where
  "kP2pProtocolVersion = 2"

definition kP2pEnvelopeHeaderSize :: nat where
  "kP2pEnvelopeHeaderSize = 12"

definition kP2pMaxPayloadSize :: nat where
  "kP2pMaxPayloadSize = 64 * 1024"

definition kP2pHandshakePayloadSize :: nat where
  "kP2pHandshakePayloadSize = 115"

definition kP2pCapabilityShareGossip :: u64 where
  "kP2pCapabilityShareGossip = push_bit 0 1"

definition kP2pCapabilityShareSync :: u64 where
  "kP2pCapabilityShareSync = push_bit 1 1"

definition kP2pCapabilityMiningContext :: u64 where
  "kP2pCapabilityMiningContext = push_bit 2 1"

definition kP2pCapabilityWorkRetrieval :: u64 where
  "kP2pCapabilityWorkRetrieval = push_bit 3 1"

lemmas p2p_constants = kP2pMagic_def kP2pProtocolVersion_def kP2pEnvelopeHeaderSize_def
  kP2pMaxPayloadSize_def kP2pHandshakePayloadSize_def

text \<open>\<open>P2pEnvelope envelope;\<close> with the defaults of its fields, then the type and the payload.\<close>

definition default_envelope :: "p2p_message_type \<Rightarrow> u8 list \<Rightarrow> p2p_envelope" where
  "default_envelope t payload =
    \<lparr>env_version = kP2pProtocolVersion, env_type = t, env_flags = 0, env_payload = payload\<rparr>"

section \<open>Field readers and checks\<close>

definition p2p_read_u16_be :: "u8 list \<Rightarrow> nat \<Rightarrow> u16 result" where
  "p2p_read_u16_be bytes offset =
    (if offset + 2 > length bytes then Throw (Runtime_error ''truncated P2P uint16'')
     else Ok (push_bit 8 (ucast (bytes ! offset)) OR ucast (bytes ! (offset + 1))))"

definition p2p_read_u32_be :: "u8 list \<Rightarrow> nat \<Rightarrow> u32 result" where
  "p2p_read_u32_be bytes offset =
    (if offset + 4 > length bytes then Throw (Runtime_error ''truncated P2P uint32'')
     else Ok (push_bit 24 (ucast (bytes ! offset)) OR push_bit 16 (ucast (bytes ! (offset + 1))) OR
       push_bit 8 (ucast (bytes ! (offset + 2))) OR ucast (bytes ! (offset + 3))))"

definition p2p_read_u64_be :: "u8 list \<Rightarrow> nat \<Rightarrow> u64 result" where
  "p2p_read_u64_be bytes offset =
    (if offset + 8 > length bytes then Throw (Runtime_error ''truncated P2P uint64'')
     else Ok (foldl shift_in 0 (slice offset 8 bytes)))"

definition is_supported_network :: "u8 \<Rightarrow> bool" where
  "is_supported_network value \<longleftrightarrow>
    value = p2p_network_byte P2p_Testnet \<or> value = p2p_network_byte P2p_Mainnet"

definition p2p_message_type_supported :: "u8 \<Rightarrow> bool" where
  "p2p_message_type_supported value \<longleftrightarrow>
    value = message_type_byte Handshake \<or> value = message_type_byte Share_announce \<or>
    value = message_type_byte Share_request \<or> value = message_type_byte Share_response \<or>
    value = message_type_byte Tip_announce \<or> value = message_type_byte Mining_context_announce \<or>
    value = message_type_byte Mining_work_request \<or> value = message_type_byte Mining_work_response"

definition is_zero_node_id :: "node_id \<Rightarrow> bool" where
  "is_zero_node_id node \<longleftrightarrow> list_all (\<lambda>byte. byte = 0) (bytes_of node)"

definition require_valid_handshake :: "p2p_handshake \<Rightarrow> unit result" where
  "require_valid_handshake h =
    (if \<not> is_supported_network (p2p_network_byte (hs_network h))
     then Throw (Runtime_error ''unsupported P2P network'')
     else if is_zero_node_id (hs_node_id h)
     then Throw (Runtime_error ''P2P node id must be non-zero'')
     else if is_zero_share_id (hs_best_share_id h) \<and> hs_best_share_height h \<noteq> 0
     then Throw (Runtime_error ''zero best-share id requires zero best-share height'')
     else Ok ())"

fun canonical_p2p_sidechain_id :: "p2p_network \<Rightarrow> hash256 result" where
  "canonical_p2p_sidechain_id P2p_Testnet = sidechain_id (canonical_sidechain_parameters Testnet)"
| "canonical_p2p_sidechain_id P2p_Mainnet = sidechain_id (canonical_sidechain_parameters Mainnet)"

definition resolved_p2p_sidechain_id :: "p2p_handshake \<Rightarrow> hash256 result" where
  "resolved_p2p_sidechain_id h =
    (if \<not> is_zero_sidechain_id (hs_sidechain_id h) then Ok (hs_sidechain_id h)
     else canonical_p2p_sidechain_id (hs_network h))"

section \<open>Envelopes\<close>

definition serialize_p2p_envelope :: "p2p_envelope \<Rightarrow> u8 list result" where
  "serialize_p2p_envelope envelope =
    (if env_version envelope \<noteq> kP2pProtocolVersion
     then Throw (Runtime_error ''unsupported P2P protocol version'')
     else if \<not> p2p_message_type_supported (message_type_byte (env_type envelope))
     then Throw (Runtime_error ''unsupported P2P message type'')
     else if env_flags envelope \<noteq> 0
     then Throw (Runtime_error ''unsupported P2P envelope flags'')
     else if length (env_payload envelope) > kP2pMaxPayloadSize
     then Throw (Runtime_error ''P2P payload exceeds maximum size'')
     else Ok (kP2pMagic @ [env_version envelope] @ [message_type_byte (env_type envelope)] @
       append_u16_be (env_flags envelope) @
       append_u32_be (word_of_nat (length (env_payload envelope))) @ env_payload envelope))"

definition deserialize_p2p_envelope :: "u8 list \<Rightarrow> p2p_envelope result" where
  "deserialize_p2p_envelope bytes =
    (if length bytes < kP2pEnvelopeHeaderSize
     then Throw (Runtime_error ''truncated P2P envelope header'')
     else if take (length kP2pMagic) bytes \<noteq> kP2pMagic
     then Throw (Runtime_error ''invalid P2P envelope magic'')
     else
       let ver = bytes ! 4 in
       if ver \<noteq> kP2pProtocolVersion
       then Throw (Runtime_error ''unsupported P2P protocol version'')
       else
         let type_value = bytes ! 5 in
         if \<not> p2p_message_type_supported type_value
         then Throw (Runtime_error ''unsupported P2P message type'')
         else bindE (p2p_read_u16_be bytes 6) (\<lambda>flags.
           if flags \<noteq> 0 then Throw (Runtime_error ''unsupported P2P envelope flags'')
           else bindE (p2p_read_u32_be bytes 8) (\<lambda>payload_size.
             if unat payload_size > kP2pMaxPayloadSize
             then Throw (Runtime_error ''P2P payload exceeds maximum size'')
             else
               let expected_size = kP2pEnvelopeHeaderSize + unat payload_size in
               if length bytes \<noteq> expected_size
               then Throw (Runtime_error
                 (if length bytes < expected_size then ''truncated P2P envelope payload''
                  else ''trailing bytes after P2P envelope''))
               else Ok \<lparr>env_version = ver, env_type = message_type_of type_value,
                 env_flags = flags, env_payload = drop kP2pEnvelopeHeaderSize bytes\<rparr>)))"

section \<open>Handshakes\<close>

definition serialize_p2p_handshake_payload :: "p2p_handshake \<Rightarrow> u8 list result" where
  "serialize_p2p_handshake_payload h =
    bindE (require_valid_handshake h) (\<lambda>_.
    bindE (resolved_p2p_sidechain_id h) (\<lambda>effective_sidechain_id.
      let out = [p2p_network_byte (hs_network h)] @ bytes_of effective_sidechain_id @
        bytes_of (hs_node_id h) @ append_u64_be (hs_capabilities h) @
        append_u16_be (hs_listen_port h) @ bytes_of (hs_best_share_id h) @
        append_u64_be (hs_best_share_height h)
      in if length out \<noteq> kP2pHandshakePayloadSize
         then Throw (Runtime_error ''internal P2P handshake size mismatch'')
         else Ok out))"

definition deserialize_p2p_handshake_payload :: "u8 list \<Rightarrow> p2p_handshake result" where
  "deserialize_p2p_handshake_payload bytes =
    (if length bytes \<noteq> kP2pHandshakePayloadSize
     then Throw (Runtime_error ''invalid P2P handshake payload size'')
     else if \<not> is_supported_network (bytes ! 0)
     then Throw (Runtime_error ''unsupported P2P network'')
     else
       let sidechain = array_of (slice 1 32 bytes) in
       if is_zero_sidechain_id sidechain
       then Throw (Runtime_error ''P2P sidechain id must be non-zero'')
       else
         bindE (p2p_read_u64_be bytes 65) (\<lambda>capabilities.
         bindE (p2p_read_u16_be bytes 73) (\<lambda>port.
         bindE (p2p_read_u64_be bytes 107) (\<lambda>height.
           let h = \<lparr>hs_network = p2p_network_of (bytes ! 0), hs_node_id = array_of (slice 33 32 bytes),
             hs_capabilities = capabilities, hs_listen_port = port,
             hs_best_share_id = array_of (slice 75 32 bytes), hs_best_share_height = height,
             hs_sidechain_id = sidechain\<rparr>
           in bindE (require_valid_handshake h) (\<lambda>_. Ok h)))))"

definition make_p2p_handshake_envelope :: "p2p_handshake \<Rightarrow> p2p_envelope result" where
  "make_p2p_handshake_envelope h =
    bindE (serialize_p2p_handshake_payload h) (\<lambda>payload. Ok (default_envelope Handshake payload))"

definition parse_p2p_handshake_envelope :: "p2p_envelope \<Rightarrow> p2p_handshake result" where
  "parse_p2p_handshake_envelope envelope =
    (if env_version envelope \<noteq> kP2pProtocolVersion
     then Throw (Runtime_error ''unsupported P2P protocol version'')
     else if env_type envelope \<noteq> Handshake
     then Throw (Runtime_error ''P2P envelope is not a handshake'')
     else if env_flags envelope \<noteq> 0
     then Throw (Runtime_error ''unsupported P2P envelope flags'')
     else deserialize_p2p_handshake_payload (env_payload envelope))"

definition validate_p2p_handshake ::
  "p2p_handshake \<Rightarrow> p2p_network \<Rightarrow> hash256 \<Rightarrow> node_id \<Rightarrow> p2p_handshake_status"
where
  "validate_p2p_handshake peer expected_network expected_sidechain_id local_node_id =
    (if hs_network peer \<noteq> expected_network then Wrong_network
     else if hs_sidechain_id peer \<noteq> expected_sidechain_id then Wrong_sidechain
     else if hs_node_id peer = local_node_id then Self_connection
     else Accept)"

definition validate_p2p_handshake_canonical ::
  "p2p_handshake \<Rightarrow> p2p_network \<Rightarrow> node_id \<Rightarrow> p2p_handshake_status result"
where
  "validate_p2p_handshake_canonical peer expected_network local_node_id =
    bindE (canonical_p2p_sidechain_id expected_network) (\<lambda>expected.
      Ok (validate_p2p_handshake peer expected_network expected local_node_id))"

section \<open>Laws of the fields\<close>

lemma slice_nth: "offset + n \<le> length bytes \<Longrightarrow> slice offset n bytes = map (\<lambda>i. bytes ! (offset + i)) [0..<n]"
  by (rule nth_equalityI) (simp_all add: slice_def)

lemma p2p_read_ok:
  "offset + 2 \<le> length bytes \<Longrightarrow> p2p_read_u16_be bytes offset = Ok (foldl shift_in 0 (slice offset 2 bytes))"
  "offset + 4 \<le> length bytes \<Longrightarrow> p2p_read_u32_be bytes offset = Ok (foldl shift_in 0 (slice offset 4 bytes))"
  "offset + 8 \<le> length bytes \<Longrightarrow> p2p_read_u64_be bytes offset = Ok (foldl shift_in 0 (slice offset 8 bytes))"
proof -
  have u: "[0..<2] = [0, 1]" "[0..<4] = [0, 1, 2, 3]"
    by (simp_all add: upt_conv_Cons)
  show "p2p_read_u16_be bytes offset = Ok (foldl shift_in 0 (slice offset 2 bytes))"
    if "offset + 2 \<le> length bytes"
    using that by (simp add: p2p_read_u16_be_def slice_nth u shift_in_def)
  show "p2p_read_u32_be bytes offset = Ok (foldl shift_in 0 (slice offset 4 bytes))"
    if "offset + 4 \<le> length bytes"
    using that by (simp add: p2p_read_u32_be_def slice_nth u shift_in_def push_bit_or or.assoc)
  show "p2p_read_u64_be bytes offset = Ok (foldl shift_in 0 (slice offset 8 bytes))"
    if "offset + 8 \<le> length bytes"
    using that by (simp add: p2p_read_u64_be_def)
qed

lemma message_type_byte_supported [simp]: "p2p_message_type_supported (message_type_byte t)"
  by (cases t) (simp_all only: p2p_message_type_supported_def simp_thms)

lemma message_type_of_byte [simp]: "message_type_of (message_type_byte t) = t"
  by (cases t) (simp_all add: message_type_of_def)

lemma message_type_byte_of [simp]:
  "p2p_message_type_supported b \<Longrightarrow> message_type_byte (message_type_of b) = b"
  unfolding p2p_message_type_supported_def by (elim disjE) (simp_all only: message_type_of_byte)

lemma p2p_network_byte_supported [simp]: "is_supported_network (p2p_network_byte n)"
  by (cases n) (simp_all only: is_supported_network_def simp_thms)

lemma p2p_network_of_byte [simp]: "p2p_network_of (p2p_network_byte n) = n"
  by (cases n) (simp_all add: p2p_network_of_def)

lemma p2p_network_byte_of [simp]:
  "is_supported_network b \<Longrightarrow> p2p_network_byte (p2p_network_of b) = b"
  unfolding is_supported_network_def by (elim disjE) (simp_all only: p2p_network_of_byte)

lemma length_kP2pMagic [simp]: "length kP2pMagic = 4"
  by (simp add: kP2pMagic_def)

lemma is_zero_node_id_iff [simp]: "is_zero_node_id i \<longleftrightarrow> i = 0"
  by (simp add: is_zero_node_id_def list_all_zero_iff)

section \<open>Envelopes are canonical\<close>

text \<open>The envelopes that the protocol can send.\<close>

definition valid_envelope :: "p2p_envelope \<Rightarrow> bool" where
  "valid_envelope e \<longleftrightarrow>
    env_version e = kP2pProtocolVersion \<and> env_flags e = 0 \<and>
    length (env_payload e) \<le> kP2pMaxPayloadSize"

definition envelope_bytes :: "p2p_envelope \<Rightarrow> u8 list" where
  "envelope_bytes e =
    kP2pMagic @ [env_version e, message_type_byte (env_type e)] @ append_u16_be (env_flags e) @
    append_u32_be (word_of_nat (length (env_payload e))) @ env_payload e"

lemma serialize_envelope_eq_Ok:
  "serialize_p2p_envelope e = Ok bs \<longleftrightarrow> valid_envelope e \<and> bs = envelope_bytes e"
  by (auto simp: serialize_p2p_envelope_def valid_envelope_def envelope_bytes_def)

lemma length_envelope_bytes: "length (envelope_bytes e) = 12 + length (env_payload e)"
  by (simp add: envelope_bytes_def kP2pMagic_def)

lemma deserialize_envelope_bytes:
  assumes "valid_envelope e"
  shows "deserialize_p2p_envelope (envelope_bytes e) = Ok e"
proof -
  have n: "unat (word_of_nat (length (env_payload e)) :: u32) = length (env_payload e)"
    using assms by (simp add: valid_envelope_def kP2pMaxPayloadSize_def unat_of_nat)
  have f: "slice 6 2 (envelope_bytes e) = append_u16_be (env_flags e)"
    "slice 8 4 (envelope_bytes e) = append_u32_be (word_of_nat (length (env_payload e)))"
    "take 4 (envelope_bytes e) = kP2pMagic"
    "drop 12 (envelope_bytes e) = env_payload e"
    "envelope_bytes e ! 4 = env_version e"
    "envelope_bytes e ! 5 = message_type_byte (env_type e)"
    by (simp_all add: slice_def envelope_bytes_def kP2pMagic_def)
  show ?thesis
    using assms
    by (simp add: deserialize_p2p_envelope_def p2p_read_ok length_envelope_bytes f n
        kP2pEnvelopeHeaderSize_def valid_envelope_def)
qed

lemma envelope_bytes_deserialize:
  assumes "deserialize_p2p_envelope bs = Ok e"
  shows "valid_envelope e" "bs = envelope_bytes e"
proof -
  have len: "12 \<le> length bs" and magic: "take 4 bs = kP2pMagic"
    using assms by (auto simp: deserialize_p2p_envelope_def kP2pEnvelopeHeaderSize_def split: if_splits)
  let ?n = "foldl shift_in 0 (slice 8 4 bs) :: u32"
  have e: "e = \<lparr>env_version = bs ! 4, env_type = message_type_of (bs ! 5), env_flags = 0,
      env_payload = drop 12 bs\<rparr>"
    and c: "bs ! 4 = kP2pProtocolVersion" "p2p_message_type_supported (bs ! 5)"
      "foldl shift_in (0 :: u16) (slice 6 2 bs) = 0" "unat ?n \<le> kP2pMaxPayloadSize"
      "length bs = 12 + unat ?n"
    using assms len
    by (auto simp: deserialize_p2p_envelope_def p2p_read_ok kP2pEnvelopeHeaderSize_def Let_def
        split: if_splits)
  show "valid_envelope e"
    using e c by (simp add: valid_envelope_def)
  have flags: "append_u16_be 0 = slice 6 2 bs"
    using append_foldl_be(1) [of "slice 6 2 bs"] c(3) len by simp
  have size: "append_u32_be (word_of_nat (length bs - 12)) = slice 8 4 bs"
    using append_foldl_be(2) [of "slice 8 4 bs"] c(5) len by simp
  have "bs = take 4 bs @ [bs ! 4, bs ! 5] @ slice 6 2 bs @ slice 8 4 bs @ drop 12 bs"
    using len by (simp add: slice_def take_drop_join nth_drop_join)
  then show "bs = envelope_bytes e"
    unfolding envelope_bytes_def using c e flags size magic by simp
qed

interpretation envelope_codec: canonical_codec serialize_p2p_envelope deserialize_p2p_envelope
proof
  fix e bs
  show "deserialize_p2p_envelope bs = Ok e" if "serialize_p2p_envelope e = Ok bs"
    using that by (auto simp: serialize_envelope_eq_Ok deserialize_envelope_bytes)
  show "serialize_p2p_envelope e = Ok bs" if "deserialize_p2p_envelope bs = Ok e"
    using envelope_bytes_deserialize [OF that] by (simp add: serialize_envelope_eq_Ok)
qed

section \<open>Message kinds\<close>

text \<open>The contract of a message kind: \<open>make\<close> and \<open>parse\<close> invert each other on the messages in
  \<open>dom\<close>, \<open>parse\<close> returns only such messages, and what \<open>make\<close> returns has the kind's type and
  can be framed. \<open>send\<close> and \<open>receive\<close> add the framing.\<close>

locale p2p_message =
  fixes kind :: p2p_message_type
    and dom :: "'a \<Rightarrow> bool"
    and make :: "'a \<Rightarrow> p2p_envelope result"
    and parse :: "p2p_envelope \<Rightarrow> 'a result"
  assumes parse_make: "dom x \<Longrightarrow> make x = Ok e \<Longrightarrow> parse e = Ok x"
    and make_parse: "parse e = Ok x \<Longrightarrow> dom x \<and> make x = Ok e"
    and make_valid: "make x = Ok e \<Longrightarrow> valid_envelope e \<and> env_type e = kind"
begin

lemma parse_iff_make: "parse e = Ok x \<longleftrightarrow> dom x \<and> make x = Ok e"
  using parse_make make_parse by blast

lemma parse_kind: "parse e = Ok x \<Longrightarrow> valid_envelope e \<and> env_type e = kind"
  using make_parse make_valid by blast

lemma wire_iff:
  "bindE (deserialize_p2p_envelope bs) parse = Ok x \<longleftrightarrow>
    dom x \<and> bindE (make x) serialize_p2p_envelope = Ok bs"
  unfolding bindE_eq_Ok envelope_codec.dec_iff_enc parse_iff_make by blast

lemma wire_kind: "bindE (deserialize_p2p_envelope bs) parse = Ok x \<Longrightarrow> bs ! 5 = message_type_byte kind"
  by (auto simp: bindE_eq_Ok envelope_bytes_def kP2pMagic_def
      dest!: envelope_bytes_deserialize parse_kind)

end

lemma valid_default_envelope [simp]:
  "valid_envelope (default_envelope t payload) \<longleftrightarrow> length payload \<le> kP2pMaxPayloadSize"
  "env_type (default_envelope t payload) = t" "env_payload (default_envelope t payload) = payload"
  "env_version (default_envelope t payload) = kP2pProtocolVersion"
  "env_flags (default_envelope t payload) = 0"
  by (simp_all add: valid_envelope_def default_envelope_def)

lemma default_envelope_eq:
  "e = default_envelope t payload \<longleftrightarrow>
    env_version e = kP2pProtocolVersion \<and> env_type e = t \<and> env_flags e = 0 \<and> env_payload e = payload"
  by (cases e) (auto simp: default_envelope_def)

section \<open>The handshake as a message kind\<close>

definition valid_handshake :: "p2p_handshake \<Rightarrow> bool" where
  "valid_handshake h \<longleftrightarrow>
    hs_node_id h \<noteq> 0 \<and> (hs_best_share_id h = 0 \<longrightarrow> hs_best_share_height h = 0)"

lemma require_valid_handshake_eq_Ok [simp]:
  "require_valid_handshake h = Ok u \<longleftrightarrow> valid_handshake h"
  by (auto simp: require_valid_handshake_def valid_handshake_def)

definition handshake_bytes :: "hash256 \<Rightarrow> p2p_handshake \<Rightarrow> u8 list" where
  "handshake_bytes sid h =
    [p2p_network_byte (hs_network h)] @ bytes_of sid @ bytes_of (hs_node_id h) @
    append_u64_be (hs_capabilities h) @ append_u16_be (hs_listen_port h) @
    bytes_of (hs_best_share_id h) @ append_u64_be (hs_best_share_height h)"

lemma length_handshake_bytes [simp]: "length (handshake_bytes sid h) = 115"
  by (simp add: handshake_bytes_def)

lemma serialize_handshake_eq_Ok:
  "serialize_p2p_handshake_payload h = Ok bs \<longleftrightarrow>
    valid_handshake h \<and> (\<exists>sid. resolved_p2p_sidechain_id h = Ok sid \<and> bs = handshake_bytes sid h)"
  using length_handshake_bytes [of _ h]
  by (auto simp: serialize_p2p_handshake_payload_def bindE_eq_Ok Let_def handshake_bytes_def
      kP2pHandshakePayloadSize_def)

lemma deserialize_handshake_bytes:
  assumes "valid_handshake h" "sid \<noteq> 0"
  shows "deserialize_p2p_handshake_payload (handshake_bytes sid h) = Ok (h\<lparr>hs_sidechain_id := sid\<rparr>)"
proof -
  have f: "slice (Suc 0) 32 (handshake_bytes sid h) = bytes_of sid"
    "slice 33 32 (handshake_bytes sid h) = bytes_of (hs_node_id h)"
    "slice 65 8 (handshake_bytes sid h) = append_u64_be (hs_capabilities h)"
    "slice 73 2 (handshake_bytes sid h) = append_u16_be (hs_listen_port h)"
    "slice 75 32 (handshake_bytes sid h) = bytes_of (hs_best_share_id h)"
    "slice 107 8 (handshake_bytes sid h) = append_u64_be (hs_best_share_height h)"
    "handshake_bytes sid h ! 0 = p2p_network_byte (hs_network h)"
    by (simp_all add: slice_def handshake_bytes_def)
  have "require_valid_handshake (h\<lparr>hs_sidechain_id := sid\<rparr>) = Ok ()"
    using assms by (simp add: valid_handshake_def)
  moreover have "h\<lparr>hs_sidechain_id := sid\<rparr> = \<lparr>hs_network = hs_network h, hs_node_id = hs_node_id h,
      hs_capabilities = hs_capabilities h, hs_listen_port = hs_listen_port h,
      hs_best_share_id = hs_best_share_id h, hs_best_share_height = hs_best_share_height h,
      hs_sidechain_id = sid\<rparr>"
    by (cases h) simp
  ultimately show ?thesis
    using assms(2)
    by (simp add: deserialize_p2p_handshake_payload_def p2p_read_ok f kP2pHandshakePayloadSize_def
        Let_def bindE_eq_Ok)
qed

lemma handshake_bytes_deserialize:
  assumes "deserialize_p2p_handshake_payload bs = Ok h"
  shows "valid_handshake h" "hs_sidechain_id h \<noteq> 0" "bs = handshake_bytes (hs_sidechain_id h) h"
proof -
  have len: "length bs = 115"
    using assms by (auto simp: deserialize_p2p_handshake_payload_def kP2pHandshakePayloadSize_def
        split: if_splits)
  have h: "h = \<lparr>hs_network = p2p_network_of (bs ! 0), hs_node_id = array_of (slice 33 32 bs),
      hs_capabilities = foldl shift_in 0 (slice 65 8 bs),
      hs_listen_port = foldl shift_in 0 (slice 73 2 bs),
      hs_best_share_id = array_of (slice 75 32 bs),
      hs_best_share_height = foldl shift_in 0 (slice 107 8 bs),
      hs_sidechain_id = array_of (slice 1 32 bs)\<rparr>"
    and c: "is_supported_network (bs ! 0)" "array_of (slice 1 32 bs) \<noteq> (0 :: hash256)" "valid_handshake h"
    using assms len
    by (auto simp: deserialize_p2p_handshake_payload_def p2p_read_ok Let_def bindE_eq_Ok
        kP2pHandshakePayloadSize_def split: if_splits)
  show "valid_handshake h" "hs_sidechain_id h \<noteq> 0"
    using c h by simp_all
  have "bs = [bs ! 0] @ slice 1 32 bs @ slice 33 32 bs @ slice 65 8 bs @ slice 73 2 bs @
      slice 75 32 bs @ slice 107 8 bs"
    using len nth_drop_join [of 0 bs 1] by (simp add: slice_def take_drop_join)
  then show "bs = handshake_bytes (hs_sidechain_id h) h"
    unfolding handshake_bytes_def using h c len by (simp add: append_foldl_be)
qed

lemma parse_handshake_eq_Ok:
  "parse_p2p_handshake_envelope e = Ok h \<longleftrightarrow>
    (\<exists>payload. e = default_envelope Handshake payload \<and> deserialize_p2p_handshake_payload payload = Ok h)"
  by (auto simp: parse_p2p_handshake_envelope_def default_envelope_eq)

lemma make_handshake_eq_Ok:
  "make_p2p_handshake_envelope h = Ok e \<longleftrightarrow>
    valid_handshake h \<and> (\<exists>sid. resolved_p2p_sidechain_id h = Ok sid \<and>
      e = default_envelope Handshake (handshake_bytes sid h))"
  by (auto simp: make_p2p_handshake_envelope_def bindE_eq_Ok serialize_handshake_eq_Ok)

interpretation handshake_message: p2p_message Handshake "\<lambda>h. hs_sidechain_id h \<noteq> 0"
  make_p2p_handshake_envelope parse_p2p_handshake_envelope
proof
  fix h e
  show "parse_p2p_handshake_envelope e = Ok h"
    if "hs_sidechain_id h \<noteq> 0" "make_p2p_handshake_envelope h = Ok e"
    using that by (auto simp: make_handshake_eq_Ok parse_handshake_eq_Ok
        resolved_p2p_sidechain_id_def deserialize_handshake_bytes)
  show "hs_sidechain_id h \<noteq> 0 \<and> make_p2p_handshake_envelope h = Ok e"
    if "parse_p2p_handshake_envelope e = Ok h"
    using that by (auto simp: make_handshake_eq_Ok parse_handshake_eq_Ok
        resolved_p2p_sidechain_id_def dest: handshake_bytes_deserialize)
  show "valid_envelope e \<and> env_type e = Handshake" if "make_p2p_handshake_envelope h = Ok e"
    using that by (auto simp: make_handshake_eq_Ok kP2pMaxPayloadSize_def)
qed

end
