(* ===== verification/Work_Registry.thy ===== *)
theory Work_Registry
  imports Chain_Machine P2p_Protocol
begin

text \<open>
  \<open>P2pTrustedWorkRegistry\<close> of \<open>src/src/p2p_share.cpp\<close>: the work contexts that this node has
  derived itself, keyed by Zano height, mining header and sidechain parent. The \<open>std::map\<close> is a
  finite map traversed in the order of its keys. The locale \<open>work_registry\<close> is what the share
  receiver relies on.
\<close>

section \<open>Data\<close>

type_synonym work_key = "u64 \<times> hash256 \<times> share_id"

record registry_entry =
  entry_context :: share_work_context
  entry_zano_parent_hash :: "hash256 option"

type_synonym registry = "(work_key, registry_entry) fmap"

section \<open>Operations\<close>

definition context_key :: "share_work_context \<Rightarrow> share_id \<Rightarrow> work_key" where
  "context_key ctx parent = (ctx_zano_height ctx, ctx_mining_header_hash ctx, parent)"

definition remember_at_parent ::
  "registry \<Rightarrow> share_work_context \<Rightarrow> share_id \<Rightarrow> registry result"
where
  "remember_at_parent contexts ctx parent =
    (if difficulty128_is_zero (ctx_network_difficulty ctx)
     then Throw (Runtime_error ''trusted P2P work context has zero network difficulty'')
     else case fmlookup contexts (context_key ctx parent) of
       Some entry \<Rightarrow>
         if ctx_network_difficulty (entry_context entry) \<noteq> ctx_network_difficulty ctx
         then Throw (Runtime_error ''conflicting trusted P2P work context'')
         else Ok contexts
     | None \<Rightarrow> Ok (fmupd (context_key ctx parent)
         \<lparr>entry_context = ctx, entry_zano_parent_hash = None\<rparr> contexts))"

definition remember :: "registry \<Rightarrow> share_work_context \<Rightarrow> registry result" where
  "remember contexts ctx = remember_at_parent contexts ctx 0"

definition remember_with_provenance ::
  "registry \<Rightarrow> share_work_context \<Rightarrow> share_id \<Rightarrow> hash256 \<Rightarrow> registry result"
where
  "remember_with_provenance contexts ctx parent zano_parent =
    (if difficulty128_is_zero (ctx_network_difficulty ctx)
     then Throw (Runtime_error ''trusted P2P work context has zero network difficulty'')
     else case fmlookup contexts (context_key ctx parent) of
       Some entry \<Rightarrow>
         if ctx_network_difficulty (entry_context entry) \<noteq> ctx_network_difficulty ctx
         then Throw (Runtime_error ''conflicting trusted P2P work context'')
         else if entry_zano_parent_hash entry \<noteq> None \<and>
           the (entry_zano_parent_hash entry) \<noteq> zano_parent
         then Throw (Runtime_error ''conflicting trusted P2P Zano parent provenance'')
         else Ok (fmupd (context_key ctx parent)
           (entry\<lparr>entry_zano_parent_hash := Some zano_parent\<rparr>) contexts)
     | None \<Rightarrow> Ok (fmupd (context_key ctx parent)
         \<lparr>entry_context = ctx, entry_zano_parent_hash = Some zano_parent\<rparr> contexts))"

definition registry_find ::
  "registry \<Rightarrow> u64 \<Rightarrow> hash256 \<Rightarrow> share_id \<Rightarrow> share_work_context option"
where
  "registry_find contexts height header parent =
    (case fmlookup contexts (height, header, parent) of
      None \<Rightarrow> None
    | Some entry \<Rightarrow> Some (entry_context entry))"

definition registry_find_root :: "registry \<Rightarrow> u64 \<Rightarrow> hash256 \<Rightarrow> share_work_context option" where
  "registry_find_root contexts height header = registry_find contexts height header 0"

text \<open>The loop that all three erasures have: walk the map in key order, drop an entry unless it is
  to be kept, count the dropped ones.\<close>

definition erase_step ::
  "(work_key \<Rightarrow> registry_entry \<Rightarrow> bool) \<Rightarrow> work_key \<times> registry_entry \<Rightarrow> registry \<times> nat \<Rightarrow> registry \<times> nat"
where
  "erase_step keep item st =
    (if keep (fst item) (snd item) then st else (fmdrop (fst item) (fst st), Suc (snd st)))"

definition erase_loop :: "(work_key \<Rightarrow> registry_entry \<Rightarrow> bool) \<Rightarrow> registry \<Rightarrow> registry \<times> nat" where
  "erase_loop keep contexts = fold (erase_step keep) (sorted_list_of_fmap contexts) (contexts, 0)"

definition erase_zano_height :: "registry \<Rightarrow> u64 \<Rightarrow> registry \<times> nat" where
  "erase_zano_height contexts height = erase_loop (\<lambda>key entry. fst key \<noteq> height) contexts"

definition erase_zano_heights_above :: "registry \<Rightarrow> u64 \<Rightarrow> registry \<times> nat" where
  "erase_zano_heights_above contexts maximum = erase_loop (\<lambda>key entry. fst key \<le> maximum) contexts"

definition erase_zano_parent_mismatch :: "registry \<Rightarrow> u64 \<Rightarrow> hash256 \<Rightarrow> registry \<times> nat" where
  "erase_zano_parent_mismatch contexts height canonical =
    erase_loop (\<lambda>key entry. fst key \<noteq> height \<or> entry_zano_parent_hash entry = None \<or>
      the (entry_zano_parent_hash entry) = canonical) contexts"

definition provenance_step :: "work_key \<times> registry_entry \<Rightarrow> u64 list \<Rightarrow> u64 list" where
  "provenance_step item heights =
    (if entry_zano_parent_hash (snd item) = None then heights
     else
       let height = fst (fst item) in
       if heights = [] \<or> last heights \<noteq> height then heights @ [height] else heights)"

definition provenance_zano_heights :: "registry \<Rightarrow> u64 list" where
  "provenance_zano_heights contexts = fold provenance_step (sorted_list_of_fmap contexts) []"

definition find_zano_parent_hash ::
  "registry \<Rightarrow> u64 \<Rightarrow> hash256 \<Rightarrow> share_id \<Rightarrow> hash256 option"
where
  "find_zano_parent_hash contexts height header parent =
    (case fmlookup contexts (height, header, parent) of
      None \<Rightarrow> None
    | Some entry \<Rightarrow> entry_zano_parent_hash entry)"

definition registry_size :: "registry \<Rightarrow> nat" where
  "registry_size contexts = fcard (fmdom contexts)"

section \<open>Erasures\<close>

text \<open>The loop keeps exactly the entries to be kept.\<close>

lemma erase_fold:
  assumes "distinct (map fst items)"
  shows "fold (erase_step keep) items (m, n) =
    (fmfilter (\<lambda>k. \<forall>e. (k, e) \<in> set items \<longrightarrow> keep k e) m,
     n + length (filter (\<lambda>(k, e). \<not> keep k e) items))"
  using assms
proof (induction items arbitrary: m n)
  case (Cons item items)
  obtain k e where item: "item = (k, e)" by fastforce
  have only: "(k, e') \<in> set (item # items) \<longleftrightarrow> e' = e" for e'
    using Cons.prems by (force simp: item)
  have step: "erase_step keep item (m, n) =
      (if keep k e then m else fmdrop k m, n + (if keep k e then 0 else 1))"
    by (simp add: item erase_step_def)
  have "fmfilter (\<lambda>k'. \<forall>e'. (k', e') \<in> set items \<longrightarrow> keep k' e') (if keep k e then m else fmdrop k m) =
      fmfilter (\<lambda>k'. \<forall>e'. (k', e') \<in> set (item # items) \<longrightarrow> keep k' e') m"
    using only by (intro fmap_ext) (auto simp: item)
  then show ?case
    unfolding fold_Cons comp_apply step using Cons by (simp add: item del: list.set)
qed (auto intro!: fmap_ext)

lemma erase_loop_lookup:
  "fmlookup (fst (erase_loop keep m)) k =
    (case fmlookup m k of Some e \<Rightarrow> if keep k e then Some e else None | None \<Rightarrow> None)"
  by (auto simp: erase_loop_def erase_fold split: option.split)

lemma fcard_eq_length: "fcard (fmdom m) = length (sorted_list_of_fmap m)"
proof -
  have "length (sorted_list_of_fmap m) = card (fset (fmdom m))"
    by (simp add: sorted_list_of_fmap_def sorted_list_of_fset_alt)
  then show ?thesis by (simp add: fcard.rep_eq)
qed

lemma erase_loop_count:
  "snd (erase_loop keep m) + registry_size (fst (erase_loop keep m)) = registry_size m"
proof -
  let ?xs = "sorted_list_of_fmap m" and ?m = "fst (erase_loop keep m)"
  have "card (fset (fmdom ?m)) = card (fst ` set (filter (\<lambda>(k, e). keep k e) ?xs))"
  proof (rule arg_cong [where f = card], rule set_eqI)
    fix k
    have "k \<in> fset (fmdom ?m) \<longleftrightarrow> (\<exists>e. fmlookup m k = Some e \<and> keep k e)"
      by (auto simp: fmlookup_dom_iff erase_loop_lookup split: option.splits if_splits)
    also have "\<dots> \<longleftrightarrow> k \<in> fst ` set (filter (\<lambda>(k, e). keep k e) ?xs)"
      by force
    finally show "k \<in> fset (fmdom ?m) \<longleftrightarrow> k \<in> fst ` set (filter (\<lambda>(k, e). keep k e) ?xs)" .
  qed
  also have "\<dots> = length (filter (\<lambda>(k, e). keep k e) ?xs)"
    by (subst list.set_map [symmetric], subst distinct_card)
      (simp_all add: distinct_map_filter)
  finally have "registry_size ?m = length (filter (\<lambda>(k, e). keep k e) ?xs)"
    by (simp add: registry_size_def fcard.rep_eq)
  moreover have "snd (erase_loop keep m) = length (filter (\<lambda>(k, e). \<not> keep k e) ?xs)"
    by (simp add: erase_loop_def erase_fold)
  moreover have "length (filter (\<lambda>(k, e). \<not> keep k e) ?xs) + length (filter (\<lambda>(k, e). keep k e) ?xs) =
      length ?xs"
    using sum_length_filter_compl [of "\<lambda>(k, e). keep k e" ?xs]
    by (simp add: case_prod_unfold add.commute)
  ultimately show ?thesis
    by (simp add: registry_size_def fcard_eq_length)
qed

text \<open>Revocation is exact. Each erasure drops exactly the entries it names, leaves every other
  entry as it was, and returns the number of dropped entries.\<close>

theorem registry_erasures_exact:
  "fmlookup (fst (erase_zano_height reg height)) (h, hdr, p) =
    (if h = height then None else fmlookup reg (h, hdr, p)) \<and>
   fmlookup (fst (erase_zano_heights_above reg height)) (h, hdr, p) =
    (if height < h then None else fmlookup reg (h, hdr, p)) \<and>
   fmlookup (fst (erase_zano_parent_mismatch reg height canonical)) (h, hdr, p) =
    (if h = height \<and> find_zano_parent_hash reg h hdr p \<notin> {None, Some canonical} then None
     else fmlookup reg (h, hdr, p)) \<and>
   snd (erase_zano_height reg height) + registry_size (fst (erase_zano_height reg height)) =
     registry_size reg \<and>
   snd (erase_zano_heights_above reg height) + registry_size (fst (erase_zano_heights_above reg height)) =
     registry_size reg \<and>
   snd (erase_zano_parent_mismatch reg height canonical) +
     registry_size (fst (erase_zano_parent_mismatch reg height canonical)) = registry_size reg"
  unfolding erase_zano_height_def erase_zano_heights_above_def erase_zano_parent_mismatch_def
  by (intro conjI erase_loop_count)
    (auto simp: erase_loop_lookup find_zano_parent_hash_def split: option.split)

section \<open>Heights with provenance\<close>

lemma provenance_fold:
  assumes "sorted (map (\<lambda>item. fst (fst item)) items)"
  shows "sorted_wrt (<) (fold provenance_step items []) \<and>
    set (fold provenance_step items []) =
      (\<lambda>item. fst (fst item)) ` {item \<in> set items. entry_zano_parent_hash (snd item) \<noteq> None}"
  using assms
proof (induction items rule: rev_induct)
  case (snoc item items)
  let ?hs = "fold provenance_step items []" and ?h = "fst (fst item)"
  have IH: "sorted_wrt (<) ?hs"
    "set ?hs = (\<lambda>item. fst (fst item)) ` {item \<in> set items. entry_zano_parent_hash (snd item) \<noteq> None}"
    and le: "\<forall>x\<in>set items. fst (fst x) \<le> ?h"
    using snoc by (auto simp: sorted_append)
  have low: "?hs = [] \<or> last ?hs \<noteq> ?h \<Longrightarrow> \<forall>x\<in>set ?hs. x < ?h"
  proof (cases ?hs rule: rev_cases)
    case (snoc hs l)
    moreover assume "?hs = [] \<or> last ?hs \<noteq> ?h"
    moreover have "l \<in> set ?hs" using snoc by simp
    then have "l \<le> ?h" unfolding IH(2) using le by blast
    ultimately show ?thesis using IH(1) by (auto simp: sorted_wrt_append)
  qed simp
  have mem: "?hs \<noteq> [] \<Longrightarrow> last ?hs = ?h \<Longrightarrow> ?h \<in> set ?hs"
    by (metis last_in_set)
  show ?case
  proof (cases "entry_zano_parent_hash (snd item) = None \<or> ?hs \<noteq> [] \<and> last ?hs = ?h")
    case True
    then have "fold provenance_step (items @ [item]) [] = ?hs"
      by (auto simp: provenance_step_def Let_def)
    with IH mem True show ?thesis by auto
  next
    case False
    then have "fold provenance_step (items @ [item]) [] = ?hs @ [?h]"
      by (auto simp: provenance_step_def Let_def)
    with IH low False show ?thesis by (auto simp: sorted_wrt_append)
  qed
qed simp

text \<open>The audited heights are sorted, without repetition, and are exactly the Zano heights of
  the entries that carry a canonical parent.\<close>

theorem provenance_zano_heights_spec:
  "sorted_wrt (<) (provenance_zano_heights reg) \<and>
   (h \<in> set (provenance_zano_heights reg) \<longleftrightarrow> (\<exists>hdr p. find_zano_parent_hash reg h hdr p \<noteq> None))"
proof -
  let ?xs = "sorted_list_of_fmap reg"
  have "sorted (map fst ?xs)" by simp
  then have "sorted (map fst (map fst ?xs))"
    unfolding sorted_map [of _ "map fst ?xs"]
    by (rule sorted_wrt_mono_rel [rotated]) (auto simp: less_eq_prod_def)
  then have "sorted (map (\<lambda>item. fst (fst item)) ?xs)"
    by (simp add: comp_def del: map_fst_sorted_list_of_fmap)
  note F = provenance_fold [OF this]
  have "h \<in> set (provenance_zano_heights reg) \<longleftrightarrow>
      (\<exists>hdr p e. fmlookup reg (h, hdr, p) = Some e \<and> entry_zano_parent_hash e \<noteq> None)"
    unfolding provenance_zano_heights_def using F by (auto simp: image_iff)
  also have "\<dots> \<longleftrightarrow> (\<exists>hdr p. find_zano_parent_hash reg h hdr p \<noteq> None)"
    by (intro ex_cong1) (simp add: find_zano_parent_hash_def split: option.split)
  finally show ?thesis using F by (simp add: provenance_zano_heights_def)
qed

section \<open>What the registry promises\<close>

definition registry_inv :: "registry \<Rightarrow> bool" where
  "registry_inv reg \<longleftrightarrow>
    (\<forall>h hdr p e. fmlookup reg (h, hdr, p) = Some e \<longrightarrow>
      ctx_zano_height (entry_context e) = h \<and> ctx_mining_header_hash (entry_context e) = hdr \<and>
      ctx_network_difficulty (entry_context e) \<noteq> 0)"

lemma registry_invD:
  assumes "registry_inv reg" "fmlookup reg k = Some e"
  shows "ctx_zano_height (entry_context e) = fst k" "ctx_mining_header_hash (entry_context e) = fst (snd k)"
    "ctx_network_difficulty (entry_context e) \<noteq> 0"
  using assms by (cases k; auto simp: registry_inv_def)+

lemma registry_inv_empty: "registry_inv fmempty"
  by (simp add: registry_inv_def)

lemma remember_cases:
  assumes "remember_with_provenance reg ctx parent zp = Ok reg' \<or> remember_at_parent reg ctx parent = Ok reg'"
  obtains (known) e q where "fmlookup reg (context_key ctx parent) = Some e"
      "ctx_network_difficulty (entry_context e) = ctx_network_difficulty ctx"
      "ctx_network_difficulty ctx \<noteq> 0"
      "fmlookup reg' = (fmlookup reg)(context_key ctx parent \<mapsto> e\<lparr>entry_zano_parent_hash := q\<rparr>)"
      "entry_zano_parent_hash e \<in> {None, q}"
    | (fresh) q where "fmlookup reg (context_key ctx parent) = None" "ctx_network_difficulty ctx \<noteq> 0"
      "reg' = fmupd (context_key ctx parent) \<lparr>entry_context = ctx, entry_zano_parent_hash = q\<rparr> reg"
proof (cases "fmlookup reg (context_key ctx parent)")
  case None
  with assms show thesis
    by (auto simp: remember_with_provenance_def remember_at_parent_def split: if_splits intro: fresh)
next
  case (Some e)
  have upd: "fmlookup reg = (fmlookup reg)(context_key ctx parent \<mapsto> e\<lparr>entry_zano_parent_hash := entry_zano_parent_hash e\<rparr>)"
    using Some by (simp add: fun_upd_idem)
  from assms show thesis
  proof
    assume "remember_with_provenance reg ctx parent zp = Ok reg'"
    with Some show thesis
      by (auto simp: remember_with_provenance_def split: if_splits intro!: known [of e "Some zp"])
  next
    assume "remember_at_parent reg ctx parent = Ok reg'"
    with Some upd show thesis
      by (intro known [of e "entry_zano_parent_hash e"])
        (auto simp: remember_at_parent_def split: if_splits)
  qed
qed

lemma remember_inv:
  assumes "registry_inv reg"
    "remember_with_provenance reg ctx parent zp = Ok reg' \<or> remember_at_parent reg ctx parent = Ok reg'"
  shows "registry_inv reg'"
  using assms(2)
proof (cases rule: remember_cases)
  case (known e q)
  note e = registry_invD [OF assms(1) known(1)]
  from assms(1) known(4) e show ?thesis
    by (auto simp: registry_inv_def context_key_def)
next
  case (fresh q)
  with assms(1) show ?thesis by (auto simp: registry_inv_def context_key_def)
qed

lemma erase_loop_inv: "registry_inv reg \<Longrightarrow> registry_inv (fst (erase_loop keep reg))"
  by (auto simp: registry_inv_def erase_loop_lookup split: option.splits if_splits)

text \<open>The life of a registry.\<close>

inductive registry_step :: "registry \<Rightarrow> registry \<Rightarrow> bool" where
  step_remember: "remember_at_parent reg ctx parent = Ok reg' \<Longrightarrow> registry_step reg reg'"
| step_provenance: "remember_with_provenance reg ctx parent zp = Ok reg' \<Longrightarrow> registry_step reg reg'"
| step_erase_height: "registry_step reg (fst (erase_zano_height reg h))"
| step_erase_above: "registry_step reg (fst (erase_zano_heights_above reg h))"
| step_erase_mismatch: "registry_step reg (fst (erase_zano_parent_mismatch reg h canonical))"

abbreviation registry_reachable :: "registry \<Rightarrow> bool" where
  "registry_reachable \<equiv> reach (\<lambda>reg. reg = fmempty) registry_step"

lemma registry_step_inv: "registry_inv reg \<Longrightarrow> registry_step reg reg' \<Longrightarrow> registry_inv reg'"
  by (erule registry_step.cases)
    (auto simp: erase_zano_height_def erase_zano_heights_above_def erase_zano_parent_mismatch_def
      intro: remember_inv erase_loop_inv)

interpretation registry_machine: machine_invariant "\<lambda>reg. reg = fmempty" registry_step registry_inv
  by unfold_locales (auto intro: registry_inv_empty registry_step_inv)

text \<open>Trust is never replaced. In every registry the program can reach, an entry is stored under
  the height and header of its own context with a nonzero network difficulty. Remembering a context
  that returns makes it the one found under its key, leaves the context of every other key as it
  was, and never drops or changes a recorded canonical parent.\<close>

theorem registry_trust_stable:
  assumes "registry_reachable reg" "remember_with_provenance reg ctx parent zp = Ok reg'"
  shows "registry_find reg' (ctx_zano_height ctx) (ctx_mining_header_hash ctx) parent = Some ctx \<and>
    ctx_network_difficulty ctx \<noteq> 0 \<and>
    find_zano_parent_hash reg' (ctx_zano_height ctx) (ctx_mining_header_hash ctx) parent = Some zp \<and>
    (\<forall>h hdr p old. registry_find reg h hdr p = Some old \<longrightarrow>
      registry_find reg' h hdr p = Some old \<and> ctx_zano_height old = h \<and> ctx_mining_header_hash old = hdr) \<and>
    (\<forall>h hdr p zp'. find_zano_parent_hash reg h hdr p = Some zp' \<longrightarrow>
      find_zano_parent_hash reg' h hdr p = Some zp')"
proof -
  have inv: "registry_inv reg" using assms(1) by (rule registry_machine.reach_inv)
  have set: "find_zano_parent_hash reg' (ctx_zano_height ctx) (ctx_mining_header_hash ctx) parent = Some zp"
    using assms(2) by (auto simp: remember_with_provenance_def find_zano_parent_hash_def context_key_def
        split: if_splits option.splits)
  from assms(2) have "remember_with_provenance reg ctx parent zp = Ok reg' \<or> remember_at_parent reg ctx parent = Ok reg'"
    by simp
  then have new: "registry_find reg' h hdr p =
      (if (h, hdr, p) = context_key ctx parent then Some ctx else registry_find reg h hdr p) \<and>
    (\<forall>zp'. find_zano_parent_hash reg h hdr p = Some zp' \<longrightarrow> find_zano_parent_hash reg' h hdr p = Some zp') \<and>
    ctx_network_difficulty ctx \<noteq> 0 \<and> registry_find reg (fst (context_key ctx parent))
      (fst (snd (context_key ctx parent))) parent \<in> {None, Some ctx}" for h hdr p
  proof (cases rule: remember_cases)
    case (known e q)
    then have "entry_context e = ctx"
      using registry_invD [OF inv known(1)]
      by (intro share_work_context.equality) (simp_all add: context_key_def)
    with known show ?thesis
      by (cases "(h, hdr, p) = context_key ctx parent")
        (auto simp: registry_find_def find_zano_parent_hash_def context_key_def)
  next
    case (fresh q)
    then show ?thesis
      by (cases "(h, hdr, p) = context_key ctx parent")
        (auto simp: registry_find_def find_zano_parent_hash_def context_key_def)
  qed
  have kept: "registry_find reg' h hdr p = Some old \<and> ctx_zano_height old = h \<and> ctx_mining_header_hash old = hdr"
    if old: "registry_find reg h hdr p = Some old" for h hdr p old
  proof -
    obtain e where e: "fmlookup reg (h, hdr, p) = Some e" "old = entry_context e"
      using old by (auto simp: registry_find_def split: option.splits)
    with registry_invD [OF inv e(1)] old new [of h hdr p] show ?thesis
      by (auto simp: context_key_def split: if_splits)
  qed
  have "registry_find reg' (ctx_zano_height ctx) (ctx_mining_header_hash ctx) parent = Some ctx"
    "ctx_network_difficulty ctx \<noteq> 0"
    using new [of "ctx_zano_height ctx" "ctx_mining_header_hash ctx" parent] by (simp_all add: context_key_def)
  moreover have "find_zano_parent_hash reg' h hdr p = Some zp'"
    if "find_zano_parent_hash reg h hdr p = Some zp'" for h hdr p zp'
    using new [of h hdr p] that by blast
  ultimately show ?thesis using kept set by blast
qed

theorem registry_trust_stable_witness:
  "\<exists>reg'. remember_with_provenance fmempty sample_context 0 sample_id = Ok reg' \<and>
    registry_find reg' 3 0 0 = Some sample_context \<and> find_zano_parent_hash reg' 3 0 0 = Some sample_id"
proof -
  let ?reg = "fmupd (context_key sample_context 0) \<lparr>entry_context = sample_context, entry_zano_parent_hash = Some sample_id\<rparr> fmempty"
  have r: "remember_with_provenance fmempty sample_context 0 sample_id = Ok ?reg"
    by (simp add: remember_with_provenance_def sample_context_def sample_difficulties)
  have "registry_reachable fmempty" by (rule reach_start) simp
  from registry_trust_stable [OF this r] r show ?thesis
    by (auto simp: sample_context_def)
qed

text \<open>The part of this that a reader of the registry needs: what it finds is bound to the key.\<close>

locale work_registry =
  fixes lookup :: "'r \<Rightarrow> u64 \<Rightarrow> hash256 \<Rightarrow> share_id \<Rightarrow> share_work_context option"
    and inv :: "'r \<Rightarrow> bool"
  assumes lookup_bound: "inv r \<Longrightarrow> lookup r h hdr p = Some ctx \<Longrightarrow>
    ctx_zano_height ctx = h \<and> ctx_mining_header_hash ctx = hdr \<and> ctx_network_difficulty ctx \<noteq> 0"
begin

text \<open>A share is checked against the context found for it: only the network difficulty can differ.\<close>

lemma context_check:
  assumes "inv r" "lookup r (zano_height s) (mining_header_hash s) (parent_id s) = Some ctx"
  shows "trusted_context_reject_reason s ctx =
    (if network_difficulty s = ctx_network_difficulty ctx then No_Reason else NetworkDifficultyMismatch)"
  using lookup_bound [OF assms] by (simp add: trusted_context_reject_reason_def)

lemma context_accepted:
  assumes "inv r" "lookup r (zano_height s) (mining_header_hash s) (parent_id s) = Some ctx"
    "trusted_context_reject_reason s ctx = No_Reason"
  shows "ctx = \<lparr>ctx_zano_height = zano_height s, ctx_mining_header_hash = mining_header_hash s,
    ctx_network_difficulty = network_difficulty s\<rparr>"
  using lookup_bound [OF assms(1,2)] context_check [OF assms(1,2)] assms(3)
  by (cases ctx) (simp split: if_splits)

end

interpretation registry: work_registry registry_find registry_inv
  by unfold_locales (auto simp: registry_find_def registry_inv_def split: option.splits)

end
