(* ===== verification/P2p_Share.thy ===== *)
theory P2p_Share
  imports Work_Registry
begin

text \<open>
  \<open>src/src/p2p_share.cpp\<close>: share announcements and \<open>P2pShareReceiver\<close>, the one path by which a
  share of a peer reaches the share chain. The receiver holds references to the chain and to the
  registry of trusted work: the chain is threaded through, the registry is only read.
\<close>

section \<open>Share announcements\<close>

definition make_p2p_share_announce_envelope :: "share \<Rightarrow> p2p_envelope result" where
  "make_p2p_share_announce_envelope s =
    bindE (serialize_share s) (\<lambda>payload. Ok (default_envelope Share_announce payload))"

definition parse_p2p_share_announce_envelope :: "p2p_envelope \<Rightarrow> share result" where
  "parse_p2p_share_announce_envelope envelope =
    (if env_version envelope \<noteq> kP2pProtocolVersion
     then Throw (Runtime_error ''unsupported P2P protocol version'')
     else if env_type envelope \<noteq> Share_announce
     then Throw (Runtime_error ''P2P envelope is not a share announcement'')
     else if env_flags envelope \<noteq> 0
     then Throw (Runtime_error ''unsupported P2P envelope flags'')
     else if length (env_payload envelope) \<noteq> kShareV1SerializedSize \<and>
       length (env_payload envelope) \<noteq> kShareV2SerializedSize
     then Throw (Runtime_error ''invalid P2P share announcement payload size'')
     else deserialize_share (env_payload envelope))"

section \<open>The receiver\<close>

datatype p2p_share_receive_status =
    Receive_connected
  | Receive_orphan
  | Receive_duplicate
  | Receive_rejected
  | Unknown_work_context
  | Capability_missing

record p2p_share_receive_result =
  receive_status :: p2p_share_receive_status
  chain_result :: add_share_result
  missing_parent_id :: "share_id option"

fun receive_status_of :: "share_disposition \<Rightarrow> p2p_share_receive_status" where
  "receive_status_of Connected = Receive_connected"
| "receive_status_of Orphan = Receive_orphan"
| "receive_status_of Duplicate = Receive_duplicate"
| "receive_status_of Rejected = Receive_rejected"

definition receive_share ::
  "progpow_backend option \<Rightarrow> share_chain \<Rightarrow> registry \<Rightarrow> p2p_handshake \<Rightarrow> share \<Rightarrow> u64 \<Rightarrow> u64 \<Rightarrow>
    progpowz_context_mode \<Rightarrow> share_chain \<times> p2p_share_receive_result result"
where
  "receive_share backend chain trusted_work peer s required_capability now mode =
    (case share_id s of
      Inl e \<Rightarrow> (chain, Throw e)
    | Inr i \<Rightarrow>
        let result = (\<lambda>status chain_res. Ok \<lparr>receive_status = status, chain_result = chain_res,
              missing_parent_id = None\<rparr>);
            duplicate = (fresh_result i)\<lparr>disposition := Duplicate\<rparr>
        in if required_capability = 0 \<or>
             hs_capabilities peer AND required_capability \<noteq> required_capability
           then (chain, result Capability_missing (fresh_result i))
           else (case find chain i of
             Some connected_share \<Rightarrow>
               if enforces_sidechain_difficulty chain \<and> \<not> validated_ancestry connected_share
               then (chain, result Unknown_work_context (fresh_result i))
               else (chain, result Receive_duplicate duplicate)
           | None \<Rightarrow>
               if is_orphan chain i then (chain, result Receive_duplicate duplicate)
               else (case registry_find trusted_work (zano_height s) (mining_header_hash s) (parent_id s) of
                 None \<Rightarrow> (chain, result Unknown_work_context (fresh_result i))
               | Some trusted \<Rightarrow>
                   (case submit_share backend chain s trusted now mode of
                     (chain', Inl e) \<Rightarrow> (chain', Throw e)
                   | (chain', Inr res) \<Rightarrow>
                       (chain', Ok \<lparr>receive_status = receive_status_of (disposition res),
                          chain_result = res,
                          missing_parent_id =
                            (if disposition res = Orphan then Some (parent_id s) else None)\<rparr>)))))"

definition receive ::
  "progpow_backend option \<Rightarrow> share_chain \<Rightarrow> registry \<Rightarrow> p2p_handshake \<Rightarrow> p2p_envelope \<Rightarrow> u64 \<Rightarrow>
    progpowz_context_mode \<Rightarrow> share_chain \<times> p2p_share_receive_result result"
where
  "receive backend chain trusted_work peer envelope now mode =
    (case parse_p2p_share_announce_envelope envelope of
      Inl e \<Rightarrow> (chain, Throw e)
    | Inr s \<Rightarrow> receive_share backend chain trusted_work peer s kP2pCapabilityShareGossip now mode)"

definition p2p_share_receive_status_name :: "p2p_share_receive_status \<Rightarrow> string" where
  "p2p_share_receive_status_name status =
    (case status of
      Receive_connected \<Rightarrow> ''connected''
    | Receive_orphan \<Rightarrow> ''orphan''
    | Receive_duplicate \<Rightarrow> ''duplicate''
    | Receive_rejected \<Rightarrow> ''rejected''
    | Unknown_work_context \<Rightarrow> ''unknown-work-context''
    | Capability_missing \<Rightarrow> ''capability-missing'')"

section \<open>Announcements are a message kind\<close>

lemma make_share_announce_eq_Ok:
  "make_p2p_share_announce_envelope s = Ok e \<longleftrightarrow>
    (\<exists>bs. serialize_share s = Ok bs \<and> e = default_envelope Share_announce bs)"
  by (auto simp: make_p2p_share_announce_envelope_def bindE_eq_Ok)

lemma parse_share_announce_eq_Ok:
  "parse_p2p_share_announce_envelope e = Ok s \<longleftrightarrow>
    (\<exists>bs. serialize_share s = Ok bs \<and> e = default_envelope Share_announce bs)"
  using serialize_share_length [of s]
  by (auto simp: parse_p2p_share_announce_envelope_def default_envelope_eq share_codec.dec_iff_enc)

interpretation share_announce_message: p2p_message Share_announce "\<lambda>_. True"
  make_p2p_share_announce_envelope parse_p2p_share_announce_envelope
  by unfold_locales
    (auto simp: make_share_announce_eq_Ok parse_share_announce_eq_Ok share_constants
      kP2pMaxPayloadSize_def dest: serialize_share_length)

section \<open>What the receiver does\<close>

lemma receive_share_cases:
  assumes "receive_share backend chain reg peer s cap now mode = (chain', r)"
  obtains (no_id) e where "share_id s = Throw e" "chain' = chain" "r = Throw e"
    | (unchanged) res where "chain' = chain" "r = Ok res"
        "receive_status res \<in> {Capability_missing, Unknown_work_context, Receive_duplicate}"
        "share_id s = Ok (result_id (chain_result res))"
        "receive_status res = Receive_duplicate \<longleftrightarrow> disposition (chain_result res) = Duplicate"
        "receive_status res = Receive_duplicate \<Longrightarrow> is_known chain (result_id (chain_result res))"
    | (submits) ctx r' where
        "cap \<noteq> 0" "hs_capabilities peer AND cap = cap"
        "registry_find reg (zano_height s) (mining_header_hash s) (parent_id s) = Some ctx"
        "submit_share backend chain s ctx now mode = (chain', r')"
        "r = (case r' of Inl e \<Rightarrow> Throw e | Inr res \<Rightarrow> Ok \<lparr>receive_status = receive_status_of (disposition res),
            chain_result = res,
            missing_parent_id = (if disposition res = Orphan then Some (parent_id s) else None)\<rparr>)"
proof (cases "share_id s")
  case (Inl e)
  with assms show thesis by (intro no_id) (auto simp: receive_share_def)
next
  case id: (Inr i)
  let ?bad = "cap = 0 \<or> hs_capabilities peer AND cap \<noteq> cap"
  consider (early) "?bad \<or> find chain i \<noteq> None \<or> is_orphan chain i \<or>
      registry_find reg (zano_height s) (mining_header_hash s) (parent_id s) = None"
    | (go) ctx where "\<not> ?bad" "find chain i = None" "\<not> is_orphan chain i"
      "registry_find reg (zano_height s) (mining_header_hash s) (parent_id s) = Some ctx"
    by blast
  then show thesis
  proof cases
    case early
    with assms id have "\<exists>res. chain' = chain \<and> r = Ok res \<and>
        receive_status res \<in> {Capability_missing, Unknown_work_context, Receive_duplicate} \<and>
        result_id (chain_result res) = i \<and>
        (receive_status res = Receive_duplicate \<longleftrightarrow> disposition (chain_result res) = Duplicate) \<and>
        (receive_status res = Receive_duplicate \<longrightarrow> is_known chain i)"
      by (auto simp: receive_share_def Let_def fresh_result_def find_def is_orphan_def is_known_def
          fmlookup_dom_iff split: if_splits option.splits)
    with id show thesis using unchanged by blast
  next
    case (go ctx)
    obtain r' where "submit_share backend chain s ctx now mode = (chain', r')"
      "r = (case r' of Inl e \<Rightarrow> Throw e | Inr res \<Rightarrow> Ok \<lparr>receive_status = receive_status_of (disposition res),
            chain_result = res,
            missing_parent_id = (if disposition res = Orphan then Some (parent_id s) else None)\<rparr>)"
      using assms id go by (auto simp: receive_share_def Let_def split: prod.splits sum.splits)
    with go show thesis by (intro submits) auto
  qed
qed

text \<open>Receiving a share is a step of the chain's machine, or none.\<close>

lemma receive_share_step:
  assumes "receive_share backend chain reg peer s cap now mode = (chain', r)" "returned full r"
  shows "chain' = chain \<or> chain_step full backend chain chain'"
  using assms(1)
proof (cases rule: receive_share_cases)
  case (submits ctx r')
  moreover have "returned full r'"
    using assms(2) submits(5) by (auto simp: returned_def split: sum.splits)
  ultimately show ?thesis by (blast intro: chain_step.submit)
qed simp_all

text \<open>C14. A peer's share changes the chain only with authority: the handshake offered the required
  capability, the registry of locally derived work holds a context for exactly this Zano height,
  mining header and sidechain parent, and it is this context against which the share was
  submitted. When the result says connected, the context's network difficulty is the share's, the
  proof of work was computed by this node and meets the share difficulty, and the share is stored.\<close>

theorem receive_share_authorized:
  assumes "chain_reachable full backend chain" "registry_reachable reg"
    and "receive_share backend chain reg peer s cap now mode = (chain', r)"
    and "chain' \<noteq> chain \<or> (\<exists>res. r = Ok res \<and> receive_status res = Receive_connected)"
  shows "cap \<noteq> 0 \<and> hs_capabilities peer AND cap = cap \<and>
    (\<exists>ctx. registry_find reg (zano_height s) (mining_header_hash s) (parent_id s) = Some ctx \<and>
      ctx_zano_height ctx = zano_height s \<and> ctx_mining_header_hash ctx = mining_header_hash s \<and>
      fst (submit_share backend chain s ctx now mode) = chain' \<and>
      (\<forall>res. r = Ok res \<and> receive_status res = Receive_connected \<longrightarrow>
        ctx_network_difficulty ctx = network_difficulty s \<and>
        (\<exists>v cs. submit_pow backend s ctx mode = Ok v \<and> meets_share_difficulty v \<and>
          find chain' (result_id (chain_result res)) = Some cs \<and> cs_share cs = s \<and>
          pow_validation cs = Some v)))"
  using assms(3)
proof (cases rule: receive_share_cases)
  case (submits ctx r')
  have inv: "registry_inv reg" using assms(2) by (rule registry_machine.reach_inv)
  have "ctx_network_difficulty ctx = network_difficulty s \<and>
        (\<exists>v cs. submit_pow backend s ctx mode = Ok v \<and> meets_share_difficulty v \<and>
          find chain' (result_id (chain_result res)) = Some cs \<and> cs_share cs = s \<and>
          pow_validation cs = Some v)"
    if conn: "r = Ok res" "receive_status res = Receive_connected" for res
  proof -
    obtain res' where "r' = Ok res'" "chain_result res = res'" "disposition res' = Connected"
      using conn submits(5) by (cases r'; cases "disposition (projr r')") auto
    moreover note submit_connected_facts [OF assms(1), of s ctx now mode chain' res']
    ultimately show ?thesis
      using submits(4) registry.context_accepted [OF inv submits(3)] by auto
  qed
  with submits registry.lookup_bound [OF inv submits(3)] show ?thesis by auto
qed (use assms(4) in auto)

text \<open>A peer, a registry with the sample work, and the sample share received from the peer.\<close>

definition sample_peer :: p2p_handshake where
  "sample_peer = \<lparr>hs_network = P2p_Testnet, hs_node_id = array_of_nat 1, hs_capabilities = 7,
    hs_listen_port = 0, hs_best_share_id = 0, hs_best_share_height = 0, hs_sidechain_id = array_of_nat 1\<rparr>"

definition sample_registry :: registry where
  "sample_registry = fmupd (3, 0, 0) \<lparr>entry_context = sample_context, entry_zano_parent_hash = None\<rparr> fmempty"

lemma sample_registry_reachable: "registry_reachable sample_registry"
proof (rule reach_step)
  show "registry_reachable fmempty" by (rule reach_start) simp
  show "registry_step fmempty sample_registry"
    by (rule step_remember [of _ sample_context 0])
      (simp add: remember_at_parent_def sample_registry_def context_key_def sample_context_def
        sample_difficulties)
qed

lemma sample_start_reachable: "chain_reachable True backend sample_start"
  using sample_start_ok by (intro reach_start) (auto simp: chain_start_def)

lemma receive_sample:
  assumes "cap \<noteq> 0" "7 AND cap = cap"
  shows "receive_share (Some zero_hash_backend) sample_start sample_registry sample_peer sample_share cap 1000 Light =
    (sample_chain, Ok \<lparr>receive_status = Receive_connected,
      chain_result = \<lparr>disposition = Connected, reject_reason = No_Reason, result_id = sample_id,
        promoted_orphans = 0, best_tip_changed = True\<rparr>, missing_parent_id = None\<rparr>)"
proof -
  have "registry_find sample_registry (zano_height sample_share) (mining_header_hash sample_share)
      (parent_id sample_share) = Some sample_context"
    by (simp add: registry_find_def sample_registry_def sample_share_def)
  moreover have "find sample_start sample_id = None" "\<not> is_orphan sample_start sample_id"
    by (simp_all add: find_def is_orphan_def sample_start_fields)
  moreover have "hs_capabilities sample_peer = 7" by (simp add: sample_peer_def)
  ultimately show ?thesis
    using assms by (simp add: receive_share_def sample_id_ok submit_sample Let_def)
qed

theorem receive_share_authorized_witness:
  "\<exists>ctx v cs. registry_find sample_registry 3 0 0 = Some ctx \<and>
    ctx_network_difficulty ctx = network_difficulty sample_share \<and>
    submit_pow (Some zero_hash_backend) sample_share ctx Light = Ok v \<and> meets_share_difficulty v \<and>
    find sample_chain sample_id = Some cs \<and> pow_validation cs = Some v"
proof -
  have cap: "kP2pCapabilityShareGossip \<noteq> 0" "7 AND kP2pCapabilityShareGossip = kP2pCapabilityShareGossip"
    by (simp_all add: kP2pCapabilityShareGossip_def)
  from receive_share_authorized [OF sample_start_reachable sample_registry_reachable receive_sample [OF cap]]
  show ?thesis by (auto simp: sample_share_def)
qed

end
