(* ===== verification/P2p_Sync.thy ===== *)
theory P2p_Sync
  imports P2p_Share
begin

text \<open>
  \<open>src/src/p2p_sync.cpp\<close> and \<open>src/src/p2p_tip.cpp\<close>: requests for shares by identifier and their
  answers, announcements of the best tip and the plan a node makes when it hears one.
\<close>

section \<open>Share requests and responses\<close>

definition kP2pShareRequestPayloadSize :: nat where
  "kP2pShareRequestPayloadSize = 32"

definition kP2pShareResponseHeaderSize :: nat where
  "kP2pShareResponseHeaderSize = 33"

datatype p2p_share_response_code = Found | Not_found

fun response_code_byte :: "p2p_share_response_code \<Rightarrow> u8" where
  "response_code_byte Found = 1"
| "response_code_byte Not_found = 2"

record p2p_share_response =
  response_code :: p2p_share_response_code
  requested_id :: share_id
  response_share :: "share option"

definition require_envelope_type :: "p2p_envelope \<Rightarrow> p2p_message_type \<Rightarrow> string \<Rightarrow> unit result" where
  "require_envelope_type envelope expected_type message =
    (if env_version envelope \<noteq> kP2pProtocolVersion
     then Throw (Runtime_error ''unsupported P2P protocol version'')
     else if env_type envelope \<noteq> expected_type then Throw (Runtime_error message)
     else if env_flags envelope \<noteq> 0 then Throw (Runtime_error ''unsupported P2P envelope flags'')
     else Ok ())"

definition make_p2p_share_request_envelope :: "share_id \<Rightarrow> p2p_envelope result" where
  "make_p2p_share_request_envelope i =
    (if is_zero_share_id i then Throw (Runtime_error ''cannot request zero P2P share id'')
     else Ok (default_envelope Share_request (bytes_of i)))"

definition parse_p2p_share_request_envelope :: "p2p_envelope \<Rightarrow> share_id result" where
  "parse_p2p_share_request_envelope envelope =
    bindE (require_envelope_type envelope Share_request ''P2P envelope is not a share request'') (\<lambda>_.
      if length (env_payload envelope) \<noteq> kP2pShareRequestPayloadSize
      then Throw (Runtime_error ''invalid P2P share request payload size'')
      else
        let i = array_of (env_payload envelope) in
        if is_zero_share_id i then Throw (Runtime_error ''cannot request zero P2P share id'')
        else Ok i)"

definition make_p2p_share_response_envelope :: "share_id \<Rightarrow> share option \<Rightarrow> p2p_envelope result" where
  "make_p2p_share_response_envelope i share_ptr =
    (if is_zero_share_id i then Throw (Runtime_error ''cannot respond for zero P2P share id'')
     else case share_ptr of
       None \<Rightarrow> Ok (default_envelope Share_response (response_code_byte Not_found # bytes_of i))
     | Some s \<Rightarrow>
         bindE (share_id s) (\<lambda>own.
           if own \<noteq> i then Throw (Runtime_error ''P2P share response does not match requested id'')
           else bindE (serialize_share s) (\<lambda>serialized.
             Ok (default_envelope Share_response
               (response_code_byte Found # bytes_of i @ serialized)))))"

definition parse_p2p_share_response_envelope :: "p2p_envelope \<Rightarrow> p2p_share_response result" where
  "parse_p2p_share_response_envelope envelope =
    bindE (require_envelope_type envelope Share_response ''P2P envelope is not a share response'') (\<lambda>_.
      let payload = env_payload envelope in
      if length payload < kP2pShareResponseHeaderSize
      then Throw (Runtime_error ''truncated P2P share response payload'')
      else
        let code = payload ! 0;
            i = array_of (slice 1 32 payload)
        in if is_zero_share_id i then Throw (Runtime_error ''P2P share response has zero requested id'')
           else if code = response_code_byte Not_found
           then (if length payload \<noteq> kP2pShareResponseHeaderSize
                 then Throw (Runtime_error ''invalid not-found P2P share response size'')
                 else Ok \<lparr>response_code = Not_found, requested_id = i, response_share = None\<rparr>)
           else if code \<noteq> response_code_byte Found
           then Throw (Runtime_error ''unsupported P2P share response status'')
           else
             let serialized_size = length payload - kP2pShareResponseHeaderSize in
             if serialized_size \<noteq> kShareV1SerializedSize \<and> serialized_size \<noteq> kShareV2SerializedSize
             then Throw (Runtime_error ''invalid found P2P share response size'')
             else bindE (deserialize_share (slice kP2pShareResponseHeaderSize serialized_size payload)) (\<lambda>s.
               bindE (share_id s) (\<lambda>own.
                 if own \<noteq> i then Throw (Runtime_error ''P2P share response id mismatch'')
                 else Ok \<lparr>response_code = Found, requested_id = i, response_share = Some s\<rparr>)))"

definition answer_p2p_share_request :: "p2p_handshake \<Rightarrow> p2p_envelope \<Rightarrow> share_chain \<Rightarrow> p2p_envelope result" where
  "answer_p2p_share_request peer request chain =
    (if hs_capabilities peer AND kP2pCapabilityShareSync = 0
     then Throw (Runtime_error ''P2P peer lacks share-sync capability'')
     else bindE (parse_p2p_share_request_envelope request) (\<lambda>i.
       make_p2p_share_response_envelope i
         (case find chain i of None \<Rightarrow> None | Some connected_share \<Rightarrow> Some (cs_share connected_share))))"

datatype p2p_share_sync_receive_status = Share_processed | Sync_not_found | Sync_capability_missing

record p2p_share_sync_receive_result =
  sync_status :: p2p_share_sync_receive_status
  sync_requested_id :: share_id
  share_result :: "p2p_share_receive_result option"

definition receive_p2p_share_response ::
  "progpow_backend option \<Rightarrow> share_chain \<Rightarrow> registry \<Rightarrow> p2p_handshake \<Rightarrow> p2p_envelope \<Rightarrow> u64 \<Rightarrow>
    progpowz_context_mode \<Rightarrow> share_chain \<times> p2p_share_sync_receive_result result"
where
  "receive_p2p_share_response backend chain trusted_work peer envelope now mode =
    (case parse_p2p_share_response_envelope envelope of
      Inl e \<Rightarrow> (chain, Throw e)
    | Inr response \<Rightarrow>
        if hs_capabilities peer AND kP2pCapabilityShareSync = 0
        then (chain, Ok \<lparr>sync_status = Sync_capability_missing,
               sync_requested_id = requested_id response, share_result = None\<rparr>)
        else (case response_share response of
          None \<Rightarrow> (chain, Ok \<lparr>sync_status = Sync_not_found,
               sync_requested_id = requested_id response, share_result = None\<rparr>)
        | Some s \<Rightarrow>
            (case receive_share backend chain trusted_work peer s kP2pCapabilityShareSync now mode of
              (chain', Inl e) \<Rightarrow> (chain', Throw e)
            | (chain', Inr res) \<Rightarrow>
                (chain', Ok \<lparr>sync_status = Share_processed,
                  sync_requested_id = requested_id response, share_result = Some res\<rparr>))))"

definition p2p_share_sync_receive_status_name :: "p2p_share_sync_receive_status \<Rightarrow> string" where
  "p2p_share_sync_receive_status_name status =
    (case status of
      Share_processed \<Rightarrow> ''share-processed''
    | Sync_not_found \<Rightarrow> ''not-found''
    | Sync_capability_missing \<Rightarrow> ''capability-missing'')"

section \<open>Tip announcements\<close>

definition kP2pTipHintPayloadSize :: nat where
  "kP2pTipHintPayloadSize = 40"

record p2p_tip_hint =
  hint_share_id :: share_id
  hint_share_height :: u64

definition require_valid_tip_hint :: "p2p_tip_hint \<Rightarrow> unit result" where
  "require_valid_tip_hint hint =
    (if is_zero_share_id (hint_share_id hint) \<and> hint_share_height hint \<noteq> 0
     then Throw (Runtime_error ''zero P2P tip id requires zero share height'')
     else Ok ())"

definition tip_read_u64_be :: "u8 list \<Rightarrow> nat \<Rightarrow> u64 result" where
  "tip_read_u64_be bytes offset =
    (if offset + 8 > length bytes then Throw (Runtime_error ''truncated P2P tip height'')
     else Ok (foldl shift_in 0 (slice offset 8 bytes)))"

definition p2p_tip_hint_from_chain :: "share_chain \<Rightarrow> p2p_tip_hint" where
  "p2p_tip_hint_from_chain chain =
    (case best_tip chain of
      None \<Rightarrow> \<lparr>hint_share_id = 0, hint_share_height = 0\<rparr>
    | Some tip \<Rightarrow> \<lparr>hint_share_id = cs_id tip, hint_share_height = share_height (cs_share tip)\<rparr>)"

definition p2p_tip_hint_from_handshake :: "p2p_handshake \<Rightarrow> p2p_tip_hint result" where
  "p2p_tip_hint_from_handshake h =
    (let hint = \<lparr>hint_share_id = hs_best_share_id h, hint_share_height = hs_best_share_height h\<rparr>
     in bindE (require_valid_tip_hint hint) (\<lambda>_. Ok hint))"

definition make_p2p_tip_announce_envelope :: "p2p_tip_hint \<Rightarrow> p2p_envelope result" where
  "make_p2p_tip_announce_envelope hint =
    bindE (require_valid_tip_hint hint) (\<lambda>_.
      Ok (default_envelope Tip_announce
        (bytes_of (hint_share_id hint) @ append_u64_be (hint_share_height hint))))"

definition make_p2p_tip_announce_for_chain :: "share_chain \<Rightarrow> p2p_envelope result" where
  "make_p2p_tip_announce_for_chain chain = make_p2p_tip_announce_envelope (p2p_tip_hint_from_chain chain)"

definition parse_p2p_tip_announce_envelope :: "p2p_envelope \<Rightarrow> p2p_tip_hint result" where
  "parse_p2p_tip_announce_envelope envelope =
    (if env_version envelope \<noteq> kP2pProtocolVersion
     then Throw (Runtime_error ''unsupported P2P protocol version'')
     else if env_type envelope \<noteq> Tip_announce
     then Throw (Runtime_error ''P2P envelope is not a tip announcement'')
     else if env_flags envelope \<noteq> 0
     then Throw (Runtime_error ''unsupported P2P envelope flags'')
     else if length (env_payload envelope) \<noteq> kP2pTipHintPayloadSize
     then Throw (Runtime_error ''invalid P2P tip announcement payload size'')
     else bindE (tip_read_u64_be (env_payload envelope) 32) (\<lambda>height.
       let hint = \<lparr>hint_share_id = array_of (slice 0 32 (env_payload envelope)), hint_share_height = height\<rparr>
       in bindE (require_valid_tip_hint hint) (\<lambda>_. Ok hint)))"

datatype p2p_tip_sync_status =
    No_remote_tip
  | Known_connected_tip
  | Request_advertised_tip
  | Request_missing_parent
  | Height_mismatch
  | Tip_capability_missing

record p2p_tip_sync_decision =
  tip_status :: p2p_tip_sync_status
  tip_requested_id :: "share_id option"

definition plan_p2p_tip_sync :: "p2p_handshake \<Rightarrow> p2p_tip_hint \<Rightarrow> share_chain \<Rightarrow> p2p_tip_sync_decision" where
  "plan_p2p_tip_sync peer hint chain =
    (let decide = (\<lambda>status i. \<lparr>tip_status = status, tip_requested_id = i\<rparr>) in
     if hs_capabilities peer AND kP2pCapabilityShareSync = 0 then decide Tip_capability_missing None
     else if is_zero_share_id (hint_share_id hint)
     then (if hint_share_height hint \<noteq> 0 then decide Height_mismatch None else decide No_remote_tip None)
     else (case find chain (hint_share_id hint) of
       Some connected_share \<Rightarrow>
         if share_height (cs_share connected_share) \<noteq> hint_share_height hint
         then decide Height_mismatch None else decide Known_connected_tip None
     | None \<Rightarrow>
         (case find_orphan_share chain (hint_share_id hint) of
           Some orph \<Rightarrow>
             if share_height orph \<noteq> hint_share_height hint \<or> is_zero_share_id (parent_id orph)
             then decide Height_mismatch None
             else decide Request_missing_parent (Some (parent_id orph))
         | None \<Rightarrow> decide Request_advertised_tip (Some (hint_share_id hint)))))"

definition p2p_tip_sync_status_name :: "p2p_tip_sync_status \<Rightarrow> string" where
  "p2p_tip_sync_status_name status =
    (case status of
      No_remote_tip \<Rightarrow> ''no-remote-tip''
    | Known_connected_tip \<Rightarrow> ''known-connected-tip''
    | Request_advertised_tip \<Rightarrow> ''request-advertised-tip''
    | Request_missing_parent \<Rightarrow> ''request-missing-parent''
    | Height_mismatch \<Rightarrow> ''height-mismatch''
    | Tip_capability_missing \<Rightarrow> ''capability-missing'')"

section \<open>Message kinds\<close>

lemma require_envelope_type_ok [simp]:
  "require_envelope_type e t message = Ok u \<longleftrightarrow>
    env_version e = kP2pProtocolVersion \<and> env_type e = t \<and> env_flags e = 0"
  by (auto simp: require_envelope_type_def)

interpretation share_request_message: p2p_message Share_request "\<lambda>_. True"
  make_p2p_share_request_envelope parse_p2p_share_request_envelope
  by unfold_locales
    (auto simp: make_p2p_share_request_envelope_def parse_p2p_share_request_envelope_def
      default_envelope_eq bindE_eq_Ok Let_def kP2pShareRequestPayloadSize_def kP2pMaxPayloadSize_def
      split: if_splits)

text \<open>The responses that exist: a share goes with the code \<open>Found\<close>, and no share with the other.\<close>

definition well_formed_response :: "p2p_share_response \<Rightarrow> bool" where
  "well_formed_response r \<longleftrightarrow> (response_code r = Found \<longleftrightarrow> response_share r \<noteq> None)"

lemma make_share_response_eq_Ok:
  "make_p2p_share_response_envelope i share_ptr = Ok e \<longleftrightarrow> i \<noteq> 0 \<and>
    (case share_ptr of
      None \<Rightarrow> e = default_envelope Share_response (2 # bytes_of i)
    | Some s \<Rightarrow> share_id s = Ok i \<and>
        (\<exists>bs. serialize_share s = Ok bs \<and> e = default_envelope Share_response (1 # bytes_of i @ bs)))"
  by (auto simp: make_p2p_share_response_envelope_def bindE_eq_Ok split: option.split)

lemma share_response_payload:
  assumes "33 \<le> length (payload :: u8 list)"
  shows "payload = payload ! 0 # bytes_of (array_of (slice (Suc 0) 32 payload) :: share_id) @ drop 33 payload"
proof -
  have "payload ! 0 # drop 1 payload = drop 0 payload"
    using assms by (intro nth_drop_join) linarith+
  moreover have "bytes_of (array_of (slice (Suc 0) 32 payload) :: share_id) @ drop 33 payload = drop 1 payload"
    using assms by (simp add: slice_def take_drop_join)
  ultimately show ?thesis by simp
qed

lemma parse_share_response_eq_Ok:
  "parse_p2p_share_response_envelope e = Ok r \<longleftrightarrow>
    well_formed_response r \<and> make_p2p_share_response_envelope (requested_id r) (response_share r) = Ok e"
proof
  assume L: "parse_p2p_share_response_envelope e = Ok r"
  let ?p = "env_payload e" and ?i = "array_of (slice (Suc 0) 32 (env_payload e)) :: share_id"
  from L have e: "e = default_envelope Share_response ?p"
    by (auto simp: parse_p2p_share_response_envelope_def bindE_eq_Ok default_envelope_eq)
  from L have len: "33 \<le> length ?p"
    by (auto simp: parse_p2p_share_response_envelope_def bindE_eq_Ok Let_def
        kP2pShareResponseHeaderSize_def split: if_splits)
  note pl = share_response_payload [OF len]
  have all: "take (length ?p - 33) (drop 33 ?p) = drop 33 ?p" by simp
  from L len consider
      "?i \<noteq> 0" "?p ! 0 = 2" "length ?p = 33" "r = \<lparr>response_code = Not_found, requested_id = ?i, response_share = None\<rparr>"
    | s where "?i \<noteq> 0" "?p ! 0 = 1" "deserialize_share (drop 33 ?p) = Ok s" "share_id s = Ok ?i"
      "r = \<lparr>response_code = Found, requested_id = ?i, response_share = Some s\<rparr>"
    by (auto simp: parse_p2p_share_response_envelope_def bindE_eq_Ok Let_def slice_def
        kP2pShareResponseHeaderSize_def split: if_splits)
  then show "well_formed_response r \<and> make_p2p_share_response_envelope (requested_id r) (response_share r) = Ok e"
    using pl e by cases
      (auto simp: well_formed_response_def make_share_response_eq_Ok share_codec.dec_iff_enc default_envelope_eq)
next
  assume R: "well_formed_response r \<and> make_p2p_share_response_envelope (requested_id r) (response_share r) = Ok e"
  show "parse_p2p_share_response_envelope e = Ok r"
  proof (cases "response_share r")
    case None
    with R show ?thesis
      by (cases r; cases "response_code r")
        (auto simp: make_share_response_eq_Ok well_formed_response_def slice_def
          parse_p2p_share_response_envelope_def kP2pShareResponseHeaderSize_def bindE_eq_Ok)
  next
    case (Some s)
    with R obtain bs where bs: "requested_id r \<noteq> 0" "response_code r = Found" "serialize_share s = Ok bs"
      "share_id s = Ok (requested_id r)" "e = default_envelope Share_response (1 # bytes_of (requested_id r) @ bs)"
      by (auto simp: make_share_response_eq_Ok well_formed_response_def)
    moreover from bs(3) have "deserialize_share bs = Ok s" by (rule share_codec.dec_enc)
    ultimately show ?thesis
      using Some serialize_share_length [OF bs(3)]
      by (cases r) (auto simp: slice_def parse_p2p_share_response_envelope_def
          kP2pShareResponseHeaderSize_def bindE_eq_Ok)
  qed
qed

interpretation share_response_message: p2p_message Share_response well_formed_response
  "\<lambda>r. make_p2p_share_response_envelope (requested_id r) (response_share r)"
  parse_p2p_share_response_envelope
  by unfold_locales
    (auto simp: parse_share_response_eq_Ok make_share_response_eq_Ok kP2pMaxPayloadSize_def share_constants
      split: option.splits dest: serialize_share_length)

lemma require_valid_tip_hint_ok [simp]:
  "require_valid_tip_hint hint = Ok u \<longleftrightarrow> (hint_share_id hint = 0 \<longrightarrow> hint_share_height hint = 0)"
  by (auto simp: require_valid_tip_hint_def)

lemma tip_read_ok:
  "offset + 8 \<le> length bytes \<Longrightarrow> tip_read_u64_be bytes offset = Ok (foldl shift_in 0 (slice offset 8 bytes))"
  by (simp add: tip_read_u64_be_def)

interpretation tip_announce_message: p2p_message Tip_announce "\<lambda>_. True"
  make_p2p_tip_announce_envelope parse_p2p_tip_announce_envelope
proof
  fix hint e
  show "parse_p2p_tip_announce_envelope e = Ok hint" if "make_p2p_tip_announce_envelope hint = Ok e"
    using that by (cases hint) (auto simp: make_p2p_tip_announce_envelope_def parse_p2p_tip_announce_envelope_def
        bindE_eq_Ok tip_read_ok kP2pTipHintPayloadSize_def Let_def slice_def)
  show "True \<and> make_p2p_tip_announce_envelope hint = Ok e" if L: "parse_p2p_tip_announce_envelope e = Ok hint"
  proof -
    from L have len: "length (env_payload e) = 40"
      by (auto simp: parse_p2p_tip_announce_envelope_def kP2pTipHintPayloadSize_def split: if_splits)
    with L have "hint = \<lparr>hint_share_id = array_of (slice 0 32 (env_payload e)),
        hint_share_height = foldl shift_in 0 (slice 32 8 (env_payload e))\<rparr>"
      "hint_share_id hint = 0 \<longrightarrow> hint_share_height hint = 0"
      "env_version e = kP2pProtocolVersion" "env_type e = Tip_announce" "env_flags e = 0"
      by (auto simp: parse_p2p_tip_announce_envelope_def bindE_eq_Ok tip_read_ok Let_def split: if_splits)
    moreover have "env_payload e = slice 0 32 (env_payload e) @ slice 32 8 (env_payload e)"
      using len by (simp add: slice_def)
    ultimately show ?thesis
      using len by (simp add: make_p2p_tip_announce_envelope_def bindE_eq_Ok default_envelope_eq append_foldl_be)
  qed
  show "valid_envelope e \<and> env_type e = Tip_announce" if "make_p2p_tip_announce_envelope hint = Ok e"
    using that by (auto simp: make_p2p_tip_announce_envelope_def bindE_eq_Ok kP2pMaxPayloadSize_def)
qed

text \<open>C38. The wire format of the protocol is canonical. For the handshake, the share announcement, the
  share request, the share response and the tip announcement, a byte string is accepted as a message
  exactly when it is what the sender of that message writes: no other bytes decode to it and every
  message that can be sent is decoded to itself. A handshake has to name its sidechain, a response
  carries a share exactly when it says found.\<close>

theorem p2p_wire_canonical:
  "(bindE (deserialize_p2p_envelope bs) parse_p2p_handshake_envelope = Ok h \<longleftrightarrow>
      hs_sidechain_id h \<noteq> 0 \<and> bindE (make_p2p_handshake_envelope h) serialize_p2p_envelope = Ok bs) \<and>
   (bindE (deserialize_p2p_envelope bs) parse_p2p_share_announce_envelope = Ok s \<longleftrightarrow>
      bindE (make_p2p_share_announce_envelope s) serialize_p2p_envelope = Ok bs) \<and>
   (bindE (deserialize_p2p_envelope bs) parse_p2p_share_request_envelope = Ok i \<longleftrightarrow>
      bindE (make_p2p_share_request_envelope i) serialize_p2p_envelope = Ok bs) \<and>
   (bindE (deserialize_p2p_envelope bs) parse_p2p_share_response_envelope = Ok r \<longleftrightarrow>
      (response_code r = Found \<longleftrightarrow> response_share r \<noteq> None) \<and>
      bindE (make_p2p_share_response_envelope (requested_id r) (response_share r)) serialize_p2p_envelope = Ok bs) \<and>
   (bindE (deserialize_p2p_envelope bs) parse_p2p_tip_announce_envelope = Ok hint \<longleftrightarrow>
      bindE (make_p2p_tip_announce_envelope hint) serialize_p2p_envelope = Ok bs)"
  unfolding handshake_message.wire_iff share_announce_message.wire_iff share_request_message.wire_iff
    share_response_message.wire_iff tip_announce_message.wire_iff well_formed_response_def
  by simp

section \<open>Synchronization\<close>

lemma answer_request_parses:
  assumes "conn_inv chain" "i \<noteq> 0" "hs_capabilities peer AND kP2pCapabilityShareSync \<noteq> 0"
    "parse_p2p_share_request_envelope request = Ok i"
  shows "\<exists>e. answer_p2p_share_request peer request chain = Ok e \<and>
    parse_p2p_share_response_envelope e = Ok
      (case find chain i of
        None \<Rightarrow> \<lparr>response_code = Not_found, requested_id = i, response_share = None\<rparr>
      | Some cs \<Rightarrow> \<lparr>response_code = Found, requested_id = i, response_share = Some (cs_share cs)\<rparr>)"
proof (cases "find chain i")
  case None
  with assms(2-4) show ?thesis
    by (auto simp: answer_p2p_share_request_def parse_share_response_eq_Ok well_formed_response_def
        make_share_response_eq_Ok)
next
  case (Some cs)
  have "share_ok chain i cs"
    using assms(1) Some by (auto simp: conn_inv_def find_def)
  then have id: "share_id (cs_share cs) = Ok i" by (simp add: share_ok_def)
  then obtain bs where "serialize_share (cs_share cs) = Ok bs"
    by (auto simp: share_id_def bindE_eq_Ok)
  with assms(2-4) id Some show ?thesis
    by (auto simp: answer_p2p_share_request_def parse_share_response_eq_Ok well_formed_response_def
        make_share_response_eq_Ok)
qed

text \<open>A request is always answered, and truthfully. In every reachable chain, a request that a
  peer with the synchronization capability sends for an identifier is answered without an exception
  by an envelope that the requester decodes: the connected share of that identifier when there is
  one, \<open>NotFound\<close> otherwise. Orphans are never served.\<close>

theorem share_request_answered:
  assumes "chain_reachable full backend chain" "hs_capabilities peer AND kP2pCapabilityShareSync \<noteq> 0"
    "make_p2p_share_request_envelope i = Ok request"
  shows "\<exists>e. answer_p2p_share_request peer request chain = Ok e \<and>
    parse_p2p_share_response_envelope e = Ok
      (case find chain i of
        None \<Rightarrow> \<lparr>response_code = Not_found, requested_id = i, response_share = None\<rparr>
      | Some cs \<Rightarrow> \<lparr>response_code = Found, requested_id = i, response_share = Some (cs_share cs)\<rparr>)"
proof (rule answer_request_parses)
  show "conn_inv chain" using assms(1) by (rule reachable_conn)
  show "i \<noteq> 0" using assms(3) by (auto simp: make_p2p_share_request_envelope_def)
  show "parse_p2p_share_request_envelope request = Ok i"
    using assms(3) by (rule share_request_message.parse_make [OF TrueI])
qed (rule assms(2))

theorem share_request_answered_witness:
  "\<exists>e. answer_p2p_share_request sample_peer (default_envelope Share_request (bytes_of (array_of_nat 1 :: share_id)))
      sample_start = Ok e \<and>
    parse_p2p_share_response_envelope e =
      Ok \<lparr>response_code = Not_found, requested_id = array_of_nat 1, response_share = None\<rparr>"
proof -
  have "(array_of_nat 1 :: share_id) \<noteq> 0"
    by (simp add: arr_val_eq_iff [symmetric] arr_val_array_of_nat)
  then have "make_p2p_share_request_envelope (array_of_nat 1) =
      Ok (default_envelope Share_request (bytes_of (array_of_nat 1 :: share_id)))"
    by (simp add: make_p2p_share_request_envelope_def)
  moreover have "hs_capabilities sample_peer AND kP2pCapabilityShareSync \<noteq> 0"
    by (simp add: sample_peer_def kP2pCapabilityShareSync_def)
  ultimately show ?thesis
    using share_request_answered [OF sample_start_reachable]
    by (fastforce simp: find_def sample_start_fields)
qed

text \<open>Synchronization asks only for what is missing. In every chain reached by calls that
  returned, the plan for a hint requests an identifier exactly when the peer can synchronize, the
  advertised tip is not connected here and the hint does not contradict an orphan that is already
  held; the requested identifier is nonzero, is not connected, and is the advertised tip or the
  parent that the orphan with this identifier waits for.\<close>

theorem tip_sync_requests_missing:
  assumes "chain_reachable True backend chain"
  shows "(tip_requested_id (plan_p2p_tip_sync peer hint chain) \<noteq> None \<longleftrightarrow>
      hs_capabilities peer AND kP2pCapabilityShareSync \<noteq> 0 \<and> hint_share_id hint \<noteq> 0 \<and>
      find chain (hint_share_id hint) = None \<and>
      (case find_orphan_share chain (hint_share_id hint) of
        None \<Rightarrow> True | Some s \<Rightarrow> share_height s = hint_share_height hint)) \<and>
    (tip_requested_id (plan_p2p_tip_sync peer hint chain) = Some i \<longrightarrow>
      i \<noteq> 0 \<and> find chain i = None \<and>
      (case find_orphan_share chain (hint_share_id hint) of
        None \<Rightarrow> i = hint_share_id hint | Some s \<Rightarrow> i = parent_id s))"
proof -
  have inv: "chain_inv True chain" using assms(1) by (rule chain.reach_inv)
  have orph: "parent_id s \<noteq> 0 \<and> find chain (parent_id s) = None" if o: "find_orphan_share chain j = Some s" for j s
  proof -
    obtain orph where orph: "fmlookup (orphans chain) j = Some orph" "s = os_share orph"
      using o by (auto simp: find_orphan_share_def split: option.splits)
    have "orphan_ok chain j orph" by (rule core_invD(3) [OF chain_invD(1) [OF inv] orph(1)])
    moreover have "waiting chain j orph" using chain_invD(3) [OF inv TrueI orph(1)] .
    ultimately show ?thesis using orph(2) by (simp add: orphan_ok_def waiting_def find_def)
  qed
  show ?thesis
    using orph [of "hint_share_id hint"]
    by (cases "find chain (hint_share_id hint)"; cases "find_orphan_share chain (hint_share_id hint)")
      (auto simp: plan_p2p_tip_sync_def)
qed

theorem tip_sync_requests_missing_witness:
  "tip_requested_id (plan_p2p_tip_sync sample_peer
      \<lparr>hint_share_id = array_of_nat 1, hint_share_height = 5\<rparr> sample_start) \<noteq> None"
proof -
  have "(array_of_nat 1 :: share_id) \<noteq> 0"
    by (simp add: arr_val_eq_iff [symmetric] arr_val_array_of_nat)
  then show ?thesis
    using tip_sync_requests_missing [OF sample_start_reachable]
    by (simp add: find_def find_orphan_share_def sample_start_fields sample_peer_def kP2pCapabilityShareSync_def)
qed

text \<open>Receiving a response is a step of the chain's machine, or none.\<close>

lemma receive_response_share:
  assumes "receive_p2p_share_response backend chain reg peer envelope now mode = (chain', r)" "returned full r"
  shows "chain' = chain \<or> (\<exists>s r'. receive_share backend chain reg peer s kP2pCapabilityShareSync now mode = (chain', r') \<and>
    returned full r')"
  using assms
  by (auto simp: receive_p2p_share_response_def returned_def split: sum.splits if_splits option.splits prod.splits)

end
