(* ===== verification/P2p_Trust.thy ===== *)
theory P2p_Trust
  imports P2p_Sync
begin

text \<open>
  The trust boundary of the node: the share chain, the registry of trusted work and the peers'
  messages together. A node state carries the history of the contexts that the node itself has
  trusted; messages of peers never extend it. Whatever envelopes the peers send, every share the
  chain holds was mined on work from that history.
\<close>

section \<open>The node as a machine\<close>

record p2p_node_state =
  node_chain :: share_chain
  node_registry :: registry
  trusted_history :: "(share_work_context \<times> share_id) set"

definition node_start :: "p2p_node_state \<Rightarrow> bool" where
  "node_start n \<longleftrightarrow> chain_start (node_chain n) \<and> node_registry n = fmempty \<and> trusted_history n = {}"

inductive node_step :: "progpow_backend option \<Rightarrow> p2p_node_state \<Rightarrow> p2p_node_state \<Rightarrow> bool"
  for backend :: "progpow_backend option"
where
  trust: "remember_with_provenance (node_registry n) ctx parent zp = Ok reg \<or>
      remember_at_parent (node_registry n) ctx parent = Ok reg \<Longrightarrow>
    node_step backend n (n\<lparr>node_registry := reg, trusted_history := insert (ctx, parent) (trusted_history n)\<rparr>)"
| revoke: "reg = fst (erase_zano_height (node_registry n) h) \<or>
      reg = fst (erase_zano_heights_above (node_registry n) h) \<or>
      reg = fst (erase_zano_parent_mismatch (node_registry n) h canonical) \<Longrightarrow>
    node_step backend n (n\<lparr>node_registry := reg\<rparr>)"
| gossip: "receive backend (node_chain n) (node_registry n) peer envelope now mode = (chain', r) \<Longrightarrow>
    node_step backend n (n\<lparr>node_chain := chain'\<rparr>)"
| sync: "receive_p2p_share_response backend (node_chain n) (node_registry n) peer envelope now mode = (chain', rr) \<Longrightarrow>
    node_step backend n (n\<lparr>node_chain := chain'\<rparr>)"
| prune_branch: "prune_connected_subtree_ids (node_chain n) root = Some (chain', ids) \<Longrightarrow>
    node_step backend n (n\<lparr>node_chain := chain'\<rparr>)"

inductive_cases node_stepE: "node_step backend n n'"

abbreviation node_reachable :: "progpow_backend option \<Rightarrow> p2p_node_state \<Rightarrow> bool" where
  "node_reachable backend \<equiv> reach node_start (node_step backend)"

section \<open>The invariant\<close>

definition mined_on :: "share \<Rightarrow> share_work_context \<times> share_id" where
  "mined_on s = (\<lparr>ctx_zano_height = zano_height s, ctx_mining_header_hash = mining_header_hash s,
    ctx_network_difficulty = network_difficulty s\<rparr>, parent_id s)"

definition node_inv :: "progpow_backend option \<Rightarrow> p2p_node_state \<Rightarrow> bool" where
  "node_inv backend n \<longleftrightarrow>
    chain_reachable False backend (node_chain n) \<and> registry_inv (node_registry n) \<and>
    (\<forall>h hdr p ctx. registry_find (node_registry n) h hdr p = Some ctx \<longrightarrow> (ctx, p) \<in> trusted_history n) \<and>
    (\<forall>s. held (node_chain n) s \<longrightarrow> mined_on s \<in> trusted_history n)"

lemma submit_share_held:
  assumes "chain_inv full c" "submit_share backend c s ctx now mode = (c', r)" "held c' t"
  shows "held c t \<or> t = s \<and> trusted_context_reject_reason s ctx = No_Reason"
  using assms(2)
proof (cases rule: submit_share_cases)
  case (admits i v)
  have ok: "trusted_context_reject_reason s ctx = No_Reason" "pow_consistent (Some v)"
    "difficulty_policy c \<noteq> None \<longrightarrow> difficulty_policy c \<noteq> None"
    using admits(3) admission_checks_consistent [OF admits(3)] by (simp_all add: admission_checks_def)
  from assms(1) ok(2,3) admits(4) have "t = s \<or> held c t"
  proof (cases rule: add_prevalidated_share_cases)
    case (orphan j)
    with assms(3) show ?thesis by (auto simp: held_def keep_orphan_def split: if_splits)
  next
    case (throws j)
    with assms(3) show ?thesis by blast
  next
    case (connects j cs d n)
    have "held d t" using grows_held [OF connects(13) assms(3)] .
    with connects(8,9) have "t = cs_share cs \<or> held c t" by (rule held_connect)
    with connects(3) show ?thesis by simp
  qed (use assms(3) in auto)
  with ok(1) show ?thesis by blast
qed (use assms(3) in auto)

text \<open>A share that a peer's message adds was mined on a context of the registry.\<close>

lemma receive_share_held:
  assumes "chain_reachable False backend chain" "registry_inv reg"
    "receive_share backend chain reg peer s cap now mode = (chain', r)" "held chain' t"
  shows "held chain t \<or> (\<exists>ctx. registry_find reg (zano_height t) (mining_header_hash t) (parent_id t) = Some ctx \<and>
    mined_on t = (ctx, parent_id t))"
  using assms(3)
proof (cases rule: receive_share_cases)
  case (submits ctx r')
  from submit_share_held [OF chain.reach_inv [OF assms(1)] submits(4) assms(4)] show ?thesis
  proof (elim disjE conjE)
    assume "t = s" "trusted_context_reject_reason s ctx = No_Reason"
    then show ?thesis using registry.context_accepted [OF assms(2) submits(3)] submits(3) by (simp add: mined_on_def)
  qed simp
qed (use assms(4) in simp_all)

lemma receive_share_reachable:
  assumes "chain_reachable False backend chain" "receive_share backend chain reg peer s cap now mode = (chain', r)"
  shows "chain_reachable False backend chain'"
  using receive_share_step [OF assms(2), of False] assms(1) by (auto simp: returned_def intro: reach_step)

lemma receive_share_inv:
  assumes "node_inv backend n"
    "receive_share backend (node_chain n) (node_registry n) peer s cap now mode = (chain', r)"
  shows "node_inv backend (n\<lparr>node_chain := chain'\<rparr>)"
  using assms(1) receive_share_reachable [OF _ assms(2)] receive_share_held [OF _ _ assms(2)]
  by (fastforce simp: node_inv_def)

lemma registry_find_update:
  "registry_find (fmupd (context_key ctx parent) e reg) h hdr p =
    (if (h, hdr, p) = context_key ctx parent then Some (entry_context e) else registry_find reg h hdr p)"
  by (auto simp: registry_find_def)

lemma remember_find:
  assumes "registry_inv reg"
    "remember_with_provenance reg ctx parent zp = Ok reg' \<or> remember_at_parent reg ctx parent = Ok reg'"
    "registry_find reg' h hdr p = Some found"
  shows "registry_find reg h hdr p = Some found \<or> found = ctx \<and> p = parent"
  using assms(2)
proof (cases rule: remember_cases)
  case (known e q)
  with assms(3) show ?thesis
    by (cases "(h, hdr, p) = context_key ctx parent") (auto simp: registry_find_def)
next
  case (fresh q)
  from assms(3) show ?thesis
    unfolding fresh(3) registry_find_update by (auto simp: context_key_def split: if_splits)
qed

lemma erase_find: "registry_find (fst (erase_loop keep reg)) h hdr p = Some ctx \<Longrightarrow> registry_find reg h hdr p = Some ctx"
  by (auto simp: registry_find_def erase_loop_lookup split: option.splits if_splits)

lemma prune_held:
  assumes "chain_inv full c" "prune_connected_subtree_ids c root = Some (d, ids)" "held d s"
  shows "held c s"
proof -
  obtain e js where "prune_connected_subtree_ids c root = Some (e, Ok js)" "orphans e = orphans c"
    "\<And>i. fmlookup (connected e) i = (if i \<in> set js then None else fmlookup (connected c) i)"
    by (rule prune_result [OF assms(1), of root], rule that, assumption+)
  with assms(2,3) show ?thesis by (auto simp: held_def split: if_splits)
qed

lemma node_start_inv: "node_start n \<Longrightarrow> node_inv backend n"
proof -
  assume n: "node_start n"
  then have "chain_start (node_chain n)" by (simp add: node_start_def)
  then have "connected (node_chain n) = fmempty \<and> orphans (node_chain n) = fmempty"
    unfolding chain_start_def
  proof (elim disjE exE)
    fix params assume "make_share_chain params = Ok (node_chain n)"
    from make_share_chain_Ok(2) [OF this] show ?thesis by (simp add: empty_share_chain_def)
  qed (simp add: empty_share_chain_def)
  with n show ?thesis
    by (simp add: node_start_def node_inv_def registry_inv_empty registry_find_def held_def reach_start)
qed

lemma node_step_inv: "node_inv backend n \<Longrightarrow> node_step backend n n' \<Longrightarrow> node_inv backend n'"
proof (erule node_stepE)
  assume inv: "node_inv backend n"
  then have chain_ok: "chain_inv False (node_chain n)" unfolding node_inv_def by (blast intro: chain.reach_inv)
  show "node_inv backend n'"
    if "n' = n\<lparr>node_registry := reg, trusted_history := insert (ctx, parent) (trusted_history n)\<rparr>"
      "remember_with_provenance (node_registry n) ctx parent zp = Ok reg \<or>
        remember_at_parent (node_registry n) ctx parent = Ok reg" for ctx parent zp reg
  proof -
    have reg: "registry_inv (node_registry n)" using inv by (simp add: node_inv_def)
    from inv remember_inv [OF reg that(2)] remember_find [OF reg that(2)] show ?thesis
      unfolding that(1) node_inv_def by simp blast
  qed
  show "node_inv backend n'"
    if n': "n' = n\<lparr>node_registry := reg\<rparr>" and erased: "reg = fst (erase_zano_height (node_registry n) h) \<or>
      reg = fst (erase_zano_heights_above (node_registry n) h) \<or>
      reg = fst (erase_zano_parent_mismatch (node_registry n) h canonical)" for reg h canonical
  proof -
    obtain keep where "reg = fst (erase_loop keep (node_registry n))"
      using erased unfolding erase_zano_height_def erase_zano_heights_above_def
        erase_zano_parent_mismatch_def by blast
    with inv show ?thesis
      unfolding n' node_inv_def by (auto intro: erase_loop_inv dest: erase_find)
  qed
  show "node_inv backend n'"
    if "n' = n\<lparr>node_chain := chain'\<rparr>"
      "receive backend (node_chain n) (node_registry n) peer envelope now mode = (chain', r)"
    for peer envelope now mode chain' r
    using that inv by (auto simp: receive_def intro: receive_share_inv split: sum.splits)
  show "node_inv backend n'"
    if "n' = n\<lparr>node_chain := chain'\<rparr>"
      "receive_p2p_share_response backend (node_chain n) (node_registry n) peer envelope now mode = (chain', rr)"
    for peer envelope now mode chain' rr
    using receive_response_share [OF that(2), of False] that(1) inv
    by (auto simp: returned_def intro: receive_share_inv)
  show "node_inv backend n'"
    if "n' = n\<lparr>node_chain := chain'\<rparr>" "prune_connected_subtree_ids (node_chain n) root = Some (chain', ids)"
    for chain' root ids
  proof -
    have "chain_step False backend (node_chain n) chain'"
      using that(2) by (rule chain_step.prune) (simp add: returned_def)
    with inv prune_held [OF chain_ok that(2)] show ?thesis
      unfolding that(1) node_inv_def by (auto intro: reach_step)
  qed
qed

interpretation node: machine_invariant node_start "node_step backend" "node_inv backend"
  by unfold_locales (auto intro: node_start_inv node_step_inv)

text \<open>C6. Peers cannot create trust. Start a node with an empty chain and an empty registry and let
  it run through any sequence of local trust decisions, revocations, announcements and responses
  from any peers, and prunings, exceptions included. Every share the chain then holds, connected or
  waiting for its parent, was mined on a work context that this node itself trusted for exactly
  this sidechain parent, with the same Zano height, mining header and network difficulty.\<close>

theorem peers_cannot_create_trust:
  assumes "node_reachable backend n"
    and "(\<exists>cs. find (node_chain n) i = Some cs \<and> cs_share cs = s) \<or> find_orphan_share (node_chain n) i = Some s"
  shows "(\<lparr>ctx_zano_height = zano_height s, ctx_mining_header_hash = mining_header_hash s,
    ctx_network_difficulty = network_difficulty s\<rparr>, parent_id s) \<in> trusted_history n"
proof -
  have "held (node_chain n) s"
    using assms(2) by (auto simp: held_def find_def find_orphan_share_def)
  with node.reach_inv [OF assms(1)] show ?thesis by (auto simp: node_inv_def mined_on_def)
qed


text \<open>The sample share, announced to a node that has trusted the sample work.\<close>

theorem peers_cannot_create_trust_witness:
  "\<exists>n. node_reachable (Some zero_hash_backend) n \<and> find (node_chain n) sample_id = Some sample_connected \<and>
    (\<lparr>ctx_zano_height = zano_height sample_share, ctx_mining_header_hash = mining_header_hash sample_share,
      ctx_network_difficulty = network_difficulty sample_share\<rparr>, parent_id sample_share) \<in> trusted_history n"
proof -
  let ?n0 = "\<lparr>node_chain = sample_start, node_registry = fmempty, trusted_history = {}\<rparr>"
  let ?n1 = "\<lparr>node_chain = sample_start, node_registry = sample_registry, trusted_history = {(sample_context, 0)}\<rparr>"
  let ?n2 = "\<lparr>node_chain = sample_chain, node_registry = sample_registry, trusted_history = {(sample_context, 0)}\<rparr>"
  let ?b = "Some zero_hash_backend"
  have "node_start ?n0"
    using sample_start_ok by (auto simp: node_start_def chain_start_def)
  then have r0: "node_reachable ?b ?n0" by (rule reach_start)
  have "remember_at_parent fmempty sample_context 0 = Ok sample_registry"
    by (simp add: remember_at_parent_def sample_registry_def context_key_def sample_context_def sample_difficulties)
  then have "node_step ?b ?n0 ?n1"
    using node_step.trust [where n = ?n0 and ctx = sample_context and parent = 0] by simp
  with r0 have r1: "node_reachable ?b ?n1" by (rule reach_step)
  obtain e where e: "make_p2p_share_announce_envelope sample_share = Ok e"
    using sample_id_ok by (auto simp: share_id_def bindE_eq_Ok make_p2p_share_announce_envelope_def)
  have cap: "kP2pCapabilityShareGossip \<noteq> 0" "7 AND kP2pCapabilityShareGossip = kP2pCapabilityShareGossip"
    by (simp_all add: kP2pCapabilityShareGossip_def)
  obtain r where "receive ?b sample_start sample_registry sample_peer e 1000 Light = (sample_chain, r)"
    using share_announce_message.parse_make [OF TrueI e] receive_sample [OF cap] by (simp add: receive_def)
  then have "node_step ?b ?n1 ?n2"
    using node_step.gossip [where n = ?n1] by simp
  with r1 have r2: "node_reachable ?b ?n2" by (rule reach_step)
  moreover have f: "find (node_chain ?n2) sample_id = Some sample_connected"
    by (simp add: find_def sample_chain_def)
  ultimately show ?thesis
    using peers_cannot_create_trust [OF r2, of sample_id sample_share]
    by (intro exI [of _ ?n2]) (simp add: sample_connected_def)
qed

end
