(* ===== verification/Zano_Address.thy ===== *)
theory Zano_Address
  imports Share
begin

text \<open>
  \<open>src/src/zano_address.cpp\<close>: decoding of the standard Zano payout address, the CryptoNote
  block base58 format with a varint prefix and a checksum. The 128 bit accumulator of a block is a
  word. A reference encoder is defined below and the decoder is proved to accept exactly what it
  produces.
\<close>

section \<open>Definitions\<close>

definition kBase58Alphabet :: string where
  "kBase58Alphabet = ''123456789ABCDEFGHJKLMNPQRSTUVWXYZabcdefghijkmnopqrstuvwxyz''"

definition kEncodedBlockSizes :: "nat list" where
  "kEncodedBlockSizes = [0, 2, 3, 5, 6, 7, 9, 10, 11]"

definition kDecodedFullBlockSize :: nat where
  "kDecodedFullBlockSize = 8"

definition kEncodedFullBlockSize :: nat where
  "kEncodedFullBlockSize = 11"

definition kAddressChecksumSize :: nat where
  "kAddressChecksumSize = 4"

definition kClassicAddressPayloadSize :: nat where
  "kClassicAddressPayloadSize = 64"

definition kZanoStandardAddressBase58Prefix :: u64 where
  "kZanoStandardAddressBase58Prefix = 0xc5"

datatype zano_address_decode_status =
    Address_valid
  | Invalid_base58
  | Invalid_checksum
  | Invalid_prefix
  | Unsupported_payload

record p2p_payout_address =
  pa_spend_public_key :: hash256
  pa_view_public_key :: hash256

record zano_address_decode_result =
  address_status :: zano_address_decode_status
  address_payout :: p2p_payout_address

text \<open>The index of the first match, \<open>None\<close> for the \<open>-1\<close> of the code.\<close>

definition index_of :: "'a list \<Rightarrow> 'a \<Rightarrow> nat option" where
  "index_of xs x = (let i = length (takeWhile (\<lambda>y. y \<noteq> x) xs) in if i < length xs then Some i else None)"

definition decoded_block_size :: "nat \<Rightarrow> nat option" where
  "decoded_block_size encoded_size = index_of kEncodedBlockSizes encoded_size"

definition base58_digit :: "char \<Rightarrow> nat option" where
  "base58_digit c = index_of kBase58Alphabet c"

fun base58_value :: "string \<Rightarrow> 128 word \<Rightarrow> 128 word option" where
  "base58_value [] value = Some value"
| "base58_value (c # encoded) value =
    (case base58_digit c of
      None \<Rightarrow> None
    | Some digit \<Rightarrow> base58_value encoded (value * 58 + word_of_nat digit))"

definition decode_block :: "string \<Rightarrow> nat \<Rightarrow> u8 list option" where
  "decode_block encoded output_size =
    (if encoded = [] \<or> output_size = 0 \<or> output_size > 8 then None
     else case base58_value encoded 0 of
       None \<Rightarrow> None
     | Some value \<Rightarrow>
         if value \<ge> push_bit (output_size * 8) 1 then None
         else Some (uint128_low_bytes output_size value))"

fun decode_full_blocks :: "string \<Rightarrow> nat list \<Rightarrow> u8 list option" where
  "decode_full_blocks encoded [] = Some []"
| "decode_full_blocks encoded (i # rest) =
    (case decode_block (take kEncodedFullBlockSize (drop (i * kEncodedFullBlockSize) encoded))
        kDecodedFullBlockSize of
      None \<Rightarrow> None
    | Some out \<Rightarrow> map_option (\<lambda>more. out @ more) (decode_full_blocks encoded rest))"

definition decode_base58 :: "string \<Rightarrow> u8 list option" where
  "decode_base58 encoded =
    (if encoded = [] then Some []
     else
       let full_blocks = length encoded div kEncodedFullBlockSize;
           remain = length encoded mod kEncodedFullBlockSize
       in case decoded_block_size remain of
            None \<Rightarrow> None
          | Some tail_size \<Rightarrow>
              (case decode_full_blocks encoded [0..<full_blocks] of
                None \<Rightarrow> None
              | Some decoded \<Rightarrow>
                  if remain \<noteq> 0
                  then map_option (\<lambda>out. decoded @ out)
                    (decode_block (take remain (drop (full_blocks * kEncodedFullBlockSize) encoded)) tail_size)
                  else Some decoded))"

text \<open>The loop of \<open>read_canonical_varint\<close>: the value and the number of consumed bytes.\<close>

function varint_loop :: "u8 list \<Rightarrow> nat \<Rightarrow> nat \<Rightarrow> u64 \<Rightarrow> (u64 \<times> nat) option" where
  "varint_loop bytes i shift value =
    (if i < length bytes \<and> i < 10 then
       let byte = bytes ! i;
           part = (ucast (byte AND 0x7f) :: u64)
       in if shift \<ge> 64 \<or> (shift = 63 \<and> part > 1) then None
          else
            let value' = value OR push_bit shift part in
            if byte AND 0x80 = 0
            then (if i + 1 > 1 \<and> part = 0 then None else Some (value', i + 1))
            else varint_loop bytes (i + 1) (shift + 7) value'
     else None)"
  by pat_completeness auto
termination
  by (relation "measure (\<lambda>(bytes, i, shift, value). 10 - i)") auto

declare varint_loop.simps [simp del]

definition read_canonical_varint :: "u8 list \<Rightarrow> (u64 \<times> nat) option" where
  "read_canonical_varint bytes = varint_loop bytes 0 0 0"

definition empty_payout_address :: p2p_payout_address where
  "empty_payout_address = \<lparr>pa_spend_public_key = 0, pa_view_public_key = 0\<rparr>"

definition decode_zano_standard_address :: "string \<Rightarrow> zano_address_decode_result" where
  "decode_zano_standard_address address =
    (let failed = (\<lambda>status. \<lparr>address_status = status, address_payout = empty_payout_address\<rparr>) in
     case decode_base58 address of
       None \<Rightarrow> failed Invalid_base58
     | Some decoded \<Rightarrow>
         if length decoded \<le> kAddressChecksumSize then failed Invalid_base58
         else
           let content_size = length decoded - kAddressChecksumSize;
               content = take content_size decoded
           in if drop content_size decoded \<noteq> take kAddressChecksumSize (bytes_of (cn_fast_hash content))
              then failed Invalid_checksum
              else (case read_canonical_varint content of
                None \<Rightarrow> failed Invalid_prefix
              | Some (prefix, prefix_size) \<Rightarrow>
                  if prefix \<noteq> kZanoStandardAddressBase58Prefix then failed Invalid_prefix
                  else if length content - prefix_size \<noteq> kClassicAddressPayloadSize
                  then failed Unsupported_payload
                  else
                    let payload = drop prefix_size content in
                    \<lparr>address_status = Address_valid,
                     address_payout = \<lparr>pa_spend_public_key = array_of (slice 0 32 payload),
                       pa_view_public_key = array_of (slice 32 32 payload)\<rparr>\<rparr>))"

definition zano_address_decode_status_name :: "zano_address_decode_status \<Rightarrow> string" where
  "zano_address_decode_status_name status =
    (case status of
      Address_valid \<Rightarrow> ''valid''
    | Invalid_base58 \<Rightarrow> ''invalid-base58''
    | Invalid_checksum \<Rightarrow> ''invalid-checksum''
    | Invalid_prefix \<Rightarrow> ''invalid-prefix''
    | Unsupported_payload \<Rightarrow> ''unsupported-payload'')"

section \<open>Base 58 numbers\<close>

definition val58 :: "nat list \<Rightarrow> nat" where
  "val58 ds = foldl (\<lambda>v d. v * 58 + d) 0 ds"

fun digits58 :: "nat \<Rightarrow> nat \<Rightarrow> nat list" where
  "digits58 0 v = []"
| "digits58 (Suc k) v = digits58 k (v div 58) @ [v mod 58]"

lemma val58_simps [simp]: "val58 [] = 0" "val58 (ds @ [d]) = val58 ds * 58 + d"
  by (simp_all add: val58_def)

lemma digits58_props [simp]: "length (digits58 k v) = k" "\<forall>d\<in>set (digits58 k v). d < 58"
  by (induction k arbitrary: v) auto

lemma val58_digits58: "val58 (digits58 k v) = v mod 58 ^ k"
proof (induction k arbitrary: v)
  case (Suc k)
  have "v div 58 mod 58 ^ k * 58 + v mod 58 = v mod (58 * 58 ^ k)"
    by (simp add: mod_mult2_eq mult.commute)
  then show ?case by (simp add: Suc)
qed simp

lemma val58_less: "\<forall>d\<in>set ds. d < 58 \<Longrightarrow> val58 ds < 58 ^ length ds"
proof (induction ds rule: rev_induct)
  case (snoc d ds)
  then have "val58 ds * 58 + d < (val58 ds + 1) * 58" by simp
  also have "\<dots> \<le> 58 ^ length ds * 58" using snoc by (intro mult_le_mono1) simp
  finally show ?case by simp
qed simp

lemma digits58_val58: "\<forall>d\<in>set ds. d < 58 \<Longrightarrow> digits58 (length ds) (val58 ds) = ds"
  by (induction ds rule: rev_induct) auto

lemma index_of_eq_Some:
  assumes "distinct xs"
  shows "index_of xs x = Some i \<longleftrightarrow> i < length xs \<and> xs ! i = x"
proof -
  let ?n = "length (takeWhile (\<lambda>y. y \<noteq> x) xs)"
  have "xs ! ?n = x" if "?n < length xs" using nth_length_takeWhile [OF that] by simp
  moreover have "i = ?n" if "i < length xs" "xs ! i = x"
  proof -
    have "\<not> i < ?n"
    proof
      assume "i < ?n"
      then have "xs ! i \<in> set (takeWhile (\<lambda>y. y \<noteq> x) xs)" by (metis nth_mem takeWhile_nth)
      then show False using that(2) by (auto dest: set_takeWhileD)
    qed
    then have "?n < length xs" using that(1) by simp
    with \<open>?n < length xs \<Longrightarrow> xs ! ?n = x\<close> that assms show ?thesis
      using nth_eq_iff_index_eq [OF assms, of i ?n] by simp
  qed
  ultimately show ?thesis by (auto simp: index_of_def Let_def)
qed

lemma base58_alphabet: "distinct kBase58Alphabet" "length kBase58Alphabet = 58"
  by (simp_all add: kBase58Alphabet_def)

lemma base58_digit_eq_Some: "base58_digit c = Some d \<longleftrightarrow> d < 58 \<and> c = kBase58Alphabet ! d"
  unfolding base58_digit_def index_of_eq_Some [OF base58_alphabet(1)] base58_alphabet(2) by auto

lemma base58_value_nat:
  assumes "length encoded \<le> 11 - k" "k \<le> 11" "unat acc < 58 ^ k"
  shows "base58_value encoded acc = Some v \<longleftrightarrow>
    (\<exists>ds. map base58_digit encoded = map Some ds \<and>
      unat v = foldl (\<lambda>v d. v * 58 + d) (unat acc) ds)"
  using assms
proof (induction encoded arbitrary: k acc)
  case (Cons c encoded)
  show ?case
  proof (cases "base58_digit c")
    case (Some d)
    then have d: "d < 58" by (simp add: base58_digit_eq_Some)
    have k: "Suc k \<le> 11" using Cons.prems by simp
    have "unat acc * 58 + d < (unat acc + 1) * 58" using d by simp
    also have "\<dots> \<le> 58 ^ k * 58" using Cons.prems(3) by (intro mult_le_mono1) simp
    finally have lt: "unat acc * 58 + d < 58 ^ Suc k" by simp
    also have "(58 :: nat) ^ Suc k \<le> 58 ^ 11" using k by (intro power_increasing) auto
    finally have "unat acc * 58 + d < 2 ^ 128" by simp
    then have un: "unat (acc * 58 + word_of_nat d) = unat acc * 58 + d"
      by (simp add: unat_word_ariths unat_of_nat mod_simps)
    have "base58_value encoded (acc * 58 + word_of_nat d) = Some v \<longleftrightarrow>
        (\<exists>ds. map base58_digit encoded = map Some ds \<and>
          unat v = foldl (\<lambda>v d. v * 58 + d) (unat acc * 58 + d) ds)"
      using Cons.IH [of "Suc k" "acc * 58 + word_of_nat d"] Cons.prems k lt un by simp
    with Some show ?thesis by (auto simp: Cons_eq_map_conv)
  qed (auto simp: Cons_eq_map_conv)
qed (auto simp: word_unat_eq_iff)

section \<open>Blocks\<close>

text \<open>The reference encoder of a block: \<open>k\<close> base 58 digits of the big-endian number.\<close>

definition encode_block :: "nat \<Rightarrow> u8 list \<Rightarrow> string" where
  "encode_block k bytes = map ((!) kBase58Alphabet) (digits58 k (be_val bytes))"

lemma length_encode_block [simp]: "length (encode_block k bytes) = k"
  by (simp add: encode_block_def)

lemma base58_digits_encode:
  "map base58_digit encoded = map Some ds \<longleftrightarrow>
    (\<forall>d\<in>set ds. d < 58) \<and> encoded = map ((!) kBase58Alphabet) ds"
  by (induction encoded arbitrary: ds) (auto simp: Cons_eq_map_conv base58_digit_eq_Some map_eq_Cons_conv)

lemma decode_block_iff:
  assumes "0 < length encoded" "length encoded \<le> 11" "0 < n" "n \<le> 8"
  shows "decode_block encoded n = Some bytes \<longleftrightarrow>
    length bytes = n \<and> be_val bytes < 58 ^ length encoded \<and> encoded = encode_block (length encoded) bytes"
proof -
  have lim: "unat (push_bit (n * 8) (1 :: 128 word)) = 256 ^ n"
  proof -
    have "(2 :: nat) ^ (n * 8) < 2 ^ 128" using assms(4) by (intro power_strict_increasing) auto
    moreover have "push_bit (n * 8) (1 :: 128 word) = word_of_nat (2 ^ (n * 8))"
      by (simp add: push_bit_eq_mult)
    ultimately have "unat (push_bit (n * 8) (1 :: 128 word)) = 2 ^ (n * 8)"
      by (simp only: unat_of_nat) simp
    also have "(2 :: nat) ^ (n * 8) = 256 ^ n"
      unfolding mult.commute [of n 8] power_mult by simp
    finally show ?thesis .
  qed
  have val: "base58_value encoded 0 = Some v \<longleftrightarrow>
      (\<exists>ds. (\<forall>d\<in>set ds. d < 58) \<and> encoded = map ((!) kBase58Alphabet) ds \<and> unat v = val58 ds)" for v
    using base58_value_nat [of encoded 0 0 v] assms(2)
    by (simp add: base58_digits_encode val58_def conj_assoc)
  show ?thesis
  proof
    assume "decode_block encoded n = Some bytes"
    then obtain v where v: "base58_value encoded 0 = Some v" "\<not> v \<ge> push_bit (n * 8) 1"
      "bytes = be_bytes n (unat v)"
      by (auto simp: decode_block_def uint128_low_bytes split: option.splits if_splits)
    from v(1) obtain ds where ds: "\<forall>d\<in>set ds. d < 58" "encoded = map ((!) kBase58Alphabet) ds"
      "unat v = val58 ds" unfolding val by blast
    have "unat v < 256 ^ n" using v(2) lim by (simp add: word_le_nat_alt)
    then have b: "be_val bytes = val58 ds" using v(3) ds(3) by (simp add: be_val_be_bytes)
    then show "length bytes = n \<and> be_val bytes < 58 ^ length encoded \<and>
        encoded = encode_block (length encoded) bytes"
      using v(3) ds val58_less [OF ds(1)] digits58_val58 [OF ds(1)] by (simp add: encode_block_def)
  next
    assume R: "length bytes = n \<and> be_val bytes < 58 ^ length encoded \<and>
        encoded = encode_block (length encoded) bytes"
    let ?ds = "digits58 (length encoded) (be_val bytes)"
    have small: "be_val bytes < 256 ^ n" using be_val_less [of bytes] R by simp
    have "be_val bytes < 2 ^ 128"
    proof -
      have "(256 :: nat) ^ n \<le> 256 ^ 8" using assms(4) by (intro power_increasing) auto
      with small show ?thesis by simp
    qed
    then have un: "unat (word_of_nat (be_val bytes) :: 128 word) = be_val bytes" by (simp add: unat_of_nat)
    have "val58 ?ds = be_val bytes" using R by (simp add: val58_digits58)
    moreover have "\<forall>d\<in>set ?ds. d < 58" by simp
    moreover have "encoded = map ((!) kBase58Alphabet) ?ds" using R by (simp add: encode_block_def)
    ultimately have "base58_value encoded 0 = Some (word_of_nat (be_val bytes))"
      unfolding val using un by (intro exI [of _ ?ds]) simp
    then show "decode_block encoded n = Some bytes"
      using assms small lim R un
      by (simp add: decode_block_def uint128_low_bytes be_bytes_be_val word_le_nat_alt)
  qed
qed

section \<open>Base 58 strings\<close>

text \<open>The reference encoder: full blocks of eight bytes, then the shorter tail.\<close>

function encode_base58 :: "u8 list \<Rightarrow> string" where
  "encode_base58 bytes =
    (if 8 \<le> length bytes then encode_block 11 (take 8 bytes) @ encode_base58 (drop 8 bytes)
     else encode_block (kEncodedBlockSizes ! length bytes) bytes)"
  by pat_completeness auto
termination
  by (relation "measure length") auto

declare encode_base58.simps [simp del]

text \<open>The decoder as a recursion over the string.\<close>

function decode58 :: "string \<Rightarrow> u8 list option" where
  "decode58 encoded =
    (if 11 \<le> length encoded
     then (case decode_block (take 11 encoded) 8 of
       None \<Rightarrow> None | Some out \<Rightarrow> map_option (\<lambda>more. out @ more) (decode58 (drop 11 encoded)))
     else if encoded = [] then Some []
     else (case decoded_block_size (length encoded) of
       None \<Rightarrow> None | Some tail_size \<Rightarrow> decode_block encoded tail_size))"
  by pat_completeness auto
termination
  by (relation "measure length") auto

declare decode58.simps [simp del]

lemmas base58_constants =
  kEncodedFullBlockSize_def kDecodedFullBlockSize_def kEncodedBlockSizes_def

lemma decode_full_blocks_Suc:
  "decode_full_blocks encoded (map Suc is) = decode_full_blocks (drop 11 encoded) is"
proof (induction "is")
  case (Cons i "is")
  then show ?case
    by (cases "decode_block (take 11 (drop (11 + i * 11) encoded)) kDecodedFullBlockSize")
      (simp_all add: kEncodedFullBlockSize_def add.commute)
qed simp

lemma decoded_block_size_0: "decoded_block_size 0 = Some 0"
  by (simp add: decoded_block_size_def index_of_def kEncodedBlockSizes_def)

lemma decode_base58_step:
  assumes "11 \<le> length encoded"
  shows "decode_base58 encoded =
    (case decode_block (take 11 encoded) 8 of
      None \<Rightarrow> None | Some out \<Rightarrow> map_option (\<lambda>more. out @ more) (decode_base58 (drop 11 encoded)))"
proof -
  let ?rest = "drop 11 encoded"
  have len: "length encoded = length ?rest + 11" using assms by simp
  have q: "length encoded div 11 = Suc (length ?rest div 11)" "length encoded mod 11 = length ?rest mod 11"
    unfolding len by simp_all
  have idx: "[0..<Suc n] = 0 # map Suc [0..<n]" for n
    by (simp add: map_Suc_upt upt_conv_Cons)
  have cut: "drop (Suc n * 11) encoded = drop (n * 11) ?rest" for n
    by (simp add: add.commute)
  have ne: "encoded \<noteq> []" using assms by auto
  have first: "take 11 (drop (0 * 11) encoded) = take 11 encoded" by simp
  show ?thesis
  proof (cases "?rest = []")
    case True
    with ne show ?thesis
      unfolding decode_base58_def Let_def base58_constants q idx decode_full_blocks.simps first
      by (cases "decode_block (take 11 encoded) 8") (simp_all add: decoded_block_size_0)
  next
    case False
    with ne show ?thesis
      unfolding decode_base58_def Let_def kEncodedFullBlockSize_def kDecodedFullBlockSize_def q idx
        decode_full_blocks.simps decode_full_blocks_Suc first cut
      by (cases "decode_block (take 11 encoded) 8"; cases "decode_full_blocks ?rest [0..<length ?rest div 11]";
          cases "decoded_block_size (length ?rest mod 11)")
        (auto simp: option.map_comp comp_def intro!: option.map_cong)
  qed
qed

lemma append_Nil_id: "(@) [] = (\<lambda>xs. xs)"
  by (rule ext) simp

lemma decode_base58_decode58: "decode_base58 encoded = decode58 encoded"
proof (induction encoded rule: decode58.induct)
  case (1 encoded)
  show ?case
  proof (cases "11 \<le> length encoded")
    case True
    with 1 show ?thesis
      by (subst decode58.simps) (auto simp: decode_base58_step split: option.splits)
  next
    case False
    have "decode_block [] n = None" for n by (simp add: decode_block_def)
    with False show ?thesis
      by (subst decode58.simps)
        (auto simp: decode_base58_def base58_constants decoded_block_size_0 append_Nil_id option.map_ident
          split: option.splits)
  qed
qed

text \<open>The block sizes fit: every byte string of a size has a number with that many digits.\<close>

lemma block_fits:
  assumes "n \<le> 8" "length bytes = n"
  shows "be_val bytes < 58 ^ (kEncodedBlockSizes ! n)"
proof -
  have "n \<in> {0, 1, 2, 3, 4, 5, 6, 7, 8}" using assms(1) by auto
  then have "(256 :: nat) ^ n \<le> 58 ^ (kEncodedBlockSizes ! n)"
    by (elim insertE emptyE) (simp_all add: kEncodedBlockSizes_def)
  with be_val_less [of bytes] assms(2) show ?thesis by (metis less_le_trans)
qed

lemma decoded_block_size_eq_Some:
  "decoded_block_size k = Some n \<longleftrightarrow> n \<le> 8 \<and> k = kEncodedBlockSizes ! n"
proof -
  have "distinct kEncodedBlockSizes" "length kEncodedBlockSizes = 9" by (simp_all add: kEncodedBlockSizes_def)
  then show ?thesis unfolding decoded_block_size_def by (auto simp: index_of_eq_Some)
qed

lemma block_sizes:
  assumes "n \<le> 8"
  shows "kEncodedBlockSizes ! n \<le> 11" "0 < n \<longleftrightarrow> 0 < kEncodedBlockSizes ! n"
    "n < 8 \<Longrightarrow> kEncodedBlockSizes ! n < 11" "n = 8 \<Longrightarrow> kEncodedBlockSizes ! n = 11"
proof -
  have "n \<in> {0, 1, 2, 3, 4, 5, 6, 7, 8}" using assms(1) by auto
  then have "kEncodedBlockSizes ! n \<le> 11 \<and> (0 < n \<longleftrightarrow> 0 < kEncodedBlockSizes ! n) \<and>
      (n < 8 \<longrightarrow> kEncodedBlockSizes ! n < 11) \<and> (n = 8 \<longrightarrow> kEncodedBlockSizes ! n = 11)"
    by (elim insertE emptyE) (simp_all add: kEncodedBlockSizes_def)
  then show "kEncodedBlockSizes ! n \<le> 11" "0 < n \<longleftrightarrow> 0 < kEncodedBlockSizes ! n"
    "n < 8 \<Longrightarrow> kEncodedBlockSizes ! n < 11" "n = 8 \<Longrightarrow> kEncodedBlockSizes ! n = 11" by simp_all
qed

lemma decode58_sound: "decode58 encoded = Some bytes \<Longrightarrow> encoded = encode_base58 bytes"
proof (induction encoded arbitrary: bytes rule: decode58.induct)
  case (1 encoded)
  note D = "1.prems" [unfolded decode58.simps [of encoded]]
  show ?case
  proof (cases "11 \<le> length encoded")
    case True
    with D obtain out more where o: "decode_block (take 11 encoded) 8 = Some out"
      "decode58 (drop 11 encoded) = Some more" "bytes = out @ more"
      by (auto split: option.splits)
    have "length (take 11 encoded) = 11" using True by simp
    with o(1) have out: "length out = 8" "take 11 encoded = encode_block 11 out"
      using decode_block_iff [of "take 11 encoded" 8 out] by simp_all
    have "drop 11 encoded = encode_base58 more" using "1.IH" [OF True o(1) o(2)] .
    with out o(3) show ?thesis
      by (subst encode_base58.simps) (metis append_eq_conv_conj append_take_drop_id length_append le_add1)
  next
    case False
    show ?thesis
    proof (cases "encoded = []")
      case True
      with D show ?thesis by (simp add: encode_base58.simps kEncodedBlockSizes_def encode_block_def)
    next
      case ne: False
      with D False obtain n where n: "decoded_block_size (length encoded) = Some n" "decode_block encoded n = Some bytes"
        by (auto split: option.splits)
      then have n': "n \<le> 8" "length encoded = kEncodedBlockSizes ! n" by (simp_all add: decoded_block_size_eq_Some)
      have "n \<noteq> 8" using False n'(2) by (auto simp: kEncodedBlockSizes_def)
      moreover have "0 < n" using block_sizes(2) [OF n'(1)] ne unfolding n'(2) [symmetric] by simp
      moreover have "length bytes = n \<and> encoded = encode_block (length encoded) bytes"
        using n(2) n'(1) ne False \<open>0 < n\<close> decode_block_iff [of encoded n bytes] by simp
      ultimately show ?thesis using n' by (simp add: encode_base58.simps [of bytes])
    qed
  qed
qed

lemma decode58_complete: "decode58 (encode_base58 bytes) = Some bytes"
proof (induction bytes rule: encode_base58.induct)
  case (1 bytes)
  show ?case
  proof (cases "8 \<le> length bytes")
    case True
    have b: "decode_block (encode_block 11 (take 8 bytes)) 8 = Some (take 8 bytes)"
      using True block_fits [of 8 "take 8 bytes"] block_sizes(4) [of 8] by (subst decode_block_iff) simp_all
    from True have "encode_base58 bytes = encode_block 11 (take 8 bytes) @ encode_base58 (drop 8 bytes)"
      by (simp add: encode_base58.simps [of bytes])
    then show ?thesis
      using 1 [OF True] b decode58.simps [of "encode_base58 bytes"] by simp
  next
    case False
    let ?k = "kEncodedBlockSizes ! length bytes"
    have n: "length bytes \<le> 8" using False by simp
    from False have e: "encode_base58 bytes = encode_block ?k bytes"
      by (simp add: encode_base58.simps [of bytes])
    show ?thesis
    proof (cases "bytes = []")
      case True
      then show ?thesis unfolding e by (simp add: kEncodedBlockSizes_def encode_block_def decode58.simps)
    next
      case ne: False
      have k: "0 < ?k" "?k < 11" using block_sizes(2,3) [OF n] ne False by simp_all
      have "decoded_block_size ?k = Some (length bytes)" using n by (simp add: decoded_block_size_eq_Some)
      moreover have "decode_block (encode_block ?k bytes) (length bytes) = Some bytes"
        using k n ne block_fits [OF n refl] by (subst decode_block_iff) simp_all
      moreover have "encode_block ?k bytes \<noteq> []" using k by (metis length_encode_block length_greater_0_conv)
      ultimately show ?thesis unfolding e using k by (simp add: decode58.simps [of "encode_block ?k bytes"])
    qed
  qed
qed

lemma decode_base58_iff: "decode_base58 encoded = Some bytes \<longleftrightarrow> encoded = encode_base58 bytes"
  unfolding decode_base58_decode58 using decode58_sound decode58_complete by blast

section \<open>The prefix\<close>

lemma u8_masks: "(0x7f :: u8) = mask 7"
  by (simp add: mask_eq_exp_minus_1)

lemma varint_high_bit:
  assumes "varint_loop bytes i shift v = Some (v', n)" "0 < i" "shift = 7 * i"
  shows "\<exists>k\<ge>shift. bit v' k"
  using assms
proof (induction bytes i shift v rule: varint_loop.induct)
  case (1 bytes i shift v)
  let ?part = "ucast (bytes ! i AND 0x7f) :: u64"
  note S = "1.prems"(1) [unfolded varint_loop.simps [of bytes i shift v]]
  have go: "i < length bytes \<and> i < 10" and ok: "\<not> (shift \<ge> 64 \<or> shift = 63 \<and> ?part > 1)"
    using S by (auto simp: Let_def split: if_splits)
  show ?case
  proof (cases "bytes ! i AND 0x80 = 0")
    case True
    with S go ok "1.prems"(2) have p: "?part \<noteq> 0" and v': "v' = v OR push_bit shift ?part"
      by (auto simp: Let_def split: if_splits)
    from p obtain j where j: "bit ?part j" by (metis bit_eqI bit_0_eq bot_apply bot_bool_def)
    then have "j < 7" unfolding u8_masks by (simp add: bit_simps)
    have "shift + j < 64"
    proof (cases "shift = 63")
      case True
      with ok have "?part \<le> 1" by (simp add: not_less)
      with p have "?part = 1" by (metis linorder_not_less word_le_0_iff word_less_1 order_le_less)
      with j have "j = 0" by (simp add: bit_1_iff)
      with True show ?thesis by simp
    next
      case False
      with ok have "7 * i < 63" unfolding "1.prems"(3) by linarith
      then have "shift \<le> 56" unfolding "1.prems"(3) by presburger
      with \<open>j < 7\<close> show ?thesis by simp
    qed
    with j have "bit (push_bit shift ?part) (shift + j)" by (simp add: bit_simps)
    then show ?thesis unfolding v' by (intro exI [of _ "shift + j"]) (simp add: bit_simps)
  next
    case False
    with S go ok have "varint_loop bytes (i + 1) (shift + 7) (v OR push_bit shift ?part) = Some (v', n)"
      by (simp add: Let_def)
    with "1.IH" [OF go refl refl ok refl False] "1.prems"(3) have "\<exists>k\<ge>shift + 7. bit v' k" by simp
    then show ?thesis by (meson add_leD1)
  qed
qed

lemma high_bit_iff: "(b :: u8) AND 0x80 = 0 \<longleftrightarrow> unat b < 128"
proof -
  have "b AND 0x80 = 0 \<longleftrightarrow> \<not> bit b 7"
    using and_exp_eq_0_iff_not_bit [of b 7] by simp
  also have "\<dots> \<longleftrightarrow> \<not> bit (unat b) 7"
    by (simp add: bit_unsigned_iff)
  also have "\<dots> \<longleftrightarrow> even (unat b div 128)"
    by (simp add: bit_iff_odd)
  also have "\<dots> \<longleftrightarrow> unat b < 128"
  proof -
    have "unat b div 128 < 2" using unat_u8_less [of b] by (simp add: less_mult_imp_div_less)
    then show ?thesis by (auto simp: less_2_cases_iff div_eq_0_iff)
  qed
  finally show ?thesis .
qed

lemma unat_low_part: "unat (ucast (b AND 0x7f :: u8) :: u64) = unat b mod 128"
  unfolding u8_masks
  by (simp add: take_bit_eq_mask [symmetric] unsigned_ucast_eq take_bit_eq_mod unat_mod_distrib)

lemma unat_two_parts:
  "unat (ucast (b AND 0x7f :: u8) OR push_bit 7 (ucast (c AND 0x7f :: u8)) :: u64) =
    unat b mod 128 + 128 * (unat c mod 128)"
proof -
  let ?p = "ucast (b AND 0x7f) :: u64" and ?q = "ucast (c AND 0x7f) :: u64"
  have "?p AND push_bit 7 ?q = 0"
    unfolding u8_masks by (rule bit_word_eqI) (auto simp: bit_simps)
  then have "?p OR push_bit 7 ?q = ?p + ?q * 128"
    by (simp add: disjunctive_add_eq_or push_bit_eq_mult mult.commute)
  then show ?thesis
    by (simp add: unat_word_ariths unat_low_part)
qed

lemma varint_prefix:
  "read_canonical_varint content = Some (0xc5, n) \<longleftrightarrow> n = 2 \<and> take 2 content = [0xc5, 0x01]"
proof (cases content)
  case Nil
  then show ?thesis by (simp add: read_canonical_varint_def varint_loop.simps)
next
  case (Cons b0 rest)
  have first: "read_canonical_varint content =
      (if b0 AND 0x80 = 0 then Some (ucast (b0 AND 0x7f), 1) else varint_loop content 1 7 (ucast (b0 AND 0x7f)))"
    unfolding read_canonical_varint_def varint_loop.simps [of content 0] by (simp add: Cons Let_def)
  have low: "ucast (b0 AND 0x7f) \<noteq> (0xc5 :: u64)"
  proof
    assume "ucast (b0 AND 0x7f) = (0xc5 :: u64)"
    then have "unat (ucast (b0 AND 0x7f) :: u64) = 0xc5" by simp
    then have "unat b0 mod 128 = 0xc5" unfolding unat_low_part .
    then show False using mod_less_divisor [of 128 "unat b0"] by simp
  qed
  show ?thesis
  proof (cases rest)
    case Nil
    have "varint_loop content 1 7 v = None" for v
      by (subst varint_loop.simps) (simp add: Cons Nil)
    then show ?thesis using low by (simp add: first) (simp add: Cons Nil)
  next
    case rest: (Cons b1 tail)
    let ?v = "ucast (b0 AND 0x7f) OR push_bit 7 (ucast (b1 AND 0x7f)) :: u64"
    have second: "varint_loop content 1 7 (ucast (b0 AND 0x7f)) =
        (if b1 AND 0x80 = 0 then (if (ucast (b1 AND 0x7f) :: u64) = 0 then None else Some (?v, 2))
         else varint_loop content 2 14 ?v)"
      unfolding varint_loop.simps [of content 1] by (simp add: Cons rest Let_def numeral_2_eq_2)
    have third: "varint_loop content 2 14 ?v \<noteq> Some (0xc5, n)"
    proof
      assume "varint_loop content 2 14 ?v = Some (0xc5, n)"
      from varint_high_bit [OF this] obtain k where "14 \<le> k" "bit (0xc5 :: u64) k" by auto
      moreover have "(0xc5 :: u64) = take_bit 8 0xc5" by (simp add: take_bit_eq_mod)
      then have "bit (0xc5 :: u64) k \<Longrightarrow> k < 8" by (metis bit_take_bit_iff)
      ultimately show False by simp
    qed
    have "?v = 0xc5 \<and> \<not> unat b0 < 128 \<and> unat b1 < 128 \<longleftrightarrow> unat b0 = 197 \<and> unat b1 = 1"
    proof -
      have "?v = 0xc5 \<longleftrightarrow> unat b0 mod 128 + 128 * (unat b1 mod 128) = 197"
        unfolding word_unat_eq_iff unat_two_parts by simp
      moreover have "\<not> a < 128 \<and> c < 128 \<Longrightarrow> a < 256 \<Longrightarrow>
          a mod 128 + 128 * (c mod 128) = 197 \<longleftrightarrow> a = 197 \<and> c = 1" for a c :: nat
        using le_mod_geq [of 128 a] by (cases "c = 0"; cases "c = 1") auto
      ultimately show ?thesis using unat_u8_less [of b0] by auto
    qed
    moreover have "(b0 = 0xc5 \<and> b1 = 1) \<longleftrightarrow> (unat b0 = 197 \<and> unat b1 = 1)"
      by (simp add: word_unat_eq_iff)
    moreover have "(ucast (b1 AND 0x7f) :: u64) \<noteq> 0" if "unat b1 = 1"
      using that unat_low_part [of b1] by auto
    ultimately show ?thesis
      using low third unfolding first second high_bit_iff by (auto simp: Cons rest numeral_2_eq_2)
  qed
qed

section \<open>Addresses\<close>

text \<open>The reference encoder of an address.\<close>

definition address_content :: "p2p_payout_address \<Rightarrow> u8 list" where
  "address_content p = [0xc5, 0x01] @ bytes_of (pa_spend_public_key p) @ bytes_of (pa_view_public_key p)"

definition encode_zano_address :: "p2p_payout_address \<Rightarrow> string" where
  "encode_zano_address p =
    encode_base58 (address_content p @ take 4 (bytes_of (cn_fast_hash (address_content p))))"

lemma length_address_content [simp]: "length (address_content p) = 66"
  by (simp add: address_content_def)

lemma decode_encode_address:
  "decode_zano_standard_address (encode_zano_address p) = \<lparr>address_status = Address_valid, address_payout = p\<rparr>"
proof -
  let ?content = "address_content p" and ?sum = "take 4 (bytes_of (cn_fast_hash (address_content p)))"
  have "decode_base58 (encode_zano_address p) = Some (?content @ ?sum)"
    by (simp add: encode_zano_address_def decode_base58_iff)
  moreover have "read_canonical_varint ?content = Some (0xc5, 2)"
    unfolding varint_prefix by (simp add: address_content_def)
  moreover have "slice 0 32 (drop 2 ?content) = bytes_of (pa_spend_public_key p)"
    "slice 32 32 (drop 2 ?content) = bytes_of (pa_view_public_key p)"
    by (simp_all add: address_content_def slice_def)
  ultimately show ?thesis
    by (cases p) (simp add: decode_zano_standard_address_def kAddressChecksumSize_def
        kClassicAddressPayloadSize_def kZanoStandardAddressBase58Prefix_def)
qed

lemma decode_address_valid:
  assumes "address_status (decode_zano_standard_address a) = Address_valid"
  shows "a = encode_zano_address (address_payout (decode_zano_standard_address a))"
proof -
  obtain decoded where d: "decode_base58 a = Some decoded"
    using assms by (auto simp: decode_zano_standard_address_def split: option.splits)
  let ?n = "length decoded - 4" and ?content = "take (length decoded - 4) decoded"
  have len: "4 < length decoded"
    and sum: "drop ?n decoded = take 4 (bytes_of (cn_fast_hash ?content))"
    and prefix: "read_canonical_varint ?content = Some (0xc5, snd (the (read_canonical_varint ?content)))"
    and size: "length ?content - snd (the (read_canonical_varint ?content)) = 64"
    and res: "decode_zano_standard_address a = \<lparr>address_status = Address_valid, address_payout =
      \<lparr>pa_spend_public_key = array_of (slice 0 32 (drop (snd (the (read_canonical_varint ?content))) ?content)),
       pa_view_public_key = array_of (slice 32 32 (drop (snd (the (read_canonical_varint ?content))) ?content))\<rparr>\<rparr>"
    using assms d
    by (auto simp: decode_zano_standard_address_def Let_def kAddressChecksumSize_def kClassicAddressPayloadSize_def
        kZanoStandardAddressBase58Prefix_def split: if_splits option.splits)
  have two: "snd (the (read_canonical_varint ?content)) = 2" "take 2 ?content = [0xc5, 0x01]"
    using prefix unfolding varint_prefix by simp_all
  let ?p = "address_payout (decode_zano_standard_address a)"
  have c66: "length ?content = 66" using size two by simp
  have "slice 0 32 (drop 2 ?content) @ slice 32 32 (drop 2 ?content) = drop 2 ?content"
    using c66 by (simp add: slice_def take_drop_join)
  then have "address_content ?p = take 2 ?content @ drop 2 ?content"
    using res two c66 by (simp add: address_content_def)
  then have "address_content ?p = ?content" unfolding append_take_drop_id .
  then have "encode_zano_address ?p = encode_base58 (?content @ drop ?n decoded)"
    by (simp add: encode_zano_address_def sum)
  also have "\<dots> = encode_base58 decoded" by simp
  finally show ?thesis using d by (simp add: decode_base58_iff)
qed

text \<open>C37. Payout addresses are decoded exactly. An address is accepted and gives a pair of public
  keys exactly when it is the standard encoding of that pair: the prefix byte of the network, the
  two keys and the four checksum bytes in block base58. Every pair of keys has exactly one address,
  and a changed character, a non-minimal prefix or trailing data is never accepted as the same one.\<close>

theorem zano_address_exact:
  "decode_zano_standard_address a = \<lparr>address_status = Address_valid, address_payout = p\<rparr> \<longleftrightarrow>
    a = encode_zano_address p"
  using decode_address_valid [of a] decode_encode_address [of p] by auto

end
