(* ===== verification/Stratum_Session.thy ===== *)
theory Stratum_Session
  imports Zano_Address Chain_Machine
begin

text \<open>
  \<open>src/src/stratum_session.cpp\<close>: the registry of miner connections. It hands out session
  numbers, applies logins, keeps the published template and issues one job per template to a
  session. Every operation either throws before it changes anything or returns the new registry.
\<close>

section \<open>Data\<close>

record stratum_session_config =
  default_difficulty :: u64
  minimum_difficulty :: u64
  maximum_difficulty :: u64

record stratum_parent_binding =
  binding_parent_id :: share_id
  binding_share_height :: u64

record stratum_template =
  template_version :: u64
  template_header_hash :: hash256
  template_seed_hash :: hash256
  template_height :: u64
  template_network_difficulty :: difficulty128
  template_parent_binding :: "stratum_parent_binding option"

record stratum_work =
  work_header_hash :: hash256
  work_seed_hash :: hash256
  work_share_target :: difficulty_target
  work_height :: u64

record stratum_issued_work =
  job_version :: u64
  job_session_id :: u64
  job_share_difficulty :: difficulty128
  wire_work :: stratum_work
  trusted_context :: share_work_context
  job_parent_binding :: "stratum_parent_binding option"

datatype stratum_work_match = Match_current | Match_stale | Match_unknown

record stratum_session =
  session_id :: u64
  logged_in :: bool
  session_username :: string
  session_worker :: string
  session_payout :: "payout_public_keys option"
  configured_share_difficulty :: u64
  current_work :: "stratum_issued_work option"
  previous_work :: "stratum_issued_work option"

record stratum_login =
  login_username :: string
  login_password :: string
  login_worker :: string
  requested_difficulty :: "u64 option"

record stratum_sessions =
  session_config :: stratum_session_config
  next_session_id :: u64
  next_template_version :: u64
  sessions :: "(u64, stratum_session) fmap"
  current_template :: "stratum_template option"

section \<open>Operations\<close>

definition std_clamp :: "u64 \<Rightarrow> u64 \<Rightarrow> u64 \<Rightarrow> u64" where
  "std_clamp v lo hi = (if v < lo then lo else if hi < v then hi else v)"

definition clamp_requested_difficulty :: "stratum_session_config \<Rightarrow> u64 option \<Rightarrow> u64" where
  "clamp_requested_difficulty config requested =
    (let chosen = (case requested of None \<Rightarrow> default_difficulty config
           | Some r \<Rightarrow> if r = 0 then default_difficulty config else r)
     in std_clamp chosen (minimum_difficulty config) (maximum_difficulty config))"

definition make_stratum_sessions :: "stratum_session_config \<Rightarrow> stratum_sessions result" where
  "make_stratum_sessions config =
    (if minimum_difficulty config = 0
     then Throw (Runtime_error ''Stratum minimum share difficulty must be nonzero'')
     else if maximum_difficulty config < minimum_difficulty config
     then Throw (Runtime_error ''Stratum maximum share difficulty is below minimum'')
     else if default_difficulty config < minimum_difficulty config \<or>
       default_difficulty config > maximum_difficulty config
     then Throw (Runtime_error ''Stratum default share difficulty is outside configured range'')
     else Ok \<lparr>session_config = config, next_session_id = 1, next_template_version = 1,
       sessions = fmempty, current_template = None\<rparr>)"

definition create_session :: "stratum_sessions \<Rightarrow> (stratum_sessions \<times> u64) result" where
  "create_session reg =
    (if next_session_id reg = 0 then Throw (Runtime_error ''Stratum session id space exhausted'')
     else
       let i = next_session_id reg;
           session = \<lparr>session_id = i, logged_in = False, session_username = [], session_worker = [],
             session_payout = None,
             configured_share_difficulty = default_difficulty (session_config reg),
             current_work = None, previous_work = None\<rparr>;
           kept = (case fmlookup (sessions reg) i of None \<Rightarrow> session | Some old \<Rightarrow> old)
       in Ok (reg\<lparr>next_session_id := i + 1, sessions := fmupd i kept (sessions reg)\<rparr>, i))"

definition remove_session :: "stratum_sessions \<Rightarrow> u64 \<Rightarrow> stratum_sessions" where
  "remove_session reg i = reg\<lparr>sessions := fmdrop i (sessions reg)\<rparr>"

definition find_session :: "stratum_sessions \<Rightarrow> u64 \<Rightarrow> stratum_session option" where
  "find_session reg i = fmlookup (sessions reg) i"

definition require_session :: "stratum_sessions \<Rightarrow> u64 \<Rightarrow> stratum_session result" where
  "require_session reg i =
    (case fmlookup (sessions reg) i of
      None \<Rightarrow> Throw (Runtime_error ''unknown Stratum session'')
    | Some session \<Rightarrow> Ok session)"

definition session_login :: "stratum_sessions \<Rightarrow> u64 \<Rightarrow> stratum_login \<Rightarrow> stratum_sessions result" where
  "session_login reg i login_request =
    bindE (require_session reg i) (\<lambda>session.
      if login_username login_request = []
      then Throw (Runtime_error ''Stratum login username must not be empty'')
      else
        let decoded = decode_zano_standard_address (login_username login_request);
            session' = session\<lparr>session_username := login_username login_request,
              session_worker := (if login_worker login_request = [] then decimal_of_nat (unat (session_id session))
                                 else login_worker login_request),
              session_payout :=
                (if address_status decoded = Address_valid
                 then Some \<lparr>spend_public_key = pa_spend_public_key (address_payout decoded),
                            view_public_key = pa_view_public_key (address_payout decoded)\<rparr>
                 else None),
              configured_share_difficulty :=
                clamp_requested_difficulty (session_config reg) (requested_difficulty login_request),
              logged_in := True, current_work := None, previous_work := None\<rparr>
        in Ok (reg\<lparr>sessions := fmupd i session' (sessions reg)\<rparr>))"

text \<open>The check of a parent binding; \<open>what\<close> is the word that differs between its two uses.\<close>

definition check_binding :: "string \<Rightarrow> stratum_parent_binding option \<Rightarrow> unit result" where
  "check_binding what b =
    (case b of
      None \<Rightarrow> Ok ()
    | Some binding \<Rightarrow>
        if binding_parent_id binding = 0 \<and> binding_share_height binding \<noteq> 0
        then Throw (Runtime_error (''root Stratum '' @ what @ '' binding must use share height zero''))
        else if binding_parent_id binding \<noteq> 0 \<and> binding_share_height binding = 0
        then Throw (Runtime_error (''non-root Stratum '' @ what @ '' binding must use nonzero share height''))
        else Ok ())"

definition same_template ::
  "stratum_template \<Rightarrow> hash256 \<Rightarrow> hash256 \<Rightarrow> u64 \<Rightarrow> difficulty128 \<Rightarrow> stratum_parent_binding option \<Rightarrow> bool"
where
  "same_template t header seed height network binding \<longleftrightarrow>
    template_header_hash t = header \<and> template_seed_hash t = seed \<and> template_height t = height \<and>
    template_network_difficulty t = network \<and> template_parent_binding t = binding"

definition publish_template ::
  "stratum_sessions \<Rightarrow> hash256 \<Rightarrow> hash256 \<Rightarrow> u64 \<Rightarrow> difficulty128 \<Rightarrow> stratum_parent_binding option \<Rightarrow>
    (stratum_sessions \<times> u64) result"
where
  "publish_template reg header seed height network binding =
    (if difficulty128_is_zero network
     then Throw (Runtime_error ''Stratum template network difficulty must be nonzero'')
     else bindE (check_binding ''template'' binding) (\<lambda>_.
       if current_template reg \<noteq> None \<and>
         same_template (the (current_template reg)) header seed height network binding
       then Ok (reg, template_version (the (current_template reg)))
       else if next_template_version reg = 0
       then Throw (Runtime_error ''Stratum template version space exhausted'')
       else
         let work_template = \<lparr>template_version = next_template_version reg,
               template_header_hash = header, template_seed_hash = seed, template_height = height,
               template_network_difficulty = network, template_parent_binding = binding\<rparr>
         in Ok (reg\<lparr>next_template_version := next_template_version reg + 1,
                  current_template := Some work_template\<rparr>, template_version work_template)))"

definition effective_share_difficulty :: "stratum_session \<Rightarrow> stratum_template \<Rightarrow> difficulty128 result" where
  "effective_share_difficulty session work_template =
    bindE (difficulty128_from_decimal (decimal_of_nat (unat (configured_share_difficulty session)))) (\<lambda>configured.
      if template_network_difficulty work_template < configured
      then Ok (template_network_difficulty work_template) else Ok configured)"

definition job_difficulty ::
  "stratum_session \<Rightarrow> stratum_template \<Rightarrow> difficulty128 option \<Rightarrow> difficulty128 result"
where
  "job_difficulty session t consensus =
    (case consensus of
      None \<Rightarrow> effective_share_difficulty session t
    | Some d \<Rightarrow>
        if difficulty128_is_zero d
        then Throw (Runtime_error ''consensus Stratum share difficulty must be nonzero'')
        else if template_network_difficulty t < d
        then Throw (Runtime_error ''consensus Stratum share difficulty exceeds network difficulty'')
        else Ok d)"

text \<open>The job a session gets for a template.\<close>

definition issued_job ::
  "stratum_session \<Rightarrow> stratum_template \<Rightarrow> difficulty128 \<Rightarrow> stratum_parent_binding option \<Rightarrow> difficulty_target \<Rightarrow>
    stratum_issued_work"
where
  "issued_job session t difficulty parent target =
    \<lparr>job_version = template_version t, job_session_id = session_id session,
     job_share_difficulty = difficulty,
     wire_work = \<lparr>work_header_hash = template_header_hash t, work_seed_hash = template_seed_hash t,
       work_share_target = target, work_height = template_height t\<rparr>,
     trusted_context = \<lparr>ctx_zano_height = template_height t, ctx_mining_header_hash = template_header_hash t,
       ctx_network_difficulty = template_network_difficulty t\<rparr>,
     job_parent_binding = parent\<rparr>"

definition job_unchanged ::
  "stratum_session \<Rightarrow> stratum_template \<Rightarrow> difficulty128 \<Rightarrow> stratum_parent_binding option \<Rightarrow> bool"
where
  "job_unchanged session t difficulty parent \<longleftrightarrow>
    (case current_work session of
      None \<Rightarrow> False
    | Some w \<Rightarrow> job_version w = template_version t \<and> job_share_difficulty w = difficulty \<and>
        job_parent_binding w = parent)"

definition issue_work ::
  "stratum_sessions \<Rightarrow> u64 \<Rightarrow> difficulty128 option \<Rightarrow> stratum_parent_binding option \<Rightarrow>
    (stratum_sessions \<times> stratum_issued_work) result"
where
  "issue_work reg i consensus binding =
    bindE (require_session reg i) (\<lambda>session.
      if \<not> logged_in session then Throw (Runtime_error ''Stratum session is not logged in'')
      else (case current_template reg of
        None \<Rightarrow> Throw (Runtime_error ''no Stratum template is available'')
      | Some t \<Rightarrow>
          if template_parent_binding t \<noteq> None \<and> binding \<noteq> None \<and> binding \<noteq> template_parent_binding t
          then Throw (Runtime_error ''Stratum work parent does not match published template'')
          else
            let parent = (if template_parent_binding t \<noteq> None then template_parent_binding t else binding) in
            bindE (check_binding ''parent'' parent) (\<lambda>_.
            bindE (job_difficulty session t consensus) (\<lambda>difficulty.
              if job_unchanged session t difficulty parent then Ok (reg, the (current_work session))
              else bindE (difficulty_to_target (difficulty128_to_decimal difficulty)) (\<lambda>target.
                let issued = issued_job session t difficulty parent target
                in Ok (reg\<lparr>sessions := fmupd i (session\<lparr>previous_work := current_work session,
                         current_work := Some issued\<rparr>) (sessions reg)\<rparr>, issued))))))"

definition match_submission :: "stratum_sessions \<Rightarrow> u64 \<Rightarrow> hash256 \<Rightarrow> stratum_work_match result" where
  "match_submission reg i header =
    bindE (require_session reg i) (\<lambda>session.
      case current_work session of
        None \<Rightarrow> Ok Match_unknown
      | Some w \<Rightarrow>
          if work_header_hash (wire_work w) = header then Ok Match_current
          else (case previous_work session of
            None \<Rightarrow> Ok Match_unknown
          | Some p \<Rightarrow> if work_header_hash (wire_work p) = header then Ok Match_stale else Ok Match_unknown))"

definition stratum_work_match_name :: "stratum_work_match \<Rightarrow> string" where
  "stratum_work_match_name match =
    (case match of Match_current \<Rightarrow> ''current'' | Match_stale \<Rightarrow> ''stale'' | Match_unknown \<Rightarrow> ''unknown'')"

section \<open>Difficulties and targets\<close>

lemma difficulty_target_total:
  assumes "d \<noteq> 0"
  obtains target where "difficulty_to_target (difficulty128_to_decimal d) = Ok target"
    "\<And>h. hash_meets_target h target \<longleftrightarrow> arr_val h * arr_val d < 2 ^ 256"
proof -
  note p = parse_difficulty_to_decimal [OF assms]
  then obtain target where t: "difficulty_to_target (difficulty128_to_decimal d) = Ok target"
    by (simp add: difficulty_to_target_def)
  have "hash_meets_target h target \<longleftrightarrow> arr_val h * arr_val d < 2 ^ 256" for h
    using hash_meets_difficulty128 [OF assms, of h] t by (simp add: hash_meets_difficulty_def)
  with t show thesis by (rule that)
qed

definition difficulty_of_u64 :: "u64 \<Rightarrow> difficulty128" where
  "difficulty_of_u64 v = array_of_nat (unat v)"

lemma arr_val_difficulty_of_u64 [simp]: "arr_val (difficulty_of_u64 v) = unat v"
  using unsigned_less [where w = v and ?'a = nat] by (simp add: difficulty_of_u64_def arr_val_array_of_nat)

lemma effective_share_difficulty_eq:
  assumes "configured_share_difficulty session \<noteq> 0"
  shows "effective_share_difficulty session t =
    Ok (min (difficulty_of_u64 (configured_share_difficulty session)) (template_network_difficulty t))"
proof -
  have "difficulty128_from_decimal (decimal_of_nat (unat (configured_share_difficulty session))) =
      Ok (difficulty_of_u64 (configured_share_difficulty session))"
    using assms by (simp add: difficulty128_from_decimal_iff decimal_of_nat_props unat_gt_0)
  then show ?thesis by (auto simp: effective_share_difficulty_def min_def not_le not_less)
qed

section \<open>Invariant\<close>

definition binding_ok :: "stratum_parent_binding option \<Rightarrow> bool" where
  "binding_ok b \<longleftrightarrow>
    (case b of None \<Rightarrow> True | Some x \<Rightarrow> binding_parent_id x = 0 \<longleftrightarrow> binding_share_height x = 0)"

lemma check_binding_eq_Ok [simp]: "check_binding what b = Ok u \<longleftrightarrow> binding_ok b"
  by (auto simp: check_binding_def binding_ok_def split: option.split)

definition template_ok :: "stratum_sessions \<Rightarrow> stratum_template \<Rightarrow> bool" where
  "template_ok reg t \<longleftrightarrow>
    template_network_difficulty t \<noteq> 0 \<and> binding_ok (template_parent_binding t) \<and> template_version t \<noteq> 0 \<and>
    (next_template_version reg = 0 \<or> template_version t < next_template_version reg)"

definition job_ok :: "stratum_issued_work \<Rightarrow> bool" where
  "job_ok w \<longleftrightarrow>
    job_share_difficulty w \<noteq> 0 \<and> job_share_difficulty w \<le> ctx_network_difficulty (trusted_context w) \<and>
    ctx_mining_header_hash (trusted_context w) = work_header_hash (wire_work w) \<and>
    ctx_zano_height (trusted_context w) = work_height (wire_work w) \<and> binding_ok (job_parent_binding w) \<and>
    (\<forall>h. hash_meets_target h (work_share_target (wire_work w)) \<longleftrightarrow>
      arr_val h * arr_val (job_share_difficulty w) < 2 ^ 256)"

text \<open>A job belongs to a template at most as new as the current one, and one with the current version
  carries exactly the current template.\<close>

definition job_matches :: "stratum_issued_work \<Rightarrow> stratum_template \<Rightarrow> bool" where
  "job_matches w t \<longleftrightarrow>
    trusted_context w = \<lparr>ctx_zano_height = template_height t, ctx_mining_header_hash = template_header_hash t,
      ctx_network_difficulty = template_network_difficulty t\<rparr> \<and>
    work_header_hash (wire_work w) = template_header_hash t \<and>
    work_seed_hash (wire_work w) = template_seed_hash t \<and> work_height (wire_work w) = template_height t"

definition job_current :: "stratum_sessions \<Rightarrow> stratum_issued_work \<Rightarrow> bool" where
  "job_current reg w \<longleftrightarrow>
    (\<exists>t. current_template reg = Some t \<and> job_version w \<le> template_version t \<and>
      (job_version w = template_version t \<longrightarrow> job_matches w t))"

lemma job_current_update [simp]:
  "job_current (reg\<lparr>sessions := x\<rparr>) w \<longleftrightarrow> job_current reg w"
  "job_current (reg\<lparr>next_session_id := n\<rparr>) w \<longleftrightarrow> job_current reg w"
  "job_current (reg\<lparr>next_session_id := n, sessions := x\<rparr>) w \<longleftrightarrow> job_current reg w"
  by (simp_all add: job_current_def)

definition session_ok :: "stratum_sessions \<Rightarrow> u64 \<Rightarrow> stratum_session \<Rightarrow> bool" where
  "session_ok reg i s \<longleftrightarrow>
    session_id s = i \<and> i \<noteq> 0 \<and> (next_session_id reg = 0 \<or> i < next_session_id reg) \<and>
    minimum_difficulty (session_config reg) \<le> configured_share_difficulty s \<and>
    configured_share_difficulty s \<le> maximum_difficulty (session_config reg) \<and>
    (current_work s = None \<longrightarrow> previous_work s = None) \<and>
    (\<forall>w. current_work s = Some w \<or> previous_work s = Some w \<longrightarrow> logged_in s \<and> job_session_id w = i \<and> job_ok w \<and>
      job_current reg w)"

definition sessions_inv :: "stratum_sessions \<Rightarrow> bool" where
  "sessions_inv reg \<longleftrightarrow>
    minimum_difficulty (session_config reg) \<noteq> 0 \<and>
    minimum_difficulty (session_config reg) \<le> default_difficulty (session_config reg) \<and>
    default_difficulty (session_config reg) \<le> maximum_difficulty (session_config reg) \<and>
    (\<forall>t. current_template reg = Some t \<longrightarrow> template_ok reg t) \<and>
    (\<forall>i s. fmlookup (sessions reg) i = Some s \<longrightarrow> session_ok reg i s)"

lemma sessions_invD:
  assumes "sessions_inv reg"
  shows "current_template reg = Some t \<Longrightarrow> template_ok reg t"
    "fmlookup (sessions reg) i = Some s \<Longrightarrow> session_ok reg i s"
  using assms by (simp_all add: sessions_inv_def)

lemma make_stratum_sessions_inv: "make_stratum_sessions config = Ok reg \<Longrightarrow> sessions_inv reg"
  by (auto simp: make_stratum_sessions_def sessions_inv_def split: if_splits)

lemma next_id_advances:
  assumes "n \<noteq> (0 :: u64)" "i \<noteq> 0" "i < n \<or> i = n"
  shows "n + 1 = 0 \<or> i < n + 1"
proof (cases "n + 1 = 0")
  case False
  then have "unat (n + 1) = unat n + 1" by (metis unatSuc Suc_eq_plus1 add.commute)
  with assms(3) show ?thesis by (auto simp: word_less_nat_alt)
qed simp

lemma create_session_inv:
  assumes "sessions_inv reg" "create_session reg = Ok (reg', i)"
  shows "sessions_inv reg'" "i = next_session_id reg" "i \<noteq> 0" "fmlookup (sessions reg) i = None"
    "next_session_id reg' = i + 1"
proof -
  show i: "i = next_session_id reg" "i \<noteq> 0" "next_session_id reg' = i + 1"
    using assms(2) by (auto simp: create_session_def Let_def split: if_splits)
  show new: "fmlookup (sessions reg) i = None"
  proof (rule ccontr)
    assume "fmlookup (sessions reg) i \<noteq> None"
    then obtain s where "fmlookup (sessions reg) i = Some s" by blast
    from sessions_invD(2) [OF assms(1) this] show False using i by (auto simp: session_ok_def)
  qed
  define s where "s = \<lparr>session_id = i, logged_in = False, session_username = [], session_worker = [],
      session_payout = None, configured_share_difficulty = default_difficulty (session_config reg),
      current_work = None, previous_work = None\<rparr>"
  have reg': "reg' = reg\<lparr>next_session_id := i + 1, sessions := fmupd i s (sessions reg)\<rparr>"
    using assms(2) new i(1,2) by (simp add: create_session_def s_def Let_def)
  have "session_ok reg' i s"
    using i next_id_advances [of i i] assms(1) by (simp add: session_ok_def s_def reg' sessions_inv_def)
  moreover have "session_ok reg' j x" if "fmlookup (sessions reg) j = Some x" for j x
    using sessions_invD(2) [OF assms(1) that] i next_id_advances [of i j]
    by (auto simp: session_ok_def reg')
  ultimately show "sessions_inv reg'"
    using assms(1) by (auto simp: sessions_inv_def template_ok_def reg')
qed

lemma remove_session_inv: "sessions_inv reg \<Longrightarrow> sessions_inv (remove_session reg i)"
  by (auto simp: sessions_inv_def remove_session_def session_ok_def template_ok_def split: if_splits)

lemma clamp_bounds:
  assumes "minimum_difficulty config \<le> maximum_difficulty config"
  shows "minimum_difficulty config \<le> clamp_requested_difficulty config r"
    "clamp_requested_difficulty config r \<le> maximum_difficulty config"
  using assms by (auto simp: clamp_requested_difficulty_def std_clamp_def Let_def not_less)

text \<open>An operation that replaces one session keeps the invariant when the new session is sound.\<close>

lemma sessions_inv_update:
  assumes "sessions_inv reg" "session_ok reg i s"
  shows "sessions_inv (reg\<lparr>sessions := fmupd i s (sessions reg)\<rparr>)"
  using assms by (auto simp: sessions_inv_def session_ok_def template_ok_def)

lemma session_login_inv:
  assumes "sessions_inv reg" "session_login reg i request = Ok reg'"
  shows "sessions_inv reg'"
proof -
  obtain s where s: "fmlookup (sessions reg) i = Some s"
    using assms(2) by (auto simp: session_login_def require_session_def bindE_eq_Ok split: option.splits)
  have "minimum_difficulty (session_config reg) \<le> maximum_difficulty (session_config reg)"
    using assms(1) unfolding sessions_inv_def by (meson order_trans)
  note C = clamp_bounds [OF this]
  from sessions_invD(2) [OF assms(1) s] C show ?thesis
    using assms(2) s
    by (auto simp: session_login_def require_session_def bindE_eq_Ok Let_def session_ok_def
        intro!: sessions_inv_update [OF assms(1)] split: if_splits)
qed

lemma publish_template_cases:
  assumes "publish_template reg header seed height network binding = Ok (reg', v)"
  obtains (same) t where "network \<noteq> 0" "binding_ok binding" "current_template reg = Some t" "reg' = reg"
      "v = template_version t" "same_template t header seed height network binding"
    | (fresh) t where "network \<noteq> 0" "binding_ok binding" "next_template_version reg \<noteq> 0"
      "v = next_template_version reg" "template_version t = v" "same_template t header seed height network binding"
      "reg' = reg\<lparr>next_template_version := v + 1, current_template := Some t\<rparr>"
proof -
  define t where "t = \<lparr>template_version = next_template_version reg, template_header_hash = header,
      template_seed_hash = seed, template_height = height, template_network_difficulty = network,
      template_parent_binding = binding\<rparr>"
  have pre: "network \<noteq> 0" "binding_ok binding"
    using assms by (auto simp: publish_template_def bindE_eq_Ok split: if_splits)
  show thesis
  proof (cases "\<exists>t. current_template reg = Some t \<and> same_template t header seed height network binding")
    case True
    then obtain t where "current_template reg = Some t" "same_template t header seed height network binding"
      by blast
    with pre assms show thesis by (intro same [of t]) (auto simp: publish_template_def bindE_eq_Ok)
  next
    case False
    with pre assms show thesis
      by (intro fresh [of t])
        (auto simp: publish_template_def bindE_eq_Ok Let_def t_def same_template_def split: if_splits)
  qed
qed

lemma publish_template_inv:
  assumes "sessions_inv reg" "publish_template reg header seed height network binding = Ok (reg', v)"
  shows "sessions_inv reg'"
  using assms(2)
proof (cases rule: publish_template_cases)
  case (fresh t)
  have "template_ok reg' t"
    using fresh next_id_advances [of v v] by (auto simp: template_ok_def same_template_def)
  moreover have "job_current reg' w" if "job_current reg w" for w
  proof -
    obtain old where old: "current_template reg = Some old" "job_version w \<le> template_version old"
      using \<open>job_current reg w\<close> by (auto simp: job_current_def)
    have "template_version old < v"
      using sessions_invD(1) [OF assms(1) old(1)] fresh(3,4) by (simp add: template_ok_def)
    with old(2) fresh(5,7) show ?thesis by (auto simp: job_current_def)
  qed
  ultimately show ?thesis
    using assms(1) fresh(7) by (auto simp: sessions_inv_def session_ok_def)
qed (use assms(1) in simp)

section \<open>Issuing work\<close>

lemma job_difficulty_ok:
  assumes "sessions_inv reg" "fmlookup (sessions reg) i = Some s" "current_template reg = Some t"
    "job_difficulty s t consensus = Ok d"
  shows "d \<noteq> 0" "d \<le> template_network_difficulty t"
    "d = (case consensus of Some c \<Rightarrow> c
      | None \<Rightarrow> min (difficulty_of_u64 (configured_share_difficulty s)) (template_network_difficulty t))"
proof -
  have n: "template_network_difficulty t \<noteq> 0"
    using sessions_invD(1) [OF assms(1,3)] by (simp add: template_ok_def)
  have "minimum_difficulty (session_config reg) \<noteq> 0" "minimum_difficulty (session_config reg) \<le> configured_share_difficulty s"
    using assms(1) sessions_invD(2) [OF assms(1,2)] by (simp_all add: sessions_inv_def session_ok_def)
  then have c: "configured_share_difficulty s \<noteq> 0" by auto
  then have c': "difficulty_of_u64 (configured_share_difficulty s) \<noteq> 0"
    by (metis arr_val_difficulty_of_u64 arr_val_zero unat_eq_zero)
  show "d \<noteq> 0" "d \<le> template_network_difficulty t"
    "d = (case consensus of Some c \<Rightarrow> c
      | None \<Rightarrow> min (difficulty_of_u64 (configured_share_difficulty s)) (template_network_difficulty t))"
    using assms(4) n c c' effective_share_difficulty_eq [OF c, of t]
    by (auto simp: job_difficulty_def min_def not_less split: option.splits if_splits)
qed

lemma issue_work_cases:
  assumes "issue_work reg i consensus binding = Ok (reg', w)"
  obtains s t parent d target where "fmlookup (sessions reg) i = Some s" "logged_in s"
    "current_template reg = Some t"
    "parent = (if template_parent_binding t \<noteq> None then template_parent_binding t else binding)"
    "template_parent_binding t = None \<or> binding = None \<or> binding = template_parent_binding t"
    "binding_ok parent" "job_difficulty s t consensus = Ok d"
    "difficulty_to_target (difficulty128_to_decimal d) = Ok target \<and> \<not> job_unchanged s t d parent \<and>
      w = issued_job s t d parent target \<and>
      reg' = reg\<lparr>sessions := fmupd i (s\<lparr>previous_work := current_work s, current_work := Some w\<rparr>) (sessions reg)\<rparr> \<or>
     job_unchanged s t d parent \<and> current_work s = Some w \<and> reg' = reg"
proof -
  obtain s where s: "fmlookup (sessions reg) i = Some s" "logged_in s"
    using assms by (auto simp: issue_work_def require_session_def bindE_eq_Ok split: option.splits if_splits)
  obtain t where t: "current_template reg = Some t"
    using assms s by (auto simp: issue_work_def require_session_def bindE_eq_Ok split: option.splits)
  define parent where "parent = (if template_parent_binding t \<noteq> None then template_parent_binding t else binding)"
  have b: "template_parent_binding t = None \<or> binding = None \<or> binding = template_parent_binding t"
    using assms s t by (auto simp: issue_work_def require_session_def split: if_splits)
  then have eq: "issue_work reg i consensus binding =
      bindE (check_binding ''parent'' parent) (\<lambda>_. bindE (job_difficulty s t consensus) (\<lambda>difficulty.
              if job_unchanged s t difficulty parent then Ok (reg, the (current_work s))
              else bindE (difficulty_to_target (difficulty128_to_decimal difficulty)) (\<lambda>target.
                let issued = issued_job s t difficulty parent target
                in Ok (reg\<lparr>sessions := fmupd i (s\<lparr>previous_work := current_work s,
                         current_work := Some issued\<rparr>) (sessions reg)\<rparr>, issued))))"
    using s t unfolding issue_work_def require_session_def parent_def Let_def by auto
  from assms [unfolded eq] obtain d where d: "binding_ok parent" "job_difficulty s t consensus = Ok d"
    by (auto simp: bindE_eq_Ok)
  show thesis
  proof (cases "job_unchanged s t d parent")
    case True
    then have "current_work s = Some w" "reg' = reg"
      using assms [unfolded eq] d by (auto simp: bindE_eq_Ok job_unchanged_def split: option.splits)
    with True show thesis by (intro that [OF s t parent_def b d]) blast+
  next
    case False
    then obtain target where "difficulty_to_target (difficulty128_to_decimal d) = Ok target"
      "w = issued_job s t d parent target"
      "reg' = reg\<lparr>sessions := fmupd i (s\<lparr>previous_work := current_work s, current_work := Some w\<rparr>) (sessions reg)\<rparr>"
      using assms [unfolded eq] d by (auto simp: bindE_eq_Ok Let_def)
    with False show thesis by (intro that [OF s t parent_def b d]) blast+
  qed
qed

lemma issued_job_ok:
  assumes "d \<noteq> 0" "d \<le> template_network_difficulty t" "binding_ok parent"
    "difficulty_to_target (difficulty128_to_decimal d) = Ok target"
  shows "job_ok (issued_job s t d parent target)"
proof -
  have "hash_meets_target h target \<longleftrightarrow> arr_val h * arr_val d < 2 ^ 256" for h
    using difficulty_target_total [OF assms(1)] assms(4) by (metis Inr_inject)
  with assms show ?thesis by (simp add: job_ok_def issued_job_def)
qed

lemma issue_work_inv:
  assumes "sessions_inv reg" "issue_work reg i consensus binding = Ok (reg', w)"
  shows "sessions_inv reg'"
  using assms(2)
proof (cases rule: issue_work_cases)
  case (1 s t parent d target)
  note d = job_difficulty_ok [OF assms(1) 1(1,3,7)]
  from 1(8) show ?thesis
  proof (elim disjE conjE)
    assume n: "difficulty_to_target (difficulty128_to_decimal d) = Ok target" "w = issued_job s t d parent target"
      "reg' = reg\<lparr>sessions := fmupd i (s\<lparr>previous_work := current_work s, current_work := Some w\<rparr>) (sessions reg)\<rparr>"
    have ok: "session_ok reg i s" using sessions_invD(2) [OF assms(1) 1(1)] .
    have "job_ok w" "job_session_id w = session_id s" "job_current reg w"
      using issued_job_ok [OF d(1,2) 1(6) n(1)] n(2) 1(3)
      by (simp_all add: issued_job_def job_current_def job_matches_def)
    with ok 1(2) have "session_ok reg i (s\<lparr>previous_work := current_work s, current_work := Some w\<rparr>)"
      by (auto simp: session_ok_def)
    then show ?thesis unfolding n(3) by (rule sessions_inv_update [OF assms(1)])
  qed (use assms(1) in simp)
qed

section \<open>The machine\<close>

inductive sessions_step :: "stratum_sessions \<Rightarrow> stratum_sessions \<Rightarrow> bool" where
  create: "create_session reg = Ok (reg', i) \<Longrightarrow> sessions_step reg reg'"
| remove: "sessions_step reg (remove_session reg i)"
| login: "session_login reg i request = Ok reg' \<Longrightarrow> sessions_step reg reg'"
| publish: "publish_template reg header seed height network binding = Ok (reg', v) \<Longrightarrow> sessions_step reg reg'"
| issue: "issue_work reg i consensus binding = Ok (reg', w) \<Longrightarrow> sessions_step reg reg'"

abbreviation sessions_reachable :: "stratum_sessions \<Rightarrow> bool" where
  "sessions_reachable \<equiv> reach (\<lambda>reg. \<exists>config. make_stratum_sessions config = Ok reg) sessions_step"

lemma sessions_step_inv: "sessions_inv reg \<Longrightarrow> sessions_step reg reg' \<Longrightarrow> sessions_inv reg'"
  by (erule sessions_step.cases)
    (auto intro: create_session_inv remove_session_inv session_login_inv publish_template_inv issue_work_inv)

interpretation sessions: machine_invariant "\<lambda>reg. \<exists>config. make_stratum_sessions config = Ok reg"
  sessions_step sessions_inv
  by unfold_locales (auto intro: make_stratum_sessions_inv sessions_step_inv)

section \<open>A session for the examples\<close>

text \<open>One logged-in session that pays to the operator's keys, and its job for the template of
  \<^const>\<open>sample_context\<close>.\<close>

definition sample_username :: string where
  "sample_username = encode_zano_address \<lparr>pa_spend_public_key = spend_public_key kCanonicalOperatorFeePayout,
    pa_view_public_key = view_public_key kCanonicalOperatorFeePayout\<rparr>"

definition sample_login :: stratum_login where
  "sample_login = \<lparr>login_username = sample_username, login_password = [], login_worker = ''rig'',
    requested_difficulty = None\<rparr>"

definition sample_session :: stratum_session where
  "sample_session = \<lparr>session_id = 1, logged_in = True, session_username = sample_username,
    session_worker = ''rig'', session_payout = Some kCanonicalOperatorFeePayout,
    configured_share_difficulty = 1000, current_work = None, previous_work = None\<rparr>"

definition sample_template :: stratum_template where
  "sample_template = \<lparr>template_version = 1, template_header_hash = 0, template_seed_hash = 0,
    template_height = 3, template_network_difficulty = array_of_nat 200000000, template_parent_binding = None\<rparr>"

definition sample_sessions :: stratum_sessions where
  "sample_sessions = \<lparr>session_config = \<lparr>default_difficulty = 1000, minimum_difficulty = 1,
      maximum_difficulty = 1000000\<rparr>, next_session_id = 2, next_template_version = 2,
    sessions = fmupd 1 sample_session fmempty, current_template = Some sample_template\<rparr>"

definition sample_job :: stratum_issued_work where
  "sample_job = issued_job sample_session sample_template (array_of_nat 100000000) None
    (projr (difficulty_to_target (difficulty128_to_decimal (array_of_nat 100000000))))"

definition sample_issued :: stratum_sessions where
  "sample_issued = sample_sessions\<lparr>sessions :=
    fmupd 1 (sample_session\<lparr>current_work := Some sample_job\<rparr>) (sessions sample_sessions)\<rparr>"

lemma sample_username_not_empty: "sample_username \<noteq> []"
proof
  assume "sample_username = []"
  then have "address_status (decode_zano_standard_address []) = Address_valid"
    using decode_encode_address unfolding sample_username_def by (metis zano_address_decode_result.select_convs(1))
  then show False by (simp add: decode_zano_standard_address_def decode_base58_def)
qed

lemma sample_sessions_reachable: "sessions_reachable sample_sessions"
proof -
  let ?config = "\<lparr>default_difficulty = 1000, minimum_difficulty = 1, maximum_difficulty = 1000000\<rparr>"
  let ?empty = "\<lparr>session_config = ?config, next_session_id = 1, next_template_version = 1,
    sessions = fmempty, current_template = None\<rparr> :: stratum_sessions"
  let ?new = "\<lparr>session_id = 1, logged_in = False, session_username = [], session_worker = [],
    session_payout = None, configured_share_difficulty = 1000, current_work = None, previous_work = None\<rparr>"
  let ?one = "?empty\<lparr>next_session_id := 2, sessions := fmupd 1 ?new fmempty\<rparr>"
  let ?in = "?one\<lparr>sessions := fmupd 1 sample_session fmempty\<rparr>"
  have "make_stratum_sessions ?config = Ok ?empty" by (simp add: make_stratum_sessions_def)
  then have 0: "sessions_reachable ?empty" by (intro reach_start) blast
  have "create_session ?empty = Ok (?one, 1)" by (simp add: create_session_def Let_def)
  with 0 have 1: "sessions_reachable ?one" by (blast intro: reach_step sessions_step.create)
  have d: "decode_zano_standard_address sample_username = \<lparr>address_status = Address_valid,
      address_payout = \<lparr>pa_spend_public_key = spend_public_key kCanonicalOperatorFeePayout,
        pa_view_public_key = view_public_key kCanonicalOperatorFeePayout\<rparr>\<rparr>"
    unfolding sample_username_def by (rule decode_encode_address)
  have keys: "\<lparr>spend_public_key = spend_public_key k, view_public_key = view_public_key k\<rparr> = k"
    for k :: payout_public_keys
    by (rule payout_public_keys.equality) simp_all
  have "fmupd 1 sample_session (fmupd 1 ?new fmempty) = fmupd 1 sample_session fmempty"
    by (rule fmap_ext) simp
  then have "session_login ?one 1 sample_login = Ok ?in"
    by (simp add: session_login_def require_session_def sample_login_def sample_username_not_empty d keys
        sample_session_def clamp_requested_difficulty_def std_clamp_def Let_def)
  with 1 have 2: "sessions_reachable ?in" by (blast intro: reach_step sessions_step.login)
  have "publish_template ?in 0 0 3 (array_of_nat 200000000) None = Ok (sample_sessions, 1)"
    by (simp add: publish_template_def check_binding_def sample_difficulties sample_sessions_def
        sample_template_def Let_def)
  with 2 show ?thesis by (blast intro: reach_step sessions_step.publish)
qed

lemma sample_issue:
  "issue_work sample_sessions 1 (Some (array_of_nat 100000000)) None = Ok (sample_issued, sample_job)"
proof -
  from difficulty_target_total [OF sample_difficulties(1)] obtain target where
    "difficulty_to_target (difficulty128_to_decimal (array_of_nat 100000000)) = Ok target" by blast
  then show ?thesis
    by (simp add: issue_work_def require_session_def sample_issued_def sample_sessions_def sample_session_def
        sample_template_def sample_job_def check_binding_def job_difficulty_def sample_difficulties
        job_unchanged_def Let_def)
qed

section \<open>Properties\<close>

lemma issue_again:
  assumes "sessions_inv reg" "issue_work reg i consensus binding = Ok (reg', w)"
  shows "issue_work reg' i consensus binding = Ok (reg', w)"
  using assms(2)
proof (cases rule: issue_work_cases)
  case (1 s t parent d target)
  from 1(8) show ?thesis
  proof (elim disjE conjE)
    assume n: "w = issued_job s t d parent target"
      "reg' = reg\<lparr>sessions := fmupd i (s\<lparr>previous_work := current_work s, current_work := Some w\<rparr>) (sessions reg)\<rparr>"
    let ?s = "s\<lparr>previous_work := current_work s, current_work := Some w\<rparr>"
    have "job_unchanged ?s t d parent" by (simp add: job_unchanged_def n(1) issued_job_def)
    moreover have "effective_share_difficulty ?s t = effective_share_difficulty s t"
      by (simp add: effective_share_difficulty_def)
    then have "job_difficulty ?s t consensus = Ok d"
      using 1(7) by (cases consensus) (simp_all add: job_difficulty_def)
    moreover have "fmlookup (sessions reg') i = Some ?s" "current_template reg' = Some t"
      using n(2) 1(3) by simp_all
    ultimately show ?thesis
      using 1(2,4,5,6) by (auto simp: issue_work_def require_session_def bindE_eq_Ok)
  qed (use assms(2) in simp)
qed



end
