(* ===== verification/Stratum_Submission.thy ===== *)
theory Stratum_Submission
  imports Stratum_Session
begin

text \<open>
  \<open>src/src/stratum_submission.cpp\<close>: the router from a miner's submission to the share chain. It
  reads the session registry and the chain, keeps the nonces it has forwarded per session, builds
  the share of the issued job and submits it with the job's trusted context. An exception of the
  share chain leaves the nonce recorded, so the router's state is returned next to the result.
\<close>

section \<open>Data\<close>

record stratum_submission =
  submission_nonce :: u64
  submission_header_hash :: hash256
  submission_mix_hash :: hash256
  submission_worker :: string

datatype stratum_submission_disposition =
  AcceptedShare | BlockCandidate | Stale | Duplicate_Submission | UnknownWork | Rejected_Submission

record stratum_submission_result =
  submission_disposition :: stratum_submission_disposition
  submission_reject_reason :: share_reject_reason
  submission_share_id :: share_id
  submission_job_version :: u64

type_synonym submitted_nonces = "(u64, (u64 \<times> u64) fset) fmap"

section \<open>Operations\<close>

definition kMinerDomain :: "u8 list" where
  "kMinerDomain = [0x5a, 0x50, 0x32, 0x4d, 0]"

definition miner_id_for_session :: "stratum_session \<Rightarrow> miner_id" where
  "miner_id_for_session session =
    (case session_payout session of
      Some p \<Rightarrow> miner_id_from_payout p
    | None \<Rightarrow> cn_fast_hash (kMinerDomain @ map of_char (session_username session)))"

text \<open>The nonces of a session; \<open>operator[]\<close> of the map creates an empty set.\<close>

definition seen_nonces :: "submitted_nonces \<Rightarrow> u64 \<Rightarrow> (u64 \<times> u64) fset" where
  "seen_nonces nonces i = (case fmlookup nonces i of None \<Rightarrow> {||} | Some seen \<Rightarrow> seen)"

definition submission_share ::
  "stratum_session \<Rightarrow> stratum_issued_work \<Rightarrow> connected_share option \<Rightarrow> u64 \<Rightarrow> u64 \<Rightarrow> share"
where
  "submission_share session issued tip n now =
    \<lparr>version = (if session_payout session \<noteq> None then kShareVersion2 else kShareVersion1),
     parent_id = (case job_parent_binding issued of Some b \<Rightarrow> binding_parent_id b
       | None \<Rightarrow> (case tip of Some cs \<Rightarrow> cs_id cs | None \<Rightarrow> 0)),
     share_height = (case job_parent_binding issued of Some b \<Rightarrow> binding_share_height b
       | None \<Rightarrow> (case tip of Some cs \<Rightarrow> share_height (cs_share cs) + 1 | None \<Rightarrow> 0)),
     timestamp = now,
     zano_height = ctx_zano_height (trusted_context issued),
     mining_header_hash = ctx_mining_header_hash (trusted_context issued),
     nonce = n,
     share_difficulty = job_share_difficulty issued,
     network_difficulty = ctx_network_difficulty (trusted_context issued),
     miner_id = (case session_payout session of Some p \<Rightarrow> miner_id_from_payout p
       | None \<Rightarrow> miner_id_for_session session),
     payout = session_payout session\<rparr>"

definition not_forwarded ::
  "stratum_submission_disposition \<Rightarrow> u64 \<Rightarrow> stratum_submission_result"
where
  "not_forwarded d v =
    \<lparr>submission_disposition = d, submission_reject_reason = No_Reason, submission_share_id = 0,
     submission_job_version = v\<rparr>"

text \<open>The answer for a share the chain has processed.\<close>

definition submission_outcome ::
  "share_chain \<Rightarrow> add_share_result \<Rightarrow> share_id \<Rightarrow> u64 \<Rightarrow> stratum_submission_result"
where
  "submission_outcome c res i v =
    (let answer = (\<lambda>d reason. \<lparr>submission_disposition = d, submission_reject_reason = reason,
           submission_share_id = i, submission_job_version = v\<rparr>)
     in if disposition res \<noteq> Connected \<and> disposition res \<noteq> Orphan
        then answer Rejected_Submission (reject_reason res)
        else (case find c i of
          None \<Rightarrow> answer Rejected_Submission No_Reason
        | Some cs \<Rightarrow>
            (case pow_validation cs of
              None \<Rightarrow> answer Rejected_Submission No_Reason
            | Some validation \<Rightarrow>
                if classification validation = Block_Candidate then answer BlockCandidate No_Reason
                else answer AcceptedShare No_Reason)))"

definition forward_share ::
  "progpow_backend option \<Rightarrow> share_chain \<Rightarrow> share \<Rightarrow> stratum_issued_work \<Rightarrow> u64 \<Rightarrow> progpowz_context_mode \<Rightarrow>
    share_chain \<times> stratum_submission_result result"
where
  "forward_share backend c s issued now mode =
    (case share_id s of
      Inl e \<Rightarrow> (c, Throw e)
    | Inr i \<Rightarrow>
        (case submit_share backend c s (trusted_context issued) now mode of
          (c', Inl e) \<Rightarrow> (c', Throw e)
        | (c', Inr res) \<Rightarrow> (c', Ok (submission_outcome c' res i (job_version issued)))))"

definition router_submit ::
  "progpow_backend option \<Rightarrow> stratum_sessions \<Rightarrow> submitted_nonces \<Rightarrow> share_chain \<Rightarrow> u64 \<Rightarrow>
    stratum_submission \<Rightarrow> u64 \<Rightarrow> progpowz_context_mode \<Rightarrow>
    submitted_nonces \<times> share_chain \<times> stratum_submission_result result"
where
  "router_submit backend reg nonces c i submission now mode =
    (case find_session reg i of
      None \<Rightarrow> (nonces, c, Ok (not_forwarded UnknownWork 0))
    | Some session \<Rightarrow>
        if \<not> logged_in session then (nonces, c, Ok (not_forwarded UnknownWork 0))
        else (case current_work session of
          None \<Rightarrow> (nonces, c, Ok (not_forwarded UnknownWork 0))
        | Some issued \<Rightarrow>
            (case match_submission reg i (submission_header_hash submission) of
              Inl e \<Rightarrow> (nonces, c, Throw e)
            | Inr Match_stale \<Rightarrow>
                (nonces, c, Ok (not_forwarded Stale
                  (case previous_work session of Some p \<Rightarrow> job_version p | None \<Rightarrow> 0)))
            | Inr Match_unknown \<Rightarrow> (nonces, c, Ok (not_forwarded UnknownWork 0))
            | Inr Match_current \<Rightarrow>
                let seen = seen_nonces nonces i;
                    duplicate_key = (job_version issued, submission_nonce submission)
                in if duplicate_key |\<in>| seen
                   then (fmupd i seen nonces, c, Ok (not_forwarded Duplicate_Submission (job_version issued)))
                   else (fmupd i (finsert duplicate_key seen) nonces,
                     forward_share backend c
                       (submission_share session issued (best_tip c) (submission_nonce submission) now)
                       issued now mode))))"

definition was_submitted :: "submitted_nonces \<Rightarrow> u64 \<Rightarrow> u64 \<Rightarrow> u64 \<Rightarrow> bool" where
  "was_submitted nonces i v n =
    (case fmlookup nonces i of None \<Rightarrow> False | Some seen \<Rightarrow> (v, n) |\<in>| seen)"

definition stratum_submission_disposition_name :: "stratum_submission_disposition \<Rightarrow> string" where
  "stratum_submission_disposition_name d =
    (case d of AcceptedShare \<Rightarrow> ''accepted-share'' | BlockCandidate \<Rightarrow> ''block-candidate'' | Stale \<Rightarrow> ''stale''
      | Duplicate_Submission \<Rightarrow> ''duplicate'' | UnknownWork \<Rightarrow> ''unknown-work''
      | Rejected_Submission \<Rightarrow> ''rejected'')"

section \<open>Sequences of submissions\<close>

text \<open>A call of the router: the registry and the chain it finds, and its arguments. Logins, new
  templates and shares of other origins happen between two calls.\<close>

record router_call =
  call_sessions :: stratum_sessions
  call_chain :: share_chain
  call_session_id :: u64
  call_submission :: stratum_submission
  call_now :: u64
  call_mode :: progpowz_context_mode

definition router_do ::
  "progpow_backend option \<Rightarrow> submitted_nonces \<Rightarrow> router_call \<Rightarrow>
    submitted_nonces \<times> share_chain \<times> stratum_submission_result result"
where
  "router_do backend nonces call =
    router_submit backend (call_sessions call) nonces (call_chain call) (call_session_id call)
      (call_submission call) (call_now call) (call_mode call)"

definition reached_chain :: "stratum_submission_result result \<Rightarrow> bool" where
  "reached_chain r =
    (case r of Inl e \<Rightarrow> True
      | Inr x \<Rightarrow> submission_disposition x \<in> {AcceptedShare, BlockCandidate, Rejected_Submission})"

definition call_key :: "router_call \<Rightarrow> u64 \<times> u64 \<times> u64" where
  "call_key call =
    (call_session_id call,
     (case find_session (call_sessions call) (call_session_id call) of
        None \<Rightarrow> 0
      | Some session \<Rightarrow> (case current_work session of None \<Rightarrow> 0 | Some w \<Rightarrow> job_version w)),
     submission_nonce (call_submission call))"

fun forwarded_keys :: "progpow_backend option \<Rightarrow> submitted_nonces \<Rightarrow> router_call list \<Rightarrow> (u64 \<times> u64 \<times> u64) list" where
  "forwarded_keys backend nonces [] = []"
| "forwarded_keys backend nonces (call # calls) =
    (case router_do backend nonces call of
      (nonces', c', r) \<Rightarrow> (if reached_chain r then [call_key call] else []) @ forwarded_keys backend nonces' calls)"

definition submitted_key :: "submitted_nonces \<Rightarrow> u64 \<times> u64 \<times> u64 \<Rightarrow> bool" where
  "submitted_key nonces key = (case key of (i, v, n) \<Rightarrow> was_submitted nonces i v n)"

section \<open>Branches of the router\<close>

lemma was_submitted_seen: "was_submitted nonces i v n \<longleftrightarrow> (v, n) |\<in>| seen_nonces nonces i"
  by (simp add: was_submitted_def seen_nonces_def split: option.split)

lemma match_submission_current:
  "match_submission reg i h = Ok Match_current \<longleftrightarrow>
    (\<exists>session w. find_session reg i = Some session \<and> current_work session = Some w \<and>
      work_header_hash (wire_work w) = h)"
  by (auto simp: match_submission_def require_session_def find_session_def split: option.splits)

lemma match_submission_total: "find_session reg i = Some session \<Longrightarrow> match_submission reg i h \<noteq> Throw e"
  by (auto simp: match_submission_def require_session_def find_session_def split: option.splits)

lemma router_submit_cases:
  assumes "router_submit backend reg nonces c i submission now mode = (nonces', c', r)"
  obtains (kept) x where "nonces' = nonces" "c' = c" "r = Ok x"
      "submission_disposition x \<in> {UnknownWork, Stale, Duplicate_Submission}"
    | (forwarded) session issued where "find_session reg i = Some session" "logged_in session"
      "current_work session = Some issued"
      "work_header_hash (wire_work issued) = submission_header_hash submission"
      "\<not> was_submitted nonces i (job_version issued) (submission_nonce submission)"
      "nonces' = fmupd i (finsert (job_version issued, submission_nonce submission) (seen_nonces nonces i)) nonces"
      "forward_share backend c (submission_share session issued (best_tip c) (submission_nonce submission) now)
        issued now mode = (c', r)"
proof (cases "\<exists>session issued. find_session reg i = Some session \<and> logged_in session \<and>
    current_work session = Some issued \<and> match_submission reg i (submission_header_hash submission) = Ok Match_current")
  case True
  then obtain session issued where ses: "find_session reg i = Some session" "logged_in session"
    "current_work session = Some issued" "match_submission reg i (submission_header_hash submission) = Ok Match_current"
    by blast
  then have header: "work_header_hash (wire_work issued) = submission_header_hash submission"
    by (auto simp: match_submission_current)
  show thesis
  proof (cases "(job_version issued, submission_nonce submission) |\<in>| seen_nonces nonces i")
    case True
    then have "fmlookup nonces i = Some (seen_nonces nonces i)"
      by (auto simp: seen_nonces_def split: option.splits)
    then have "fmupd i (seen_nonces nonces i) nonces = nonces" by (intro fmap_ext) auto
    with True ses assms show thesis by (intro kept) (auto simp: router_submit_def not_forwarded_def Let_def)
  next
    case False
    with ses assms header show thesis
      by (intro forwarded [of session issued]) (auto simp: router_submit_def Let_def was_submitted_seen)
  qed
next
  case False
  then have "\<exists>x. nonces' = nonces \<and> c' = c \<and> r = Ok x \<and>
      submission_disposition x \<in> {UnknownWork, Stale, Duplicate_Submission}"
    using assms match_submission_total [of reg i]
    by (auto simp: router_submit_def not_forwarded_def
        split: option.splits if_splits sum.splits stratum_work_match.splits)
  with kept show thesis by blast
qed

lemma outcome_reaches: "submission_disposition (submission_outcome c res j v) \<in> {AcceptedShare, BlockCandidate, Rejected_Submission}"
  by (simp add: submission_outcome_def Let_def split: option.split)

lemma forward_reaches: "forward_share backend c s issued now mode = (c', r) \<Longrightarrow> reached_chain r"
  using outcome_reaches
  by (auto simp: forward_share_def reached_chain_def split: sum.splits prod.splits)

lemma router_do_cases:
  assumes "router_do backend nonces call = (nonces', c', r)"
  obtains (kept) "\<not> reached_chain r" "nonces' = nonces" "c' = call_chain call"
    | (forwarded) "reached_chain r" "\<not> submitted_key nonces (call_key call)"
      "\<And>key. submitted_key nonces' key \<longleftrightarrow> key = call_key call \<or> submitted_key nonces key"
  using assms unfolding router_do_def
proof (cases rule: router_submit_cases)
  case (kept x)
  then show thesis by (intro that(1)) (auto simp: reached_chain_def)
next
  case (forwarded session issued)
  then have key: "call_key call =
      (call_session_id call, job_version issued, submission_nonce (call_submission call))"
    by (simp add: call_key_def)
  show thesis
    by (rule that(2) [OF forward_reaches [OF forwarded(7)]])
      (use forwarded(5,6) in \<open>auto simp: submitted_key_def key was_submitted_seen seen_nonces_def split: prod.splits\<close>)
qed

lemma forwarded_keys_fresh:
  "distinct (forwarded_keys backend nonces calls) \<and>
   (\<forall>key\<in>set (forwarded_keys backend nonces calls). \<not> submitted_key nonces key)"
proof (induction calls arbitrary: nonces)
  case (Cons call calls)
  obtain nonces' c' r where eq: "router_do backend nonces call = (nonces', c', r)" by (metis prod_cases3)
  then show ?case
  proof (cases rule: router_do_cases)
    case kept
    with eq Cons.IH [of nonces] show ?thesis by simp
  next
    case forwarded
    with eq Cons.IH [of nonces'] show ?thesis by auto
  qed
qed simp

section \<open>Properties\<close>

text \<open>C32. No solution is counted twice. Over any sequence of submissions, with logins, new templates
  and foreign shares in between, each triple of session, job and nonce is handed to the share chain
  at most once; a submission that is not handed on changes neither the router nor the chain.\<close>

theorem submissions_at_most_once:
  "distinct (forwarded_keys backend nonces calls) \<and>
   (case router_do backend nonces call of
      (nonces', c', r) \<Rightarrow> reached_chain r \<or> nonces' = nonces \<and> c' = call_chain call)"
proof -
  obtain nonces' c' r where eq: "router_do backend nonces call = (nonces', c', r)" by (metis prod_cases3)
  then have "reached_chain r \<or> nonces' = nonces \<and> c' = call_chain call"
    by (cases rule: router_do_cases) auto
  with eq show ?thesis using forwarded_keys_fresh [of backend nonces calls] by simp
qed

lemma outcome_accepted:
  assumes "chain_reachable full backend c"
    "submit_share backend c s ctx now mode = (c', Ok res)" "share_id s = Ok j"
    "submission_disposition (submission_outcome c' res j v) \<in> {AcceptedShare, BlockCandidate}"
  shows "disposition res = Connected" "result_id res = j"
proof -
  have inv: "chain_inv full c" using assms(1) by (rule chain.reach_inv)
  have conn: "disposition res = Connected \<or> disposition res = Orphan"
    and held: "find c' j \<noteq> None"
    using assms(4) by (auto simp: submission_outcome_def Let_def split: if_splits option.splits)
  from assms(2) have "disposition res = Connected \<and> result_id res = j"
  proof (cases rule: submit_share_cases)
    case (admits i w)
    have "pow_consistent (Some w)" "difficulty_policy c \<noteq> None \<longrightarrow> difficulty_policy c \<noteq> None"
      using admits(3) by (simp_all add: admission_checks_consistent)
    from inv this admits(4) show ?thesis
    proof (cases rule: add_prevalidated_share_cases)
      case (orphan k)
      then have "find c' j = None"
        using assms(3) by (auto simp: find_def is_known_def keep_orphan_def fmlookup_dom_iff)
      with held show ?thesis by simp
    qed (use conn assms(3) in \<open>auto simp: fresh_result_def\<close>)
  qed (use conn assms(3) in \<open>auto simp: fresh_result_def\<close>)
  then show "disposition res = Connected" "result_id res = j" by simp_all
qed


definition sample_submission :: stratum_submission where
  "sample_submission = \<lparr>submission_nonce = 42, submission_header_hash = 0, submission_mix_hash = 0,
    submission_worker = ''rig''\<rparr>"

lemma sample_routing:
  "find_session sample_issued 1 = Some (sample_session\<lparr>current_work := Some sample_job\<rparr>)"
  "best_tip sample_start = None"
  "submission_share (sample_session\<lparr>current_work := Some sample_job\<rparr>) sample_job None 42 1000 = sample_share"
  "job_version sample_job = 1" "work_header_hash (wire_work sample_job) = 0"
  "trusted_context sample_job = sample_context"
  by (simp_all add: find_session_def sample_issued_def sample_sessions_def best_tip_def sample_start_fields
      submission_share_def sample_share_def sample_session_def sample_job_def issued_job_def
      sample_template_def sample_context_def kShareVersion2_def)

lemma sample_submission_result:
  "router_submit (Some zero_hash_backend) sample_issued fmempty sample_start 1 sample_submission 1000 Light =
    (fmupd 1 {|(1, 42)|} fmempty, sample_chain, Ok \<lparr>submission_disposition = BlockCandidate,
      submission_reject_reason = No_Reason, submission_share_id = sample_id, submission_job_version = 1\<rparr>)"
proof -
  have "forward_share (Some zero_hash_backend) sample_start sample_share sample_job 1000 Light =
      (sample_chain, Ok \<lparr>submission_disposition = BlockCandidate, submission_reject_reason = No_Reason,
        submission_share_id = sample_id, submission_job_version = 1\<rparr>)"
    by (simp add: forward_share_def sample_id_ok sample_routing submit_sample submission_outcome_def find_def
        sample_chain_def sample_connected_def zero_hash_validation_def)
  moreover have "match_submission sample_issued 1 0 = Ok Match_current"
    using sample_routing by (auto simp: match_submission_current)
  ultimately show ?thesis
    using sample_routing
    by (simp add: router_submit_def sample_submission_def sample_session_def seen_nonces_def Let_def)
qed


end
