(* ===== verification/Share_Store.thy ===== *)
theory Share_Store
  imports Chain_Spec
begin

text \<open>
  \<open>src/include/zano_p2pool/share_store.hpp\<close>: the append-only file of shares. The file is \<open>None\<close> when
  it does not exist and its bytes otherwise. An operation that throws before the file is replaced
  leaves it as it was; \<open>load_into\<close> may have changed the file and the chain when it throws and
  returns both. Failures of the file system itself are not modelled.
\<close>

section \<open>Data\<close>

definition kShareStoreMagic :: "u8 list" where
  "kShareStoreMagic = [0x5a, 0x50, 0x32, 0x53, 0x54, 0x4f, 0x52, 0x31]"

definition kShareStoreHeaderSize :: nat where
  "kShareStoreHeaderSize = length kShareStoreMagic + 32"

record share_store_load_result =
  records_loaded :: nat
  connected_shares :: nat
  orphan_shares :: nat
  truncated_tail_repaired :: bool
  loaded_best_tip_id :: "share_id option"

record share_store =
  store_path :: string
  expected_sidechain_id :: hash256

type_synonym store_file = "u8 list option"

section \<open>Operations\<close>

definition make_share_store :: "string \<Rightarrow> hash256 \<Rightarrow> share_store result" where
  "make_share_store path sid =
    (if path = [] then Throw (Invalid_argument ''share store path must not be empty'')
     else if is_zero_sidechain_id sid
     then Throw (Invalid_argument ''share store sidechain id must be nonzero'')
     else Ok \<lparr>store_path = path, expected_sidechain_id = sid\<rparr>)"

definition verify_header :: "share_store \<Rightarrow> u8 list \<Rightarrow> unit result" where
  "verify_header st bytes =
    (if length bytes < length kShareStoreMagic \<or> take (length kShareStoreMagic) bytes \<noteq> kShareStoreMagic
     then Throw (Runtime_error ''invalid share store magic/version'')
     else if length (drop (length kShareStoreMagic) bytes) < 32
     then Throw (Runtime_error ''share store sidechain id is truncated'')
     else if (array_of (take 32 (drop (length kShareStoreMagic) bytes)) :: hash256) \<noteq> expected_sidechain_id st
     then Throw (Runtime_error ''share store belongs to a different sidechain'')
     else Ok ())"

definition store_header :: "share_store \<Rightarrow> u8 list" where
  "store_header st = kShareStoreMagic @ bytes_of (expected_sidechain_id st)"

definition ensure_header :: "share_store \<Rightarrow> store_file \<Rightarrow> u8 list result" where
  "ensure_header st file =
    (case file of
      Some bytes \<Rightarrow>
        if length bytes < kShareStoreHeaderSize
        then Throw (Runtime_error ''existing share store header is truncated'')
        else bindE (verify_header st bytes) (\<lambda>_. Ok bytes)
    | None \<Rightarrow> Ok (store_header st))"

text \<open>The bytes of one record.\<close>

definition record_bytes :: "u8 list \<Rightarrow> share_id \<Rightarrow> u8 list" where
  "record_bytes payload i = append_u32_be (word_of_nat (length payload)) @ payload @ bytes_of i"

definition checked_payload :: "share \<Rightarrow> u8 list result" where
  "checked_payload s =
    bindE (serialize_share s) (\<lambda>payload.
      if length payload \<noteq> kShareV1SerializedSize \<and> length payload \<noteq> kShareV2SerializedSize
      then Throw (Logic_error ''unexpected serialized share size'') else Ok payload)"

definition store_append :: "share_store \<Rightarrow> store_file \<Rightarrow> share \<Rightarrow> store_file result" where
  "store_append st file s =
    bindE (checked_payload s) (\<lambda>payload.
    bindE (share_id s) (\<lambda>i.
    bindE (ensure_header st file) (\<lambda>bytes.
      Ok (Some (bytes @ record_bytes payload i)))))"

text \<open>The loop of \<open>rewrite_unlocked\<close> over the shares to write.\<close>

definition rewrite_step :: "share \<Rightarrow> u8 list \<times> share_id fset \<Rightarrow> (u8 list \<times> share_id fset) result" where
  "rewrite_step s st =
    (case st of (out, seen) \<Rightarrow>
      bindE (checked_payload s) (\<lambda>payload.
      bindE (share_id s) (\<lambda>i.
        if i |\<in>| seen then Throw (Invalid_argument ''share store rewrite contains duplicate record'')
        else Ok (out @ record_bytes payload i, finsert i seen))))"

definition rewrite_unlocked :: "share_store \<Rightarrow> store_file \<Rightarrow> share list \<Rightarrow> store_file result" where
  "rewrite_unlocked st file shares =
    bindE (case file of
        None \<Rightarrow> Ok ()
      | Some bytes \<Rightarrow>
          if length bytes < kShareStoreHeaderSize
          then Throw (Runtime_error ''existing share store header is truncated'')
          else verify_header st bytes) (\<lambda>_.
    bindE (forE rewrite_step shares (store_header st, {||})) (\<lambda>(out, seen). Ok (Some out)))"

definition store_rewrite :: "share_store \<Rightarrow> store_file \<Rightarrow> share list \<Rightarrow> store_file result" where
  "store_rewrite st file shares = rewrite_unlocked st file shares"

text \<open>One step of the two reading loops: the end of the file, a short final record, an error, or a
  checked record and the bytes behind it.\<close>

datatype read_record_result = Read_end | Read_truncated | Read_error exn | Read_record share share_id "u8 list"

definition read_record :: "u8 list \<Rightarrow> read_record_result" where
  "read_record bytes =
    (if bytes = [] then Read_end
     else if length bytes < 4 then Read_truncated
     else
       let len = unat (foldl shift_in 0 (take 4 bytes) :: u32) in
       if len \<noteq> kShareV1SerializedSize \<and> len \<noteq> kShareV2SerializedSize
       then Read_error (Runtime_error ''share store record has invalid length'')
       else if length (drop 4 bytes) < len then Read_truncated
       else if length (drop (4 + len) bytes) < 32 then Read_truncated
       else
         let payload = take len (drop 4 bytes);
             stored_id = array_of (take 32 (drop (4 + len) bytes))
         in case deserialize_share payload of
              Inl e \<Rightarrow> Read_error e
            | Inr s \<Rightarrow>
                (case share_id s of
                  Inl e \<Rightarrow> Read_error e
                | Inr i \<Rightarrow>
                    if i \<noteq> stored_id then Read_error (Runtime_error ''share store record hash mismatch'')
                    else Read_record s stored_id (drop (4 + len + 32) bytes)))"

lemma read_record_shorter: "read_record bytes = Read_record s i rest \<Longrightarrow> length rest < length bytes"
  by (auto simp: read_record_def Let_def split: if_splits sum.splits)

function erase_loop_store ::
  "share_id fset \<Rightarrow> u8 list \<Rightarrow> share_id fset \<Rightarrow> share list \<Rightarrow> nat \<Rightarrow> (share list \<times> nat) result"
where
  "erase_loop_store erase_ids bytes seen retained removed =
    (case read_record bytes of
      Read_end \<Rightarrow> Ok (retained, removed)
    | Read_truncated \<Rightarrow> Throw (Runtime_error ''share store final record is truncated'')
    | Read_error e \<Rightarrow> Throw e
    | Read_record s i rest \<Rightarrow>
        if i |\<in>| seen then Throw (Runtime_error ''share store contains duplicate record'')
        else if i |\<in>| erase_ids
        then erase_loop_store erase_ids rest (finsert i seen) retained (removed + 1)
        else erase_loop_store erase_ids rest (finsert i seen) (retained @ [s]) removed)"
  by pat_completeness auto
termination
  by (relation "measure (\<lambda>(ids, bytes, seen, retained, removed). length bytes)")
    (auto dest: read_record_shorter)

declare erase_loop_store.simps [simp del]

definition erase_records :: "share_store \<Rightarrow> store_file \<Rightarrow> share_id list \<Rightarrow> (store_file \<times> nat) result" where
  "erase_records st file ids =
    (if ids = [] then Ok (file, 0)
     else case file of
       None \<Rightarrow> Ok (file, 0)
     | Some bytes \<Rightarrow>
         if length bytes < kShareStoreHeaderSize
         then Throw (Runtime_error ''share store header is truncated'')
         else bindE (verify_header st bytes) (\<lambda>_.
           bindE (erase_loop_store (fset_of_list ids) (drop kShareStoreHeaderSize bytes) {||} [] 0)
             (\<lambda>(retained, removed).
               if removed \<noteq> 0
               then bindE (rewrite_unlocked st file retained) (\<lambda>file'. Ok (file', removed))
               else Ok (file, removed))))"

text \<open>The recovery loop: the chain, the number of records, the length of the good part of the file
  and whether the tail is cut off, or the exception.\<close>

function load_loop ::
  "bool \<Rightarrow> u8 list \<Rightarrow> share_chain \<Rightarrow> nat \<Rightarrow> nat \<Rightarrow> share_chain \<times> (nat \<times> nat \<times> bool) result"
where
  "load_loop repair bytes c n offset =
    (case read_record bytes of
      Read_end \<Rightarrow> (c, Ok (n, offset, False))
    | Read_truncated \<Rightarrow>
        if repair then (c, Ok (n, offset, True))
        else (c, Throw (Runtime_error ''share store final record is truncated''))
    | Read_error e \<Rightarrow> (c, Throw e)
    | Read_record s i rest \<Rightarrow>
        (case add_share_unchecked c s of
          (c', Inl e) \<Rightarrow> (c', Throw e)
        | (c', Inr added) \<Rightarrow>
            if disposition added = Duplicate
            then (c', Throw (Runtime_error ''share store contains duplicate record''))
            else if disposition added = Rejected
            then (c', Throw (Runtime_error
                   (''share store replay rejected share: '' @ share_reject_reason_name (reject_reason added))))
            else load_loop repair rest c' (n + 1) (offset + (length bytes - length rest))))"
  by pat_completeness auto
termination
  by (relation "measure (\<lambda>(repair, bytes, c, n, offset). length bytes)")
    (auto dest: read_record_shorter)

declare load_loop.simps [simp del]

definition load_into ::
  "share_store \<Rightarrow> store_file \<Rightarrow> share_chain \<Rightarrow> bool \<Rightarrow>
    store_file \<times> share_chain \<times> share_store_load_result result"
where
  "load_into st file c repair =
    (case file of
      None \<Rightarrow> (file, c, Ok \<lparr>records_loaded = 0, connected_shares = 0, orphan_shares = 0,
                truncated_tail_repaired = False, loaded_best_tip_id = None\<rparr>)
    | Some bytes \<Rightarrow>
        if length bytes < kShareStoreHeaderSize
        then (file, c, Throw (Runtime_error ''share store header is truncated''))
        else (case verify_header st bytes of
          Inl e \<Rightarrow> (file, c, Throw e)
        | Inr _ \<Rightarrow>
            (case load_loop repair (drop kShareStoreHeaderSize bytes) c 0 kShareStoreHeaderSize of
              (c', Inl e) \<Rightarrow> (file, c', Throw e)
            | (c', Inr (n, offset, repaired)) \<Rightarrow>
                (if repaired then Some (take offset bytes) else file, c',
                 Ok \<lparr>records_loaded = n, connected_shares = connected_size c',
                   orphan_shares = orphan_size c', truncated_tail_repaired = repaired,
                   loaded_best_tip_id = map_option cs_id (best_tip c')\<rparr>))))"

section \<open>Records\<close>

definition share_record :: "share \<Rightarrow> u8 list" where
  "share_record s = record_bytes (projr (serialize_share s)) (projr (share_id s))"

definition storable :: "share \<Rightarrow> bool" where
  "storable s \<longleftrightarrow> (\<exists>i. share_id s = Ok i)"

lemma storableE:
  assumes "storable s"
  obtains payload i where "serialize_share s = Ok payload" "share_id s = Ok i" "checked_payload s = Ok payload"
    "share_record s = record_bytes payload i"
    "length payload = kShareV1SerializedSize \<or> length payload = kShareV2SerializedSize"
proof -
  from assms obtain i payload where s: "share_id s = Ok i" "serialize_share s = Ok payload"
    by (auto simp: storable_def share_id_def bindE_eq_Ok)
  with serialize_share_length [OF s(2)] show thesis
    by (intro that) (auto simp: checked_payload_def share_record_def)
qed

lemma record_prefix_parts:
  assumes "length payload = kShareV1SerializedSize \<or> length payload = kShareV2SerializedSize"
  shows "length (record_bytes payload i) = length payload + 36"
    "unat (foldl shift_in 0 (take 4 (record_bytes payload i @ rest)) :: u32) = length payload"
    "take (length payload) (drop 4 (record_bytes payload i @ rest)) = payload"
    "take 32 (drop (4 + length payload) (record_bytes payload i @ rest)) = bytes_of i"
    "drop (4 + length payload + 32) (record_bytes payload i @ rest) = rest"
  using assms by (auto simp: record_bytes_def share_constants unat_of_nat)

lemma read_share_record:
  assumes "share_id s = Ok i"
  shows "read_record (share_record s @ rest) = Read_record s i rest"
proof -
  have "storable s" using assms by (simp add: storable_def)
  then obtain payload where s: "serialize_share s = Ok payload" "share_record s = record_bytes payload i"
    and len: "length payload = kShareV1SerializedSize \<or> length payload = kShareV2SerializedSize"
    using assms by (auto elim!: storableE)
  note parts = record_prefix_parts(2-5) [OF len, of i rest]
  have "length (drop 4 (record_bytes payload i @ rest)) \<ge> length payload"
    "length (drop (4 + length payload) (record_bytes payload i @ rest)) \<ge> 32"
    "record_bytes payload i @ rest \<noteq> []" "4 \<le> length (record_bytes payload i @ rest)"
    using record_prefix_parts(1) [OF len, of i] by (auto dest: arg_cong [where f = length])
  then show ?thesis
    unfolding s(2) read_record_def Let_def parts
    using len deserialize_serialize [OF s(1)] assms by auto
qed

lemma read_cut_record:
  assumes "storable s" "tail = take k (share_record s)" "0 < k" "k < length (share_record s)"
  shows "read_record tail = Read_truncated"
proof -
  from assms(1) obtain payload i where s: "share_record s = record_bytes payload i"
    and len: "length payload = kShareV1SerializedSize \<or> length payload = kShareV2SerializedSize"
    by (auto elim!: storableE)
  note parts = record_prefix_parts(1) [OF len, of i] record_prefix_parts(2) [OF len, of i "[]", simplified]
  have tl: "length tail = k" "tail \<noteq> []" using assms(2-4) by auto
  show ?thesis
  proof (cases "k < 4")
    case True
    with tl show ?thesis by (simp add: read_record_def)
  next
    case False
    then have "take 4 tail = take 4 (record_bytes payload i)" using assms(2) s by (simp add: min_def)
    then have "unat (foldl shift_in 0 (take 4 tail) :: u32) = length payload" using parts(2) by simp
    then show ?thesis
      using False tl len assms(4) parts(1) unfolding s by (auto simp: read_record_def)
  qed
qed

lemma share_record_neq_Nil: "storable s \<Longrightarrow> share_record s \<noteq> []"
  by (auto elim!: storableE simp: record_bytes_def dest: arg_cong [where f = length])

section \<open>Files\<close>

definition store_image :: "share_store \<Rightarrow> share list \<Rightarrow> u8 list" where
  "store_image st ss = store_header st @ concat (map share_record ss)"

lemma header_facts [simp]:
  "length (store_header st) = kShareStoreHeaderSize"
  "verify_header st (store_header st @ rest) = Ok ()"
  by (simp_all add: store_header_def kShareStoreHeaderSize_def verify_header_def kShareStoreMagic_def)

lemma store_append_image:
  assumes "storable s"
  shows "store_append st (Some (store_image st ss)) s = Ok (Some (store_image st (ss @ [s])))"
    "store_append st None s = Ok (Some (store_image st [s]))"
  using assms
  by (auto elim!: storableE simp: store_append_def ensure_header_def store_image_def)

lemma rewrite_loop:
  assumes "list_all storable ss" "distinct (map share_id ss)" "\<forall>s\<in>set ss. \<forall>i. share_id s = Ok i \<longrightarrow> i |\<notin>| seen"
  shows "\<exists>seen'. forE rewrite_step ss (out, seen) = Ok (out @ concat (map share_record ss), seen')"
  using assms
proof (induction ss arbitrary: out seen)
  case (Cons s ss)
  then obtain payload i where s: "share_id s = Ok i" "checked_payload s = Ok payload"
    "share_record s = record_bytes payload i"
    by (auto elim!: storableE)
  have "\<forall>t\<in>set ss. \<forall>j. share_id t = Ok j \<longrightarrow> j |\<notin>| finsert i seen"
    using Cons.prems(2,3) s(1) by (auto simp: image_iff)
  from Cons.IH [OF _ _ this, of "out @ share_record s"] Cons.prems s show ?case
    by (simp add: rewrite_step_def)
qed simp

lemma rewrite_image:
  assumes "list_all storable ss" "distinct (map share_id ss)"
  shows "rewrite_unlocked st None ss = Ok (Some (store_image st ss))"
    "rewrite_unlocked st (Some (store_image st old)) ss = Ok (Some (store_image st ss))"
proof -
  obtain seen where "forE rewrite_step ss (store_header st, {||}) = Ok (store_image st ss, seen)"
    using rewrite_loop [OF assms, of "{||}" "store_header st"] by (auto simp: store_image_def)
  then show "rewrite_unlocked st None ss = Ok (Some (store_image st ss))"
    "rewrite_unlocked st (Some (store_image st old)) ss = Ok (Some (store_image st ss))"
    by (simp_all add: rewrite_unlocked_def) (simp_all add: store_image_def)
qed

section \<open>Reading back\<close>

text \<open>What the recovery loop does with the shares it reads.\<close>

fun replay_shares :: "share list \<Rightarrow> share_chain \<Rightarrow> share_chain \<times> unit result" where
  "replay_shares [] c = (c, Ok ())"
| "replay_shares (s # ss) c =
    (case add_share_unchecked c s of
      (c', Inl e) \<Rightarrow> (c', Throw e)
    | (c', Inr added) \<Rightarrow>
        if disposition added = Duplicate
        then (c', Throw (Runtime_error ''share store contains duplicate record''))
        else if disposition added = Rejected
        then (c', Throw (Runtime_error
               (''share store replay rejected share: '' @ share_reject_reason_name (reject_reason added))))
        else replay_shares ss c')"

lemma load_loop_image:
  assumes "list_all storable ss"
  shows "load_loop repair (concat (map share_record ss) @ tail) c n offset =
    (case replay_shares ss c of
      (c', Inl e) \<Rightarrow> (c', Throw e)
    | (c', Inr _) \<Rightarrow> load_loop repair tail c' (n + length ss) (offset + length (concat (map share_record ss))))"
  using assms
proof (induction ss arbitrary: c n offset)
  case (Cons s ss)
  then obtain i where i: "share_id s = Ok i" by (auto simp: storable_def)
  show ?case
    using Cons read_share_record [OF i, of "concat (map share_record ss) @ tail"]
    by (subst load_loop.simps) (auto simp: algebra_simps split: sum.splits prod.splits)
qed simp

definition loaded :: "share_chain \<Rightarrow> nat \<Rightarrow> bool \<Rightarrow> share_store_load_result" where
  "loaded c n repaired =
    \<lparr>records_loaded = n, connected_shares = connected_size c, orphan_shares = orphan_size c,
     truncated_tail_repaired = repaired, loaded_best_tip_id = map_option cs_id (best_tip c)\<rparr>"

lemma load_image:
  assumes "list_all storable ss"
  shows "load_into st (Some (store_image st ss)) c repair =
    (Some (store_image st ss),
     (case replay_shares ss c of (c', r) \<Rightarrow> (c', bindE r (\<lambda>_. Ok (loaded c' (length ss) False)))))"
  using load_loop_image [OF assms, of repair "[]" c 0 kShareStoreHeaderSize]
  by (auto simp: load_into_def store_image_def loaded_def load_loop.simps [of _ "[]"] read_record_def
      split: sum.splits prod.splits)

lemma load_cut_image:
  assumes "list_all storable ss" "storable s" "0 < k" "k < length (share_record s)"
  shows "load_into st (Some (store_image st ss @ take k (share_record s))) c True =
    (case replay_shares ss c of
       (c', Inl e) \<Rightarrow> (Some (store_image st ss @ take k (share_record s)), c', Throw e)
     | (c', Inr _) \<Rightarrow> (Some (store_image st ss), c', Ok (loaded c' (length ss) True)))"
    "load_into st (Some (store_image st ss @ take k (share_record s))) c False =
    (Some (store_image st ss @ take k (share_record s)),
     (case replay_shares ss c of
       (c', r) \<Rightarrow> (c', bindE r (\<lambda>_. Throw (Runtime_error ''share store final record is truncated'')))))"
  using load_loop_image [OF assms(1), of _ "take k (share_record s)" c 0 kShareStoreHeaderSize]
    read_cut_record [OF assms(2) refl assms(3,4)]
  by (auto simp: load_into_def store_image_def loaded_def load_loop.simps [of _ "take k (share_record s)"]
      split: sum.splits prod.splits)

lemma erase_loop_image:
  assumes "list_all storable ss" "distinct (map share_id ss)" "\<forall>s\<in>set ss. \<forall>i. share_id s = Ok i \<longrightarrow> i |\<notin>| seen"
  shows "erase_loop_store ids (concat (map share_record ss)) seen retained removed =
    Ok (retained @ filter (\<lambda>s. projr (share_id s) |\<notin>| ids) ss,
        removed + length (filter (\<lambda>s. projr (share_id s) |\<in>| ids) ss))"
  using assms
proof (induction ss arbitrary: seen retained removed)
  case (Cons s ss)
  then obtain i where i: "share_id s = Ok i" by (auto simp: storable_def)
  have "\<forall>t\<in>set ss. \<forall>j. share_id t = Ok j \<longrightarrow> j |\<notin>| finsert i seen"
    using Cons.prems(2,3) i by (auto simp: image_iff)
  with Cons i read_share_record [OF i, of "concat (map share_record ss)"] show ?case
    by (subst erase_loop_store.simps) auto
qed (subst erase_loop_store.simps, simp add: read_record_def)

lemma erase_image:
  assumes "list_all storable ss" "distinct (map share_id ss)"
  shows "erase_records st (Some (store_image st ss)) ids =
    Ok (Some (store_image st (filter (\<lambda>s. projr (share_id s) \<notin> set ids) ss)),
        length (filter (\<lambda>s. projr (share_id s) \<in> set ids) ss))"
proof (cases "ids = []")
  case True
  then show ?thesis by (simp add: erase_records_def)
next
  case False
  let ?keep = "filter (\<lambda>s. projr (share_id s) \<notin> set ids) ss"
  have rw: "rewrite_unlocked st (Some (store_image st ss)) ?keep = Ok (Some (store_image st ?keep))"
    using assms by (intro rewrite_image) (auto simp: list_all_iff distinct_map_filter)
  have "?keep = ss" if "length (filter (\<lambda>s. projr (share_id s) \<in> set ids) ss) = 0"
    using that by (auto simp: filter_empty_conv intro: filter_True)
  with False rw erase_loop_image [OF assms, of "{||}" "fset_of_list ids" "[]" 0] show ?thesis
    by (auto simp: erase_records_def store_image_def fset_of_list.rep_eq)
qed

end
