(* ===== verification/Store_Restart.thy ===== *)
theory Store_Restart
  imports Share_Store
begin

text \<open>
  The share store and the share chain together: what a node that rewrites its store and restarts
  gets back, and what it gets back after a crash in the middle of an append.
\<close>

section \<open>Replaying a part of a chain\<close>

text \<open>The chain \<open>d\<close> holds, with the same work, exactly the shares of \<open>c\<close> whose identifiers are in \<open>P\<close>.\<close>

definition restored_part :: "share_chain \<Rightarrow> share_id set \<Rightarrow> share_chain \<Rightarrow> bool" where
  "restored_part c P d \<longleftrightarrow>
    chain_inv True d \<and> difficulty_policy d = difficulty_policy c \<and>
    (\<forall>i. fmlookup (connected d) i \<noteq> None \<longleftrightarrow> i \<in> P \<and> fmlookup (connected c) i \<noteq> None) \<and>
    (\<forall>i a b. fmlookup (connected c) i = Some a \<longrightarrow> fmlookup (connected d) i = Some b \<longrightarrow>
      cs_share b = cs_share a \<and> cumulative_work b = cumulative_work a) \<and>
    (\<forall>i. map_option os_share (fmlookup (orphans d) i) =
      (if i \<in> P then map_option os_share (fmlookup (orphans c) i) else None))"

lemma restored_partD:
  assumes "restored_part c P d"
  shows "chain_inv True d" "difficulty_policy d = difficulty_policy c"
    "fmlookup (connected d) i \<noteq> None \<longleftrightarrow> i \<in> P \<and> fmlookup (connected c) i \<noteq> None"
    "fmlookup (connected c) i = Some a \<Longrightarrow> fmlookup (connected d) i = Some b \<Longrightarrow>
      cs_share b = cs_share a \<and> cumulative_work b = cumulative_work a"
    "map_option os_share (fmlookup (orphans d) i) =
      (if i \<in> P then map_option os_share (fmlookup (orphans c) i) else None)"
  using assms unfolding restored_part_def by blast+

lemma restored_not_known: "restored_part c P d \<Longrightarrow> i \<notin> P \<Longrightarrow> \<not> is_known d i"
  using restored_partD(3) [of c P d i] restored_partD(5) [of c P d i]
  by (auto simp: is_known_def fmlookup_dom_iff)

lemma restored_parent:
  assumes "restored_part c P d" "conn_inv c" "fmlookup (connected c) i = Some a"
    "parent_id (cs_share a) = 0 \<or> parent_id (cs_share a) \<in> P"
  obtains (root) "parent_id (cs_share a) = 0" "arr_val (cumulative_work a) = arr_val (share_difficulty (cs_share a))"
  | (child) q where "parent_id (cs_share a) \<noteq> 0" "fmlookup (connected d) (parent_id (cs_share a)) = Some q"
      "\<not> parent_height_mismatch (cs_share a) (cs_share q)"
      "parent_timestamp_reject_reason (cs_share a) (cs_share q) = No_Reason"
      "arr_val (cumulative_work a) = arr_val (cumulative_work q) + arr_val (share_difficulty (cs_share a))"
proof (cases "parent_id (cs_share a) = 0")
  case True
  then show thesis using conn_invD(2) [OF assms(2,3)] by (intro root) (auto simp: share_ok_def linked_def)
next
  case False
  then obtain p where p: "fmlookup (connected c) (parent_id (cs_share a)) = Some p"
    "\<not> parent_height_mismatch (cs_share a) (cs_share p)"
    "parent_timestamp_reject_reason (cs_share a) (cs_share p) = No_Reason"
    "arr_val (cumulative_work a) = arr_val (cumulative_work p) + arr_val (share_difficulty (cs_share a))"
    using conn_invD(2) [OF assms(2,3)] by (auto simp: share_ok_def linked_def Let_def)
  obtain q where q: "fmlookup (connected d) (parent_id (cs_share a)) = Some q"
    using restored_partD(3) [OF assms(1), of "parent_id (cs_share a)"] p(1) False assms(4) by auto
  have eq: "cs_share q = cs_share p" "cumulative_work q = cumulative_work p"
    using restored_partD(4) [OF assms(1) p(1) q] by simp_all
  show thesis by (rule child [OF False q]) (use p(2-4) in \<open>simp_all only: eq not_False_eq_True\<close>)
qed

lemma restored_checks:
  assumes "restored_part c P d" "conn_inv c" "fmlookup (connected c) i = Some a"
    "parent_id (cs_share a) = 0 \<or> parent_id (cs_share a) \<in> P"
  shows "connect_checks d (cs_share a) False = Ok (Inr (cumulative_work a))"
proof -
  have ok: "share_ok c i a" using conn_invD(2) [OF assms(2,3)] .
  have "share_difficulty (cs_share a) \<noteq> 0"
    using ok structural_okD(1) unfolding share_ok_def by blast
  then obtain own where own: "share_work (share_difficulty (cs_share a)) = Ok own"
    "arr_val own = arr_val (share_difficulty (cs_share a))" by (rule share_work_ok)
  from assms show ?thesis
  proof (cases rule: restored_parent)
    case root
    have "arr_val own = arr_val (cumulative_work a)" unfolding own(2) root(2) ..
    then have "own = cumulative_work a" unfolding arr_val_eq_iff .
    then show ?thesis
      unfolding connect_checks_def own(1) connect_parent_reason_def is_zero_iff using root(1) by simp
  next
    case (child q)
    have "arr_val (cumulative_work q) + arr_val own = arr_val (cumulative_work a)"
      using child(5) own(2) by simp
    then have "add_chain_work_checked (cumulative_work q) own = (True, cumulative_work a)"
      using arr_val_less [of "cumulative_work a"] by (simp add: add_chain_work_checked_alt)
    then show ?thesis
      unfolding connect_checks_def own(1) connect_parent_reason_def is_zero_iff using child(1-4) by simp
  qed
qed

text \<open>No orphan of the restored part waits for a share that is connected in the original chain.\<close>

lemma restored_no_promotion:
  assumes "restored_part c P d" "chain_inv True c" "fmlookup (connected c) i \<noteq> None"
    "orphans e = orphans d" "orphans_by_parent e = orphans_by_parent d"
  shows "\<exists>m. promote_children e i n b = (e\<lparr>orphans_by_parent := m\<rparr>, Ok (n, b))"
proof (cases "fmlookup (orphans_by_parent d) i")
  case None
  then show ?thesis
    using assms(5) by (intro exI [of _ "orphans_by_parent e"]) (simp add: promote_children_def)
next
  case (Some ids)
  note ind = index_soundD(2) [OF core_invD(2) [OF chain_invD(1) [OF restored_partD(1) [OF assms(1)]]] Some]
  have "set ids = {}"
  proof (rule ccontr)
    assume "set ids \<noteq> {}"
    then obtain j where "j \<in> set ids" by (meson ex_in_conv)
    from ind [OF this] obtain orph where w: "fmlookup (orphans d) j = Some orph" "parent_id (os_share orph) = i"
      by blast
    then have "Some (os_share orph) = map_option os_share (fmlookup (orphans c) j)"
      using restored_partD(5) [OF assms(1), of j] by (simp split: if_splits)
    then obtain orph' where o': "fmlookup (orphans c) j = Some orph'" "os_share orph' = os_share orph"
      by (cases "fmlookup (orphans c) j") simp_all
    from chain_invD(3) [OF assms(2) _ o'(1)] w(2) o'(2) assms(3) show False by (simp add: waiting_def)
  qed
  with Some assms(5) show ?thesis by (auto simp: promote_children_def)
qed

lemma restored_part_insert:
  assumes part: "restored_part c P d" and inv: "chain_inv True d'"
    and policy: "difficulty_policy d' = difficulty_policy d"
    and con: "\<And>j. j \<noteq> i \<Longrightarrow> fmlookup (connected d') j = fmlookup (connected d) j"
    and orp: "\<And>j. j \<noteq> i \<Longrightarrow> fmlookup (orphans d') j = fmlookup (orphans d) j"
    and con_i: "fmlookup (connected d') i \<noteq> None \<longleftrightarrow> fmlookup (connected c) i \<noteq> None"
      "\<And>a b. fmlookup (connected c) i = Some a \<Longrightarrow> fmlookup (connected d') i = Some b \<Longrightarrow>
        cs_share b = cs_share a \<and> cumulative_work b = cumulative_work a"
    and orp_i: "map_option os_share (fmlookup (orphans d') i) = map_option os_share (fmlookup (orphans c) i)"
  shows "restored_part c (insert i P) d'"
  unfolding restored_part_def
proof (intro conjI allI impI)
  fix j a b
  note old = restored_partD(3-5) [OF part, of j]
  show "fmlookup (connected d') j \<noteq> None \<longleftrightarrow> j \<in> insert i P \<and> fmlookup (connected c) j \<noteq> None"
    using con_i(1) con [of j] old(1) by (cases "j = i") simp_all
  show "map_option os_share (fmlookup (orphans d') j) =
      (if j \<in> insert i P then map_option os_share (fmlookup (orphans c) j) else None)"
    using orp_i orp [of j] old(3) by (cases "j = i") simp_all
  assume ab: "fmlookup (connected c) j = Some a" "fmlookup (connected d') j = Some b"
  have "cs_share b = cs_share a \<and> cumulative_work b = cumulative_work a"
  proof (cases "j = i")
    case True
    show ?thesis by (rule con_i(2)) (use ab True in simp_all)
  next
    case False
    show ?thesis by (rule old(2)) (use ab con [OF False] in simp_all)
  qed
  then show "cs_share b = cs_share a" "cumulative_work b = cumulative_work a" by simp_all
qed (use inv policy restored_partD(2) [OF part] in simp_all)

lemma restored_connect:
  assumes "restored_part c P d" "chain_inv True c" "fmlookup (connected c) i = Some a" "i \<notin> P"
    "parent_id (cs_share a) = 0 \<or> parent_id (cs_share a) \<in> P"
  obtains d' res where "add_share_unchecked d (cs_share a) = (d', Ok res)" "disposition res = Connected"
    "restored_part c (insert i P) d'"
proof -
  note inv = chain_invD(2) [OF assms(2)]
  have ok: "share_ok c i a" using conn_invD(2) [OF inv assms(3)] .
  let ?s = "cs_share a"
  let ?cs = "\<lparr>cs_share = ?s, cs_id = i, cumulative_work = cumulative_work a, pow_validation = None,
    validated_ancestry = False\<rparr>"
  have id: "share_id ?s = Ok i" "structural_reject_reason d ?s = No_Reason"
    using ok structural_cong [OF restored_partD(2) [OF assms(1)]] by (auto simp: share_ok_def)
  have new: "\<not> is_known d i" using assms(1,4) by (rule restored_not_known)
  have known: "parent_id ?s = 0 \<or> parent_id ?s |\<in>| fmdom (connected d)"
    using assms(1) inv assms(3,5) by (cases rule: restored_parent) (auto simp: fmlookup_dom_iff)
  have checks: "connect_checks d ?s False = Ok (Inr (cumulative_work a))"
    using assms(1) inv assms(3,5) by (rule restored_checks)
  have sel: "tip_selected (connected d) (best_tip_id d)"
    using conn_invD(3) [OF chain_invD(2) [OF restored_partD(1) [OF assms(1)]]] .
  obtain tip b where ins: "insert_connected d ?cs False =
      (d\<lparr>connected := fmupd i ?cs (connected d), best_tip_id := tip\<rparr>, Ok b)"
  proof (cases "best_tip_id d")
    case None
    with new that show thesis by (simp add: insert_connected_def is_known_def)
  next
    case (Some t)
    with sel obtain best where "fmlookup (connected d) t = Some best" by (auto simp: tip_selected_def)
    moreover have "d\<lparr>connected := m, best_tip_id := Some t\<rparr> = d\<lparr>connected := m\<rparr>" for m
      using Some by (cases d) simp
    moreover have "i \<noteq> t" using new calculation(1) by (auto simp: is_known_def fmlookup_dom_iff)
    ultimately show thesis
      using new Some that [of "Some i" True] that [of "Some t" False]
      by (cases "better_tip ?cs best") (simp_all add: insert_connected_def is_known_def Let_def)
  qed
  let ?e = "d\<lparr>connected := fmupd i ?cs (connected d), best_tip_id := tip\<rparr>"
  obtain m where prom: "promote_children ?e i 0 b = (?e\<lparr>orphans_by_parent := m\<rparr>, Ok (0, b))"
    using restored_no_promotion [OF assms(1,2), of i ?e 0 b] assms(3) by auto
  let ?d' = "?e\<lparr>orphans_by_parent := m\<rparr>"
  have "connect_share d ?s i None False False = (?e, Ok (No_Reason, b))"
    by (simp add: connect_share_def checks connect_validated_ancestry_def ins)
  then have add: "\<exists>res. add_share_unchecked d ?s = (?d', Ok res) \<and> disposition res = Connected"
    using id new known prom
    by (auto simp: add_share_unchecked_def add_prevalidated_share_def connect_and_promote_def Let_def)
  then obtain res where res: "add_share_unchecked d ?s = (?d', Ok res)" "disposition res = Connected" by blast
  have "chain_inv True ?d'"
    using add_share_unchecked_kept [OF restored_partD(1) [OF assms(1)], of ?s] unfolding res(1)
    by (simp add: kept_def)
  moreover have "fmlookup (orphans c) i = None"
    using core_invD(3) [OF chain_invD(1) [OF assms(2)], of i] assms(3)
    by (cases "fmlookup (orphans c) i") (auto simp: orphan_ok_def)
  moreover have "fmlookup (orphans d) i = None" using new by (simp add: is_known_def fmlookup_dom_iff)
  ultimately have "restored_part c (insert i P) ?d'"
    using assms(3) by (intro restored_part_insert [OF assms(1)]) auto
  with res show thesis by (rule that)
qed

lemma restored_orphan:
  assumes "restored_part c P d" "chain_inv True c" "fmlookup (orphans c) i = Some orph" "i \<notin> P"
  obtains d' res where "add_share_unchecked d (os_share orph) = (d', Ok res)" "disposition res = Orphan"
    "restored_part c (insert i P) d'"
proof -
  let ?s = "os_share orph" and ?d' = "keep_orphan d (os_share orph) i None False"
  have orph: "orphan_ok c i orph" "waiting c i orph"
    using core_invD(3) [OF chain_invD(1) [OF assms(2)] assms(3)] chain_invD(3) [OF assms(2) _ assms(3)] by simp_all
  have id: "share_id ?s = Ok i" "structural_reject_reason d ?s = No_Reason" "parent_id ?s \<noteq> 0"
    using orph(1) structural_cong [OF restored_partD(2) [OF assms(1)]] by (auto simp: orphan_ok_def)
  have "parent_id ?s |\<notin>| fmdom (connected d)"
    using restored_partD(3) [OF assms(1), of "parent_id ?s"] orph(2) by (auto simp: waiting_def fmlookup_dom_iff)
  then have res: "add_share_unchecked d ?s = (?d', Ok ((fresh_result i)\<lparr>disposition := Orphan\<rparr>))"
    using id restored_not_known [OF assms(1,4)]
    by (simp add: add_share_unchecked_def add_prevalidated_share_def Let_def)
  have "chain_inv True ?d'"
    using add_share_unchecked_kept [OF restored_partD(1) [OF assms(1)], of ?s] unfolding res
    by (simp add: kept_def)
  moreover have "connected ?d' = connected d" "difficulty_policy ?d' = difficulty_policy d"
    "\<And>j. fmlookup (orphans ?d') j = (if j = i then Some \<lparr>os_share = ?s, os_id = i, os_pow_validation = None,
      os_enforce_sidechain_difficulty = False\<rparr> else fmlookup (orphans d) j)"
    by (simp_all add: keep_orphan_def)
  moreover have "fmlookup (connected c) i = None" using orph(1) by (simp add: orphan_ok_def)
  moreover have "fmlookup (connected d) i = None"
    using restored_not_known [OF assms(1,4)] by (simp add: is_known_def fmlookup_dom_iff)
  ultimately have "restored_part c (insert i P) ?d'"
    using assms(3) by (intro restored_part_insert [OF assms(1)]) simp_all
  then show thesis by (rule that [OF res, rotated]) simp
qed

section \<open>Replaying a snapshot\<close>

text \<open>The records of \<open>persistence_snapshot\<close> with their identifiers.\<close>

definition snapshot_records :: "share_chain \<Rightarrow> (share_id \<times> share) list" where
  "snapshot_records c =
    sort_key (\<lambda>(i, s). (share_height s, i))
      (map (\<lambda>(i, cs). (i, cs_share cs)) (sorted_list_of_fmap (connected c)) @
       map (\<lambda>(i, os). (i, os_share os)) (sorted_list_of_fmap (orphans c)))"

lemma persistence_snapshot_records: "persistence_snapshot c = map snd (snapshot_records c)"
  by (simp add: persistence_snapshot_def snapshot_records_def Let_def)

lemma set_snapshot_records:
  "set (snapshot_records c) = {(i, s). (\<exists>cs. fmlookup (connected c) i = Some cs \<and> cs_share cs = s) \<or>
    (\<exists>orph. fmlookup (orphans c) i = Some orph \<and> os_share orph = s)}"
  by (auto simp: snapshot_records_def sorted_list_of_fmap_def image_iff fmlookup_dom_iff)

lemma distinct_snapshot_records:
  assumes "core_inv c"
  shows "distinct (map fst (snapshot_records c))"
proof -
  have "mset (map fst (snapshot_records c)) =
      mset (sorted_list_of_fset (fmdom (connected c)) @ sorted_list_of_fset (fmdom (orphans c)))"
    unfolding mset_map snapshot_records_def mset_sort
    by (simp add: sorted_list_of_fmap_def multiset.map_comp comp_def)
  moreover have "fmlookup (connected c) i = None" if "fmlookup (orphans c) i = Some orph" for i orph
    using core_invD(3) [OF assms that] by (simp add: orphan_ok_def)
  then have "distinct (sorted_list_of_fset (fmdom (connected c)) @ sorted_list_of_fset (fmdom (orphans c)))"
    by (auto simp: fmlookup_dom_iff)
  ultimately show ?thesis by (metis mset_eq_imp_distinct_iff)
qed

lemma snapshot_ids:
  assumes "core_inv c" "(i, s) \<in> set (snapshot_records c)"
  shows "share_id s = Ok i"
  using assms(2) conn_invD(2) [OF core_invD(1) [OF assms(1)]] core_invD(3) [OF assms(1)]
  by (auto simp: set_snapshot_records share_ok_def orphan_ok_def)

text \<open>The parent of a connected share stands before it.\<close>

lemma snapshot_parent_first:
  assumes "chain_inv True c" "snapshot_records c = xs @ (i, s) # ys" "fmlookup (connected c) i = Some a"
  shows "parent_id (cs_share a) = 0 \<or> parent_id (cs_share a) \<in> fst ` set xs"
proof (cases "parent_id (cs_share a) = 0")
  case False
  note inv = chain_invD(1) [OF assms(1)]
  have "(i, s) \<in> set (snapshot_records c)" using assms(2) by simp
  moreover have "(i, cs_share a) \<in> set (snapshot_records c)"
    unfolding set_snapshot_records using assms(3) by simp
  ultimately have s: "s = cs_share a"
    using distinct_snapshot_records [OF inv] by (metis eq_key_imp_eq_value)
  obtain p where p: "fmlookup (connected c) (parent_id (cs_share a)) = Some p"
    "unat (share_height (cs_share a)) = Suc (unat (share_height (cs_share p)))"
    using share_ok_parent [OF conn_invD(2) [OF core_invD(1) [OF inv] assms(3)] False] by blast
  have lt: "share_height (cs_share p) < share_height s" using p(2) s by (simp add: word_less_nat_alt)
  have "sorted (map (\<lambda>(i, s). (share_height s, i)) (xs @ (i, s) # ys))"
    unfolding assms(2) [symmetric] snapshot_records_def by (rule sorted_sort_key)
  then have "\<forall>(j, t)\<in>set ys. share_height s \<le> share_height t"
    by (auto simp: sorted_append case_prod_beta less_eq_prod_def)
  with lt have "(parent_id (cs_share a), cs_share p) \<notin> set ((i, s) # ys)"
    by (auto simp: not_le [symmetric])
  moreover have "(parent_id (cs_share a), cs_share p) \<in> set (snapshot_records c)"
    using p(1) by (auto simp: set_snapshot_records)
  ultimately have "(parent_id (cs_share a), cs_share p) \<in> set xs" using assms(2) by auto
  then show ?thesis by force
qed simp

lemma replay_snapshot:
  assumes "chain_inv True c" "restored_part c (fst ` set xs) d" "snapshot_records c = xs @ ys"
  shows "\<exists>d'. replay_shares (map snd ys) d = (d', Ok ()) \<and> restored_part c (fst ` set (snapshot_records c)) d'"
  using assms(2,3)
proof (induction ys arbitrary: xs d)
  case Nil
  then show ?case by simp
next
  case (Cons y ys)
  obtain i s where y: "y = (i, s)" by fastforce
  note inv = chain_invD(1) [OF assms(1)]
  have mem: "(i, s) \<in> set (snapshot_records c)" and new: "i \<notin> fst ` set xs"
    using Cons.prems(2) distinct_snapshot_records [OF inv] by (auto simp: y)
  have "\<exists>d' res. add_share_unchecked d s = (d', Ok res) \<and> disposition res \<notin> {Duplicate, Rejected} \<and>
      restored_part c (insert i (fst ` set xs)) d'"
  proof (cases "fmlookup (connected c) i")
    case (Some a)
    have "s = cs_share a"
      using mem Some core_invD(3) [OF inv, of i] by (auto simp: set_snapshot_records orphan_ok_def)
    moreover have "parent_id (cs_share a) = 0 \<or> parent_id (cs_share a) \<in> fst ` set xs"
      using assms(1) _ Some by (rule snapshot_parent_first) (use Cons.prems(2) y in simp)
    ultimately show ?thesis
      using restored_connect [OF Cons.prems(1) assms(1) Some new] by (metis empty_iff insert_iff
        share_disposition.distinct)
  next
    case None
    then obtain orph where o: "fmlookup (orphans c) i = Some orph" "s = os_share orph"
      using mem by (auto simp: set_snapshot_records)
    then show ?thesis
      using restored_orphan [OF Cons.prems(1) assms(1) o(1) new] by (metis empty_iff insert_iff
        share_disposition.distinct)
  qed
  then obtain d' res where d': "add_share_unchecked d s = (d', Ok res)" "disposition res \<notin> {Duplicate, Rejected}"
    "restored_part c (fst ` set (xs @ [y])) d'" by (auto simp: y)
  from Cons.IH [OF d'(3)] Cons.prems(2) d'(1,2) show ?case by (auto simp: y)
qed

section \<open>Properties\<close>

lemma snapshot_storable:
  assumes "core_inv c"
  shows "list_all storable (persistence_snapshot c)" "distinct (map share_id (persistence_snapshot c))"
proof -
  show "list_all storable (persistence_snapshot c)"
    using snapshot_ids [OF assms]
    by (auto simp: persistence_snapshot_records list_all_iff storable_def)
  have "map share_id (persistence_snapshot c) = map Ok (map fst (snapshot_records c))"
    using snapshot_ids [OF assms] by (auto simp: persistence_snapshot_records)
  then show "distinct (map share_id (persistence_snapshot c))"
    using distinct_snapshot_records [OF assms] by (simp add: distinct_map del: map_map)
qed

lemma length_snapshot: "length (persistence_snapshot c) = connected_size c + orphan_size c"
  by (simp add: persistence_snapshot_def connected_size_def orphan_size_def sorted_list_of_fmap_def Let_def
      fcard.rep_eq sorted_list_of_fset.rep_eq)

lemma restored_all:
  assumes "restored_part c (fst ` set (snapshot_records c)) d" "conn_inv c"
  shows "shares_of d = shares_of c" "find_orphan_share d = find_orphan_share c" "best_tip_id d = best_tip_id c"
proof -
  have mem: "i \<in> fst ` set (snapshot_records c)"
    if "fmlookup (connected c) i \<noteq> None \<or> fmlookup (orphans c) i \<noteq> None" for i
    using that unfolding set_snapshot_records by (auto simp: image_iff)
  have "shares_of d i = shares_of c i" for i
  proof (cases "fmlookup (connected c) i")
    case None
    then show ?thesis using restored_partD(3) [OF assms(1), of i] by (simp add: shares_of_def find_def)
  next
    case (Some a)
    then obtain b where b: "fmlookup (connected d) i = Some b"
      using restored_partD(3) [OF assms(1), of i] mem [of i] by auto
    from restored_partD(4) [OF assms(1) Some b] Some b show ?thesis by (simp add: shares_of_def find_def)
  qed
  then show eq: "shares_of d = shares_of c" by blast
  have "find_orphan_share d i = find_orphan_share c i" for i
    using restored_partD(5) [OF assms(1), of i] mem [of i]
    by (cases "fmlookup (orphans c) i") (auto simp: find_orphan_share_def)
  then show "find_orphan_share d = find_orphan_share c" by blast
  show "best_tip_id d = best_tip_id c"
    using shares_of_tip [OF chain_invD(2) [OF restored_partD(1) [OF assms(1)]] assms(2) eq] .
qed

text \<open>C21. A restart loses nothing. Write the snapshot of any chain that has run without exceptions
  to a missing or an existing store and load it into a fresh chain with the same parameters: both
  steps succeed, every record is replayed, and the new chain has the same connected shares, the same
  waiting orphans and the same best tip, without touching the file.\<close>

theorem restart_restores_chain:
  assumes "chain_reachable True backend c" "chain_start d" "difficulty_policy d = difficulty_policy c"
    and "file = None \<or> file = Some (store_image st old)"
  shows "\<exists>file' d' r. store_rewrite st file (persistence_snapshot c) = Ok file' \<and>
    load_into st file' d repair = (file', d', Ok r) \<and>
    shares_of d' = shares_of c \<and> find_orphan_share d' = find_orphan_share c \<and>
    best_tip_id d' = best_tip_id c \<and>
    records_loaded r = connected_size c + orphan_size c \<and> \<not> truncated_tail_repaired r"
proof -
  have inv: "chain_inv True c" using assms(1) by (rule chain.reach_inv)
  note ss = snapshot_storable [OF chain_invD(1) [OF inv]]
  have "connected d = fmempty \<and> orphans d = fmempty"
    using assms(2) by (auto simp: chain_start_def empty_share_chain_def dest: make_share_chain_Ok(2))
  then have "restored_part c {} d"
    using chain_start_inv [OF assms(2), of True] assms(3) by (simp add: restored_part_def)
  then obtain d' where d': "replay_shares (persistence_snapshot c) d = (d', Ok ())"
    "restored_part c (fst ` set (snapshot_records c)) d'"
    using replay_snapshot [OF inv, of "[]" d "snapshot_records c"] by (auto simp: persistence_snapshot_records)
  have "store_rewrite st file (persistence_snapshot c) = Ok (Some (store_image st (persistence_snapshot c)))"
    using assms(4) rewrite_image [OF ss] by (auto simp: store_rewrite_def)
  moreover have "load_into st (Some (store_image st (persistence_snapshot c))) d repair =
      (Some (store_image st (persistence_snapshot c)), d',
       Ok (loaded d' (connected_size c + orphan_size c) False))"
    using load_image [OF ss(1)] d'(1) by (simp add: length_snapshot)
  ultimately show ?thesis
    using restored_all [OF d'(2) chain_invD(2) [OF inv]] by (simp add: loaded_def)
qed

theorem restart_restores_chain_witness:
  "\<exists>file' d' r. store_rewrite \<lparr>store_path = ''shares.dat'', expected_sidechain_id = array_of_nat 1\<rparr> None
      (persistence_snapshot sample_chain) = Ok file' \<and>
    load_into \<lparr>store_path = ''shares.dat'', expected_sidechain_id = array_of_nat 1\<rparr> file' sample_start True =
      (file', d', Ok r) \<and> best_tip_id d' = Some sample_id"
proof -
  have "chain_start sample_start" using sample_start_ok by (auto simp: chain_start_def)
  moreover have "difficulty_policy sample_start = difficulty_policy sample_chain" by (simp add: sample_chain_def)
  ultimately show ?thesis
    using restart_restores_chain [OF sample_reachable, of sample_start None
        "\<lparr>store_path = ''shares.dat'', expected_sidechain_id = array_of_nat 1\<rparr>" undefined True]
    by (auto simp: sample_chain_def)
qed

lemma append_Ok:
  assumes "store_append st (Some bytes) s = Ok f"
  shows "storable s" "f = Some (bytes @ share_record s)"
  using assms
  by (auto simp: store_append_def ensure_header_def checked_payload_def share_record_def storable_def
      bindE_eq_Ok split: if_splits)

lemma appends_image:
  assumes "forE (\<lambda>s f. store_append st f s) ss (Some (store_image st old)) = Ok f"
  shows "list_all storable ss \<and> f = Some (store_image st (old @ ss))"
  using assms
proof (induction ss arbitrary: old)
  case (Cons s ss)
  then obtain f' where f': "store_append st (Some (store_image st old)) s = Ok f'"
    "forE (\<lambda>s f. store_append st f s) ss f' = Ok f" by (auto simp: bindE_eq_Ok)
  have "f' = Some (store_image st (old @ [s]))"
    using append_Ok [OF f'(1)] by (simp add: store_image_def)
  with Cons.IH [of "old @ [s]"] f'(2) append_Ok(1) [OF f'(1)] show ?case by simp
qed simp

lemma appends_new:
  assumes "forE (\<lambda>s f. store_append st f s) ss None = Ok (Some bytes)"
  shows "list_all storable ss \<and> bytes = store_image st ss"
proof (cases ss)
  case (Cons s rest)
  with assms obtain f' where f': "store_append st None s = Ok f'"
    "forE (\<lambda>s f. store_append st f s) rest f' = Ok (Some bytes)" by (auto simp: bindE_eq_Ok)
  have s: "storable s" using f'(1) by (auto simp: store_append_def storable_def bindE_eq_Ok)
  with f'(1) store_append_image(2) [OF s, of st] have "f' = Some (store_image st [s])" by simp
  with appends_image [of st rest "[s]"] f'(2) s Cons show ?thesis by simp
qed (use assms in simp)

text \<open>C26. An interrupted append is harmless. After any successful appends, cut the next append off
  after any number of its bytes: recovery replays exactly the earlier shares, reports the repair and
  cuts the file back to them; with repair switched off it refuses the file. An error of the replay
  itself leaves the file alone.\<close>

theorem store_crash_recovery:
  assumes "forE (\<lambda>s f. store_append st f s) ss None = Ok (Some bytes)"
    and "store_append st (Some bytes) s = Ok (Some (bytes @ rec))" "0 < k" "k < length rec"
  shows "load_into st (Some bytes) c repair = (Some bytes, d, r) \<Longrightarrow>
      load_into st (Some (bytes @ take k rec)) c True =
        (case r of Inl e \<Rightarrow> (Some (bytes @ take k rec), d, Throw e)
          | Inr res \<Rightarrow> (Some bytes, d, Ok (res\<lparr>truncated_tail_repaired := True\<rparr>))) \<and>
      (\<exists>e. load_into st (Some (bytes @ take k rec)) c False = (Some (bytes @ take k rec), d, Throw e)) \<and>
      (\<forall>res. r = Ok res \<longrightarrow> records_loaded res = length ss \<and> \<not> truncated_tail_repaired res)"
proof -
  assume load: "load_into st (Some bytes) c repair = (Some bytes, d, r)"
  have ss: "list_all storable ss" "bytes = store_image st ss" using appends_new [OF assms(1)] by simp_all
  have s: "storable s" "rec = share_record s" using append_Ok [OF assms(2)] by simp_all
  note cut = load_cut_image [OF ss(1) s(1) assms(3) assms(4) [unfolded s(2)], of st c]
  obtain r' where r': "replay_shares ss c = (d, r')" "r = bindE r' (\<lambda>_. Ok (loaded d (length ss) False))"
    using load load_image [OF ss(1), of st c repair] by (auto simp: ss(2) split: prod.splits)
  then show ?thesis
    unfolding ss(2) s(2) cut by (cases r') (simp_all add: loaded_def)
qed

lemma sample_snapshot: "persistence_snapshot sample_chain = [sample_share]"
  by (simp add: persistence_snapshot_def sample_chain_def sample_start_fields sorted_list_of_fmap_def
      sample_connected_def sorted_list_of_fset.rep_eq)

theorem store_crash_recovery_witness:
  "\<exists>bytes rec d r.
    store_append \<lparr>store_path = ''shares.dat'', expected_sidechain_id = array_of_nat 1\<rparr> None sample_share =
      Ok (Some bytes) \<and> 1 < length rec \<and>
    load_into \<lparr>store_path = ''shares.dat'', expected_sidechain_id = array_of_nat 1\<rparr> (Some (bytes @ take 1 rec))
      sample_start True = (Some bytes, d, Ok r) \<and> truncated_tail_repaired r \<and> records_loaded r = 1"
proof -
  let ?st = "\<lparr>store_path = ''shares.dat'', expected_sidechain_id = array_of_nat 1\<rparr>"
  have inv: "chain_inv True sample_chain" using sample_reachable by (rule chain.reach_inv)
  have "restored_part sample_chain {} sample_start"
    using sample_start_ok chain_start_inv [of sample_start True]
    by (simp add: restored_part_def sample_start_fields chain_start_def) (auto simp: sample_chain_def sample_start_fields)
  then obtain d where d: "replay_shares [sample_share] sample_start = (d, Ok ())"
    using replay_snapshot [OF inv, of "[]" sample_start "snapshot_records sample_chain"] sample_snapshot
    by (auto simp: persistence_snapshot_records)
  have s: "storable sample_share" "storable sample_child"
    using sample_id_ok keep_sample_child by (auto simp: storable_def)
  have 1: "forE (\<lambda>s f. store_append ?st f s) [sample_share] None = Ok (Some (store_image ?st [sample_share]))"
    using store_append_image(2) [OF s(1)] by simp
  have 2: "store_append ?st (Some (store_image ?st [sample_share])) sample_child =
      Ok (Some (store_image ?st [sample_share] @ share_record sample_child))"
    using store_append_image(1) [OF s(2), of ?st "[sample_share]"] by (simp add: store_image_def)
  have len: "1 < length (share_record sample_child)"
    using s(2) by (auto elim!: storableE simp: record_bytes_def)
  have load: "load_into ?st (Some (store_image ?st [sample_share])) sample_start True =
      (Some (store_image ?st [sample_share]), d, Ok (loaded d 1 False))"
    using load_image [of "[sample_share]" ?st sample_start True] s(1) d by simp
  from store_crash_recovery [OF 1 2 zero_less_one len load] store_append_image(2) [OF s(1), of ?st] len show ?thesis
    by (intro exI [of _ "store_image ?st [sample_share]"] exI [of _ "share_record sample_child"] exI [of _ d]
        exI [of _ "(loaded d 1 False)\<lparr>truncated_tail_repaired := True\<rparr>"])
      (simp add: loaded_def)
qed

end
