(* ===== verification/Historical_Payout.thy ===== *)
theory Historical_Payout
  imports Pplns_Coinbase Chain_Spec
begin

text \<open>
  \<open>src/src/historical_payout.cpp\<close>: the payout plan for an explicit parent share. Its correctness is
  agreement: nodes whose chains differ elsewhere derive the same plan for the same parent.
\<close>

section \<open>Operations\<close>

datatype historical_payout_status =
    PlanDerived
  | ParameterMismatch
  | BootstrapHistoryRequired
  | BootstrapRoot
  | ParentMissing
  | UnverifiedAncestry
  | PlanUnavailable

record historical_payout_result =
  historical_status :: historical_payout_status
  historical_parent_id :: share_id
  historical_plan :: pplns_coinbase_plan

definition empty_plan :: pplns_coinbase_plan where
  "empty_plan = \<lparr>plan_status = EmptyWindow, plan_reward_atomic = 0, plan_destinations = []\<rparr>"

definition derive_historical_payout_plan ::
  "share_chain \<Rightarrow> sidechain_parameters \<Rightarrow> share_id \<Rightarrow> difficulty128 \<Rightarrow> u64 \<Rightarrow> historical_payout_result result"
where
  "derive_historical_payout_plan chain params parent network reward =
    (let result = (\<lambda>status plan. Ok \<lparr>historical_status = status, historical_parent_id = parent,
           historical_plan = plan\<rparr>)
     in bindE (matches_sidechain_parameters chain params) (\<lambda>matches.
       if \<not> matches then result ParameterMismatch empty_plan
       else if is_zero_share_id parent then result BootstrapHistoryRequired empty_plan
       else (case find chain parent of
         None \<Rightarrow> result ParentMissing empty_plan
       | Some share \<Rightarrow>
           if \<not> validated_ancestry share then result UnverifiedAncestry empty_plan
           else bindE (build_sidechain_pplns_window_at_parent chain parent params network) (\<lambda>window.
             bindE (make_pplns_coinbase_plan window reward params) (\<lambda>plan.
               result (if plan_status plan = Ready then PlanDerived else PlanUnavailable) plan)))))"

definition historical_payout_status_name :: "historical_payout_status \<Rightarrow> string" where
  "historical_payout_status_name status =
    (case status of PlanDerived \<Rightarrow> ''plan-derived'' | ParameterMismatch \<Rightarrow> ''parameter-mismatch''
      | BootstrapHistoryRequired \<Rightarrow> ''bootstrap-history-required'' | BootstrapRoot \<Rightarrow> ''bootstrap-root''
      | ParentMissing \<Rightarrow> ''parent-missing'' | UnverifiedAncestry \<Rightarrow> ''unverified-ancestry''
      | PlanUnavailable \<Rightarrow> ''plan-unavailable'')"

section \<open>Agreement along an ancestry\<close>

text \<open>The chain \<open>d\<close> holds the same shares as \<open>c\<close> on the way from \<open>i\<close> to the root.\<close>

definition agree_from :: "share_chain \<Rightarrow> share_chain \<Rightarrow> share_id \<Rightarrow> bool" where
  "agree_from c d i \<longleftrightarrow> (\<forall>j\<in>ancestry c i. shares_of c j = shares_of d j)"

lemma agree_from_share:
  assumes "agree_from c d i" "fmlookup (connected c) i = Some a" "fmlookup (connected d) i = Some b"
  shows "cs_share b = cs_share a"
proof -
  have "i \<in> ancestry c i" by (simp add: ancestry_def)
  with assms show ?thesis by (auto simp: agree_from_def shares_of_def find_def)
qed

lemma agree_from_parent:
  assumes "agree_from c d i" "fmlookup (connected c) i = Some a" "parent_id (cs_share a) \<noteq> 0"
  shows "agree_from c d (parent_id (cs_share a))"
proof -
  have "(parent_id (cs_share a), i) \<in> child_of c" using assms(2,3) by (auto simp: child_of_def)
  then have "ancestry c (parent_id (cs_share a)) \<subseteq> ancestry c i"
    by (auto simp: ancestry_def intro: rtrancl_into_rtrancl)
  with assms(1) show ?thesis by (auto simp: agree_from_def)
qed

text \<open>Two payable shares at the same place of two chains.\<close>

definition twins :: "share_chain \<Rightarrow> share_chain \<Rightarrow> connected_share \<Rightarrow> connected_share \<Rightarrow> bool" where
  "twins c d a b \<longleftrightarrow> (\<exists>i. agree_from c d i \<and> fmlookup (connected c) i = Some a \<and>
    fmlookup (connected d) i = Some b \<and> Pplns_Window.payable c a \<and> Pplns_Window.payable d b)"

lemma twinsD:
  assumes "twins c d a b"
  shows "cs_share b = cs_share a" "require_validated_payout_ancestry c a = Ok ()"
    "require_validated_payout_ancestry d b = Ok ()"
  using assms unfolding twins_def by (blast intro: agree_from_share payable_require)+

lemma twins_parent:
  assumes "conn_inv c" "conn_inv d" "twins c d a b" "parent_id (cs_share a) \<noteq> 0"
  obtains p q where "find c (parent_id (cs_share a)) = Some p" "find d (parent_id (cs_share a)) = Some q"
    "twins c d p q"
proof -
  from assms(3) obtain i where i: "agree_from c d i" "fmlookup (connected c) i = Some a"
    "fmlookup (connected d) i = Some b" "Pplns_Window.payable c a" "Pplns_Window.payable d b" by (auto simp: twins_def)
  have eq: "cs_share b = cs_share a" using agree_from_share [OF i(1-3)] .
  have par: "parent_id (cs_share b) \<noteq> 0" using assms(4) unfolding eq .
  obtain p where p: "fmlookup (connected c) (parent_id (cs_share a)) = Some p" "Pplns_Window.payable c p"
    by (rule payable_parent [OF assms(1) i(2,4) assms(4)], rule that)
  obtain q where q: "fmlookup (connected d) (parent_id (cs_share b)) = Some q" "Pplns_Window.payable d q"
    by (rule payable_parent [OF assms(2) i(3,5) par], rule that)
  note q = q [unfolded eq]
  have "twins c d p q"
    unfolding twins_def
    by (intro exI [of _ "parent_id (cs_share a)"] conjI agree_from_parent [OF i(1,2) assms(4)] p q)
  then show thesis by (rule that [unfolded find_def, OF p(1) q(1)])
qed

lemma pplns_walk_twins:
  assumes "conn_inv c" "conn_inv d" "twins c d a b"
  shows "pplns_walk c a left n credited = pplns_walk d b left n credited"
  using assms
proof (induction left arbitrary: a b n credited rule: less_induct)
  case (less left)
  note tw = twinsD [OF less.prems(3)]
  have IH: "pplns_walk c p l m cr = pplns_walk d q l m cr" if "twins c d p q" "l < left" for p q l m cr
    using less.IH [of l p q m cr] less.prems(1,2) that by simp
  show ?case
    unfolding pplns_walk.simps [of c a] pplns_walk.simps [of d b] tw
    by (cases "parent_id (cs_share a) = 0")
      (auto simp: Let_def is_zero_iff intro!: bindE_cong IH elim!: twins_parent [OF less.prems])
qed

lemma recent_work_twins:
  assumes "conn_inv c" "conn_inv d" "twins c d a b"
  shows "recent_work c window a recent counted = recent_work d window b recent counted"
  using assms
proof (induction "unat window - counted" arbitrary: a b recent counted rule: less_induct)
  case less
  note tw = twinsD [OF less.prems(3)]
  have "recent_work c window p r (Suc counted) = recent_work d window q r (Suc counted)"
    if "twins c d p q" "counted < unat window" for p q r
    using less.hyps [of "Suc counted" p q r] less.prems(1,2) that by simp
  then show ?case
    unfolding recent_work.simps [of c window a] recent_work.simps [of d window b] tw
    by (cases "parent_id (cs_share a) = 0")
      (auto simp: Let_def is_zero_iff intro!: bindE_cong elim!: twins_parent [OF less.prems])
qed

lemma window_twins:
  assumes "conn_inv c" "conn_inv d" "twins c d a b" "find c i = Some a" "find d i = Some b"
  shows "build_sidechain_pplns_window_at_parent c i params network =
    build_sidechain_pplns_window_at_parent d i params network"
proof -
  have "build_pplns_window_at_parent c i requested = build_pplns_window_at_parent d i requested" for requested
    using pplns_walk_twins [OF assms(1-3)] assms(4,5) by (simp add: build_pplns_window_at_parent_def Let_def)
  then show ?thesis
    using recent_work_twins [OF assms(1-3)] assms(4,5)
    by (simp add: build_sidechain_pplns_window_at_parent_def Let_def cong: if_cong)
qed

text \<open>C25. Nodes agree on payouts. Take two nodes whose chains, however they grew, hold the same shares
  on the way from a parent to the root and have both validated it. They derive the same payout plan
  for this parent, difficulty and reward, whatever other branches, tips and orphans they know; and
  when the outcome is a plan it is the coinbase plan of the window at that parent.\<close>

theorem payout_agreement:
  assumes "chain_reachable f1 b1 c" "chain_reachable f2 b2 d" "parameter_id c = parameter_id d"
    and "find c parent = Some a" "find d parent = Some b" "validated_ancestry a" "validated_ancestry b"
    and "\<forall>j\<in>ancestry c parent. shares_of c j = shares_of d j"
  shows "derive_historical_payout_plan c params parent network reward =
      derive_historical_payout_plan d params parent network reward \<and>
    (\<forall>r. derive_historical_payout_plan c params parent network reward = Ok r \<and> historical_status r = PlanDerived \<longrightarrow>
      (\<exists>window. build_sidechain_pplns_window_at_parent c parent params network = Ok window \<and>
        make_pplns_coinbase_plan window reward params = Ok (historical_plan r) \<and>
        plan_status (historical_plan r) = Ready))"
proof -
  note inv = reachable_conn [OF assms(1)] reachable_conn [OF assms(2)]
  have "twins c d a b"
    using assms(4-8) by (auto simp: twins_def agree_from_def find_def Pplns_Window.payable_def)
  from window_twins [OF inv this assms(4,5)]
  have "derive_historical_payout_plan c params parent network reward =
      derive_historical_payout_plan d params parent network reward"
    using assms(3-7) by (simp add: derive_historical_payout_plan_def matches_sidechain_parameters_def Let_def
        cong: if_cong)
  moreover have "\<exists>window. build_sidechain_pplns_window_at_parent c parent params network = Ok window \<and>
        make_pplns_coinbase_plan window reward params = Ok (historical_plan r) \<and>
        plan_status (historical_plan r) = Ready"
    if "derive_historical_payout_plan c params parent network reward = Ok r" "historical_status r = PlanDerived" for r
    using that assms(4,6)
    by (auto simp: derive_historical_payout_plan_def Let_def bindE_eq_Ok split: if_splits)
  ultimately show ?thesis by blast
qed

text \<open>The sample chain with a further share whose parent it does not know.\<close>

definition stray_share :: share where
  "stray_share = sample_share\<lparr>share_height := 1,
    parent_id := (if sample_id = array_of_nat 1 then array_of_nat 2 else array_of_nat 1)\<rparr>"

lemma stray_connected:
  "\<exists>d res. add_share_unchecked sample_chain stray_share = (d, Ok res) \<and> connected d = connected sample_chain \<and>
    parameter_id d = parameter_id sample_chain"
proof -
  obtain j where j: "share_id stray_share = Ok j"
    by (simp add: share_id_def serialize_share_def stray_share_def sample_share_def share_constants Let_def)
  have nz: "(array_of_nat 1 :: share_id) \<noteq> 0" "(array_of_nat 2 :: share_id) \<noteq> 0"
    "(array_of_nat 2 :: share_id) \<noteq> array_of_nat 1"
    by (simp_all add: arr_val_eq_iff [symmetric] arr_val_array_of_nat)
  then have parent: "parent_id stray_share \<noteq> 0" "parent_id stray_share |\<notin>| fmdom (connected sample_chain)"
    by (auto simp: stray_share_def sample_chain_def sample_start_fields)
  have "difficulty_policy sample_chain = difficulty_policy sample_start" by (simp add: sample_chain_def)
  with parent(1) have st: "structural_reject_reason sample_chain stray_share = No_Reason"
    by (simp add: structural_reject_reason_def sample_start_fields)
      (simp add: stray_share_def sample_share_def sample_difficulties)
  from parent j st show ?thesis
    by (auto simp: add_share_unchecked_def add_prevalidated_share_def keep_orphan_def Let_def)
qed

theorem payout_agreement_witness:
  "derive_historical_payout_plan sample_chain (canonical_sidechain_parameters Testnet) sample_id
     (array_of_nat 200000000) 10000 =
   derive_historical_payout_plan (fst (add_share_unchecked sample_chain stray_share))
     (canonical_sidechain_parameters Testnet) sample_id (array_of_nat 200000000) 10000"
proof -
  obtain d res where d: "add_share_unchecked sample_chain stray_share = (d, Ok res)"
    "connected d = connected sample_chain" "parameter_id d = parameter_id sample_chain"
    using stray_connected by blast
  have "chain_reachable True (Some zero_hash_backend) d" using sample_reachable d(1) by (rule reachable_replay)
  moreover have "find sample_chain sample_id = Some sample_connected" "find d sample_id = Some sample_connected"
    "validated_ancestry sample_connected"
    by (simp_all add: find_def d(2)) (simp_all add: sample_chain_def sample_connected_def)
  moreover have "shares_of sample_chain j = shares_of d j" for j by (simp add: shares_of_def find_def d(2))
  ultimately show ?thesis
    using payout_agreement [OF sample_reachable, of True "Some zero_hash_backend" d sample_id sample_connected sample_connected
        "canonical_sidechain_parameters Testnet" "array_of_nat 200000000" 10000] d(1,3)
    by simp
qed

end
