(* ===== verification/Peer_Score.thy ===== *)
theory Peer_Score
  imports P2p_Protocol "HOL-Library.Finite_Map"
begin

text \<open>
  \<open>src/include/zano_p2pool/p2p_peer_score.hpp\<close>: penalties and temporary bans per node identity. A time
  point is the integer count of the steady clock; the clock's overflow after centuries is not modelled.
  The queries refresh the entry they look at and so return the book as well.
\<close>

section \<open>Data and operations\<close>

definition kP2pProtocolViolationPenalty :: u32 where
  "kP2pProtocolViolationPenalty = 25"

record p2p_peer_score_config =
  ban_threshold :: u32
  ban_duration :: int

record p2p_peer_penalty_result =
  penalty_score :: u32
  penalty_banned :: bool
  ban_started :: bool
  penalty_banned_until :: "int option"

record score_entry =
  entry_score :: u32
  entry_banned_until :: "int option"

record score_book =
  book_config :: p2p_peer_score_config
  entries :: "(node_id, score_entry) fmap"

definition make_score_book :: "p2p_peer_score_config \<Rightarrow> score_book result" where
  "make_score_book config =
    (if ban_threshold config = 0 then Throw (Runtime_error ''P2P peer ban threshold must be nonzero'')
     else if ban_duration config \<le> 0 then Throw (Runtime_error ''P2P peer ban duration must be positive'')
     else Ok \<lparr>book_config = config, entries = fmempty\<rparr>)"

definition refresh_locked :: "score_entry \<Rightarrow> int \<Rightarrow> score_entry" where
  "refresh_locked entry now =
    (case entry_banned_until entry of
      None \<Rightarrow> entry
    | Some until \<Rightarrow>
        if now \<ge> until then entry\<lparr>entry_score := 0, entry_banned_until := None\<rparr> else entry)"

definition result_locked :: "score_entry \<Rightarrow> bool \<Rightarrow> p2p_peer_penalty_result" where
  "result_locked entry started =
    \<lparr>penalty_score = entry_score entry, penalty_banned = (entry_banned_until entry \<noteq> None),
     ban_started = started, penalty_banned_until = entry_banned_until entry\<rparr>"

definition entry_of :: "score_book \<Rightarrow> node_id \<Rightarrow> score_entry" where
  "entry_of book node =
    (case fmlookup (entries book) node of
      None \<Rightarrow> \<lparr>entry_score = 0, entry_banned_until = None\<rparr> | Some entry \<Rightarrow> entry)"

definition store_entry :: "score_book \<Rightarrow> node_id \<Rightarrow> score_entry \<Rightarrow> score_book" where
  "store_entry book node entry = book\<lparr>entries := fmupd node entry (entries book)\<rparr>"

definition penalize :: "score_book \<Rightarrow> node_id \<Rightarrow> u32 \<Rightarrow> int \<Rightarrow> score_book \<times> p2p_peer_penalty_result" where
  "penalize book node penalty now =
    (let threshold = ban_threshold (book_config book);
         entry = refresh_locked (entry_of book node) now
     in if entry_banned_until entry \<noteq> None \<or> penalty = 0
        then (store_entry book node entry, result_locked entry False)
        else
          let room = (if threshold > entry_score entry then threshold - entry_score entry else 0);
              raised = entry\<lparr>entry_score := entry_score entry + min penalty room\<rparr>
          in if entry_score raised \<ge> threshold
             then let final = raised\<lparr>entry_score := threshold,
                        entry_banned_until := Some (now + ban_duration (book_config book))\<rparr>
                  in (store_entry book node final, result_locked final True)
             else (store_entry book node raised, result_locked raised False))"

definition query_entry :: "score_book \<Rightarrow> node_id \<Rightarrow> int \<Rightarrow> score_book \<times> score_entry option" where
  "query_entry book node now =
    (case fmlookup (entries book) node of
      None \<Rightarrow> (book, None)
    | Some entry \<Rightarrow>
        let fresh = refresh_locked entry now in (store_entry book node fresh, Some fresh))"

definition peer_score :: "score_book \<Rightarrow> node_id \<Rightarrow> int \<Rightarrow> score_book \<times> u32" where
  "peer_score book node now =
    (case query_entry book node now of (book', entry) \<Rightarrow>
      (book', case entry of None \<Rightarrow> 0 | Some e \<Rightarrow> entry_score e))"

definition banned_until :: "score_book \<Rightarrow> node_id \<Rightarrow> int \<Rightarrow> score_book \<times> int option" where
  "banned_until book node now =
    (case query_entry book node now of (book', entry) \<Rightarrow>
      (book', case entry of None \<Rightarrow> None | Some e \<Rightarrow> entry_banned_until e))"

definition banned :: "score_book \<Rightarrow> node_id \<Rightarrow> int \<Rightarrow> score_book \<times> bool" where
  "banned book node now = (case banned_until book node now of (book', until) \<Rightarrow> (book', until \<noteq> None))"

definition clear_score :: "score_book \<Rightarrow> node_id \<Rightarrow> score_book" where
  "clear_score book node = book\<lparr>entries := fmdrop node (entries book)\<rparr>"

section \<open>Sequences of penalties\<close>

fun penalize_all :: "score_book \<Rightarrow> node_id \<Rightarrow> (u32 \<times> int) list \<Rightarrow> score_book" where
  "penalize_all book node [] = book"
| "penalize_all book node ((penalty, now) # rest) = penalize_all (fst (penalize book node penalty now)) node rest"

text \<open>The reference: the time of the penalty that brings the sum to the threshold.\<close>

fun ban_time :: "nat \<Rightarrow> (u32 \<times> int) list \<Rightarrow> int option" where
  "ban_time missing [] = None"
| "ban_time missing ((penalty, now) # rest) =
    (if missing \<le> unat penalty then Some now else ban_time (missing - unat penalty) rest)"

lemma store_entry_simps [simp]:
  "book_config (store_entry book node e) = book_config book"
  "entry_of (store_entry book node e) node = e"
  "other \<noteq> node \<Longrightarrow> entry_of (store_entry book node e) other = entry_of book other"
  by (simp_all add: store_entry_def entry_of_def)

lemma penalize_other: "other \<noteq> node \<Longrightarrow> entry_of (fst (penalize book node p now)) other = entry_of book other"
  by (simp add: penalize_def Let_def)

lemma penalize_config: "book_config (fst (penalize book node p now)) = book_config book"
  by (simp add: penalize_def Let_def)

lemma penalize_all_frame:
  "book_config (penalize_all book node ps) = book_config book"
  "other \<noteq> node \<Longrightarrow> entry_of (penalize_all book node ps) other = entry_of book other"
  by (induction ps arbitrary: book) (auto simp: penalize_config penalize_other)

lemma penalize_banned:
  assumes "entry_banned_until (entry_of book node) = Some until" "now < until"
  shows "entry_of (fst (penalize book node p now)) node = entry_of book node"
  using assms by (simp add: penalize_def refresh_locked_def Let_def)

lemma penalize_all_banned:
  assumes "entry_banned_until (entry_of book node) = Some until" "\<forall>(p, now)\<in>set ps. now < until"
  shows "entry_of (penalize_all book node ps) node = entry_of book node"
  using assms
proof (induction ps arbitrary: book)
  case (Cons x ps)
  then show ?case by (cases x) (simp add: penalize_banned)
qed simp

lemma penalize_fresh:
  assumes "entry_of book node = \<lparr>entry_score = s, entry_banned_until = None\<rparr>"
    "s < ban_threshold (book_config book)" "missing = unat (ban_threshold (book_config book)) - unat s"
  shows "entry_of (fst (penalize book node p now)) node =
    (if missing \<le> unat p
     then \<lparr>entry_score = ban_threshold (book_config book),
            entry_banned_until = Some (now + ban_duration (book_config book))\<rparr>
     else \<lparr>entry_score = s + p, entry_banned_until = None\<rparr>)"
    "\<not> missing \<le> unat p \<Longrightarrow> unat (s + p) = unat s + unat p"
proof -
  let ?t = "ban_threshold (book_config book)"
  have room: "unat (?t - s) = missing" using unat_sub [OF less_imp_le [OF assms(2)]] assms(3) by simp
  have le: "missing \<le> unat p \<longleftrightarrow> ?t - s \<le> p" unfolding word_le_nat_alt room ..
  have add: "unat (s + p) = unat s + unat p" if "\<not> missing \<le> unat p"
  proof -
    have "unat s + unat p < 2 ^ 32"
      using that assms(2,3) unsigned_less [where w = ?t and ?'a = nat] by (simp add: word_less_nat_alt)
    then show ?thesis by (simp add: unat_word_ariths)
  qed
  then show "\<not> missing \<le> unat p \<Longrightarrow> unat (s + p) = unat s + unat p" .
  have less: "\<not> ?t \<le> s + p" if "\<not> missing \<le> unat p"
    using that add assms(2,3) by (simp add: word_le_nat_alt word_less_nat_alt)
  have "p = 0 \<Longrightarrow> \<not> missing \<le> unat p" using assms(2,3) by (simp add: word_less_nat_alt)
  then show "entry_of (fst (penalize book node p now)) node =
    (if missing \<le> unat p
     then \<lparr>entry_score = ?t, entry_banned_until = Some (now + ban_duration (book_config book))\<rparr>
     else \<lparr>entry_score = s + p, entry_banned_until = None\<rparr>)"
    using assms(1,2) less le
    by (cases "missing \<le> unat p")
      (auto simp: penalize_def refresh_locked_def Let_def min_def not_le)
qed

lemma penalize_all_fresh:
  assumes "entry_of book node = \<lparr>entry_score = s, entry_banned_until = None\<rparr>"
    "s < ban_threshold (book_config book)" "missing = unat (ban_threshold (book_config book)) - unat s"
    "\<forall>t. ban_time missing ps = Some t \<longrightarrow> (\<forall>(p, now)\<in>set ps. now < t + ban_duration (book_config book))"
  shows "(case ban_time missing ps of
      Some t \<Rightarrow> entry_of (penalize_all book node ps) node = \<lparr>entry_score = ban_threshold (book_config book),
        entry_banned_until = Some (t + ban_duration (book_config book))\<rparr>
    | None \<Rightarrow> \<exists>e. entry_of (penalize_all book node ps) node = \<lparr>entry_score = e, entry_banned_until = None\<rparr> \<and>
        unat e = unat s + (\<Sum>(p, now)\<leftarrow>ps. unat p) \<and> e < ban_threshold (book_config book))"
  using assms
proof (induction ps arbitrary: book s missing)
  case (Cons x ps)
  obtain p now where x: "x = (p, now)" by fastforce
  let ?b = "fst (penalize book node p now)"
  note step = penalize_fresh [OF Cons.prems(1-3)]
  show ?case
  proof (cases "missing \<le> unat p")
    case True
    have e: "entry_of ?b node = \<lparr>entry_score = ban_threshold (book_config book),
        entry_banned_until = Some (now + ban_duration (book_config book))\<rparr>" using step(1) True by simp
    have "entry_of (penalize_all ?b node ps) node = entry_of ?b node"
      using Cons.prems(4) True e by (intro penalize_all_banned) (auto simp: x)
    with e True show ?thesis by (simp add: x)
  next
    case False
    have e: "entry_of ?b node = \<lparr>entry_score = s + p, entry_banned_until = None\<rparr>" using step(1) False by simp
    have lt: "s + p < ban_threshold (book_config ?b)"
      using step(2) [OF False] False Cons.prems(2,3) by (simp add: word_less_nat_alt penalize_config)
    have m: "missing - unat p = unat (ban_threshold (book_config ?b)) - unat (s + p)"
      using step(2) [OF False] Cons.prems(3) by (simp add: penalize_config)
    have "\<forall>t. ban_time (missing - unat p) ps = Some t \<longrightarrow>
        (\<forall>(p, now)\<in>set ps. now < t + ban_duration (book_config ?b))"
      using Cons.prems(4) False by (simp add: x penalize_config)
    from Cons.IH [OF e lt m this] step(2) [OF False] False show ?thesis
      by (auto simp: x penalize_config split: option.splits)
  qed
qed (use assms in auto)

section \<open>Properties\<close>

text \<open>A peer is banned exactly when its penalties reach the threshold. Penalize one node of a new
  book any number of times, all of them before a ban runs out. The score is the sum of the penalties
  and there is no ban as long as the sum stays below the threshold. The penalty that reaches it starts
  the ban, which lasts for the configured time from that moment: later penalties do not extend it, and
  when it is over the score is zero again. Other nodes are not affected and nothing wraps around.\<close>

theorem peer_ban_exact:
  assumes "make_score_book config = Ok book"
    and "\<forall>t. ban_time (unat (ban_threshold config)) ps = Some t \<longrightarrow>
      (\<forall>(p, now)\<in>set ps. now < t + ban_duration config)"
  shows "(case ban_time (unat (ban_threshold config)) ps of
      None \<Rightarrow> unat (snd (peer_score (penalize_all book node ps) node now)) = (\<Sum>(p, t)\<leftarrow>ps. unat p) \<and>
        \<not> snd (banned (penalize_all book node ps) node now)
    | Some t \<Rightarrow>
        (snd (banned (penalize_all book node ps) node now) \<longleftrightarrow> now < t + ban_duration config) \<and>
        snd (peer_score (penalize_all book node ps) node now) =
          (if now < t + ban_duration config then ban_threshold config else 0)) \<and>
    (\<forall>other. other \<noteq> node \<longrightarrow> \<not> snd (banned (penalize_all book node ps) other now))"
proof -
  have book: "book = \<lparr>book_config = config, entries = fmempty\<rparr>" "ban_threshold config \<noteq> 0"
    using assms(1) by (auto simp: make_score_book_def split: if_splits)
  let ?b = "penalize_all book node ps"
  have query: "snd (query_entry b i now) = map_option (\<lambda>e. refresh_locked e now) (fmlookup (entries b) i)" for b i
    by (simp add: query_entry_def Let_def split: option.split)
  have score: "snd (peer_score b i now) = entry_score (refresh_locked (entry_of b i) now)" for b i
    using query [of b i]
    by (cases "fmlookup (entries b) i")
      (auto simp: peer_score_def entry_of_def refresh_locked_def split: prod.split)
  have ban: "snd (banned b i now) \<longleftrightarrow> entry_banned_until (refresh_locked (entry_of b i) now) \<noteq> None" for b i
    using query [of b i]
    by (cases "fmlookup (entries b) i")
      (auto simp: banned_def banned_until_def entry_of_def refresh_locked_def split: prod.split)
  have start: "entry_of book node = \<lparr>entry_score = 0, entry_banned_until = None\<rparr>" by (simp add: entry_of_def book)
  have "0 < ban_threshold (book_config book)" using book by (simp add: word_gt_0)
  note all = penalize_all_fresh [OF start this refl, of ps]
  have "case ban_time (unat (ban_threshold config)) ps of
      None \<Rightarrow> unat (snd (peer_score ?b node now)) = (\<Sum>(p, t)\<leftarrow>ps. unat p) \<and> \<not> snd (banned ?b node now)
    | Some t \<Rightarrow> (snd (banned ?b node now) \<longleftrightarrow> now < t + ban_duration config) \<and>
        snd (peer_score ?b node now) = (if now < t + ban_duration config then ban_threshold config else 0)"
    using all assms(2) unfolding score ban
    by (auto simp: book refresh_locked_def split: option.splits)
  moreover have "\<not> snd (banned ?b other now)" if "other \<noteq> node" for other
    using penalize_all_frame(2) [OF that, of book ps] unfolding ban
    by (simp add: book entry_of_def refresh_locked_def)
  ultimately show ?thesis by blast
qed

theorem peer_ban_exact_witness:
  "\<exists>book. make_score_book \<lparr>ban_threshold = 100, ban_duration = 300000\<rparr> = Ok book \<and>
    (\<forall>now. snd (banned (penalize_all book 0 [(60, 0), (25, 1), (25, 2), (25, 3)]) 0 now) \<longleftrightarrow> now < 300002)"
proof -
  let ?c = "\<lparr>ban_threshold = 100, ban_duration = 300000\<rparr>"
  obtain book where book: "make_score_book ?c = Ok book" by (simp add: make_score_book_def)
  have t: "ban_time (unat (ban_threshold ?c)) [(60, 0), (25, 1), (25, 2), (25, 3)] = Some 2" by simp
  have "snd (banned (penalize_all book 0 [(60, 0), (25, 1), (25, 2), (25, 3)]) 0 now) \<longleftrightarrow> now < 300002" for now
    using peer_ban_exact [OF book, of "[(60, 0), (25, 1), (25, 2), (25, 3)]" 0 now] unfolding t by simp
  with book show ?thesis by blast
qed

end
