(* ===== verification/Rpc_Backoff.thy ===== *)
theory Rpc_Backoff
  imports Prelude
begin

text \<open>
  \<open>src/include/zano_p2pool/rpc_backoff.hpp\<close>: the delay between attempts to reach the daemon. Delays
  are counts of milliseconds; the doubling is guarded by half the maximum and cannot overflow.
\<close>

record rpc_retry_backoff =
  backoff_initial :: int
  backoff_maximum :: int
  backoff_next :: int

definition make_rpc_retry_backoff :: "int \<Rightarrow> int \<Rightarrow> rpc_retry_backoff result" where
  "make_rpc_retry_backoff initial maximum =
    (if initial \<le> 0 then Throw (Invalid_argument ''RPC reconnect initial delay must be positive'')
     else if maximum < initial
     then Throw (Invalid_argument ''RPC reconnect maximum delay must not be less than initial delay'')
     else Ok \<lparr>backoff_initial = initial, backoff_maximum = maximum, backoff_next = initial\<rparr>)"

definition record_failure :: "rpc_retry_backoff \<Rightarrow> rpc_retry_backoff \<times> int" where
  "record_failure b =
    (let delay = backoff_next b
     in if backoff_next b < backoff_maximum b
        then (b\<lparr>backoff_next :=
               (if backoff_next b > backoff_maximum b div 2 then backoff_maximum b
                else min (backoff_next b * 2) (backoff_maximum b))\<rparr>, delay)
        else (b, delay))"

definition record_success :: "rpc_retry_backoff \<Rightarrow> rpc_retry_backoff" where
  "record_success b = b\<lparr>backoff_next := backoff_initial b\<rparr>"

definition next_delay :: "rpc_retry_backoff \<Rightarrow> int" where
  "next_delay b = backoff_next b"

text \<open>The delays of a sequence of outcomes; \<open>True\<close> is a success, which gives no delay.\<close>

fun retry_delays :: "rpc_retry_backoff \<Rightarrow> bool list \<Rightarrow> int list" where
  "retry_delays b [] = []"
| "retry_delays b (success # rest) =
    (if success then retry_delays (record_success b) rest
     else case record_failure b of (b', delay) \<Rightarrow> delay # retry_delays b' rest)"

text \<open>The reference: failure number \<open>n\<close> since the last success waits \<open>initial * 2 ^ n\<close>, cut at the maximum.\<close>

fun exponential_delays :: "int \<Rightarrow> int \<Rightarrow> nat \<Rightarrow> bool list \<Rightarrow> int list" where
  "exponential_delays initial maximum n [] = []"
| "exponential_delays initial maximum n (success # rest) =
    (if success then exponential_delays initial maximum 0 rest
     else min maximum (initial * 2 ^ n) # exponential_delays initial maximum (Suc n) rest)"

lemma record_failure_next:
  assumes "backoff_next b = min m (initial * 2 ^ n)" "backoff_maximum b = m" "0 < initial" "initial \<le> m"
  shows "record_failure b = (b\<lparr>backoff_next := min m (initial * 2 ^ Suc n)\<rparr>, min m (initial * 2 ^ n))"
proof -
  have pos: "0 < initial * 2 ^ n" using assms(3) by simp
  show ?thesis
  proof (cases "m \<le> initial * 2 ^ n")
    case True
    then have "backoff_next b = m" "min m (initial * 2 ^ Suc n) = m" using assms(1) pos by simp_all
    moreover have "b\<lparr>backoff_next := backoff_next b\<rparr> = b" by simp
    ultimately show ?thesis using assms(1,2) True by (simp add: record_failure_def)
  next
    case False
    then show ?thesis using assms(1,2) by (auto simp: record_failure_def min_def)
  qed
qed

lemma retry_delays_from:
  assumes "backoff_next b = min m (initial * 2 ^ n)" "backoff_maximum b = m" "backoff_initial b = initial"
    "0 < initial" "initial \<le> m"
  shows "retry_delays b outcomes = exponential_delays initial m n outcomes"
  using assms(1-3)
proof (induction outcomes arbitrary: b n)
  case (Cons success rest)
  have "retry_delays (record_success b) rest = exponential_delays initial m 0 rest"
    using Cons.prems assms(4,5) by (intro Cons.IH) (simp_all add: record_success_def)
  moreover have "retry_delays (b\<lparr>backoff_next := min m (initial * 2 ^ Suc n)\<rparr>) rest =
      exponential_delays initial m (Suc n) rest"
    using Cons.prems by (intro Cons.IH) simp_all
  ultimately show ?case
    using record_failure_next [OF Cons.prems(1,2) assms(4,5)] by simp
qed simp

text \<open>Retries back off exponentially. For every sequence of failures and successes of daemon calls
  the delays are exactly those of the closed form: the first failure after a success waits the initial
  delay, each further one twice as long, never more than the maximum.\<close>

theorem retry_delays_exponential:
  assumes "make_rpc_retry_backoff initial maximum = Ok b"
  shows "retry_delays b outcomes = exponential_delays initial maximum 0 outcomes"
  using assms by (intro retry_delays_from) (auto simp: make_rpc_retry_backoff_def split: if_splits)

theorem retry_delays_exponential_witness:
  "\<exists>b. make_rpc_retry_backoff 1000 5000 = Ok b \<and>
    retry_delays b [False, False, False, False, True, False] = [1000, 2000, 4000, 5000, 1000]"
proof -
  obtain b where b: "make_rpc_retry_backoff 1000 5000 = Ok b" by (simp add: make_rpc_retry_backoff_def)
  from retry_delays_exponential [OF b, of "[False, False, False, False, True, False]"] b show ?thesis by simp
qed

end
