(* ===== verification/Mining_Header.thy ===== *)
theory Mining_Header
  imports Crypto_Hash Byte_Codec Pow_Target
begin

text \<open>
  \<open>src/src/mining_header.cpp\<close>: the mining header of a block template. The parser walks the block
  header, the miner transaction and its proofs with a cursor, computes the Merkle root of the
  transactions and hashes the header with a zero nonce. The cursor is a position in the bytes that
  every reader takes and returns.
\<close>

section \<open>Cursor\<close>

definition cursor_require :: "u8 list \<Rightarrow> nat \<Rightarrow> nat \<Rightarrow> unit result" where
  "cursor_require data pos n =
    (if pos > length data \<or> n > length data - pos
     then Throw (Runtime_error ''truncated Zano serialization'') else Ok ())"

definition cursor_read_u8 :: "u8 list \<Rightarrow> nat \<Rightarrow> (u8 \<times> nat) result" where
  "cursor_read_u8 data pos = bindE (cursor_require data pos 1) (\<lambda>_. Ok (data ! pos, pos + 1))"

text \<open>The loop of \<open>read_varint\<close>; the first argument is the number of iterations left.\<close>

fun cursor_varint_loop :: "nat \<Rightarrow> u8 list \<Rightarrow> nat \<Rightarrow> nat \<Rightarrow> u64 \<Rightarrow> (u64 \<times> nat) result" where
  "cursor_varint_loop 0 data pos shift v = Throw (Runtime_error ''varint is too long'')"
| "cursor_varint_loop (Suc n) data pos shift v =
    bindE (cursor_read_u8 data pos) (\<lambda>(byte, pos').
      if shift = 63 \<and> byte AND 0x7e \<noteq> 0 then Throw (Runtime_error ''varint overflows uint64'')
      else
        let v' = v OR push_bit shift (ucast (byte AND 0x7f))
        in if byte AND 0x80 = 0 then Ok (v', pos') else cursor_varint_loop n data pos' (shift + 7) v')"

definition cursor_read_varint :: "u8 list \<Rightarrow> nat \<Rightarrow> (u64 \<times> nat) result" where
  "cursor_read_varint data pos = cursor_varint_loop 10 data pos 0 0"

definition cursor_skip :: "u8 list \<Rightarrow> nat \<Rightarrow> nat \<Rightarrow> nat result" where
  "cursor_skip data pos n = bindE (cursor_require data pos n) (\<lambda>_. Ok (pos + n))"

text \<open>\<open>size_t\<close> has 64 bits, so the check of the length against its maximum never fires.\<close>

definition cursor_skip_blob :: "u8 list \<Rightarrow> nat \<Rightarrow> nat result" where
  "cursor_skip_blob data pos =
    bindE (cursor_read_varint data pos) (\<lambda>(size, pos). cursor_skip data pos (unat size))"

section \<open>Coinbase fields\<close>

definition skip_current_coinbase_extra :: "u8 list \<Rightarrow> nat \<Rightarrow> u8 \<Rightarrow> nat result" where
  "skip_current_coinbase_extra data pos tag =
    (if tag = 11 \<or> tag = 19 \<or> tag = 21 then cursor_skip_blob data pos
     else if tag = 14 \<or> tag = 15 \<or> tag = 16 \<or> tag = 78
     then bindE (cursor_read_varint data pos) (\<lambda>(v, pos). Ok pos)
     else if tag = 18
     then bindE (cursor_read_varint data pos) (\<lambda>(v, pos).
          bindE (cursor_skip data pos 32) (\<lambda>pos.
          bindE (cursor_read_varint data pos) (\<lambda>(v, pos). Ok pos)))
     else if tag = 22 then cursor_skip data pos 32
     else Throw (Runtime_error (''unsupported current coinbase extra tag: '' @ decimal_of_nat (unat tag))))"

definition skip_current_coinbase_output :: "u8 list \<Rightarrow> nat \<Rightarrow> u8 \<Rightarrow> nat result" where
  "skip_current_coinbase_output data pos tag =
    (if tag \<noteq> 63
     then Throw (Runtime_error (''unsupported current coinbase output tag: '' @ decimal_of_nat (unat tag)))
     else bindE (cursor_read_u8 data pos) (\<lambda>(version, pos).
       if version \<noteq> 0 then Throw (Runtime_error ''unsupported tx_out_zarcanum version'')
       else bindE (cursor_skip data pos (32 * 4)) (\<lambda>pos.
            bindE (cursor_skip data pos (8 + 8)) (\<lambda>pos. cursor_skip data pos 1))))"

section \<open>Varints\<close>

function encoded_varint_size :: "u64 \<Rightarrow> nat" where
  "encoded_varint_size v = (if v \<ge> 0x80 then 1 + encoded_varint_size (drop_bit 7 v) else 1)"
  by pat_completeness auto

lemma drop_bit_7_less: "v \<noteq> 0 \<Longrightarrow> unat (drop_bit 7 (v :: u64)) < unat v"
  unfolding unat_drop_bit_eq by (simp add: drop_bit_eq_div unat_gt_0)

termination encoded_varint_size
  by (relation "measure unat") (auto intro!: drop_bit_7_less)

declare encoded_varint_size.simps [simp del]

function append_varint :: "u8 list \<Rightarrow> u64 \<Rightarrow> u8 list" where
  "append_varint out v =
    (let byte = ucast (v AND 0x7f) :: u8;
         v' = drop_bit 7 v
     in if v' \<noteq> 0 then append_varint (out @ [byte OR 0x80]) v' else out @ [byte])"
  by pat_completeness auto
termination
  by (relation "measure (\<lambda>(out, v). unat v)") (auto intro!: drop_bit_7_less)

declare append_varint.simps [simp del]

definition hash_pair :: "hash256 \<Rightarrow> hash256 \<Rightarrow> hash256" where
  "hash_pair left right = cn_fast_hash (bytes_of left @ bytes_of right)"

section \<open>Parsed parts\<close>

record parsed_block_header =
  header_serialized_size :: nat
  header_serialized :: "u8 list"

record parsed_miner_tx_prefix =
  miner_tx_version :: u64
  hardfork_id :: u8
  vin_count :: nat
  extra_count :: nat
  vout_count :: nat
  prefix_serialized_size :: nat
  prefix_serialized :: "u8 list"
  prefix_hash :: hash256

record parsed_tx_hash_trailer =
  trailer_serialized_offset :: nat
  trailer_serialized_size :: nat
  trailer_hashes :: "hash256 list"

record mining_header_work =
  block_header :: parsed_block_header
  miner_tx_prefix :: parsed_miner_tx_prefix
  tx_hashes :: parsed_tx_hash_trailer
  tx_tree_root :: hash256
  hashing_blob :: "u8 list"
  header_hash :: hash256

definition parse_pow_block_header :: "u8 list \<Rightarrow> parsed_block_header result" where
  "parse_pow_block_header blob =
    bindE (cursor_read_u8 blob 0) (\<lambda>(major, pos).
    bindE (cursor_skip blob pos 8) (\<lambda>pos.
    bindE (cursor_skip blob pos 32) (\<lambda>pos.
    bindE (cursor_read_varint blob pos) (\<lambda>(minor, pos).
    bindE (cursor_read_varint blob pos) (\<lambda>(time, pos).
    bindE (cursor_read_u8 blob pos) (\<lambda>(flags, pos).
      if length (take pos blob) < 9
      then Throw (Runtime_error ''serialized block header is unexpectedly short'')
      else Ok \<lparr>header_serialized_size = pos,
             header_serialized = fold (\<lambda>i bytes. bytes[i := 0]) [1..<9] (take pos blob)\<rparr>))))))"

text \<open>A counted loop over serialized items.\<close>

fun cursor_repeat :: "nat \<Rightarrow> (nat \<Rightarrow> nat result) \<Rightarrow> nat \<Rightarrow> nat result" where
  "cursor_repeat 0 item pos = Ok pos"
| "cursor_repeat (Suc n) item pos = bindE (item pos) (cursor_repeat n item)"

definition skip_current_miner_input :: "u8 list \<Rightarrow> nat \<Rightarrow> nat result" where
  "skip_current_miner_input data pos =
    bindE (cursor_read_u8 data pos) (\<lambda>(tag, pos).
      if tag \<noteq> 0
      then Throw (Runtime_error (''unsupported current miner input tag: '' @ decimal_of_nat (unat tag)))
      else bindE (cursor_read_varint data pos) (\<lambda>(height, pos). Ok pos))"

definition skip_tagged :: "(u8 list \<Rightarrow> nat \<Rightarrow> u8 \<Rightarrow> nat result) \<Rightarrow> u8 list \<Rightarrow> nat \<Rightarrow> nat result" where
  "skip_tagged skip_field data pos = bindE (cursor_read_u8 data pos) (\<lambda>(tag, pos). skip_field data pos tag)"

definition parse_hf6_miner_tx_prefix :: "u8 list \<Rightarrow> parsed_miner_tx_prefix result" where
  "parse_hf6_miner_tx_prefix data =
    bindE (cursor_read_varint data 0) (\<lambda>(version, pos).
      if version \<noteq> 4
      then Throw (Runtime_error
             (''unsupported current miner transaction version: '' @ decimal_of_nat (unat version)))
      else
        bindE (cursor_read_varint data pos) (\<lambda>(vins, pos).
        bindE (cursor_repeat (unat vins) (skip_current_miner_input data) pos) (\<lambda>pos.
        bindE (cursor_read_varint data pos) (\<lambda>(extras, pos).
        bindE (cursor_repeat (unat extras) (skip_tagged skip_current_coinbase_extra data) pos) (\<lambda>pos.
        bindE (cursor_read_varint data pos) (\<lambda>(vouts, pos).
        bindE (cursor_repeat (unat vouts) (skip_tagged skip_current_coinbase_output data) pos) (\<lambda>pos.
        bindE (cursor_read_u8 data pos) (\<lambda>(hardfork, pos).
          Ok \<lparr>miner_tx_version = version, hardfork_id = hardfork, vin_count = unat vins,
            extra_count = unat extras, vout_count = unat vouts, prefix_serialized_size = pos,
            prefix_serialized = take pos data, prefix_hash = cn_fast_hash (take pos data)\<rparr>))))))))"

definition read_count :: "u8 list \<Rightarrow> nat \<Rightarrow> (u64 \<times> nat) result" where
  "read_count data start =
    bindE (cursor_read_varint data start) (\<lambda>(total_count, pos).
      if pos - start \<noteq> encoded_varint_size total_count
      then Throw (Runtime_error ''non-canonical HF6 suffix count'') else Ok (total_count, pos))"

definition skip_keys :: "u8 list \<Rightarrow> u64 \<Rightarrow> nat \<Rightarrow> (u64 \<times> nat) result" where
  "skip_keys data maximum pos =
    bindE (read_count data pos) (\<lambda>(total_count, pos).
      if total_count > maximum then Throw (Runtime_error ''HF6 proof vector exceeds bound'')
      else bindE (cursor_skip data pos (unat total_count * 32)) (\<lambda>pos. Ok (total_count, pos)))"

text \<open>The loop that computes the rounds of the range proof. The capacity starts at one and doubles;
  the test that it is positive only makes the recursion well-founded.\<close>

function range_rounds :: "nat \<Rightarrow> nat \<Rightarrow> nat \<Rightarrow> nat" where
  "range_rounds capacity outputs rounds =
    (if 0 < capacity \<and> capacity < outputs then range_rounds (capacity * 2) outputs (rounds + 1) else rounds)"
  by pat_completeness auto
termination
  by (relation "measure (\<lambda>(capacity, outputs, rounds). outputs - capacity)") auto

declare range_rounds.simps [simp del]

definition check_proof_shape :: "u8 list \<Rightarrow> nat \<Rightarrow> nat result" where
  "check_proof_shape data pos =
    (let bad = Throw (Runtime_error ''unexpected current HF6 coinbase proof shape'') in
     bindE (read_count data pos) (\<lambda>(a, pos). if a \<noteq> 0 then bad
     else bindE (read_count data pos) (\<lambda>(b, pos). if b \<noteq> 0 then bad
     else bindE (read_count data pos) (\<lambda>(n, pos). if n \<noteq> 2 then bad
     else bindE (cursor_read_u8 data pos) (\<lambda>(tag, pos). if tag \<noteq> 47 then bad else Ok pos)))))"

definition skip_range_proof :: "u8 list \<Rightarrow> nat \<Rightarrow> nat result" where
  "skip_range_proof data pos =
    bindE (skip_keys data 11 pos) (\<lambda>(left, pos).
    bindE (skip_keys data 11 pos) (\<lambda>(right, pos).
    bindE (cursor_skip data pos (6 * 32)) (\<lambda>pos.
    bindE (skip_keys data 32 pos) (\<lambda>(outputs, pos).
    bindE (skip_keys data 32 pos) (\<lambda>(y0s, pos).
    bindE (skip_keys data 32 pos) (\<lambda>(y1s, pos).
    bindE (cursor_skip data pos 32) (\<lambda>pos.
      let rounds = range_rounds 1 (unat outputs) 6 in
      if outputs < 2 \<or> y0s \<noteq> outputs \<or> y1s \<noteq> outputs \<or> unat left \<noteq> rounds \<or> unat right \<noteq> rounds
      then Throw (Runtime_error ''inconsistent current HF6 range-proof counts'')
      else Ok pos)))))))"

definition parse_hf6_tx_hash_trailer :: "u8 list \<Rightarrow> nat \<Rightarrow> parsed_tx_hash_trailer result" where
  "parse_hf6_tx_hash_trailer blob offset =
    (if offset \<ge> length blob then Throw (Runtime_error ''miner suffix offset is outside block blob'')
     else
       bindE (cursor_skip blob 0 offset) (\<lambda>pos.
       bindE (check_proof_shape blob pos) (\<lambda>pos.
       bindE (skip_range_proof blob pos) (\<lambda>pos.
       bindE (cursor_read_u8 blob pos) (\<lambda>(tag, pos).
         if tag \<noteq> 48 then Throw (Runtime_error ''missing current HF6 balance proof'')
         else
           bindE (cursor_skip blob pos 96) (\<lambda>serialized_offset.
           bindE (read_count blob serialized_offset) (\<lambda>(total_count, pos).
             let left_over = length blob - pos in
             if left_over mod 32 \<noteq> 0 \<or> unat total_count \<noteq> left_over div 32
             then Throw (Runtime_error ''invalid current HF6 transaction-hash trailer length'')
             else Ok \<lparr>trailer_serialized_offset = serialized_offset,
                    trailer_serialized_size = length blob - serialized_offset,
                    trailer_hashes = map (\<lambda>i. array_of (slice (pos + 32 * i) 32 blob)) [0..<unat total_count]\<rparr>)))))))"

section \<open>Merkle root and header hash\<close>

text \<open>The bit trick that leaves the highest set bit of the count less one.\<close>

definition tree_count :: "u64 \<Rightarrow> u64" where
  "tree_count total_count =
    (let cnt = fold (\<lambda>shift cnt. cnt OR drop_bit shift cnt) [1, 2, 4, 8, 16, 32] (total_count - 1)
     in cnt AND NOT (drop_bit 1 cnt))"

text \<open>One level in place: element \<open>j\<close> becomes the hash of elements \<open>2 j\<close> and \<open>2 j + 1\<close>.\<close>

definition tree_level :: "nat \<Rightarrow> hash256 list \<Rightarrow> hash256 list" where
  "tree_level cnt hashes =
    fold (\<lambda>j hs. hs[j := hash_pair (hs ! (2 * j)) (hs ! (2 * j + 1))]) [0..<cnt] hashes"

function tree_loop :: "nat \<Rightarrow> hash256 list \<Rightarrow> hash256 list" where
  "tree_loop cnt hashes =
    (if cnt > 2 then tree_loop (cnt div 2) (tree_level (cnt div 2) hashes) else hashes)"
  by pat_completeness auto
termination
  by (relation "measure fst") auto

declare tree_loop.simps [simp del]

definition transaction_tree_hash :: "hash256 \<Rightarrow> hash256 list \<Rightarrow> hash256" where
  "transaction_tree_hash miner_tx_hash regular =
    (let hashes = miner_tx_hash # regular;
         total_count = length hashes
     in if total_count = 1 then hashes ! 0
        else if total_count = 2 then hash_pair (hashes ! 0) (hashes ! 1)
        else
          let cnt = unat (tree_count (word_of_nat total_count));
              direct = 2 * cnt - total_count;
              intermediate = fold
                (\<lambda>dest hs. hs[dest := hash_pair (hashes ! (direct + 2 * (dest - direct)))
                                 (hashes ! (direct + 2 * (dest - direct) + 1))])
                [direct..<cnt] (take direct hashes @ replicate (cnt - direct) 0);
              result = tree_loop cnt intermediate
          in hash_pair (result ! 0) (result ! 1))"

definition make_hashing_blob :: "u8 list \<Rightarrow> hash256 \<Rightarrow> nat \<Rightarrow> u8 list result" where
  "make_hashing_blob header root tx_count =
    (if tx_count = 0 \<or> tx_count > 2 ^ 64 - 1 then Throw (Runtime_error ''invalid total transaction count'')
     else Ok (append_varint (header @ bytes_of root) (word_of_nat tx_count)))"

definition derive_mining_header_work :: "u8 list \<Rightarrow> mining_header_work result" where
  "derive_mining_header_work blob =
    bindE (parse_pow_block_header blob) (\<lambda>header.
    bindE (parse_hf6_miner_tx_prefix (drop (header_serialized_size header) blob)) (\<lambda>prefix.
    bindE (parse_hf6_tx_hash_trailer blob (header_serialized_size header + prefix_serialized_size prefix))
      (\<lambda>trailer.
        let root = transaction_tree_hash (prefix_hash prefix) (trailer_hashes trailer) in
        bindE (make_hashing_blob (header_serialized header) root (length (trailer_hashes trailer) + 1))
          (\<lambda>hashed. Ok \<lparr>block_header = header, miner_tx_prefix = prefix, tx_hashes = trailer,
             tx_tree_root = root, hashing_blob = hashed, header_hash = cn_fast_hash hashed\<rparr>))))"

definition make_single_tx_hashing_blob :: "u8 list \<Rightarrow> hash256 \<Rightarrow> u8 list result" where
  "make_single_tx_hashing_blob zero_nonce_block_header miner_tx_hash =
    make_hashing_blob zero_nonce_block_header miner_tx_hash 1"

section \<open>The Merkle tree\<close>

text \<open>The reference: the last leaves are paired so that a power of two of nodes remains, and these
  are the leaves of a perfect binary tree.\<close>

fun pair_up :: "hash256 list \<Rightarrow> hash256 list" where
  "pair_up (l # r # rest) = hash_pair l r # pair_up rest"
| "pair_up rest = []"

fun merkle :: "nat \<Rightarrow> hash256 list \<Rightarrow> hash256" where
  "merkle 0 hs = hd hs"
| "merkle (Suc k) hs = hash_pair (merkle k (take (2 ^ k) hs)) (merkle k (drop (2 ^ k) hs))"

lemma length_pair_up [simp]: "length (pair_up hs) = length hs div 2"
  by (induction hs rule: pair_up.induct) simp_all

lemma nth_pair_up: "i < length hs div 2 \<Longrightarrow> pair_up hs ! i = hash_pair (hs ! (2 * i)) (hs ! (2 * i + 1))"
proof (induction hs arbitrary: i rule: pair_up.induct)
  case (1 l r rest)
  then show ?case by (cases i) simp_all
qed simp_all

lemma pair_up_append: "even (length xs) \<Longrightarrow> pair_up (xs @ ys) = pair_up xs @ pair_up ys"
  by (induction xs rule: pair_up.induct) simp_all

lemma merkle_pair_up: "length hs = 2 ^ Suc k \<Longrightarrow> merkle k (pair_up hs) = merkle (Suc k) hs"
proof (induction k arbitrary: hs)
  case 0
  then obtain a b where "hs = [a, b]" by (auto simp: length_Suc_conv numeral_2_eq_2)
  then show ?case by simp
next
  case (Suc k)
  let ?xs = "take (2 ^ Suc k) hs" and ?ys = "drop (2 ^ Suc k) hs"
  have len: "length ?xs = 2 ^ Suc k" "length ?ys = 2 ^ Suc k" using Suc.prems by simp_all
  have "pair_up hs = pair_up ?xs @ pair_up ?ys"
    using pair_up_append [of ?xs ?ys] len by simp
  then have "merkle (Suc k) (pair_up hs) = hash_pair (merkle k (pair_up ?xs)) (merkle k (pair_up ?ys))"
    using len by simp
  also have "\<dots> = hash_pair (merkle (Suc k) ?xs) (merkle (Suc k) ?ys)"
    unfolding Suc.IH [OF len(1)] Suc.IH [OF len(2)] ..
  also have "\<dots> = merkle (Suc (Suc k)) hs" unfolding merkle.simps(2) [of "Suc k"] ..
  finally show ?case .
qed

text \<open>A loop that fills or overwrites a list from the left.\<close>

lemma fold_update_nth:
  assumes "\<And>j hs. lo \<le> j \<Longrightarrow> j < hi \<Longrightarrow> length hs = length hs0 \<Longrightarrow> drop j hs = drop j hs0 \<Longrightarrow>
      (j = lo \<or> take lo hs = take lo hs0) \<Longrightarrow> val j hs = g j"
    and "hi \<le> length hs0" "lo \<le> hi"
  shows "fold (\<lambda>j hs. hs[j := val j hs]) [lo..<hi] hs0 = take lo hs0 @ map g [lo..<hi] @ drop hi hs0"
  using assms
proof (induction hi)
  case (Suc hi)
  show ?case
  proof (cases "lo \<le> hi")
    case True
    let ?hs = "take lo hs0 @ map g [lo..<hi] @ drop hi hs0"
    have IH: "fold (\<lambda>j hs. hs[j := val j hs]) [lo..<hi] hs0 = ?hs"
      using True Suc.prems by (intro Suc.IH) auto
    have len: "length ?hs = length hs0" "drop hi ?hs = drop hi hs0" "take lo ?hs = take lo hs0"
      using True Suc.prems(2) by simp_all
    have "val hi ?hs = g hi" using True len by (intro Suc.prems(1)) simp_all
    moreover have "?hs[hi := x] = take lo hs0 @ map g [lo..<hi] @ x # drop (Suc hi) hs0" for x
      using True Suc.prems(2) by (simp add: list_update_append drop_update_cancel Cons_nth_drop_Suc [symmetric])
    ultimately show ?thesis using True by (simp add: IH)
  next
    case False
    with Suc.prems(3) show ?thesis by (simp add: le_Suc_eq)
  qed
qed simp

lemma tree_level_pairs:
  assumes "2 * cnt \<le> length hs"
  shows "tree_level cnt hs = pair_up (take (2 * cnt) hs) @ drop cnt hs"
proof -
  let ?g = "\<lambda>j. hash_pair (hs ! (2 * j)) (hs ! (2 * j + 1))"
  have val: "hash_pair (xs ! (2 * j)) (xs ! (2 * j + 1)) = ?g j"
    if "j < cnt" "length xs = length hs" "drop j xs = drop j hs" for j xs
  proof -
    have "xs ! i = hs ! i" if "j \<le> i" "i < length hs" for i
      using nth_drop [of j xs "i - j"] nth_drop [of j hs "i - j"] \<open>length xs = length hs\<close>
        \<open>drop j xs = drop j hs\<close> that by simp
    then show ?thesis using that(1) assms by simp
  qed
  have "tree_level cnt hs = take 0 hs @ map ?g [0..<cnt] @ drop cnt hs"
    unfolding tree_level_def by (rule fold_update_nth) (use val assms in blast, use assms in simp_all)
  also have "map ?g [0..<cnt] = pair_up (take (2 * cnt) hs)"
    using assms by (intro nth_equalityI) (simp_all add: nth_pair_up)
  finally show ?thesis by simp
qed

lemma tree_loop_merkle:
  "2 ^ Suc k \<le> length hs \<Longrightarrow>
    hash_pair (tree_loop (2 ^ Suc k) hs ! 0) (tree_loop (2 ^ Suc k) hs ! 1) = merkle (Suc k) (take (2 ^ Suc k) hs)"
proof (induction k arbitrary: hs)
  case 0
  then obtain a b rest where "hs = a # b # rest" by (auto simp: numeral_2_eq_2 Suc_le_length_iff)
  then show ?case by (simp add: tree_loop.simps)
next
  case (Suc k)
  let ?hs = "tree_level (2 ^ Suc k) hs"
  have lev: "?hs = pair_up (take (2 ^ Suc (Suc k)) hs) @ drop (2 ^ Suc k) hs"
    using tree_level_pairs [of "2 ^ Suc k" hs] Suc.prems by simp
  have len: "length (pair_up (take (2 ^ Suc (Suc k)) hs)) = 2 ^ Suc k" using Suc.prems by simp
  have le: "2 ^ Suc k \<le> length ?hs" unfolding lev length_append len by simp
  have "(2::nat) < 2 ^ Suc (Suc k)" by (induction k) simp_all
  then have "tree_loop (2 ^ Suc (Suc k)) hs = tree_loop (2 ^ Suc k) ?hs"
    by (subst tree_loop.simps) simp
  then have "hash_pair (tree_loop (2 ^ Suc (Suc k)) hs ! 0) (tree_loop (2 ^ Suc (Suc k)) hs ! 1) =
      merkle (Suc k) (take (2 ^ Suc k) ?hs)"
    using Suc.IH [OF le] by (simp only:)
  also have "take (2 ^ Suc k) ?hs = pair_up (take (2 ^ Suc (Suc k)) hs)"
    unfolding lev using len by simp
  also have "merkle (Suc k) (pair_up (take (2 ^ Suc (Suc k)) hs)) = merkle (Suc (Suc k)) (take (2 ^ Suc (Suc k)) hs)"
    using Suc.prems by (intro merkle_pair_up) simp
  finally show ?case .
qed

section \<open>The highest bit\<close>

lemma smear_step:
  fixes a w :: "'a::len word"
  assumes "\<And>j. bit a j \<longleftrightarrow> (\<exists>i<t. bit w (j + i))"
  shows "bit (a OR drop_bit t a) j \<longleftrightarrow> (\<exists>i<t + t. bit w (j + i))"
proof -
  have "bit (a OR drop_bit t a) j \<longleftrightarrow> (\<exists>i<t. bit w (j + i)) \<or> (\<exists>i<t. bit w (j + (t + i)))"
    by (simp add: bit_or_iff bit_drop_bit_eq assms ac_simps)
  also have "\<dots> \<longleftrightarrow> (\<exists>i<t + t. bit w (j + i))"
  proof
    assume "(\<exists>i<t. bit w (j + i)) \<or> (\<exists>i<t. bit w (j + (t + i)))"
    then show "\<exists>i<t + t. bit w (j + i)" by (metis add_less_cancel_left trans_less_add1)
  next
    assume "\<exists>i<t + t. bit w (j + i)"
    then obtain i where "i < t + t" "bit w (j + i)" by blast
    then show "(\<exists>i<t. bit w (j + i)) \<or> (\<exists>i<t. bit w (j + (t + i)))"
    proof (cases "i < t")
      case False
      then have "i - t < t" "bit w (j + (t + (i - t)))" using \<open>i < t + t\<close> \<open>bit w (j + i)\<close> by simp_all
      then show ?thesis by blast
    qed blast
  qed
  finally show ?thesis .
qed

lemma smeared:
  fixes w :: u64
  shows "bit (fold (\<lambda>shift cnt. cnt OR drop_bit shift cnt) [1, 2, 4, 8, 16, 32] w) j \<longleftrightarrow> (\<exists>i<64. bit w (j + i))"
proof -
  define step :: "nat \<Rightarrow> u64 \<Rightarrow> u64" where "step t a = a OR drop_bit t a" for t a
  have s: "bit (step t a) j \<longleftrightarrow> (\<exists>i<u. bit w (j + i))"
    if "\<And>j. bit a j \<longleftrightarrow> (\<exists>i<t. bit w (j + i))" "u = t + t" for a t u j
    unfolding step_def that(2) by (rule smear_step) (rule that(1))
  have 1: "bit w j \<longleftrightarrow> (\<exists>i<1. bit w (j + i))" for j by simp
  note s2 = s [of w 1 2, OF 1] note s4 = s [of _ 2 4, OF s2]
  note s8 = s [of _ 4 8, OF s4] note s16 = s [of _ 8 16, OF s8]
  note s32 = s [of _ 16 32, OF s16] note s64 = s [of _ 32 64, OF s32]
  have "fold (\<lambda>shift cnt. cnt OR drop_bit shift cnt) [1, 2, 4, 8, 16, 32] w =
      step 32 (step 16 (step 8 (step 4 (step 2 (step 1 w)))))"
    by (simp only: step_def fold_simps)
  then show ?thesis using s64 by simp
qed

lemma tree_count_power:
  assumes "2 ^ k < n" "n \<le> 2 ^ Suc k" "n < 2 ^ 64"
  shows "tree_count (word_of_nat n) = 2 ^ k" "unat (tree_count (word_of_nat n)) = 2 ^ k"
proof -
  define w :: u64 where "w = word_of_nat n - 1"
  have k: "k < 64"
    using less_trans [OF assms(1,3)] by (rule power_less_imp_less_exp [rotated]) simp
  have w: "w = word_of_nat (n - 1)" using assms(1) by (simp add: w_def of_nat_diff)
  have uw: "unat w = n - 1" using assms(3) unfolding w by (simp add: unat_of_nat)
  have bitw: "bit w j \<longleftrightarrow> odd ((n - 1) div 2 ^ j)" for j
    using bit_unsigned_iff [where w = w and ?'a = nat, of j] by (simp add: uw bit_iff_odd)
  have top: "bit w k"
  proof -
    have "(n - 1) div 2 ^ k = 1" using assms(1,2) by (intro div_nat_eqI) simp_all
    then show ?thesis by (simp add: bitw)
  qed
  have above: "\<not> bit w j" if "k < j" for j
  proof -
    have "n - 1 < 2 ^ Suc k" using assms(1,2) by linarith
    also have "(2::nat) ^ Suc k \<le> 2 ^ j" using that by (intro power_increasing) simp_all
    finally show ?thesis by (simp add: bitw)
  qed
  define c where "c = fold (\<lambda>shift cnt. cnt OR drop_bit shift cnt) [1, 2, 4, 8, 16, 32] w"
  have c: "bit c j \<longleftrightarrow> j \<le> k" for j
    unfolding c_def smeared
  proof
    assume "\<exists>i<64. bit w (j + i)"
    then show "j \<le> k" using above by (metis le_add1 le_trans not_le)
  next
    assume "j \<le> k"
    then show "\<exists>i<64. bit w (j + i)" using top k by (intro exI [of _ "k - j"]) simp
  qed
  have "tree_count (word_of_nat n) = c AND NOT (drop_bit 1 c)"
    unfolding tree_count_def Let_def c_def w_def ..
  also have "\<dots> = 2 ^ k"
  proof (rule bit_word_eqI)
    fix j assume "j < LENGTH(64)"
    then show "bit (c AND NOT (drop_bit 1 c)) j \<longleftrightarrow> bit (2 ^ k :: u64) j"
      by (auto simp: bit_and_iff bit_not_iff bit_drop_bit_eq c bit_exp_iff k)
  qed
  finally show "tree_count (word_of_nat n) = 2 ^ k" .
  moreover have "unat (word_of_nat (2 ^ k) :: u64) = 2 ^ k"
    using power_strict_increasing [OF k, of "2 :: nat"] unfolding unat_of_nat by simp
  ultimately show "unat (tree_count (word_of_nat n)) = 2 ^ k" by simp
qed

lemma first_level:
  assumes "2 ^ k < length hs" "length hs \<le> 2 ^ Suc k" "direct = 2 * 2 ^ k - length hs"
  shows "fold (\<lambda>dest xs. xs[dest := hash_pair (hs ! (direct + 2 * (dest - direct)))
        (hs ! (direct + 2 * (dest - direct) + 1))]) [direct..<2 ^ k]
      (take direct hs @ replicate (2 ^ k - direct) 0) = take direct hs @ pair_up (drop direct hs)"
proof -
  let ?g = "\<lambda>dest. hash_pair (hs ! (direct + 2 * (dest - direct))) (hs ! (direct + 2 * (dest - direct) + 1))"
  have d: "direct \<le> 2 ^ k" "length (drop direct hs) = 2 * (2 ^ k - direct)" "direct \<le> length hs"
    using assms by simp_all
  have "fold (\<lambda>dest xs. xs[dest := ?g dest]) [direct..<2 ^ k] (take direct hs @ replicate (2 ^ k - direct) 0) =
      take direct (take direct hs @ replicate (2 ^ k - direct) 0) @ map ?g [direct..<2 ^ k] @
      drop (2 ^ k) (take direct hs @ replicate (2 ^ k - direct) 0)"
    by (rule fold_update_nth) (use d in simp_all)
  also have "\<dots> = take direct hs @ map ?g [direct..<2 ^ k]" using d by simp
  also have "map ?g [direct..<2 ^ k] = pair_up (drop direct hs)"
    using d by (intro nth_equalityI) (simp_all add: nth_pair_up)
  finally show ?thesis .
qed



section \<open>The nonce\<close>

text \<open>Two blobs that differ in the nonce bytes only.\<close>

definition same_but_nonce :: "u8 list \<Rightarrow> u8 list \<Rightarrow> bool" where
  "same_but_nonce a b \<longleftrightarrow> length a = length b \<and> take 1 a = take 1 b \<and> drop 9 a = drop 9 b"

lemma same_drop:
  assumes "same_but_nonce a b" "9 \<le> pos"
  shows "drop pos a = drop pos b" "pos < length a \<Longrightarrow> a ! pos = b ! pos" "length a = length b"
proof -
  have "drop (pos - 9) (drop 9 a) = drop (pos - 9) (drop 9 b)" using assms(1) by (simp add: same_but_nonce_def)
  then show *: "drop pos a = drop pos b" using assms(2) by simp
  show len: "length a = length b" using assms(1) by (simp add: same_but_nonce_def)
  show "a ! pos = b ! pos" if "pos < length a"
    using * that len by (metis drop_eq_nths hd_drop_conv_nth)
qed

lemma bindE_same:
  assumes "x = y" "\<And>v. y = Ok v \<Longrightarrow> f v = g v"
  shows "bindE x f = bindE y g"
  using assms by (cases y) simp_all

lemma bindE_same_pos:
  assumes "x = y" "\<And>v q. y = Ok (v, q) \<Longrightarrow> f (v, q) = g (v, q)"
  shows "bindE x f = bindE y g"
  using assms by (cases y) auto

text \<open>Readers that see the same bytes from position nine on.\<close>

named_theorems same_read and read_on

lemma u8_same [same_read]: "same_but_nonce a b \<Longrightarrow> 9 \<le> pos \<Longrightarrow> cursor_read_u8 a pos = cursor_read_u8 b pos"
  using same_drop [of a b pos] by (auto simp: cursor_read_u8_def cursor_require_def)

lemma u8_on [read_on]: "cursor_read_u8 a pos = Ok (v, q) \<Longrightarrow> q = pos + 1"
  by (auto simp: cursor_read_u8_def bindE_eq_Ok)

lemma skip_same [same_read]: "same_but_nonce a b \<Longrightarrow> cursor_skip a pos n = cursor_skip b pos n"
  by (simp add: cursor_skip_def cursor_require_def same_but_nonce_def)

lemma skip_on [read_on]: "cursor_skip a pos n = Ok q \<Longrightarrow> q = pos + n"
  by (auto simp: cursor_skip_def bindE_eq_Ok)

lemma varint_loop_same:
  "same_but_nonce a b \<Longrightarrow> 9 \<le> pos \<Longrightarrow> cursor_varint_loop n a pos shift v = cursor_varint_loop n b pos shift v"
proof (induction n arbitrary: pos shift v)
  case (Suc n)
  show ?case
    unfolding cursor_varint_loop.simps
    using Suc.prems by (intro bindE_same_pos u8_same) (auto simp: Let_def intro!: Suc.IH dest!: u8_on)
qed simp

lemma varint_loop_on: "cursor_varint_loop n a pos shift v = Ok (x, q) \<Longrightarrow> pos \<le> q"
  by (induction n arbitrary: pos shift v)
    (fastforce simp: bindE_eq_Ok Let_def dest: u8_on split: if_splits)+

lemma varint_same [same_read]: "same_but_nonce a b \<Longrightarrow> 9 \<le> pos \<Longrightarrow> cursor_read_varint a pos = cursor_read_varint b pos"
  unfolding cursor_read_varint_def by (rule varint_loop_same)

lemma varint_on [read_on]: "cursor_read_varint a pos = Ok (v, q) \<Longrightarrow> pos \<le> q"
  unfolding cursor_read_varint_def by (rule varint_loop_on)

lemma read_count_same [same_read]: "same_but_nonce a b \<Longrightarrow> 9 \<le> pos \<Longrightarrow> read_count a pos = read_count b pos"
  unfolding read_count_def by (simp add: varint_same)

lemma read_count_on [read_on]: "read_count a pos = Ok (v, q) \<Longrightarrow> pos \<le> q"
  by (auto simp: read_count_def bindE_eq_Ok dest!: varint_on split: if_splits)

lemma skip_keys_same [same_read]:
  assumes "same_but_nonce a b" "9 \<le> pos"
  shows "skip_keys a maximum pos = skip_keys b maximum pos"
  unfolding skip_keys_def
  by (intro bindE_same_pos read_count_same assms) (auto simp: skip_same [OF assms(1)])

lemma skip_keys_on [read_on]: "skip_keys a maximum pos = Ok (v, q) \<Longrightarrow> pos \<le> q"
  by (auto simp: skip_keys_def bindE_eq_Ok dest!: read_count_on skip_on split: if_splits)

lemma proof_shape_same [same_read]:
  assumes "same_but_nonce a b" "9 \<le> pos"
  shows "check_proof_shape a pos = check_proof_shape b pos"
  using assms unfolding check_proof_shape_def Let_def
  by (auto intro!: bindE_same_pos same_read dest!: read_on)

lemma proof_shape_on [read_on]: "check_proof_shape a pos = Ok q \<Longrightarrow> pos \<le> q"
  by (auto simp: check_proof_shape_def Let_def bindE_eq_Ok dest!: read_on split: if_splits)

lemma range_proof_same [same_read]:
  assumes "same_but_nonce a b" "9 \<le> pos"
  shows "skip_range_proof a pos = skip_range_proof b pos"
  using assms unfolding skip_range_proof_def
  by (auto intro!: bindE_same_pos bindE_same same_read dest!: read_on)

lemma range_proof_on [read_on]: "skip_range_proof a pos = Ok q \<Longrightarrow> pos \<le> q"
  by (auto simp: skip_range_proof_def Let_def bindE_eq_Ok dest!: read_on split: if_splits)

lemma slice_same: "same_but_nonce a b \<Longrightarrow> 9 \<le> pos \<Longrightarrow> slice pos n a = slice pos n b"
  by (simp add: slice_def same_drop(1))

lemma trailer_same:
  assumes "same_but_nonce a b" "9 \<le> offset"
  shows "parse_hf6_tx_hash_trailer a offset = parse_hf6_tx_hash_trailer b offset"
  using assms same_drop(3) [OF assms] slice_same [OF assms(1)] unfolding parse_hf6_tx_hash_trailer_def
  by (auto intro!: bindE_same_pos bindE_same same_read dest!: read_on simp: Let_def)

lemma zeroed_same:
  assumes "same_but_nonce a b"
  shows "fold (\<lambda>i bytes. bytes[i := 0]) [1..<9] (take pos a) = fold (\<lambda>i bytes. bytes[i := 0]) [1..<9] (take pos b)"
proof -
  have upt: "[1..<9] = [1, 2, 3, 4, 5, 6, 7, 8 :: nat]" by (simp add: upt_rec)
  have len: "length a = length b" using assms by (simp add: same_but_nonce_def)
  show ?thesis
    unfolding upt
  proof (rule nth_equalityI)
    fix j assume j: "j < length (fold (\<lambda>i bytes. bytes[i := 0]) [1, 2, 3, 4, 5, 6, 7, 8] (take pos a))"
    then have "a ! 0 = b ! 0" using assms len by (cases a; cases b) (simp_all add: same_but_nonce_def)
    moreover have "a ! j = b ! j" if "9 \<le> j" using same_drop(2) [OF assms that] j by simp
    moreover have "j = 0 \<or> j \<in> {1, 2, 3, 4, 5, 6, 7, 8} \<or> 9 \<le> j" by auto
    ultimately show "fold (\<lambda>i bytes. bytes[i := 0]) [1, 2, 3, 4, 5, 6, 7, 8] (take pos a) ! j =
        fold (\<lambda>i bytes. bytes[i := 0]) [1, 2, 3, 4, 5, 6, 7, 8] (take pos b) ! j"
      using j len by (auto simp: nth_list_update)
  qed (simp add: len)
qed

lemma header_same:
  assumes "same_but_nonce a b"
  shows "parse_pow_block_header a = parse_pow_block_header b"
    "parse_pow_block_header b = Ok h \<Longrightarrow> 9 \<le> header_serialized_size h"
proof -
  have len: "length a = length b" using assms by (simp add: same_but_nonce_def)
  have "cursor_read_u8 a 0 = cursor_read_u8 b 0"
    using assms len by (cases a; cases b) (simp_all add: cursor_read_u8_def cursor_require_def same_but_nonce_def)
  then have first: "bindE (cursor_read_u8 a 0) f = bindE (cursor_read_u8 b 0) f" for f :: "_ \<Rightarrow> parsed_block_header result"
    by simp
  show "parse_pow_block_header a = parse_pow_block_header b"
    unfolding parse_pow_block_header_def first
    using assms len zeroed_same [OF assms]
    by (auto intro!: bindE_same_pos [OF refl] dest!: u8_on)
      (auto intro!: bindE_same_pos bindE_same same_read dest!: read_on)
  show "9 \<le> header_serialized_size h" if "parse_pow_block_header b = Ok h"
    using that by (auto simp: parse_pow_block_header_def bindE_eq_Ok split: if_splits)
qed

text \<open>The mining header does not depend on the nonce. Blobs of the same length that agree outside
  the eight nonce bytes give the same result, errors included: the same transactions, root, hashed
  blob and header hash. So one job serves every nonce a miner tries.\<close>

theorem mining_header_nonce_free:
  assumes "length a = length b" "\<And>i. i < length a \<Longrightarrow> i = 0 \<or> 9 \<le> i \<Longrightarrow> a ! i = b ! i"
  shows "derive_mining_header_work a = derive_mining_header_work b"
proof -
  have "take 1 a = take 1 b" using assms by (intro nth_equalityI) auto
  moreover have "drop 9 a = drop 9 b" using assms by (intro nth_equalityI) auto
  ultimately have same: "same_but_nonce a b" using assms(1) by (simp add: same_but_nonce_def)
  note size = header_same(2) [OF same]
  show ?thesis
    unfolding derive_mining_header_work_def
    by (intro bindE_same header_same(1) [OF same])
      (auto simp: same_drop(1) [OF same size] trailer_same [OF same] trans_le_add1 [OF size])
qed

theorem mining_header_nonce_free_witness:
  "derive_mining_header_work (5 # replicate 8 0 @ replicate 200 1) =
   derive_mining_header_work (5 # [1, 2, 3, 4, 5, 6, 7, 8] @ replicate 200 1)"
  by (rule mining_header_nonce_free) (auto simp: nth_Cons' nth_append)

end
