(* ===== verification/Template_Refresh.thy ===== *)
theory Template_Refresh
  imports Mining_Header
begin

text \<open>
  \<open>src/src/template_refresh.cpp\<close> and \<open>src/src/pplns_block_template.cpp\<close>: what a new daemon template
  means for the node, and the replacement of the miner transaction in a template. The callbacks of the
  audit are its arguments: their answers, an exception or a value, and the calls are returned in order.
\<close>

section \<open>Data\<close>

record block_template =
  bt_block_reward :: u64
  bt_block_reward_without_fee :: u64
  blocktemplate_blob :: string
  bt_difficulty :: string
  bt_height :: u64
  miner_tx_tgc_json :: string
  bt_prev_hash :: string
  bt_seed :: string
  bt_status :: string
  bt_txs_fee :: u64

datatype canonical_reorg_kind = No_Reorg | SameHeightReplacement | AdvancedReplacement | Rollback

record canonical_reorg_audit_plan =
  audit_kind :: canonical_reorg_kind
  maximum_work_height :: u64
  canonical_parents :: "(u64 \<times> hash256) list"

datatype audit_call = Stop_publication | Ask_heights | Ask_parent u64

section \<open>Operations\<close>

definition classify_canonical_reorg :: "block_template \<Rightarrow> block_template \<Rightarrow> bool \<Rightarrow> canonical_reorg_kind" where
  "classify_canonical_reorg current next_block advanced =
    (if bt_height next_block < bt_height current then Rollback
     else if bt_height next_block = bt_height current \<and> bt_prev_hash next_block \<noteq> bt_prev_hash current
     then SameHeightReplacement
     else if bt_height next_block > bt_height current \<and> advanced then AdvancedReplacement
     else No_Reorg)"

fun audit_parents ::
  "u64 \<Rightarrow> (u64 \<Rightarrow> hash256 result) \<Rightarrow> u64 list \<Rightarrow> audit_call list \<Rightarrow> (u64 \<times> hash256) list \<Rightarrow>
    audit_call list \<times> (u64 \<times> hash256) list result"
where
  "audit_parents maximum parent [] calls found = (calls, Ok found)"
| "audit_parents maximum parent (height # heights) calls found =
    (if height = 0 \<or> height > maximum then audit_parents maximum parent heights calls found
     else case parent height of
       Inl e \<Rightarrow> (calls @ [Ask_parent height], Throw e)
     | Inr hash \<Rightarrow>
         audit_parents maximum parent heights (calls @ [Ask_parent height]) (found @ [(height, hash)]))"

definition prepare_canonical_reorg_audit ::
  "canonical_reorg_kind \<Rightarrow> u64 \<Rightarrow> unit result \<Rightarrow> u64 list result \<Rightarrow> (u64 \<Rightarrow> hash256 result) \<Rightarrow>
    audit_call list \<times> canonical_reorg_audit_plan result"
where
  "prepare_canonical_reorg_audit kind maximum stop heights parent =
    (let plan = (\<lambda>parents. \<lparr>audit_kind = kind, maximum_work_height = maximum, canonical_parents = parents\<rparr>)
     in if kind = No_Reorg then ([], Ok (plan []))
        else case stop of
          Inl e \<Rightarrow> ([Stop_publication], Throw e)
        | Inr _ \<Rightarrow>
            (case heights of
              Inl e \<Rightarrow> ([Stop_publication, Ask_heights], Throw e)
            | Inr hs \<Rightarrow>
                (case audit_parents maximum parent hs [Stop_publication, Ask_heights] [] of
                  (calls, Inl e) \<Rightarrow> (calls, Throw e)
                | (calls, Inr found) \<Rightarrow> (calls, Ok (plan found)))))"

definition should_refresh_stratum_template ::
  "block_template \<Rightarrow> mining_header_work \<Rightarrow> block_template \<Rightarrow> mining_header_work \<Rightarrow> bool"
where
  "should_refresh_stratum_template current_block current_work next_block next_work =
    (if bt_height current_block \<noteq> bt_height next_block \<or>
       bt_prev_hash current_block \<noteq> bt_prev_hash next_block \<or>
       bt_difficulty current_block \<noteq> bt_difficulty next_block \<or>
       bt_seed current_block \<noteq> bt_seed next_block \<or>
       bt_block_reward current_block \<noteq> bt_block_reward next_block \<or>
       bt_block_reward_without_fee current_block \<noteq> bt_block_reward_without_fee next_block \<or>
       bt_txs_fee current_block \<noteq> bt_txs_fee next_block
     then True
     else trailer_hashes (tx_hashes current_work) \<noteq> trailer_hashes (tx_hashes next_work))"

record pplns_block_template =
  pbt_block :: block_template
  pbt_mining_work :: mining_header_work

definition replace_hf6_miner_tx :: "block_template \<Rightarrow> string \<Rightarrow> pplns_block_template result" where
  "replace_hf6_miner_tx base miner_tx_blob_hex =
    (if blocktemplate_blob base = [] then Throw (Invalid_argument ''base block template blob is empty'')
     else if miner_tx_blob_hex = [] then Throw (Invalid_argument ''replacement miner transaction is empty'')
     else
       bindE (hex_to_bytes (blocktemplate_blob base)) (\<lambda>base_bytes.
       bindE (hex_to_bytes miner_tx_blob_hex) (\<lambda>replacement.
       bindE (derive_mining_header_work base_bytes) (\<lambda>base_work.
         let header_end = header_serialized_size (block_header base_work);
             trailer_begin = trailer_serialized_offset (tx_hashes base_work)
         in if header_end > trailer_begin \<or> trailer_begin > length base_bytes
            then Throw (Logic_error ''invalid parsed block-template boundaries'')
            else
              bindE (parse_hf6_miner_tx_prefix replacement) (\<lambda>_.
                let rebuilt = take header_end base_bytes @ replacement @ drop trailer_begin base_bytes in
                bindE (derive_mining_header_work rebuilt) (\<lambda>work.
                  if trailer_hashes (tx_hashes work) \<noteq> trailer_hashes (tx_hashes base_work)
                  then Throw (Logic_error ''replacement miner transaction changed regular transaction hashes'')
                  else if header_serialized (block_header work) \<noteq> header_serialized (block_header base_work)
                  then Throw (Logic_error ''replacement miner transaction changed serialized block header'')
                  else Ok \<lparr>pbt_block = base\<lparr>blocktemplate_blob := bytes_to_hex rebuilt\<rparr>,
                         pbt_mining_work = work\<rparr>))))))"

section \<open>Properties\<close>

lemma audit_parents_calls:
  "\<exists>more. fst (audit_parents maximum parent heights calls found) = calls @ more"
proof (induction heights arbitrary: calls found)
  case (Cons h hs)
  then show ?case by (cases "parent h") (auto, metis append.assoc)
qed simp

lemma audit_parents_Ok:
  "snd (audit_parents maximum parent heights calls found) = Ok out \<longleftrightarrow>
    (\<forall>h\<in>set heights. h \<noteq> 0 \<and> h \<le> maximum \<longrightarrow> (\<exists>x. parent h = Ok x)) \<and>
    out = found @ map (\<lambda>h. (h, projr (parent h))) (filter (\<lambda>h. h \<noteq> 0 \<and> h \<le> maximum) heights)"
proof (induction heights arbitrary: calls found)
  case (Cons h hs)
  then show ?case by (cases "parent h") (auto simp: not_less)
qed auto

text \<open>C30. The reorg audit fails closed. Without a reorg nothing is called. With one, publication is
  stopped before anything else is asked, whatever fails later, and a plan is returned exactly when
  every call succeeded; it then pairs each known work height from one to the maximum, in order, with
  the canonical parent the daemon answered, and nothing else.\<close>

theorem reorg_audit_fail_closed:
  "prepare_canonical_reorg_audit No_Reorg maximum stop heights parent =
     ([], Ok \<lparr>audit_kind = No_Reorg, maximum_work_height = maximum, canonical_parents = []\<rparr>) \<and>
   (kind \<noteq> No_Reorg \<longrightarrow>
     (\<exists>rest. fst (prepare_canonical_reorg_audit kind maximum stop heights parent) = Stop_publication # rest) \<and>
     (\<forall>plan. snd (prepare_canonical_reorg_audit kind maximum stop heights parent) = Ok plan \<longleftrightarrow>
       stop = Ok () \<and> (\<exists>hs. heights = Ok hs \<and>
         (\<forall>h\<in>set hs. h \<noteq> 0 \<and> h \<le> maximum \<longrightarrow> (\<exists>x. parent h = Ok x)) \<and>
         plan = \<lparr>audit_kind = kind, maximum_work_height = maximum,
           canonical_parents = map (\<lambda>h. (h, projr (parent h))) (filter (\<lambda>h. h \<noteq> 0 \<and> h \<le> maximum) hs)\<rparr>)))"
proof (intro conjI impI allI)
  show "prepare_canonical_reorg_audit No_Reorg maximum stop heights parent =
     ([], Ok \<lparr>audit_kind = No_Reorg, maximum_work_height = maximum, canonical_parents = []\<rparr>)"
    by (simp add: prepare_canonical_reorg_audit_def)
next
  assume "kind \<noteq> No_Reorg"
  then show "\<exists>rest. fst (prepare_canonical_reorg_audit kind maximum stop heights parent) = Stop_publication # rest"
    using audit_parents_calls [of maximum parent "projr heights" "[Stop_publication, Ask_heights]" "[]"]
    by (auto simp: prepare_canonical_reorg_audit_def split: sum.splits prod.splits)
next
  fix plan assume kind: "kind \<noteq> No_Reorg"
  show "snd (prepare_canonical_reorg_audit kind maximum stop heights parent) = Ok plan \<longleftrightarrow>
       stop = Ok () \<and> (\<exists>hs. heights = Ok hs \<and>
         (\<forall>h\<in>set hs. h \<noteq> 0 \<and> h \<le> maximum \<longrightarrow> (\<exists>x. parent h = Ok x)) \<and>
         plan = \<lparr>audit_kind = kind, maximum_work_height = maximum,
           canonical_parents = map (\<lambda>h. (h, projr (parent h))) (filter (\<lambda>h. h \<noteq> 0 \<and> h \<le> maximum) hs)\<rparr>)"
  proof (cases "stop = Ok () \<and> (\<exists>hs. heights = Ok hs)")
    case True
    then obtain hs where hs: "stop = Ok ()" "heights = Ok hs"
      by blast
    obtain calls r where r: "audit_parents maximum parent hs [Stop_publication, Ask_heights] [] = (calls, r)"
      by fastforce
    have "r = Ok out \<longleftrightarrow> (\<forall>h\<in>set hs. h \<noteq> 0 \<and> h \<le> maximum \<longrightarrow> (\<exists>x. parent h = Ok x)) \<and>
        out = map (\<lambda>h. (h, projr (parent h))) (filter (\<lambda>h. h \<noteq> 0 \<and> h \<le> maximum) hs)" for out
      using audit_parents_Ok [of maximum parent hs "[Stop_publication, Ask_heights]" "[]" out] by (simp add: r)
    then show ?thesis
      using kind hs by (cases r) (simp add: prepare_canonical_reorg_audit_def r, blast,
        simp add: prepare_canonical_reorg_audit_def r, metis)
  next
    case False
    then show ?thesis
      using kind by (cases stop; cases heights) (auto simp: prepare_canonical_reorg_audit_def)
  qed
qed

theorem reorg_audit_fail_closed_witness:
  "fst (prepare_canonical_reorg_audit Rollback 5 (Ok ()) (Ok [3]) (\<lambda>h. Throw Bad_alloc)) \<noteq> [] \<and>
   (\<forall>plan. snd (prepare_canonical_reorg_audit Rollback 5 (Ok ()) (Ok [3]) (\<lambda>h. Throw Bad_alloc)) \<noteq> Ok plan)"
  using reorg_audit_fail_closed [of 5 "Ok ()" "Ok [3]" "\<lambda>h. Throw Bad_alloc" Rollback] by auto

end
