(* ===== verification/Json_Value.thy ===== *)
theory Json_Value
  imports Prelude
begin

text \<open>
  What the sources use of the json-c library. The library itself is not part of the program: its
  tokener is a function argument \<open>tok\<close> of every definition that parses JSON text, which gives the
  root value when \<open>json_tokener_parse_ex\<close> succeeds with a root that is not null. The values it
  returns have the types that \<open>json_object_get_type\<close> tells apart.
\<close>

datatype json =
    Json_null
  | Json_boolean bool
  | Json_int int
  | Json_double
  | Json_string string
  | Json_array "json list"
  | Json_object "(string \<times> json) list"

type_synonym json_tokener = "string \<Rightarrow> json option"

text \<open>\<open>json_object_object_get_ex\<close> followed by the null check that the sources make.\<close>

definition json_field :: "(string \<times> json) list \<Rightarrow> string \<Rightarrow> json option" where
  "json_field fields name =
    (case map_of fields name of Some Json_null \<Rightarrow> None | found \<Rightarrow> found)"

text \<open>\<open>json_object_get_string\<close> returns a C string: a \<open>std::string\<close> made from it ends before the first
  zero character.\<close>

definition c_string :: "string \<Rightarrow> string" where
  "c_string s = takeWhile (\<lambda>c. of_char c \<noteq> (0::nat)) s"

text \<open>Texts travel as bytes.\<close>

definition bytes_of_string :: "string \<Rightarrow> u8 list" where
  "bytes_of_string s = map of_char s"

definition string_of_bytes :: "u8 list \<Rightarrow> string" where
  "string_of_bytes bs = map (\<lambda>b. char_of (unat b)) bs"

lemma length_string_bytes [simp]:
  "length (bytes_of_string s) = length s" "length (string_of_bytes bs) = length bs"
  by (simp_all add: bytes_of_string_def string_of_bytes_def)

lemma unat_of_char [simp]: "unat (of_char c :: u8) = of_char c"
proof -
  have "(of_char c :: u8) = word_of_nat (of_char c)"
    by (simp only: of_nat_of_char)
  then show ?thesis
    by (simp add: unat_of_nat of_char_mod_256)
qed

lemma string_of_bytes_of_string [simp]: "string_of_bytes (bytes_of_string s) = s"
  by (simp add: string_of_bytes_def bytes_of_string_def comp_def)

lemma bytes_of_string_of_bytes [simp]: "bytes_of_string (string_of_bytes bs) = bs"
proof -
  have "(of_char (char_of (unat b)) :: u8) = b" for b :: u8
    by (simp add: word_unat_eq_iff)
  then show ?thesis by (simp add: string_of_bytes_def bytes_of_string_def comp_def)
qed

end
