(* ===== verification/Mining_Context.thy ===== *)
theory Mining_Context
  imports Template_Refresh P2p_Protocol Json_Value
begin

text \<open>
  \<open>src/src/p2p_mining_context.cpp\<close>: the mining contexts that peers propose to each other, their wire
  format, the anchor that a node takes from its own daemon, and the checks that bind a proposal to
  the anchor and to the bytes of its block template. The JSON library is the argument \<open>tok\<close>.
\<close>

section \<open>Data\<close>

definition kP2pMiningContextVersion1 :: u8 where
  "kP2pMiningContextVersion1 = 1"

definition kP2pMiningContextFixedPayloadSize :: nat where
  "kP2pMiningContextFixedPayloadSize = 121"

record p2p_mining_anchor =
  anchor_zano_height :: u64
  anchor_prev_hash :: hash256
  anchor_network_difficulty :: difficulty128
  anchor_seed :: hash256
  anchor_block_reward_without_fee :: u64

record p2p_mining_context_proposal =
  pr_version :: u8
  pr_zano_height :: u64
  pr_prev_hash :: hash256
  pr_network_difficulty :: difficulty128
  pr_seed :: hash256
  pr_block_reward_without_fee :: u64
  pr_block_reward :: u64
  pr_txs_fee :: u64
  pr_block_template_blob :: "u8 list"
  pr_miner_tx_tgc_json :: string

datatype p2p_mining_context_check_status =
    AnchoredUnverifiedMinerTx
  | Check_capability_missing
  | Check_anchor_mismatch

record p2p_mining_context_check_result =
  check_status :: p2p_mining_context_check_status
  check_proposal_id :: hash256
  check_mining_header_hash :: hash256
  regular_transaction_count :: nat

section \<open>Readers and checks\<close>

definition ctx_read_u32_be :: "u8 list \<Rightarrow> nat \<Rightarrow> u32 result" where
  "ctx_read_u32_be bytes offset =
    (if offset > length bytes \<or> length bytes - offset < 4
     then Throw (Runtime_error ''truncated P2P mining-context uint32'')
     else Ok (push_bit 24 (ucast (bytes ! offset)) OR push_bit 16 (ucast (bytes ! (offset + 1))) OR
       push_bit 8 (ucast (bytes ! (offset + 2))) OR ucast (bytes ! (offset + 3))))"

definition ctx_read_u64_be :: "u8 list \<Rightarrow> nat \<Rightarrow> u64 result" where
  "ctx_read_u64_be bytes offset =
    (if offset > length bytes \<or> length bytes - offset < 8
     then Throw (Runtime_error ''truncated P2P mining-context uint64'')
     else Ok (foldl shift_in 0 (slice offset 8 bytes)))"

fun ctx_varint_loop :: "nat \<Rightarrow> u8 list \<Rightarrow> nat \<Rightarrow> nat \<Rightarrow> nat \<Rightarrow> u64 \<Rightarrow> (u64 \<times> nat) result" where
  "ctx_varint_loop 0 bytes start offset shift v =
    Throw (Runtime_error ''Zano varint too long in mining context'')"
| "ctx_varint_loop (Suc n) bytes start offset shift v =
    (if offset \<ge> length bytes
     then Throw (Runtime_error ''truncated Zano varint in mining context'')
     else
       let byte = bytes ! offset; offset' = offset + 1 in
       if shift = 63 \<and> byte AND 0x7e \<noteq> 0
       then Throw (Runtime_error ''Zano varint overflows uint64 in mining context'')
       else
         let v' = v OR push_bit shift (ucast (byte AND 0x7f)) in
         if byte AND 0x80 = 0
         then (if offset' - start \<noteq> encoded_varint_size v'
               then Throw (Runtime_error ''non-canonical Zano varint in mining context'')
               else Ok (v', offset'))
         else ctx_varint_loop n bytes start offset' (shift + 7) v')"

definition ctx_read_varint :: "u8 list \<Rightarrow> nat \<Rightarrow> (u64 \<times> nat) result" where
  "ctx_read_varint bytes offset = ctx_varint_loop 10 bytes offset offset 0 0"

definition hash_from_hex32 :: "string \<Rightarrow> string \<Rightarrow> hash256 result" where
  "hash_from_hex32 hex field_name =
    bindE (hex_to_bytes hex) (\<lambda>bytes.
      if length bytes \<noteq> 32 then Throw (Runtime_error (''invalid 32-byte hex field: '' @ field_name))
      else Ok (array_of bytes))"

definition is_xdigit :: "char \<Rightarrow> bool" where
  "is_xdigit ch \<longleftrightarrow>
    CHR ''0'' \<le> ch \<and> ch \<le> CHR ''9'' \<or> CHR ''a'' \<le> ch \<and> ch \<le> CHR ''f'' \<or>
    CHR ''A'' \<le> ch \<and> ch \<le> CHR ''F''"

definition require_valid_tgc_json :: "json_tokener \<Rightarrow> string \<Rightarrow> unit result" where
  "require_valid_tgc_json tok json_text =
    (if json_text = [] then Throw (Runtime_error ''P2P mining context has empty miner_tx_tgc'')
     else case tok json_text of
       Some (Json_object members) \<Rightarrow>
         (case json_field members ''tx_key'' of
           Some (Json_string s) \<Rightarrow>
             let key = c_string s in
             if key = [] \<or> length key mod 2 \<noteq> 0 \<or> \<not> list_all is_xdigit key
             then Throw (Runtime_error ''P2P miner_tx_tgc tx_key is not non-empty hex'')
             else Ok ()
         | _ \<Rightarrow> Throw (Runtime_error ''P2P miner_tx_tgc has no string tx_key''))
     | _ \<Rightarrow> Throw (Runtime_error ''invalid P2P miner_tx_tgc JSON object''))"

definition require_proposal_serializable :: "json_tokener \<Rightarrow> p2p_mining_context_proposal \<Rightarrow> unit result" where
  "require_proposal_serializable tok p =
    (if pr_version p \<noteq> kP2pMiningContextVersion1
     then Throw (Runtime_error ''unsupported P2P mining-context version'')
     else if difficulty128_is_zero (pr_network_difficulty p)
     then Throw (Runtime_error ''P2P mining context has zero network difficulty'')
     else if pr_block_template_blob p = []
     then Throw (Runtime_error ''P2P mining context has empty block template'')
     else bindE (require_valid_tgc_json tok (pr_miner_tx_tgc_json p)) (\<lambda>_.
       if length (pr_block_template_blob p) > kP2pMaxPayloadSize - kP2pMiningContextFixedPayloadSize
       then Throw (Runtime_error ''P2P mining-context block blob is too large'')
       else if length (pr_miner_tx_tgc_json p) >
         kP2pMaxPayloadSize - kP2pMiningContextFixedPayloadSize - length (pr_block_template_blob p)
       then Throw (Runtime_error ''P2P mining-context payload exceeds maximum size'')
       else if length (pr_block_template_blob p) > 2 ^ 32 - 1 \<or> length (pr_miner_tx_tgc_json p) > 2 ^ 32 - 1
       then Throw (Runtime_error ''P2P mining-context component exceeds uint32'')
       else Ok ()))"

definition anchor_matches :: "p2p_mining_context_proposal \<Rightarrow> p2p_mining_anchor \<Rightarrow> bool" where
  "anchor_matches p anchor \<longleftrightarrow>
    pr_zano_height p = anchor_zano_height anchor \<and>
    pr_prev_hash p = anchor_prev_hash anchor \<and>
    pr_network_difficulty p = anchor_network_difficulty anchor \<and>
    pr_seed p = anchor_seed anchor \<and>
    pr_block_reward_without_fee p = anchor_block_reward_without_fee anchor"

text \<open>The check of the coinbase input at the end of the structural bindings.\<close>

definition require_coinbase_height ::
  "p2p_mining_context_proposal \<Rightarrow> u8 list \<Rightarrow> nat \<Rightarrow> unit result"
where
  "require_coinbase_height p blob tx_pos =
    bindE (ctx_read_varint blob tx_pos) (\<lambda>(tx_version, tx_pos).
    bindE (ctx_read_varint blob tx_pos) (\<lambda>(vins, tx_pos).
      if tx_version \<noteq> 4 \<or> vins \<noteq> 1 \<or> tx_pos \<ge> length blob
      then Throw (Runtime_error ''invalid current P2P mining-context coinbase inputs'')
      else if blob ! tx_pos \<noteq> 0
      then Throw (Runtime_error ''P2P mining-context coinbase is not txin_gen'')
      else bindE (ctx_read_varint blob (tx_pos + 1)) (\<lambda>(miner_height, tx_pos).
        if miner_height \<noteq> pr_zano_height p
        then Throw (Runtime_error ''P2P mining-context coinbase height mismatch'')
        else Ok ())))"

definition require_current_hf6_structural_bindings ::
  "p2p_mining_context_proposal \<Rightarrow> mining_header_work \<Rightarrow> unit result"
where
  "require_current_hf6_structural_bindings p work =
    (let blob = pr_block_template_blob p in
     if length blob < 42 then Throw (Runtime_error ''P2P mining-context block blob is too short'')
     else if \<not> list_all (\<lambda>byte. byte = 0) (slice 1 8 blob)
     then Throw (Runtime_error ''P2P mining-context template nonce is not zero'')
     else if (array_of (slice 9 32 blob) :: hash256) \<noteq> pr_prev_hash p
     then Throw (Runtime_error ''P2P mining-context block previous hash does not match metadata'')
     else
       bindE (ctx_read_varint blob 41) (\<lambda>(minor, header_pos).
       bindE (ctx_read_varint blob header_pos) (\<lambda>(time, header_pos).
         if header_pos \<ge> length blob
         then Throw (Runtime_error ''truncated P2P mining-context block flags'')
         else if blob ! header_pos \<noteq> 0
         then Throw (Runtime_error ''P2P mining context is not a PoW block template'')
         else if header_pos + 1 \<noteq> header_serialized_size (block_header work)
         then Throw (Runtime_error ''P2P mining-context header boundary mismatch'')
         else if miner_tx_version (miner_tx_prefix work) \<noteq> 4 \<or> hardfork_id (miner_tx_prefix work) \<noteq> 6
         then Throw (Runtime_error ''unsupported P2P mining-context miner transaction'')
         else require_coinbase_height p blob (header_serialized_size (block_header work)))))"

section \<open>Anchors and proposals\<close>

definition p2p_mining_anchor_from_template :: "block_template \<Rightarrow> p2p_mining_anchor result" where
  "p2p_mining_anchor_from_template bt =
    bindE (hash_from_hex32 (bt_prev_hash bt) ''prev_hash'') (\<lambda>prev.
    bindE (difficulty128_from_decimal (bt_difficulty bt)) (\<lambda>difficulty.
    bindE (hash_from_hex32 (bt_seed bt) ''seed'') (\<lambda>seed.
      Ok \<lparr>anchor_zano_height = bt_height bt, anchor_prev_hash = prev,
        anchor_network_difficulty = difficulty, anchor_seed = seed,
        anchor_block_reward_without_fee = bt_block_reward_without_fee bt\<rparr>)))"

definition p2p_mining_context_proposal_from_template ::
  "json_tokener \<Rightarrow> block_template \<Rightarrow> p2p_mining_context_proposal result"
where
  "p2p_mining_context_proposal_from_template tok bt =
    bindE (hash_from_hex32 (bt_prev_hash bt) ''prev_hash'') (\<lambda>prev.
    bindE (difficulty128_from_decimal (bt_difficulty bt)) (\<lambda>difficulty.
    bindE (hash_from_hex32 (bt_seed bt) ''seed'') (\<lambda>seed.
    bindE (hex_to_bytes (blocktemplate_blob bt)) (\<lambda>blob.
      let p = \<lparr>pr_version = kP2pMiningContextVersion1, pr_zano_height = bt_height bt, pr_prev_hash = prev,
        pr_network_difficulty = difficulty, pr_seed = seed,
        pr_block_reward_without_fee = bt_block_reward_without_fee bt,
        pr_block_reward = bt_block_reward bt, pr_txs_fee = bt_txs_fee bt,
        pr_block_template_blob = blob, pr_miner_tx_tgc_json = miner_tx_tgc_json bt\<rparr>
      in bindE (require_proposal_serializable tok p) (\<lambda>_. Ok p)))))"

section \<open>Wire format\<close>

definition serialize_p2p_mining_context_payload ::
  "json_tokener \<Rightarrow> p2p_mining_context_proposal \<Rightarrow> u8 list result"
where
  "serialize_p2p_mining_context_payload tok p =
    bindE (require_proposal_serializable tok p) (\<lambda>_.
      let out = [pr_version p] @ append_u64_be (pr_zano_height p) @ bytes_of (pr_prev_hash p) @
        bytes_of (pr_network_difficulty p) @ bytes_of (pr_seed p) @
        append_u64_be (pr_block_reward_without_fee p) @ append_u64_be (pr_block_reward p) @
        append_u64_be (pr_txs_fee p) @
        append_u32_be (word_of_nat (length (pr_block_template_blob p))) @
        append_u32_be (word_of_nat (length (pr_miner_tx_tgc_json p))) @
        pr_block_template_blob p @ bytes_of_string (pr_miner_tx_tgc_json p)
      in if length out > kP2pMaxPayloadSize
         then Throw (Runtime_error ''internal P2P mining-context size mismatch'')
         else Ok out)"

definition deserialize_p2p_mining_context_payload ::
  "json_tokener \<Rightarrow> u8 list \<Rightarrow> p2p_mining_context_proposal result"
where
  "deserialize_p2p_mining_context_payload tok payload =
    (if length payload < kP2pMiningContextFixedPayloadSize \<or> length payload > kP2pMaxPayloadSize
     then Throw (Runtime_error ''invalid P2P mining-context payload size'')
     else if payload ! 0 \<noteq> kP2pMiningContextVersion1
     then Throw (Runtime_error ''unsupported P2P mining-context version'')
     else
       bindE (ctx_read_u64_be payload 1) (\<lambda>height.
       bindE (ctx_read_u64_be payload 89) (\<lambda>reward_without_fee.
       bindE (ctx_read_u64_be payload 97) (\<lambda>reward.
       bindE (ctx_read_u64_be payload 105) (\<lambda>fee.
       bindE (ctx_read_u32_be payload 113) (\<lambda>block_blob_size.
       bindE (ctx_read_u32_be payload 117) (\<lambda>tgc_size.
         if unat block_blob_size + unat tgc_size \<noteq> length payload - 121
         then Throw (Runtime_error ''P2P mining-context component lengths mismatch'')
         else
           let p = \<lparr>pr_version = payload ! 0, pr_zano_height = height,
             pr_prev_hash = array_of (slice 9 32 payload),
             pr_network_difficulty = array_of (slice 41 16 payload),
             pr_seed = array_of (slice 57 32 payload),
             pr_block_reward_without_fee = reward_without_fee, pr_block_reward = reward,
             pr_txs_fee = fee, pr_block_template_blob = slice 121 (unat block_blob_size) payload,
             pr_miner_tx_tgc_json =
               string_of_bytes (slice (121 + unat block_blob_size) (unat tgc_size) payload)\<rparr>
           in bindE (require_proposal_serializable tok p) (\<lambda>_. Ok p))))))))"

definition make_p2p_mining_context_envelope ::
  "json_tokener \<Rightarrow> p2p_mining_context_proposal \<Rightarrow> p2p_envelope result"
where
  "make_p2p_mining_context_envelope tok p =
    bindE (serialize_p2p_mining_context_payload tok p) (\<lambda>payload.
      Ok (default_envelope Mining_context_announce payload))"

definition parse_p2p_mining_context_envelope ::
  "json_tokener \<Rightarrow> p2p_envelope \<Rightarrow> p2p_mining_context_proposal result"
where
  "parse_p2p_mining_context_envelope tok envelope =
    (if env_version envelope \<noteq> kP2pProtocolVersion
     then Throw (Runtime_error ''unsupported P2P protocol version'')
     else if env_type envelope \<noteq> Mining_context_announce
     then Throw (Runtime_error ''P2P envelope is not a mining-context announcement'')
     else if env_flags envelope \<noteq> 0
     then Throw (Runtime_error ''unsupported P2P envelope flags'')
     else deserialize_p2p_mining_context_payload tok (env_payload envelope))"

definition p2p_mining_context_id :: "json_tokener \<Rightarrow> p2p_mining_context_proposal \<Rightarrow> hash256 result" where
  "p2p_mining_context_id tok p =
    bindE (serialize_p2p_mining_context_payload tok p) (\<lambda>payload. Ok (cn_fast_hash payload))"

section \<open>Inspection\<close>

definition validate_p2p_mining_context_structure ::
  "json_tokener \<Rightarrow> p2p_mining_context_proposal \<Rightarrow> hash256 result"
where
  "validate_p2p_mining_context_structure tok p =
    bindE (derive_mining_header_work (pr_block_template_blob p)) (\<lambda>work.
    bindE (require_current_hf6_structural_bindings p work) (\<lambda>_.
    bindE (require_valid_tgc_json tok (pr_miner_tx_tgc_json p)) (\<lambda>_. Ok (header_hash work))))"

definition inspect_p2p_mining_context ::
  "json_tokener \<Rightarrow> p2p_handshake \<Rightarrow> p2p_envelope \<Rightarrow> p2p_mining_anchor \<Rightarrow>
    p2p_mining_context_check_result result"
where
  "inspect_p2p_mining_context tok peer envelope local_anchor =
    (let result = \<lparr>check_status = Check_anchor_mismatch, check_proposal_id = 0,
       check_mining_header_hash = 0, regular_transaction_count = 0\<rparr> in
     if hs_capabilities peer AND kP2pCapabilityMiningContext = 0
     then Ok (result\<lparr>check_status := Check_capability_missing\<rparr>)
     else
       bindE (parse_p2p_mining_context_envelope tok envelope) (\<lambda>p.
       bindE (p2p_mining_context_id tok p) (\<lambda>i.
         let result = result\<lparr>check_proposal_id := i\<rparr> in
         if \<not> anchor_matches p local_anchor then Ok result
         else
           bindE (derive_mining_header_work (pr_block_template_blob p)) (\<lambda>work.
           bindE (require_current_hf6_structural_bindings p work) (\<lambda>_.
           bindE (require_valid_tgc_json tok (pr_miner_tx_tgc_json p)) (\<lambda>_.
             Ok (result\<lparr>check_status := AnchoredUnverifiedMinerTx,
               check_mining_header_hash := header_hash work,
               regular_transaction_count := length (trailer_hashes (tx_hashes work))\<rparr>)))))))"

definition p2p_mining_context_check_status_name :: "p2p_mining_context_check_status \<Rightarrow> string" where
  "p2p_mining_context_check_status_name status =
    (case status of
      AnchoredUnverifiedMinerTx \<Rightarrow> ''anchored-unverified-miner-tx''
    | Check_capability_missing \<Rightarrow> ''capability-missing''
    | Check_anchor_mismatch \<Rightarrow> ''anchor-mismatch'')"

section \<open>The wire format is canonical\<close>

definition serializable_proposal :: "json_tokener \<Rightarrow> p2p_mining_context_proposal \<Rightarrow> bool" where
  "serializable_proposal tok p \<longleftrightarrow>
    pr_version p = 1 \<and> pr_network_difficulty p \<noteq> 0 \<and> pr_block_template_blob p \<noteq> [] \<and>
    require_valid_tgc_json tok (pr_miner_tx_tgc_json p) = Ok () \<and>
    121 + length (pr_block_template_blob p) + length (pr_miner_tx_tgc_json p) \<le> kP2pMaxPayloadSize"

definition context_bytes :: "p2p_mining_context_proposal \<Rightarrow> u8 list" where
  "context_bytes p =
    [pr_version p] @ append_u64_be (pr_zano_height p) @ bytes_of (pr_prev_hash p) @
    bytes_of (pr_network_difficulty p) @ bytes_of (pr_seed p) @
    append_u64_be (pr_block_reward_without_fee p) @ append_u64_be (pr_block_reward p) @
    append_u64_be (pr_txs_fee p) @ append_u32_be (word_of_nat (length (pr_block_template_blob p))) @
    append_u32_be (word_of_nat (length (pr_miner_tx_tgc_json p))) @
    pr_block_template_blob p @ bytes_of_string (pr_miner_tx_tgc_json p)"

lemma require_proposal_serializable_ok:
  "require_proposal_serializable tok p = Ok u \<longleftrightarrow> serializable_proposal tok p"
  by (auto simp: require_proposal_serializable_def serializable_proposal_def bindE_eq_Ok
      kP2pMiningContextVersion1_def kP2pMiningContextFixedPayloadSize_def kP2pMaxPayloadSize_def)

lemma length_context_bytes:
  "length (context_bytes p) = 121 + length (pr_block_template_blob p) + length (pr_miner_tx_tgc_json p)"
  by (simp add: context_bytes_def)

lemma serialize_context_eq_Ok:
  "serialize_p2p_mining_context_payload tok p = Ok bs \<longleftrightarrow> serializable_proposal tok p \<and> bs = context_bytes p"
proof -
  have "serialize_p2p_mining_context_payload tok p =
      bindE (require_proposal_serializable tok p) (\<lambda>_.
        if length (context_bytes p) > kP2pMaxPayloadSize
        then Throw (Runtime_error ''internal P2P mining-context size mismatch'') else Ok (context_bytes p))"
    by (simp only: serialize_p2p_mining_context_payload_def context_bytes_def Let_def)
  then show ?thesis
    by (auto simp: bindE_eq_Ok require_proposal_serializable_ok length_context_bytes serializable_proposal_def)
qed

lemma ctx_read_ok:
  "offset + 8 \<le> length bytes \<Longrightarrow> ctx_read_u64_be bytes offset = Ok (foldl shift_in 0 (slice offset 8 bytes))"
  "offset + 4 \<le> length bytes \<Longrightarrow> ctx_read_u32_be bytes offset = Ok (foldl shift_in 0 (slice offset 4 bytes))"
  using p2p_read_ok(2) [of offset bytes]
  by (simp_all add: ctx_read_u64_be_def ctx_read_u32_be_def p2p_read_u32_be_def)

lemma deserialize_context_bytes:
  assumes "serializable_proposal tok p"
  shows "deserialize_p2p_mining_context_payload tok (context_bytes p) = Ok p"
proof -
  let ?b = "context_bytes p"
  have n: "unat (word_of_nat (length (pr_block_template_blob p)) :: u32) = length (pr_block_template_blob p)"
    "unat (word_of_nat (length (pr_miner_tx_tgc_json p)) :: u32) = length (pr_miner_tx_tgc_json p)"
    using assms by (simp_all add: serializable_proposal_def kP2pMaxPayloadSize_def unat_of_nat)
  have tail: "drop 121 ?b = pr_block_template_blob p @ bytes_of_string (pr_miner_tx_tgc_json p)"
    by (simp add: context_bytes_def)
  have f: "?b ! 0 = pr_version p" "slice (Suc 0) 8 ?b = append_u64_be (pr_zano_height p)"
    "slice 9 32 ?b = bytes_of (pr_prev_hash p)" "slice 41 16 ?b = bytes_of (pr_network_difficulty p)"
    "slice 57 32 ?b = bytes_of (pr_seed p)" "slice 89 8 ?b = append_u64_be (pr_block_reward_without_fee p)"
    "slice 97 8 ?b = append_u64_be (pr_block_reward p)" "slice 105 8 ?b = append_u64_be (pr_txs_fee p)"
    "slice 113 4 ?b = append_u32_be (word_of_nat (length (pr_block_template_blob p)))"
    "slice 117 4 ?b = append_u32_be (word_of_nat (length (pr_miner_tx_tgc_json p)))"
    by (simp_all add: slice_def context_bytes_def)
  have g: "slice 121 (length (pr_block_template_blob p)) ?b = pr_block_template_blob p"
    "slice (121 + length (pr_block_template_blob p)) (length (pr_miner_tx_tgc_json p)) ?b =
      bytes_of_string (pr_miner_tx_tgc_json p)"
    by (simp_all add: slice_def tail add.commute [of 121] flip: drop_drop)
  show ?thesis
    using assms
    by (simp add: deserialize_p2p_mining_context_payload_def ctx_read_ok length_context_bytes f g n
        kP2pMiningContextFixedPayloadSize_def kP2pMiningContextVersion1_def serializable_proposal_def)
      (cases p, auto simp: Let_def bindE_eq_Ok require_proposal_serializable_ok serializable_proposal_def)
qed

lemma context_bytes_deserialize:
  assumes "deserialize_p2p_mining_context_payload tok bs = Ok p"
  shows "serializable_proposal tok p" "bs = context_bytes p"
proof -
  have len: "121 \<le> length bs"
    using assms by (auto simp: deserialize_p2p_mining_context_payload_def
        kP2pMiningContextFixedPayloadSize_def split: if_splits)
  let ?n = "foldl shift_in 0 (slice 113 4 bs) :: u32" and ?k = "foldl shift_in 0 (slice 117 4 bs) :: u32"
  have p: "p = \<lparr>pr_version = bs ! 0, pr_zano_height = foldl shift_in 0 (slice 1 8 bs),
      pr_prev_hash = array_of (slice 9 32 bs), pr_network_difficulty = array_of (slice 41 16 bs),
      pr_seed = array_of (slice 57 32 bs),
      pr_block_reward_without_fee = foldl shift_in 0 (slice 89 8 bs),
      pr_block_reward = foldl shift_in 0 (slice 97 8 bs), pr_txs_fee = foldl shift_in 0 (slice 105 8 bs),
      pr_block_template_blob = slice 121 (unat ?n) bs,
      pr_miner_tx_tgc_json = string_of_bytes (slice (121 + unat ?n) (unat ?k) bs)\<rparr>"
    and size: "unat ?n + unat ?k = length bs - 121" and ok: "require_proposal_serializable tok p = Ok ()"
    using assms len
    by (auto simp: deserialize_p2p_mining_context_payload_def ctx_read_ok bindE_eq_Ok Let_def split: if_splits)
  show "serializable_proposal tok p"
    using ok by (simp add: require_proposal_serializable_ok)
  have l: "length (slice 121 (unat ?n) bs) = unat ?n"
    "length (slice (121 + unat ?n) (unat ?k) bs) = unat ?k"
    using size len by simp_all
  have "bs = [bs ! 0] @ drop 1 bs"
    using len by (cases bs) simp_all
  also have "drop 1 bs = slice 1 8 bs @ slice 9 32 bs @ slice 41 16 bs @ slice 57 32 bs @ slice 89 8 bs @
      slice 97 8 bs @ slice 105 8 bs @ slice 113 4 bs @ slice 117 4 bs @ drop 121 bs"
    by (simp add: slice_def take_drop_join)
  also have "drop 121 bs = slice 121 (unat ?n) bs @ slice (121 + unat ?n) (unat ?k) bs"
    using size len by (simp add: slice_def take_drop_join flip: take_add)
  finally show "bs = context_bytes p"
    unfolding context_bytes_def p using len l by (simp add: append_foldl_be)
qed

interpretation context_codec: canonical_codec
  "serialize_p2p_mining_context_payload tok" "deserialize_p2p_mining_context_payload tok" for tok
proof
  fix p bs
  show "deserialize_p2p_mining_context_payload tok bs = Ok p"
    if "serialize_p2p_mining_context_payload tok p = Ok bs"
    using that by (auto simp: serialize_context_eq_Ok deserialize_context_bytes)
  show "serialize_p2p_mining_context_payload tok p = Ok bs"
    if "deserialize_p2p_mining_context_payload tok bs = Ok p"
    using context_bytes_deserialize [OF that] by (simp add: serialize_context_eq_Ok)
qed

lemma make_context_eq_Ok:
  "make_p2p_mining_context_envelope tok p = Ok e \<longleftrightarrow>
    serializable_proposal tok p \<and> e = default_envelope Mining_context_announce (context_bytes p)"
  by (auto simp: make_p2p_mining_context_envelope_def bindE_eq_Ok serialize_context_eq_Ok)

lemma parse_context_eq_Ok:
  "parse_p2p_mining_context_envelope tok e = Ok p \<longleftrightarrow> make_p2p_mining_context_envelope tok p = Ok e"
  by (auto simp: parse_p2p_mining_context_envelope_def make_p2p_mining_context_envelope_def bindE_eq_Ok
      default_envelope_eq context_codec.dec_iff_enc)

interpretation mining_context_message: p2p_message Mining_context_announce "\<lambda>_. True"
  "make_p2p_mining_context_envelope tok" "parse_p2p_mining_context_envelope tok" for tok
  by unfold_locales
    (auto simp: parse_context_eq_Ok make_context_eq_Ok serializable_proposal_def length_context_bytes)

lemma context_id_eq_Ok:
  "p2p_mining_context_id tok p = Ok i \<longleftrightarrow> serializable_proposal tok p \<and> i = cn_fast_hash (context_bytes p)"
  by (auto simp: p2p_mining_context_id_def bindE_eq_Ok serialize_context_eq_Ok)

section \<open>What an inspection establishes\<close>

lemma inspect_anchored:
  assumes "inspect_p2p_mining_context tok peer envelope anchor = Ok r"
    and "check_status r = AnchoredUnverifiedMinerTx"
  obtains p work where
    "hs_capabilities peer AND kP2pCapabilityMiningContext \<noteq> 0"
    "parse_p2p_mining_context_envelope tok envelope = Ok p" "serializable_proposal tok p"
    "anchor_matches p anchor" "derive_mining_header_work (pr_block_template_blob p) = Ok work"
    "require_current_hf6_structural_bindings p work = Ok ()"
    "check_mining_header_hash r = header_hash work" "p2p_mining_context_id tok p = Ok (check_proposal_id r)"
  using assms
  by (auto simp: inspect_p2p_mining_context_def bindE_eq_Ok Let_def parse_context_eq_Ok make_context_eq_Ok
      split: if_splits)

end
