(* ===== verification/Zano_Curve.thy ===== *)
theory Zano_Curve
  imports Prelude
begin

text \<open>
  \<open>src/src/zano_curve.cpp\<close>: the checks on curve points that the program makes with Zano's crypto library.
  The library is not part of the program. The record \<open>zano_crypto\<close> has the operations the file calls,
  over any types of points and scalars; a constructor that throws on bytes which are no point gives \<open>None\<close>.
  The flag \<open>have_zano_curve\<close> is the compile switch: a build without the library rejects everything.
\<close>

type_synonym zano_curve_key = hash256

section \<open>Proof data\<close>

record zano_bpp_signature =
  bpp_left :: "zano_curve_key list"
  bpp_right :: "zano_curve_key list"
  bpp_a0 :: zano_curve_key
  bpp_a :: zano_curve_key
  bpp_b :: zano_curve_key
  bpp_r :: zano_curve_key
  bpp_s :: zano_curve_key
  bpp_delta :: zano_curve_key

record zano_ug_aggregation_proof =
  ug_amount_commitments :: "zano_curve_key list"
  ug_y0s :: "zano_curve_key list"
  ug_y1s :: "zano_curve_key list"
  ug_c :: zano_curve_key

section \<open>The library\<close>

text \<open>What is fed to the transcript hash.\<close>

datatype 'p transcript_item =
    Add_hash zano_curve_key
  | Add_point 'p
  | Add_pub_key zano_curve_key

text \<open>\<open>crypto::bpp_signature\<close>: keys stay keys, the last three fields are scalars.\<close>

record 's library_bpp_signature =
  lib_left :: "zano_curve_key list"
  lib_right :: "zano_curve_key list"
  lib_a0 :: zano_curve_key
  lib_a :: zano_curve_key
  lib_b :: zano_curve_key
  lib_r :: 's
  lib_s :: 's
  lib_delta :: 's

record 's library_ug_proof =
  lib_amount_commitments :: "zano_curve_key list"
  lib_y0s :: "'s list"
  lib_y1s :: "'s list"
  lib_c :: 's

record ('p, 's) zano_crypto =
  have_zano_curve :: bool
  secret_key_to_public_key :: "zano_curve_key \<Rightarrow> zano_curve_key option"
  generate_key_derivation :: "zano_curve_key \<Rightarrow> zano_curve_key \<Rightarrow> zano_curve_key option"
  derive_public_key :: "zano_curve_key \<Rightarrow> nat \<Rightarrow> zano_curve_key \<Rightarrow> zano_curve_key option"
  point_of_key :: "zano_curve_key \<Rightarrow> 'p option"
  to_public_key :: "'p \<Rightarrow> zano_curve_key"
  point_add :: "'p \<Rightarrow> 'p \<Rightarrow> 'p"
  point_sub :: "'p \<Rightarrow> 'p \<Rightarrow> 'p"
  modify_mul8 :: "'p \<Rightarrow> 'p"
  scalar_mul :: "'s \<Rightarrow> 'p \<Rightarrow> 'p"
  scalar_of_key :: "zano_curve_key \<Rightarrow> 's"
  scalar_of_u64 :: "u64 \<Rightarrow> 's"
  is_reduced :: "'s \<Rightarrow> bool"
  c_point_0 :: 'p
  c_point_G :: 'p
  c_point_H :: 'p
  c_point_U :: 'p
  calc_hash :: "'p transcript_item list \<Rightarrow> 's"
  verify_double_schnorr_sig_GG :: "zano_curve_key \<Rightarrow> 'p \<Rightarrow> zano_curve_key \<Rightarrow> u8 list \<Rightarrow> bool"
  bpp_verify_ZC_out :: "'s library_bpp_signature \<Rightarrow> 'p list \<Rightarrow> bool"
  c_bpp_values_max :: nat
  c_bpp_log2_n :: nat

section \<open>The checks\<close>

text \<open>\<open>while (value != 0)\<close> of \<open>ceil_log2\<close>.\<close>

fun count_halvings :: "nat \<Rightarrow> nat \<Rightarrow> nat" where
  "count_halvings v r = (if v \<noteq> 0 then count_halvings (v div 2) (r + 1) else r)"

declare count_halvings.simps [simp del]

definition ceil_log2 :: "nat \<Rightarrow> nat" where
  "ceil_log2 v = (if v \<le> 1 then 0 else count_halvings (v - 1) 0)"

definition zano_curve_backend_available :: "('p, 's) zano_crypto \<Rightarrow> bool" where
  "zano_curve_backend_available crv = have_zano_curve crv"

definition zano_secret_key_matches_public ::
  "('p, 's) zano_crypto \<Rightarrow> zano_curve_key \<Rightarrow> zano_curve_key \<Rightarrow> bool"
where
  "zano_secret_key_matches_public crv secret public =
    (have_zano_curve crv \<and>
     (case secret_key_to_public_key crv secret of None \<Rightarrow> False | Some actual \<Rightarrow> actual = public))"

text \<open>The key, if the function returns true; the output argument is not used otherwise.\<close>

definition zano_derive_output_public_key ::
  "('p, 's) zano_crypto \<Rightarrow> zano_curve_key \<Rightarrow> zano_curve_key \<Rightarrow> zano_curve_key \<Rightarrow> nat \<Rightarrow> zano_curve_key option"
where
  "zano_derive_output_public_key crv tx_secret spend_public view_public output_index =
    (if \<not> have_zano_curve crv then None
     else case generate_key_derivation crv view_public tx_secret of
       None \<Rightarrow> None
     | Some derivation \<Rightarrow> derive_public_key crv derivation output_index spend_public)"

definition zano_amount_commitment_matches ::
  "('p, 's) zano_crypto \<Rightarrow> u64 \<Rightarrow> zano_curve_key \<Rightarrow> zano_curve_key \<Rightarrow> zano_curve_key \<Rightarrow> bool"
where
  "zano_amount_commitment_matches crv amt mask_key asset_id commitment =
    (have_zano_curve crv \<and>
     (let mask = scalar_of_key crv mask_key in
      is_reduced crv mask \<and>
      (case (point_of_key crv asset_id, point_of_key crv commitment) of
        (Some asset_point, Some committed_point) \<Rightarrow>
          modify_mul8 crv committed_point =
            point_add crv (scalar_mul crv (scalar_of_u64 crv amt) (modify_mul8 crv asset_point))
              (scalar_mul crv mask (c_point_G crv))
      | _ \<Rightarrow> False)))"

text \<open>Points from a list of keys; \<open>None\<close> when one of them throws.\<close>

fun points_of_keys :: "('p, 's) zano_crypto \<Rightarrow> zano_curve_key list \<Rightarrow> 'p list option" where
  "points_of_keys crv [] = Some []"
| "points_of_keys crv (key # keys) =
    (case point_of_key crv key of
      None \<Rightarrow> None
    | Some p \<Rightarrow> (case points_of_keys crv keys of None \<Rightarrow> None | Some ps \<Rightarrow> Some (p # ps)))"

definition zano_verify_hf6_miner_balance_proof ::
  "('p, 's) zano_crypto \<Rightarrow> zano_curve_key \<Rightarrow> u64 \<Rightarrow> zano_curve_key \<Rightarrow> zano_curve_key list \<Rightarrow> u8 list \<Rightarrow> bool"
where
  "zano_verify_hf6_miner_balance_proof crv tx_id reward tx_public commitments proof_bytes =
    (have_zano_curve crv \<and> \<not> (reward = 0 \<or> commitments = [] \<or> length proof_bytes \<noteq> 96) \<and>
     (case points_of_keys crv commitments of
       None \<Rightarrow> False
     | Some points \<Rightarrow>
         let outputs_sum = modify_mul8 crv (foldl (point_add crv) (c_point_0 crv) points);
             commitment_to_zero = point_sub crv (scalar_mul crv (scalar_of_u64 crv reward) (c_point_H crv)) outputs_sum
         in verify_double_schnorr_sig_GG crv tx_id commitment_to_zero tx_public proof_bytes))"

definition verify_ug_aggregation_proof ::
  "('p, 's) zano_crypto \<Rightarrow> zano_curve_key \<Rightarrow> zano_curve_key list \<Rightarrow> zano_curve_key list \<Rightarrow> 's library_ug_proof \<Rightarrow> bool"
where
  "verify_ug_aggregation_proof crv message commitments asset_ids p =
    (let n = length commitments in
     \<not> (n = 0 \<or> length asset_ids \<noteq> n \<or> length (lib_amount_commitments p) \<noteq> n \<or> length (lib_y0s p) \<noteq> n \<or>
        length (lib_y1s p) \<noteq> n \<or> \<not> is_reduced crv (lib_c p)) \<and>
     list_all (is_reduced crv) (lib_y0s p) \<and> list_all (is_reduced crv) (lib_y1s p) \<and>
     (case (points_of_keys crv commitments, points_of_keys crv (lib_amount_commitments p), points_of_keys crv asset_ids) of
       (Some cs, Some rs, Some ts) \<Rightarrow>
         let amount_points = map (modify_mul8 crv) cs;
             rp_points = map (modify_mul8 crv) rs;
             transcript = Add_hash message # map Add_point amount_points @ map Add_point rp_points;
             w = calc_hash crv transcript;
             asset_tag_plus_u = map (\<lambda>t. point_add crv (modify_mul8 crv t) (scalar_mul crv w (c_point_U crv))) ts;
             responses = map (\<lambda>i. point_add crv (point_add crv
                 (scalar_mul crv (lib_y0s p ! i) (asset_tag_plus_u ! i))
                 (scalar_mul crv (lib_y1s p ! i) (c_point_G crv)))
                 (scalar_mul crv (lib_c p) (point_add crv (amount_points ! i) (scalar_mul crv w (rp_points ! i)))))
               [0..<n]
         in lib_c p = calc_hash crv (transcript @ map (\<lambda>r. Add_pub_key (to_public_key crv r)) responses)
     | _ \<Rightarrow> False))"

definition zano_verify_hf6_miner_range_proof ::
  "('p, 's) zano_crypto \<Rightarrow> zano_curve_key \<Rightarrow> zano_curve_key list \<Rightarrow> zano_curve_key list \<Rightarrow>
    zano_bpp_signature \<Rightarrow> zano_ug_aggregation_proof \<Rightarrow> bool"
where
  "zano_verify_hf6_miner_range_proof crv tx_id commitments asset_ids bpp aggregation =
    (let n = length commitments in
     have_zano_curve crv \<and>
     \<not> (n < 2 \<or> n > c_bpp_values_max crv \<or> length asset_ids \<noteq> n \<or>
        length (ug_amount_commitments aggregation) \<noteq> n \<or> length (ug_y0s aggregation) \<noteq> n \<or>
        length (ug_y1s aggregation) \<noteq> n \<or> length (bpp_left bpp) \<noteq> length (bpp_right bpp) \<or>
        length (bpp_left bpp) \<noteq> c_bpp_log2_n crv + ceil_log2 n) \<and>
     (let signature = \<lparr>lib_left = bpp_left bpp, lib_right = bpp_right bpp, lib_a0 = bpp_a0 bpp, lib_a = bpp_a bpp,
            lib_b = bpp_b bpp, lib_r = scalar_of_key crv (bpp_r bpp), lib_s = scalar_of_key crv (bpp_s bpp),
            lib_delta = scalar_of_key crv (bpp_delta bpp)\<rparr>;
          aggregation_proof = \<lparr>lib_amount_commitments = ug_amount_commitments aggregation,
            lib_y0s = map (scalar_of_key crv) (ug_y0s aggregation), lib_y1s = map (scalar_of_key crv) (ug_y1s aggregation),
            lib_c = scalar_of_key crv (ug_c aggregation)\<rparr>
      in case points_of_keys crv (lib_amount_commitments aggregation_proof) of
        None \<Rightarrow> False
      | Some bpp_commitments \<Rightarrow>
          bpp_verify_ZC_out crv signature bpp_commitments \<and>
          verify_ug_aggregation_proof crv tx_id commitments asset_ids aggregation_proof))"

section \<open>Rounds of the range proof\<close>

lemma count_halvings_eq: "count_halvings v r = r + count_halvings v 0"
proof (induction v arbitrary: r rule: less_induct)
  case (less v)
  show ?case
  proof (cases "v = 0")
    case False
    then have "v div 2 < v" by simp
    from less.IH [OF this, of "Suc r"] less.IH [OF this, of "Suc 0"] False show ?thesis
      by (simp add: count_halvings.simps [of v])
  qed (simp add: count_halvings.simps)
qed

lemma count_halvings_bounds: "v < 2 ^ count_halvings v 0 \<and> (v \<noteq> 0 \<longrightarrow> 2 ^ count_halvings v 0 \<le> 2 * v)"
proof (induction v rule: less_induct)
  case (less v)
  show ?case
  proof (cases "v = 0")
    case False
    then have "v div 2 < v" by simp
    note IH = less.IH [OF this]
    have "count_halvings v 0 = Suc (count_halvings (v div 2) 0)"
      using False count_halvings_eq [of "v div 2" "Suc 0"] by (simp add: count_halvings.simps [of v])
    then show ?thesis
      using IH False by (cases "v div 2 = 0") (auto simp: count_halvings.simps [of 0])
  qed (simp add: count_halvings.simps)
qed

lemma ceil_log2_bounds: "1 < n \<Longrightarrow> n \<le> 2 ^ ceil_log2 n \<and> 2 ^ ceil_log2 n < 2 * n"
  using count_halvings_bounds [of "n - 1"] by (auto simp: ceil_log2_def)

section \<open>Without the library\<close>

lemma curve_fails_closed:
  assumes "\<not> have_zano_curve crv"
  shows "\<not> zano_curve_backend_available crv" "\<not> zano_secret_key_matches_public crv s p"
    "zano_derive_output_public_key crv s p v i = None" "\<not> zano_amount_commitment_matches crv a m t e"
    "\<not> zano_verify_hf6_miner_balance_proof crv h r p es bs" "\<not> zano_verify_hf6_miner_range_proof crv h es ts bpp ug"
  using assms
  by (simp_all add: zano_curve_backend_available_def zano_secret_key_matches_public_def
      zano_derive_output_public_key_def zano_amount_commitment_matches_def
      zano_verify_hf6_miner_balance_proof_def zano_verify_hf6_miner_range_proof_def Let_def)

end
