(* ===== verification/Miner_Tx_Binding.thy ===== *)
theory Miner_Tx_Binding
  imports Mining_Context Zano_Curve
begin

text \<open>
  \<open>src/src/p2p_miner_tx_binding.cpp\<close>: the check that the key pair which comes with a template is the key
  pair of its miner transaction. The cursor class of this file has the same text in
  \<open>src/src/p2p_payout_policy.cpp\<close>, and in \<open>src/src/p2p_miner_tx_proofs.cpp\<close> with another message for
  truncated input, which is the first argument of the readers. A function that is \<open>noexcept\<close> and lets an
  exception escape would end the program: it is a \<open>Throw\<close> of its model.
\<close>

section \<open>The cursor\<close>

definition tx_require :: "string \<Rightarrow> u8 list \<Rightarrow> nat \<Rightarrow> nat \<Rightarrow> unit result" where
  "tx_require trunc data pos n =
    (if pos > length data \<or> n > length data - pos then Throw (Runtime_error trunc) else Ok ())"

definition tx_read_u8 :: "string \<Rightarrow> u8 list \<Rightarrow> nat \<Rightarrow> (u8 \<times> nat) result" where
  "tx_read_u8 trunc data pos = bindE (tx_require trunc data pos 1) (\<lambda>_. Ok (data ! pos, pos + 1))"

fun tx_varint_loop :: "nat \<Rightarrow> string \<Rightarrow> u8 list \<Rightarrow> nat \<Rightarrow> nat \<Rightarrow> nat \<Rightarrow> u64 \<Rightarrow> (u64 \<times> nat) result" where
  "tx_varint_loop 0 trunc data start pos shift v = Throw (Runtime_error ''miner-tx varint is too long'')"
| "tx_varint_loop (Suc n) trunc data start pos shift v =
    bindE (tx_read_u8 trunc data pos) (\<lambda>(byte, pos').
      if shift = 63 \<and> byte AND 0x7e \<noteq> 0 then Throw (Runtime_error ''miner-tx varint overflows uint64'')
      else
        let v' = v OR push_bit shift (ucast (byte AND 0x7f)) in
        if byte AND 0x80 = 0
        then (if pos' - start \<noteq> encoded_varint_size v'
              then Throw (Runtime_error ''non-canonical miner-tx varint'')
              else Ok (v', pos'))
        else tx_varint_loop n trunc data start pos' (shift + 7) v')"

definition tx_read_varint :: "string \<Rightarrow> u8 list \<Rightarrow> nat \<Rightarrow> (u64 \<times> nat) result" where
  "tx_read_varint trunc data pos = tx_varint_loop 10 trunc data pos pos 0 0"

definition tx_skip :: "string \<Rightarrow> u8 list \<Rightarrow> nat \<Rightarrow> nat \<Rightarrow> nat result" where
  "tx_skip trunc data n pos = bindE (tx_require trunc data pos n) (\<lambda>_. Ok (pos + n))"

text \<open>\<open>size_t\<close> has 64 bits, so the check of the length against its maximum never fires.\<close>

definition tx_skip_blob :: "string \<Rightarrow> u8 list \<Rightarrow> nat \<Rightarrow> nat result" where
  "tx_skip_blob trunc data pos =
    bindE (tx_read_varint trunc data pos) (\<lambda>(n, pos). tx_skip trunc data (unat n) pos)"

definition tx_read_key :: "string \<Rightarrow> u8 list \<Rightarrow> nat \<Rightarrow> (zano_curve_key \<times> nat) result" where
  "tx_read_key trunc data pos =
    bindE (tx_require trunc data pos 32) (\<lambda>_. Ok (array_of (slice pos 32 data), pos + 32))"

abbreviation prefix_trunc :: string where
  "prefix_trunc \<equiv> ''truncated miner transaction prefix''"

section \<open>The key pair of the template\<close>

record tgc_key_pair =
  tgc_public_key :: zano_curve_key
  tgc_secret_key :: zano_curve_key

definition parse_tgc_keypair :: "json_tokener \<Rightarrow> string \<Rightarrow> tgc_key_pair result" where
  "parse_tgc_keypair tok json_text =
    (if json_text = [] then Throw (Runtime_error ''empty miner_tx_tgc JSON'')
     else case tok json_text of
       Some (Json_object members) \<Rightarrow>
         (case json_field members ''tx_key'' of
           Some (Json_string s) \<Rightarrow>
             bindE (hex_to_bytes (c_string s)) (\<lambda>bytes.
               if length bytes \<noteq> 64
               then Throw (Runtime_error ''miner_tx_tgc tx_key must be exactly 64 bytes'')
               else Ok \<lparr>tgc_public_key = array_of (take 32 bytes), tgc_secret_key = array_of (slice 32 32 bytes)\<rparr>)
         | _ \<Rightarrow> Throw (Runtime_error ''miner_tx_tgc has no string tx_key''))
     | _ \<Rightarrow> Throw (Runtime_error ''invalid miner_tx_tgc JSON''))"

section \<open>The key of the transaction\<close>

text \<open>One extra field; the key that has been found so far is threaded. The two parsers that look for the
  transaction key differ in two messages.\<close>

definition read_extra ::
  "string \<Rightarrow> string \<Rightarrow> string \<Rightarrow> u8 list \<Rightarrow> u8 \<Rightarrow> zano_curve_key option \<Rightarrow> nat \<Rightarrow> (zano_curve_key option \<times> nat) result"
where
  "read_extra trunc multiple unsupported data tag found pos =
    (if tag = 11 \<or> tag = 19 \<or> tag = 21
     then bindE (tx_skip_blob trunc data pos) (\<lambda>pos. Ok (found, pos))
     else if tag = 14 \<or> tag = 15 \<or> tag = 16 \<or> tag = 78
     then bindE (tx_read_varint trunc data pos) (\<lambda>(v, pos). Ok (found, pos))
     else if tag = 18
     then bindE (tx_read_varint trunc data pos) (\<lambda>(v, pos).
          bindE (tx_skip trunc data 32 pos) (\<lambda>pos.
          bindE (tx_read_varint trunc data pos) (\<lambda>(v, pos). Ok (found, pos))))
     else if tag = 22
     then (if found \<noteq> None then Throw (Runtime_error multiple)
           else bindE (tx_read_key trunc data pos) (\<lambda>(key, pos). Ok (Some key, pos)))
     else Throw (Runtime_error (unsupported @ decimal_of_nat (unat tag))))"

text \<open>The loop over the extra fields; the first argument is the number of fields left.\<close>

fun read_extras ::
  "nat \<Rightarrow> string \<Rightarrow> string \<Rightarrow> string \<Rightarrow> u8 list \<Rightarrow> zano_curve_key option \<Rightarrow> nat \<Rightarrow> (zano_curve_key option \<times> nat) result"
where
  "read_extras 0 trunc multiple unsupported data found pos = Ok (found, pos)"
| "read_extras (Suc n) trunc multiple unsupported data found pos =
    bindE (tx_read_u8 trunc data pos) (\<lambda>(tag, pos).
    bindE (read_extra trunc multiple unsupported data tag found pos) (\<lambda>(found, pos).
      read_extras n trunc multiple unsupported data found pos))"

definition parse_prefix_tx_public_key :: "u8 list \<Rightarrow> zano_curve_key result" where
  "parse_prefix_tx_public_key data =
    bindE (tx_read_varint prefix_trunc data 0) (\<lambda>(version, pos).
    if version \<noteq> 4 then Throw (Runtime_error ''unsupported miner transaction version'')
    else bindE (tx_read_varint prefix_trunc data pos) (\<lambda>(vins, pos).
    if vins \<noteq> 1 then Throw (Runtime_error ''current PoW miner transaction must have one input'')
    else bindE (tx_read_u8 prefix_trunc data pos) (\<lambda>(tag, pos).
    if tag \<noteq> 0 then Throw (Runtime_error ''current PoW miner transaction input is not txin_gen'')
    else bindE (tx_read_varint prefix_trunc data pos) (\<lambda>(height, pos).
    bindE (tx_read_varint prefix_trunc data pos) (\<lambda>(extras, pos).
    if extras > 1024 then Throw (Runtime_error ''miner transaction has unreasonable extra count'')
    else bindE (read_extras (unat extras) prefix_trunc ''miner transaction has multiple tx public keys''
        ''unsupported miner transaction extra tag: '' data None pos) (\<lambda>(found, pos).
      case found of
        None \<Rightarrow> Throw (Runtime_error ''miner transaction has no tx public key'')
      | Some key \<Rightarrow> Ok key))))))"

section \<open>The binding\<close>

datatype p2p_miner_tx_binding_status =
    Binding_verified
  | Binding_not_anchored
  | Binding_backend_unavailable
  | Binding_malformed_tgc
  | Binding_malformed_miner_tx_prefix
  | TgcKeyPairMismatch
  | PrefixPublicKeyMismatch

record p2p_miner_tx_binding_result =
  binding_status :: p2p_miner_tx_binding_status
  binding_tx_public_key :: zano_curve_key

definition verify_miner_tx_tgc_key_binding ::
  "('p, 's) zano_crypto \<Rightarrow> json_tokener \<Rightarrow> u8 list \<Rightarrow> string \<Rightarrow> p2p_miner_tx_binding_result"
where
  "verify_miner_tx_tgc_key_binding crv tok prefix tgc_json =
    (let result = \<lparr>binding_status = Binding_not_anchored, binding_tx_public_key = 0\<rparr> in
     case parse_tgc_keypair tok tgc_json of
       Inl e \<Rightarrow> result\<lparr>binding_status := Binding_malformed_tgc\<rparr>
     | Inr pair \<Rightarrow>
         (case parse_prefix_tx_public_key prefix of
           Inl e \<Rightarrow> result\<lparr>binding_status := Binding_malformed_miner_tx_prefix\<rparr>
         | Inr key \<Rightarrow>
             let result = result\<lparr>binding_tx_public_key := key\<rparr> in
             if \<not> zano_curve_backend_available crv
             then result\<lparr>binding_status := Binding_backend_unavailable\<rparr>
             else if \<not> zano_secret_key_matches_public crv (tgc_secret_key pair) (tgc_public_key pair)
             then result\<lparr>binding_status := TgcKeyPairMismatch\<rparr>
             else if tgc_public_key pair \<noteq> key
             then result\<lparr>binding_status := PrefixPublicKeyMismatch\<rparr>
             else result\<lparr>binding_status := Binding_verified\<rparr>))"

definition verify_p2p_mining_context_key_binding ::
  "('p, 's) zano_crypto \<Rightarrow> json_tokener \<Rightarrow> p2p_mining_context_proposal \<Rightarrow> p2p_mining_context_check_result \<Rightarrow>
    p2p_miner_tx_binding_result result"
where
  "verify_p2p_mining_context_key_binding crv tok p anchored =
    (let result = \<lparr>binding_status = Binding_not_anchored, binding_tx_public_key = 0\<rparr> in
     if check_status anchored \<noteq> AnchoredUnverifiedMinerTx then Ok result
     else bindE (p2p_mining_context_id tok p) (\<lambda>i.
       if check_proposal_id anchored \<noteq> i then Ok result
       else case derive_mining_header_work (pr_block_template_blob p) of
         Inl e \<Rightarrow> Ok (result\<lparr>binding_status := Binding_malformed_miner_tx_prefix\<rparr>)
       | Inr work \<Rightarrow>
           if header_hash work \<noteq> check_mining_header_hash anchored then Ok result
           else Ok (verify_miner_tx_tgc_key_binding crv tok (prefix_serialized (miner_tx_prefix work))
             (pr_miner_tx_tgc_json p))))"

definition p2p_miner_tx_binding_status_name :: "p2p_miner_tx_binding_status \<Rightarrow> string" where
  "p2p_miner_tx_binding_status_name status =
    (case status of
      Binding_verified \<Rightarrow> ''verified''
    | Binding_not_anchored \<Rightarrow> ''not-anchored''
    | Binding_backend_unavailable \<Rightarrow> ''backend-unavailable''
    | Binding_malformed_tgc \<Rightarrow> ''malformed-tgc''
    | Binding_malformed_miner_tx_prefix \<Rightarrow> ''malformed-miner-tx-prefix''
    | TgcKeyPairMismatch \<Rightarrow> ''tgc-keypair-mismatch''
    | PrefixPublicKeyMismatch \<Rightarrow> ''prefix-public-key-mismatch'')"

text \<open>A verified binding: the secret key of the template generates the key that the transaction carries.\<close>

lemma binding_verified_iff:
  "binding_status (verify_miner_tx_tgc_key_binding crv tok prefix tgc_json) = Binding_verified \<longleftrightarrow>
    (\<exists>pair. parse_tgc_keypair tok tgc_json = Ok pair \<and> have_zano_curve crv \<and>
      secret_key_to_public_key crv (tgc_secret_key pair) = Some (tgc_public_key pair) \<and>
      parse_prefix_tx_public_key prefix = Ok (tgc_public_key pair))"
  by (auto simp: verify_miner_tx_tgc_key_binding_def zano_curve_backend_available_def
      zano_secret_key_matches_public_def Let_def split: sum.split option.split)

end
