(* ===== verification/Payout_Policy.thy ===== *)
theory Payout_Policy
  imports Miner_Tx_Binding Pplns_Coinbase Zano_Address
begin

text \<open>
  \<open>src/src/p2p_payout_policy.cpp\<close>: the check that the outputs of a miner transaction pay what they must.
  The three policies share their beginning: the key binding, the reward, the outputs of the transaction
  and the openings that come with the template. They differ in the destination: one payout address, the
  destinations of a payout plan, or none for work from before the first share.
\<close>

section \<open>Outputs\<close>

definition kCurrentMinerMinOutputs :: nat where
  "kCurrentMinerMinOutputs = 2"

definition kCurrentMinerMaxOutputs :: nat where
  "kCurrentMinerMaxOutputs = 32"

definition kNativeCoinAssetId1Div8 :: zano_curve_key where
  "kNativeCoinAssetId1Div8 = array_of
    [0x74, 0xc3, 0x2d, 0x3e, 0xaa, 0xfa, 0xfc, 0x62, 0x3b, 0xf4, 0x83, 0xe8, 0x58, 0xd4, 0x2e, 0x8b,
     0xf4, 0xec, 0x7d, 0xf0, 0x64, 0xad, 0xa2, 0xe3, 0x49, 0x34, 0x46, 0x9c, 0xff, 0x6b, 0x62, 0x68]"

definition skip_current_extra :: "u8 list \<Rightarrow> u8 \<Rightarrow> nat \<Rightarrow> nat result" where
  "skip_current_extra data tag pos =
    (if tag = 11 \<or> tag = 19 \<or> tag = 21 then tx_skip_blob prefix_trunc data pos
     else if tag = 14 \<or> tag = 15 \<or> tag = 16 \<or> tag = 78
     then bindE (tx_read_varint prefix_trunc data pos) (\<lambda>(v, pos). Ok pos)
     else if tag = 18
     then bindE (tx_read_varint prefix_trunc data pos) (\<lambda>(v, pos).
          bindE (tx_skip prefix_trunc data 32 pos) (\<lambda>pos.
          bindE (tx_read_varint prefix_trunc data pos) (\<lambda>(v, pos). Ok pos)))
     else if tag = 22 then tx_skip prefix_trunc data 32 pos
     else Throw (Runtime_error ''unsupported current miner-tx extra tag''))"

fun skip_extras :: "nat \<Rightarrow> u8 list \<Rightarrow> nat \<Rightarrow> nat result" where
  "skip_extras 0 data pos = Ok pos"
| "skip_extras (Suc n) data pos =
    bindE (tx_read_u8 prefix_trunc data pos) (\<lambda>(tag, pos).
    bindE (skip_current_extra data tag pos) (skip_extras n data))"

record parsed_payout_output =
  po_stealth_address :: zano_curve_key
  po_concealing_point :: zano_curve_key
  po_amount_commitment :: zano_curve_key
  po_blinded_asset_id :: zano_curve_key

definition read_payout_output :: "u8 list \<Rightarrow> nat \<Rightarrow> (parsed_payout_output \<times> nat) result" where
  "read_payout_output data pos =
    bindE (tx_read_u8 prefix_trunc data pos) (\<lambda>(tag, pos).
    if tag \<noteq> 63 then Throw (Runtime_error ''current miner output is not tx_out_zarcanum'')
    else bindE (tx_read_u8 prefix_trunc data pos) (\<lambda>(version, pos).
    if version \<noteq> 0 then Throw (Runtime_error ''unsupported tx_out_zarcanum version'')
    else bindE (tx_read_key prefix_trunc data pos) (\<lambda>(stealth, pos).
    bindE (tx_read_key prefix_trunc data pos) (\<lambda>(concealing, pos).
    bindE (tx_read_key prefix_trunc data pos) (\<lambda>(commitment, pos).
    bindE (tx_read_key prefix_trunc data pos) (\<lambda>(asset, pos).
    bindE (tx_skip prefix_trunc data (8 + 8 + 1) pos) (\<lambda>pos.
      Ok (\<lparr>po_stealth_address = stealth, po_concealing_point = concealing, po_amount_commitment = commitment,
        po_blinded_asset_id = asset\<rparr>, pos))))))))"

fun read_payout_outputs :: "nat \<Rightarrow> u8 list \<Rightarrow> nat \<Rightarrow> (parsed_payout_output list \<times> nat) result" where
  "read_payout_outputs 0 data pos = Ok ([], pos)"
| "read_payout_outputs (Suc n) data pos =
    bindE (read_payout_output data pos) (\<lambda>(out, pos).
    bindE (read_payout_outputs n data pos) (\<lambda>(outs, pos). Ok (out # outs, pos)))"

definition parse_current_outputs :: "u8 list \<Rightarrow> parsed_payout_output list result" where
  "parse_current_outputs data =
    bindE (tx_read_varint prefix_trunc data 0) (\<lambda>(version, pos).
    if version \<noteq> 4 then Throw (Runtime_error ''unsupported miner transaction version'')
    else bindE (tx_read_varint prefix_trunc data pos) (\<lambda>(vins, pos).
    if vins \<noteq> 1 then Throw (Runtime_error ''current PoW miner transaction must have txin_gen'')
    else bindE (tx_read_u8 prefix_trunc data pos) (\<lambda>(tag, pos).
    if tag \<noteq> 0 then Throw (Runtime_error ''current PoW miner transaction must have txin_gen'')
    else bindE (tx_read_varint prefix_trunc data pos) (\<lambda>(height, pos).
    bindE (tx_read_varint prefix_trunc data pos) (\<lambda>(extras, pos).
    if extras > 1024 then Throw (Runtime_error ''unreasonable miner transaction extra count'')
    else bindE (skip_extras (unat extras) data pos) (\<lambda>pos.
    bindE (tx_read_varint prefix_trunc data pos) (\<lambda>(n, pos).
    if unat n > kCurrentMinerMaxOutputs then Throw (Runtime_error ''miner transaction has too many outputs'')
    else bindE (read_payout_outputs (unat n) data pos) (\<lambda>(outs, pos).
    bindE (tx_read_u8 prefix_trunc data pos) (\<lambda>(hardfork, pos).
    if hardfork \<noteq> 6 \<or> pos \<noteq> length data
    then Throw (Runtime_error ''unexpected current miner hardfork/trailing data'')
    else Ok outs)))))))))"

section \<open>Openings\<close>

definition parse_tgc_json :: "json_tokener \<Rightarrow> string \<Rightarrow> (string \<times> json) list result" where
  "parse_tgc_json tok json_text =
    (if json_text = [] \<or> length json_text > 2 ^ 31 - 1
     then Throw (Runtime_error ''invalid miner_tx_tgc JSON size'')
     else case tok json_text of
       Some (Json_object members) \<Rightarrow> Ok members
     | _ \<Rightarrow> Throw (Runtime_error ''invalid miner_tx_tgc JSON''))"

definition get_string_field :: "(string \<times> json) list \<Rightarrow> string \<Rightarrow> string result" where
  "get_string_field members name =
    (case json_field members name of
      Some (Json_string s) \<Rightarrow> Ok (c_string s)
    | _ \<Rightarrow> Throw (Runtime_error (''missing TGC string field: '' @ name)))"

definition is_blank :: "char \<Rightarrow> bool" where
  "is_blank c \<longleftrightarrow> c = CHR '' '' \<or> c = CHR 0x09"

text \<open>\<open>std::string_view::find\<close> of a character from a position on.\<close>

definition find_char :: "string \<Rightarrow> char \<Rightarrow> nat \<Rightarrow> nat option" where
  "find_char text c pos =
    (let n = length (takeWhile (\<lambda>d. d \<noteq> c) (drop pos text))
     in if pos + n < length text then Some (pos + n) else None)"

lemma find_char_ge: "find_char text c pos = Some i \<Longrightarrow> pos \<le> i"
  by (auto simp: find_char_def Let_def split: if_splits)

text \<open>\<open>std::string_view::substr\<close>.\<close>

definition substr :: "string \<Rightarrow> nat \<Rightarrow> nat \<Rightarrow> string" where
  "substr text pos n = take n (drop pos text)"

text \<open>The loop that moves \<open>end\<close> back over blanks, but not before \<open>pos\<close>.\<close>

definition trim_end :: "string \<Rightarrow> nat \<Rightarrow> nat \<Rightarrow> nat" where
  "trim_end text pos finish = pos + length (dropWhile is_blank (rev (substr text pos (finish - pos))))"

function parse_scalars :: "string \<Rightarrow> nat \<Rightarrow> zano_curve_key list result" where
  "parse_scalars text pos0 =
    (if \<not> pos0 < length text then Ok []
     else
       let pos = pos0 + length (takeWhile is_blank (drop pos0 text)) in
       if pos = length text then Ok []
       else
         let comma = find_char text CHR '','' pos;
             finish = trim_end text pos (case comma of None \<Rightarrow> length text | Some i \<Rightarrow> i)
         in if finish = pos then Throw (Runtime_error ''empty scalar in TGC list'')
            else
              bindE (hex_to_bytes (substr text pos (finish - pos))) (\<lambda>bytes.
              if length bytes \<noteq> 32 then Throw (Runtime_error ''TGC scalar must be exactly 32 bytes'')
              else bindE (parse_scalars text (case comma of None \<Rightarrow> length text | Some i \<Rightarrow> i + 1)) (\<lambda>rest.
                Ok (array_of bytes # rest))))"
  by pat_completeness auto
termination
  by (relation "measure (\<lambda>(text, pos). length text - pos)")
    (auto split: option.split dest!: find_char_ge)

declare parse_scalars.simps [simp del]

definition parse_scalar_list :: "string \<Rightarrow> zano_curve_key list result" where
  "parse_scalar_list text = parse_scalars text 0"

definition scalar_to_u64 :: "zano_curve_key \<Rightarrow> u64 result" where
  "scalar_to_u64 scalar =
    (if list_ex (\<lambda>b. b \<noteq> 0) (drop 8 (bytes_of scalar))
     then Throw (Runtime_error ''TGC amount does not fit uint64'')
     else Ok (fold (\<lambda>i v. v OR push_bit (8 * i) (ucast (bytes_of scalar ! i))) [0..<8] 0))"

fun scalars_to_u64 :: "zano_curve_key list \<Rightarrow> u64 list result" where
  "scalars_to_u64 [] = Ok []"
| "scalars_to_u64 (scalar # scalars) =
    bindE (scalar_to_u64 scalar) (\<lambda>v. bindE (scalars_to_u64 scalars) (\<lambda>vs. Ok (v # vs)))"

record parsed_tgc_payout_data =
  tgc_tx_secret_key :: zano_curve_key
  tgc_amounts :: "u64 list"
  tgc_amount_blinding_masks :: "zano_curve_key list"
  tgc_asset_id_blinding_masks :: "zano_curve_key list"

definition parse_tgc_payout_data :: "json_tokener \<Rightarrow> string \<Rightarrow> parsed_tgc_payout_data result" where
  "parse_tgc_payout_data tok json_text =
    bindE (parse_tgc_json tok json_text) (\<lambda>root.
    bindE (get_string_field root ''tx_key'') (\<lambda>tx_key.
    bindE (hex_to_bytes tx_key) (\<lambda>bytes.
    if length bytes \<noteq> 64 then Throw (Runtime_error ''TGC tx_key must be exactly 64 bytes'')
    else bindE (get_string_field root ''amounts'') (\<lambda>amounts_text.
    bindE (parse_scalar_list amounts_text) (\<lambda>amount_scalars.
    bindE (scalars_to_u64 amount_scalars) (\<lambda>amounts.
    bindE (get_string_field root ''amount_blinding_masks'') (\<lambda>masks_text.
    bindE (parse_scalar_list masks_text) (\<lambda>masks.
    bindE (get_string_field root ''asset_id_blinding_masks'') (\<lambda>asset_text.
    bindE (parse_scalar_list asset_text) (\<lambda>asset_masks.
      Ok \<lparr>tgc_tx_secret_key = array_of (slice 32 32 bytes), tgc_amounts = amounts,
        tgc_amount_blinding_masks = masks, tgc_asset_id_blinding_masks = asset_masks\<rparr>))))))))))"

definition is_zero_key :: "zano_curve_key \<Rightarrow> bool" where
  "is_zero_key key = list_all (\<lambda>b. b = 0) (bytes_of key)"

section \<open>The common part of the policies\<close>

datatype p2p_payout_policy_status =
    Policy_verified
  | Policy_not_anchored
  | KeyBindingFailed
  | Policy_backend_unavailable
  | Policy_malformed_tgc
  | Policy_malformed_miner_tx_prefix
  | InvalidOutputCount
  | RewardMetadataMismatch
  | TgcOutputCountMismatch
  | NonNativeAsset
  | DestinationMismatch
  | AmountCommitmentMismatch
  | Policy_reward_sum_mismatch
  | PayoutPlanMismatch

record p2p_payout_policy_result =
  policy_status :: p2p_payout_policy_status
  policy_binding_status :: p2p_miner_tx_binding_status
  policy_output_count :: nat
  policy_verified_reward :: u64

definition policy_start :: p2p_payout_policy_result where
  "policy_start = \<lparr>policy_status = Policy_malformed_miner_tx_prefix,
    policy_binding_status = Binding_malformed_miner_tx_prefix, policy_output_count = 0, policy_verified_reward = 0\<rparr>"

text \<open>Up to the reward check. \<open>Inl\<close> is an early return. The fee is not used: it is burnt.\<close>

definition payout_gate ::
  "('p, 's) zano_crypto \<Rightarrow> json_tokener \<Rightarrow> u8 list \<Rightarrow> string \<Rightarrow> u64 \<Rightarrow> u64 \<Rightarrow>
    p2p_payout_policy_result + p2p_payout_policy_result"
where
  "payout_gate crv tok prefix tgc_json reward_without_fee reward =
    (let binding = verify_miner_tx_tgc_key_binding crv tok prefix tgc_json;
         result = policy_start\<lparr>policy_binding_status := binding_status binding\<rparr>
     in if binding_status binding \<noteq> Binding_verified
        then Inl (result\<lparr>policy_status :=
          (if binding_status binding = Binding_backend_unavailable then Policy_backend_unavailable else KeyBindingFailed)\<rparr>)
        else if \<not> zano_curve_backend_available crv
        then Inl (result\<lparr>policy_status := Policy_backend_unavailable\<rparr>)
        else if reward_without_fee = 0 \<or> reward \<noteq> reward_without_fee
        then Inl (result\<lparr>policy_status := RewardMetadataMismatch\<rparr>)
        else Inr result)"

text \<open>The outputs and their openings.\<close>

definition payout_inputs ::
  "json_tokener \<Rightarrow> u8 list \<Rightarrow> string \<Rightarrow> p2p_payout_policy_result \<Rightarrow>
    p2p_payout_policy_result + p2p_payout_policy_result \<times> parsed_payout_output list \<times> parsed_tgc_payout_data"
where
  "payout_inputs tok prefix tgc_json result =
    (case parse_current_outputs prefix of
      Inl e \<Rightarrow> Inl (result\<lparr>policy_status := Policy_malformed_miner_tx_prefix\<rparr>)
    | Inr outputs \<Rightarrow>
        let result = result\<lparr>policy_output_count := length outputs\<rparr> in
        if length outputs < kCurrentMinerMinOutputs \<or> length outputs > kCurrentMinerMaxOutputs
        then Inl (result\<lparr>policy_status := InvalidOutputCount\<rparr>)
        else (case parse_tgc_payout_data tok tgc_json of
          Inl e \<Rightarrow> Inl (result\<lparr>policy_status := Policy_malformed_tgc\<rparr>)
        | Inr tgc \<Rightarrow>
            if length (tgc_amounts tgc) \<noteq> length outputs \<or> length (tgc_amount_blinding_masks tgc) \<noteq> length outputs \<or>
              length (tgc_asset_id_blinding_masks tgc) \<noteq> length outputs
            then Inl (result\<lparr>policy_status := TgcOutputCountMismatch\<rparr>)
            else Inr (result, outputs, tgc)))"

text \<open>A loop over the outputs that stops with a status.\<close>

fun for_outputs ::
  "(nat \<Rightarrow> parsed_payout_output \<Rightarrow> 'a \<Rightarrow> p2p_payout_policy_status + 'a) \<Rightarrow> nat \<Rightarrow> parsed_payout_output list \<Rightarrow> 'a \<Rightarrow>
    p2p_payout_policy_status + 'a"
where
  "for_outputs body i [] acc = Inr acc"
| "for_outputs body i (out # outs) acc =
    (case body i out acc of Inl status \<Rightarrow> Inl status | Inr acc \<Rightarrow> for_outputs body (i + 1) outs acc)"

section \<open>One destination\<close>

definition single_output ::
  "('p, 's) zano_crypto \<Rightarrow> parsed_tgc_payout_data \<Rightarrow> p2p_payout_address \<Rightarrow> nat \<Rightarrow> parsed_payout_output \<Rightarrow> u64 \<Rightarrow>
    p2p_payout_policy_status + u64"
where
  "single_output crv tgc expected_payout i out reward_sum =
    (if po_blinded_asset_id out \<noteq> kNativeCoinAssetId1Div8 \<or> \<not> is_zero_key (tgc_asset_id_blinding_masks tgc ! i)
     then Inl NonNativeAsset
     else if zano_derive_output_public_key crv (tgc_tx_secret_key tgc) (pa_spend_public_key expected_payout)
         (pa_view_public_key expected_payout) i \<noteq> Some (po_stealth_address out)
     then Inl DestinationMismatch
     else if \<not> zano_amount_commitment_matches crv (tgc_amounts tgc ! i) (tgc_amount_blinding_masks tgc ! i)
         (po_blinded_asset_id out) (po_amount_commitment out)
     then Inl AmountCommitmentMismatch
     else if tgc_amounts tgc ! i > (- 1) - reward_sum
     then Inl Policy_reward_sum_mismatch
     else Inr (reward_sum + tgc_amounts tgc ! i))"

text \<open>The end of the single and the bootstrap policies: the sum must be the reward.\<close>

definition check_reward_sum :: "u64 \<Rightarrow> p2p_payout_policy_result \<Rightarrow> p2p_payout_policy_status + u64 \<Rightarrow> p2p_payout_policy_result" where
  "check_reward_sum reward result loop =
    (case loop of
      Inl status \<Rightarrow> result\<lparr>policy_status := status\<rparr>
    | Inr reward_sum \<Rightarrow>
        let result = result\<lparr>policy_verified_reward := reward_sum\<rparr> in
        if reward_sum \<noteq> reward then result\<lparr>policy_status := Policy_reward_sum_mismatch\<rparr>
        else result\<lparr>policy_status := Policy_verified\<rparr>)"

definition verify_miner_tx_payout_policy ::
  "('p, 's) zano_crypto \<Rightarrow> json_tokener \<Rightarrow> u8 list \<Rightarrow> string \<Rightarrow> u64 \<Rightarrow> u64 \<Rightarrow> u64 \<Rightarrow> p2p_payout_address \<Rightarrow>
    p2p_payout_policy_result"
where
  "verify_miner_tx_payout_policy crv tok prefix tgc_json reward_without_fee reward txs_fee expected_payout =
    (case payout_gate crv tok prefix tgc_json reward_without_fee reward of
      Inl result \<Rightarrow> result
    | Inr result \<Rightarrow>
        (case payout_inputs tok prefix tgc_json result of
          Inl result \<Rightarrow> result
        | Inr (result, outputs, tgc) \<Rightarrow>
            check_reward_sum reward result (for_outputs (single_output crv tgc expected_payout) 0 outputs 0)))"

section \<open>Work from before the first share\<close>

definition bootstrap_output ::
  "('p, 's) zano_crypto \<Rightarrow> parsed_tgc_payout_data \<Rightarrow> nat \<Rightarrow> parsed_payout_output \<Rightarrow> u64 \<Rightarrow>
    p2p_payout_policy_status + u64"
where
  "bootstrap_output crv tgc i out reward_sum =
    (if po_blinded_asset_id out \<noteq> kNativeCoinAssetId1Div8 \<or> \<not> is_zero_key (tgc_asset_id_blinding_masks tgc ! i)
     then Inl NonNativeAsset
     else if \<not> zano_amount_commitment_matches crv (tgc_amounts tgc ! i) (tgc_amount_blinding_masks tgc ! i)
         (po_blinded_asset_id out) (po_amount_commitment out)
     then Inl AmountCommitmentMismatch
     else if tgc_amounts tgc ! i > (- 1) - reward_sum
     then Inl Policy_reward_sum_mismatch
     else Inr (reward_sum + tgc_amounts tgc ! i))"

definition verify_miner_tx_bootstrap_policy ::
  "('p, 's) zano_crypto \<Rightarrow> json_tokener \<Rightarrow> u8 list \<Rightarrow> string \<Rightarrow> u64 \<Rightarrow> u64 \<Rightarrow> u64 \<Rightarrow> p2p_payout_policy_result"
where
  "verify_miner_tx_bootstrap_policy crv tok prefix tgc_json reward_without_fee reward txs_fee =
    (case payout_gate crv tok prefix tgc_json reward_without_fee reward of
      Inl result \<Rightarrow> result
    | Inr result \<Rightarrow>
        (case payout_inputs tok prefix tgc_json result of
          Inl result \<Rightarrow> result
        | Inr (result, outputs, tgc) \<Rightarrow>
            check_reward_sum reward result (for_outputs (bootstrap_output crv tgc) 0 outputs 0)))"

section \<open>A payout plan\<close>

text \<open>The loop that checks the plan itself: the payouts before the current one and the sum so far.\<close>

fun check_plan_destinations ::
  "payout_public_keys list \<Rightarrow> u64 \<Rightarrow> pplns_coinbase_destination list \<Rightarrow> u64 option"
where
  "check_plan_destinations seen expected_sum [] = Some expected_sum"
| "check_plan_destinations seen expected_sum (d # ds) =
    (if cd_amount d = 0 \<or> miner_id_from_payout (cd_payout d) \<noteq> cd_miner_id d \<or> cd_amount d > (- 1) - expected_sum
     then None
     else if list_ex (\<lambda>p. p = cd_payout d) seen then None
     else check_plan_destinations (seen @ [cd_payout d]) (expected_sum + cd_amount d) ds)"

definition check_expected_plan :: "u64 \<Rightarrow> pplns_coinbase_plan \<Rightarrow> bool" where
  "check_expected_plan reward plan \<longleftrightarrow>
    \<not> (plan_status plan \<noteq> Ready \<or> plan_reward_atomic plan \<noteq> reward \<or> plan_destinations plan = [] \<or>
       length (plan_destinations plan) > kCurrentMinerMaxOutputs) \<and>
    check_plan_destinations [] 0 (plan_destinations plan) = Some (plan_reward_atomic plan)"

text \<open>The loop over the destinations for one output: \<open>matched\<close> is \<open>None\<close> while it has the end index.\<close>

fun match_destination ::
  "('p, 's) zano_crypto \<Rightarrow> zano_curve_key \<Rightarrow> nat \<Rightarrow> zano_curve_key \<Rightarrow> nat \<Rightarrow> pplns_coinbase_destination list \<Rightarrow>
    nat option \<Rightarrow> p2p_payout_policy_status + nat option"
where
  "match_destination crv secret i stealth j [] matched = Inr matched"
| "match_destination crv secret i stealth j (d # ds) matched =
    (case zano_derive_output_public_key crv secret (spend_public_key (cd_payout d)) (view_public_key (cd_payout d)) i of
      None \<Rightarrow> Inl DestinationMismatch
    | Some expected \<Rightarrow>
        if expected = stealth
        then (if matched \<noteq> None then Inl PayoutPlanMismatch
              else match_destination crv secret i stealth (j + 1) ds (Some j))
        else match_destination crv secret i stealth (j + 1) ds matched)"

definition plan_output ::
  "('p, 's) zano_crypto \<Rightarrow> parsed_tgc_payout_data \<Rightarrow> pplns_coinbase_plan \<Rightarrow> nat \<Rightarrow> parsed_payout_output \<Rightarrow>
    u64 list \<times> u64 \<Rightarrow> p2p_payout_policy_status + u64 list \<times> u64"
where
  "plan_output crv tgc plan i out acc =
    (if po_blinded_asset_id out \<noteq> kNativeCoinAssetId1Div8 \<or> \<not> is_zero_key (tgc_asset_id_blinding_masks tgc ! i)
     then Inl NonNativeAsset
     else case match_destination crv (tgc_tx_secret_key tgc) i (po_stealth_address out) 0 (plan_destinations plan) None of
       Inl status \<Rightarrow> Inl status
     | Inr None \<Rightarrow> Inl DestinationMismatch
     | Inr (Some j) \<Rightarrow>
         if \<not> zano_amount_commitment_matches crv (tgc_amounts tgc ! i) (tgc_amount_blinding_masks tgc ! i)
             (po_blinded_asset_id out) (po_amount_commitment out)
         then Inl AmountCommitmentMismatch
         else if tgc_amounts tgc ! i > (- 1) - snd acc \<or> tgc_amounts tgc ! i > (- 1) - fst acc ! j
         then Inl Policy_reward_sum_mismatch
         else Inr ((fst acc)[j := fst acc ! j + tgc_amounts tgc ! i], snd acc + tgc_amounts tgc ! i))"

definition verify_miner_tx_plan_policy ::
  "('p, 's) zano_crypto \<Rightarrow> json_tokener \<Rightarrow> u8 list \<Rightarrow> string \<Rightarrow> u64 \<Rightarrow> u64 \<Rightarrow> u64 \<Rightarrow> pplns_coinbase_plan \<Rightarrow>
    p2p_payout_policy_result"
where
  "verify_miner_tx_plan_policy crv tok prefix tgc_json reward_without_fee reward txs_fee plan =
    (case payout_gate crv tok prefix tgc_json reward_without_fee reward of
      Inl result \<Rightarrow> result
    | Inr result \<Rightarrow>
        if \<not> check_expected_plan reward plan then result\<lparr>policy_status := PayoutPlanMismatch\<rparr>
        else (case payout_inputs tok prefix tgc_json result of
          Inl result \<Rightarrow> result
        | Inr (result, outputs, tgc) \<Rightarrow>
            (case for_outputs (plan_output crv tgc plan) 0 outputs (replicate (length (plan_destinations plan)) 0, 0) of
              Inl status \<Rightarrow> result\<lparr>policy_status := status\<rparr>
            | Inr (credited_amounts, reward_sum) \<Rightarrow>
                let result = result\<lparr>policy_verified_reward := reward_sum\<rparr> in
                if reward_sum \<noteq> reward then result\<lparr>policy_status := Policy_reward_sum_mismatch\<rparr>
                else if credited_amounts \<noteq> map cd_amount (plan_destinations plan)
                then result\<lparr>policy_status := PayoutPlanMismatch\<rparr>
                else result\<lparr>policy_status := Policy_verified\<rparr>)))"

section \<open>Anchored proposals\<close>

text \<open>The three policies for a proposal have the same frame around the call of the policy.\<close>

definition anchored_policy ::
  "json_tokener \<Rightarrow> p2p_mining_context_proposal \<Rightarrow> p2p_mining_context_check_result \<Rightarrow>
    (mining_header_work \<Rightarrow> p2p_payout_policy_result) \<Rightarrow> p2p_payout_policy_result result"
where
  "anchored_policy tok p anchored policy =
    (if check_status anchored \<noteq> AnchoredUnverifiedMinerTx
     then Ok (policy_start\<lparr>policy_status := Policy_not_anchored\<rparr>)
     else bindE (p2p_mining_context_id tok p) (\<lambda>i.
       if check_proposal_id anchored \<noteq> i then Ok (policy_start\<lparr>policy_status := Policy_not_anchored\<rparr>)
       else case derive_mining_header_work (pr_block_template_blob p) of
         Inl e \<Rightarrow> Ok (policy_start\<lparr>policy_status := Policy_malformed_miner_tx_prefix\<rparr>)
       | Inr work \<Rightarrow>
           if header_hash work \<noteq> check_mining_header_hash anchored
           then Ok (policy_start\<lparr>policy_status := Policy_not_anchored\<rparr>)
           else Ok (policy work)))"

definition verify_p2p_mining_context_payout_policy ::
  "('p, 's) zano_crypto \<Rightarrow> json_tokener \<Rightarrow> p2p_payout_address \<Rightarrow> p2p_mining_context_proposal \<Rightarrow>
    p2p_mining_context_check_result \<Rightarrow> p2p_payout_policy_result result"
where
  "verify_p2p_mining_context_payout_policy crv tok expected_payout p anchored =
    anchored_policy tok p anchored (\<lambda>work.
      verify_miner_tx_payout_policy crv tok (prefix_serialized (miner_tx_prefix work)) (pr_miner_tx_tgc_json p)
        (pr_block_reward_without_fee p) (pr_block_reward p) (pr_txs_fee p) expected_payout)"

definition verify_p2p_mining_context_bootstrap_payout_policy ::
  "('p, 's) zano_crypto \<Rightarrow> json_tokener \<Rightarrow> p2p_mining_context_proposal \<Rightarrow>
    p2p_mining_context_check_result \<Rightarrow> p2p_payout_policy_result result"
where
  "verify_p2p_mining_context_bootstrap_payout_policy crv tok p anchored =
    anchored_policy tok p anchored (\<lambda>work.
      verify_miner_tx_bootstrap_policy crv tok (prefix_serialized (miner_tx_prefix work)) (pr_miner_tx_tgc_json p)
        (pr_block_reward_without_fee p) (pr_block_reward p) (pr_txs_fee p))"

definition verify_p2p_mining_context_plan_policy ::
  "('p, 's) zano_crypto \<Rightarrow> json_tokener \<Rightarrow> pplns_coinbase_plan \<Rightarrow> p2p_mining_context_proposal \<Rightarrow>
    p2p_mining_context_check_result \<Rightarrow> p2p_payout_policy_result result"
where
  "verify_p2p_mining_context_plan_policy crv tok plan p anchored =
    anchored_policy tok p anchored (\<lambda>work.
      verify_miner_tx_plan_policy crv tok (prefix_serialized (miner_tx_prefix work)) (pr_miner_tx_tgc_json p)
        (pr_block_reward_without_fee p) (pr_block_reward p) (pr_txs_fee p) plan)"

definition p2p_payout_policy_status_name :: "p2p_payout_policy_status \<Rightarrow> string" where
  "p2p_payout_policy_status_name status =
    (case status of
      Policy_verified \<Rightarrow> ''verified''
    | Policy_not_anchored \<Rightarrow> ''not-anchored''
    | KeyBindingFailed \<Rightarrow> ''key-binding-failed''
    | Policy_backend_unavailable \<Rightarrow> ''backend-unavailable''
    | Policy_malformed_tgc \<Rightarrow> ''malformed-tgc''
    | Policy_malformed_miner_tx_prefix \<Rightarrow> ''malformed-miner-tx-prefix''
    | InvalidOutputCount \<Rightarrow> ''invalid-output-count''
    | RewardMetadataMismatch \<Rightarrow> ''reward-metadata-mismatch''
    | TgcOutputCountMismatch \<Rightarrow> ''tgc-output-count-mismatch''
    | NonNativeAsset \<Rightarrow> ''non-native-asset''
    | DestinationMismatch \<Rightarrow> ''destination-mismatch''
    | AmountCommitmentMismatch \<Rightarrow> ''amount-commitment-mismatch''
    | Policy_reward_sum_mismatch \<Rightarrow> ''reward-sum-mismatch''
    | PayoutPlanMismatch \<Rightarrow> ''payout-plan-mismatch'')"

end
