(* ===== verification/Sample_Context.thy ===== *)
theory Sample_Context
  imports Mining_Context
begin

text \<open>
  A small block template that passes the parsers: one input, a transaction key, two outputs of the
  native coin and proofs of the right shape, all keys zero. The witnesses of the trust properties use it.
\<close>

definition native_asset_bytes :: "u8 list" where
  "native_asset_bytes =
    [0x74, 0xc3, 0x2d, 0x3e, 0xaa, 0xfa, 0xfc, 0x62, 0x3b, 0xf4, 0x83, 0xe8, 0x58, 0xd4, 0x2e, 0x8b,
     0xf4, 0xec, 0x7d, 0xf0, 0x64, 0xad, 0xa2, 0xe3, 0x49, 0x34, 0x46, 0x9c, 0xff, 0x6b, 0x62, 0x68]"

definition sample_output :: "u8 list" where
  "sample_output = [63, 0] @ replicate 96 0 @ native_asset_bytes @ replicate 17 0"

definition sample_prefix :: "u8 list" where
  "sample_prefix = [4, 1, 0, 5, 1, 22] @ replicate 32 0 @ [2] @ sample_output @ sample_output @ [6]"

definition sample_suffix :: "u8 list" where
  "sample_suffix = [0, 0, 2, 47, 7] @ replicate 224 0 @ [7] @ replicate 224 0 @ replicate 192 0 @
    [2] @ replicate 64 0 @ [2] @ replicate 64 0 @ [2] @ replicate 64 0 @ replicate 32 0 @ [48] @ replicate 96 0 @ [0]"

definition sample_header :: "u8 list" where
  "sample_header = [1] @ replicate 8 0 @ replicate 32 1 @ [0, 0, 0]"

definition sample_blob :: "u8 list" where
  "sample_blob = sample_header @ sample_prefix @ sample_suffix"

lemma sample_lengths:
  "length sample_output = 147" "length sample_prefix = 334" "length sample_suffix = 971"
  "length sample_header = 44" "length sample_blob = 1349"
  by (simp_all add: sample_output_def sample_prefix_def sample_suffix_def sample_header_def sample_blob_def
      native_asset_bytes_def)

section \<open>Cursors\<close>

lemma cursor_u8_at: "pos < length data \<Longrightarrow> cursor_read_u8 data pos = Ok (data ! pos, Suc pos)"
  by (simp add: cursor_read_u8_def cursor_require_def)

lemma cursor_skip_at: "pos + n \<le> length data \<Longrightarrow> cursor_skip data pos n = Ok (pos + n)"
  by (simp add: cursor_skip_def cursor_require_def)

lemma small_byte:
  assumes "(b :: u8) < 0x80"
  shows "b AND 0x80 = 0" "b AND 0x7f = b"
proof -
  have b: "unat b < 128" using assms by (simp add: word_less_nat_alt)
  have "b AND mask 7 = b"
    using b by (simp add: take_bit_eq_mask [symmetric] word_unat_eq_iff unsigned_take_bit_eq take_bit_nat_eq_self)
  then show "b AND 0x7f = b" by (simp add: mask_eq_exp_minus_1)
  have "b AND 0x80 = (b AND 0x7f) AND 0x80" using \<open>b AND 0x7f = b\<close> by simp
  also have "\<dots> = 0" by (simp add: and.assoc)
  finally show "b AND 0x80 = 0" .
qed

lemma cursor_varint_at:
  assumes "pos < length data" "data ! pos < 0x80"
  shows "cursor_read_varint data pos = Ok (ucast (data ! pos), Suc pos)"
proof -
  have "cursor_read_varint data pos = cursor_varint_loop (Suc 9) data pos 0 0"
    by (simp add: cursor_read_varint_def)
  also have "\<dots> = Ok (ucast (data ! pos), Suc pos)"
    unfolding cursor_varint_loop.simps using assms(1) small_byte [OF assms(2)] by (simp add: cursor_u8_at)
  finally show ?thesis .
qed

lemma read_count_at:
  assumes "pos < length data" "data ! pos < 0x80"
  shows "read_count data pos = Ok (ucast (data ! pos), Suc pos)"
proof -
  have "\<not> 0x80 \<le> (ucast (data ! pos) :: u64)"
    using assms(2) by (simp add: word_le_nat_alt word_less_nat_alt unsigned_ucast_eq take_bit_nat_eq_self)
  then have "encoded_varint_size (ucast (data ! pos)) = 1" by (simp add: encoded_varint_size.simps)
  then show ?thesis by (simp add: read_count_def cursor_varint_at [OF assms])
qed

section \<open>The template parses\<close>

lemmas sample_parts = sample_blob_def sample_header_def sample_prefix_def sample_suffix_def sample_output_def
  native_asset_bytes_def

lemma sample_header_parses:
  "parse_pow_block_header sample_blob =
    Ok \<lparr>header_serialized_size = 44, header_serialized = fold (\<lambda>i bytes. bytes[i := 0]) [1..<9] (take 44 sample_blob)\<rparr>"
proof -
  have b: "sample_blob ! 41 = 0" "sample_blob ! 42 = 0" "sample_blob ! 43 = 0"
    by (simp_all add: sample_parts nth_append)
  show ?thesis
    by (simp add: parse_pow_block_header_def cursor_u8_at cursor_skip_at cursor_varint_at sample_lengths b)
qed

lemma sample_prefix_parses:
  "parse_hf6_miner_tx_prefix (sample_prefix @ rest) =
    Ok \<lparr>miner_tx_version = 4, hardfork_id = 6, vin_count = 1, extra_count = 1, vout_count = 2,
      prefix_serialized_size = 334, prefix_serialized = sample_prefix, prefix_hash = cn_fast_hash sample_prefix\<rparr>"
proof -
  let ?d = "sample_prefix @ rest"
  have b: "?d ! 0 = 4" "?d ! 1 = 1" "?d ! 2 = 0" "?d ! 3 = 5" "?d ! 4 = 1" "?d ! 5 = 22" "?d ! 38 = 2"
    "?d ! 39 = 63" "?d ! 40 = 0" "?d ! 186 = 63" "?d ! 187 = 0" "?d ! 333 = 6"
    by (simp_all add: sample_parts nth_append)
  have len: "length ?d \<ge> 334" by (simp add: sample_lengths)
  have two: "cursor_repeat 2 item pos = bindE (item pos) (cursor_repeat (Suc 0) item)" for item pos
    unfolding numeral_2_eq_2 cursor_repeat.simps ..
  have suc: "Suc (Suc 0) = 2" by simp
  show ?thesis
    using len b
    by (simp add: parse_hf6_miner_tx_prefix_def cursor_u8_at cursor_skip_at cursor_varint_at
        skip_current_miner_input_def skip_tagged_def skip_current_coinbase_extra_def
        skip_current_coinbase_output_def two suc sample_lengths del: append_assoc)
qed

lemma sample_trailer_parses:
  "parse_hf6_tx_hash_trailer sample_blob 378 =
    Ok \<lparr>trailer_serialized_offset = 1348, trailer_serialized_size = 1, trailer_hashes = []\<rparr>"
proof -
  let ?d = "sample_blob"
  have b: "?d ! 378 = 0" "?d ! 379 = 0" "?d ! 380 = 2" "?d ! 381 = 47" "?d ! 382 = 7" "?d ! 607 = 7"
    "?d ! 1024 = 2" "?d ! 1089 = 2" "?d ! 1154 = 2" "?d ! 1251 = 48" "?d ! 1348 = 0"
    by (simp_all add: sample_parts nth_append)
  have rounds: "range_rounds (Suc 0) 2 6 = 7"
    by (simp add: range_rounds.simps)
  show ?thesis
    by (simp add: parse_hf6_tx_hash_trailer_def check_proof_shape_def skip_range_proof_def skip_keys_def
        cursor_u8_at cursor_skip_at read_count_at sample_lengths b rounds)
qed

definition sample_work :: mining_header_work where
  "sample_work = projr (derive_mining_header_work sample_blob)"

lemma sample_work_derived:
  "derive_mining_header_work sample_blob = Ok sample_work"
  "header_serialized_size (block_header sample_work) = 44"
  "prefix_serialized_size (miner_tx_prefix sample_work) = 334"
  "prefix_serialized (miner_tx_prefix sample_work) = sample_prefix"
  "prefix_hash (miner_tx_prefix sample_work) = cn_fast_hash sample_prefix"
  "miner_tx_version (miner_tx_prefix sample_work) = 4" "hardfork_id (miner_tx_prefix sample_work) = 6"
  "trailer_serialized_offset (tx_hashes sample_work) = 1348"
  "trailer_hashes (tx_hashes sample_work) = []"
proof -
  have d: "drop 44 sample_blob = sample_prefix @ sample_suffix"
    by (simp add: sample_blob_def sample_lengths)
  obtain work where w: "derive_mining_header_work sample_blob = Ok work"
    "block_header work = projr (parse_pow_block_header sample_blob)"
    "miner_tx_prefix work = projr (parse_hf6_miner_tx_prefix (sample_prefix @ sample_suffix))"
    "tx_hashes work = \<lparr>trailer_serialized_offset = 1348, trailer_serialized_size = 1, trailer_hashes = []\<rparr>"
    by (simp add: derive_mining_header_work_def sample_header_parses d sample_prefix_parses
        sample_trailer_parses make_hashing_blob_def Let_def)
  then show "derive_mining_header_work sample_blob = Ok sample_work" by (simp add: sample_work_def)
  with w have "sample_work = work" by simp
  with w show "header_serialized_size (block_header sample_work) = 44"
    "prefix_serialized_size (miner_tx_prefix sample_work) = 334"
    "prefix_serialized (miner_tx_prefix sample_work) = sample_prefix"
    "prefix_hash (miner_tx_prefix sample_work) = cn_fast_hash sample_prefix"
    "miner_tx_version (miner_tx_prefix sample_work) = 4" "hardfork_id (miner_tx_prefix sample_work) = 6"
    "trailer_serialized_offset (tx_hashes sample_work) = 1348"
    "trailer_hashes (tx_hashes sample_work) = []"
    by (simp_all add: sample_header_parses sample_prefix_parses)
qed

section \<open>The proposal\<close>

text \<open>A JSON library that reads every text as the same object.\<close>

definition sample_scalar :: "u8 \<Rightarrow> string" where
  "sample_scalar b = bytes_to_hex (b # replicate 31 0)"

definition sample_tok :: json_tokener where
  "sample_tok text = Some (Json_object
    [(''tx_key'', Json_string (bytes_to_hex (replicate 64 0))),
     (''amounts'', Json_string (sample_scalar 3 @ '','' @ sample_scalar 4)),
     (''amount_blinding_masks'', Json_string (sample_scalar 0 @ '','' @ sample_scalar 0)),
     (''asset_id_blinding_masks'', Json_string (sample_scalar 0 @ '','' @ sample_scalar 0))])"

definition sample_prev :: hash256 where
  "sample_prev = array_of (replicate 32 1)"

lemma sample_prev_nonzero [simp]: "sample_prev \<noteq> 0"
  by (simp add: sample_prev_def byte_array_eq_iff)

definition sample_proposal :: p2p_mining_context_proposal where
  "sample_proposal = \<lparr>pr_version = 1, pr_zano_height = 5, pr_prev_hash = sample_prev, pr_network_difficulty = array_of_nat 9,
    pr_seed = 0, pr_block_reward_without_fee = 7, pr_block_reward = 7, pr_txs_fee = 0,
    pr_block_template_blob = sample_blob, pr_miner_tx_tgc_json = ''x''\<rparr>"

lemma sample_tgc_valid: "require_valid_tgc_json sample_tok ''x'' = Ok ()"
proof -
  have zeros: "bytes_to_hex (replicate 64 0) = replicate 128 CHR ''0''" by code_simp
  have "c_string (replicate 128 CHR ''0'') = replicate 128 CHR ''0''"
    by (simp add: c_string_def takeWhile_eq_all_conv)
  moreover have "list_all is_xdigit (replicate 128 CHR ''0'')"
    by (simp add: list_all_iff is_xdigit_def)
  ultimately show ?thesis
    by (simp add: require_valid_tgc_json_def sample_tok_def json_field_def zeros)
qed

lemma sample_serializable: "serializable_proposal sample_tok sample_proposal"
proof -
  have "sample_blob \<noteq> []" using sample_lengths(5) by auto
  moreover have "(array_of_nat 9 :: difficulty128) \<noteq> 0"
    by (simp add: arr_val_eq_iff [symmetric] arr_val_array_of_nat)
  ultimately show ?thesis
    by (simp add: serializable_proposal_def sample_proposal_def sample_lengths sample_tgc_valid kP2pMaxPayloadSize_def)
qed

lemma ctx_varint_at:
  assumes "pos < length data" "data ! pos < 0x80"
  shows "ctx_read_varint data pos = Ok (ucast (data ! pos), Suc pos)"
proof -
  have "\<not> 0x80 \<le> (ucast (data ! pos) :: u64)"
    using assms(2) by (simp add: word_le_nat_alt word_less_nat_alt unsigned_ucast_eq take_bit_nat_eq_self)
  then have size: "encoded_varint_size (ucast (data ! pos)) = 1" by (simp add: encoded_varint_size.simps)
  have "ctx_read_varint data pos = ctx_varint_loop (Suc 9) data pos pos 0 0"
    by (simp add: ctx_read_varint_def)
  also have "\<dots> = Ok (ucast (data ! pos), Suc pos)"
    unfolding ctx_varint_loop.simps using assms(1) small_byte [OF assms(2)] size by simp
  finally show ?thesis .
qed

lemma sample_bindings: "require_current_hf6_structural_bindings sample_proposal sample_work = Ok ()"
proof -
  have b: "sample_blob ! 41 = 0" "sample_blob ! 42 = 0" "sample_blob ! 43 = 0" "sample_blob ! 44 = 4"
    "sample_blob ! 45 = 1" "sample_blob ! 46 = 0" "sample_blob ! 47 = 5"
    by (simp_all add: sample_parts nth_append)
  have z: "slice (Suc 0) 8 sample_blob = replicate 8 0" "slice 9 32 sample_blob = replicate 32 1"
    by (simp_all add: slice_def sample_blob_def sample_header_def drop_Cons')
  show ?thesis
    by (simp add: require_current_hf6_structural_bindings_def require_coinbase_height_def sample_proposal_def
        sample_lengths sample_work_derived ctx_varint_at b z sample_prev_def list_all_iff)
qed

lemma sample_structure: "validate_p2p_mining_context_structure sample_tok sample_proposal = Ok (header_hash sample_work)"
proof -
  have "pr_block_template_blob sample_proposal = sample_blob" "pr_miner_tx_tgc_json sample_proposal = ''x''"
    by (simp_all add: sample_proposal_def)
  then show ?thesis
    by (simp add: validate_p2p_mining_context_structure_def sample_work_derived sample_bindings sample_tgc_valid)
qed

end
