(* ===== verification/Sample_Payout.thy ===== *)
theory Sample_Payout
  imports Payout_Policy Sample_Context
begin

text \<open>
  The sample template under the payout policies, with a crypto library whose curve has one point: an output
  is paid to the spend key at position 0 and to the view key at every other position.
\<close>

definition sample_crypto :: "(unit, unit) zano_crypto" where
  "sample_crypto = \<lparr>have_zano_curve = True, secret_key_to_public_key = Some,
    generate_key_derivation = (\<lambda>view secret. Some view),
    derive_public_key = (\<lambda>derivation i spend. Some (if i = 0 then spend else derivation)),
    point_of_key = (\<lambda>key. Some ()), to_public_key = (\<lambda>_. 0), point_add = (\<lambda>_ _. ()), point_sub = (\<lambda>_ _. ()),
    modify_mul8 = (\<lambda>_. ()), scalar_mul = (\<lambda>_ _. ()), scalar_of_key = (\<lambda>_. ()), scalar_of_u64 = (\<lambda>_. ()),
    is_reduced = (\<lambda>_. True), c_point_0 = (), c_point_G = (), c_point_H = (), c_point_U = (),
    calc_hash = (\<lambda>_. ()), verify_double_schnorr_sig_GG = (\<lambda>_ _ _ _. True), bpp_verify_ZC_out = (\<lambda>_ _. True),
    c_bpp_values_max = 32, c_bpp_log2_n = 6\<rparr>"

section \<open>Readers\<close>

lemma tx_u8_at: "pos < length data \<Longrightarrow> tx_read_u8 trunc data pos = Ok (data ! pos, Suc pos)"
  by (simp add: tx_read_u8_def tx_require_def)

lemma tx_skip_at: "pos + n \<le> length data \<Longrightarrow> tx_skip trunc data n pos = Ok (pos + n)"
  by (simp add: tx_skip_def tx_require_def)

lemma tx_key_at: "pos + 32 \<le> length data \<Longrightarrow> tx_read_key trunc data pos = Ok (array_of (slice pos 32 data), pos + 32)"
  by (simp add: tx_read_key_def tx_require_def)

lemma tx_varint_at:
  assumes "pos < length data" "data ! pos < 0x80"
  shows "tx_read_varint trunc data pos = Ok (ucast (data ! pos), Suc pos)"
proof -
  have "\<not> 0x80 \<le> (ucast (data ! pos) :: u64)"
    using assms(2) by (simp add: word_le_nat_alt word_less_nat_alt unsigned_ucast_eq take_bit_nat_eq_self)
  then have size: "encoded_varint_size (ucast (data ! pos)) = 1" by (simp add: encoded_varint_size.simps)
  have "tx_read_varint trunc data pos = tx_varint_loop (Suc 9) trunc data pos pos 0 0"
    by (simp add: tx_read_varint_def)
  also have "\<dots> = Ok (ucast (data ! pos), Suc pos)"
    unfolding tx_varint_loop.simps using assms(1) small_byte [OF assms(2)] size by (simp add: tx_u8_at)
  finally show ?thesis .
qed

lemma zero_key: "array_of (replicate 32 0) = (0 :: hash256)"
  by (simp add: byte_array_eq_iff)

lemma sample_slices:
  "slice 6 32 sample_prefix = replicate 32 0" "slice 41 32 sample_prefix = replicate 32 0"
  "slice 73 32 sample_prefix = replicate 32 0" "slice 105 32 sample_prefix = replicate 32 0"
  "slice 137 32 sample_prefix = native_asset_bytes" "slice 188 32 sample_prefix = replicate 32 0"
  "slice 220 32 sample_prefix = replicate 32 0" "slice 252 32 sample_prefix = replicate 32 0"
  "slice 284 32 sample_prefix = native_asset_bytes"
  by (simp_all add: slice_def sample_parts drop_Cons')

lemma sample_prefix_at:
  "sample_prefix ! 0 = 4" "sample_prefix ! 1 = 1" "sample_prefix ! Suc 0 = 1" "sample_prefix ! 2 = 0" "sample_prefix ! 3 = 5"
  "sample_prefix ! 4 = 1" "sample_prefix ! 5 = 22" "sample_prefix ! 38 = 2" "sample_prefix ! 39 = 63"
  "sample_prefix ! 40 = 0" "sample_prefix ! 186 = 63" "sample_prefix ! 187 = 0" "sample_prefix ! 333 = 6"
  by (simp_all add: sample_parts nth_append)

lemma suc_two: "Suc (Suc 0) = 2"
  by simp

lemmas tx_readers = suc_two tx_u8_at tx_skip_at tx_key_at tx_varint_at sample_prefix_at sample_slices sample_lengths zero_key

section \<open>The outputs and their openings\<close>

definition sample_out :: parsed_payout_output where
  "sample_out = \<lparr>po_stealth_address = 0, po_concealing_point = 0, po_amount_commitment = 0,
    po_blinded_asset_id = kNativeCoinAssetId1Div8\<rparr>"

lemma sample_tx_key: "parse_prefix_tx_public_key sample_prefix = Ok 0"
  by (simp add: parse_prefix_tx_public_key_def tx_readers read_extra_def)

lemma two_outputs: "read_payout_outputs 2 data pos =
    bindE (read_payout_output data pos) (\<lambda>(out, pos). bindE (read_payout_output data pos) (\<lambda>(out', pos). Ok ([out, out'], pos)))"
  unfolding numeral_2_eq_2 read_payout_outputs.simps by (simp add: bindE_def split: sum.split)

lemma sample_outputs: "parse_current_outputs sample_prefix = Ok [sample_out, sample_out]"
proof -
  have "read_payout_output sample_prefix 39 = Ok (sample_out, 186)"
    "read_payout_output sample_prefix 186 = Ok (sample_out, 333)"
    by (simp_all add: read_payout_output_def tx_readers sample_out_def kNativeCoinAssetId1Div8_def native_asset_bytes_def)
  then show ?thesis
    by (simp add: parse_current_outputs_def tx_readers skip_current_extra_def two_outputs kCurrentMinerMaxOutputs_def)
qed

definition sample_tgc :: parsed_tgc_payout_data where
  "sample_tgc = \<lparr>tgc_tx_secret_key = 0, tgc_amounts = [3, 4], tgc_amount_blinding_masks = [0, 0],
    tgc_asset_id_blinding_masks = [0, 0]\<rparr>"


section \<open>Lists of scalars\<close>

lemma hex_text_plain: "list_all (\<lambda>c. c \<noteq> CHR '','' \<and> \<not> is_blank c) (bytes_to_hex bs)"
proof -
  have "list_all (\<lambda>c. c \<noteq> CHR '','' \<and> \<not> is_blank c) kHex"
    by (simp add: kHex_def is_blank_def)
  then show ?thesis using set_bytes_to_hex [of bs] by (simp add: list_all_iff subset_iff)
qed

lemma parse_scalar_at:
  assumes "drop pos text = bytes_to_hex a @ rest" "length a = 32" "rest = [] \<or> hd rest = CHR '',''"
  shows "parse_scalars text pos =
    (if rest = [] then Ok [array_of a] else bindE (parse_scalars text (pos + 65)) (\<lambda>keys. Ok (array_of a # keys)))"
proof -
  have len: "length (bytes_to_hex a) = 64" by (simp add: length_bytes_to_hex assms(2))
  have total: "length text = pos + 64 + length rest"
    using arg_cong [OF assms(1), of length] len by simp
  obtain c cs where c: "bytes_to_hex a = c # cs" using len by (cases "bytes_to_hex a") auto
  have plain: "list_all (\<lambda>c. c \<noteq> CHR '','' \<and> \<not> is_blank c) (bytes_to_hex a)" by (rule hex_text_plain)
  then have head: "takeWhile is_blank (drop pos text) = []" unfolding assms(1) c by simp
  have "takeWhile (\<lambda>d. d \<noteq> CHR '','') (bytes_to_hex a @ rest) = bytes_to_hex a"
    using plain assms(3) by (cases rest) (auto simp: list_all_iff takeWhile_append)
  then have comma: "find_char text CHR '','' pos = (if rest = [] then None else Some (pos + 64))"
    using len total by (simp add: find_char_def assms(1))
  have sub: "substr text pos 64 = bytes_to_hex a" using len by (simp add: substr_def assms(1))
  have "last (bytes_to_hex a) \<in> set (bytes_to_hex a)" unfolding c by (rule last_in_set) simp
  then have "\<not> is_blank (last (bytes_to_hex a))" using plain unfolding list_all_iff by blast
  then have "dropWhile is_blank (rev (bytes_to_hex a)) = rev (bytes_to_hex a)"
    by (simp add: dropWhile_eq_self_iff hd_rev)
  then have trim: "trim_end text pos (pos + 64) = pos + 64" using len by (simp add: trim_end_def sub)
  have empty: "parse_scalars text (length text) = Ok []" by (simp add: parse_scalars.simps)
  let ?next = "case find_char text CHR '','' pos of None \<Rightarrow> length text | Some i \<Rightarrow> i + 1"
  have "trim_end text pos (case find_char text CHR '','' pos of None \<Rightarrow> length text | Some i \<Rightarrow> i) = pos + 64"
    using trim total by (simp add: comma)
  then have "parse_scalars text pos = bindE (parse_scalars text ?next) (\<lambda>keys. Ok (array_of a # keys))"
    unfolding parse_scalars.simps [of "text" pos] Let_def head
    using total sub assms(2) by (simp add: hex_to_bytes_bytes_to_hex)
  then show ?thesis by (simp add: comma empty add.commute [of 65])
qed

lemma two_scalars:
  assumes "length a = 32" "length b = 32"
  shows "parse_scalar_list (bytes_to_hex a @ '','' @ bytes_to_hex b) = Ok [array_of a, array_of b]"
proof -
  let ?t = "bytes_to_hex a @ '','' @ bytes_to_hex b"
  have "parse_scalars ?t 65 = Ok [array_of b]"
    using assms by (subst parse_scalar_at [of _ _ b "[]"]) (simp_all add: length_bytes_to_hex)
  then show ?thesis
    unfolding parse_scalar_list_def using assms
    by (subst parse_scalar_at [of _ _ a "CHR '','' # bytes_to_hex b"]) simp_all
qed

lemma sample_scalar_u64: "b < 128 \<Longrightarrow> scalar_to_u64 (array_of (b # replicate 31 0)) = Ok (ucast b)"
  by (simp add: scalar_to_u64_def numeral_eq_Suc)

lemma c_string_hex: "c_string (bytes_to_hex bs) = bytes_to_hex bs"
  "c_string (bytes_to_hex bs @ '','' @ bytes_to_hex cs) = bytes_to_hex bs @ '','' @ bytes_to_hex cs"
proof -
  have "list_all (\<lambda>c. of_char c \<noteq> (0::nat)) kHex" by code_simp
  then have "list_all (\<lambda>c. of_char c \<noteq> (0::nat)) (bytes_to_hex bs)" for bs
    using set_bytes_to_hex [of bs] by (simp add: list_all_iff subset_iff)
  then show "c_string (bytes_to_hex bs) = bytes_to_hex bs"
    "c_string (bytes_to_hex bs @ '','' @ bytes_to_hex cs) = bytes_to_hex bs @ '','' @ bytes_to_hex cs"
    by (simp_all add: c_string_def list_all_iff takeWhile_append)
qed

lemma sample_tgc_parses: "parse_tgc_payout_data sample_tok ''x'' = Ok sample_tgc"
proof -
  have "slice 32 32 (replicate 64 0) = replicate 32 (0 :: u8)" by (simp add: slice_def)
  then show ?thesis
    by (simp add: parse_tgc_payout_data_def parse_tgc_json_def sample_tok_def json_field_def get_string_field_def
        c_string_hex hex_to_bytes_bytes_to_hex sample_scalar_def two_scalars sample_scalar_u64 sample_tgc_def zero_key
        replicate_Suc [symmetric] del: replicate_Suc append_Cons append.append_Nil)
qed

end
