(* ===== verification/Payout_Exact.thy ===== *)
theory Payout_Exact
  imports Sample_Payout
begin

text \<open>
  What a verified payout policy establishes: every output of the transaction is of the native coin, its
  commitment opens to its amount, the amounts add up to the reward, and each destination is paid exactly
  what it must be paid.
\<close>

section \<open>What an output pays\<close>

definition out_amount :: "parsed_tgc_payout_data \<Rightarrow> nat \<Rightarrow> nat" where
  "out_amount tgc i = unat (tgc_amounts tgc ! i)"

definition committed :: "('p, 's) zano_crypto \<Rightarrow> parsed_tgc_payout_data \<Rightarrow> nat \<Rightarrow> parsed_payout_output \<Rightarrow> bool" where
  "committed crv tgc i out \<longleftrightarrow>
    po_blinded_asset_id out = kNativeCoinAssetId1Div8 \<and> tgc_asset_id_blinding_masks tgc ! i = 0 \<and>
    zano_amount_commitment_matches crv (tgc_amounts tgc ! i) (tgc_amount_blinding_masks tgc ! i)
      (po_blinded_asset_id out) (po_amount_commitment out)"

definition pays_to ::
  "('p, 's) zano_crypto \<Rightarrow> parsed_tgc_payout_data \<Rightarrow> zano_curve_key \<Rightarrow> zano_curve_key \<Rightarrow> nat \<Rightarrow> parsed_payout_output \<Rightarrow> bool"
where
  "pays_to crv tgc spend view i out \<longleftrightarrow>
    zano_derive_output_public_key crv (tgc_tx_secret_key tgc) spend view i = Some (po_stealth_address out)"

lemma is_zero_key_iff [simp]: "is_zero_key key \<longleftrightarrow> key = 0"
  unfolding is_zero_key_def by (rule list_all_zero_iff)

lemma checked_add: "\<not> v > - 1 - s \<Longrightarrow> unat (s + v) = unat s + unat (v :: u64)"
proof -
  assume "\<not> v > - 1 - s"
  then have "unat v \<le> unat (- 1 - s :: u64)" by (simp add: not_less word_le_nat_alt)
  also have "unat (- 1 - s :: u64) = unat (- 1 :: u64) - unat s" by (simp add: unat_sub)
  finally show ?thesis by (subst unat_add_lem [THEN iffD1]) (use unat_less_u64 [of s] in \<open>simp_all add: unat_max_u64\<close>)
qed

lemma sum_Cons: "(\<Sum>k<length (x # xs). f k) = f 0 + (\<Sum>k<length xs. f (Suc k) :: nat)"
  by (simp only: list.size(4) add_Suc_right add_0_right sum.lessThan_Suc_shift)

lemma for_outputs_sum:
  assumes "for_outputs body i outs s = Inr t"
    and "\<And>k out s t. body k out s = Inr t \<Longrightarrow> P k out \<and> unat t = unat s + out_amount tgc k"
  shows "(\<forall>k<length outs. P (i + k) (outs ! k)) \<and> unat t = unat (s :: u64) + (\<Sum>k<length outs. out_amount tgc (i + k))"
  using assms(1)
proof (induction outs arbitrary: i s)
  case (Cons out outs)
  from Cons.prems obtain s' where s': "body i out s = Inr s'" "for_outputs body (Suc i) outs s' = Inr t"
    by (auto split: sum.splits)
  note b = assms(2) [OF s'(1)] and rest = Cons.IH [OF s'(2)]
  have "P (i + k) ((out # outs) ! k)" if "k < length (out # outs)" for k
    using that b rest by (cases k) auto
  moreover have "(\<Sum>k<length (out # outs). out_amount tgc (i + k)) =
      out_amount tgc i + (\<Sum>k<length outs. out_amount tgc (Suc i + k))"
    unfolding sum_Cons by simp
  ultimately show ?case using b rest by simp
qed simp

lemma single_output_Inr:
  "single_output crv tgc expected_payout i out s = Inr t \<Longrightarrow>
    (committed crv tgc i out \<and> pays_to crv tgc (pa_spend_public_key expected_payout) (pa_view_public_key expected_payout) i out) \<and>
    unat t = unat s + out_amount tgc i"
  by (auto simp: single_output_def committed_def pays_to_def out_amount_def checked_add split: if_splits)

lemma bootstrap_output_Inr:
  "bootstrap_output crv tgc i out s = Inr t \<Longrightarrow> committed crv tgc i out \<and> unat t = unat s + out_amount tgc i"
  by (auto simp: bootstrap_output_def committed_def out_amount_def checked_add split: if_splits)

section \<open>Destinations of a plan\<close>

abbreviation dest_pays ::
  "('p, 's) zano_crypto \<Rightarrow> parsed_tgc_payout_data \<Rightarrow> pplns_coinbase_destination \<Rightarrow> nat \<Rightarrow> parsed_payout_output \<Rightarrow> bool"
where
  "dest_pays crv tgc d i out \<equiv> pays_to crv tgc (spend_public_key (cd_payout d)) (view_public_key (cd_payout d)) i out"

lemma match_destination_Some:
  assumes "match_destination crv (tgc_tx_secret_key tgc) i (po_stealth_address out) j ds (Some m) = Inr r"
  shows "r = Some m \<and> (\<forall>d\<in>set ds. \<not> dest_pays crv tgc d i out)"
  using assms by (induction ds arbitrary: j) (auto simp: pays_to_def split: option.splits if_splits)

lemma match_destination_None:
  assumes "match_destination crv (tgc_tx_secret_key tgc) i (po_stealth_address out) j ds None = Inr (Some m)"
  shows "j \<le> m \<and> m < j + length ds \<and> (\<forall>k<length ds. dest_pays crv tgc (ds ! k) i out \<longleftrightarrow> j + k = m)"
  using assms
proof (induction ds arbitrary: j)
  case (Cons d ds)
  from Cons.prems obtain expected where e: "zano_derive_output_public_key crv (tgc_tx_secret_key tgc)
      (spend_public_key (cd_payout d)) (view_public_key (cd_payout d)) i = Some expected"
    by (auto split: option.splits)
  show ?case
  proof (cases "expected = po_stealth_address out")
    case True
    with Cons.prems e have "m = j" "\<forall>d\<in>set ds. \<not> dest_pays crv tgc d i out"
      using match_destination_Some by fastforce+
    moreover have "dest_pays crv tgc d i out" using e True by (simp add: pays_to_def)
    ultimately show ?thesis by (auto simp: nth_Cons split: nat.split)
  next
    case False
    with Cons.prems e have "match_destination crv (tgc_tx_secret_key tgc) i (po_stealth_address out) (Suc j) ds None = Inr (Some m)"
      by simp
    from Cons.IH [OF this] have IH: "Suc j \<le> m" "m < Suc j + length ds"
      "\<And>k. k < length ds \<Longrightarrow> dest_pays crv tgc (ds ! k) i out \<longleftrightarrow> Suc j + k = m" by auto
    moreover have "\<not> dest_pays crv tgc d i out" using e False by (simp add: pays_to_def)
    ultimately show ?thesis by (auto simp: nth_Cons split: nat.split)
  qed
qed simp

definition credit ::
  "('p, 's) zano_crypto \<Rightarrow> parsed_tgc_payout_data \<Rightarrow> parsed_payout_output list \<Rightarrow> pplns_coinbase_destination \<Rightarrow> nat"
where
  "credit crv tgc outs d = (\<Sum>i<length outs. if dest_pays crv tgc d i (outs ! i) then out_amount tgc i else 0)"

lemma plan_output_Inr:
  assumes "plan_output crv tgc plan i out (cr, s) = Inr (cr', s')" "length cr = length (plan_destinations plan)"
  obtains m where "m < length (plan_destinations plan)" "committed crv tgc i out"
    "\<forall>j<length (plan_destinations plan). dest_pays crv tgc (plan_destinations plan ! j) i out \<longleftrightarrow> j = m"
    "length cr' = length cr" "unat s' = unat s + out_amount tgc i"
    "\<forall>j<length cr. unat (cr' ! j) = unat (cr ! j) + (if j = m then out_amount tgc i else 0)"
proof -
  from assms(1) obtain m where m: "match_destination crv (tgc_tx_secret_key tgc) i (po_stealth_address out) 0
      (plan_destinations plan) None = Inr (Some m)" and c: "committed crv tgc i out"
    and add: "\<not> tgc_amounts tgc ! i > - 1 - s" "\<not> tgc_amounts tgc ! i > - 1 - cr ! m"
    and eq: "cr' = cr[m := cr ! m + tgc_amounts tgc ! i]" "s' = s + tgc_amounts tgc ! i"
    by (auto simp: plan_output_def committed_def split: if_splits sum.splits option.splits)
  note match = match_destination_None [OF m]
  show thesis
  proof (rule that [of m])
    show "\<forall>j<length cr. unat (cr' ! j) = unat (cr ! j) + (if j = m then out_amount tgc i else 0)"
      using checked_add [OF add(2)] by (simp add: eq(1) nth_list_update out_amount_def)
    show "unat s' = unat s + out_amount tgc i"
      using checked_add [OF add(1)] by (simp add: eq(2) out_amount_def)
  qed (use match c eq in simp_all)
qed

lemma plan_outputs_Inr:
  assumes "for_outputs (plan_output crv tgc plan) i outs (cr, s) = Inr (cr', s')"
    "length cr = length (plan_destinations plan)"
  shows "(\<forall>k<length outs. committed crv tgc (i + k) (outs ! k) \<and>
      (\<exists>m<length (plan_destinations plan). \<forall>j<length (plan_destinations plan).
        dest_pays crv tgc (plan_destinations plan ! j) (i + k) (outs ! k) \<longleftrightarrow> j = m)) \<and>
    length cr' = length cr \<and> unat s' = unat s + (\<Sum>k<length outs. out_amount tgc (i + k)) \<and>
    (\<forall>j<length cr. unat (cr' ! j) = unat (cr ! j) +
      (\<Sum>k<length outs. if dest_pays crv tgc (plan_destinations plan ! j) (i + k) (outs ! k) then out_amount tgc (i + k) else 0))"
  using assms
proof (induction outs arbitrary: i cr s)
  case (Cons out outs)
  from Cons.prems(1) obtain cr1 s1 where step: "plan_output crv tgc plan i out (cr, s) = Inr (cr1, s1)"
    "for_outputs (plan_output crv tgc plan) (Suc i) outs (cr1, s1) = Inr (cr', s')"
    by (auto split: sum.splits)
  obtain m where m: "m < length (plan_destinations plan)" "committed crv tgc i out"
    "\<forall>j<length (plan_destinations plan). dest_pays crv tgc (plan_destinations plan ! j) i out \<longleftrightarrow> j = m"
    "length cr1 = length cr" "unat s1 = unat s + out_amount tgc i"
    "\<forall>j<length cr. unat (cr1 ! j) = unat (cr ! j) + (if j = m then out_amount tgc i else 0)"
    using step(1) Cons.prems(2) by (rule plan_output_Inr)
  have "length cr1 = length (plan_destinations plan)" using m(4) Cons.prems(2) by simp
  note rest = Cons.IH [OF step(2) this]
  have "committed crv tgc (i + k) ((out # outs) ! k) \<and>
      (\<exists>m<length (plan_destinations plan). \<forall>j<length (plan_destinations plan).
        dest_pays crv tgc (plan_destinations plan ! j) (i + k) ((out # outs) ! k) \<longleftrightarrow> j = m)"
    if "k < length (out # outs)" for k
  proof (cases k)
    case 0
    with m(1-3) show ?thesis by auto
  next
    case (Suc k')
    with rest that show ?thesis by simp
  qed
  moreover have "unat (cr' ! j) = unat (cr ! j) + (\<Sum>k<length (out # outs).
      if dest_pays crv tgc (plan_destinations plan ! j) (i + k) ((out # outs) ! k) then out_amount tgc (i + k) else 0)"
    if "j < length cr" for j
    using rest m that Cons.prems(2) unfolding sum_Cons by simp
  moreover have "unat s' = unat s + (\<Sum>k<length (out # outs). out_amount tgc (i + k))"
    using rest m(5) unfolding sum_Cons by simp
  ultimately show ?case using rest m(4) by simp
qed simp

section \<open>The plan\<close>

lemma check_plan_destinations_Some:
  assumes "check_plan_destinations seen s ds = Some t"
  shows "unat t = unat s + (\<Sum>d\<leftarrow>ds. unat (cd_amount d)) \<and> distinct (map cd_payout ds) \<and>
    set (map cd_payout ds) \<inter> set seen = {} \<and>
    (\<forall>d\<in>set ds. cd_amount d \<noteq> 0 \<and> miner_id_from_payout (cd_payout d) = cd_miner_id d)"
  using assms
proof (induction ds arbitrary: seen s)
  case (Cons d ds)
  then have g: "cd_amount d \<noteq> 0" "miner_id_from_payout (cd_payout d) = cd_miner_id d"
    "\<not> cd_amount d > - 1 - s" "cd_payout d \<notin> set seen"
    and rest: "check_plan_destinations (seen @ [cd_payout d]) (s + cd_amount d) ds = Some t"
    by (auto simp: list_ex_iff split: if_splits)
  from Cons.IH [OF rest] g checked_add [OF g(3)] show ?case by auto
qed simp

section \<open>Early returns are not verified\<close>

lemma for_outputs_Inl:
  "for_outputs body i outs acc = Inl status \<Longrightarrow> (\<And>i out acc. body i out acc \<noteq> Inl status) \<Longrightarrow> False"
  by (induction outs arbitrary: i acc) (auto split: sum.splits)

lemma match_destination_unverified: "match_destination crv secret i stealth j ds matched \<noteq> Inl Policy_verified"
  by (induction ds arbitrary: j matched) (auto split: option.split)

lemma outputs_unverified:
  "single_output crv tgc expected_payout i out s \<noteq> Inl Policy_verified"
  "bootstrap_output crv tgc i out s \<noteq> Inl Policy_verified"
  "plan_output crv tgc plan i out acc \<noteq> Inl Policy_verified"
  by (auto simp: single_output_def bootstrap_output_def plan_output_def match_destination_unverified
      split: sum.split option.split)

lemma plan_loop_unverified: "for_outputs (plan_output crv tgc plan) i outs acc \<noteq> Inl Policy_verified"
proof
  assume "for_outputs (plan_output crv tgc plan) i outs acc = Inl Policy_verified"
  then show False by (rule for_outputs_Inl) (rule outputs_unverified(3))
qed

lemma gate_unverified:
  "payout_gate crv tok prefix tgc_json reward_without_fee reward = Inl r \<Longrightarrow> policy_status r \<noteq> Policy_verified"
  by (auto simp: payout_gate_def Let_def split: if_splits)

lemma inputs_unverified: "payout_inputs tok prefix tgc_json r = Inl r' \<Longrightarrow> policy_status r' \<noteq> Policy_verified"
  by (auto simp: payout_inputs_def Let_def split: sum.splits if_splits)

section \<open>Verified transactions\<close>

text \<open>What all three policies establish of the transaction prefix and the data that opens it.\<close>

definition opened ::
  "('p, 's) zano_crypto \<Rightarrow> json_tokener \<Rightarrow> u8 list \<Rightarrow> string \<Rightarrow> u64 \<Rightarrow>
    parsed_payout_output list \<Rightarrow> parsed_tgc_payout_data \<Rightarrow> bool"
where
  "opened crv tok prefix tgc_json reward outs tgc \<longleftrightarrow>
    binding_status (verify_miner_tx_tgc_key_binding crv tok prefix tgc_json) = Binding_verified \<and>
    parse_current_outputs prefix = Ok outs \<and> parse_tgc_payout_data tok tgc_json = Ok tgc \<and>
    2 \<le> length outs \<and> length outs \<le> 32 \<and> (\<forall>i<length outs. committed crv tgc i (outs ! i)) \<and>
    reward \<noteq> 0 \<and> (\<Sum>i<length outs. out_amount tgc i) = unat reward"

lemma gate_Inr:
  "payout_gate crv tok prefix tgc_json reward_without_fee reward = Inr r \<Longrightarrow>
    binding_status (verify_miner_tx_tgc_key_binding crv tok prefix tgc_json) = Binding_verified \<and>
    reward = reward_without_fee \<and> reward \<noteq> 0"
  by (auto simp: payout_gate_def Let_def split: if_splits)

lemma inputs_Inr:
  "payout_inputs tok prefix tgc_json r = Inr (r', outs, tgc) \<Longrightarrow>
    parse_current_outputs prefix = Ok outs \<and> parse_tgc_payout_data tok tgc_json = Ok tgc \<and>
    2 \<le> length outs \<and> length outs \<le> 32"
  by (auto simp: payout_inputs_def Let_def kCurrentMinerMinOutputs_def kCurrentMinerMaxOutputs_def
      split: sum.splits if_splits)

lemma check_reward_sum_verified:
  assumes "policy_status (check_reward_sum reward r (for_outputs body 0 outs 0)) = Policy_verified"
    and "\<And>i out s. body i out s \<noteq> Inl Policy_verified"
  shows "for_outputs body 0 outs 0 = Inr reward"
  using assms for_outputs_Inl [of body 0 outs 0 Policy_verified]
  by (auto simp: check_reward_sum_def Let_def split: sum.splits if_splits)

lemma policy_verifiedE:
  assumes "policy_status (case payout_gate crv tok prefix tgc_json reward_without_fee reward of
      Inl result \<Rightarrow> result
    | Inr result \<Rightarrow> (case payout_inputs tok prefix tgc_json result of
        Inl result \<Rightarrow> result | Inr (result, outputs, tgc) \<Rightarrow> rest result outputs tgc)) = Policy_verified"
  obtains r outs tgc where
    "binding_status (verify_miner_tx_tgc_key_binding crv tok prefix tgc_json) = Binding_verified"
    "reward \<noteq> 0" "parse_current_outputs prefix = Ok outs" "parse_tgc_payout_data tok tgc_json = Ok tgc"
    "2 \<le> length outs" "length outs \<le> 32" "policy_status (rest r outs tgc) = Policy_verified"
proof (cases "payout_gate crv tok prefix tgc_json reward_without_fee reward")
  case (Inr r)
  show thesis
  proof (cases "payout_inputs tok prefix tgc_json r")
    case q: (Inr q)
    obtain r' outs tgc where r': "q = (r', outs, tgc)" by (cases q)
    have "policy_status (rest r' outs tgc) = Policy_verified" using assms Inr q r' by simp
    with gate_Inr [OF Inr] inputs_Inr [OF q [unfolded r']] that show thesis by blast
  qed (use Inr assms inputs_unverified in fastforce)
qed (use assms gate_unverified in fastforce)

lemma single_policy_verified:
  assumes "policy_status (verify_miner_tx_payout_policy crv tok prefix tgc_json reward_without_fee reward txs_fee expected_payout) =
    Policy_verified"
  shows "\<exists>outs tgc. opened crv tok prefix tgc_json reward outs tgc \<and>
    (\<forall>i<length outs. pays_to crv tgc (pa_spend_public_key expected_payout) (pa_view_public_key expected_payout) i (outs ! i))"
proof -
  from assms obtain r outs tgc where v:
    "binding_status (verify_miner_tx_tgc_key_binding crv tok prefix tgc_json) = Binding_verified"
    "reward \<noteq> 0" "parse_current_outputs prefix = Ok outs" "parse_tgc_payout_data tok tgc_json = Ok tgc"
    "2 \<le> length outs" "length outs \<le> 32"
    "policy_status (check_reward_sum reward r (for_outputs (single_output crv tgc expected_payout) 0 outs 0)) = Policy_verified"
    unfolding verify_miner_tx_payout_policy_def by (rule policy_verifiedE)
  from v(7) have "for_outputs (single_output crv tgc expected_payout) 0 outs 0 = Inr reward"
    by (rule check_reward_sum_verified) (rule outputs_unverified)
  from for_outputs_sum [where P = "\<lambda>i out. committed crv tgc i out \<and> pays_to crv tgc
      (pa_spend_public_key expected_payout) (pa_view_public_key expected_payout) i out", OF this single_output_Inr] v(1-6) show ?thesis by (auto simp: opened_def)
qed

lemma bootstrap_policy_verified:
  assumes "policy_status (verify_miner_tx_bootstrap_policy crv tok prefix tgc_json reward_without_fee reward txs_fee) =
    Policy_verified"
  shows "\<exists>outs tgc. opened crv tok prefix tgc_json reward outs tgc"
proof -
  from assms obtain r outs tgc where v:
    "binding_status (verify_miner_tx_tgc_key_binding crv tok prefix tgc_json) = Binding_verified"
    "reward \<noteq> 0" "parse_current_outputs prefix = Ok outs" "parse_tgc_payout_data tok tgc_json = Ok tgc"
    "2 \<le> length outs" "length outs \<le> 32"
    "policy_status (check_reward_sum reward r (for_outputs (bootstrap_output crv tgc) 0 outs 0)) = Policy_verified"
    unfolding verify_miner_tx_bootstrap_policy_def by (rule policy_verifiedE)
  from v(7) have "for_outputs (bootstrap_output crv tgc) 0 outs 0 = Inr reward"
    by (rule check_reward_sum_verified) (rule outputs_unverified)
  from for_outputs_sum [where P = "committed crv tgc", OF this bootstrap_output_Inr] v(1-6) show ?thesis by (auto simp: opened_def)
qed

lemma plan_policy_verified:
  assumes "policy_status (verify_miner_tx_plan_policy crv tok prefix tgc_json reward_without_fee reward txs_fee plan) =
    Policy_verified"
  shows "\<exists>outs tgc. opened crv tok prefix tgc_json reward outs tgc \<and> check_expected_plan reward plan \<and>
    (\<forall>i<length outs. \<exists>m<length (plan_destinations plan). \<forall>j<length (plan_destinations plan).
      dest_pays crv tgc (plan_destinations plan ! j) i (outs ! i) \<longleftrightarrow> j = m) \<and>
    (\<forall>d\<in>set (plan_destinations plan). credit crv tgc outs d = unat (cd_amount d))"
proof -
  let ?n = "length (plan_destinations plan)"
  let ?loop = "\<lambda>tgc outs. for_outputs (plan_output crv tgc plan) 0 outs (replicate ?n 0, 0)"
  define rest where "rest = (\<lambda>(result :: p2p_payout_policy_result) outs tgc. case ?loop tgc outs of
      Inl status \<Rightarrow> result\<lparr>policy_status := status\<rparr>
    | Inr (cr, s) \<Rightarrow>
        if \<not> check_expected_plan reward plan \<or> s \<noteq> reward \<or> cr \<noteq> map cd_amount (plan_destinations plan)
        then result\<lparr>policy_status := PayoutPlanMismatch\<rparr> else result\<lparr>policy_status := Policy_verified\<rparr>)"
  have "policy_status (case payout_gate crv tok prefix tgc_json reward_without_fee reward of
      Inl result \<Rightarrow> result
    | Inr result \<Rightarrow> (case payout_inputs tok prefix tgc_json result of
        Inl result \<Rightarrow> result | Inr (result, outs, tgc) \<Rightarrow> rest result outs tgc)) = Policy_verified"
    using assms
    by (auto simp: verify_miner_tx_plan_policy_def rest_def Let_def split: sum.splits if_splits prod.splits)
  then obtain r outs tgc where v:
    "binding_status (verify_miner_tx_tgc_key_binding crv tok prefix tgc_json) = Binding_verified"
    "reward \<noteq> 0" "parse_current_outputs prefix = Ok outs" "parse_tgc_payout_data tok tgc_json = Ok tgc"
    "2 \<le> length outs" "length outs \<le> 32" "policy_status (rest r outs tgc) = Policy_verified"
    by (rule policy_verifiedE)
  have loop: "?loop tgc outs = Inr (map cd_amount (plan_destinations plan), reward)" and plan: "check_expected_plan reward plan"
    using v(7) plan_loop_unverified [of crv tgc plan 0 outs "(replicate ?n 0, 0)"]
    by (auto simp: rest_def split: sum.splits if_splits prod.splits)
  note l = plan_outputs_Inr [OF loop, unfolded add_0]
  have "credit crv tgc outs d = unat (cd_amount d)" if "d \<in> set (plan_destinations plan)" for d
    using that l by (auto simp: in_set_conv_nth credit_def)
  with l plan v(1-6) show ?thesis by (auto simp: opened_def)
qed

section \<open>Claims\<close>

text \<open>C17. A miner transaction that the plan policy verifies pays the plan exactly. Every output is of the
  native coin, its commitment opens to its amount, and it is paid to exactly one destination of the plan.
  Each destination receives in total exactly its planned amount, whatever the order and splitting of the
  outputs; no two destinations share an address; and the amounts add up to the block reward without
  wrap-around.\<close>

theorem plan_policy_exact:
  assumes "policy_status (verify_miner_tx_plan_policy crv tok prefix tgc_json reward_without_fee reward txs_fee plan) =
    Policy_verified"
  shows "\<exists>outs tgc. parse_current_outputs prefix = Ok outs \<and> parse_tgc_payout_data tok tgc_json = Ok tgc \<and>
    (\<forall>i<length outs. committed crv tgc i (outs ! i) \<and>
      (\<exists>m<length (plan_destinations plan). \<forall>j<length (plan_destinations plan).
        dest_pays crv tgc (plan_destinations plan ! j) i (outs ! i) \<longleftrightarrow> j = m)) \<and>
    (\<forall>d\<in>set (plan_destinations plan). credit crv tgc outs d = unat (cd_amount d) \<and>
      miner_id_from_payout (cd_payout d) = cd_miner_id d) \<and>
    distinct (map cd_payout (plan_destinations plan)) \<and>
    (\<Sum>i<length outs. out_amount tgc i) = unat reward \<and>
    (\<Sum>d\<leftarrow>plan_destinations plan. unat (cd_amount d)) = unat reward"
proof -
  from plan_policy_verified [OF assms] obtain outs tgc where v: "opened crv tok prefix tgc_json reward outs tgc"
    "check_expected_plan reward plan"
    "\<forall>i<length outs. \<exists>m<length (plan_destinations plan). \<forall>j<length (plan_destinations plan).
      dest_pays crv tgc (plan_destinations plan ! j) i (outs ! i) \<longleftrightarrow> j = m"
    "\<forall>d\<in>set (plan_destinations plan). credit crv tgc outs d = unat (cd_amount d)"
    by blast
  have "check_plan_destinations [] 0 (plan_destinations plan) = Some reward"
    using v(2) by (auto simp: check_expected_plan_def)
  from check_plan_destinations_Some [OF this] v show ?thesis
    by (intro exI [of _ outs] exI [of _ tgc]) (auto simp: opened_def)
qed

definition sample_plan :: pplns_coinbase_plan where
  "sample_plan =
    (let a = \<lparr>spend_public_key = 0, view_public_key = array_of_nat 1\<rparr>;
         b = \<lparr>spend_public_key = array_of_nat 1, view_public_key = 0\<rparr>
     in \<lparr>plan_status = Ready, plan_reward_atomic = 7, plan_destinations =
       [\<lparr>cd_miner_id = miner_id_from_payout a, cd_payout = a, cd_amount = 3\<rparr>,
        \<lparr>cd_miner_id = miner_id_from_payout b, cd_payout = b, cd_amount = 4\<rparr>]\<rparr>)"

lemma sample_binding: "binding_status (verify_miner_tx_tgc_key_binding sample_crypto sample_tok sample_prefix ''x'') = Binding_verified"
proof -
  have "slice 32 32 (replicate 64 0) = replicate 32 (0 :: u8)" by (simp add: slice_def)
  then have "parse_tgc_keypair sample_tok ''x'' = Ok \<lparr>tgc_public_key = 0, tgc_secret_key = 0\<rparr>"
    by (simp add: parse_tgc_keypair_def sample_tok_def json_field_def c_string_hex hex_to_bytes_bytes_to_hex zero_key
        replicate_Suc [symmetric] del: replicate_Suc)
  then show ?thesis by (simp add: binding_verified_iff sample_tx_key sample_crypto_def)
qed

lemma sample_curve: "have_zano_curve sample_crypto"
  by (simp add: sample_crypto_def)

lemma sample_one_nonzero: "(array_of_nat 1 :: hash256) \<noteq> 0"
  by (simp add: arr_val_eq_iff [symmetric] arr_val_array_of_nat)

lemma sample_payout_inputs:
  "payout_inputs sample_tok sample_prefix ''x'' r = Inr (r\<lparr>policy_output_count := 2\<rparr>, [sample_out, sample_out], sample_tgc)"
  by (simp add: payout_inputs_def sample_outputs sample_tgc_parses sample_tgc_def kCurrentMinerMinOutputs_def
      kCurrentMinerMaxOutputs_def)

lemma sample_payout_gate:
  "payout_gate sample_crypto sample_tok sample_prefix ''x'' 7 7 = Inr (policy_start\<lparr>policy_binding_status := Binding_verified\<rparr>)"
  by (simp add: payout_gate_def sample_binding zano_curve_backend_available_def sample_curve)

lemma sample_bootstrap_verified:
  "policy_status (verify_miner_tx_bootstrap_policy sample_crypto sample_tok sample_prefix ''x'' 7 7 0) = Policy_verified"
proof -
  have "for_outputs (bootstrap_output sample_crypto sample_tgc) 0 [sample_out, sample_out] 0 = Inr 7"
    by (simp add: bootstrap_output_def sample_out_def sample_tgc_def sample_crypto_def zano_amount_commitment_matches_def)
  then show ?thesis
    by (simp add: verify_miner_tx_bootstrap_policy_def sample_payout_gate sample_payout_inputs check_reward_sum_def)
qed

lemma sample_plan_verified:
  "policy_status (verify_miner_tx_plan_policy sample_crypto sample_tok sample_prefix ''x'' 7 7 0 sample_plan) = Policy_verified"
proof -
  have "check_expected_plan 7 sample_plan"
    using sample_one_nonzero
    by (simp add: check_expected_plan_def sample_plan_def kCurrentMinerMaxOutputs_def Let_def)
  moreover have "for_outputs (plan_output sample_crypto sample_tgc sample_plan) 0 [sample_out, sample_out] ([0, 0], 0) =
      Inr ([3, 4], 7)"
    using sample_one_nonzero
    by (simp add: plan_output_def sample_plan_def sample_out_def sample_tgc_def sample_crypto_def Let_def
        zano_derive_output_public_key_def zano_amount_commitment_matches_def)
  ultimately show ?thesis
    by (simp add: verify_miner_tx_plan_policy_def sample_payout_gate sample_payout_inputs)
      (simp add: sample_plan_def Let_def numeral_2_eq_2)
qed

theorem plan_policy_exact_witness:
  "\<exists>outs tgc. parse_current_outputs sample_prefix = Ok outs \<and> parse_tgc_payout_data sample_tok ''x'' = Ok tgc \<and>
    (\<forall>d\<in>set (plan_destinations sample_plan). credit sample_crypto tgc outs d = unat (cd_amount d)) \<and>
    (\<Sum>i<length outs. out_amount tgc i) = unat (7 :: u64)"
  using plan_policy_exact [OF sample_plan_verified] by blast

end
