(* ===== verification/Miner_Tx_Proofs.thy ===== *)
theory Miner_Tx_Proofs
  imports Payout_Exact
begin

text \<open>
  \<open>src/src/p2p_miner_tx_proofs.cpp\<close>: the balance proof and the range proof of a miner transaction, after
  its payout policy. The verifiers of the proofs are operations of Zano's crypto library.
\<close>

section \<open>Proof inputs\<close>

definition kBalanceProofPayloadSize :: nat where
  "kBalanceProofPayloadSize = 96"

definition kBalanceProofSerializedSize :: nat where
  "kBalanceProofSerializedSize = 1 + kBalanceProofPayloadSize"

definition kRangeProofTag :: u8 where
  "kRangeProofTag = 47"

definition kBalanceProofTag :: u8 where
  "kBalanceProofTag = 48"

definition kBppLog2N :: nat where
  "kBppLog2N = 6"

abbreviation proof_trunc :: string where
  "proof_trunc \<equiv> ''truncated miner transaction/proof data''"

fun read_keys :: "nat \<Rightarrow> u8 list \<Rightarrow> nat \<Rightarrow> (zano_curve_key list \<times> nat) result" where
  "read_keys 0 data pos = Ok ([], pos)"
| "read_keys (Suc n) data pos =
    bindE (tx_read_key proof_trunc data pos) (\<lambda>(key, pos).
    bindE (read_keys n data pos) (\<lambda>(keys, pos). Ok (key # keys, pos)))"

definition read_key_vector :: "nat \<Rightarrow> u8 list \<Rightarrow> nat \<Rightarrow> (zano_curve_key list \<times> nat) result" where
  "read_key_vector max_count data pos =
    bindE (tx_read_varint proof_trunc data pos) (\<lambda>(n, pos).
    if unat n > max_count then Throw (Runtime_error ''proof vector exceeds current HF6 bound'')
    else read_keys (unat n) data pos)"

record parsed_proof_inputs =
  pi_tx_public_key :: zano_curve_key
  pi_amount_commitments :: "zano_curve_key list"
  pi_blinded_asset_ids :: "zano_curve_key list"

text \<open>The loop over the outputs; the two vectors are collected as pairs.\<close>

fun read_proof_outputs :: "nat \<Rightarrow> u8 list \<Rightarrow> nat \<Rightarrow> ((zano_curve_key \<times> zano_curve_key) list \<times> nat) result" where
  "read_proof_outputs 0 data pos = Ok ([], pos)"
| "read_proof_outputs (Suc n) data pos =
    bindE (tx_read_u8 proof_trunc data pos) (\<lambda>(tag, pos).
    if tag \<noteq> 63 then Throw (Runtime_error ''unsupported current miner output'')
    else bindE (tx_read_u8 proof_trunc data pos) (\<lambda>(version, pos).
    if version \<noteq> 0 then Throw (Runtime_error ''unsupported current miner output'')
    else bindE (tx_skip proof_trunc data 32 pos) (\<lambda>pos.
    bindE (tx_skip proof_trunc data 32 pos) (\<lambda>pos.
    bindE (tx_read_key proof_trunc data pos) (\<lambda>(commitment, pos).
    bindE (tx_read_key proof_trunc data pos) (\<lambda>(asset, pos).
    bindE (tx_skip proof_trunc data (8 + 8 + 1) pos) (\<lambda>pos.
    bindE (read_proof_outputs n data pos) (\<lambda>(rest, pos). Ok ((commitment, asset) # rest, pos)))))))))"

definition parse_current_extra ::
  "u8 list \<Rightarrow> u8 \<Rightarrow> zano_curve_key option \<Rightarrow> nat \<Rightarrow> (zano_curve_key option \<times> nat) result"
where
  "parse_current_extra data tag found pos =
    read_extra proof_trunc ''multiple miner transaction public keys'' ''unsupported current miner-tx extra tag: ''
      data tag found pos"

fun parse_extras :: "nat \<Rightarrow> u8 list \<Rightarrow> zano_curve_key option \<Rightarrow> nat \<Rightarrow> (zano_curve_key option \<times> nat) result" where
  "parse_extras 0 data found pos = Ok (found, pos)"
| "parse_extras (Suc n) data found pos =
    bindE (tx_read_u8 proof_trunc data pos) (\<lambda>(tag, pos).
    bindE (parse_current_extra data tag found pos) (\<lambda>(found, pos). parse_extras n data found pos))"

definition parse_proof_inputs :: "u8 list \<Rightarrow> parsed_proof_inputs result" where
  "parse_proof_inputs data =
    bindE (tx_read_varint proof_trunc data 0) (\<lambda>(version, pos).
    if version \<noteq> 4 then Throw (Runtime_error ''unsupported miner transaction version'')
    else bindE (tx_read_varint proof_trunc data pos) (\<lambda>(vins, pos).
    if vins \<noteq> 1 then Throw (Runtime_error ''current PoW miner transaction must have txin_gen'')
    else bindE (tx_read_u8 proof_trunc data pos) (\<lambda>(tag, pos).
    if tag \<noteq> 0 then Throw (Runtime_error ''current PoW miner transaction must have txin_gen'')
    else bindE (tx_read_varint proof_trunc data pos) (\<lambda>(height, pos).
    bindE (tx_read_varint proof_trunc data pos) (\<lambda>(extras, pos).
    if extras > 1024 then Throw (Runtime_error ''unreasonable miner transaction extra count'')
    else bindE (parse_extras (unat extras) data None pos) (\<lambda>(found, pos).
    case found of
      None \<Rightarrow> Throw (Runtime_error ''miner transaction has no public key'')
    | Some key \<Rightarrow>
        bindE (tx_read_varint proof_trunc data pos) (\<lambda>(n, pos).
        if unat n < kCurrentMinerMinOutputs \<or> unat n > kCurrentMinerMaxOutputs
        then Throw (Runtime_error ''invalid current miner output count'')
        else bindE (read_proof_outputs (unat n) data pos) (\<lambda>(outs, pos).
        bindE (tx_read_u8 proof_trunc data pos) (\<lambda>(hardfork, pos).
        if hardfork \<noteq> 6 \<or> pos \<noteq> length data
        then Throw (Runtime_error ''unexpected miner hardfork/trailing prefix data'')
        else Ok \<lparr>pi_tx_public_key = key, pi_amount_commitments = map fst outs, pi_blinded_asset_ids = map snd outs\<rparr>)))))))))"

section \<open>The range proof\<close>

definition parse_current_range_proof ::
  "u8 list \<Rightarrow> nat \<Rightarrow> (zano_bpp_signature \<times> zano_ug_aggregation_proof) result"
where
  "parse_current_range_proof data outputs =
    (if outputs < kCurrentMinerMinOutputs \<or> outputs > kCurrentMinerMaxOutputs
     then Throw (Runtime_error ''invalid output count for range proof'')
     else
       let expected_rounds = kBppLog2N + ceil_log2 outputs in
       bindE (read_key_vector (kBppLog2N + 5) data 0) (\<lambda>(left, pos).
       bindE (read_key_vector (kBppLog2N + 5) data pos) (\<lambda>(right, pos).
       if length left \<noteq> expected_rounds \<or> length right \<noteq> expected_rounds
       then Throw (Runtime_error ''unexpected current BPP round count'')
       else
         bindE (tx_read_key proof_trunc data pos) (\<lambda>(a0, pos).
         bindE (tx_read_key proof_trunc data pos) (\<lambda>(a, pos).
         bindE (tx_read_key proof_trunc data pos) (\<lambda>(b, pos).
         bindE (tx_read_key proof_trunc data pos) (\<lambda>(r, pos).
         bindE (tx_read_key proof_trunc data pos) (\<lambda>(s, pos).
         bindE (tx_read_key proof_trunc data pos) (\<lambda>(delta, pos).
         bindE (read_key_vector kCurrentMinerMaxOutputs data pos) (\<lambda>(commitments, pos).
         bindE (read_key_vector kCurrentMinerMaxOutputs data pos) (\<lambda>(y0s, pos).
         bindE (read_key_vector kCurrentMinerMaxOutputs data pos) (\<lambda>(y1s, pos).
         bindE (tx_read_key proof_trunc data pos) (\<lambda>(c, pos).
         if length commitments \<noteq> outputs \<or> length y0s \<noteq> outputs \<or> length y1s \<noteq> outputs \<or> pos \<noteq> length data
         then Throw (Runtime_error ''range-proof aggregation count/trailing-data mismatch'')
         else Ok (\<lparr>bpp_left = left, bpp_right = right, bpp_a0 = a0, bpp_a = a, bpp_b = b, bpp_r = r, bpp_s = s,
             bpp_delta = delta\<rparr>,
           \<lparr>ug_amount_commitments = commitments, ug_y0s = y0s, ug_y1s = y1s, ug_c = c\<rparr>))))))))))))))"

definition current_range_proof_payload :: "p2p_mining_context_proposal \<Rightarrow> mining_header_work \<Rightarrow> u8 list result" where
  "current_range_proof_payload p work =
    (let miner_suffix = header_serialized_size (block_header work) + prefix_serialized_size (miner_tx_prefix work);
         tx_hashes_at = trailer_serialized_offset (tx_hashes work);
         blob = pr_block_template_blob p
     in if miner_suffix > length blob \<or> tx_hashes_at > length blob \<or> tx_hashes_at < kBalanceProofSerializedSize \<or>
          miner_suffix + 4 > tx_hashes_at
        then Throw (Runtime_error ''invalid current miner proof offsets'')
        else if blob ! miner_suffix \<noteq> 0 \<or> blob ! (miner_suffix + 1) \<noteq> 0 \<or> blob ! (miner_suffix + 2) \<noteq> 2 \<or>
          blob ! (miner_suffix + 3) \<noteq> kRangeProofTag
        then Throw (Runtime_error ''unexpected current miner proof vector shape'')
        else
          let balance_tag = tx_hashes_at - kBalanceProofSerializedSize in
          if balance_tag \<le> miner_suffix + 4 \<or> blob ! balance_tag \<noteq> kBalanceProofTag
          then Throw (Runtime_error ''missing current balance proof after range proof'')
          else Ok (slice (miner_suffix + 4) (balance_tag - (miner_suffix + 4)) blob))"

section \<open>The checks\<close>

datatype p2p_miner_tx_proof_status =
    BalanceVerifiedRangePending
  | ProofsVerified
  | Proof_not_anchored
  | PayoutPolicyFailed
  | Proof_backend_unavailable
  | MalformedBlock
  | MalformedRangeProof
  | InvalidBalanceProof
  | InvalidRangeProof

record p2p_miner_tx_proof_result =
  proof_status :: p2p_miner_tx_proof_status
  proof_payout_status :: p2p_payout_policy_status

text \<open>The try block of \<open>verify_balance_after_payout\<close>: \<open>Throw\<close> is caught there.\<close>

definition balance_check ::
  "('p, 's) zano_crypto \<Rightarrow> p2p_mining_context_proposal \<Rightarrow> p2p_mining_context_check_result \<Rightarrow>
    p2p_miner_tx_proof_status result"
where
  "balance_check crv p anchored =
    bindE (derive_mining_header_work (pr_block_template_blob p)) (\<lambda>work.
    if header_hash work \<noteq> check_mining_header_hash anchored \<or> prefix_hash (miner_tx_prefix work) = 0
    then Ok Proof_not_anchored
    else bindE (parse_proof_inputs (prefix_serialized (miner_tx_prefix work))) (\<lambda>inputs.
    let tx_hashes_at = trailer_serialized_offset (tx_hashes work); blob = pr_block_template_blob p in
    if tx_hashes_at < kBalanceProofSerializedSize \<or> tx_hashes_at > length blob then Ok MalformedBlock
    else
      let balance_tag = tx_hashes_at - kBalanceProofSerializedSize in
      if blob ! balance_tag \<noteq> kBalanceProofTag then Ok MalformedBlock
      else if \<not> zano_verify_hf6_miner_balance_proof crv (prefix_hash (miner_tx_prefix work)) (pr_block_reward p)
          (pi_tx_public_key inputs) (pi_amount_commitments inputs) (slice (balance_tag + 1) kBalanceProofPayloadSize blob)
      then Ok InvalidBalanceProof
      else Ok BalanceVerifiedRangePending))"

definition verify_balance_after_payout ::
  "('p, 's) zano_crypto \<Rightarrow> p2p_mining_context_proposal \<Rightarrow> p2p_mining_context_check_result \<Rightarrow>
    p2p_payout_policy_result \<Rightarrow> p2p_miner_tx_proof_result"
where
  "verify_balance_after_payout crv p anchored payout_result =
    (let result = \<lparr>proof_status = MalformedBlock, proof_payout_status = policy_status payout_result\<rparr> in
     if policy_status payout_result \<noteq> Policy_verified
     then result\<lparr>proof_status :=
       (if policy_status payout_result = Policy_not_anchored then Proof_not_anchored
        else if policy_status payout_result = Policy_backend_unavailable then Proof_backend_unavailable
        else PayoutPolicyFailed)\<rparr>
     else if \<not> zano_curve_backend_available crv then result\<lparr>proof_status := Proof_backend_unavailable\<rparr>
     else case balance_check crv p anchored of
       Inl e \<Rightarrow> result\<lparr>proof_status := MalformedBlock\<rparr>
     | Inr status \<Rightarrow> result\<lparr>proof_status := status\<rparr>)"

definition range_check ::
  "('p, 's) zano_crypto \<Rightarrow> p2p_mining_context_proposal \<Rightarrow> p2p_mining_context_check_result \<Rightarrow>
    p2p_miner_tx_proof_status result"
where
  "range_check crv p anchored =
    bindE (derive_mining_header_work (pr_block_template_blob p)) (\<lambda>work.
    if header_hash work \<noteq> check_mining_header_hash anchored \<or> prefix_hash (miner_tx_prefix work) = 0
    then Ok Proof_not_anchored
    else bindE (parse_proof_inputs (prefix_serialized (miner_tx_prefix work))) (\<lambda>inputs.
    bindE (current_range_proof_payload p work) (\<lambda>range_payload.
    bindE (parse_current_range_proof range_payload (length (pi_amount_commitments inputs))) (\<lambda>(bpp, aggregation).
    if \<not> zano_verify_hf6_miner_range_proof crv (prefix_hash (miner_tx_prefix work)) (pi_amount_commitments inputs)
        (pi_blinded_asset_ids inputs) bpp aggregation
    then Ok InvalidRangeProof
    else Ok ProofsVerified))))"

definition verify_range_after_balance ::
  "('p, 's) zano_crypto \<Rightarrow> p2p_mining_context_proposal \<Rightarrow> p2p_mining_context_check_result \<Rightarrow>
    p2p_miner_tx_proof_result \<Rightarrow> p2p_miner_tx_proof_result"
where
  "verify_range_after_balance crv p anchored result =
    (if proof_status result \<noteq> BalanceVerifiedRangePending then result
     else case range_check crv p anchored of
       Inl (Runtime_error e) \<Rightarrow> result\<lparr>proof_status := MalformedRangeProof\<rparr>
     | Inl e \<Rightarrow> result\<lparr>proof_status := MalformedBlock\<rparr>
     | Inr status \<Rightarrow> result\<lparr>proof_status := status\<rparr>)"

section \<open>The entry points\<close>

definition verify_p2p_mining_context_bootstrap_balance_proof ::
  "('p, 's) zano_crypto \<Rightarrow> json_tokener \<Rightarrow> p2p_mining_context_proposal \<Rightarrow> p2p_mining_context_check_result \<Rightarrow>
    p2p_miner_tx_proof_result result"
where
  "verify_p2p_mining_context_bootstrap_balance_proof crv tok p anchored =
    bindE (verify_p2p_mining_context_bootstrap_payout_policy crv tok p anchored) (\<lambda>r.
      Ok (verify_balance_after_payout crv p anchored r))"

definition verify_p2p_mining_context_bootstrap_proofs ::
  "('p, 's) zano_crypto \<Rightarrow> json_tokener \<Rightarrow> p2p_mining_context_proposal \<Rightarrow> p2p_mining_context_check_result \<Rightarrow>
    p2p_miner_tx_proof_result result"
where
  "verify_p2p_mining_context_bootstrap_proofs crv tok p anchored =
    bindE (verify_p2p_mining_context_bootstrap_balance_proof crv tok p anchored) (\<lambda>r.
      Ok (verify_range_after_balance crv p anchored r))"

definition verify_p2p_mining_context_balance_proof ::
  "('p, 's) zano_crypto \<Rightarrow> json_tokener \<Rightarrow> p2p_payout_address \<Rightarrow> p2p_mining_context_proposal \<Rightarrow>
    p2p_mining_context_check_result \<Rightarrow> p2p_miner_tx_proof_result result"
where
  "verify_p2p_mining_context_balance_proof crv tok expected_payout p anchored =
    bindE (verify_p2p_mining_context_payout_policy crv tok expected_payout p anchored) (\<lambda>r.
      Ok (verify_balance_after_payout crv p anchored r))"

definition verify_p2p_mining_context_plan_balance_proof ::
  "('p, 's) zano_crypto \<Rightarrow> json_tokener \<Rightarrow> pplns_coinbase_plan \<Rightarrow> p2p_mining_context_proposal \<Rightarrow>
    p2p_mining_context_check_result \<Rightarrow> p2p_miner_tx_proof_result result"
where
  "verify_p2p_mining_context_plan_balance_proof crv tok plan p anchored =
    bindE (verify_p2p_mining_context_plan_policy crv tok plan p anchored) (\<lambda>r.
      Ok (verify_balance_after_payout crv p anchored r))"

definition verify_p2p_mining_context_proofs ::
  "('p, 's) zano_crypto \<Rightarrow> json_tokener \<Rightarrow> p2p_payout_address \<Rightarrow> p2p_mining_context_proposal \<Rightarrow>
    p2p_mining_context_check_result \<Rightarrow> p2p_miner_tx_proof_result result"
where
  "verify_p2p_mining_context_proofs crv tok expected_payout p anchored =
    bindE (verify_p2p_mining_context_balance_proof crv tok expected_payout p anchored) (\<lambda>r.
      Ok (verify_range_after_balance crv p anchored r))"

definition verify_p2p_mining_context_plan_proofs ::
  "('p, 's) zano_crypto \<Rightarrow> json_tokener \<Rightarrow> pplns_coinbase_plan \<Rightarrow> p2p_mining_context_proposal \<Rightarrow>
    p2p_mining_context_check_result \<Rightarrow> p2p_miner_tx_proof_result result"
where
  "verify_p2p_mining_context_plan_proofs crv tok plan p anchored =
    bindE (verify_p2p_mining_context_plan_balance_proof crv tok plan p anchored) (\<lambda>r.
      Ok (verify_range_after_balance crv p anchored r))"

definition p2p_miner_tx_proof_status_name :: "p2p_miner_tx_proof_status \<Rightarrow> string" where
  "p2p_miner_tx_proof_status_name status =
    (case status of
      BalanceVerifiedRangePending \<Rightarrow> ''balance-verified-range-pending''
    | ProofsVerified \<Rightarrow> ''proofs-verified''
    | Proof_not_anchored \<Rightarrow> ''not-anchored''
    | PayoutPolicyFailed \<Rightarrow> ''payout-policy-failed''
    | Proof_backend_unavailable \<Rightarrow> ''backend-unavailable''
    | MalformedBlock \<Rightarrow> ''malformed-block''
    | MalformedRangeProof \<Rightarrow> ''malformed-range-proof''
    | InvalidBalanceProof \<Rightarrow> ''invalid-balance-proof''
    | InvalidRangeProof \<Rightarrow> ''invalid-range-proof'')"

section \<open>What the checks establish\<close>

definition balance_proved :: "('p, 's) zano_crypto \<Rightarrow> p2p_mining_context_proposal \<Rightarrow> mining_header_work \<Rightarrow> bool" where
  "balance_proved crv p work \<longleftrightarrow>
    (\<exists>inputs. parse_proof_inputs (prefix_serialized (miner_tx_prefix work)) = Ok inputs \<and>
      zano_verify_hf6_miner_balance_proof crv (prefix_hash (miner_tx_prefix work)) (pr_block_reward p)
        (pi_tx_public_key inputs) (pi_amount_commitments inputs)
        (slice (trailer_serialized_offset (tx_hashes work) - 96) 96 (pr_block_template_blob p)))"

definition range_proved :: "('p, 's) zano_crypto \<Rightarrow> p2p_mining_context_proposal \<Rightarrow> mining_header_work \<Rightarrow> bool" where
  "range_proved crv p work \<longleftrightarrow>
    (\<exists>inputs payload bpp aggregation. parse_proof_inputs (prefix_serialized (miner_tx_prefix work)) = Ok inputs \<and>
      current_range_proof_payload p work = Ok payload \<and>
      parse_current_range_proof payload (length (pi_amount_commitments inputs)) = Ok (bpp, aggregation) \<and>
      zano_verify_hf6_miner_range_proof crv (prefix_hash (miner_tx_prefix work)) (pi_amount_commitments inputs)
        (pi_blinded_asset_ids inputs) bpp aggregation)"

lemma balance_check_verified:
  assumes "balance_check crv p anchored = Ok BalanceVerifiedRangePending"
    and "derive_mining_header_work (pr_block_template_blob p) = Ok work"
  shows "balance_proved crv p work" "header_hash work = check_mining_header_hash anchored"
proof -
  have at: "\<not> n < 97 \<Longrightarrow> Suc (n - 97) = n - 96" for n :: nat by simp
  show "balance_proved crv p work" "header_hash work = check_mining_header_hash anchored"
    using assms
    by (auto simp: balance_check_def balance_proved_def bindE_eq_Ok Let_def kBalanceProofSerializedSize_def
        kBalanceProofPayloadSize_def at split: if_splits)
qed

lemma balance_check_pending: "balance_check crv p anchored \<noteq> Ok ProofsVerified"
  by (auto simp: balance_check_def bindE_eq_Ok Let_def split: if_splits)

lemma range_check_verified:
  assumes "range_check crv p anchored = Ok ProofsVerified"
    and "derive_mining_header_work (pr_block_template_blob p) = Ok work"
  shows "range_proved crv p work" "header_hash work = check_mining_header_hash anchored"
  using assms by (auto simp: range_check_def range_proved_def bindE_eq_Ok Let_def split: if_splits)

lemma proofs_verifiedE:
  assumes "proof_status (verify_range_after_balance crv p anchored (verify_balance_after_payout crv p anchored r)) =
    ProofsVerified"
  obtains work where "policy_status r = Policy_verified"
    "proof_payout_status (verify_range_after_balance crv p anchored (verify_balance_after_payout crv p anchored r)) = Policy_verified"
    "derive_mining_header_work (pr_block_template_blob p) = Ok work"
    "header_hash work = check_mining_header_hash anchored" "balance_proved crv p work" "range_proved crv p work"
proof -
  have pol: "policy_status r = Policy_verified" and bal: "balance_check crv p anchored = Ok BalanceVerifiedRangePending"
    and range: "range_check crv p anchored = Ok ProofsVerified"
    using assms
    by (auto simp: verify_range_after_balance_def verify_balance_after_payout_def Let_def balance_check_pending
        split: if_splits sum.splits exn.splits)
  then obtain work where w: "derive_mining_header_work (pr_block_template_blob p) = Ok work"
    by (auto simp: balance_check_def bindE_eq_Ok)
  have "proof_payout_status (verify_range_after_balance crv p anchored (verify_balance_after_payout crv p anchored r)) = Policy_verified"
    using pol by (auto simp: verify_range_after_balance_def verify_balance_after_payout_def Let_def
        split: sum.split exn.split)
  with pol w balance_check_verified [OF bal w] range_check_verified [OF range w] show thesis by (intro that)
qed

end
