(* ===== verification/Context_Trust.thy ===== *)
theory Context_Trust
  imports Miner_Tx_Proofs P2p_Share
begin

text \<open>
  \<open>src/src/p2p_mining_context_trust.cpp\<close>: the only way for work of a peer into the registry of trusted
  work. The five entry points are instances of one function, which takes the proof verifier as an
  argument. Between a throw and the end of the function the registry does not change, so an exception
  is the result alone.
\<close>

section \<open>Promotion\<close>

datatype p2p_mining_context_trust_status =
    Trusted
  | Trust_capability_missing
  | Trust_anchor_mismatch
  | ProofsRejected

record p2p_mining_context_trust_result =
  trust_status :: p2p_mining_context_trust_status
  trust_check_status :: p2p_mining_context_check_status
  trust_proof_status :: p2p_miner_tx_proof_status
  trust_payout_status :: p2p_payout_policy_status
  trust_proposal_id :: hash256
  trusted_context :: share_work_context
  registry_inserted :: bool

type_synonym proof_verifier =
  "p2p_mining_context_proposal \<Rightarrow> p2p_mining_context_check_result \<Rightarrow> p2p_miner_tx_proof_result result"

definition promote_p2p_mining_context_impl ::
  "json_tokener \<Rightarrow> registry \<Rightarrow> p2p_handshake \<Rightarrow> p2p_envelope \<Rightarrow> p2p_mining_anchor \<Rightarrow> share_id \<Rightarrow> proof_verifier \<Rightarrow>
    (registry \<times> p2p_mining_context_trust_result) result"
where
  "promote_p2p_mining_context_impl tok trusted_work peer envelope local_anchor expected_parent_id verify_proofs =
    bindE (inspect_p2p_mining_context tok peer envelope local_anchor) (\<lambda>check.
    let result = \<lparr>trust_status = ProofsRejected, trust_check_status = check_status check,
      trust_proof_status = Proof_not_anchored, trust_payout_status = Policy_malformed_miner_tx_prefix,
      trust_proposal_id = check_proposal_id check,
      trusted_context = \<lparr>ctx_zano_height = 0, ctx_mining_header_hash = 0, ctx_network_difficulty = 0\<rparr>,
      registry_inserted = False\<rparr> in
    if check_status check = Check_capability_missing
    then Ok (trusted_work, result\<lparr>trust_status := Trust_capability_missing\<rparr>)
    else if check_status check \<noteq> AnchoredUnverifiedMinerTx
    then Ok (trusted_work, result\<lparr>trust_status := Trust_anchor_mismatch\<rparr>)
    else
      bindE (parse_p2p_mining_context_envelope tok envelope) (\<lambda>p.
      bindE (verify_proofs p check) (\<lambda>proof_result.
      let result = result\<lparr>trust_proof_status := proof_status proof_result,
        trust_payout_status := proof_payout_status proof_result\<rparr> in
      if proof_status proof_result \<noteq> ProofsVerified
      then Ok (trusted_work, result\<lparr>trust_status := ProofsRejected\<rparr>)
      else
        let ctx = \<lparr>ctx_zano_height = anchor_zano_height local_anchor,
              ctx_mining_header_hash = check_mining_header_hash check,
              ctx_network_difficulty = anchor_network_difficulty local_anchor\<rparr>;
            already_trusted = registry_find trusted_work (ctx_zano_height ctx) (ctx_mining_header_hash ctx)
              expected_parent_id \<noteq> None
        in bindE (remember_with_provenance trusted_work ctx expected_parent_id (anchor_prev_hash local_anchor))
            (\<lambda>trusted_work'. Ok (trusted_work', result\<lparr>trusted_context := ctx,
              registry_inserted := \<not> already_trusted, trust_status := Trusted\<rparr>)))))"

definition promote_bootstrap_p2p_mining_context ::
  "('p, 's) zano_crypto \<Rightarrow> json_tokener \<Rightarrow> registry \<Rightarrow> p2p_handshake \<Rightarrow> p2p_envelope \<Rightarrow> p2p_mining_anchor \<Rightarrow>
    (registry \<times> p2p_mining_context_trust_result) result"
where
  "promote_bootstrap_p2p_mining_context crv tok trusted_work peer envelope local_anchor =
    promote_p2p_mining_context_impl tok trusted_work peer envelope local_anchor 0
      (verify_p2p_mining_context_bootstrap_proofs crv tok)"

definition promote_p2p_mining_context_at_root ::
  "('p, 's) zano_crypto \<Rightarrow> json_tokener \<Rightarrow> registry \<Rightarrow> p2p_handshake \<Rightarrow> p2p_envelope \<Rightarrow> p2p_mining_anchor \<Rightarrow>
    p2p_payout_address \<Rightarrow> (registry \<times> p2p_mining_context_trust_result) result"
where
  "promote_p2p_mining_context_at_root crv tok trusted_work peer envelope local_anchor expected_payout =
    promote_p2p_mining_context_impl tok trusted_work peer envelope local_anchor 0
      (verify_p2p_mining_context_proofs crv tok expected_payout)"

definition promote_p2p_mining_context_at_parent ::
  "('p, 's) zano_crypto \<Rightarrow> json_tokener \<Rightarrow> registry \<Rightarrow> p2p_handshake \<Rightarrow> p2p_envelope \<Rightarrow> p2p_mining_anchor \<Rightarrow>
    share_id \<Rightarrow> p2p_payout_address \<Rightarrow> (registry \<times> p2p_mining_context_trust_result) result"
where
  "promote_p2p_mining_context_at_parent crv tok trusted_work peer envelope local_anchor expected_parent_id expected_payout =
    promote_p2p_mining_context_impl tok trusted_work peer envelope local_anchor expected_parent_id
      (verify_p2p_mining_context_proofs crv tok expected_payout)"

definition promote_p2p_mining_context_plan_at_root ::
  "('p, 's) zano_crypto \<Rightarrow> json_tokener \<Rightarrow> registry \<Rightarrow> p2p_handshake \<Rightarrow> p2p_envelope \<Rightarrow> p2p_mining_anchor \<Rightarrow>
    pplns_coinbase_plan \<Rightarrow> (registry \<times> p2p_mining_context_trust_result) result"
where
  "promote_p2p_mining_context_plan_at_root crv tok trusted_work peer envelope local_anchor expected_plan =
    promote_p2p_mining_context_impl tok trusted_work peer envelope local_anchor 0
      (verify_p2p_mining_context_plan_proofs crv tok expected_plan)"

definition promote_p2p_mining_context_plan_at_parent ::
  "('p, 's) zano_crypto \<Rightarrow> json_tokener \<Rightarrow> registry \<Rightarrow> p2p_handshake \<Rightarrow> p2p_envelope \<Rightarrow> p2p_mining_anchor \<Rightarrow>
    share_id \<Rightarrow> pplns_coinbase_plan \<Rightarrow> (registry \<times> p2p_mining_context_trust_result) result"
where
  "promote_p2p_mining_context_plan_at_parent crv tok trusted_work peer envelope local_anchor expected_parent_id expected_plan =
    promote_p2p_mining_context_impl tok trusted_work peer envelope local_anchor expected_parent_id
      (verify_p2p_mining_context_plan_proofs crv tok expected_plan)"

definition p2p_mining_context_trust_status_name :: "p2p_mining_context_trust_status \<Rightarrow> string" where
  "p2p_mining_context_trust_status_name status =
    (case status of
      Trusted \<Rightarrow> ''trusted''
    | Trust_capability_missing \<Rightarrow> ''capability-missing''
    | Trust_anchor_mismatch \<Rightarrow> ''anchor-mismatch''
    | ProofsRejected \<Rightarrow> ''proofs-rejected'')"

section \<open>The contract of a proof verifier\<close>

text \<open>A verifier looks only at a proposal that is the inspected one, and what it verifies of the
  template's header work has the property \<open>pays\<close>. It fails only when the identifier of the proposal
  cannot be computed.\<close>

locale context_verifier =
  fixes tok :: json_tokener
    and verify :: proof_verifier
    and pays :: "p2p_mining_context_proposal \<Rightarrow> mining_header_work \<Rightarrow> bool"
  assumes verified: "verify p check = Ok r \<Longrightarrow> proof_status r = ProofsVerified \<Longrightarrow>
      \<exists>work. derive_mining_header_work (pr_block_template_blob p) = Ok work \<and>
        header_hash work = check_mining_header_hash check \<and>
        p2p_mining_context_id tok p = Ok (check_proposal_id check) \<and> pays p work"
    and throws: "verify p check = Throw e \<Longrightarrow> p2p_mining_context_id tok p = Throw e"
begin

text \<open>Only verified work enters, under the local anchor's height and difficulty, with its header derived
  from the template and the local parent block as its provenance.\<close>

lemma promoted:
  assumes "promote_p2p_mining_context_impl tok reg peer envelope anchor parent verify = Ok (reg', r)"
    and "trust_status r = Trusted"
  shows "\<exists>p work. parse_p2p_mining_context_envelope tok envelope = Ok p \<and> anchor_matches p anchor \<and>
    derive_mining_header_work (pr_block_template_blob p) = Ok work \<and>
    require_current_hf6_structural_bindings p work = Ok () \<and> pays p work \<and>
    trusted_context r = \<lparr>ctx_zano_height = anchor_zano_height anchor, ctx_mining_header_hash = header_hash work,
      ctx_network_difficulty = anchor_network_difficulty anchor\<rparr> \<and>
    remember_with_provenance reg (trusted_context r) parent (anchor_prev_hash anchor) = Ok reg'"
proof -
  from assms obtain check p q where c: "inspect_p2p_mining_context tok peer envelope anchor = Ok check"
    "check_status check = AnchoredUnverifiedMinerTx" "parse_p2p_mining_context_envelope tok envelope = Ok p"
    "verify p check = Ok q" "proof_status q = ProofsVerified"
    and ctx: "trusted_context r = \<lparr>ctx_zano_height = anchor_zano_height anchor,
      ctx_mining_header_hash = check_mining_header_hash check, ctx_network_difficulty = anchor_network_difficulty anchor\<rparr>"
    and rem: "remember_with_provenance reg (trusted_context r) parent (anchor_prev_hash anchor) = Ok reg'"
    by (auto simp: promote_p2p_mining_context_impl_def bindE_eq_Ok Let_def split: if_splits)
  obtain p' work where i: "parse_p2p_mining_context_envelope tok envelope = Ok p'" "anchor_matches p' anchor"
    "derive_mining_header_work (pr_block_template_blob p') = Ok work"
    "require_current_hf6_structural_bindings p' work = Ok ()" "check_mining_header_hash check = header_hash work"
    using c(1,2) by (rule inspect_anchored)
  from c(3) i(1) have p': "p' = p" by simp
  from verified [OF c(4,5)] i(3) have "pays p work" unfolding p' by auto
  with i c(3) ctx rem show ?thesis unfolding p' by auto
qed

lemma not_promoted:
  assumes "promote_p2p_mining_context_impl tok reg peer envelope anchor parent verify = Ok (reg', r)"
    and "trust_status r \<noteq> Trusted"
  shows "reg' = reg \<and> \<not> registry_inserted r"
  using assms by (auto simp: promote_p2p_mining_context_impl_def bindE_eq_Ok Let_def split: if_splits)

text \<open>The verifiers are \<open>noexcept\<close>: an exception in them would end the program. It does not happen, since
  the inspection has computed the same identifier.\<close>

lemma verifier_returns:
  assumes "inspect_p2p_mining_context tok peer envelope anchor = Ok check"
    and "check_status check = AnchoredUnverifiedMinerTx" "parse_p2p_mining_context_envelope tok envelope = Ok p"
  shows "\<exists>q. verify p check = Ok q"
proof (cases "verify p check")
  case (Inl e)
  obtain p' where i: "parse_p2p_mining_context_envelope tok envelope = Ok p'"
    "p2p_mining_context_id tok p' = Ok (check_proposal_id check)"
    using assms(1,2) by (rule inspect_anchored)
  with assms(3) throws [OF Inl] show ?thesis by simp
qed simp

end

section \<open>The three verifiers meet it\<close>

definition pays_something :: "('p, 's) zano_crypto \<Rightarrow> json_tokener \<Rightarrow> p2p_mining_context_proposal \<Rightarrow> mining_header_work \<Rightarrow> bool" where
  "pays_something crv tok p work \<longleftrightarrow>
    (\<exists>outs tgc. opened crv tok (prefix_serialized (miner_tx_prefix work)) (pr_miner_tx_tgc_json p) (pr_block_reward p) outs tgc) \<and>
    balance_proved crv p work \<and> range_proved crv p work"

definition pays_address ::
  "('p, 's) zano_crypto \<Rightarrow> json_tokener \<Rightarrow> p2p_payout_address \<Rightarrow> p2p_mining_context_proposal \<Rightarrow> mining_header_work \<Rightarrow> bool"
where
  "pays_address crv tok addr p work \<longleftrightarrow>
    (\<exists>outs tgc. opened crv tok (prefix_serialized (miner_tx_prefix work)) (pr_miner_tx_tgc_json p) (pr_block_reward p) outs tgc \<and>
      (\<forall>i<length outs. pays_to crv tgc (pa_spend_public_key addr) (pa_view_public_key addr) i (outs ! i))) \<and>
    balance_proved crv p work \<and> range_proved crv p work"

definition pays_plan ::
  "('p, 's) zano_crypto \<Rightarrow> json_tokener \<Rightarrow> pplns_coinbase_plan \<Rightarrow> p2p_mining_context_proposal \<Rightarrow> mining_header_work \<Rightarrow> bool"
where
  "pays_plan crv tok plan p work \<longleftrightarrow>
    (\<exists>outs tgc. opened crv tok (prefix_serialized (miner_tx_prefix work)) (pr_miner_tx_tgc_json p) (pr_block_reward p) outs tgc \<and>
      check_expected_plan (pr_block_reward p) plan \<and>
      (\<forall>i<length outs. \<exists>m<length (plan_destinations plan). \<forall>j<length (plan_destinations plan).
        dest_pays crv tgc (plan_destinations plan ! j) i (outs ! i) \<longleftrightarrow> j = m) \<and>
      (\<forall>d\<in>set (plan_destinations plan). credit crv tgc outs d = unat (cd_amount d))) \<and>
    balance_proved crv p work \<and> range_proved crv p work"

lemma anchored_policy_verified:
  assumes "anchored_policy tok p check policy = Ok r" "policy_status r = Policy_verified"
  shows "\<exists>work. derive_mining_header_work (pr_block_template_blob p) = Ok work \<and>
    p2p_mining_context_id tok p = Ok (check_proposal_id check) \<and> policy_status (policy work) = Policy_verified"
  using assms by (auto simp: anchored_policy_def bindE_eq_Ok split: if_splits sum.splits)

lemma anchored_policy_throws: "anchored_policy tok p check policy = Throw e \<Longrightarrow> p2p_mining_context_id tok p = Throw e"
  by (auto simp: anchored_policy_def bindE_eq_Throw split: if_splits sum.splits)

text \<open>From a policy to a verifier.\<close>

lemma context_verifierI:
  assumes verify: "\<And>p check. verify p check = bindE (anchored_policy tok p check (policy p)) (\<lambda>r.
      Ok (verify_range_after_balance crv p check (verify_balance_after_payout crv p check r)))"
    and policy: "\<And>p work. policy_status (policy p work) = Policy_verified \<Longrightarrow>
      balance_proved crv p work \<Longrightarrow> range_proved crv p work \<Longrightarrow> pays p work"
  shows "context_verifier tok verify pays"
proof
  fix p check r assume "verify p check = Ok r" "proof_status r = ProofsVerified"
  then obtain s where s: "anchored_policy tok p check (policy p) = Ok s"
    "proof_status (verify_range_after_balance crv p check (verify_balance_after_payout crv p check s)) = ProofsVerified"
    by (auto simp: verify bindE_eq_Ok)
  obtain work where w: "policy_status s = Policy_verified" "derive_mining_header_work (pr_block_template_blob p) = Ok work"
    "header_hash work = check_mining_header_hash check" "balance_proved crv p work" "range_proved crv p work"
    using s(2) by (rule proofs_verifiedE)
  from anchored_policy_verified [OF s(1) w(1)] w policy
  show "\<exists>work. derive_mining_header_work (pr_block_template_blob p) = Ok work \<and>
      header_hash work = check_mining_header_hash check \<and>
      p2p_mining_context_id tok p = Ok (check_proposal_id check) \<and> pays p work"
    by auto
next
  fix p check e assume "verify p check = Throw e"
  then show "p2p_mining_context_id tok p = Throw e"
    by (auto simp: verify bindE_eq_Throw dest: anchored_policy_throws)
qed

interpretation bootstrap_verifier: context_verifier tok "verify_p2p_mining_context_bootstrap_proofs crv tok"
  "pays_something crv tok" for crv :: "('p, 's) zano_crypto" and tok
  by (rule context_verifierI [where crv = crv and policy = "\<lambda>p work. verify_miner_tx_bootstrap_policy crv tok
      (prefix_serialized (miner_tx_prefix work)) (pr_miner_tx_tgc_json p) (pr_block_reward_without_fee p)
      (pr_block_reward p) (pr_txs_fee p)"])
    (auto simp: verify_p2p_mining_context_bootstrap_proofs_def verify_p2p_mining_context_bootstrap_balance_proof_def
      verify_p2p_mining_context_bootstrap_payout_policy_def bindE_def pays_something_def split: sum.split
      dest: bootstrap_policy_verified)

interpretation address_verifier: context_verifier tok "verify_p2p_mining_context_proofs crv tok addr"
  "pays_address crv tok addr" for crv :: "('p, 's) zano_crypto" and tok addr
  by (rule context_verifierI [where crv = crv and policy = "\<lambda>p work. verify_miner_tx_payout_policy crv tok
      (prefix_serialized (miner_tx_prefix work)) (pr_miner_tx_tgc_json p) (pr_block_reward_without_fee p)
      (pr_block_reward p) (pr_txs_fee p) addr"])
    (auto simp: verify_p2p_mining_context_proofs_def verify_p2p_mining_context_balance_proof_def
      verify_p2p_mining_context_payout_policy_def bindE_def pays_address_def split: sum.split
      dest: single_policy_verified)

interpretation plan_verifier: context_verifier tok "verify_p2p_mining_context_plan_proofs crv tok plan"
  "pays_plan crv tok plan" for crv :: "('p, 's) zano_crypto" and tok plan
  by (rule context_verifierI [where crv = crv and policy = "\<lambda>p work. verify_miner_tx_plan_policy crv tok
      (prefix_serialized (miner_tx_prefix work)) (pr_miner_tx_tgc_json p) (pr_block_reward_without_fee p)
      (pr_block_reward p) (pr_txs_fee p) plan"])
    (auto simp: verify_p2p_mining_context_plan_proofs_def verify_p2p_mining_context_plan_balance_proof_def
      verify_p2p_mining_context_plan_policy_def bindE_def pays_plan_def split: sum.split
      dest: plan_policy_verified)

section \<open>What enters the registry\<close>

lemma remember_exact:
  assumes "registry_inv reg" "remember_with_provenance reg ctx parent prev = Ok reg'"
  shows "fmlookup reg' = (fmlookup reg)((ctx_zano_height ctx, ctx_mining_header_hash ctx, parent) \<mapsto>
      \<lparr>entry_context = ctx, entry_zano_parent_hash = Some prev\<rparr>)"
proof (cases "fmlookup reg (context_key ctx parent)")
  case None
  with assms(2) show ?thesis by (auto simp: remember_with_provenance_def context_key_def split: if_splits)
next
  case (Some e)
  from assms(2) Some have d: "ctx_network_difficulty (entry_context e) = ctx_network_difficulty ctx"
    and r: "reg' = fmupd (context_key ctx parent) (e\<lparr>entry_zano_parent_hash := Some prev\<rparr>) reg"
    by (auto simp: remember_with_provenance_def split: if_splits)
  have "entry_context e = ctx"
    using registry_invD [OF assms(1) Some] d by (auto simp: context_key_def intro: share_work_context.equality)
  then have "e\<lparr>entry_zano_parent_hash := Some prev\<rparr> = \<lparr>entry_context = ctx, entry_zano_parent_hash = Some prev\<rparr>"
    by (cases e) simp
  then show ?thesis by (auto simp: r context_key_def)
qed

text \<open>C8. Work of a peer becomes trusted only with full verification. When the promotion against a payout
  plan says trusted, the peer's template has the height, the parent block, the difficulty and the reward
  that this node's own daemon reported; its header was derived from the template's bytes; its miner
  transaction pays the plan exactly; and its balance and range proofs hold. Exactly one registry entry is
  written, for the given parent share, with the locally known values. In every other case the registry is
  unchanged.\<close>

theorem promotion_trusts_only_verified_work:
  assumes "registry_inv reg"
    and "promote_p2p_mining_context_plan_at_parent crv tok reg peer envelope anchor parent plan = Ok (reg', r)"
  shows "if trust_status r = Trusted
    then \<exists>p work. parse_p2p_mining_context_envelope tok envelope = Ok p \<and> anchor_matches p anchor \<and>
      derive_mining_header_work (pr_block_template_blob p) = Ok work \<and> pays_plan crv tok plan p work \<and>
      fmlookup reg' = (fmlookup reg)((anchor_zano_height anchor, header_hash work, parent) \<mapsto>
        \<lparr>entry_context = \<lparr>ctx_zano_height = anchor_zano_height anchor, ctx_mining_header_hash = header_hash work,
            ctx_network_difficulty = anchor_network_difficulty anchor\<rparr>,
          entry_zano_parent_hash = Some (anchor_prev_hash anchor)\<rparr>)
    else reg' = reg"
proof (cases "trust_status r = Trusted")
  case True
  from plan_verifier.promoted [OF assms(2) [unfolded promote_p2p_mining_context_plan_at_parent_def] True]
  obtain p work where w: "parse_p2p_mining_context_envelope tok envelope = Ok p" "anchor_matches p anchor"
    "derive_mining_header_work (pr_block_template_blob p) = Ok work" "pays_plan crv tok plan p work"
    "trusted_context r = \<lparr>ctx_zano_height = anchor_zano_height anchor, ctx_mining_header_hash = header_hash work,
      ctx_network_difficulty = anchor_network_difficulty anchor\<rparr>"
    "remember_with_provenance reg (trusted_context r) parent (anchor_prev_hash anchor) = Ok reg'"
    by blast
  from remember_exact [OF assms(1) w(6)] w(1-5) True show ?thesis by auto
next
  case False
  with plan_verifier.not_promoted [OF assms(2) [unfolded promote_p2p_mining_context_plan_at_parent_def]]
  show ?thesis by simp
qed

subsection \<open>The sample template\<close>

lemma two_proof_outputs: "read_proof_outputs 2 data pos =
    bindE (read_proof_outputs (Suc 0) data pos) (\<lambda>(outs, pos).
    bindE (read_proof_outputs (Suc 0) data pos) (\<lambda>(outs', pos). Ok (outs @ outs', pos)))"
  unfolding numeral_2_eq_2 by (auto simp: bindE_def split: sum.split)

lemma sample_proof_inputs:
  "parse_proof_inputs sample_prefix = Ok \<lparr>pi_tx_public_key = 0, pi_amount_commitments = [0, 0],
    pi_blinded_asset_ids = [kNativeCoinAssetId1Div8, kNativeCoinAssetId1Div8]\<rparr>"
proof -
  have "read_proof_outputs (Suc 0) sample_prefix 39 = Ok ([(0, kNativeCoinAssetId1Div8)], 186)"
    "read_proof_outputs (Suc 0) sample_prefix 186 = Ok ([(0, kNativeCoinAssetId1Div8)], 333)"
    by (simp_all add: tx_readers kNativeCoinAssetId1Div8_def native_asset_bytes_def)
  then show ?thesis
    by (simp add: parse_proof_inputs_def tx_readers parse_current_extra_def read_extra_def two_proof_outputs
        kCurrentMinerMinOutputs_def kCurrentMinerMaxOutputs_def)
qed

definition sample_range :: "u8 list" where
  "sample_range = [7] @ replicate 224 0 @ [7] @ replicate 224 0 @ replicate 192 0 @
    [2] @ replicate 64 0 @ [2] @ replicate 64 0 @ [2] @ replicate 64 0 @ replicate 32 0"

lemma read_keys_zero:
  "slice pos (32 * n) data = replicate (32 * n) 0 \<Longrightarrow> pos + 32 * n \<le> length data \<Longrightarrow>
    read_keys n data pos = Ok (replicate n 0, pos + 32 * n)"
proof (induction n arbitrary: pos)
  case (Suc n)
  have split: "slice pos 32 data = take 32 (slice pos (32 * Suc n) data)"
    "slice (pos + 32) (32 * n) data = drop 32 (slice pos (32 * Suc n) data)"
    by (simp_all add: slice_def drop_take add.commute)
  then have "slice pos 32 data = replicate 32 0" "slice (pos + 32) (32 * n) data = replicate (32 * n) 0"
    unfolding Suc.prems(1) by simp_all
  with Suc.IH [of "pos + 32"] Suc.prems(2) show ?case by (simp add: tx_key_at zero_key)
qed simp

lemma sample_range_payload: "current_range_proof_payload sample_proposal sample_work = Ok sample_range"
proof -
  have b: "sample_blob ! 378 = 0" "sample_blob ! 379 = 0" "sample_blob ! 380 = 2" "sample_blob ! 381 = 47" "sample_blob ! 1251 = 48"
    by (simp_all add: sample_parts nth_append)
  have "slice 382 869 sample_blob = sample_range"
    by (simp add: slice_def sample_range_def sample_parts)
  with b show ?thesis
    by (simp add: current_range_proof_payload_def sample_work_derived sample_proposal_def sample_lengths
        kBalanceProofSerializedSize_def kBalanceProofPayloadSize_def kBalanceProofTag_def kRangeProofTag_def Let_def)
qed

lemma sample_range_parses:
  "parse_current_range_proof sample_range 2 = Ok
    (\<lparr>bpp_left = replicate 7 0, bpp_right = replicate 7 0, bpp_a0 = 0, bpp_a = 0, bpp_b = 0, bpp_r = 0, bpp_s = 0, bpp_delta = 0\<rparr>,
     \<lparr>ug_amount_commitments = replicate 2 0, ug_y0s = replicate 2 0, ug_y1s = replicate 2 0, ug_c = 0\<rparr>)"
proof -
  let ?d = "sample_range"
  have len: "length ?d = 869" by (simp add: sample_range_def)
  have b: "?d ! 0 = 7" "?d ! 225 = 7" "?d ! 642 = 2" "?d ! 707 = 2" "?d ! 772 = 2"
    by (simp_all add: sample_range_def nth_append)
  have z: "slice 1 224 ?d = replicate 224 0" "slice 226 224 ?d = replicate 224 0" "slice 450 32 ?d = replicate 32 0"
    "slice 482 32 ?d = replicate 32 0" "slice 514 32 ?d = replicate 32 0" "slice 546 32 ?d = replicate 32 0"
    "slice 578 32 ?d = replicate 32 0" "slice 610 32 ?d = replicate 32 0" "slice 643 64 ?d = replicate 64 0"
    "slice 708 64 ?d = replicate 64 0" "slice 773 64 ?d = replicate 64 0" "slice 837 32 ?d = replicate 32 0"
    by (simp_all add: slice_def sample_range_def drop_Cons')
  have v: "read_key_vector 11 ?d 0 = Ok (replicate 7 0, 225)" "read_key_vector 11 ?d 225 = Ok (replicate 7 0, 450)"
    "read_key_vector 32 ?d 642 = Ok (replicate 2 0, 707)" "read_key_vector 32 ?d 707 = Ok (replicate 2 0, 772)"
    "read_key_vector 32 ?d 772 = Ok (replicate 2 0, 837)"
    using z read_keys_zero [of _ 7 ?d] read_keys_zero [of _ 2 ?d]
    by (simp_all add: read_key_vector_def tx_varint_at len b)
  have rounds: "ceil_log2 2 = 1" by (simp add: ceil_log2_def count_halvings.simps)
  show ?thesis
    by (simp add: parse_current_range_proof_def kCurrentMinerMinOutputs_def kCurrentMinerMaxOutputs_def kBppLog2N_def
        v rounds tx_key_at len z zero_key Let_def)
qed

definition sample_anchor :: p2p_mining_anchor where
  "sample_anchor = \<lparr>anchor_zano_height = 5, anchor_prev_hash = sample_prev, anchor_network_difficulty = array_of_nat 9,
    anchor_seed = 0, anchor_block_reward_without_fee = 7\<rparr>"

definition sample_context_peer :: p2p_handshake where
  "sample_context_peer = \<lparr>hs_network = P2p_Mainnet, hs_node_id = 0, hs_capabilities = kP2pCapabilityMiningContext,
    hs_listen_port = 1, hs_best_share_id = 0, hs_best_share_height = 0, hs_sidechain_id = 0\<rparr>"

definition sample_envelope :: p2p_envelope where
  "sample_envelope = default_envelope Mining_context_announce (context_bytes sample_proposal)"

definition sample_check :: p2p_mining_context_check_result where
  "sample_check = \<lparr>check_status = AnchoredUnverifiedMinerTx, check_proposal_id = cn_fast_hash (context_bytes sample_proposal),
    check_mining_header_hash = header_hash sample_work, regular_transaction_count = 0\<rparr>"

lemma sample_fields:
  "pr_block_template_blob sample_proposal = sample_blob" "pr_miner_tx_tgc_json sample_proposal = ''x''"
  "pr_block_reward_without_fee sample_proposal = 7" "pr_block_reward sample_proposal = 7" "pr_txs_fee sample_proposal = 0"
  by (simp_all add: sample_proposal_def)

lemma sample_parsed: "parse_p2p_mining_context_envelope sample_tok sample_envelope = Ok sample_proposal"
  "p2p_mining_context_id sample_tok sample_proposal = Ok (cn_fast_hash (context_bytes sample_proposal))"
  by (simp_all add: parse_context_eq_Ok make_context_eq_Ok sample_serializable sample_envelope_def context_id_eq_Ok)

lemma sample_inspected: "inspect_p2p_mining_context sample_tok sample_context_peer sample_envelope sample_anchor = Ok sample_check"
proof -
  have "anchor_matches sample_proposal sample_anchor"
    by (simp add: anchor_matches_def sample_proposal_def sample_anchor_def)
  moreover have "hs_capabilities sample_context_peer AND kP2pCapabilityMiningContext \<noteq> 0"
    by (simp add: sample_context_peer_def kP2pCapabilityMiningContext_def)
  ultimately show ?thesis
    by (simp add: inspect_p2p_mining_context_def sample_parsed sample_fields sample_work_derived sample_bindings
        sample_tgc_valid sample_check_def)
qed

lemma sample_range_verifies:
  "zano_verify_hf6_miner_range_proof sample_crypto h [0, 0] [t, t]
    \<lparr>bpp_left = replicate 7 0, bpp_right = replicate 7 0, bpp_a0 = 0, bpp_a = 0, bpp_b = 0, bpp_r = 0, bpp_s = 0, bpp_delta = 0\<rparr>
    \<lparr>ug_amount_commitments = replicate 2 0, ug_y0s = replicate 2 0, ug_y1s = replicate 2 0, ug_c = 0\<rparr>"
proof -
  have "ceil_log2 (Suc (Suc 0)) = 1" by (simp add: ceil_log2_def count_halvings.simps)
  then show ?thesis
    by (simp add: zano_verify_hf6_miner_range_proof_def verify_ug_aggregation_proof_def sample_crypto_def numeral_2_eq_2)
qed

lemma sample_balance_range:
  assumes "cn_fast_hash sample_prefix \<noteq> 0" "policy_status r = Policy_verified"
  shows "verify_range_after_balance sample_crypto sample_proposal sample_check
      (verify_balance_after_payout sample_crypto sample_proposal sample_check r) =
    \<lparr>proof_status = ProofsVerified, proof_payout_status = Policy_verified\<rparr>"
proof -
  have "sample_blob ! 1251 = 48" by (simp add: sample_parts nth_append)
  then have "balance_check sample_crypto sample_proposal sample_check = Ok BalanceVerifiedRangePending"
    using assms(1)
    by (simp add: balance_check_def sample_fields sample_work_derived sample_check_def sample_proof_inputs sample_lengths
        kBalanceProofSerializedSize_def kBalanceProofPayloadSize_def kBalanceProofTag_def Let_def
        zano_verify_hf6_miner_balance_proof_def sample_crypto_def)
  moreover have "range_check sample_crypto sample_proposal sample_check = Ok ProofsVerified"
    using assms(1)
    by (simp add: range_check_def sample_fields sample_work_derived sample_check_def sample_proof_inputs
        sample_range_payload sample_range_parses sample_range_verifies suc_two)
  ultimately show ?thesis
    using assms(2) sample_curve
    by (simp add: verify_balance_after_payout_def verify_range_after_balance_def zano_curve_backend_available_def)
qed

lemma sample_proofs:
  assumes "cn_fast_hash sample_prefix \<noteq> 0"
  shows "verify_p2p_mining_context_plan_proofs sample_crypto sample_tok sample_plan sample_proposal sample_check =
      Ok \<lparr>proof_status = ProofsVerified, proof_payout_status = Policy_verified\<rparr>"
    "verify_p2p_mining_context_bootstrap_proofs sample_crypto sample_tok sample_proposal sample_check =
      Ok \<lparr>proof_status = ProofsVerified, proof_payout_status = Policy_verified\<rparr>"
proof -
  have "verify_p2p_mining_context_plan_policy sample_crypto sample_tok sample_plan sample_proposal sample_check =
      Ok (verify_miner_tx_plan_policy sample_crypto sample_tok sample_prefix ''x'' 7 7 0 sample_plan)"
    by (simp add: verify_p2p_mining_context_plan_policy_def anchored_policy_def sample_parsed sample_check_def
        sample_fields sample_work_derived)
  then show "verify_p2p_mining_context_plan_proofs sample_crypto sample_tok sample_plan sample_proposal sample_check =
      Ok \<lparr>proof_status = ProofsVerified, proof_payout_status = Policy_verified\<rparr>"
    by (simp add: verify_p2p_mining_context_plan_proofs_def verify_p2p_mining_context_plan_balance_proof_def
        sample_balance_range [OF assms sample_plan_verified])
  have "verify_p2p_mining_context_bootstrap_payout_policy sample_crypto sample_tok sample_proposal sample_check =
      Ok (verify_miner_tx_bootstrap_policy sample_crypto sample_tok sample_prefix ''x'' 7 7 0)"
    by (simp add: verify_p2p_mining_context_bootstrap_payout_policy_def anchored_policy_def sample_parsed sample_check_def
        sample_fields sample_work_derived)
  then show "verify_p2p_mining_context_bootstrap_proofs sample_crypto sample_tok sample_proposal sample_check =
      Ok \<lparr>proof_status = ProofsVerified, proof_payout_status = Policy_verified\<rparr>"
    by (simp add: verify_p2p_mining_context_bootstrap_proofs_def verify_p2p_mining_context_bootstrap_balance_proof_def
        sample_balance_range [OF assms sample_bootstrap_verified])
qed

theorem promotion_trusts_only_verified_work_witness:
  "\<exists>reg r. promote_p2p_mining_context_plan_at_parent sample_crypto sample_tok fmempty sample_context_peer sample_envelope
      sample_anchor 0 sample_plan = Ok (reg, r) \<and>
    (cn_fast_hash sample_prefix = 0 \<or> trust_status r = Trusted) \<and>
    (if trust_status r = Trusted
     then fmlookup reg (5, header_hash sample_work, 0) =
       Some \<lparr>entry_context = \<lparr>ctx_zano_height = 5, ctx_mining_header_hash = header_hash sample_work,
         ctx_network_difficulty = array_of_nat 9\<rparr>, entry_zano_parent_hash = Some sample_prev\<rparr>
     else reg = fmempty)"
proof -
  let ?promote = "promote_p2p_mining_context_plan_at_parent sample_crypto sample_tok fmempty sample_context_peer sample_envelope
      sample_anchor 0 sample_plan"
  obtain q where q: "verify_p2p_mining_context_plan_proofs sample_crypto sample_tok sample_plan sample_proposal sample_check = Ok q"
    using plan_verifier.verifier_returns [OF sample_inspected _ sample_parsed(1)] by (auto simp: sample_check_def)
  have d: "anchor_network_difficulty sample_anchor \<noteq> 0"
    by (simp add: sample_anchor_def arr_val_eq_iff [symmetric] arr_val_array_of_nat)
  have status: "check_status sample_check = AnchoredUnverifiedMinerTx" by (simp add: sample_check_def)
  have "\<exists>reg r. ?promote = Ok (reg, r) \<and> (proof_status q = ProofsVerified \<longrightarrow> trust_status r = Trusted)"
    using d
    by (simp add: promote_p2p_mining_context_plan_at_parent_def promote_p2p_mining_context_impl_def sample_inspected
        status sample_parsed(1) q remember_with_provenance_def Let_def)
  then obtain reg r where r: "?promote = Ok (reg, r)" "proof_status q = ProofsVerified \<longrightarrow> trust_status r = Trusted" by blast
  have "cn_fast_hash sample_prefix = 0 \<or> trust_status r = Trusted"
    using r(2) q sample_proofs(1) by (cases "cn_fast_hash sample_prefix = 0") auto
  moreover have "if trust_status r = Trusted
     then fmlookup reg (5, header_hash sample_work, 0) =
       Some \<lparr>entry_context = \<lparr>ctx_zano_height = 5, ctx_mining_header_hash = header_hash sample_work,
         ctx_network_difficulty = array_of_nat 9\<rparr>, entry_zano_parent_hash = Some sample_prev\<rparr>
     else reg = fmempty"
    using promotion_trusts_only_verified_work [OF registry_inv_empty r(1)]
    by (auto simp: sample_parsed(1) sample_fields sample_work_derived(1) sample_anchor_def split: if_splits)
  ultimately show ?thesis using r(1) by blast
qed

end
