(* ===== verification/Work_Archive.thy ===== *)
theory Work_Archive
  imports Mining_Context
begin

text \<open>
  \<open>src/src/mining_work_archive.cpp\<close>: the directory of mining work that a node has seen, one file per
  record, named by the hash of its content. The directory is the list of its entries in the order in
  which it is iterated; an entry is a regular file with its bytes or something else. A node writes the
  archive from one thread at a time; failures of the file system are not modelled.
\<close>

section \<open>Directories\<close>

datatype dir_entry = Regular_file "u8 list" | Other_entry

type_synonym directory = "(string \<times> dir_entry) list"

text \<open>\<open>std::filesystem::path::stem\<close> and \<open>extension\<close> of a file name: the name is cut before its last
  dot, unless that is the first character.\<close>

definition file_stem :: "string \<Rightarrow> string" where
  "file_stem name =
    (let before = rev (tl (dropWhile (\<lambda>c. c \<noteq> CHR ''.'') (rev name)))
     in if before = [] then name else before)"

definition file_extension :: "string \<Rightarrow> string" where
  "file_extension name = drop (length (file_stem name)) name"

section \<open>Records\<close>

definition work_magic :: "u8 list" where
  "work_magic = [0x5a, 0x50, 0x32, 0x57, 0x4f, 0x52, 0x4b, 0x31]"

definition work_header_size :: nat where
  "work_header_size = 8 + 32 + 4"

definition work_digest_size :: nat where
  "work_digest_size = 32"

definition check_payload_size :: "nat \<Rightarrow> unit result" where
  "check_payload_size sz =
    (if sz < kP2pMiningContextFixedPayloadSize \<or> sz > kP2pMaxPayloadSize
     then Throw (Runtime_error ''invalid mining-work archive payload length'') else Ok ())"

definition id_from_filename :: "string \<Rightarrow> hash256 result" where
  "id_from_filename path =
    (let name = file_stem path in
     if length name \<noteq> 64 \<or> \<not> list_all (\<lambda>c. CHR ''0'' \<le> c \<and> c \<le> CHR ''9'' \<or> CHR ''a'' \<le> c \<and> c \<le> CHR ''f'') name
     then Throw (Runtime_error ''invalid mining-work archive filename'')
     else bindE (hex_to_bytes name) (\<lambda>bytes. Ok (array_of bytes)))"

record work_archive =
  archive_directory :: string
  archive_sidechain_id :: hash256

definition make_work_archive :: "string \<Rightarrow> hash256 \<Rightarrow> work_archive result" where
  "make_work_archive path sid =
    (if path = [] \<or> sid = 0
     then Throw (Invalid_argument ''mining-work archive requires directory and sidechain ID'')
     else Ok \<lparr>archive_directory = path, archive_sidechain_id = sid\<rparr>)"

definition work_file_name :: "hash256 \<Rightarrow> string" where
  "work_file_name i = hash_to_hex i @ ''.work''"

text \<open>The checks of \<open>read\<close> on the bytes of the file.\<close>

definition check_work_record :: "work_archive \<Rightarrow> hash256 \<Rightarrow> u8 list \<Rightarrow> u8 list result" where
  "check_work_record ar i bytes =
    (let sz = length bytes in
     if sz < work_header_size + work_digest_size \<or>
       sz > work_header_size + kP2pMaxPayloadSize + work_digest_size
     then Throw (Runtime_error ''invalid mining-work archive record size'')
     else if take 8 bytes \<noteq> work_magic \<or> slice 8 32 bytes \<noteq> bytes_of (archive_sidechain_id ar)
     then Throw (Runtime_error ''mining-work archive version/sidechain mismatch'')
     else
       let len = unat (foldl shift_in 0 (slice 40 4 bytes) :: u64) in
       bindE (check_payload_size len) (\<lambda>_.
         if sz \<noteq> work_header_size + len + work_digest_size
         then Throw (Runtime_error ''mining-work archive length mismatch'')
         else
           let payload = slice work_header_size len bytes;
               checksum = cn_fast_hash (take (work_header_size + len) bytes)
           in if cn_fast_hash payload \<noteq> i \<or> bytes_of checksum \<noteq> drop (sz - work_digest_size) bytes
              then Throw (Runtime_error ''mining-work archive checksum/ID mismatch'')
              else Ok payload))"

definition archive_read :: "work_archive \<Rightarrow> directory \<Rightarrow> hash256 \<Rightarrow> u8 list result" where
  "archive_read ar dir i =
    (case map_of dir (work_file_name i) of
      Some (Regular_file bytes) \<Rightarrow> check_work_record ar i bytes
    | _ \<Rightarrow> Throw (Runtime_error ''mining-work archive record is not a regular file''))"

definition work_record :: "work_archive \<Rightarrow> u8 list \<Rightarrow> u8 list" where
  "work_record ar payload =
    (let body = work_magic @ bytes_of (archive_sidechain_id ar) @
       map (\<lambda>shift. word_of_nat (drop_bit shift (length payload))) [24, 16, 8, 0] @ payload
     in body @ bytes_of (cn_fast_hash body))"

definition archive_put :: "work_archive \<Rightarrow> directory \<Rightarrow> u8 list \<Rightarrow> directory \<times> hash256 result" where
  "archive_put ar dir payload =
    (case check_payload_size (length payload) of
      Inl e \<Rightarrow> (dir, Throw e)
    | Inr _ \<Rightarrow>
        let i = cn_fast_hash payload in
        if map_of dir (work_file_name i) \<noteq> None
        then (case archive_read ar dir i of
          Inl e \<Rightarrow> (dir, Throw e)
        | Inr existing \<Rightarrow>
            if existing \<noteq> payload
            then (dir, Throw (Runtime_error ''conflicting mining-work archive record''))
            else (dir, Ok i))
        else (dir @ [(work_file_name i, Regular_file (work_record ar payload))], Ok i))"

section \<open>Enumeration\<close>

definition is_tmp_name :: "string \<Rightarrow> bool" where
  "is_tmp_name name \<longleftrightarrow> take 5 name = ''.tmp-''"

definition list_step :: "work_archive \<Rightarrow> directory \<Rightarrow> nat \<Rightarrow> string \<times> dir_entry \<Rightarrow> hash256 list \<Rightarrow> hash256 list result" where
  "list_step ar dir max_records entry ids =
    (if is_tmp_name (fst entry) then Ok ids
     else if file_extension (fst entry) \<noteq> ''.work''
     then Throw (Runtime_error ''unexpected file in mining-work archive'')
     else if length ids \<ge> max_records
     then Throw (Runtime_error ''mining-work archive scan limit exceeded'')
     else bindE (id_from_filename (fst entry)) (\<lambda>i.
       bindE (archive_read ar dir i) (\<lambda>_. Ok (ids @ [i]))))"

definition list_ids :: "work_archive \<Rightarrow> directory \<Rightarrow> nat \<Rightarrow> hash256 list result" where
  "list_ids ar dir max_records =
    bindE (forE (list_step ar dir max_records) dir []) (\<lambda>ids. Ok (sort ids))"

definition verify_step :: "work_archive \<Rightarrow> directory \<Rightarrow> string \<times> dir_entry \<Rightarrow> nat \<Rightarrow> nat result" where
  "verify_step ar dir entry n =
    (if is_tmp_name (fst entry) then Ok n
     else if file_extension (fst entry) \<noteq> ''.work''
     then Throw (Runtime_error ''unexpected file in mining-work archive'')
     else bindE (id_from_filename (fst entry)) (\<lambda>i.
       bindE (archive_read ar dir i) (\<lambda>_. Ok (n + 1))))"

definition verify_all :: "work_archive \<Rightarrow> directory \<Rightarrow> nat result" where
  "verify_all ar dir = forE (verify_step ar dir) dir 0"

section \<open>Names\<close>

lemma hash_to_hex_facts:
  "length (hash_to_hex i) = 64"
  "list_all (\<lambda>c. CHR ''0'' \<le> c \<and> c \<le> CHR ''9'' \<or> CHR ''a'' \<le> c \<and> c \<le> CHR ''f'') (hash_to_hex i)"
  "hex_to_bytes (hash_to_hex i) = Ok (bytes_of i)"
proof -
  show "length (hash_to_hex i) = 64" by (simp add: hash_to_hex_def length_bytes_to_hex)
  have "list_all (\<lambda>c. CHR ''0'' \<le> c \<and> c \<le> CHR ''9'' \<or> CHR ''a'' \<le> c \<and> c \<le> CHR ''f'') kHex"
    by code_simp
  then show "list_all (\<lambda>c. CHR ''0'' \<le> c \<and> c \<le> CHR ''9'' \<or> CHR ''a'' \<le> c \<and> c \<le> CHR ''f'') (hash_to_hex i)"
    unfolding hash_to_hex_def list_all_iff using set_bytes_to_hex by blast
  show "hex_to_bytes (hash_to_hex i) = Ok (bytes_of i)"
    unfolding hash_to_hex_def by (rule hex_to_bytes_bytes_to_hex)
qed

lemma work_file_name_parts:
  "file_stem (work_file_name i) = hash_to_hex i" "file_extension (work_file_name i) = ''.work''"
  "id_from_filename (work_file_name i) = Ok i" "\<not> is_tmp_name (work_file_name i)"
proof -
  have "hash_to_hex i \<noteq> []" using hash_to_hex_facts(1) [of i] by auto
  then show stem: "file_stem (work_file_name i) = hash_to_hex i"
    by (simp add: file_stem_def work_file_name_def)
  then show "file_extension (work_file_name i) = ''.work''"
    by (simp add: file_extension_def work_file_name_def)
  show "id_from_filename (work_file_name i) = Ok i"
    using hash_to_hex_facts [of i] by (simp add: id_from_filename_def stem)
  obtain c cs where "hash_to_hex i = c # cs" using \<open>hash_to_hex i \<noteq> []\<close> by (cases "hash_to_hex i") auto
  moreover have "\<not> (CHR ''0'' \<le> CHR ''.'' \<and> CHR ''.'' \<le> CHR ''9'' \<or> CHR ''a'' \<le> CHR ''.'' \<and> CHR ''.'' \<le> CHR ''f'')"
    by code_simp
  ultimately have "c \<noteq> CHR ''.''" using hash_to_hex_facts(2) [of i] by auto
  with \<open>hash_to_hex i = c # cs\<close> show "\<not> is_tmp_name (work_file_name i)"
    by (simp add: is_tmp_name_def work_file_name_def)
qed

lemma work_file_name_inj [simp]: "work_file_name i = work_file_name j \<longleftrightarrow> i = j"
  by (metis work_file_name_parts(3) sum.inject(2))

section \<open>Reading is exact\<close>

abbreviation payload_fits :: "u8 list \<Rightarrow> bool" where
  "payload_fits payload \<equiv> 121 \<le> length payload \<and> length payload \<le> kP2pMaxPayloadSize"

lemma check_payload_size_ok [simp]:
  "check_payload_size n = Ok u \<longleftrightarrow> 121 \<le> n \<and> n \<le> kP2pMaxPayloadSize"
  by (auto simp: check_payload_size_def kP2pMiningContextFixedPayloadSize_def)

lemma length_field: "map (\<lambda>shift. word_of_nat (drop_bit shift n)) [24, 16, 8, 0] = be_bytes 4 n"
proof -
  have "n div 256 div 256 = n div 2 ^ 16" "n div 2 ^ 16 div 256 = n div 2 ^ 24" "n div 2 ^ 8 = n div 256"
    by (simp_all add: div_mult2_eq [symmetric])
  moreover have "be_bytes 4 n = be_bytes (Suc (Suc (Suc (Suc 0)))) n"
    by (rule arg_cong [where f = "\<lambda>k. be_bytes k n"]) simp
  ultimately show ?thesis by (simp add: drop_bit_eq_div)
qed

lemma length_field_value:
  "length bs = 4 \<Longrightarrow> unat (foldl shift_in 0 bs :: u64) = be_val bs"
  using be_val_less [of bs] by (simp add: unat_foldl_shift_in)

lemma work_record_length: "length (work_record ar payload) = length payload + 76"
  by (simp add: work_record_def Let_def work_magic_def)

lemma check_work_record_eq_Ok:
  "check_work_record ar i bytes = Ok payload \<longleftrightarrow>
    payload_fits payload \<and> i = cn_fast_hash payload \<and> bytes = work_record ar payload"
proof
  assume R: "payload_fits payload \<and> i = cn_fast_hash payload \<and> bytes = work_record ar payload"
  let ?r = "work_record ar payload"
  let ?body = "work_magic @ bytes_of (archive_sidechain_id ar) @ be_bytes 4 (length payload) @ payload"
  have r: "?r = ?body @ bytes_of (cn_fast_hash ?body)"
    by (simp only: work_record_def Let_def length_field append.assoc)
  have body: "length ?body = 44 + length payload" by (simp add: work_magic_def)
  have f: "take 8 ?r = work_magic" "slice 8 32 ?r = bytes_of (archive_sidechain_id ar)"
    "slice 40 4 ?r = be_bytes 4 (length payload)" "slice 44 (length payload) ?r = payload"
    by (simp_all add: r slice_def work_magic_def)
  have g: "take (44 + length payload) ?r = ?body" "drop (44 + length payload) ?r = bytes_of (cn_fast_hash ?body)"
    unfolding r using body by (simp_all only: take_append drop_append) simp_all
  have n: "unat (foldl shift_in 0 (be_bytes 4 (length payload)) :: u64) = length payload"
    using R by (simp add: length_field_value be_val_be_bytes kP2pMaxPayloadSize_def)
  show "check_work_record ar i bytes = Ok payload"
    using R by (simp add: check_work_record_def work_header_size_def work_digest_size_def
        work_record_length bindE_eq_Ok f g n Let_def)
next
  assume L: "check_work_record ar i bytes = Ok payload"
  then have len: "76 \<le> length bytes"
    by (auto simp: check_work_record_def work_header_size_def work_digest_size_def Let_def split: if_splits)
  then have field: "unat (foldl shift_in 0 (slice 40 4 bytes) :: u64) = be_val (slice 40 4 bytes)"
    by (intro length_field_value) simp
  let ?n = "be_val (slice 40 4 bytes)"
  from L have magic: "take 8 bytes = work_magic" and sid: "slice 8 32 bytes = bytes_of (archive_sidechain_id ar)"
    and n: "121 \<le> ?n" "?n \<le> kP2pMaxPayloadSize" "length bytes = 76 + ?n"
    and payload: "payload = slice 44 ?n bytes" "cn_fast_hash payload = i"
    and digest: "bytes_of (cn_fast_hash (take (44 + ?n) bytes)) = drop (length bytes - 32) bytes"
    unfolding check_work_record_def field
    by (simp_all add: work_header_size_def work_digest_size_def Let_def bindE_eq_Ok split: if_splits)
  have pl: "length payload = ?n" using payload(1) n(3) by simp
  have fl: "be_bytes 4 (length payload) = slice 40 4 bytes"
    unfolding pl using len by (intro be_bytes_be_val) simp
  have "take (44 + ?n) bytes = take 8 bytes @ slice 8 32 bytes @ slice 40 4 bytes @ slice 44 ?n bytes"
    using take_add [of 8 36 bytes] take_add [of 32 4 "drop 8 bytes"] by (simp add: slice_def take_add)
  then have body: "take (44 + ?n) bytes = work_magic @ bytes_of (archive_sidechain_id ar) @
      be_bytes 4 (length payload) @ payload"
    unfolding magic sid fl payload(1) [symmetric] .
  have "bytes = take (44 + ?n) bytes @ drop (44 + ?n) bytes" by simp
  also have "drop (44 + ?n) bytes = bytes_of (cn_fast_hash (take (44 + ?n) bytes))"
    using digest n(3) by simp
  finally have "bytes = work_record ar payload"
    unfolding body work_record_def Let_def length_field by simp
  with payload(2) n pl show "payload_fits payload \<and> i = cn_fast_hash payload \<and> bytes = work_record ar payload"
    by simp
qed

lemma archive_read_eq_Ok:
  "archive_read ar dir i = Ok payload \<longleftrightarrow>
    payload_fits payload \<and> i = cn_fast_hash payload \<and>
    map_of dir (work_file_name i) = Some (Regular_file (work_record ar payload))"
  by (auto simp: archive_read_def check_work_record_eq_Ok split: option.splits dir_entry.splits)

section \<open>Archives\<close>

text \<open>An archive that only this program has written: records under the names of their content and
  temporary files of interrupted writes.\<close>

definition archive_ok :: "work_archive \<Rightarrow> directory \<Rightarrow> bool" where
  "archive_ok ar dir \<longleftrightarrow> distinct (map fst dir) \<and>
    (\<forall>(name, entry)\<in>set dir. is_tmp_name name \<or>
      (\<exists>payload. payload_fits payload \<and> name = work_file_name (cn_fast_hash payload) \<and>
        entry = Regular_file (work_record ar payload)))"

definition archive_ids :: "directory \<Rightarrow> hash256 list" where
  "archive_ids dir = map (\<lambda>entry. projr (id_from_filename (fst entry))) (filter (\<lambda>entry. \<not> is_tmp_name (fst entry)) dir)"

lemma archive_entryE:
  assumes "archive_ok ar dir" "entry \<in> set dir" "\<not> is_tmp_name (fst entry)"
  obtains payload where "payload_fits payload"
    "entry = (work_file_name (cn_fast_hash payload), Regular_file (work_record ar payload))"
    "archive_read ar dir (cn_fast_hash payload) = Ok payload"
proof -
  obtain payload where p: "payload_fits payload"
    "entry = (work_file_name (cn_fast_hash payload), Regular_file (work_record ar payload))"
    using assms by (cases entry) (force simp: archive_ok_def)
  moreover have "map_of dir (work_file_name (cn_fast_hash payload)) = Some (Regular_file (work_record ar payload))"
    using assms(1,2) p(2) by (simp add: archive_ok_def)
  ultimately show thesis by (intro that) (auto simp: archive_read_eq_Ok)
qed

lemma archive_entry_steps:
  assumes "archive_ok ar dir" "entry \<in> set dir" "\<not> is_tmp_name (fst entry)"
  shows "length ids < max_records \<Longrightarrow>
      list_step ar dir max_records entry ids = Ok (ids @ [projr (id_from_filename (fst entry))])"
    "verify_step ar dir entry n = Ok (Suc n)"
proof -
  obtain payload where "entry = (work_file_name (cn_fast_hash payload), Regular_file (work_record ar payload))"
    "archive_read ar dir (cn_fast_hash payload) = Ok payload"
    using assms by (rule archive_entryE)
  then show "length ids < max_records \<Longrightarrow>
      list_step ar dir max_records entry ids = Ok (ids @ [projr (id_from_filename (fst entry))])"
    "verify_step ar dir entry n = Ok (Suc n)"
    by (simp_all add: list_step_def verify_step_def work_file_name_parts)
qed

lemma list_enumeration:
  assumes "archive_ok ar dir" "set entries \<subseteq> set dir" "length ids + length entries \<le> max_records"
  shows "forE (list_step ar dir max_records) entries ids = Ok (ids @ archive_ids entries)"
  using assms(2,3)
proof (induction entries arbitrary: ids)
  case (Cons entry entries)
  show ?case
  proof (cases "is_tmp_name (fst entry)")
    case True
    with Cons show ?thesis by (simp add: list_step_def archive_ids_def)
  next
    case False
    with Cons archive_entry_steps(1) [OF assms(1), of entry ids max_records] show ?thesis
      by (simp add: archive_ids_def)
  qed
qed (simp add: archive_ids_def)

lemma verify_enumeration:
  assumes "archive_ok ar dir" "set entries \<subseteq> set dir"
  shows "forE (verify_step ar dir) entries n = Ok (n + length (archive_ids entries))"
  using assms(2)
proof (induction entries arbitrary: n)
  case (Cons entry entries)
  show ?case
  proof (cases "is_tmp_name (fst entry)")
    case True
    with Cons show ?thesis by (simp add: verify_step_def archive_ids_def)
  next
    case False
    with Cons archive_entry_steps(2) [OF assms(1), of entry n] show ?thesis
      by (simp add: archive_ids_def)
  qed
qed (simp add: archive_ids_def)

lemma set_archive_ids:
  assumes "archive_ok ar dir"
  shows "set (archive_ids dir) = {i. \<exists>payload. archive_read ar dir i = Ok payload}"
proof (intro set_eqI iffI)
  fix i assume "i \<in> set (archive_ids dir)"
  then obtain entry where e: "entry \<in> set dir" "\<not> is_tmp_name (fst entry)" "i = projr (id_from_filename (fst entry))"
    by (auto simp: archive_ids_def)
  obtain payload where "entry = (work_file_name (cn_fast_hash payload), Regular_file (work_record ar payload))"
    "archive_read ar dir (cn_fast_hash payload) = Ok payload"
    using assms e(1,2) by (rule archive_entryE)
  with e(3) have "archive_read ar dir i = Ok payload" by (simp add: work_file_name_parts)
  then show "i \<in> {i. \<exists>payload. archive_read ar dir i = Ok payload}" by blast
next
  fix i assume "i \<in> {i. \<exists>payload. archive_read ar dir i = Ok payload}"
  then obtain payload where "map_of dir (work_file_name i) = Some (Regular_file (work_record ar payload))"
    by (auto simp: archive_read_eq_Ok)
  then have "(work_file_name i, Regular_file (work_record ar payload)) \<in> set dir" by (rule map_of_SomeD)
  then show "i \<in> set (archive_ids dir)"
    by (force simp: archive_ids_def work_file_name_parts)
qed

lemma distinct_archive_ids:
  assumes "archive_ok ar dir"
  shows "distinct (archive_ids dir)"
proof -
  have "inj_on (\<lambda>entry. projr (id_from_filename (fst entry))) (set (filter (\<lambda>entry. \<not> is_tmp_name (fst entry)) dir))"
  proof (rule inj_onI)
    fix a b assume "a \<in> set (filter (\<lambda>entry. \<not> is_tmp_name (fst entry)) dir)"
      "b \<in> set (filter (\<lambda>entry. \<not> is_tmp_name (fst entry)) dir)"
    then have a: "a \<in> set dir" "\<not> is_tmp_name (fst a)" and b: "b \<in> set dir" "\<not> is_tmp_name (fst b)" by simp_all
    assume eq: "projr (id_from_filename (fst a)) = projr (id_from_filename (fst b))"
    obtain p where p: "a = (work_file_name (cn_fast_hash p), Regular_file (work_record ar p))"
      "archive_read ar dir (cn_fast_hash p) = Ok p"
      using assms a by (rule archive_entryE)
    obtain q where q: "b = (work_file_name (cn_fast_hash q), Regular_file (work_record ar q))"
      "archive_read ar dir (cn_fast_hash q) = Ok q"
      using assms b by (rule archive_entryE)
    have same: "cn_fast_hash p = cn_fast_hash q"
      using eq unfolding p(1) q(1) by (simp add: work_file_name_parts)
    then have "p = q" using p(2) q(2) by (metis sum.inject(2))
    then show "a = b" unfolding p(1) q(1) by simp
  qed
  moreover have "distinct dir" using assms by (auto simp: archive_ok_def distinct_map)
  ultimately show ?thesis by (simp add: archive_ids_def distinct_map)
qed

lemma archive_ok_put:
  assumes "archive_ok ar dir" "payload_fits payload" "map_of dir (work_file_name (cn_fast_hash payload)) = None"
  shows "archive_ok ar (dir @ [(work_file_name (cn_fast_hash payload), Regular_file (work_record ar payload))])"
  using assms by (auto simp: archive_ok_def map_of_eq_None_iff)



end
