(* ===== verification/Work_Retrieval.thy ===== *)
theory Work_Retrieval
  imports Work_Archive Chain_Work
begin

text \<open>
  \<open>src/src/p2p_work_retrieval.cpp\<close>: the transfer of archived mining work between peers in chunks. The
  archive is a reference in the program; here it is the pair of the archive and its directory. Every
  \<open>std::map\<close> is a finite map visited in the order of its keys. A method that throws after it has changed
  its object returns the changed object with the exception.
\<close>

section \<open>Data\<close>

type_synonym mining_work_key = "u64 \<times> hash256"

definition kMiningWorkChunkSize :: nat where
  "kMiningWorkChunkSize = 16 * 1024"

definition kMiningWorkMaxPending :: nat where
  "kMiningWorkMaxPending = 16"

definition kMiningWorkMaxReceived :: nat where
  "kMiningWorkMaxReceived = 8"

definition kMiningWorkRequestLifetime :: u64 where
  "kMiningWorkRequestLifetime = 60"

record mining_work_request =
  rq_key :: mining_work_key
  rq_offset :: u32

record mining_work_response =
  rs_request :: mining_work_request
  rs_total_size :: u32
  rs_chunk :: "u8 list"

record mining_work_receive_result =
  rr_followup :: "p2p_envelope option"
  rr_received_id :: "hash256 option"

record pending_work =
  pw_started :: u64
  pw_total :: u32
  pw_finished :: bool
  pw_bytes :: "u8 list"

record work_retrieval =
  wr_local :: "(mining_work_key, hash256) fmap"
  wr_local_observations :: "(u64 \<times> hash256, (hash256, p2p_mining_anchor) fmap) fmap"
  wr_pending :: "(node_id \<times> mining_work_key, pending_work) fmap"
  wr_received :: "(mining_work_key, u8 list) fmap"

section \<open>Messages\<close>

definition require_work :: "bool \<Rightarrow> string \<Rightarrow> unit result" where
  "require_work ok message = (if \<not> ok then Throw (Runtime_error message) else Ok ())"

definition append_int :: "u64 \<Rightarrow> nat \<Rightarrow> u8 list" where
  "append_int n bytes = map (\<lambda>i. ucast (drop_bit ((i - 1) * 8) n)) (rev [1..<bytes + 1])"

definition integer_of_bytes :: "u8 list \<Rightarrow> u64" where
  "integer_of_bytes bytes = foldl shift_in 0 bytes"

definition check_work_envelope :: "p2p_envelope \<Rightarrow> p2p_message_type \<Rightarrow> unit result" where
  "check_work_envelope e t =
    require_work (env_version e = kP2pProtocolVersion \<and> env_type e = t \<and> env_flags e = 0 \<and>
      length (env_payload e) \<le> kP2pMaxPayloadSize) ''invalid work-retrieval envelope''"

definition check_work_peer :: "p2p_handshake \<Rightarrow> unit result" where
  "check_work_peer peer =
    require_work (hs_capabilities peer AND kP2pCapabilityWorkRetrieval \<noteq> 0) ''peer lacks work-retrieval capability''"

definition check_work_request :: "mining_work_request \<Rightarrow> unit result" where
  "check_work_request r =
    require_work (snd (rq_key r) \<noteq> 0 \<and> unat (rq_offset r) < kP2pMaxPayloadSize \<and>
      unat (rq_offset r) mod kMiningWorkChunkSize = 0) ''invalid work request key/offset''"

definition decode_work_request :: "u8 list \<Rightarrow> mining_work_request result" where
  "decode_work_request p =
    (let r = \<lparr>rq_key = (integer_of_bytes (take 8 p), array_of (slice 8 32 p)),
       rq_offset = ucast (integer_of_bytes (slice 40 4 p))\<rparr>
     in bindE (check_work_request r) (\<lambda>_. Ok r))"

definition checked_work_key :: "p2p_mining_context_proposal \<Rightarrow> mining_work_key result" where
  "checked_work_key p =
    bindE (derive_mining_header_work (pr_block_template_blob p)) (\<lambda>work. Ok (pr_zano_height p, header_hash work))"

definition checked_local_anchor :: "json_tokener \<Rightarrow> p2p_mining_context_proposal \<Rightarrow> p2p_mining_anchor result" where
  "checked_local_anchor tok p =
    bindE (validate_p2p_mining_context_structure tok p) (\<lambda>_.
      Ok \<lparr>anchor_zano_height = pr_zano_height p, anchor_prev_hash = pr_prev_hash p,
        anchor_network_difficulty = pr_network_difficulty p, anchor_seed = pr_seed p,
        anchor_block_reward_without_fee = pr_block_reward_without_fee p\<rparr>)"

definition check_work_response :: "mining_work_response \<Rightarrow> unit result" where
  "check_work_response r =
    bindE (check_work_request (rs_request r)) (\<lambda>_.
      if rs_total_size r = 0
      then require_work (rs_chunk r = []) ''not-found work response contains data''
      else bindE (require_work (unat (rs_total_size r) \<ge> kP2pMiningContextFixedPayloadSize \<and>
          unat (rs_total_size r) \<le> kP2pMaxPayloadSize \<and> rq_offset (rs_request r) < rs_total_size r)
          ''invalid work response total'') (\<lambda>_.
        require_work (length (rs_chunk r) =
          min kMiningWorkChunkSize (unat (rs_total_size r - rq_offset (rs_request r))))
          ''invalid work response chunk size''))"

definition make_mining_work_request :: "mining_work_request \<Rightarrow> p2p_envelope result" where
  "make_mining_work_request r =
    bindE (check_work_request r) (\<lambda>_.
      Ok (default_envelope Mining_work_request
        (append_int (fst (rq_key r)) 8 @ bytes_of (snd (rq_key r)) @ append_int (ucast (rq_offset r)) 4)))"

definition parse_mining_work_request :: "p2p_envelope \<Rightarrow> mining_work_request result" where
  "parse_mining_work_request e =
    bindE (check_work_envelope e Mining_work_request) (\<lambda>_.
    bindE (require_work (length (env_payload e) = 44) ''invalid work request length'') (\<lambda>_.
      decode_work_request (env_payload e)))"

definition make_mining_work_response :: "mining_work_response \<Rightarrow> p2p_envelope result" where
  "make_mining_work_response r =
    bindE (check_work_response r) (\<lambda>_.
    bindE (make_mining_work_request (rs_request r)) (\<lambda>e.
      Ok (e\<lparr>env_type := Mining_work_response,
        env_payload := env_payload e @ append_int (ucast (rs_total_size r)) 4 @ rs_chunk r\<rparr>)))"

definition parse_mining_work_response :: "p2p_envelope \<Rightarrow> mining_work_response result" where
  "parse_mining_work_response e =
    bindE (check_work_envelope e Mining_work_response) (\<lambda>_.
    bindE (require_work (length (env_payload e) \<ge> 48 \<and> length (env_payload e) \<le> 48 + kMiningWorkChunkSize)
      ''invalid work response length'') (\<lambda>_.
    bindE (decode_work_request (env_payload e)) (\<lambda>request.
      let r = \<lparr>rs_request = request, rs_total_size = ucast (integer_of_bytes (slice 44 4 (env_payload e))),
        rs_chunk = drop 48 (env_payload e)\<rparr>
      in bindE (check_work_response r) (\<lambda>_. Ok r))))"

section \<open>Local work\<close>

definition try_emplace :: "'k \<Rightarrow> 'v \<Rightarrow> ('k, 'v) fmap \<Rightarrow> ('k, 'v) fmap" where
  "try_emplace k v m = (case fmlookup m k of None \<Rightarrow> fmupd k v m | Some _ \<Rightarrow> m)"

text \<open>What the constructor and \<open>remember_local\<close> do with a checked record.\<close>

definition add_local ::
  "mining_work_key \<Rightarrow> hash256 \<Rightarrow> p2p_mining_anchor \<Rightarrow> work_retrieval \<Rightarrow> work_retrieval"
where
  "add_local key i anchor w =
    (let at = (anchor_zano_height anchor, anchor_prev_hash anchor);
         seen = (case fmlookup (wr_local_observations w) at of None \<Rightarrow> fmempty | Some m \<Rightarrow> m)
     in w\<lparr>wr_local := try_emplace key i (wr_local w),
          wr_local_observations := fmupd at (try_emplace i anchor seen) (wr_local_observations w)\<rparr>)"

definition load_work_entry ::
  "json_tokener \<Rightarrow> work_archive \<Rightarrow> directory \<Rightarrow> string \<times> dir_entry \<Rightarrow> work_retrieval \<Rightarrow> work_retrieval result"
where
  "load_work_entry tok ar dir entry w =
    (if file_extension (fst entry) \<noteq> ''.work'' then Ok w
     else
       bindE (hex_to_bytes (file_stem (fst entry))) (\<lambda>name.
       let i = array_of name in
       bindE (archive_read ar dir i) (\<lambda>bytes.
       bindE (deserialize_p2p_mining_context_payload tok bytes) (\<lambda>p.
       bindE (checked_work_key p) (\<lambda>key.
       bindE (checked_local_anchor tok p) (\<lambda>anchor. Ok (add_local key i anchor w)))))))"

definition make_work_retrieval :: "json_tokener \<Rightarrow> work_archive \<Rightarrow> directory \<Rightarrow> work_retrieval result" where
  "make_work_retrieval tok ar dir =
    bindE (verify_all ar dir) (\<lambda>_.
      forE (load_work_entry tok ar dir) dir
        \<lparr>wr_local = fmempty, wr_local_observations = fmempty, wr_pending = fmempty, wr_received = fmempty\<rparr>)"

definition remember_local ::
  "json_tokener \<Rightarrow> work_retrieval \<Rightarrow> p2p_mining_context_proposal \<Rightarrow> work_retrieval result"
where
  "remember_local tok w p =
    bindE (p2p_mining_context_id tok p) (\<lambda>i.
    bindE (checked_work_key p) (\<lambda>key.
    bindE (checked_local_anchor tok p) (\<lambda>anchor. Ok (add_local key i anchor w))))"

definition local_observations :: "work_retrieval \<Rightarrow> u64 \<Rightarrow> hash256 \<Rightarrow> p2p_mining_anchor list" where
  "local_observations w height prev =
    (case fmlookup (wr_local_observations w) (height, prev) of
      None \<Rightarrow> []
    | Some m \<Rightarrow> map snd (sorted_list_of_fmap m))"

definition read_local :: "work_archive \<Rightarrow> directory \<Rightarrow> work_retrieval \<Rightarrow> mining_work_key \<Rightarrow> u8 list option result" where
  "read_local ar dir w key =
    (case fmlookup (wr_local w) key of
      None \<Rightarrow> Ok None
    | Some i \<Rightarrow> bindE (archive_read ar dir i) (\<lambda>bytes. Ok (Some bytes)))"

section \<open>Requests\<close>

definition expire :: "u64 \<Rightarrow> work_retrieval \<Rightarrow> work_retrieval" where
  "expire now w =
    w\<lparr>wr_pending := fold
      (\<lambda>item m. if now < pw_started (snd item) \<or> now - pw_started (snd item) \<ge> kMiningWorkRequestLifetime
         then fmdrop (fst item) m else m)
      (sorted_list_of_fmap (wr_pending w)) (wr_pending w)\<rparr>"

text \<open>The search for the oldest finished entry; the first one in the order of the keys wins.\<close>

definition reusable_step ::
  "(node_id \<times> mining_work_key) \<times> pending_work \<Rightarrow> ((node_id \<times> mining_work_key) \<times> pending_work) option \<Rightarrow>
    ((node_id \<times> mining_work_key) \<times> pending_work) option"
where
  "reusable_step item best =
    (if \<not> pw_finished (snd item) then best
     else case best of
       None \<Rightarrow> Some item
     | Some b \<Rightarrow> if pw_started (snd item) < pw_started (snd b) then Some item else best)"

definition begin_work ::
  "work_retrieval \<Rightarrow> p2p_handshake \<Rightarrow> mining_work_key \<Rightarrow> u64 \<Rightarrow> work_retrieval \<times> p2p_envelope option result"
where
  "begin_work w peer key now =
    (if hs_capabilities peer AND kP2pCapabilityWorkRetrieval = 0 then (w, Ok None)
     else case make_mining_work_request \<lparr>rq_key = key, rq_offset = 0\<rparr> of
       Inl e \<Rightarrow> (w, Throw e)
     | Inr request \<Rightarrow>
         let w = expire now w; pending_key = (hs_node_id peer, key) in
         if fmlookup (wr_received w) key \<noteq> None \<or> fmlookup (wr_pending w) pending_key \<noteq> None then (w, Ok None)
         else
           let peer_count = length (filter (\<lambda>item. fst (fst item) = hs_node_id peer \<and> \<not> pw_finished (snd item))
                 (sorted_list_of_fmap (wr_pending w)));
               fresh = \<lparr>pw_started = now, pw_total = 0, pw_finished = False, pw_bytes = []\<rparr>
           in if peer_count \<ge> 2 then (w, Ok None)
              else if fcard (fmdom (wr_pending w)) \<ge> kMiningWorkMaxPending
              then (case fold reusable_step (sorted_list_of_fmap (wr_pending w)) None of
                None \<Rightarrow> (w, Ok None)
              | Some reusable \<Rightarrow>
                  (w\<lparr>wr_pending := fmupd pending_key fresh (fmdrop (fst reusable) (wr_pending w))\<rparr>,
                   Ok (Some request)))
              else (w\<lparr>wr_pending := fmupd pending_key fresh (wr_pending w)\<rparr>, Ok (Some request)))"

definition answer_work ::
  "work_archive \<Rightarrow> directory \<Rightarrow> work_retrieval \<Rightarrow> p2p_handshake \<Rightarrow> p2p_envelope \<Rightarrow> p2p_envelope result"
where
  "answer_work ar dir w peer envelope =
    bindE (check_work_peer peer) (\<lambda>_.
    bindE (parse_mining_work_request envelope) (\<lambda>request.
      case fmlookup (wr_local w) (rq_key request) of
        None \<Rightarrow> make_mining_work_response \<lparr>rs_request = request, rs_total_size = 0, rs_chunk = []\<rparr>
      | Some i \<Rightarrow>
          bindE (archive_read ar dir i) (\<lambda>payload.
          bindE (require_work (unat (rq_offset request) < length payload) ''work request offset beyond record'') (\<lambda>_.
            make_mining_work_response \<lparr>rs_request = request, rs_total_size = word_of_nat (length payload),
              rs_chunk = slice (unat (rq_offset request))
                (min kMiningWorkChunkSize (length payload - unat (rq_offset request))) payload\<rparr>))))"

text \<open>The part of \<open>receive\<close> in its try block: the changed request, the received evidence if the
  transfer is complete, and the result.\<close>

definition receive_chunk ::
  "json_tokener \<Rightarrow> pending_work \<Rightarrow> mining_work_response \<Rightarrow>
    pending_work \<times> (u8 list option \<times> mining_work_receive_result) result"
where
  "receive_chunk tok pend response =
    (let key = rq_key (rs_request response) in
     if unat (rq_offset (rs_request response)) \<noteq> length (pw_bytes pend)
     then (pend, Throw (Runtime_error ''out-of-order work response''))
     else if rs_total_size response = 0
     then (pend\<lparr>pw_finished := True, pw_bytes := []\<rparr>,
           Ok (None, \<lparr>rr_followup = None, rr_received_id = None\<rparr>))
     else if \<not> (pw_total pend = 0 \<or> pw_total pend = rs_total_size response)
     then (pend, Throw (Runtime_error ''work response total changed''))
     else
       let bytes = pw_bytes pend @ rs_chunk response;
           pend' = pend\<lparr>pw_total := rs_total_size response, pw_bytes := bytes\<rparr>
       in if length bytes < unat (rs_total_size response)
          then (pend', bindE (make_mining_work_request \<lparr>rq_key = key, rq_offset = word_of_nat (length bytes)\<rparr>)
             (\<lambda>e. Ok (None, \<lparr>rr_followup = Some e, rr_received_id = None\<rparr>)))
          else
            (case bindE (deserialize_p2p_mining_context_payload tok bytes) (\<lambda>p.
                bindE (checked_work_key p) (\<lambda>own.
                bindE (require_work (own = key) ''work evidence does not match requested header/height'') (\<lambda>_.
                  p2p_mining_context_id tok p))) of
              Inl e \<Rightarrow> (pend', Throw e)
            | Inr i \<Rightarrow> (pend'\<lparr>pw_finished := True, pw_bytes := []\<rparr>,
                Ok (Some bytes, \<lparr>rr_followup = None, rr_received_id = Some i\<rparr>))))"

definition store_received :: "mining_work_key \<Rightarrow> u8 list \<Rightarrow> (mining_work_key, u8 list) fmap \<Rightarrow> (mining_work_key, u8 list) fmap" where
  "store_received key bytes m =
    fmupd key bytes
      (if fcard (fmdom m) \<ge> kMiningWorkMaxReceived then fmdrop (fst (hd (sorted_list_of_fmap m))) m else m)"

definition receive_work ::
  "json_tokener \<Rightarrow> work_retrieval \<Rightarrow> p2p_handshake \<Rightarrow> p2p_envelope \<Rightarrow> u64 \<Rightarrow>
    work_retrieval \<times> mining_work_receive_result result"
where
  "receive_work tok w peer envelope now =
    (case bindE (check_work_peer peer) (\<lambda>_. parse_mining_work_response envelope) of
      Inl e \<Rightarrow> (w, Throw e)
    | Inr response \<Rightarrow>
        let w = expire now w; key = rq_key (rs_request response); pending_key = (hs_node_id peer, key) in
        (case fmlookup (wr_pending w) pending_key of
          None \<Rightarrow> (w, Throw (Runtime_error ''unsolicited/expired work response''))
        | Some pend \<Rightarrow>
            if pw_finished pend then (w, Throw (Runtime_error ''unsolicited/expired work response''))
            else (case receive_chunk tok pend response of
              (pend', Inl e) \<Rightarrow>
                (w\<lparr>wr_pending := fmupd pending_key (pend'\<lparr>pw_finished := True, pw_bytes := []\<rparr>) (wr_pending w)\<rparr>,
                 Throw e)
            | (pend', Inr (None, r)) \<Rightarrow> (w\<lparr>wr_pending := fmupd pending_key pend' (wr_pending w)\<rparr>, Ok r)
            | (pend', Inr (Some bytes, r)) \<Rightarrow>
                (w\<lparr>wr_pending := fmupd pending_key pend' (wr_pending w),
                   wr_received := store_received key bytes (wr_received w)\<rparr>, Ok r))))"

definition take_untrusted :: "work_retrieval \<Rightarrow> mining_work_key \<Rightarrow> work_retrieval \<times> u8 list option" where
  "take_untrusted w key =
    (case fmlookup (wr_received w) key of
      None \<Rightarrow> (w, None)
    | Some bytes \<Rightarrow> (w\<lparr>wr_received := fmdrop key (wr_received w)\<rparr>, Some bytes))"

section \<open>Messages are canonical\<close>

lemma require_work_ok [simp]: "require_work ok message = Ok u \<longleftrightarrow> ok"
  by (simp add: require_work_def)

lemma append_int_be:
  "append_int v 8 = append_u64_be v" "append_int (ucast (n :: u32)) 4 = append_u32_be n"
proof -
  have u: "rev [1..<9] = [8, 7, 6, 5, 4, 3, 2, 1]" "rev [1..<5] = [4, 3, 2, 1]"
    by (simp_all add: upt_conv_Cons)
  show "append_int v 8 = append_u64_be v"
    by (simp add: append_int_def append_u64_be_def u [simplified])
  have "take_bit 64 (unat n) = unat n"
    using unsigned_less [where w = n and ?'a = nat] by (intro take_bit_nat_eq_self) simp
  then have "(ucast (drop_bit k (ucast n :: u64)) :: u8) = ucast (drop_bit k n)" for k
    by (simp add: ucast_drop_bit unsigned_ucast_eq)
  then show "append_int (ucast n) 4 = append_u32_be n"
    by (simp add: append_int_def append_u32_be_def u [simplified])
qed

lemma integer_be:
  "length bs = 8 \<Longrightarrow> append_u64_be (integer_of_bytes bs) = bs"
  "length bs = 4 \<Longrightarrow> append_u32_be (ucast (integer_of_bytes bs)) = bs"
  "integer_of_bytes (append_u64_be v) = v"
  "ucast (integer_of_bytes (append_u32_be n)) = n"
proof -
  have four: "(ucast (integer_of_bytes bs) :: u32) = foldl shift_in 0 bs" if "length bs = 4" for bs
    using be_val_less [of bs] that
    by (simp add: word_unat_eq_iff unsigned_ucast_eq integer_of_bytes_def unat_foldl_shift_in take_bit_nat_eq_self)
  show "length bs = 8 \<Longrightarrow> append_u64_be (integer_of_bytes bs) = bs"
    "integer_of_bytes (append_u64_be v) = v"
    by (simp_all add: integer_of_bytes_def append_foldl_be)
  show "length bs = 4 \<Longrightarrow> append_u32_be (ucast (integer_of_bytes bs)) = bs"
    "ucast (integer_of_bytes (append_u32_be n)) = n"
    by (simp_all add: four append_foldl_be)
qed

definition request_ok :: "mining_work_request \<Rightarrow> bool" where
  "request_ok r \<longleftrightarrow> snd (rq_key r) \<noteq> 0 \<and> unat (rq_offset r) < 64 * 1024 \<and> unat (rq_offset r) mod (16 * 1024) = 0"

definition response_ok :: "mining_work_response \<Rightarrow> bool" where
  "response_ok r \<longleftrightarrow> request_ok (rs_request r) \<and>
    (if rs_total_size r = 0 then rs_chunk r = []
     else 121 \<le> unat (rs_total_size r) \<and> unat (rs_total_size r) \<le> 64 * 1024 \<and>
       rq_offset (rs_request r) < rs_total_size r \<and>
       length (rs_chunk r) = min (16 * 1024) (unat (rs_total_size r) - unat (rq_offset (rs_request r))))"

definition request_bytes :: "mining_work_request \<Rightarrow> u8 list" where
  "request_bytes r = append_u64_be (fst (rq_key r)) @ bytes_of (snd (rq_key r)) @ append_u32_be (rq_offset r)"

lemma length_request_bytes [simp]: "length (request_bytes r) = 44"
  by (simp add: request_bytes_def)

lemma check_work_request_ok: "check_work_request r = Ok u \<longleftrightarrow> request_ok r"
  by (auto simp: check_work_request_def request_ok_def kP2pMaxPayloadSize_def kMiningWorkChunkSize_def)

lemma check_work_response_ok: "check_work_response r = Ok u \<longleftrightarrow> response_ok r"
  by (auto simp: check_work_response_def response_ok_def bindE_eq_Ok check_work_request_ok
      kMiningWorkChunkSize_def kP2pMaxPayloadSize_def kP2pMiningContextFixedPayloadSize_def
      unat_sub word_less_nat_alt less_imp_le)

lemma make_request_eq_Ok:
  "make_mining_work_request r = Ok e \<longleftrightarrow> request_ok r \<and> e = default_envelope Mining_work_request (request_bytes r)"
  by (auto simp: make_mining_work_request_def bindE_eq_Ok check_work_request_ok request_bytes_def append_int_be)

lemma decode_request_eq_Ok:
  assumes "44 \<le> length p"
  shows "decode_work_request p = Ok r \<longleftrightarrow> request_ok r \<and> take 44 p = request_bytes r"
proof -
  have p: "take 44 p = take 8 p @ slice 8 32 p @ slice 40 4 p"
    using take_add [of 8 36 p] take_add [of 32 4 "drop 8 p"] by (simp add: slice_def)
  have l: "length (take 8 p) = 8" "length (slice 8 32 p) = 32" "length (slice 40 4 p) = 4"
    using assms by simp_all
  have "take 44 p = request_bytes r \<longleftrightarrow>
      r = \<lparr>rq_key = (integer_of_bytes (take 8 p), array_of (slice 8 32 p)),
        rq_offset = ucast (integer_of_bytes (slice 40 4 p))\<rparr>" (is "_ \<longleftrightarrow> r = ?r")
  proof
    assume "take 44 p = request_bytes r"
    then have "take 8 p = append_u64_be (fst (rq_key r))" "slice 8 32 p = bytes_of (snd (rq_key r))"
      "slice 40 4 p = append_u32_be (rq_offset r)"
      using p l by (auto simp: request_bytes_def append_eq_append_conv)
    then show "r = ?r" by (cases r) (simp add: integer_be)
  next
    assume "r = ?r"
    then show "take 44 p = request_bytes r"
      using l by (simp add: p request_bytes_def integer_be)
  qed
  then show ?thesis
    by (auto simp: decode_work_request_def Let_def bindE_eq_Ok check_work_request_ok)
qed

lemma parse_request_eq_Ok:
  "parse_mining_work_request e = Ok r \<longleftrightarrow> make_mining_work_request r = Ok e"
proof -
  have "parse_mining_work_request e = Ok r \<longleftrightarrow> env_version e = kP2pProtocolVersion \<and>
      env_type e = Mining_work_request \<and> env_flags e = 0 \<and> length (env_payload e) = 44 \<and>
      request_ok r \<and> env_payload e = request_bytes r"
    using decode_request_eq_Ok [of "env_payload e" r]
    by (auto simp: parse_mining_work_request_def bindE_eq_Ok check_work_envelope_def kP2pMaxPayloadSize_def)
  then show ?thesis by (cases e) (auto simp: make_request_eq_Ok default_envelope_def)
qed

interpretation work_request_message: p2p_message Mining_work_request "\<lambda>_. True"
  make_mining_work_request parse_mining_work_request
  by unfold_locales (auto simp: parse_request_eq_Ok make_request_eq_Ok kP2pMaxPayloadSize_def)

lemma make_response_eq_Ok:
  "make_mining_work_response r = Ok e \<longleftrightarrow> response_ok r \<and>
    e = default_envelope Mining_work_response
      (request_bytes (rs_request r) @ append_u32_be (rs_total_size r) @ rs_chunk r)"
  by (auto simp: make_mining_work_response_def bindE_eq_Ok check_work_response_ok make_request_eq_Ok
      append_int_be default_envelope_def response_ok_def)

lemma length_response_chunk: "response_ok r \<Longrightarrow> length (rs_chunk r) \<le> 16 * 1024"
  by (auto simp: response_ok_def split: if_splits)

lemma parse_response_eq_Ok:
  "parse_mining_work_response e = Ok r \<longleftrightarrow> make_mining_work_response r = Ok e"
proof
  assume L: "parse_mining_work_response e = Ok r"
  let ?p = "env_payload e"
  from L have len: "48 \<le> length ?p" and env: "e = default_envelope Mining_work_response ?p"
    and req: "decode_work_request ?p = Ok (rs_request r)" and ok: "response_ok r"
    and rest: "rs_total_size r = ucast (integer_of_bytes (slice 44 4 ?p))" "rs_chunk r = drop 48 ?p"
    by (auto simp: parse_mining_work_response_def bindE_eq_Ok check_work_envelope_def Let_def
        check_work_response_ok default_envelope_eq)
  have "take 44 ?p = request_bytes (rs_request r)" using req len by (simp add: decode_request_eq_Ok)
  moreover have "append_u32_be (rs_total_size r) = slice 44 4 ?p"
    unfolding rest using len by (intro integer_be(2)) simp
  moreover have "?p = take 44 ?p @ slice 44 4 ?p @ drop 48 ?p"
    by (simp add: slice_def take_drop_join)
  ultimately have "?p = request_bytes (rs_request r) @ append_u32_be (rs_total_size r) @ rs_chunk r"
    unfolding rest(2) by simp
  with ok env show "make_mining_work_response r = Ok e" by (simp add: make_response_eq_Ok)
next
  assume "make_mining_work_response r = Ok e"
  then have ok: "response_ok r" and e: "e = default_envelope Mining_work_response
      (request_bytes (rs_request r) @ append_u32_be (rs_total_size r) @ rs_chunk r)"
    by (simp_all add: make_response_eq_Ok)
  let ?p = "request_bytes (rs_request r) @ append_u32_be (rs_total_size r) @ rs_chunk r"
  have "decode_work_request ?p = Ok (rs_request r)"
    using ok by (simp add: decode_request_eq_Ok response_ok_def)
  moreover have "slice 44 4 ?p = append_u32_be (rs_total_size r)" by (simp add: slice_def)
  moreover have "drop 48 ?p = rs_chunk r" by simp
  ultimately show "parse_mining_work_response e = Ok r"
    using length_response_chunk [OF ok] ok
    by (cases r) (simp add: parse_mining_work_response_def e check_work_envelope_def bindE_eq_Ok
        kMiningWorkChunkSize_def kP2pMaxPayloadSize_def default_envelope_def integer_be check_work_response_ok Let_def)
qed

interpretation work_response_message: p2p_message Mining_work_response "\<lambda>_. True"
  make_mining_work_response parse_mining_work_response
  by unfold_locales (auto simp: parse_response_eq_Ok make_response_eq_Ok kP2pMaxPayloadSize_def
      dest: length_response_chunk)

end
