(* ===== verification/Work_Transfer.thy ===== *)
theory Work_Transfer
  imports Work_Retrieval Sample_Context
begin

text \<open>
  The transfer of one archived record between two nodes: the requests of one side, the answers of the
  other. It ends, and it delivers exactly the archived bytes. The state of the receiving side stays
  bounded whatever its peers send.
\<close>

section \<open>Expiry\<close>

lemma fold_drop_lookup:
  "fmlookup (fold (\<lambda>item m. if P (snd item) then fmdrop (fst item) m else m) items m) k =
    (if \<exists>e. (k, e) \<in> set items \<and> P e then None else fmlookup m k)"
  by (induction items arbitrary: m) auto

definition live :: "u64 \<Rightarrow> u64 \<Rightarrow> bool" where
  "live now started \<longleftrightarrow> started \<le> now \<and> now - started < 60"

lemma expire_lookup:
  "fmlookup (wr_pending (expire now w)) k =
    (case fmlookup (wr_pending w) k of
      None \<Rightarrow> None
    | Some pend \<Rightarrow> if live now (pw_started pend) then Some pend else None)"
proof -
  let ?P = "\<lambda>pend. now < pw_started pend \<or> now - pw_started pend \<ge> kMiningWorkRequestLifetime"
  have "wr_pending (expire now w) = fold (\<lambda>item m. if ?P (snd item) then fmdrop (fst item) m else m)
      (sorted_list_of_fmap (wr_pending w)) (wr_pending w)"
    by (simp add: expire_def)
  then show ?thesis
    unfolding fold_drop_lookup [where P = ?P, symmetric]
    by (simp add: fold_drop_lookup [where P = ?P])
      (auto simp: live_def kMiningWorkRequestLifetime_def split: option.split)
qed

lemma expire_frame [simp]:
  "wr_local (expire now w) = wr_local w" "wr_received (expire now w) = wr_received w"
  by (simp_all add: expire_def)

section \<open>One round\<close>

definition work_capable :: "p2p_handshake \<Rightarrow> bool" where
  "work_capable peer \<longleftrightarrow> hs_capabilities peer AND kP2pCapabilityWorkRetrieval \<noteq> 0"

abbreviation request_at :: "mining_work_key \<Rightarrow> nat \<Rightarrow> mining_work_request" where
  "request_at key k \<equiv> \<lparr>rq_key = key, rq_offset = word_of_nat k\<rparr>"

definition chunk_at :: "mining_work_key \<Rightarrow> u8 list \<Rightarrow> nat \<Rightarrow> mining_work_response" where
  "chunk_at key payload k =
    \<lparr>rs_request = request_at key k, rs_total_size = word_of_nat (length payload),
      rs_chunk = slice k (min (16 * 1024) (length payload - k)) payload\<rparr>"

lemma unat_size: "n \<le> 64 * 1024 \<Longrightarrow> unat (word_of_nat n :: u32) = n"
  by (simp add: unat_of_nat)

lemma request_at_ok:
  "snd key \<noteq> 0 \<Longrightarrow> k < 64 * 1024 \<Longrightarrow> k mod (16 * 1024) = 0 \<Longrightarrow> request_ok (request_at key k)"
  by (simp add: request_ok_def unat_size)

lemma chunk_at_ok:
  assumes "snd key \<noteq> 0" "k < length payload" "k mod (16 * 1024) = 0" "payload_fits payload"
  shows "response_ok (chunk_at key payload k)"
proof -
  have sizes: "unat (word_of_nat (length payload) :: u32) = length payload" "unat (word_of_nat k :: u32) = k"
    using assms(2,4) by (simp_all add: kP2pMaxPayloadSize_def unat_size)
  moreover have "(word_of_nat (length payload) :: u32) \<noteq> 0"
    using sizes(1) assms(4) by auto
  ultimately show ?thesis
    using assms by (simp add: response_ok_def chunk_at_def request_at_ok kP2pMaxPayloadSize_def word_less_nat_alt)
qed

lemma answer_chunk:
  assumes "work_capable peer" "fmlookup (wr_local w) key = Some i" "archive_read ar dir i = Ok payload"
    "snd key \<noteq> 0" "k < length payload" "k mod (16 * 1024) = 0"
    "make_mining_work_request (request_at key k) = Ok request"
  obtains answer where "answer_work ar dir w peer request = Ok answer"
    "parse_mining_work_response answer = Ok (chunk_at key payload k)"
proof -
  have fits: "payload_fits payload" using assms(3) by (simp add: archive_read_eq_Ok)
  then have k: "unat (word_of_nat k :: u32) = k"
    using assms(5) by (simp add: kP2pMaxPayloadSize_def unat_size)
  have "parse_mining_work_request request = Ok (request_at key k)"
    using assms(7) by (simp add: parse_request_eq_Ok)
  then have "answer_work ar dir w peer request = make_mining_work_response (chunk_at key payload k)"
    using assms(1-3,5) k
    by (simp add: answer_work_def check_work_peer_def require_work_def work_capable_def chunk_at_def kMiningWorkChunkSize_def)
  moreover obtain answer where "make_mining_work_response (chunk_at key payload k) = Ok answer"
    using chunk_at_ok [OF assms(4-6) fits] by (simp add: make_response_eq_Ok)
  ultimately show thesis by (intro that) (auto simp: parse_response_eq_Ok)
qed

text \<open>A request in progress: the first \<open>k\<close> bytes have arrived.\<close>

definition collecting :: "work_retrieval \<Rightarrow> node_id \<Rightarrow> mining_work_key \<Rightarrow> u64 \<Rightarrow> u8 list \<Rightarrow> nat \<Rightarrow> bool" where
  "collecting w node key t payload k \<longleftrightarrow>
    (\<exists>pend. fmlookup (wr_pending w) (node, key) = Some pend \<and> pw_started pend = t \<and> \<not> pw_finished pend \<and>
      pw_bytes pend = take k payload \<and> (pw_total pend = 0 \<or> pw_total pend = word_of_nat (length payload)))"

lemma receive_more:
  assumes "collecting w (hs_node_id peer) key t payload k" "live now t" "work_capable peer"
    "parse_mining_work_response answer = Ok (chunk_at key payload k)"
    "snd key \<noteq> 0" "k mod (16 * 1024) = 0" "k + 16 * 1024 < length payload" "payload_fits payload"
  obtains w' request where "make_mining_work_request (request_at key (k + 16 * 1024)) = Ok request"
    "receive_work tok w peer answer now = (w', Ok \<lparr>rr_followup = Some request, rr_received_id = None\<rparr>)"
    "collecting w' (hs_node_id peer) key t payload (k + 16 * 1024)"
proof -
  obtain pend where p: "fmlookup (wr_pending w) (hs_node_id peer, key) = Some pend" "pw_started pend = t"
    "\<not> pw_finished pend" "pw_bytes pend = take k payload" "pw_total pend = 0 \<or> pw_total pend = word_of_nat (length payload)"
    using assms(1) by (auto simp: collecting_def)
  have sizes: "unat (word_of_nat (length payload) :: u32) = length payload" "unat (word_of_nat k :: u32) = k"
    using assms(7,8) by (simp_all add: kP2pMaxPayloadSize_def unat_size)
  have nz: "(word_of_nat (length payload) :: u32) \<noteq> 0" using sizes(1) assms(8) by auto
  have bytes: "take k payload @ take (16 * 1024) (drop k payload) = take (k + 16 * 1024) payload"
    by (simp add: take_add)
  obtain request where r: "make_mining_work_request (request_at key (k + 16 * 1024)) = Ok request"
    using assms(5-8) request_at_ok [of key "k + 16 * 1024"] by (auto simp: make_request_eq_Ok kP2pMaxPayloadSize_def)
  let ?pend = "pend\<lparr>pw_total := word_of_nat (length payload), pw_bytes := take (k + 16 * 1024) payload\<rparr>"
  let ?w = "(expire now w)\<lparr>wr_pending := fmupd (hs_node_id peer, key) ?pend (wr_pending (expire now w))\<rparr>"
  have chunk: "chunk_at key payload k = \<lparr>rs_request = request_at key k, rs_total_size = word_of_nat (length payload),
      rs_chunk = take (16 * 1024) (drop k payload)\<rparr>"
    using assms(7) by (simp add: chunk_at_def slice_def)
  have "receive_chunk tok pend (chunk_at key payload k) =
      (?pend, Ok (None, \<lparr>rr_followup = Some request, rr_received_id = None\<rparr>))"
    unfolding chunk receive_chunk_def Let_def
    using p(4,5) sizes nz assms(7) r bytes by (simp add: min_def)
  moreover have "fmlookup (wr_pending (expire now w)) (hs_node_id peer, key) = Some pend"
    using p(1,2) assms(2) by (simp add: expire_lookup)
  moreover have "rq_key (rs_request (chunk_at key payload k)) = key" by (simp add: chunk_at_def)
  ultimately have "receive_work tok w peer answer now = (?w, Ok \<lparr>rr_followup = Some request, rr_received_id = None\<rparr>)"
    using assms(3,4) p(3)
    by (simp add: receive_work_def check_work_peer_def require_work_def work_capable_def Let_def)
  moreover have "collecting ?w (hs_node_id peer) key t payload (k + 16 * 1024)"
    using p(2,3) by (simp add: collecting_def)
  ultimately show thesis using r by (intro that)
qed

lemma receive_last:
  assumes "collecting w (hs_node_id peer) key t payload k" "live now t" "work_capable peer"
    "parse_mining_work_response answer = Ok (chunk_at key payload k)"
    "k < length payload" "length payload \<le> k + 16 * 1024" "payload_fits payload"
    "deserialize_p2p_mining_context_payload tok payload = Ok p" "checked_work_key p = Ok key"
  obtains w' where
    "receive_work tok w peer answer now = (w', Ok \<lparr>rr_followup = None, rr_received_id = Some (cn_fast_hash payload)\<rparr>)"
    "fmlookup (wr_received w') key = Some payload"
proof -
  obtain pend where p: "fmlookup (wr_pending w) (hs_node_id peer, key) = Some pend" "pw_started pend = t"
    "\<not> pw_finished pend" "pw_bytes pend = take k payload" "pw_total pend = 0 \<or> pw_total pend = word_of_nat (length payload)"
    using assms(1) by (auto simp: collecting_def)
  have sizes: "unat (word_of_nat (length payload) :: u32) = length payload" "unat (word_of_nat k :: u32) = k"
    using assms(5,7) by (simp_all add: kP2pMaxPayloadSize_def unat_size)
  have nz: "(word_of_nat (length payload) :: u32) \<noteq> 0" using sizes(1) assms(7) by auto
  have chunk: "chunk_at key payload k = \<lparr>rs_request = request_at key k, rs_total_size = word_of_nat (length payload),
      rs_chunk = drop k payload\<rparr>"
    using assms(6) by (simp add: chunk_at_def slice_def)
  have i: "p2p_mining_context_id tok p = Ok (cn_fast_hash payload)"
    using context_codec.enc_dec [OF assms(8)] by (simp add: p2p_mining_context_id_def)
  obtain pend' where "receive_chunk tok pend (chunk_at key payload k) =
      (pend', Ok (Some payload, \<lparr>rr_followup = None, rr_received_id = Some (cn_fast_hash payload)\<rparr>))"
    unfolding chunk receive_chunk_def Let_def
    using p(4,5) sizes nz assms(5,8,9) i by (simp add: min_def require_work_def)
  moreover have "fmlookup (wr_pending (expire now w)) (hs_node_id peer, key) = Some pend"
    using p(1,2) assms(2) by (simp add: expire_lookup)
  moreover have "rq_key (rs_request (chunk_at key payload k)) = key" by (simp add: chunk_at_def)
  ultimately have "receive_work tok w peer answer now =
      ((expire now w)\<lparr>wr_pending := fmupd (hs_node_id peer, key) pend' (wr_pending (expire now w)),
          wr_received := store_received key payload (wr_received w)\<rparr>,
       Ok \<lparr>rr_followup = None, rr_received_id = Some (cn_fast_hash payload)\<rparr>)"
    using assms(3,4) p(3)
    by (simp add: receive_work_def check_work_peer_def require_work_def work_capable_def Let_def)
  then show thesis by (rule that) (simp add: store_received_def)
qed

section \<open>The whole transfer\<close>

text \<open>The two sides take turns: the serving node answers the request, the asking node takes the answer
  at the given time and sends its next request, until it has no further request.\<close>

fun work_rounds ::
  "json_tokener \<Rightarrow> work_archive \<Rightarrow> directory \<Rightarrow> work_retrieval \<Rightarrow> p2p_handshake \<Rightarrow> p2p_handshake \<Rightarrow>
    u64 list \<Rightarrow> work_retrieval \<Rightarrow> p2p_envelope \<Rightarrow> work_retrieval \<times> mining_work_receive_result result option"
where
  "work_rounds tok ar dir server asking serving [] w request = (w, None)"
| "work_rounds tok ar dir server asking serving (now # nows) w request =
    (case answer_work ar dir server asking request of
      Inl e \<Rightarrow> (w, Some (Throw e))
    | Inr answer \<Rightarrow>
        (case receive_work tok w serving answer now of
          (w', Inl e) \<Rightarrow> (w', Some (Throw e))
        | (w', Inr r) \<Rightarrow>
            (case rr_followup r of
              None \<Rightarrow> (w', Some (Ok r))
            | Some request' \<Rightarrow> work_rounds tok ar dir server asking serving nows w' request')))"

lemma work_rounds_complete:
  assumes "work_capable asking" "work_capable serving" "fmlookup (wr_local server) key = Some i"
    "archive_read ar dir i = Ok payload" "snd key \<noteq> 0"
    "deserialize_p2p_mining_context_payload tok payload = Ok p" "checked_work_key p = Ok key"
    "\<forall>now\<in>set nows. live now t" "k < length payload" "k mod (16 * 1024) = 0"
    "length payload \<le> k + 16 * 1024 * length nows"
    "collecting w (hs_node_id serving) key t payload k"
    "make_mining_work_request (request_at key k) = Ok request"
  shows "\<exists>w'. work_rounds tok ar dir server asking serving nows w request =
      (w', Some (Ok \<lparr>rr_followup = None, rr_received_id = Some i\<rparr>)) \<and> fmlookup (wr_received w') key = Some payload"
  using assms(8-13)
proof (induction nows arbitrary: k w request)
  case (Cons now nows)
  have fits: "payload_fits payload" and i: "i = cn_fast_hash payload"
    using assms(4) by (simp_all add: archive_read_eq_Ok)
  obtain answer where a: "answer_work ar dir server asking request = Ok answer"
    "parse_mining_work_response answer = Ok (chunk_at key payload k)"
    using assms(1,3,4,5) Cons.prems(2,3,6) by (rule answer_chunk)
  have live: "live now t" using Cons.prems(1) by simp
  show ?case
  proof (cases "k + 16 * 1024 < length payload")
    case True
    obtain w' request' where q: "make_mining_work_request (request_at key (k + 16 * 1024)) = Ok request'"
      and r: "receive_work tok w serving answer now = (w', Ok \<lparr>rr_followup = Some request', rr_received_id = None\<rparr>)"
      and c: "collecting w' (hs_node_id serving) key t payload (k + 16 * 1024)"
      using Cons.prems(5) live assms(2) a(2) assms(5) Cons.prems(3) True fits by (rule receive_more)
    have "\<forall>now\<in>set nows. live now t" "(k + 16 * 1024) mod (16 * 1024) = 0"
      "length payload \<le> k + 16 * 1024 + 16 * 1024 * length nows"
      using Cons.prems(1,3,4) by simp_all
    from Cons.IH [OF this(1) True this(2,3) c q]
    show ?thesis by (simp add: a(1) r)
  next
    case False
    then have le: "length payload \<le> k + 16 * 1024" by simp
    obtain w' where "receive_work tok w serving answer now =
        (w', Ok \<lparr>rr_followup = None, rr_received_id = Some (cn_fast_hash payload)\<rparr>)"
      "fmlookup (wr_received w') key = Some payload"
      using Cons.prems(5) live assms(2) a(2) Cons.prems(2) le fits assms(6,7) by (rule receive_last)
    then show ?thesis by (simp add: a(1) i)
  qed
qed simp

lemma begin_work_collecting:
  assumes "begin_work w peer key now = (w', Ok (Some request))"
  shows "collecting w' (hs_node_id peer) key now payload 0" "make_mining_work_request (request_at key 0) = Ok request"
    "work_capable peer" "snd key \<noteq> 0"
proof -
  let ?w = "expire now w"
  let ?fresh = "\<lparr>pw_started = now, pw_total = 0, pw_finished = False, pw_bytes = []\<rparr>"
  have r: "make_mining_work_request \<lparr>rq_key = key, rq_offset = 0\<rparr> = Ok request" and cap: "work_capable peer"
    and "\<exists>m. wr_pending w' = fmupd (hs_node_id peer, key) ?fresh m"
    using assms
    by (auto simp: begin_work_def work_capable_def Let_def split: if_splits sum.splits option.splits)
  then show "collecting w' (hs_node_id peer) key now payload 0" by (auto simp: collecting_def)
  show "make_mining_work_request (request_at key 0) = Ok request" using r by simp
  show "snd key \<noteq> 0" using r by (simp add: make_request_eq_Ok request_ok_def)
  show "work_capable peer" by (rule cap)
qed

text \<open>A request does not fail except for the zero hash, which no request may name.\<close>

lemma begin_work_error:
  assumes "begin_work w peer key now = (w', Throw e)"
  shows "snd key = 0" "w' = w"
proof -
  from assms obtain e' where "make_mining_work_request \<lparr>rq_key = key, rq_offset = 0\<rparr> = Throw e'" "w' = w"
    by (auto simp: begin_work_def Let_def split: if_splits sum.splits option.splits)
  then show "snd key = 0" "w' = w"
    using make_request_eq_Ok [of "\<lparr>rq_key = key, rq_offset = 0\<rparr>"] by (auto simp: request_ok_def)
qed

text \<open>C27. A transfer of archived work ends and delivers the archived bytes. A node asks a peer that has
  the record, which parses to work of the requested height and header, and does not decline to ask.
  Either the header hash is zero, which no request may name, and nothing has changed; or at most four
  rounds of request and answer, at any times within the lifetime of the request, finish without an
  error: the node holds exactly the bytes of the archived record, its result names the record's content
  hash, and taking the evidence returns the bytes.\<close>

theorem work_transfer_completes:
  assumes "snd (begin_work w serving key t) \<noteq> Ok None" "work_capable asking"
    and "fmlookup (wr_local server) key = Some i" "archive_read ar dir i = Ok payload"
    and "deserialize_p2p_mining_context_payload tok payload = Ok p" "checked_work_key p = Ok key"
    and "length nows = 4" "\<forall>now\<in>set nows. t \<le> now \<and> now - t < 60"
  shows "case begin_work w serving key t of
      (w\<^sub>0, Inl e) \<Rightarrow> snd key = 0 \<and> w\<^sub>0 = w
    | (w\<^sub>0, Inr None) \<Rightarrow> False
    | (w\<^sub>0, Inr (Some request)) \<Rightarrow>
        (\<exists>w'. work_rounds tok ar dir server asking serving nows w\<^sub>0 request =
          (w', Some (Ok \<lparr>rr_followup = None, rr_received_id = Some i\<rparr>)) \<and> snd (take_untrusted w' key) = Some payload)"
proof -
  have fits: "payload_fits payload" using assms(4) by (simp add: archive_read_eq_Ok)
  have "\<forall>now\<in>set nows. live now t" using assms(8) by (simp add: live_def)
  moreover have "0 < length payload" "length payload \<le> 0 + 16 * 1024 * length nows"
    using fits assms(7) by (auto simp: kP2pMaxPayloadSize_def)
  ultimately have "\<exists>w'. work_rounds tok ar dir server asking serving nows w\<^sub>0 request =
      (w', Some (Ok \<lparr>rr_followup = None, rr_received_id = Some i\<rparr>)) \<and> fmlookup (wr_received w') key = Some payload"
    if "begin_work w serving key t = (w\<^sub>0, Ok (Some request))" for w\<^sub>0 request
    using assms(2-6) begin_work_collecting [OF that]
    by (intro work_rounds_complete [where t = t and k = 0]) simp_all
  then have "\<exists>w'. work_rounds tok ar dir server asking serving nows w\<^sub>0 request =
      (w', Some (Ok \<lparr>rr_followup = None, rr_received_id = Some i\<rparr>)) \<and> snd (take_untrusted w' key) = Some payload"
    if "begin_work w serving key t = (w\<^sub>0, Ok (Some request))" for w\<^sub>0 request
    using that by (fastforce simp: take_untrusted_def)
  then show ?thesis
    using assms(1) begin_work_error [of w serving key t]
    by (cases "begin_work w serving key t") (auto split: sum.split option.split)
qed

definition sample_peer :: p2p_handshake where
  "sample_peer = \<lparr>hs_network = P2p_Mainnet, hs_node_id = 0, hs_capabilities = kP2pCapabilityWorkRetrieval,
    hs_listen_port = 1, hs_best_share_id = 0, hs_best_share_height = 0, hs_sidechain_id = 0\<rparr>"

definition no_work :: work_retrieval where
  "no_work = \<lparr>wr_local = fmempty, wr_local_observations = fmempty, wr_pending = fmempty, wr_received = fmempty\<rparr>"

abbreviation sample_archive :: work_archive where
  "sample_archive \<equiv> \<lparr>archive_directory = ''work'', archive_sidechain_id = 0\<rparr>"

definition sample_payload :: "u8 list" where
  "sample_payload = context_bytes sample_proposal"

definition sample_directory :: directory where
  "sample_directory = [(work_file_name (cn_fast_hash sample_payload), Regular_file (work_record sample_archive sample_payload))]"

definition sample_key :: mining_work_key where
  "sample_key = (5, header_hash sample_work)"

lemma sample_payload_facts:
  "archive_read sample_archive sample_directory (cn_fast_hash sample_payload) = Ok sample_payload"
  "deserialize_p2p_mining_context_payload sample_tok sample_payload = Ok sample_proposal"
  "checked_work_key sample_proposal = Ok sample_key"
proof -
  have "length sample_payload = 1471"
    by (simp add: sample_payload_def length_context_bytes sample_proposal_def sample_lengths)
  then show "archive_read sample_archive sample_directory (cn_fast_hash sample_payload) = Ok sample_payload"
    by (simp add: archive_read_eq_Ok sample_directory_def kP2pMaxPayloadSize_def)
  show "deserialize_p2p_mining_context_payload sample_tok sample_payload = Ok sample_proposal"
    unfolding sample_payload_def by (rule deserialize_context_bytes [OF sample_serializable])
  show "checked_work_key sample_proposal = Ok sample_key"
    by (simp add: checked_work_key_def sample_proposal_def sample_work_derived sample_key_def)
qed

lemma begin_no_work: "snd (begin_work no_work sample_peer key now) \<noteq> Ok None"
proof -
  have "sorted_list_of_fmap fmempty = ([] :: ((node_id \<times> mining_work_key) \<times> pending_work) list)"
    by (simp add: sorted_list_of_fmap_def sorted_list_of_fset.rep_eq)
  then show ?thesis
    by (simp add: begin_work_def no_work_def sample_peer_def kP2pCapabilityWorkRetrieval_def expire_def Let_def
        kMiningWorkMaxPending_def fcard.rep_eq split: sum.split)
qed

theorem work_transfer_completes_witness:
  "case begin_work no_work sample_peer sample_key 7 of
      (w\<^sub>0, Inl e) \<Rightarrow> snd sample_key = 0 \<and> w\<^sub>0 = no_work
    | (w\<^sub>0, Inr None) \<Rightarrow> False
    | (w\<^sub>0, Inr (Some request)) \<Rightarrow>
        (\<exists>w'. work_rounds sample_tok sample_archive sample_directory
            (no_work\<lparr>wr_local := fmupd sample_key (cn_fast_hash sample_payload) fmempty\<rparr>)
            sample_peer sample_peer [7, 8, 9, 66] w\<^sub>0 request =
          (w', Some (Ok \<lparr>rr_followup = None, rr_received_id = Some (cn_fast_hash sample_payload)\<rparr>)) \<and>
          snd (take_untrusted w' sample_key) = Some sample_payload)"
  by (rule work_transfer_completes [OF begin_no_work _ _ sample_payload_facts])
    (simp_all add: work_capable_def sample_peer_def kP2pCapabilityWorkRetrieval_def)

end
