(* ===== verification/Work_Machine.thy ===== *)
theory Work_Machine
  imports Work_Transfer
begin

text \<open>
  The life of a retrieval object: built from its archive, then any sequence of local records, requests,
  responses and deliveries in any order, from any peers and at any times. Its memory stays bounded and what it
  holds is evidence of the work it was asked for.
\<close>

section \<open>The steps\<close>

inductive retrieval_step :: "json_tokener \<Rightarrow> work_retrieval \<Rightarrow> work_retrieval \<Rightarrow> bool" for tok where
  remember: "remember_local tok w p = Ok w' \<Longrightarrow> retrieval_step tok w w'"
| request: "begin_work w peer key now = (w', r) \<Longrightarrow> retrieval_step tok w w'"
| response: "receive_work tok w peer envelope now = (w', r) \<Longrightarrow> retrieval_step tok w w'"
| deliver: "take_untrusted w key = (w', bytes) \<Longrightarrow> retrieval_step tok w w'"

definition pending_ok :: "pending_work \<Rightarrow> bool" where
  "pending_ok pend \<longleftrightarrow> length (pw_bytes pend) \<le> 64 * 1024 \<and> (pw_finished pend \<longrightarrow> pw_bytes pend = [])"

definition open_requests :: "work_retrieval \<Rightarrow> node_id \<Rightarrow> mining_work_key set" where
  "open_requests w node = {key. \<exists>pend. fmlookup (wr_pending w) (node, key) = Some pend \<and> \<not> pw_finished pend}"

definition evidence_ok :: "json_tokener \<Rightarrow> mining_work_key \<Rightarrow> u8 list \<Rightarrow> bool" where
  "evidence_ok tok key bytes \<longleftrightarrow>
    (\<exists>p. deserialize_p2p_mining_context_payload tok bytes = Ok p \<and> checked_work_key p = Ok key)"

definition retrieval_inv :: "json_tokener \<Rightarrow> work_retrieval \<Rightarrow> bool" where
  "retrieval_inv tok w \<longleftrightarrow>
    fcard (fmdom (wr_pending w)) \<le> 16 \<and> fcard (fmdom (wr_received w)) \<le> 8 \<and>
    (\<forall>k pend. fmlookup (wr_pending w) k = Some pend \<longrightarrow> pending_ok pend) \<and>
    (\<forall>node. card (open_requests w node) \<le> 2) \<and>
    (\<forall>key bytes. fmlookup (wr_received w) key = Some bytes \<longrightarrow> evidence_ok tok key bytes)"

section \<open>Sizes of finite maps\<close>

lemma fcard_fmupd_bound: "fcard (fmdom (fmupd k v m)) \<le> Suc (fcard (fmdom m))"
  by (simp add: fcard.rep_eq card_insert_if)

lemma fcard_fmupd_present: "fmlookup m k \<noteq> None \<Longrightarrow> fcard (fmdom (fmupd k v m)) = fcard (fmdom m)"
  by (metis fmdom_fmupd finsert_absorb fmdom_notD)

lemma fcard_fmdrop: "fcard (fmdom (fmdrop k m)) = fcard (fmdom m) - (if fmlookup m k = None then 0 else 1)"
  by (auto simp: fcard.rep_eq fmdom'_alt_def [symmetric] card_Diff_singleton_if fmlookup_dom'_iff fmdrop_fset_null)

lemma finite_open [simp]: "finite (open_requests w node)"
proof -
  have "open_requests w node \<subseteq> snd ` fset (fmdom (wr_pending w))"
    by (force simp: open_requests_def fmlookup_dom_iff)
  then show ?thesis by (rule finite_subset) simp
qed

lemma sorted_list_member: "(k, v) \<in> set (sorted_list_of_fmap m) \<longleftrightarrow> fmlookup m k = Some v"
  by (force simp: sorted_list_of_fmap_def fmlookup_dom_iff)

lemma peer_count_open:
  "length (filter (\<lambda>item. fst (fst item) = node \<and> \<not> pw_finished (snd item)) (sorted_list_of_fmap (wr_pending w))) =
    card (open_requests w node)"
proof -
  let ?l = "filter (\<lambda>item. fst (fst item) = node \<and> \<not> pw_finished (snd item)) (sorted_list_of_fmap (wr_pending w))"
  have "distinct (map fst (sorted_list_of_fmap (wr_pending w)))"
    by (simp add: sorted_list_of_fmap_def comp_def sorted_list_of_fset.rep_eq)
  then have d: "distinct (map fst ?l)" by (simp add: distinct_map_filter)
  have "fst ` set ?l = Pair node ` open_requests w node"
  proof (intro set_eqI iffI)
    fix k assume "k \<in> fst ` set ?l"
    then obtain pend where "(k, pend) \<in> set ?l" by auto
    then show "k \<in> Pair node ` open_requests w node"
      by (cases k) (auto simp: sorted_list_member open_requests_def)
  next
    fix k assume "k \<in> Pair node ` open_requests w node"
    then obtain pend where "(k, pend) \<in> set ?l"
      by (auto simp: open_requests_def sorted_list_member)
    then show "k \<in> fst ` set ?l" by (rule rev_image_eqI) simp
  qed
  then have "card (set (map fst ?l)) = card (open_requests w node)"
    by (simp add: card_image inj_on_def del: set_filter)
  then show ?thesis unfolding distinct_card [OF d] by simp
qed

section \<open>The invariant\<close>

text \<open>Expiry and reuse only remove requests.\<close>

lemma retrieval_inv_fewer:
  assumes "retrieval_inv tok w" "\<And>k pend. fmlookup (wr_pending w') k = Some pend \<Longrightarrow> fmlookup (wr_pending w) k = Some pend"
    "wr_received w' = wr_received w"
  shows "retrieval_inv tok w'"
proof -
  have "fmdom (wr_pending w') |\<subseteq>| fmdom (wr_pending w)"
  proof (rule fsubsetI)
    fix k assume "k |\<in>| fmdom (wr_pending w')"
    then obtain pend where "fmlookup (wr_pending w') k = Some pend" by (auto simp: fmlookup_dom_iff)
    then show "k |\<in>| fmdom (wr_pending w)" by (intro fmdomI assms(2))
  qed
  then have "fcard (fmdom (wr_pending w')) \<le> fcard (fmdom (wr_pending w))" by (rule fcard_mono)
  moreover have "\<forall>node. card (open_requests w' node) \<le> 2"
  proof
    fix node
    have "card (open_requests w' node) \<le> card (open_requests w node)"
      using assms(2) by (intro card_mono [OF finite_open]) (auto simp: open_requests_def)
    also have "\<dots> \<le> 2" using assms(1) by (simp add: retrieval_inv_def)
    finally show "card (open_requests w' node) \<le> 2" .
  qed
  moreover have "\<forall>k pend. fmlookup (wr_pending w') k = Some pend \<longrightarrow> pending_ok pend"
    using assms(1,2) unfolding retrieval_inv_def by blast
  ultimately show ?thesis
    using assms(1,3) unfolding retrieval_inv_def by (auto intro: le_trans)
qed

lemma retrieval_inv_expire: "retrieval_inv tok w \<Longrightarrow> retrieval_inv tok (expire now w)"
  by (erule retrieval_inv_fewer) (auto simp: expire_lookup split: option.splits if_splits)

lemma retrieval_inv_pending:
  assumes "retrieval_inv tok w" "pending_ok pend" "fcard (fmdom (fmupd (node, key) pend (wr_pending w))) \<le> 16"
    "pw_finished pend \<or> key \<in> open_requests w node \<or> card (open_requests w node) < 2"
  shows "retrieval_inv tok (w\<lparr>wr_pending := fmupd (node, key) pend (wr_pending w)\<rparr>)"
proof -
  let ?w = "w\<lparr>wr_pending := fmupd (node, key) pend (wr_pending w)\<rparr>"
  have "card (open_requests ?w n) \<le> 2" for n
  proof (cases "n = node \<and> \<not> pw_finished pend \<and> key \<notin> open_requests w node")
    case True
    then have "open_requests ?w n \<subseteq> insert key (open_requests w node)"
      by (auto simp: open_requests_def split: if_splits)
    then have "card (open_requests ?w n) \<le> Suc (card (open_requests w node))"
      using True by (metis card_insert_disjoint card_mono finite_insert finite_open)
    with True assms(4) show ?thesis by simp
  next
    case False
    then have "open_requests ?w n \<subseteq> open_requests w n"
      by (auto simp: open_requests_def split: if_splits)
    then have "card (open_requests ?w n) \<le> card (open_requests w n)" by (intro card_mono) simp_all
    with assms(1) show ?thesis by (auto simp: retrieval_inv_def intro: le_trans)
  qed
  with assms(1-3) show ?thesis by (auto simp: retrieval_inv_def)
qed

lemma fold_reusable:
  assumes "fold reusable_step items best = Some item"
  shows "item \<in> set items \<and> pw_finished (snd item) \<or> best = Some item"
  using assms
  by (induction items arbitrary: best) (fastforce simp: reusable_step_def split: option.splits if_splits)+

lemma begin_work_inv:
  assumes "retrieval_inv tok w" "begin_work w peer key now = (w', r)"
  shows "retrieval_inv tok w'"
proof -
  let ?w = "expire now w" and ?fresh = "\<lparr>pw_started = now, pw_total = 0, pw_finished = False, pw_bytes = []\<rparr>"
  have inv: "retrieval_inv tok ?w" using assms(1) by (rule retrieval_inv_expire)
  have fresh: "pending_ok ?fresh" by (simp add: pending_ok_def)
  consider "w' = w" | "w' = ?w"
    | (free) "w' = ?w\<lparr>wr_pending := fmupd (hs_node_id peer, key) ?fresh (wr_pending ?w)\<rparr>"
      "fcard (fmdom (wr_pending ?w)) < 16" "card (open_requests ?w (hs_node_id peer)) < 2"
    | (reuse) item where "w' = ?w\<lparr>wr_pending := fmupd (hs_node_id peer, key) ?fresh (fmdrop (fst item) (wr_pending ?w))\<rparr>"
      "item \<in> set (sorted_list_of_fmap (wr_pending ?w))" "card (open_requests ?w (hs_node_id peer)) < 2"
    using assms(2) fold_reusable [of "sorted_list_of_fmap (wr_pending ?w)" None]
    by (fastforce simp: begin_work_def Let_def peer_count_open kMiningWorkMaxPending_def not_le
        split: if_splits sum.splits option.splits)
  then show ?thesis
  proof cases
    case free
    then show ?thesis
      using inv fresh fcard_fmupd_bound [of "(hs_node_id peer, key)" ?fresh "wr_pending ?w"]
      by (auto intro!: retrieval_inv_pending)
  next
    case reuse
    let ?v = "?w\<lparr>wr_pending := fmdrop (fst item) (wr_pending ?w)\<rparr>"
    have v: "retrieval_inv tok ?v" using inv by (rule retrieval_inv_fewer) (auto split: if_splits)
    have "fmlookup (wr_pending ?w) (fst item) \<noteq> None"
      using reuse(2) sorted_list_member [of "fst item" "snd item"] by simp
    then have "fcard (fmdom (wr_pending ?v)) < 16"
      using inv fcard_fmdrop [of "fst item" "wr_pending ?w"] by (auto simp: retrieval_inv_def fcard_fmdrop)
    then have "fcard (fmdom (fmupd (hs_node_id peer, key) ?fresh (wr_pending ?v))) \<le> 16"
      using fcard_fmupd_bound [of "(hs_node_id peer, key)" ?fresh "wr_pending ?v"] by simp
    moreover have "card (open_requests ?v n) \<le> card (open_requests ?w n)" for n
      by (intro card_mono [OF finite_open]) (auto simp: open_requests_def split: if_splits)
    then have "card (open_requests ?v (hs_node_id peer)) < 2" using reuse(3) by (rule le_less_trans)
    ultimately show ?thesis
      using retrieval_inv_pending [OF v fresh, of "hs_node_id peer" key] by (simp add: reuse(1))
  qed (use assms(1) inv in simp_all)
qed

lemma response_total:
  assumes "response_ok response" "rs_total_size response \<noteq> 0"
  shows "unat (rq_offset (rs_request response)) + length (rs_chunk response) \<le> unat (rs_total_size response)"
    "unat (rs_total_size response) \<le> 64 * 1024"
  using assms by (auto simp: response_ok_def word_less_nat_alt)

lemma receive_chunk_ok:
  assumes "receive_chunk tok pend response = (pend', Ok (evidence, rr))" "\<not> pw_finished pend" "response_ok response"
  shows "pending_ok pend'"
    "evidence = Some bytes \<Longrightarrow> evidence_ok tok (rq_key (rs_request response)) bytes"
  using assms response_total [OF assms(3)]
  by (auto simp: receive_chunk_def Let_def pending_ok_def evidence_ok_def bindE_eq_Ok
      split: if_splits sum.splits)

lemma store_received_bound:
  assumes "fcard (fmdom m) \<le> 8"
  shows "fcard (fmdom (store_received key bytes m)) \<le> 8"
proof (cases "fcard (fmdom m) \<ge> 8")
  case True
  let ?k = "fst (hd (sorted_list_of_fmap m))"
  have "sorted_list_of_fmap m \<noteq> []"
    using True by (auto simp: sorted_list_of_fmap_def fcard.rep_eq sorted_list_of_fset.rep_eq
        dest!: arg_cong [where f = length])
  then have "hd (sorted_list_of_fmap m) \<in> set (sorted_list_of_fmap m)" by simp
  then have "fmlookup m ?k \<noteq> None"
    using sorted_list_member [of ?k "snd (hd (sorted_list_of_fmap m))" m] by simp
  then have "fcard (fmdom (fmdrop ?k m)) \<le> 7" using assms unfolding fcard_fmdrop by auto
  with True fcard_fmupd_bound [of key bytes "fmdrop ?k m"] show ?thesis
    by (simp add: store_received_def kMiningWorkMaxReceived_def)
next
  case False
  with fcard_fmupd_bound [of key bytes m] show ?thesis
    by (simp add: store_received_def kMiningWorkMaxReceived_def)
qed

lemma retrieval_inv_received:
  assumes "retrieval_inv tok w" "evidence_ok tok key bytes"
  shows "retrieval_inv tok (w\<lparr>wr_received := store_received key bytes (wr_received w)\<rparr>)"
  using assms store_received_bound [of "wr_received w" key bytes]
  by (auto simp: retrieval_inv_def open_requests_def store_received_def split: if_splits)

lemma receive_work_inv:
  assumes "retrieval_inv tok w" "receive_work tok w peer envelope now = (w', r)"
  shows "retrieval_inv tok w'"
proof (cases "bindE (check_work_peer peer) (\<lambda>_. parse_mining_work_response envelope)")
  case (Inr response)
  let ?w = "expire now w" and ?key = "rq_key (rs_request response)"
  let ?k = "(hs_node_id peer, ?key)"
  have ok: "response_ok response"
    using Inr by (auto simp: bindE_eq_Ok parse_response_eq_Ok make_response_eq_Ok)
  have inv: "retrieval_inv tok ?w" using assms(1) by (rule retrieval_inv_expire)
  show ?thesis
  proof (cases "\<exists>pend. fmlookup (wr_pending ?w) ?k = Some pend \<and> \<not> pw_finished pend")
    case True
    then obtain pend where pend: "fmlookup (wr_pending ?w) ?k = Some pend" "\<not> pw_finished pend" by blast
    then have at: "?key \<in> open_requests ?w (hs_node_id peer)" by (simp add: open_requests_def)
    have keep: "retrieval_inv tok (?w\<lparr>wr_pending := fmupd ?k pend' (wr_pending ?w)\<rparr>)" if "pending_ok pend'" for pend'
      using inv that at pend(1)
        fcard_fmupd_present [of "wr_pending ?w" ?k pend']
      by (intro retrieval_inv_pending) (auto simp: retrieval_inv_def)
    obtain pend' q where chunk: "receive_chunk tok pend response = (pend', q)" by fastforce
    show ?thesis
    proof (cases q)
      case (Inl e)
      then have "w' = ?w\<lparr>wr_pending := fmupd ?k (pend'\<lparr>pw_finished := True, pw_bytes := []\<rparr>) (wr_pending ?w)\<rparr>"
        using assms(2) Inr pend chunk by (simp add: receive_work_def Let_def)
      moreover have "pending_ok (pend'\<lparr>pw_finished := True, pw_bytes := []\<rparr>)" by (simp add: pending_ok_def)
      ultimately show ?thesis using keep by simp
    next
      case q: (Inr a)
      obtain evidence rr where a: "a = (evidence, rr)" by fastforce
      note chunk_ok = receive_chunk_ok [OF chunk [unfolded q a] pend(2) ok]
      show ?thesis
      proof (cases evidence)
        case None
        then have "w' = ?w\<lparr>wr_pending := fmupd ?k pend' (wr_pending ?w)\<rparr>"
          using assms(2) Inr pend chunk q a by (simp add: receive_work_def Let_def)
        with keep [OF chunk_ok(1)] show ?thesis by simp
      next
        case (Some bytes)
        then have "w' = ?w\<lparr>wr_pending := fmupd ?k pend' (wr_pending ?w),
            wr_received := store_received ?key bytes (wr_received ?w)\<rparr>"
          using assms(2) Inr pend chunk q a by (simp add: receive_work_def Let_def)
        with retrieval_inv_received [OF keep [OF chunk_ok(1)] chunk_ok(2) [OF Some]] show ?thesis by simp
      qed
    qed
  next
    case False
    then have "w' = ?w"
      using assms(2) Inr by (auto simp: receive_work_def Let_def split: option.splits)
    with inv show ?thesis by simp
  qed
qed (use assms in \<open>simp add: receive_work_def\<close>)

lemma retrieval_inv_local:
  "retrieval_inv tok (w\<lparr>wr_local := m, wr_local_observations := s\<rparr>) = retrieval_inv tok w"
  by (simp add: retrieval_inv_def open_requests_def)

lemma retrieval_step_inv:
  assumes "retrieval_inv tok w" "retrieval_step tok w w'"
  shows "retrieval_inv tok w'"
  using assms(2)
proof cases
  case (remember p)
  then show ?thesis
    using assms(1) by (auto simp: remember_local_def bindE_eq_Ok add_local_def Let_def retrieval_inv_local)
next
  case (deliver key bytes)
  have "fcard (fmdom (fmdrop key (wr_received w))) \<le> fcard (fmdom (wr_received w))"
    unfolding fcard_fmdrop by simp
  with deliver assms(1) show ?thesis
    by (auto simp: take_untrusted_def retrieval_inv_def open_requests_def split: option.splits if_splits)
qed (use assms(1) in \<open>auto intro: begin_work_inv receive_work_inv\<close>)

lemma load_work_entries:
  assumes "forE (load_work_entry tok ar dir) entries w = Ok w'"
  shows "wr_pending w' = wr_pending w \<and> wr_received w' = wr_received w"
  using assms
proof (induction entries arbitrary: w)
  case (Cons entry entries)
  then obtain v where v: "load_work_entry tok ar dir entry w = Ok v"
    "forE (load_work_entry tok ar dir) entries v = Ok w'"
    by (auto simp: bindE_eq_Ok)
  then have "wr_pending v = wr_pending w \<and> wr_received v = wr_received w"
    by (auto simp: load_work_entry_def add_local_def bindE_eq_Ok Let_def split: if_splits)
  with Cons.IH [OF v(2)] show ?case by simp
qed simp

lemma retrieval_inv_start:
  assumes "make_work_retrieval tok ar dir = Ok w"
  shows "retrieval_inv tok w"
proof -
  have "wr_pending w = fmempty \<and> wr_received w = fmempty"
    using assms load_work_entries by (fastforce simp: make_work_retrieval_def bindE_eq_Ok)
  then show ?thesis by (simp add: retrieval_inv_def open_requests_def fcard.rep_eq)
qed

interpretation retrieval: machine_invariant "\<lambda>w. \<exists>ar dir. make_work_retrieval tok ar dir = Ok w"
  "retrieval_step tok" "retrieval_inv tok" for tok
  by unfold_locales (auto intro: retrieval_inv_start retrieval_step_inv)

text \<open>What peers can make a retrieval object hold is bounded, whatever they send and in whatever order:
  at most 16 requests, at most two of them unfinished for one peer, at most 64 KiB collected for each, and at
  most 8 received records. Every received record is a mining context of exactly the height and header hash it
  is filed under.\<close>

theorem retrieval_bounded:
  assumes "reach (\<lambda>w. \<exists>ar dir. make_work_retrieval tok ar dir = Ok w) (retrieval_step tok) w"
  shows "fcard (fmdom (wr_pending w)) \<le> 16 \<and> fcard (fmdom (wr_received w)) \<le> 8 \<and>
    (\<forall>node. card {key. \<exists>pend. fmlookup (wr_pending w) (node, key) = Some pend \<and> \<not> pw_finished pend} \<le> 2) \<and>
    (\<forall>k pend. fmlookup (wr_pending w) k = Some pend \<longrightarrow> length (pw_bytes pend) \<le> 64 * 1024) \<and>
    (\<forall>key bytes. fmlookup (wr_received w) key = Some bytes \<longrightarrow>
      (\<exists>p. deserialize_p2p_mining_context_payload tok bytes = Ok p \<and> checked_work_key p = Ok key))"
  using retrieval.reach_inv [OF assms]
  by (auto simp: retrieval_inv_def open_requests_def pending_ok_def evidence_ok_def)

lemma make_empty_retrieval: "make_work_retrieval tok ar [] = Ok no_work"
  by (simp add: make_work_retrieval_def verify_all_def no_work_def)

theorem retrieval_bounded_witness:
  "fcard (fmdom (wr_pending (fst (begin_work no_work sample_peer (5, array_of_nat 7) 9)))) \<le> 16"
proof -
  let ?S = "\<lambda>w. \<exists>ar dir. make_work_retrieval sample_tok ar dir = Ok w"
  have "reach ?S (retrieval_step sample_tok) no_work"
    using make_empty_retrieval by (blast intro: reach.intros)
  then have "reach ?S (retrieval_step sample_tok) (fst (begin_work no_work sample_peer (5, array_of_nat 7) 9))"
    by (rule reach.intros(2)) (rule retrieval_step.request [OF prod.collapse [symmetric]])
  then show ?thesis using retrieval_bounded by blast
qed

end
