(* ===== verification/State_Ops.thy ===== *)
theory State_Ops
  imports Prelude
begin

text \<open>
  Operations of objects that change their state and may throw: what was changed before a throw stays
  changed. They compose in order; a relation between states that is reflexive and transitive holds across
  an operation when it holds across its parts.
\<close>

section \<open>Operations\<close>

type_synonym ('s, 'a) op = "'s \<Rightarrow> 'a result \<times> 's"

definition returnS :: "'a \<Rightarrow> ('s, 'a) op" where
  "returnS x s = (Ok x, s)"

definition liftS :: "'a result \<Rightarrow> ('s, 'a) op" where
  "liftS m s = (m, s)"

definition bindS :: "('s, 'a) op \<Rightarrow> ('a \<Rightarrow> ('s, 'b) op) \<Rightarrow> ('s, 'b) op" where
  "bindS m f s = (case m s of (Inl e, s') \<Rightarrow> (Inl e, s') | (Inr x, s') \<Rightarrow> f x s')"

definition modifyS :: "('s \<Rightarrow> 's) \<Rightarrow> ('s, unit) op" where
  "modifyS f s = (Ok (), f s)"

definition getsS :: "('s \<Rightarrow> ('s, 'a) op) \<Rightarrow> ('s, 'a) op" where
  "getsS f s = f s s"

text \<open>A loop over a sequence.\<close>

fun forS :: "('a \<Rightarrow> ('s, unit) op) \<Rightarrow> 'a list \<Rightarrow> ('s, unit) op" where
  "forS body [] = returnS ()"
| "forS body (x # xs) = bindS (body x) (\<lambda>_. forS body xs)"

text \<open>\<open>catch (...)\<close> with a handler that throws the exception again.\<close>

definition on_throw :: "('s, 'a) op \<Rightarrow> ('s \<Rightarrow> 's) \<Rightarrow> ('s, 'a) op" where
  "on_throw m cleanup s = (case m s of (Inl e, s') \<Rightarrow> (Inl e, cleanup s') | (Inr x, s') \<Rightarrow> (Inr x, s'))"

text \<open>An operation on a part of the state.\<close>

definition zoom :: "('t \<Rightarrow> 's) \<Rightarrow> ('s \<Rightarrow> 't \<Rightarrow> 't) \<Rightarrow> ('s, 'a) op \<Rightarrow> ('t, 'a) op" where
  "zoom part put m t = (case m (part t) of (r, s') \<Rightarrow> (r, put s' t))"

lemma bindS_eq_Ok: "bindS m f s = (Ok y, s'') \<longleftrightarrow> (\<exists>x s'. m s = (Ok x, s') \<and> f x s' = (Ok y, s''))"
  by (auto simp: bindS_def split: prod.splits sum.splits)

lemma op_eq_Ok [simp]:
  "returnS x s = (Ok y, s') \<longleftrightarrow> y = x \<and> s' = s"
  "liftS m s = (Ok y, s') \<longleftrightarrow> m = Ok y \<and> s' = s"
  "modifyS f s = (Ok u, s') \<longleftrightarrow> s' = f s"
  by (auto simp: returnS_def liftS_def modifyS_def)

lemma if_throw_eq_Ok [simp]: "(if c then liftS (Throw e) else m) s = (Ok y, s') \<longleftrightarrow> \<not> c \<and> m s = (Ok y, s')"
  by simp

lemma op_run:
  "returnS x s = (Ok x, s)" "liftS m s = (m, s)" "modifyS f s = (Ok (), f s)" "getsS g s = g s s"
  "bindS (returnS x) k s = k x s" "bindS (modifyS f) h s = h () (f s)" "bindS (liftS (Ok x)) k s = k x s"
  "bindS (liftS (Throw e)) k s = (Throw e, s)"
  by (simp_all add: returnS_def liftS_def modifyS_def getsS_def bindS_def)

section \<open>Relations kept by operations\<close>

locale state_order =
  fixes R :: "'s \<Rightarrow> 's \<Rightarrow> bool"
  assumes R_refl: "R s s" and R_trans: "R s t \<Longrightarrow> R t u \<Longrightarrow> R s u"
begin

definition within :: "('s, 'a) op \<Rightarrow> bool" where
  "within m \<longleftrightarrow> (\<forall>s. R s (snd (m s)))"

lemma withinD: "within m \<Longrightarrow> m s = (r, s') \<Longrightarrow> R s s'"
  unfolding within_def by (metis snd_conv)

lemma within_return: "within (returnS x)"
  by (simp add: within_def returnS_def R_refl)

lemma within_lift: "within (liftS m)"
  by (simp add: within_def liftS_def R_refl)

lemma within_bind: "within m \<Longrightarrow> (\<And>x. within (f x)) \<Longrightarrow> within (bindS m f)"
  unfolding within_def bindS_def by (auto split: prod.splits sum.splits intro: R_trans) (metis R_trans snd_conv)+

lemma within_modify: "(\<And>s. R s (f s)) \<Longrightarrow> within (modifyS f)"
  by (simp add: within_def modifyS_def)

lemma within_gets: "(\<And>s. within (g s)) \<Longrightarrow> within (getsS g)"
  by (simp add: within_def getsS_def)

lemma within_for: "(\<And>x. x \<in> set xs \<Longrightarrow> within (body x)) \<Longrightarrow> within (forS body xs)"
  by (induction xs) (auto intro: within_return within_bind)

lemma within_on_throw: "within m \<Longrightarrow> (\<And>s. R s (cleanup s)) \<Longrightarrow> within (on_throw m cleanup)"
  unfolding within_def on_throw_def by (auto split: prod.splits sum.splits) (metis R_trans snd_conv)+

lemma within_if: "(c \<Longrightarrow> within m) \<Longrightarrow> (\<not> c \<Longrightarrow> within k) \<Longrightarrow> within (if c then m else k)"
  by simp

lemma within_option:
  "(x = None \<Longrightarrow> within m) \<Longrightarrow> (\<And>y. x = Some y \<Longrightarrow> within (f y)) \<Longrightarrow> within (case x of None \<Rightarrow> m | Some y \<Rightarrow> f y)"
  by (cases x) simp_all

lemma within_pair: "(\<And>a b. x = (a, b) \<Longrightarrow> within (f a b)) \<Longrightarrow> within (case x of (a, b) \<Rightarrow> f a b)"
  by (cases x) simp

lemma within_let: "(\<And>y. y = x \<Longrightarrow> within (f y)) \<Longrightarrow> within (let y = x in f y)"
  by (simp add: Let_def)

lemmas within_rules = within_return within_lift within_bind within_gets within_for within_if within_option
  within_pair within_let

end

end
