(* ===== verification/Local_Daemon.thy ===== *)
theory Local_Daemon
  imports Share State_Ops
begin

text \<open>
  The operator's own Zano daemon, as the callbacks of \<open>src/include/zano_p2pool/rpc_client.hpp\<close> show it, and
  the stable reads of \<open>src/src/rpc_client.cpp\<close>. The daemon's chain may change between two queries, so its
  answers are functions of the number of queries made so far: every operation that asks it takes this
  number and returns the new one, also when it throws.
\<close>

section \<open>Queries\<close>

record rpc_canonical_header =
  header_height :: u64
  header_block_hash :: hash256

record rpc_historical_pow_context =
  pow_height :: u64
  pow_parent_hash :: hash256
  pow_network_difficulty :: difficulty128
  pow_block_reward_without_fee :: u64
  confirming_pow_height :: u64

type_synonym 'a query = "(nat, 'a) op"

type_synonym canonical_lookup = "nat \<Rightarrow> u64 \<Rightarrow> rpc_canonical_header result"

type_synonym pow_context_lookup = "nat \<Rightarrow> u64 \<Rightarrow> rpc_historical_pow_context option result"

definition ask :: "(nat \<Rightarrow> 'q \<Rightarrow> 'a result) \<Rightarrow> 'q \<Rightarrow> 'a query" where
  "ask lookup q k = (lookup k q, Suc k)"

lemma ask_eq_Ok [simp]: "ask lookup q k = (Ok y, k') \<longleftrightarrow> lookup k q = Ok y \<and> k' = Suc k"
  by (auto simp: ask_def)

section \<open>Stable reads\<close>

record replay_validation_checkpoint =
  cp_zano_height :: u64
  cp_block_hash :: hash256

definition stable_canonical_parent_for_work_height :: "canonical_lookup \<Rightarrow> u64 \<Rightarrow> hash256 query" where
  "stable_canonical_parent_for_work_height lookup work_height =
    (if work_height = 0
     then liftS (Throw (Invalid_argument ''canonical-parent audit requires nonzero Zano work height''))
     else
       let parent_height = work_height - 1 in
       bindS (ask lookup parent_height) (\<lambda>first.
       bindS (ask lookup parent_height) (\<lambda>second.
         if header_height first \<noteq> parent_height \<or> header_height second \<noteq> parent_height
         then liftS (Throw (Runtime_error ''canonical-parent audit returned the wrong Zano height''))
         else if header_block_hash first \<noteq> header_block_hash second
         then liftS (Throw (Runtime_error ''canonical Zano parent changed during stable audit''))
         else returnS (header_block_hash first))))"

definition stable_canonical_checkpoint_matches ::
  "canonical_lookup \<Rightarrow> replay_validation_checkpoint \<Rightarrow> bool query"
where
  "stable_canonical_checkpoint_matches lookup checkpoint =
    (if cp_block_hash checkpoint = 0
     then liftS (Throw (Invalid_argument ''replay-validation checkpoint hash must be nonzero''))
     else
       bindS (ask lookup (cp_zano_height checkpoint)) (\<lambda>first.
       bindS (ask lookup (cp_zano_height checkpoint)) (\<lambda>second.
         if header_height first \<noteq> cp_zano_height checkpoint \<or> header_height second \<noteq> cp_zano_height checkpoint
         then liftS (Throw (Runtime_error ''replay-validation checkpoint audit returned the wrong Zano height''))
         else if header_block_hash first = 0 \<or> header_block_hash second = 0
         then liftS (Throw (Runtime_error ''replay-validation checkpoint audit returned a zero canonical hash''))
         else if header_block_hash first \<noteq> header_block_hash second
         then liftS (Throw (Runtime_error ''canonical Zano checkpoint changed during stable audit''))
         else returnS (header_block_hash first = cp_block_hash checkpoint))))"

section \<open>What a stable read tells\<close>

text \<open>The daemon answered the two queries from \<open>k\<close> on for height \<open>h\<close> with the block \<open>b\<close>.\<close>

definition answered_twice :: "canonical_lookup \<Rightarrow> nat \<Rightarrow> u64 \<Rightarrow> hash256 \<Rightarrow> bool" where
  "answered_twice lookup k h b \<longleftrightarrow>
    lookup k h = Ok \<lparr>header_height = h, header_block_hash = b\<rparr> \<and>
    lookup (Suc k) h = Ok \<lparr>header_height = h, header_block_hash = b\<rparr>"

lemma stable_parent_eq_Ok:
  "stable_canonical_parent_for_work_height lookup h k = (Ok b, k') \<longleftrightarrow>
    h \<noteq> 0 \<and> answered_twice lookup k (h - 1) b \<and> k' = Suc (Suc k)"
  by (auto simp: stable_canonical_parent_for_work_height_def bindS_eq_Ok Let_def answered_twice_def
      intro!: rpc_canonical_header.equality split: if_splits)

lemma stable_checkpoint_eq_Ok:
  "stable_canonical_checkpoint_matches lookup cp k = (Ok m, k') \<longleftrightarrow>
    cp_block_hash cp \<noteq> 0 \<and> k' = Suc (Suc k) \<and>
    (\<exists>b. b \<noteq> 0 \<and> answered_twice lookup k (cp_zano_height cp) b \<and> m = (b = cp_block_hash cp))"
  by (auto simp: stable_canonical_checkpoint_matches_def bindS_eq_Ok answered_twice_def
      intro!: rpc_canonical_header.equality split: if_splits)

end
