(* ===== verification/Historical_Work.thy ===== *)
theory Historical_Work
  imports Local_Daemon Work_Archive Share_Validation
begin

text \<open>
  \<open>src/src/historical_work.cpp\<close>: the audit of old mining work of a peer against the operator's own daemon
  and the node's own archive. A match is evidence about height, parent block, seed, difficulty and base
  reward; it gives no trust yet.
\<close>

section \<open>The parent block\<close>

datatype historical_parent_status =
    ParentMatchedUntrusted
  | Parent_mismatch
  | Parent_changed_during_check

record historical_parent_result =
  parent_status :: historical_parent_status
  parent_mining_header_hash :: hash256

definition audit_historical_parent ::
  "json_tokener \<Rightarrow> canonical_lookup \<Rightarrow> p2p_mining_context_proposal \<Rightarrow> historical_parent_result query"
where
  "audit_historical_parent tok lookup p =
    (if pr_zano_height p = 0
     then liftS (Throw (Runtime_error ''historical work has no parent height''))
     else
       bindS (liftS (validate_p2p_mining_context_structure tok p)) (\<lambda>header.
       let height = pr_zano_height p - 1;
           result = \<lparr>parent_status = Parent_mismatch, parent_mining_header_hash = header\<rparr> in
       bindS (ask lookup height) (\<lambda>first.
       bindS (ask lookup height) (\<lambda>second.
         if header_height first \<noteq> height \<or> header_height second \<noteq> height \<or>
           header_block_hash first = 0 \<or> header_block_hash second = 0
         then liftS (Throw (Runtime_error ''invalid canonical parent lookup''))
         else if header_block_hash first \<noteq> header_block_hash second
         then returnS (result\<lparr>parent_status := Parent_changed_during_check\<rparr>)
         else if header_block_hash first = pr_prev_hash p
         then returnS (result\<lparr>parent_status := ParentMatchedUntrusted\<rparr>)
         else returnS result))))"

section \<open>The node's own archive\<close>

definition load_anchor_step ::
  "json_tokener \<Rightarrow> work_archive \<Rightarrow> directory \<Rightarrow> nat \<Rightarrow> string \<times> dir_entry \<Rightarrow> p2p_mining_anchor list \<Rightarrow>
    p2p_mining_anchor list result"
where
  "load_anchor_step tok ar dir max_records entry anchors =
    (if file_extension (fst entry) \<noteq> ''.work'' then Ok anchors
     else if length anchors \<ge> max_records
     then Throw (Runtime_error ''local archive scan limit exceeded; no partial evidence accepted'')
     else
       let name = file_stem (fst entry) in
       if length name \<noteq> 64 \<or> \<not> list_all (\<lambda>c. CHR ''0'' \<le> c \<and> c \<le> CHR ''9'' \<or> CHR ''a'' \<le> c \<and> c \<le> CHR ''f'') name
       then Throw (Runtime_error ''invalid local archive record name'')
       else
         bindE (hex_to_bytes name) (\<lambda>bytes.
         bindE (archive_read ar dir (array_of bytes)) (\<lambda>payload.
         bindE (deserialize_p2p_mining_context_payload tok payload) (\<lambda>p.
         bindE (validate_p2p_mining_context_structure tok p) (\<lambda>_.
           Ok (anchors @ [\<lparr>anchor_zano_height = pr_zano_height p, anchor_prev_hash = pr_prev_hash p,
             anchor_network_difficulty = pr_network_difficulty p, anchor_seed = pr_seed p,
             anchor_block_reward_without_fee = pr_block_reward_without_fee p\<rparr>]))))))"

definition load_local_mining_anchors ::
  "json_tokener \<Rightarrow> work_archive \<Rightarrow> directory \<Rightarrow> nat \<Rightarrow> p2p_mining_anchor list result"
where
  "load_local_mining_anchors tok ar dir max_records = forE (load_anchor_step tok ar dir max_records) dir []"

section \<open>The anchor\<close>

datatype historical_anchor_status =
    AnchorMatchedUntrusted
  | Anchor_parent_mismatch
  | Anchor_parent_changed_during_check
  | SeedMismatch
  | LocalObservationMissing
  | LocalObservationConflict
  | LocalObservationMismatch
  | CanonicalPowContextUnavailable
  | CanonicalPowContextMismatch

record historical_anchor_result =
  anchor_status :: historical_anchor_status
  anchor_mining_header_hash :: hash256
  matching_observations :: nat

definition default_anchor_result :: historical_anchor_result where
  "default_anchor_result =
    \<lparr>anchor_status = LocalObservationMissing, anchor_mining_header_hash = 0, matching_observations = 0\<rparr>"

text \<open>The loop over the observations: \<open>None\<close> for a conflict, with the number of matching observations
  counted so far.\<close>

fun scan_observations ::
  "hash256 \<Rightarrow> p2p_mining_context_proposal \<Rightarrow> p2p_mining_anchor list \<Rightarrow> nat \<Rightarrow> p2p_mining_anchor option \<Rightarrow>
    nat \<times> p2p_mining_anchor option option"
where
  "scan_observations seed p [] n expected = (n, Some expected)"
| "scan_observations seed p (a # as) n expected =
    (if anchor_zano_height a \<noteq> pr_zano_height p \<or> anchor_prev_hash a \<noteq> pr_prev_hash p
     then scan_observations seed p as n expected
     else if anchor_seed a \<noteq> seed \<or> (\<exists>e. expected = Some e \<and> a \<noteq> e) then (Suc n, None)
     else scan_observations seed p as (Suc n) (Some a))"

definition audit_historical_local_anchor ::
  "json_tokener \<Rightarrow> canonical_lookup \<Rightarrow> pow_context_lookup option \<Rightarrow> p2p_mining_context_proposal \<Rightarrow>
    p2p_mining_anchor list \<Rightarrow> historical_anchor_result query"
where
  "audit_historical_local_anchor tok lookup historical_pow_lookup p observations =
    bindS (liftS (progpowz_seed (pr_zano_height p))) (\<lambda>seed.
    bindS (audit_historical_parent tok lookup p) (\<lambda>parent.
    let result = default_anchor_result\<lparr>anchor_mining_header_hash := parent_mining_header_hash parent\<rparr> in
    if parent_status parent \<noteq> ParentMatchedUntrusted
    then returnS (result\<lparr>anchor_status :=
      (if parent_status parent = Parent_mismatch then Anchor_parent_mismatch
       else Anchor_parent_changed_during_check)\<rparr>)
    else if pr_seed p \<noteq> seed then returnS (result\<lparr>anchor_status := SeedMismatch\<rparr>)
    else
      let (n, scanned) = scan_observations seed p observations 0 None;
          result = result\<lparr>matching_observations := n\<rparr> in
      (case scanned of
        None \<Rightarrow> returnS (result\<lparr>anchor_status := LocalObservationConflict\<rparr>)
      | Some (Some expected) \<Rightarrow>
          if pr_network_difficulty p \<noteq> anchor_network_difficulty expected \<or>
            pr_block_reward_without_fee p \<noteq> anchor_block_reward_without_fee expected
          then returnS (result\<lparr>anchor_status := LocalObservationMismatch\<rparr>)
          else returnS (result\<lparr>anchor_status := AnchorMatchedUntrusted\<rparr>)
      | Some None \<Rightarrow>
          (case historical_pow_lookup of
            None \<Rightarrow> returnS (result\<lparr>anchor_status := LocalObservationMissing\<rparr>)
          | Some pow_lookup \<Rightarrow>
              bindS (ask pow_lookup (pr_zano_height p)) (\<lambda>historical.
              (case historical of
                None \<Rightarrow> returnS (result\<lparr>anchor_status := CanonicalPowContextUnavailable\<rparr>)
              | Some h \<Rightarrow>
                  if pow_height h \<noteq> pr_zano_height p \<or> pow_parent_hash h \<noteq> pr_prev_hash p \<or>
                    pow_network_difficulty h \<noteq> pr_network_difficulty p \<or>
                    pow_block_reward_without_fee h \<noteq> pr_block_reward_without_fee p \<or>
                    confirming_pow_height h < pr_zano_height p
                  then returnS (result\<lparr>anchor_status := CanonicalPowContextMismatch\<rparr>)
                  else returnS (result\<lparr>anchor_status := AnchorMatchedUntrusted\<rparr>))))))) "

definition historical_anchor_status_name :: "historical_anchor_status \<Rightarrow> string" where
  "historical_anchor_status_name status =
    (case status of
      AnchorMatchedUntrusted \<Rightarrow> ''matched-local-observation-untrusted''
    | Anchor_parent_mismatch \<Rightarrow> ''parent-mismatch''
    | Anchor_parent_changed_during_check \<Rightarrow> ''parent-changed-during-check''
    | SeedMismatch \<Rightarrow> ''seed-mismatch''
    | LocalObservationMissing \<Rightarrow> ''local-observation-missing''
    | LocalObservationConflict \<Rightarrow> ''local-observation-conflict''
    | LocalObservationMismatch \<Rightarrow> ''local-observation-mismatch''
    | CanonicalPowContextUnavailable \<Rightarrow> ''canonical-pow-context-unavailable''
    | CanonicalPowContextMismatch \<Rightarrow> ''canonical-pow-context-mismatch'')"

section \<open>What a match establishes\<close>

definition proposal_anchor :: "p2p_mining_context_proposal \<Rightarrow> p2p_mining_anchor" where
  "proposal_anchor p = \<lparr>anchor_zano_height = pr_zano_height p, anchor_prev_hash = pr_prev_hash p,
    anchor_network_difficulty = pr_network_difficulty p, anchor_seed = pr_seed p,
    anchor_block_reward_without_fee = pr_block_reward_without_fee p\<rparr>"

definition same_parent :: "p2p_mining_context_proposal \<Rightarrow> p2p_mining_anchor \<Rightarrow> bool" where
  "same_parent p a \<longleftrightarrow> anchor_zano_height a = pr_zano_height p \<and> anchor_prev_hash a = pr_prev_hash p"

lemma scan_observations_spec:
  assumes "\<And>e. expected = Some e \<Longrightarrow> anchor_seed e = seed"
  shows "snd (scan_observations seed p obs n expected) =
    (case (case expected of None \<Rightarrow> [] | Some e \<Rightarrow> [e]) @ filter (same_parent p) obs of
       [] \<Rightarrow> Some None
     | e # es \<Rightarrow> if anchor_seed e = seed \<and> (\<forall>a\<in>set es. a = e) then Some (Some e) else None)"
  using assms
proof (induction obs arbitrary: n expected)
  case Nil
  then show ?case by (auto split: option.splits)
next
  case (Cons a obs)
  show ?case
  proof (cases "same_parent p a")
    case False
    then show ?thesis using Cons.IH [of expected n] Cons.prems by (auto simp: same_parent_def)
  next
    case True
    then show ?thesis
      using Cons.IH [of "Some a" "Suc n"] Cons.prems
      by (cases expected) (auto simp: same_parent_def)
  qed
qed

text \<open>The evidence for the fields of the proposal. The queries from \<open>k\<close> on said that its parent is the
  block below its height. If the node observed a template on this block itself, all these observations are
  the proposal's values; otherwise the daemon reconstructed the same values.\<close>

definition anchored_locally ::
  "canonical_lookup \<Rightarrow> pow_context_lookup option \<Rightarrow> p2p_mining_anchor list \<Rightarrow> p2p_mining_context_proposal \<Rightarrow> nat \<Rightarrow> bool"
where
  "anchored_locally lookup plk obs p k \<longleftrightarrow>
    pr_zano_height p \<noteq> 0 \<and> answered_twice lookup k (pr_zano_height p - 1) (pr_prev_hash p) \<and>
    progpowz_seed (pr_zano_height p) = Ok (pr_seed p) \<and>
    (if \<exists>a\<in>set obs. same_parent p a then \<forall>a\<in>set obs. same_parent p a \<longrightarrow> a = proposal_anchor p
     else \<exists>f h. plk = Some f \<and> f (k + 2) (pr_zano_height p) = Ok (Some h) \<and> pow_height h = pr_zano_height p \<and>
       pow_parent_hash h = pr_prev_hash p \<and> pow_network_difficulty h = pr_network_difficulty p \<and>
       pow_block_reward_without_fee h = pr_block_reward_without_fee p \<and> pr_zano_height p \<le> confirming_pow_height h)"

lemma audit_parent_eq_Ok:
  "audit_historical_parent tok lookup p k = (Ok r, k') \<Longrightarrow>
    validate_p2p_mining_context_structure tok p = Ok (parent_mining_header_hash r) \<and> pr_zano_height p \<noteq> 0 \<and>
    k' = k + 2 \<and> (parent_status r = ParentMatchedUntrusted \<longleftrightarrow>
      answered_twice lookup k (pr_zano_height p - 1) (pr_prev_hash p) \<and> pr_prev_hash p \<noteq> 0)"
  by (auto simp: audit_historical_parent_def bindS_eq_Ok Let_def answered_twice_def
      intro!: rpc_canonical_header.equality split: if_splits)

lemma audit_anchor_eq_Ok:
  assumes "audit_historical_local_anchor tok lookup plk p obs k = (Ok r, k')"
  shows "validate_p2p_mining_context_structure tok p = Ok (anchor_mining_header_hash r) \<and> k < k' \<and>
    (anchor_status r = AnchorMatchedUntrusted \<longleftrightarrow> anchored_locally lookup plk obs p k \<and> pr_prev_hash p \<noteq> 0)"
proof -
  from assms obtain seed parent k1 where "progpowz_seed (pr_zano_height p) = Ok seed"
    "audit_historical_parent tok lookup p k = (Ok parent, k1)"
    by (auto simp: audit_historical_local_anchor_def bindS_eq_Ok)
  then have s: "progpowz_seed (pr_zano_height p) = Ok seed" "audit_historical_parent tok lookup p k = (Ok parent, k + 2)"
    by (auto dest: audit_parent_eq_Ok)
  note pa = audit_parent_eq_Ok [OF s(2)]
  obtain n scanned where scan: "scan_observations seed p obs 0 None = (n, scanned)" by fastforce
  then have scanned: "scanned = (case filter (same_parent p) obs of [] \<Rightarrow> Some None
     | e # es \<Rightarrow> if anchor_seed e = seed \<and> (\<forall>a\<in>set es. a = e) then Some (Some e) else None)"
    using scan_observations_spec [of None seed p obs 0] by simp
  note run = assms [unfolded audit_historical_local_anchor_def bindS_def [of "liftS _"] bindS_def [of "audit_historical_parent _ _ _"]
      liftS_def s prod.case sum.case Let_def scan]
  show ?thesis
  proof (cases "parent_status parent = ParentMatchedUntrusted \<and> pr_seed p = seed")
    case False
    with run s pa show ?thesis by (auto simp: anchored_locally_def split: if_splits)
  next
    case True
    show ?thesis
    proof (cases "filter (same_parent p) obs")
      case Nil
      then have none: "\<not> (\<exists>a\<in>set obs. same_parent p a)" by (auto simp: filter_empty_conv)
      from Nil have "scanned = Some None" by (simp add: scanned)
      note run = run [unfolded this]
      show ?thesis
      proof (cases plk)
        case None
        with run s pa True none show ?thesis by (auto simp: anchored_locally_def)
      next
        case (Some f)
        with run True obtain h where f: "f (k + 2) (pr_zano_height p) = Ok h" by (auto simp: bindS_eq_Ok)
        with run True Some have "k' = Suc (k + 2)" by (auto simp: bindS_eq_Ok split: option.splits if_splits)
        with run s pa True none Some f show ?thesis
          by (cases h) (auto simp: anchored_locally_def bindS_def ask_def not_less split: if_splits)
      qed
    next
      case (Cons e es)
      then have set: "{a \<in> set obs. same_parent p a} = set (e # es)" by (metis set_filter)
      then have "\<exists>a\<in>set obs. same_parent p a" "same_parent p e" by auto
      moreover have "(\<forall>a\<in>set obs. same_parent p a \<longrightarrow> a = proposal_anchor p) \<longleftrightarrow>
          e = proposal_anchor p \<and> (\<forall>a\<in>set es. a = e)"
        using set by auto
      ultimately show ?thesis
        using run s pa True Cons
        by (auto simp: scanned anchored_locally_def
            proposal_anchor_def same_parent_def intro!: p2p_mining_anchor.equality split: if_splits)
    qed
  qed
qed

end
