(* ===== verification/Historical_Trust.thy ===== *)
theory Historical_Trust
  imports Historical_Work Historical_Payout Context_Trust
begin

text \<open>
  \<open>src/src/historical_trust.cpp\<close>: the promotion of one old piece of work for one candidate share. It binds
  the candidate to the work, audits the work against the local daemon before and after the payout plan is
  derived from the candidate's parent, and then takes the promotion of \<open>Context_Trust\<close>.
\<close>

section \<open>Operations\<close>

datatype historical_trust_status =
    Historical_trusted
  | CandidateMismatch
  | AnchorRejected
  | PayoutRejected
  | AnchorChangedBeforePromotion
  | PromotionRejected

record historical_trust_result =
  ht_status :: historical_trust_status
  ht_candidate_id :: share_id
  ht_initial_anchor :: historical_anchor_result
  ht_final_anchor :: historical_anchor_result
  ht_payout :: historical_payout_result
  ht_promotion :: p2p_mining_context_trust_result

definition default_trust_result :: p2p_mining_context_trust_result where
  "default_trust_result = \<lparr>trust_status = ProofsRejected, trust_check_status = Check_anchor_mismatch,
    trust_proof_status = Proof_not_anchored, trust_payout_status = Policy_malformed_miner_tx_prefix,
    trust_proposal_id = 0,
    trusted_context = \<lparr>ctx_zano_height = 0, ctx_mining_header_hash = 0, ctx_network_difficulty = 0\<rparr>,
    registry_inserted = False\<rparr>"

definition default_historical_trust_result :: historical_trust_result where
  "default_historical_trust_result = \<lparr>ht_status = CandidateMismatch, ht_candidate_id = 0,
    ht_initial_anchor = default_anchor_result, ht_final_anchor = default_anchor_result,
    ht_payout = \<lparr>historical_status = ParentMissing, historical_parent_id = 0, historical_plan = empty_plan\<rparr>,
    ht_promotion = default_trust_result\<rparr>"

text \<open>The shape that lets a share without parent skip the payout history.\<close>

definition bootstrap_root_share :: "share \<Rightarrow> bool" where
  "bootstrap_root_share s \<longleftrightarrow> share_height s = 0 \<and> version s = kShareVersion2 \<and>
    (case payout s of None \<Rightarrow> False | Some keys \<Rightarrow> miner_id s = miner_id_from_payout keys)"

text \<open>The last step: the promotion through the bootstrap policy or the plan.\<close>

definition promote_anchored ::
  "('p, 's) zano_crypto \<Rightarrow> json_tokener \<Rightarrow> registry \<Rightarrow> p2p_handshake \<Rightarrow> p2p_mining_context_proposal \<Rightarrow> share \<Rightarrow>
    pplns_coinbase_plan \<Rightarrow> (registry \<times> p2p_mining_context_trust_result) result"
where
  "promote_anchored crv tok trusted_work peer p candidate plan =
    (let local_anchor = \<lparr>anchor_zano_height = pr_zano_height p, anchor_prev_hash = pr_prev_hash p,
       anchor_network_difficulty = pr_network_difficulty p, anchor_seed = pr_seed p,
       anchor_block_reward_without_fee = pr_block_reward_without_fee p\<rparr> in
     bindE (make_p2p_mining_context_envelope tok p) (\<lambda>envelope.
       if is_zero_share_id (parent_id candidate)
       then promote_bootstrap_p2p_mining_context crv tok trusted_work peer envelope local_anchor
       else promote_p2p_mining_context_plan_at_parent crv tok trusted_work peer envelope local_anchor
         (parent_id candidate) plan))"

definition promote_historical_mining_context ::
  "('p, 's) zano_crypto \<Rightarrow> json_tokener \<Rightarrow> canonical_lookup \<Rightarrow> pow_context_lookup option \<Rightarrow> registry \<Rightarrow> share_chain \<Rightarrow>
    sidechain_parameters \<Rightarrow> share \<Rightarrow> p2p_handshake \<Rightarrow> p2p_mining_context_proposal \<Rightarrow> p2p_mining_anchor list \<Rightarrow>
    (registry \<times> historical_trust_result) query"
where
  "promote_historical_mining_context crv tok lookup historical_pow_lookup trusted_work chain params candidate peer p
      local_observations =
    (case share_id candidate of
      Inl (Invalid_argument _) \<Rightarrow> returnS (trusted_work, default_historical_trust_result)
    | Inl e \<Rightarrow> liftS (Throw e)
    | Inr candidate_id \<Rightarrow>
        let result = default_historical_trust_result\<lparr>ht_candidate_id := candidate_id\<rparr>;
            bootstrap_root = is_zero_share_id (parent_id candidate) in
        bindS (liftS (validate_p2p_mining_context_structure tok p)) (\<lambda>proposal_header.
        if zano_height candidate \<noteq> pr_zano_height p \<or> mining_header_hash candidate \<noteq> proposal_header \<or>
          network_difficulty candidate \<noteq> pr_network_difficulty p
        then returnS (trusted_work, result\<lparr>ht_status := CandidateMismatch\<rparr>)
        else if bootstrap_root \<and> \<not> bootstrap_root_share candidate
        then returnS (trusted_work, result\<lparr>ht_status := CandidateMismatch\<rparr>)
        else
          bindS (audit_historical_local_anchor tok lookup historical_pow_lookup p local_observations) (\<lambda>initial.
          let result = result\<lparr>ht_initial_anchor := initial\<rparr> in
          if anchor_status initial \<noteq> AnchorMatchedUntrusted
          then returnS (trusted_work, result\<lparr>ht_status := AnchorRejected\<rparr>)
          else if anchor_mining_header_hash initial \<noteq> proposal_header
          then returnS (trusted_work, result\<lparr>ht_status := CandidateMismatch\<rparr>)
          else
            bindS (if \<not> bootstrap_root
              then liftS (derive_historical_payout_plan chain params (parent_id candidate)
                (pr_network_difficulty p) (pr_block_reward_without_fee p))
              else returnS ((ht_payout result)\<lparr>historical_status := BootstrapRoot,
                historical_parent_id := parent_id candidate\<rparr>)) (\<lambda>plan_result.
            let result = result\<lparr>ht_payout := plan_result\<rparr> in
            if \<not> bootstrap_root \<and> historical_status plan_result \<noteq> PlanDerived
            then returnS (trusted_work, result\<lparr>ht_status := PayoutRejected\<rparr>)
            else
              bindS (audit_historical_local_anchor tok lookup historical_pow_lookup p local_observations) (\<lambda>final.
              let result = result\<lparr>ht_final_anchor := final\<rparr> in
              if anchor_status final \<noteq> AnchorMatchedUntrusted \<or>
                anchor_mining_header_hash final \<noteq> anchor_mining_header_hash initial
              then returnS (trusted_work, result\<lparr>ht_status := AnchorChangedBeforePromotion\<rparr>)
              else
                bindS (liftS (promote_anchored crv tok trusted_work peer p candidate (historical_plan plan_result)))
                  (\<lambda>(trusted_work', promotion).
                  let result = result\<lparr>ht_promotion := promotion\<rparr> in
                  returnS (trusted_work', result\<lparr>ht_status :=
                    (if trust_status promotion \<noteq> Trusted then PromotionRejected else Historical_trusted)\<rparr>)))))))"

definition historical_trust_status_name :: "historical_trust_status \<Rightarrow> string" where
  "historical_trust_status_name status =
    (case status of
      Historical_trusted \<Rightarrow> ''trusted''
    | CandidateMismatch \<Rightarrow> ''candidate-mismatch''
    | AnchorRejected \<Rightarrow> ''anchor-rejected''
    | PayoutRejected \<Rightarrow> ''payout-rejected''
    | AnchorChangedBeforePromotion \<Rightarrow> ''anchor-changed-before-promotion''
    | PromotionRejected \<Rightarrow> ''promotion-rejected'')"

section \<open>Soundness\<close>

text \<open>What the miner transaction of the work must pay for a candidate: for a root, some opened outputs of
  the whole reward; otherwise the plan that the chain gives for the candidate's parent.\<close>

definition pays_for_candidate ::
  "('p, 's) zano_crypto \<Rightarrow> json_tokener \<Rightarrow> share_chain \<Rightarrow> sidechain_parameters \<Rightarrow> share \<Rightarrow> p2p_mining_context_proposal \<Rightarrow>
    mining_header_work \<Rightarrow> bool"
where
  "pays_for_candidate crv tok chain params s p work \<longleftrightarrow>
    (if parent_id s = 0 then bootstrap_root_share s \<and> pays_something crv tok p work
     else \<exists>r. derive_historical_payout_plan chain params (parent_id s) (pr_network_difficulty p)
         (pr_block_reward_without_fee p) = Ok r \<and> historical_status r = PlanDerived \<and>
       pays_plan crv tok (historical_plan r) p work)"

lemma promote_anchored_not_trusted:
  assumes "promote_anchored crv tok reg peer p s plan = Ok (reg', r)" "trust_status r \<noteq> Trusted"
  shows "reg' = reg"
  using assms bootstrap_verifier.not_promoted plan_verifier.not_promoted
  by (fastforce simp: promote_anchored_def bindE_eq_Ok Let_def promote_bootstrap_p2p_mining_context_def
      promote_p2p_mining_context_plan_at_parent_def split: if_splits)

lemma promote_anchored_trusted:
  assumes "registry_inv reg" "promote_anchored crv tok reg peer p s plan = Ok (reg', r)" "trust_status r = Trusted"
  shows "\<exists>work. derive_mining_header_work (pr_block_template_blob p) = Ok work \<and>
    (if parent_id s = 0 then pays_something crv tok p work else pays_plan crv tok plan p work) \<and>
    fmlookup reg' = (fmlookup reg)((pr_zano_height p, header_hash work, parent_id s) \<mapsto>
      \<lparr>entry_context = \<lparr>ctx_zano_height = pr_zano_height p, ctx_mining_header_hash = header_hash work,
          ctx_network_difficulty = pr_network_difficulty p\<rparr>,
        entry_zano_parent_hash = Some (pr_prev_hash p)\<rparr>)"
proof -
  from assms(2) obtain e where e: "make_p2p_mining_context_envelope tok p = Ok e"
    "(if parent_id s = 0 then promote_bootstrap_p2p_mining_context crv tok reg peer e (proposal_anchor p)
      else promote_p2p_mining_context_plan_at_parent crv tok reg peer e (proposal_anchor p) (parent_id s) plan) = Ok (reg', r)"
    unfolding proposal_anchor_def by (auto simp: promote_anchored_def bindE_eq_Ok Let_def)
  from e(1) have parse: "parse_p2p_mining_context_envelope tok e = Ok q \<longleftrightarrow> q = p" for q
    by (auto simp: parse_context_eq_Ok [symmetric])
  obtain work where w: "derive_mining_header_work (pr_block_template_blob p) = Ok work"
    "if parent_id s = 0 then pays_something crv tok p work else pays_plan crv tok plan p work"
    "trusted_context r = \<lparr>ctx_zano_height = pr_zano_height p, ctx_mining_header_hash = header_hash work,
      ctx_network_difficulty = pr_network_difficulty p\<rparr>"
    "remember_with_provenance reg (trusted_context r) (parent_id s) (pr_prev_hash p) = Ok reg'"
  proof (cases "parent_id s = 0")
    case True
    with e(2) bootstrap_verifier.promoted [of tok reg peer e "proposal_anchor p" 0 crv reg' r] assms(3) that
    show thesis by (auto simp: promote_bootstrap_p2p_mining_context_def parse proposal_anchor_def)
  next
    case False
    with e(2) plan_verifier.promoted [of tok reg peer e "proposal_anchor p" "parent_id s" crv plan reg' r] assms(3) that
    show thesis by (auto simp: promote_p2p_mining_context_plan_at_parent_def parse proposal_anchor_def)
  qed
  from remember_exact [OF assms(1) w(4)] w show ?thesis by auto
qed

lemma promote_historical_not_trusted:
  assumes "promote_historical_mining_context crv tok lookup plk reg chain params s peer p obs k = (Ok (reg', r), k')"
    and "ht_status r \<noteq> Historical_trusted"
  shows "reg' = reg"
  using assms
  by (auto simp: promote_historical_mining_context_def bindS_eq_Ok Let_def default_historical_trust_result_def
      dest: promote_anchored_not_trusted split: sum.splits exn.splits if_splits)

lemma promote_historical_trusted:
  assumes "registry_inv reg"
    and "promote_historical_mining_context crv tok lookup plk reg chain params s peer p obs k = (Ok (reg', r), k')"
    and "ht_status r = Historical_trusted"
  shows "\<exists>work k2. derive_mining_header_work (pr_block_template_blob p) = Ok work \<and>
      share_id s = Ok (ht_candidate_id r) \<and> zano_height s = pr_zano_height p \<and>
      mining_header_hash s = header_hash work \<and> network_difficulty s = pr_network_difficulty p \<and>
      pr_prev_hash p \<noteq> 0 \<and> anchored_locally lookup plk obs p k \<and> k < k2 \<and> anchored_locally lookup plk obs p k2 \<and>
      pays_for_candidate crv tok chain params s p work \<and>
      fmlookup reg' = (fmlookup reg)((zano_height s, mining_header_hash s, parent_id s) \<mapsto>
        \<lparr>entry_context = \<lparr>ctx_zano_height = zano_height s, ctx_mining_header_hash = mining_header_hash s,
            ctx_network_difficulty = network_difficulty s\<rparr>,
          entry_zano_parent_hash = Some (pr_prev_hash p)\<rparr>)"
proof -
  from assms(2,3) obtain i header initial k1 plan k2 final promotion where
    i: "share_id s = Ok i" "ht_candidate_id r = i" "validate_p2p_mining_context_structure tok p = Ok header"
      "zano_height s = pr_zano_height p" "mining_header_hash s = header" "network_difficulty s = pr_network_difficulty p"
      "parent_id s = 0 \<longrightarrow> bootstrap_root_share s"
    and a: "audit_historical_local_anchor tok lookup plk p obs k = (Ok initial, k1)"
      "anchor_status initial = AnchorMatchedUntrusted"
      "audit_historical_local_anchor tok lookup plk p obs k1 = (Ok final, k2)"
      "anchor_status final = AnchorMatchedUntrusted"
    and plan: "parent_id s \<noteq> 0 \<longrightarrow> (\<exists>q. derive_historical_payout_plan chain params (parent_id s) (pr_network_difficulty p)
         (pr_block_reward_without_fee p) = Ok q \<and> historical_status q = PlanDerived \<and> plan = historical_plan q)"
    and pr: "promote_anchored crv tok reg peer p s plan = Ok (reg', promotion)"
      "trust_status promotion = Trusted"
    by (auto simp: promote_historical_mining_context_def bindS_eq_Ok Let_def default_historical_trust_result_def
        split: sum.splits exn.splits if_splits)
  obtain work where w: "derive_mining_header_work (pr_block_template_blob p) = Ok work"
    "if parent_id s = 0 then pays_something crv tok p work else pays_plan crv tok plan p work"
    "fmlookup reg' = (fmlookup reg)((pr_zano_height p, header_hash work, parent_id s) \<mapsto>
      \<lparr>entry_context = \<lparr>ctx_zano_height = pr_zano_height p, ctx_mining_header_hash = header_hash work,
          ctx_network_difficulty = pr_network_difficulty p\<rparr>,
        entry_zano_parent_hash = Some (pr_prev_hash p)\<rparr>)"
    using promote_anchored_trusted [OF assms(1) pr] by blast
  from i(3) w(1) have "header = header_hash work"
    by (auto simp: validate_p2p_mining_context_structure_def bindE_eq_Ok)
  moreover have "pays_for_candidate crv tok chain params s p work"
    using i(7) plan w(2) by (auto simp: pays_for_candidate_def)
  ultimately show ?thesis
    using i w(1,3) audit_anchor_eq_Ok [OF a(1)] audit_anchor_eq_Ok [OF a(3)] a(2,4) by auto
qed

text \<open>C9. Old work of a peer becomes trusted only for an exact candidate and only with two local audits.
  When the crossing says trusted, the candidate names the height, the difficulty and the header hash of the
  template; before and again after the payout plan was derived, the operator's daemon answered twice that
  the template's parent is its block below this height, and the node's own observations or the daemon's own
  history confirm difficulty, seed and base reward; the miner transaction pays the plan of the candidate's
  parent share exactly (for the first share of the sidechain it only has to be proved); and one registry
  entry is written, under this parent. In every other case the registry is unchanged.\<close>

theorem historical_trust_sound:
  assumes "registry_inv reg"
    and "promote_historical_mining_context crv tok lookup plk reg chain params s peer p obs k = (Ok (reg', r), k')"
  shows "if ht_status r = Historical_trusted
    then \<exists>work k2. derive_mining_header_work (pr_block_template_blob p) = Ok work \<and>
      share_id s = Ok (ht_candidate_id r) \<and> zano_height s = pr_zano_height p \<and>
      mining_header_hash s = header_hash work \<and> network_difficulty s = pr_network_difficulty p \<and>
      pr_prev_hash p \<noteq> 0 \<and> anchored_locally lookup plk obs p k \<and> k < k2 \<and> anchored_locally lookup plk obs p k2 \<and>
      pays_for_candidate crv tok chain params s p work \<and>
      fmlookup reg' = (fmlookup reg)((zano_height s, mining_header_hash s, parent_id s) \<mapsto>
        \<lparr>entry_context = \<lparr>ctx_zano_height = zano_height s, ctx_mining_header_hash = mining_header_hash s,
            ctx_network_difficulty = network_difficulty s\<rparr>,
          entry_zano_parent_hash = Some (pr_prev_hash p)\<rparr>)
    else reg' = reg"
  using promote_historical_trusted [OF assms] promote_historical_not_trusted [OF assms(2)] by auto

subsection \<open>A first share on the sample template\<close>

definition sample_root :: share where
  "sample_root = sample_share\<lparr>zano_height := 5, mining_header_hash := header_hash sample_work,
    network_difficulty := array_of_nat 9\<rparr>"

text \<open>A daemon whose chain does not change.\<close>

definition sample_lookup :: canonical_lookup where
  "sample_lookup k height = Ok \<lparr>header_height = height, header_block_hash = sample_prev\<rparr>"

lemma sample_audit:
  "audit_historical_local_anchor sample_tok sample_lookup None sample_proposal [sample_anchor] k =
    (Ok \<lparr>anchor_status = AnchorMatchedUntrusted, anchor_mining_header_hash = header_hash sample_work,
      matching_observations = 1\<rparr>, k + 2)"
proof -
  have h: "pr_zano_height sample_proposal = 5" "pr_prev_hash sample_proposal = sample_prev" "pr_seed sample_proposal = 0"
    "pr_network_difficulty sample_proposal = array_of_nat 9"
    by (simp_all add: sample_proposal_def)
  have "progpowz_seed 5 = Ok 0"
    by (simp add: progpowz_seed_def kIntMax_def progpowz_epoch_def kProgPowZEpochLength_def unat_div)
  moreover have "audit_historical_parent sample_tok sample_lookup sample_proposal k =
      (Ok \<lparr>parent_status = ParentMatchedUntrusted, parent_mining_header_hash = header_hash sample_work\<rparr>, k + 2)" for k
    by (simp add: audit_historical_parent_def h bindS_def liftS_def sample_structure ask_def sample_lookup_def
        returnS_def Let_def)
  ultimately show ?thesis
    by (simp add: audit_historical_local_anchor_def h bindS_def liftS_def returnS_def Let_def sample_anchor_def
        default_anchor_result_def sample_fields)
qed

theorem historical_trust_sound_witness:
  "\<exists>reg r k. promote_historical_mining_context sample_crypto sample_tok sample_lookup None fmempty sample_chain
      (canonical_sidechain_parameters Testnet) sample_root sample_context_peer sample_proposal [sample_anchor] 0 =
      (Ok (reg, r), k) \<and>
    (cn_fast_hash sample_prefix = 0 \<or> ht_status r = Historical_trusted) \<and>
    (if ht_status r = Historical_trusted
     then fmlookup reg (5, header_hash sample_work, 0) =
       Some \<lparr>entry_context = \<lparr>ctx_zano_height = 5, ctx_mining_header_hash = header_hash sample_work,
         ctx_network_difficulty = array_of_nat 9\<rparr>, entry_zano_parent_hash = Some sample_prev\<rparr>
     else reg = fmempty)"
proof -
  let ?run = "promote_historical_mining_context sample_crypto sample_tok sample_lookup None fmempty sample_chain
      (canonical_sidechain_parameters Testnet) sample_root sample_context_peer sample_proposal [sample_anchor] 0"
  have root: "zano_height sample_root = 5" "mining_header_hash sample_root = header_hash sample_work"
    "network_difficulty sample_root = array_of_nat 9" "parent_id sample_root = 0" "bootstrap_root_share sample_root"
    by (simp_all add: sample_root_def sample_share_def bootstrap_root_share_def kShareVersion2_def)
  have h: "pr_zano_height sample_proposal = 5" "pr_network_difficulty sample_proposal = array_of_nat 9"
    "pr_prev_hash sample_proposal = sample_prev" "pr_seed sample_proposal = 0" "pr_block_reward_without_fee sample_proposal = 7"
    by (simp_all add: sample_proposal_def)
  obtain i where i: "share_id sample_root = Ok i"
    by (simp add: share_id_def serialize_share_def sample_root_def sample_share_def share_constants Let_def)
  have env: "make_p2p_mining_context_envelope sample_tok sample_proposal = Ok sample_envelope"
    using sample_parsed(1) by (simp add: parse_context_eq_Ok)
  obtain q where q: "verify_p2p_mining_context_bootstrap_proofs sample_crypto sample_tok sample_proposal sample_check = Ok q"
    using bootstrap_verifier.verifier_returns [OF sample_inspected _ sample_parsed(1)] by (auto simp: sample_check_def)
  have d: "anchor_network_difficulty sample_anchor \<noteq> 0"
    by (simp add: sample_anchor_def arr_val_eq_iff [symmetric] arr_val_array_of_nat)
  have status: "check_status sample_check = AnchoredUnverifiedMinerTx" by (simp add: sample_check_def)
  have "\<exists>reg r. promote_anchored sample_crypto sample_tok fmempty sample_context_peer sample_proposal sample_root empty_plan =
      Ok (reg, r) \<and> (proof_status q = ProofsVerified \<longrightarrow> trust_status r = Trusted)"
    using d
    by (simp add: promote_anchored_def env root h sample_anchor_def [symmetric] promote_bootstrap_p2p_mining_context_def
        promote_p2p_mining_context_impl_def sample_inspected status sample_parsed(1) q remember_with_provenance_def Let_def)
  then obtain reg t where t: "promote_anchored sample_crypto sample_tok fmempty sample_context_peer sample_proposal
      sample_root empty_plan = Ok (reg, t)" "proof_status q = ProofsVerified \<longrightarrow> trust_status t = Trusted" by blast
  obtain r k where r: "?run = (Ok (reg, r), k)"
    "ht_status r = (if trust_status t \<noteq> Trusted then PromotionRejected else Historical_trusted)"
    by (simp add: promote_historical_mining_context_def i bindS_def liftS_def returnS_def Let_def sample_structure root h
        sample_audit default_historical_trust_result_def t(1))
  have "cn_fast_hash sample_prefix = 0 \<or> ht_status r = Historical_trusted"
    using r(2) t(2) q sample_proofs(2) by (cases "cn_fast_hash sample_prefix = 0") auto
  with historical_trust_sound [OF registry_inv_empty r(1)] r(1) show ?thesis
    by (intro exI [of _ reg] exI [of _ r] exI [of _ k]) (auto simp: root h split: if_splits)
qed

end
