(* ===== verification/Node_State.thy ===== *)
theory Node_State
  imports Historical_Trust Work_Retrieval P2p_Sync
begin

text \<open>
  \<open>src/src/p2p_node.cpp\<close>: the state of \<open>P2pNodeProtocol\<close> and the book-keeping of work that waits for
  trust. The chain, the registry and the work retrieval are references in the program and parts of the
  state here; the retrieval is a pointer that may be null. The callbacks of
  \<open>set_historical_trust_sources\<close> are part of the environment: they ask the local daemon, so they take the
  number of the query. Operations of one node exclude each other (\<open>state_mutex_\<close>) and are steps here.
\<close>

section \<open>Data\<close>

record historical_evidence =
  ev_proposal :: p2p_mining_context_proposal
  ev_source_peer :: p2p_handshake
  ev_received :: u64

record pending_historical_candidate =
  pc_share :: share
  pc_required_capability :: u64
  pc_started :: u64

record deferred_historical_candidate =
  dc_share :: share
  dc_candidate_peer :: p2p_handshake
  dc_evidence :: historical_evidence
  dc_required_capability :: u64
  dc_recovery_root :: share_id
  dc_last_progress :: u64

record retryable_historical_candidate =
  rc_share :: share
  rc_candidate_peer :: p2p_handshake
  rc_required_capability :: u64
  rc_started :: u64

text \<open>What the transport is told to do, in this order.\<close>

datatype node_action =
    Report_misbehavior node_id u32
  | Send_to node_id p2p_envelope
  | Broadcast_except node_id p2p_envelope

record p2p_node =
  nd_work_retrieval :: "work_retrieval option"
  nd_chain :: share_chain
  nd_trusted_work :: registry
  local_mining_anchor :: "p2p_mining_anchor option"
  local_mining_context :: "p2p_mining_context_proposal option"
  expected_payout :: "p2p_payout_address option"
  expected_payout_plan :: "pplns_coinbase_plan option"
  expected_payout_parent_id :: "share_id option"
  historical_params :: "sidechain_parameters option"
  pending_historical :: "(node_id \<times> mining_work_key, pending_historical_candidate) fmap"
  historical_evidence_cache :: "(mining_work_key, historical_evidence) fmap"
  deferred_historical :: "(share_id, deferred_historical_candidate) fmap"
  active_deferred_recovery_root :: "(node_id, share_id) fmap"
  retryable_historical :: "(share_id, retryable_historical_candidate) fmap"
  replay_frontier_attempts :: "(node_id \<times> share_id, u64) fmap"
  nd_queries :: nat
  nd_outbox :: "node_action list"

text \<open>What the node uses but does not own: the cryptography library, the JSON library, the ProgPoWZ
  implementation, the archive, the three callbacks to the local daemon, and whether the transport could
  hand an envelope to a peer.\<close>

record ('p, 's) node_env =
  ne_crypto :: "('p, 's) zano_crypto"
  ne_tokener :: json_tokener
  ne_backend :: "progpow_backend option"
  ne_archive :: work_archive
  ne_directory :: directory
  ne_load_observations :: "nat \<Rightarrow> p2p_mining_context_proposal \<Rightarrow> p2p_mining_anchor list result"
  ne_parent_lookup :: canonical_lookup
  ne_pow_lookup :: pow_context_lookup
  ne_send :: "node_id \<Rightarrow> p2p_envelope \<Rightarrow> bool"

definition make_p2p_node :: "share_chain \<Rightarrow> registry \<Rightarrow> p2p_node" where
  "make_p2p_node chain trusted_work =
    \<lparr>nd_work_retrieval = None, nd_chain = chain, nd_trusted_work = trusted_work, local_mining_anchor = None,
     local_mining_context = None, expected_payout = None, expected_payout_plan = None,
     expected_payout_parent_id = None, historical_params = None, pending_historical = fmempty,
     historical_evidence_cache = fmempty, deferred_historical = fmempty, active_deferred_recovery_root = fmempty,
     retryable_historical = fmempty, replay_frontier_attempts = fmempty, nd_queries = 0, nd_outbox = []\<rparr>"

text \<open>The four sources are set together.\<close>

definition historical_trust_sources_ready :: "p2p_node \<Rightarrow> bool" where
  "historical_trust_sources_ready n \<longleftrightarrow> historical_params n \<noteq> None"

definition set_work_retrieval :: "work_retrieval option \<Rightarrow> p2p_node \<Rightarrow> p2p_node" where
  "set_work_retrieval retrieval n = n\<lparr>nd_work_retrieval := retrieval\<rparr>"

definition set_historical_trust_sources :: "sidechain_parameters \<Rightarrow> (p2p_node, unit) op" where
  "set_historical_trust_sources params = getsS (\<lambda>n.
    bindS (liftS (matches_sidechain_parameters (nd_chain n) params)) (\<lambda>matches.
      if \<not> matches
      then liftS (Throw (Runtime_error ''historical trust sidechain parameters do not match chain''))
      else modifyS (\<lambda>n. n\<lparr>historical_params := Some params\<rparr>)))"

section \<open>Expiry\<close>

text \<open>\<open>std::map::erase\<close> of every entry that a predicate selects.\<close>

definition erase_where :: "('k::linorder \<Rightarrow> 'v \<Rightarrow> bool) \<Rightarrow> ('k, 'v) fmap \<Rightarrow> ('k, 'v) fmap" where
  "erase_where P m = fold (\<lambda>item m. if P (fst item) (snd item) then fmdrop (fst item) m else m) (sorted_list_of_fmap m) m"

definition outlived :: "u64 \<Rightarrow> u64 \<Rightarrow> bool" where
  "outlived now started \<longleftrightarrow> now < started \<or> now - started \<ge> kMiningWorkRequestLifetime"

definition recovery_root_live :: "p2p_node \<Rightarrow> node_id \<Rightarrow> share_id \<Rightarrow> bool" where
  "recovery_root_live n peer_id recovery_root \<longleftrightarrow>
    list_ex (\<lambda>item. hs_node_id (dc_candidate_peer (snd item)) = peer_id \<and> dc_recovery_root (snd item) = recovery_root)
      (sorted_list_of_fmap (deferred_historical n))"

definition expire_historical_state :: "u64 \<Rightarrow> p2p_node \<Rightarrow> p2p_node" where
  "expire_historical_state now n =
    (let n = n\<lparr>pending_historical := erase_where (\<lambda>_ c. outlived now (pc_started c)) (pending_historical n)\<rparr>;
         n = n\<lparr>historical_evidence_cache := erase_where (\<lambda>_ e. outlived now (ev_received e)) (historical_evidence_cache n)\<rparr>;
         n = n\<lparr>deferred_historical := erase_where (\<lambda>_ d. outlived now (dc_last_progress d)) (deferred_historical n)\<rparr>;
         n = n\<lparr>active_deferred_recovery_root := erase_where (\<lambda>peer_id root. \<not> recovery_root_live n peer_id root)
               (active_deferred_recovery_root n)\<rparr>;
         n = n\<lparr>retryable_historical := erase_where (\<lambda>_ c. outlived now (rc_started c)) (retryable_historical n)\<rparr>
     in n\<lparr>replay_frontier_attempts := erase_where (\<lambda>_ t. outlived now t) (replay_frontier_attempts n)\<rparr>)"

section \<open>Work that waits\<close>

definition work_key_of :: "share \<Rightarrow> mining_work_key" where
  "work_key_of s = (zano_height s, mining_header_hash s)"

definition remember_pending_historical :: "p2p_handshake \<Rightarrow> share \<Rightarrow> u64 \<Rightarrow> u64 \<Rightarrow> p2p_node \<Rightarrow> p2p_node" where
  "remember_pending_historical peer s required_capability now n =
    (let n = expire_historical_state now n in
     if fcard (fmdom (pending_historical n)) \<ge> kMiningWorkMaxPending then n
     else n\<lparr>pending_historical := try_emplace (hs_node_id peer, work_key_of s)
       \<lparr>pc_share = s, pc_required_capability = required_capability, pc_started = now\<rparr> (pending_historical n)\<rparr>)"

definition remember_historical_evidence :: "mining_work_key \<Rightarrow> historical_evidence \<Rightarrow> u64 \<Rightarrow> p2p_node \<Rightarrow> p2p_node" where
  "remember_historical_evidence key evidence now n =
    (let n = expire_historical_state now n; cache = historical_evidence_cache n in
     case fmlookup cache key of
       Some existing \<Rightarrow>
         n\<lparr>historical_evidence_cache := fmupd key (evidence\<lparr>ev_received := ev_received existing\<rparr>) cache\<rparr>
     | None \<Rightarrow>
         n\<lparr>historical_evidence_cache := fmupd key (evidence\<lparr>ev_received := now\<rparr>)
           (if fcard (fmdom cache) \<ge> kMiningWorkMaxReceived then fmdrop (fst (hd (sorted_list_of_fmap cache))) cache
            else cache)\<rparr>)"

text \<open>The recovery walks of the peer that the share \<open>i\<close> joins: those with a deferred child of it.\<close>

definition joined_roots :: "p2p_node \<Rightarrow> node_id \<Rightarrow> share_id \<Rightarrow> share_id list" where
  "joined_roots n peer_id i =
    map (\<lambda>item. dc_recovery_root (snd item))
      (filter (\<lambda>item. hs_node_id (dc_candidate_peer (snd item)) = peer_id \<and> parent_id (dc_share (snd item)) = i)
        (sorted_list_of_fmap (deferred_historical n)))"

definition join_walk ::
  "node_id \<Rightarrow> share_id list \<Rightarrow> share_id \<Rightarrow> u64 \<Rightarrow> deferred_historical_candidate \<Rightarrow> deferred_historical_candidate"
where
  "join_walk peer_id roots recovery_root now d =
    (if hs_node_id (dc_candidate_peer d) \<noteq> peer_id then d
     else if \<not> list_ex (\<lambda>root. dc_recovery_root d = root) roots then d
     else d\<lparr>dc_recovery_root := recovery_root, dc_last_progress := now\<rparr>)"

definition remember_deferred_historical ::
  "share \<Rightarrow> p2p_handshake \<Rightarrow> historical_evidence \<Rightarrow> u64 \<Rightarrow> u64 \<Rightarrow> (p2p_node, bool) op"
where
  "remember_deferred_historical s candidate_peer evidence required_capability now =
    bindS (modifyS (expire_historical_state now)) (\<lambda>_.
    if hs_capabilities candidate_peer AND kP2pCapabilityShareSync = 0 then returnS False
    else
      bindS (liftS (share_id s)) (\<lambda>i. getsS (\<lambda>n.
        case historical_params n of
          None \<Rightarrow> returnS False
        | Some params \<Rightarrow>
            let max_deferred = unat (difficulty_window_shares params);
                deferred = deferred_historical n in
            if fmlookup deferred i = None \<and> fcard (fmdom deferred) \<ge> max_deferred then returnS False
            else
              let roots = joined_roots n (hs_node_id candidate_peer) i;
                  recovery_root = (if roots = [] then i else hd roots);
                  deferred = (if roots = [] then deferred
                    else fmmap (join_walk (hs_node_id candidate_peer) roots recovery_root now) deferred)
              in bindS (modifyS (\<lambda>n. n\<lparr>deferred_historical := fmupd i
                    \<lparr>dc_share = s, dc_candidate_peer = candidate_peer, dc_evidence = evidence,
                     dc_required_capability = required_capability, dc_recovery_root = recovery_root,
                     dc_last_progress = now\<rparr> deferred\<rparr>))
                  (\<lambda>_. returnS True))))"

text \<open>The first of the entries that started earliest, in the order of the keys.\<close>

definition oldest_retryable :: "(share_id, retryable_historical_candidate) fmap \<Rightarrow> share_id" where
  "oldest_retryable m =
    (let items = sorted_list_of_fmap m in
     fst (fold (\<lambda>item oldest. if rc_started (snd item) < rc_started (snd oldest) then item else oldest) items (hd items)))"

definition remember_retryable_historical :: "share \<Rightarrow> p2p_handshake \<Rightarrow> u64 \<Rightarrow> u64 \<Rightarrow> (p2p_node, unit) op" where
  "remember_retryable_historical s candidate_peer required_capability now =
    bindS (modifyS (expire_historical_state now)) (\<lambda>_.
    if required_capability \<noteq> kP2pCapabilityShareGossip \<and> required_capability \<noteq> kP2pCapabilityShareSync
    then liftS (Throw (Logic_error ''unsupported historical retry capability''))
    else
      bindS (liftS (share_id s)) (\<lambda>i.
      modifyS (\<lambda>n.
        let retryable = retryable_historical n;
            started = (case fmlookup retryable i of Some existing \<Rightarrow> rc_started existing | None \<Rightarrow> now);
            retryable =
              (if fmlookup retryable i = None \<and> fcard (fmdom retryable) \<ge> kMiningWorkMaxReceived
               then fmdrop (oldest_retryable retryable) retryable else retryable)
        in n\<lparr>retryable_historical := fmupd i
          \<lparr>rc_share = s, rc_candidate_peer = candidate_peer, rc_required_capability = required_capability,
           rc_started = started\<rparr> retryable\<rparr>)))"

end
