(* ===== verification/Node_Local.thy ===== *)
theory Node_Local
  imports Node_State P2p_Trust
begin

text \<open>
  \<open>src/src/p2p_node.cpp\<close>: what the node does on behalf of its own daemon: it installs the current mining
  context and the expected payout, authorises its own work, and takes back work and shares when the
  daemon's chain changes. The claim is that this withdrawal is exact.
\<close>

section \<open>Reconciliation with the daemon's chain\<close>

record p2p_canonical_reconciliation_result =
  pruned_connected_shares :: nat
  revoked_trusted_work :: nat

text \<open>The connected shares by height and then by identifier. The identifiers come from the chain, so the
  lookups of the comparison succeed.\<close>

definition replay_order :: "share_chain \<Rightarrow> share_id list" where
  "replay_order c =
    sort_key (\<lambda>i. (case find c i of None \<Rightarrow> 0 | Some cs \<Rightarrow> share_height (cs_share cs), i)) (connected_share_ids c)"

definition reset_expected_payout :: "p2p_node \<Rightarrow> p2p_node" where
  "reset_expected_payout n =
    n\<lparr>expected_payout := None, expected_payout_plan := None, expected_payout_parent_id := None\<rparr>"

text \<open>A subtree is collected from a finite tree, so the loop of the pruning ends on the chains a node can
  have; \<open>None\<close> does not occur.\<close>

definition node_prune :: "share_id \<Rightarrow> (p2p_node, share_id list) op" where
  "node_prune i n =
    (case prune_connected_subtree_ids (nd_chain n) i of
      None \<Rightarrow> (Throw (Logic_error ''subtree collection does not end''), n)
    | Some (c, r) \<Rightarrow> (r, n\<lparr>nd_chain := c\<rparr>))"

fun prune_loop :: "(connected_share \<Rightarrow> bool) \<Rightarrow> share_id list \<Rightarrow> nat \<Rightarrow> (p2p_node, nat) op" where
  "prune_loop stale [] pruned = returnS pruned"
| "prune_loop stale (i # ids) pruned = getsS (\<lambda>n.
    case find (nd_chain n) i of
      None \<Rightarrow> prune_loop stale ids pruned
    | Some cs \<Rightarrow>
        if \<not> stale cs then prune_loop stale ids pruned
        else bindS (node_prune i) (\<lambda>removed. prune_loop stale ids (pruned + length removed)))"

definition prune_stale :: "(connected_share \<Rightarrow> bool) \<Rightarrow> (p2p_node, nat) op" where
  "prune_stale stale = getsS (\<lambda>n. prune_loop stale (replay_order (nd_chain n)) 0)"

definition recorded_parent_conflicts :: "registry \<Rightarrow> u64 \<Rightarrow> hash256 \<Rightarrow> connected_share \<Rightarrow> bool" where
  "recorded_parent_conflicts reg height canonical cs \<longleftrightarrow>
    zano_height (cs_share cs) = height \<and>
    (case find_zano_parent_hash reg (zano_height (cs_share cs)) (mining_header_hash (cs_share cs)) (parent_id (cs_share cs)) of
      None \<Rightarrow> False
    | Some recorded \<Rightarrow> recorded \<noteq> canonical)"

definition reconcile_canonical_parent ::
  "u64 \<Rightarrow> hash256 \<Rightarrow> (p2p_node, p2p_canonical_reconciliation_result) op"
where
  "reconcile_canonical_parent height canonical = getsS (\<lambda>n.
    bindS (prune_stale (recorded_parent_conflicts (nd_trusted_work n) height canonical)) (\<lambda>pruned. getsS (\<lambda>n.
      let (reg, revoked) = erase_zano_parent_mismatch (nd_trusted_work n) height canonical in
      bindS (modifyS (\<lambda>n. n\<lparr>nd_trusted_work := reg\<rparr>)) (\<lambda>_.
      bindS (modifyS (\<lambda>n. if pruned \<noteq> 0 then reset_expected_payout n else n)) (\<lambda>_.
        returnS \<lparr>pruned_connected_shares = pruned, revoked_trusted_work = revoked\<rparr>)))))"

definition reconcile_unavailable_work_height ::
  "u64 \<Rightarrow> (p2p_node, p2p_canonical_reconciliation_result) op"
where
  "reconcile_unavailable_work_height height =
    bindS (prune_stale (\<lambda>cs. zano_height (cs_share cs) = height)) (\<lambda>pruned. getsS (\<lambda>n.
      let (reg, revoked) = erase_zano_height (nd_trusted_work n) height in
      bindS (modifyS (\<lambda>n. n\<lparr>nd_trusted_work := reg\<rparr>)) (\<lambda>_.
      bindS (modifyS (\<lambda>n. if pruned \<noteq> 0 \<or> revoked \<noteq> 0 then reset_expected_payout n else n)) (\<lambda>_.
        returnS \<lparr>pruned_connected_shares = pruned, revoked_trusted_work = revoked\<rparr>))))"

definition reconcile_unavailable_work_above ::
  "u64 \<Rightarrow> (p2p_node, p2p_canonical_reconciliation_result) op"
where
  "reconcile_unavailable_work_above maximum =
    bindS (prune_stale (\<lambda>cs. \<not> zano_height (cs_share cs) \<le> maximum)) (\<lambda>pruned. getsS (\<lambda>n.
      let (reg, revoked) = erase_zano_heights_above (nd_trusted_work n) maximum in
      bindS (modifyS (\<lambda>n. n\<lparr>nd_trusted_work := reg\<rparr>)) (\<lambda>_.
      bindS (modifyS (\<lambda>n. if pruned \<noteq> 0 \<or> revoked \<noteq> 0 then reset_expected_payout n else n)) (\<lambda>_.
        returnS \<lparr>pruned_connected_shares = pruned, revoked_trusted_work = revoked\<rparr>))))"

definition reconcile_local_parent_replacement :: "p2p_mining_anchor \<Rightarrow> (p2p_node, unit) op" where
  "reconcile_local_parent_replacement next_anchor = getsS (\<lambda>n.
    case local_mining_anchor n of
      None \<Rightarrow> returnS ()
    | Some current \<Rightarrow>
        if anchor_zano_height current \<noteq> anchor_zano_height next_anchor \<or>
          anchor_prev_hash current = anchor_prev_hash next_anchor
        then returnS ()
        else bindS (reconcile_canonical_parent (anchor_zano_height next_anchor) (anchor_prev_hash next_anchor)) (\<lambda>_.
          modifyS reset_expected_payout))"

section \<open>The local mining context\<close>

definition best_tip_or_zero :: "share_chain \<Rightarrow> share_id" where
  "best_tip_or_zero c = (case best_tip c of None \<Rightarrow> 0 | Some cs \<Rightarrow> cs_id cs)"

definition set_local_mining_context ::
  "p2p_mining_anchor \<Rightarrow> p2p_mining_context_proposal \<Rightarrow> (p2p_node, unit) op"
where
  "set_local_mining_context anchor p =
    bindS (reconcile_local_parent_replacement anchor) (\<lambda>_.
      modifyS (\<lambda>n. n\<lparr>local_mining_anchor := Some anchor, local_mining_context := Some p\<rparr>))"

definition set_local_mining_context_payout ::
  "p2p_mining_anchor \<Rightarrow> p2p_mining_context_proposal \<Rightarrow> p2p_payout_address \<Rightarrow> (p2p_node, unit) op"
where
  "set_local_mining_context_payout anchor p address =
    bindS (reconcile_local_parent_replacement anchor) (\<lambda>_.
      modifyS (\<lambda>n. n\<lparr>local_mining_anchor := Some anchor, local_mining_context := Some p,
        expected_payout := Some address, expected_payout_plan := None,
        expected_payout_parent_id := Some (best_tip_or_zero (nd_chain n))\<rparr>))"

text \<open>The parent of local work: a given one is connected, and validated when the chain enforces the
  difficulty; otherwise it is the tip.\<close>

definition resolve_local_parent :: "string \<Rightarrow> string \<Rightarrow> share_id option \<Rightarrow> share_chain \<Rightarrow> share_id result" where
  "resolve_local_parent not_connected not_validated parent chain =
    (case parent of
      None \<Rightarrow> Ok (best_tip_or_zero chain)
    | Some i \<Rightarrow>
        if is_zero_share_id i then Ok i
        else (case find chain i of
          None \<Rightarrow> Throw (Runtime_error not_connected)
        | Some cs \<Rightarrow>
            if enforces_sidechain_difficulty chain \<and> \<not> validated_ancestry cs
            then Throw (Runtime_error not_validated)
            else Ok i))"

definition set_local_mining_context_plan ::
  "p2p_mining_anchor \<Rightarrow> p2p_mining_context_proposal \<Rightarrow> pplns_coinbase_plan \<Rightarrow> share_id option \<Rightarrow> (p2p_node, unit) op"
where
  "set_local_mining_context_plan anchor p plan parent =
    bindS (reconcile_local_parent_replacement anchor) (\<lambda>_. getsS (\<lambda>n.
    bindS (liftS (resolve_local_parent ''local payout-plan parent is not connected''
      ''local payout-plan parent lacks validated ancestry'' parent (nd_chain n))) (\<lambda>resolved_parent.
      modifyS (\<lambda>n. n\<lparr>local_mining_anchor := Some anchor, local_mining_context := Some p,
        expected_payout_plan := Some plan, expected_payout := None,
        expected_payout_parent_id := Some resolved_parent\<rparr>))))"

definition set_expected_payout :: "p2p_payout_address \<Rightarrow> p2p_node \<Rightarrow> p2p_node" where
  "set_expected_payout address n =
    n\<lparr>expected_payout := Some address, expected_payout_plan := None,
      expected_payout_parent_id := Some (best_tip_or_zero (nd_chain n))\<rparr>"

definition set_expected_payout_plan :: "pplns_coinbase_plan \<Rightarrow> p2p_node \<Rightarrow> p2p_node" where
  "set_expected_payout_plan plan n =
    n\<lparr>expected_payout_plan := Some plan, expected_payout := None,
      expected_payout_parent_id := Some (best_tip_or_zero (nd_chain n))\<rparr>"

definition clear_expected_payout :: "p2p_node \<Rightarrow> p2p_node" where
  "clear_expected_payout n = reset_expected_payout n"

definition remember_trusted_work ::
  "json_tokener \<Rightarrow> share_work_context \<Rightarrow> share_id option \<Rightarrow> (p2p_node, unit) op"
where
  "remember_trusted_work tok ctx parent = getsS (\<lambda>n.
    case (local_mining_anchor n, local_mining_context n) of
      (Some anchor, Some p) \<Rightarrow>
        let mismatch = liftS (Throw (Runtime_error ''trusted local work does not match installed Zano mining context'')) in
        if anchor_zano_height anchor \<noteq> ctx_zano_height ctx \<or> pr_zano_height p \<noteq> ctx_zano_height ctx \<or>
          anchor_network_difficulty anchor \<noteq> ctx_network_difficulty ctx \<or>
          pr_network_difficulty p \<noteq> ctx_network_difficulty ctx \<or> anchor_prev_hash anchor \<noteq> pr_prev_hash p
        then mismatch
        else
          bindS (liftS (validate_p2p_mining_context_structure tok p)) (\<lambda>header.
          if header \<noteq> ctx_mining_header_hash ctx then mismatch
          else
            bindS (liftS (resolve_local_parent ''trusted local work parent is not connected''
              ''trusted local work parent lacks validated ancestry'' parent (nd_chain n))) (\<lambda>resolved_parent.
            if parent \<noteq> None \<and> expected_payout_parent_id n \<notin> {None, Some resolved_parent}
            then liftS (Throw (Runtime_error ''trusted local work parent does not match payout parent''))
            else
              bindS (liftS (remember_with_provenance (nd_trusted_work n) ctx resolved_parent (anchor_prev_hash anchor)))
                (\<lambda>reg. modifyS (\<lambda>n. n\<lparr>nd_trusted_work := reg\<rparr>))))
    | _ \<Rightarrow> liftS (Throw (Runtime_error ''trusted local work has no installed Zano mining context'')))"

section \<open>What others may read\<close>

record p2p_node_metrics_snapshot =
  ms_connected_shares :: nat
  ms_orphan_shares :: nat
  ms_tip_height :: u64
  ms_trusted_work_contexts :: nat

text \<open>The snapshot of a node that no other operation holds; otherwise there is none.\<close>

definition try_metrics_snapshot :: "p2p_node \<Rightarrow> p2p_node_metrics_snapshot" where
  "try_metrics_snapshot n =
    \<lparr>ms_connected_shares = connected_size (nd_chain n), ms_orphan_shares = orphan_size (nd_chain n),
     ms_tip_height = (case best_tip (nd_chain n) of None \<Rightarrow> 0 | Some tip \<Rightarrow> share_height (cs_share tip)),
     ms_trusted_work_contexts = registry_size (nd_trusted_work n)\<rparr>"

definition trusted_work_count :: "p2p_node \<Rightarrow> nat" where
  "trusted_work_count n = registry_size (nd_trusted_work n)"

definition trusted_work_provenance_heights :: "p2p_node \<Rightarrow> u64 list" where
  "trusted_work_provenance_heights n = provenance_zano_heights (nd_trusted_work n)"

definition connected_share_count :: "p2p_node \<Rightarrow> nat" where
  "connected_share_count n = connected_size (nd_chain n)"

definition local_tip :: "p2p_node \<Rightarrow> p2p_tip_hint" where
  "local_tip n = p2p_tip_hint_from_chain (nd_chain n)"

definition periodic_tip_announce :: "p2p_node \<Rightarrow> p2p_envelope option result" where
  "periodic_tip_announce n =
    (let tip = p2p_tip_hint_from_chain (nd_chain n) in
     if is_zero_share_id (hint_share_id tip) then Ok None
     else bindE (make_p2p_tip_announce_envelope tip) (\<lambda>e. Ok (Some e)))"

definition mining_context_trust_ready :: "p2p_node \<Rightarrow> bool" where
  "mining_context_trust_ready n \<longleftrightarrow>
    local_mining_anchor n \<noteq> None \<and> local_mining_context n \<noteq> None \<and>
    (expected_payout n \<noteq> None \<or> expected_payout_plan n \<noteq> None) \<and> expected_payout_parent_id n \<noteq> None"

definition local_mining_context_envelope :: "json_tokener \<Rightarrow> p2p_node \<Rightarrow> p2p_envelope option result" where
  "local_mining_context_envelope tok n =
    (case local_mining_context n of
      None \<Rightarrow> Ok None
    | Some p \<Rightarrow>
        if expected_payout n = None \<and> expected_payout_plan n = None \<or> expected_payout_parent_id n = None then Ok None
        else bindE (make_p2p_mining_context_envelope tok p) (\<lambda>e. Ok (Some e)))"

section \<open>The withdrawal is exact\<close>

text \<open>The shares that satisfy a condition, with all their descendants.\<close>

definition subtrees_where :: "share_chain \<Rightarrow> (connected_share \<Rightarrow> bool) \<Rightarrow> share_id set" where
  "subtrees_where c stale = (\<Union>r\<in>{r. \<exists>cs. find c r = Some cs \<and> stale cs}. descendants c r)"

lemma descendants_closed: "p \<in> descendants c r \<Longrightarrow> (p, i) \<in> child_of c \<Longrightarrow> i \<in> descendants c r"
  by (auto simp: descendants_def intro: rtrancl_into_rtrancl)

lemma child_of_without:
  assumes "\<And>i. fmlookup (connected d) i = (if i \<in> U then None else fmlookup (connected c) i)"
  shows "child_of d = {(p, i) \<in> child_of c. i \<notin> U}"
  by (auto simp: child_of_def assms split: if_splits)

text \<open>The descendants that are left when a set closed under descent is taken out.\<close>

lemma descendants_without:
  assumes d: "\<And>i. fmlookup (connected d) i = (if i \<in> U then None else fmlookup (connected c) i)"
    and closed: "\<And>p i. (p, i) \<in> child_of c \<Longrightarrow> p \<in> U \<Longrightarrow> i \<in> U"
    and r: "r \<notin> U"
  shows "descendants d r = descendants c r - U"
proof (intro equalityI subsetI)
  fix x assume "x \<in> descendants d r"
  then have "(r, x) \<in> (child_of d)\<^sup>*" by (simp add: descendants_def)
  then show "x \<in> descendants c r - U"
    by (induction rule: rtrancl_induct)
      (auto simp: descendants_def child_of_without [OF d] r intro: rtrancl_into_rtrancl)
next
  fix x assume "x \<in> descendants c r - U"
  then have "(r, x) \<in> (child_of c)\<^sup>*" "x \<notin> U" by (auto simp: descendants_def)
  then show "x \<in> descendants d r"
  proof (induction rule: rtrancl_induct)
    case (step y z)
    then have "y \<notin> U" using closed by blast
    with step show ?case
      by (auto simp: descendants_def child_of_without [OF d] intro: rtrancl_into_rtrancl)
  qed (simp add: descendants_def)
qed

lemma node_prune_exact:
  assumes "chain_inv full (nd_chain n)" "find (nd_chain n) i = Some cs"
  obtains d where "node_prune i n = (Ok (sorted_list_of_set (descendants (nd_chain n) i)), n\<lparr>nd_chain := d\<rparr>)"
    "chain_inv full d" "finite (descendants (nd_chain n) i)"
    "\<And>j. fmlookup (connected d) j = (if j \<in> descendants (nd_chain n) i then None else fmlookup (connected (nd_chain n)) j)"
    "orphans d = orphans (nd_chain n)" "parameter_id d = parameter_id (nd_chain n)"
    "difficulty_policy d = difficulty_policy (nd_chain n)"
proof -
  have contains: "contains (nd_chain n) i" using assms(2) by (auto simp: contains_def find_def fmlookup_dom_iff)
  obtain d ids where d: "prune_connected_subtree_ids (nd_chain n) i = Some (d, Ok ids)" "chain_inv full d"
    "sorted ids" "distinct ids" "set ids = (if contains (nd_chain n) i then descendants (nd_chain n) i else {})"
    "\<And>j. fmlookup (connected d) j = (if j \<in> set ids then None else fmlookup (connected (nd_chain n)) j)"
    "orphans d = orphans (nd_chain n)" "parameter_id d = parameter_id (nd_chain n)"
    "difficulty_policy d = difficulty_policy (nd_chain n)"
    by (rule prune_result [OF assms(1), of i], rule that, assumption+)
  have set: "set ids = descendants (nd_chain n) i" using d(5) contains by simp
  then have "sorted_list_of_set (descendants (nd_chain n) i) = ids" "finite (descendants (nd_chain n) i)"
    using d(3,4) sorted_list_of_set.idem_if_sorted_distinct [of ids] by (auto simp flip: set)
  with d set show thesis by (intro that [of d]) (simp_all add: node_prune_def)
qed

text \<open>The loop, after the set \<open>U\<close> has been taken out of the chain \<open>c\<close>.\<close>

definition pruned_to :: "bool \<Rightarrow> share_chain \<Rightarrow> share_id set \<Rightarrow> share_chain \<Rightarrow> bool" where
  "pruned_to full c U d \<longleftrightarrow> chain_inv full d \<and>
    (\<forall>i. fmlookup (connected d) i = (if i \<in> U then None else fmlookup (connected c) i)) \<and>
    orphans d = orphans c \<and> parameter_id d = parameter_id c \<and> difficulty_policy d = difficulty_policy c"

lemma prune_loop_exact:
  assumes "pruned_to full c U (nd_chain n)" "finite U"
    and "\<And>p i. (p, i) \<in> child_of c \<Longrightarrow> p \<in> U \<Longrightarrow> i \<in> U"
  shows "\<exists>d W. prune_loop stale ids k n = (Ok (k + card (W - U)), n\<lparr>nd_chain := d\<rparr>) \<and> pruned_to full c W d \<and>
    finite W \<and> W = U \<union> (\<Union>r\<in>{r \<in> set ids. \<exists>cs. find c r = Some cs \<and> stale cs}. descendants c r)"
  using assms
proof (induction ids arbitrary: n U k)
  case Nil
  then show ?case by (intro exI [of _ "nd_chain n"] exI [of _ U]) (simp add: returnS_def)
next
  case (Cons r ids)
  note d = Cons.prems(1) [unfolded pruned_to_def]
  have look: "fmlookup (connected (nd_chain n)) i = (if i \<in> U then None else fmlookup (connected c) i)" for i
    using d by blast
  show ?case
  proof (cases "\<exists>cs. find (nd_chain n) r = Some cs \<and> stale cs")
    case False
    have "(\<Union>r\<in>{r' \<in> set (r # ids). \<exists>cs. find c r' = Some cs \<and> stale cs}. descendants c r) \<union> U =
      (\<Union>r\<in>{r' \<in> set ids. \<exists>cs. find c r' = Some cs \<and> stale cs}. descendants c r) \<union> U"
    proof (cases "r \<in> U")
      case True
      have "x \<in> U" if "(r, x) \<in> (child_of c)\<^sup>*" for x
        using that True by (induction rule: rtrancl_induct) (auto intro: Cons.prems(3))
      then have "descendants c r \<subseteq> U" by (auto simp: descendants_def)
      then show ?thesis by auto
    next
      case out: False
      with False show ?thesis by (auto simp: find_def look)
    qed
    moreover have "prune_loop stale (r # ids) k n = prune_loop stale ids k n"
      using False by (auto simp: getsS_def split: option.splits)
    ultimately show ?thesis using Cons.IH [where n = n and U = U and k = k, OF Cons.prems] by (auto simp: Un_commute)
  next
    case True
    then obtain cs where cs: "find (nd_chain n) r = Some cs" "stale cs" by blast
    have out: "r \<notin> U" and c: "find c r = Some cs" using cs(1) by (auto simp: find_def look split: if_splits)
    have D: "descendants (nd_chain n) r = descendants c r - U"
      using look Cons.prems(3) out by (rule descendants_without)
    obtain d' where d': "node_prune r n = (Ok (sorted_list_of_set (descendants c r - U)), n\<lparr>nd_chain := d'\<rparr>)"
      "chain_inv full d'" "finite (descendants c r - U)"
      "\<And>j. fmlookup (connected d') j = (if j \<in> descendants c r - U then None else fmlookup (connected (nd_chain n)) j)"
      "orphans d' = orphans (nd_chain n)" "parameter_id d' = parameter_id (nd_chain n)"
      "difficulty_policy d' = difficulty_policy (nd_chain n)"
      using node_prune_exact [of full n r cs, unfolded D] d cs(1) by metis
    let ?U = "U \<union> descendants c r"
    have "pruned_to full c ?U d'" using d d' by (auto simp: pruned_to_def)
    moreover have fin: "finite ?U" using d'(3) Cons.prems(2) by (metis Un_Diff_cancel finite_Un)
    moreover have "(p, i) \<in> child_of c \<Longrightarrow> p \<in> ?U \<Longrightarrow> i \<in> ?U" for p i
      using Cons.prems(3) descendants_closed by blast
    ultimately obtain e W where W: "prune_loop stale ids (k + card (descendants c r - U)) (n\<lparr>nd_chain := d'\<rparr>) =
        (Ok (k + card (descendants c r - U) + card (W - ?U)), n\<lparr>nd_chain := e\<rparr>)" "pruned_to full c W e" "finite W"
      "W = ?U \<union> (\<Union>r\<in>{r \<in> set ids. \<exists>cs. find c r = Some cs \<and> stale cs}. descendants c r)"
      using Cons.IH [of ?U "n\<lparr>nd_chain := d'\<rparr>" "k + card (descendants c r - U)"] by auto
    have "W - U = (descendants c r - U) \<union> (W - ?U)" using W(4) by auto
    then have "card (W - U) = card (descendants c r - U) + card (W - ?U)"
      using W(3) d'(3) by (subst card_Un_disjoint [symmetric]) auto
    moreover have "prune_loop stale (r # ids) k n =
        prune_loop stale ids (k + card (descendants c r - U)) (n\<lparr>nd_chain := d'\<rparr>)"
      using cs d'(1,3) by (simp add: getsS_def bindS_def)
    moreover have "W = U \<union> (\<Union>r\<in>{r' \<in> set (r # ids). \<exists>cs. find c r' = Some cs \<and> stale cs}. descendants c r)"
      using W(4) c cs(2) by auto
    ultimately show ?thesis using W(1-3) by (intro exI [of _ e] exI [of _ W]) simp
  qed
qed

lemma set_replay_order: "set (replay_order c) = {i. \<exists>cs. find c i = Some cs}"
  by (auto simp: replay_order_def connected_share_ids_def find_def fmlookup_dom_iff)

lemma prune_stale_exact:
  assumes "chain_inv full (nd_chain n)"
  obtains d where "prune_stale stale n = (Ok (card (subtrees_where (nd_chain n) stale)), n\<lparr>nd_chain := d\<rparr>)"
    "pruned_to full (nd_chain n) (subtrees_where (nd_chain n) stale) d" "finite (subtrees_where (nd_chain n) stale)"
proof -
  have "pruned_to full (nd_chain n) {} (nd_chain n)" using assms by (simp add: pruned_to_def)
  from prune_loop_exact [OF this, of stale "replay_order (nd_chain n)" 0]
  obtain d W where W: "prune_loop stale (replay_order (nd_chain n)) 0 n = (Ok (card W), n\<lparr>nd_chain := d\<rparr>)"
    "pruned_to full (nd_chain n) W d" "finite W"
    "W = (\<Union>r\<in>{r \<in> set (replay_order (nd_chain n)). \<exists>cs. find (nd_chain n) r = Some cs \<and> stale cs}. descendants (nd_chain n) r)"
    by auto
  from W(4) have "W = subtrees_where (nd_chain n) stale"
    by (auto simp: subtrees_where_def set_replay_order)
  with W show thesis by (intro that [of d]) (simp_all add: prune_stale_def getsS_def)
qed

lemma node_prune_reachable:
  assumes "chain_reachable full backend (nd_chain n)" "node_prune i n = (r, n')"
  shows "chain_reachable full backend (nd_chain n')"
proof -
  obtain d ids where d: "prune_connected_subtree_ids (nd_chain n) i = Some (d, Ok ids)"
    by (rule prune_result [OF chain.reach_inv [OF assms(1)], of i], rule that, assumption)
  then have "chain_step full backend (nd_chain n) d" by (rule chain_step.prune) (simp add: returned_def)
  with assms d show ?thesis by (auto simp: node_prune_def intro: reach_step)
qed

lemma prune_loop_reachable:
  "chain_reachable full backend (nd_chain n) \<Longrightarrow> prune_loop stale ids k n = (r, n') \<Longrightarrow>
    chain_reachable full backend (nd_chain n')"
proof (induction ids arbitrary: n k)
  case (Cons i ids)
  then show ?case
    by (auto simp: getsS_def bindS_def split: option.splits if_splits prod.splits sum.splits
        intro: node_prune_reachable)
qed (simp add: returnS_def)

text \<open>C10. After a change of the daemon's chain the node withdraws exactly what depended on the old block.
  When the block below a Zano height is now \<open>canonical\<close>, reconciliation returns; the shares it removes are
  those at this height whose recorded parent block is another one, together with all their descendants, and
  no others; the authorisations it revokes are exactly the ones at this height with another parent block; the
  counts it reports are the numbers of both; the orphans are untouched. No remaining share rests on a
  displaced block, and the expected payout is dropped when a share was removed.\<close>

theorem reconcile_canonical_parent_exact:
  assumes "chain_reachable full backend (nd_chain n)"
  shows "\<exists>n' gone. reconcile_canonical_parent height canonical n =
      (Ok \<lparr>pruned_connected_shares = card gone,
        revoked_trusted_work = registry_size (nd_trusted_work n) - registry_size (nd_trusted_work n')\<rparr>, n') \<and>
    gone = (\<Union>r\<in>{r. \<exists>cs. find (nd_chain n) r = Some cs \<and>
      recorded_parent_conflicts (nd_trusted_work n) height canonical cs}. descendants (nd_chain n) r) \<and>
    (\<forall>i. find (nd_chain n') i = (if i \<in> gone then None else find (nd_chain n) i)) \<and>
    orphans (nd_chain n') = orphans (nd_chain n) \<and> chain_reachable full backend (nd_chain n') \<and>
    (\<forall>h hdr p. fmlookup (nd_trusted_work n') (h, hdr, p) =
      (if h = height \<and> find_zano_parent_hash (nd_trusted_work n) h hdr p \<notin> {None, Some canonical} then None
       else fmlookup (nd_trusted_work n) (h, hdr, p))) \<and>
    (\<forall>i cs. find (nd_chain n') i = Some cs \<longrightarrow> \<not> recorded_parent_conflicts (nd_trusted_work n) height canonical cs) \<and>
    (if gone = {} then expected_payout_plan n' = expected_payout_plan n \<and> expected_payout n' = expected_payout n
     else expected_payout_plan n' = None \<and> expected_payout n' = None)"
proof -
  let ?stale = "recorded_parent_conflicts (nd_trusted_work n) height canonical"
  let ?U = "subtrees_where (nd_chain n) ?stale"
  obtain d where d: "prune_stale ?stale n = (Ok (card ?U), n\<lparr>nd_chain := d\<rparr>)"
    "pruned_to full (nd_chain n) ?U d" "finite ?U"
    by (rule prune_stale_exact [OF chain.reach_inv [OF assms]])
  have reach: "chain_reachable full backend d"
    using prune_loop_reachable [OF assms d(1) [unfolded prune_stale_def getsS_def]] by simp
  obtain reg revoked where reg: "erase_zano_parent_mismatch (nd_trusted_work n) height canonical = (reg, revoked)" by fastforce
  have e: "fmlookup reg (h, hdr, p) =
      (if h = height \<and> find_zano_parent_hash (nd_trusted_work n) h hdr p \<notin> {None, Some canonical} then None
       else fmlookup (nd_trusted_work n) (h, hdr, p))" "revoked + registry_size reg = registry_size (nd_trusted_work n)"
    for h hdr p
    using registry_erasures_exact [of "nd_trusted_work n" height h hdr p canonical] reg by simp_all
  let ?n = "if card ?U \<noteq> 0 then reset_expected_payout (n\<lparr>nd_chain := d, nd_trusted_work := reg\<rparr>)
    else n\<lparr>nd_chain := d, nd_trusted_work := reg\<rparr>"
  have run: "reconcile_canonical_parent height canonical n =
      (Ok \<lparr>pruned_connected_shares = card ?U, revoked_trusted_work = revoked\<rparr>, ?n)"
    by (simp add: reconcile_canonical_parent_def getsS_def bindS_def [of "prune_stale _"] d(1) reg op_run)
  have fields: "nd_chain ?n = d" "nd_trusted_work ?n = reg" by (simp_all add: reset_expected_payout_def)
  have count: "revoked = registry_size (nd_trusted_work n) - registry_size reg" using e(2) by simp
  have look: "find d i = (if i \<in> ?U then None else find (nd_chain n) i)" for i
    using d(2) by (simp add: pruned_to_def find_def)
  have none: "\<not> ?stale cs" if "find d i = Some cs" for i cs
    using that look [of i] by (auto simp: subtrees_where_def descendants_def split: if_splits)
  have payout: "if ?U = {} then expected_payout_plan ?n = expected_payout_plan n \<and> expected_payout ?n = expected_payout n
     else expected_payout_plan ?n = None \<and> expected_payout ?n = None"
    using d(3) by (simp add: reset_expected_payout_def)
  show ?thesis
    unfolding subtrees_where_def [symmetric]
    by (rule exI [of _ ?n], rule exI [of _ ?U], unfold fields, intro conjI allI impI)
      (use run count reach e(1) look none payout d(2) in \<open>simp_all add: pruned_to_def\<close>)
qed

text \<open>The sample share, whose work was authorised on a block that is no longer the daemon's.\<close>

definition sample_displaced_node :: p2p_node where
  "sample_displaced_node = make_p2p_node sample_chain
    (fmupd (3, 0, 0) \<lparr>entry_context = sample_context, entry_zano_parent_hash = Some (array_of_nat 1)\<rparr> fmempty)"

theorem reconcile_canonical_parent_exact_witness:
  "\<exists>r n'. reconcile_canonical_parent 3 (array_of_nat 2) sample_displaced_node = (Ok r, n') \<and>
    find (nd_chain n') sample_id = None \<and> fmlookup (nd_trusted_work n') (3, 0, 0) = None"
proof -
  have fields: "nd_chain sample_displaced_node = sample_chain" "nd_trusted_work sample_displaced_node =
    fmupd (3, 0, 0) \<lparr>entry_context = sample_context, entry_zano_parent_hash = Some (array_of_nat 1)\<rparr> fmempty"
    by (simp_all add: sample_displaced_node_def make_p2p_node_def)
  have "chain_reachable True (Some zero_hash_backend) (nd_chain sample_displaced_node)"
    using sample_reachable by (simp add: fields)
  from reconcile_canonical_parent_exact [OF this, of 3 "array_of_nat 2"] show ?thesis
  proof (elim exE conjE)
    fix n' gone r
    assume run: "reconcile_canonical_parent 3 (array_of_nat 2) sample_displaced_node = (Ok
        \<lparr>pruned_connected_shares = card gone, revoked_trusted_work =
          registry_size (nd_trusted_work sample_displaced_node) - registry_size (nd_trusted_work n')\<rparr>, n')"
      and chain: "\<forall>i. find (nd_chain n') i = (if i \<in> gone then None else find (nd_chain sample_displaced_node) i)"
      and rests: "\<forall>i cs. find (nd_chain n') i = Some cs \<longrightarrow>
        \<not> recorded_parent_conflicts (nd_trusted_work sample_displaced_node) 3 (array_of_nat 2) cs"
      and reg: "\<forall>h hdr p. fmlookup (nd_trusted_work n') (h, hdr, p) =
        (if h = 3 \<and> find_zano_parent_hash (nd_trusted_work sample_displaced_node) h hdr p \<notin> {None, Some (array_of_nat 2)}
         then None else fmlookup (nd_trusted_work sample_displaced_node) (h, hdr, p))"
    have ne: "(array_of_nat 1 :: hash256) \<noteq> array_of_nat 2"
      by (simp add: arr_val_eq_iff [symmetric] arr_val_array_of_nat)
    then have "recorded_parent_conflicts (nd_trusted_work sample_displaced_node) 3 (array_of_nat 2) sample_connected"
      by (simp add: recorded_parent_conflicts_def fields find_zano_parent_hash_def sample_connected_def sample_share_def)
    moreover have "find sample_chain sample_id = Some sample_connected" by (simp add: find_def sample_chain_def)
    ultimately have "find (nd_chain n') sample_id = None"
      using chain [rule_format, of sample_id] rests [rule_format, of sample_id sample_connected]
      by (cases "sample_id \<in> gone") (simp_all add: fields)
    moreover have "fmlookup (nd_trusted_work n') (3, 0, 0) = None"
      using reg [rule_format, of 3 0 0] ne by (simp add: fields find_zano_parent_hash_def)
    ultimately show ?thesis using run by blast
  qed
qed

end
