(* ===== verification/Node_Historical.thy ===== *)
theory Node_Historical
  imports Node_Local
begin

text \<open>
  \<open>src/src/p2p_node.cpp\<close>: the lambdas of \<open>handle\<close> that carry a waiting share through the historical trust
  crossing. They work on the node and on the local variables of \<open>handle\<close>; the latter disappear with an
  exception, the changes of the node stay.
\<close>

section \<open>One message being handled\<close>

datatype p2p_node_message_status =
    ShareProcessed
  | ShareRequestAnswered
  | ShareResponseProcessed
  | TipProcessed
  | MiningContextProcessed
  | MiningContextDeferred
  | UnexpectedHandshake
  | MiningWorkRequestAnswered
  | MiningWorkResponseProcessed

record p2p_node_message_result =
  mr_status :: p2p_node_message_status
  mr_share_status :: p2p_share_receive_status
  mr_sync_status :: p2p_share_sync_receive_status
  mr_tip_status :: p2p_tip_sync_status
  mr_mining_context_status :: p2p_mining_context_trust_status
  mr_mining_context_registry_inserted :: bool
  mr_untrusted_work_received :: "hash256 option"
  mr_historical_trust_status :: "historical_trust_status option"
  mr_historical_anchor_status :: "historical_anchor_status option"
  mr_historical_payout_status :: "historical_payout_status option"
  mr_historical_promotion_status :: "p2p_mining_context_trust_status option"
  mr_historical_proof_status :: "p2p_miner_tx_proof_status option"
  mr_historical_payout_policy_status :: "p2p_payout_policy_status option"
  mr_historical_attempt_share_id :: "share_id option"
  mr_historical_attempt_parent_id :: "share_id option"
  mr_historical_attempt_zano_height :: "u64 option"
  mr_historical_attempt_mining_header_hash :: "hash256 option"
  mr_historical_share :: "share option"
  mr_historical_admitted_shares :: "share list"
  mr_historical_share_retried :: bool
  mr_historical_share_connected :: bool
  mr_historical_pruned_share_ids :: "share_id list"
  mr_historical_pruned_connected_shares :: nat
  mr_sent_followup :: bool
  mr_relayed_share :: bool
  mr_relayed_tip :: bool

definition default_message_result :: p2p_node_message_result where
  "default_message_result =
    \<lparr>mr_status = UnexpectedHandshake, mr_share_status = Receive_rejected, mr_sync_status = Sync_not_found,
     mr_tip_status = No_remote_tip, mr_mining_context_status = ProofsRejected,
     mr_mining_context_registry_inserted = False, mr_untrusted_work_received = None,
     mr_historical_trust_status = None, mr_historical_anchor_status = None, mr_historical_payout_status = None,
     mr_historical_promotion_status = None, mr_historical_proof_status = None,
     mr_historical_payout_policy_status = None, mr_historical_attempt_share_id = None,
     mr_historical_attempt_parent_id = None, mr_historical_attempt_zano_height = None,
     mr_historical_attempt_mining_header_hash = None, mr_historical_share = None,
     mr_historical_admitted_shares = [], mr_historical_share_retried = False,
     mr_historical_share_connected = False, mr_historical_pruned_share_ids = [],
     mr_historical_pruned_connected_shares = 0, mr_sent_followup = False, mr_relayed_share = False,
     mr_relayed_tip = False\<rparr>"

record pass =
  ps_node :: p2p_node
  ps_result :: p2p_node_message_result
  ps_followup :: "p2p_envelope option"
  ps_followup_peer :: node_id
  ps_fresh_tip_followup :: "p2p_envelope option"
  ps_relay_share :: "p2p_envelope option"
  ps_relay_tip :: "p2p_envelope option"

definition on_node :: "(p2p_node, 'a) op \<Rightarrow> (pass, 'a) op" where
  "on_node m = zoom ps_node (\<lambda>n s. s\<lparr>ps_node := n\<rparr>) m"

definition upd_node :: "(p2p_node \<Rightarrow> p2p_node) \<Rightarrow> (pass, unit) op" where
  "upd_node f = modifyS (\<lambda>s. s\<lparr>ps_node := f (ps_node s)\<rparr>)"

definition upd_result :: "(p2p_node_message_result \<Rightarrow> p2p_node_message_result) \<Rightarrow> (pass, unit) op" where
  "upd_result f = modifyS (\<lambda>s. s\<lparr>ps_result := f (ps_result s)\<rparr>)"

text \<open>The three calls that the handler makes on its references.\<close>

definition node_promote ::
  "('p, 's) node_env \<Rightarrow> sidechain_parameters \<Rightarrow> share \<Rightarrow> historical_evidence \<Rightarrow> p2p_mining_anchor list \<Rightarrow>
    (p2p_node, historical_trust_result) op"
where
  "node_promote env params s evidence observations n =
    (case promote_historical_mining_context (ne_crypto env) (ne_tokener env) (ne_parent_lookup env)
        (Some (ne_pow_lookup env)) (nd_trusted_work n) (nd_chain n) params s (ev_source_peer evidence)
        (ev_proposal evidence) observations (nd_queries n) of
      (Inl e, k) \<Rightarrow> (Throw e, n\<lparr>nd_queries := k\<rparr>)
    | (Inr (reg, r), k) \<Rightarrow> (Ok r, n\<lparr>nd_queries := k, nd_trusted_work := reg\<rparr>))"

definition node_revalidate ::
  "('p, 's) node_env \<Rightarrow> share_id \<Rightarrow> share_work_context \<Rightarrow> u64 \<Rightarrow> progpowz_context_mode \<Rightarrow>
    (p2p_node, revalidate_share_result) op"
where
  "node_revalidate env i ctx now mode n =
    (case revalidate_connected_share (ne_backend env) (nd_chain n) i ctx now mode of
      (c, r) \<Rightarrow> (r, n\<lparr>nd_chain := c\<rparr>))"

definition node_receive_share ::
  "('p, 's) node_env \<Rightarrow> p2p_handshake \<Rightarrow> share \<Rightarrow> u64 \<Rightarrow> u64 \<Rightarrow> progpowz_context_mode \<Rightarrow>
    (p2p_node, p2p_share_receive_result) op"
where
  "node_receive_share env peer s required_capability now mode n =
    (case receive_share (ne_backend env) (nd_chain n) (nd_trusted_work n) peer s required_capability now mode of
      (c, r) \<Rightarrow> (r, n\<lparr>nd_chain := c\<rparr>))"

definition node_ask :: "(nat \<Rightarrow> 'q \<Rightarrow> 'a result) \<Rightarrow> 'q \<Rightarrow> (p2p_node, 'a) op" where
  "node_ask lookup q = zoom nd_queries (\<lambda>k n. n\<lparr>nd_queries := k\<rparr>) (ask lookup q)"

section \<open>The attempt\<close>

definition note_attempt :: "share_id \<Rightarrow> share \<Rightarrow> p2p_node_message_result \<Rightarrow> p2p_node_message_result" where
  "note_attempt i s r =
    r\<lparr>mr_historical_attempt_share_id := Some i, mr_historical_attempt_parent_id := Some (parent_id s),
      mr_historical_attempt_zano_height := Some (zano_height s),
      mr_historical_attempt_mining_header_hash := Some (mining_header_hash s),
      mr_historical_anchor_status := None, mr_historical_payout_status := None,
      mr_historical_promotion_status := None, mr_historical_proof_status := None,
      mr_historical_payout_policy_status := None\<rparr>"

definition note_trust :: "historical_trust_result \<Rightarrow> p2p_node_message_result \<Rightarrow> p2p_node_message_result" where
  "note_trust trust r =
    (let r = r\<lparr>mr_historical_trust_status := Some (ht_status trust)\<rparr>;
         r = (if ht_status trust = PromotionRejected
              then r\<lparr>mr_historical_promotion_status := Some (trust_status (ht_promotion trust)),
                mr_historical_proof_status := Some (trust_proof_status (ht_promotion trust)),
                mr_historical_payout_policy_status := Some (trust_payout_status (ht_promotion trust))\<rparr>
              else r);
         r = (if ht_status trust = AnchorRejected
              then r\<lparr>mr_historical_anchor_status := Some (anchor_status (ht_initial_anchor trust))\<rparr>
              else if ht_status trust = AnchorChangedBeforePromotion
              then r\<lparr>mr_historical_anchor_status := Some (anchor_status (ht_final_anchor trust))\<rparr>
              else r)
     in if ht_status trust = PayoutRejected
        then r\<lparr>mr_historical_payout_status := Some (historical_status (ht_payout trust))\<rparr> else r)"

definition parent_blocked :: "bool \<Rightarrow> share \<Rightarrow> historical_trust_result \<Rightarrow> bool" where
  "parent_blocked allow_parent_defer s trust \<longleftrightarrow>
    allow_parent_defer \<and> \<not> is_zero_share_id (parent_id s) \<and> ht_status trust = PayoutRejected \<and>
    (historical_status (ht_payout trust) = ParentMissing \<or> historical_status (ht_payout trust) = UnverifiedAncestry)"

definition pow_temporarily_unavailable :: "historical_trust_result \<Rightarrow> bool" where
  "pow_temporarily_unavailable trust \<longleftrightarrow>
    ht_status trust = AnchorRejected \<and> anchor_status (ht_initial_anchor trust) = CanonicalPowContextUnavailable \<or>
    ht_status trust = AnchorChangedBeforePromotion \<and>
      anchor_status (ht_final_anchor trust) = CanonicalPowContextUnavailable"

text \<open>The daemon's chain contradicts a replayed share: its subtree is pruned.\<close>

definition prune_displaced_replay :: "share_id \<Rightarrow> (pass, unit) op" where
  "prune_displaced_replay candidate_id = getsS (\<lambda>s.
    case find (nd_chain (ps_node s)) candidate_id of
      None \<Rightarrow> returnS ()
    | Some replayed \<Rightarrow>
        if validated_ancestry replayed then returnS ()
        else
          bindS (on_node (node_prune candidate_id)) (\<lambda>pruned_ids.
          bindS (upd_result (\<lambda>r. r\<lparr>
            mr_historical_pruned_share_ids := mr_historical_pruned_share_ids r @ pruned_ids,
            mr_historical_pruned_connected_shares := mr_historical_pruned_connected_shares r + length pruned_ids\<rparr>)) (\<lambda>_.
          if pruned_ids = [] then returnS ()
          else
            bindS (upd_node reset_expected_payout) (\<lambda>_. getsS (\<lambda>s.
            let current_tip = p2p_tip_hint_from_chain (nd_chain (ps_node s)) in
            if is_zero_share_id (hint_share_id current_tip) then returnS ()
            else bindS (liftS (make_p2p_tip_announce_envelope current_tip)) (\<lambda>e.
              modifyS (\<lambda>s. s\<lparr>ps_relay_tip := Some e\<rparr>)))))))"

definition erase_retryable :: "share_id \<Rightarrow> p2p_node \<Rightarrow> p2p_node" where
  "erase_retryable i n = n\<lparr>retryable_historical := fmdrop i (retryable_historical n)\<rparr>"

definition attempt_rejected ::
  "share_id \<Rightarrow> share \<Rightarrow> p2p_handshake \<Rightarrow> historical_evidence \<Rightarrow> u64 \<Rightarrow> bool \<Rightarrow> u64 \<Rightarrow> historical_trust_result \<Rightarrow>
    (pass, unit) op"
where
  "attempt_rejected candidate_id s candidate_peer evidence required_capability allow_parent_defer now trust =
    bindS (if ht_status trust = AnchorRejected \<and> anchor_status (ht_initial_anchor trust) = Anchor_parent_mismatch
           then prune_displaced_replay candidate_id else returnS ()) (\<lambda>_.
    bindS (if parent_blocked allow_parent_defer s trust then upd_node (erase_retryable candidate_id) else returnS ()) (\<lambda>_.
    bindS (if parent_blocked allow_parent_defer s trust
           then on_node (remember_deferred_historical s candidate_peer evidence required_capability now)
           else returnS False) (\<lambda>deferred.
    if deferred
    then bindS (upd_node (remember_historical_evidence (work_key_of s) evidence now)) (\<lambda>_.
         bindS (liftS (make_p2p_share_request_envelope (parent_id s))) (\<lambda>e.
           modifyS (\<lambda>st. st\<lparr>ps_followup := Some e, ps_followup_peer := hs_node_id candidate_peer\<rparr>)))
    else if pow_temporarily_unavailable trust
    then bindS (upd_node (remember_historical_evidence (work_key_of s) evidence now)) (\<lambda>_.
         on_node (remember_retryable_historical s candidate_peer required_capability now))
    else upd_node (\<lambda>n. (erase_retryable candidate_id n)\<lparr>historical_evidence_cache :=
      fmdrop (work_key_of s) (historical_evidence_cache n)\<rparr>))))"

definition replayed_share_status :: "revalidate_share_status \<Rightarrow> p2p_share_receive_status" where
  "replayed_share_status status =
    (case status of
      Validated \<Rightarrow> Receive_connected
    | AlreadyValidated \<Rightarrow> Receive_duplicate
    | _ \<Rightarrow> Receive_rejected)"

definition attempt_revalidate ::
  "('p, 's) node_env \<Rightarrow> u64 \<Rightarrow> progpowz_context_mode \<Rightarrow> share_id \<Rightarrow> share \<Rightarrow> (pass, share_id option) op"
where
  "attempt_revalidate env now mode candidate_id s = getsS (\<lambda>st.
    case registry_find (nd_trusted_work (ps_node st)) (zano_height s) (mining_header_hash s) (parent_id s) of
      None \<Rightarrow> liftS (Throw (Logic_error ''trusted historical replay work was not registered''))
    | Some trusted \<Rightarrow>
        bindS (on_node (node_revalidate env candidate_id trusted now mode)) (\<lambda>revalidated.
        bindS (upd_result (\<lambda>r. r\<lparr>mr_share_status := replayed_share_status (revalidate_status revalidated)\<rparr>)) (\<lambda>_.
        case revalidate_status revalidated of
          Validated \<Rightarrow>
            bindS (upd_result (\<lambda>r. r\<lparr>mr_historical_share_connected := True\<rparr>)) (\<lambda>_. returnS (Some candidate_id))
        | AlreadyValidated \<Rightarrow> returnS None
        | ParentUnvalidated \<Rightarrow> liftS (Throw (Logic_error ''historical replay parent lost validated ancestry''))
        | NotConnected \<Rightarrow> liftS (Throw (Logic_error ''historical replay disappeared during revalidation''))
        | Revalidate_Rejected \<Rightarrow> returnS None)))"

definition attempt_receive ::
  "('p, 's) node_env \<Rightarrow> u64 \<Rightarrow> progpowz_context_mode \<Rightarrow> share \<Rightarrow> p2p_handshake \<Rightarrow> u64 \<Rightarrow> (pass, share_id option) op"
where
  "attempt_receive env now mode s candidate_peer required_capability =
    bindS (on_node (node_receive_share env candidate_peer s required_capability now mode)) (\<lambda>retried.
    bindS (upd_result (\<lambda>r. r\<lparr>mr_share_status := receive_status retried\<rparr>)) (\<lambda>_.
    bindS (if best_tip_changed (chain_result retried) then upd_node reset_expected_payout else returnS ()) (\<lambda>_.
    bindS (case missing_parent_id retried of
        None \<Rightarrow> returnS ()
      | Some missing \<Rightarrow> bindS (liftS (make_p2p_share_request_envelope missing)) (\<lambda>e.
          modifyS (\<lambda>st. st\<lparr>ps_followup := Some e, ps_followup_peer := hs_node_id candidate_peer\<rparr>))) (\<lambda>_.
    bindS (if receive_status retried = Receive_connected \<or> receive_status retried = Receive_orphan
      then upd_result (\<lambda>r. r\<lparr>mr_historical_admitted_shares := mr_historical_admitted_shares r @ [s]\<rparr>)
      else returnS ()) (\<lambda>_.
    if receive_status retried \<noteq> Receive_connected then returnS None
    else
      bindS (upd_result (\<lambda>r. r\<lparr>mr_historical_share_connected := True\<rparr>)) (\<lambda>_.
      bindS (liftS (make_p2p_share_announce_envelope s)) (\<lambda>announce.
      bindS (modifyS (\<lambda>st. st\<lparr>ps_relay_share := Some announce\<rparr>)) (\<lambda>_. getsS (\<lambda>st.
      bindS (liftS (make_p2p_tip_announce_envelope (p2p_tip_hint_from_chain (nd_chain (ps_node st))))) (\<lambda>tip.
      bindS (modifyS (\<lambda>st. st\<lparr>ps_relay_tip := Some tip\<rparr>)) (\<lambda>_.
      bindS (liftS (share_id s)) (\<lambda>i. returnS (Some i)))))))))))))"

definition attempt_historical ::
  "('p, 's) node_env \<Rightarrow> u64 \<Rightarrow> progpowz_context_mode \<Rightarrow> share \<Rightarrow> p2p_handshake \<Rightarrow> historical_evidence \<Rightarrow> u64 \<Rightarrow> bool \<Rightarrow>
    (pass, share_id option) op"
where
  "attempt_historical env now mode s candidate_peer evidence required_capability allow_parent_defer = getsS (\<lambda>st.
    case historical_params (ps_node st) of
      None \<Rightarrow> returnS None
    | Some params \<Rightarrow>
        bindS (liftS (share_id s)) (\<lambda>candidate_id.
        bindS (upd_result (note_attempt candidate_id s)) (\<lambda>_.
        bindS (on_node (node_ask (ne_load_observations env) (ev_proposal evidence))) (\<lambda>observations.
        bindS (on_node (node_promote env params s evidence observations)) (\<lambda>trust.
        bindS (upd_result (note_trust trust)) (\<lambda>_.
        if ht_status trust \<noteq> Historical_trusted
        then bindS (attempt_rejected candidate_id s candidate_peer evidence required_capability allow_parent_defer now trust)
          (\<lambda>_. returnS None)
        else
          bindS (upd_node (erase_retryable candidate_id)) (\<lambda>_.
          bindS (upd_node (remember_historical_evidence (work_key_of s) evidence now)) (\<lambda>_.
          bindS (upd_result (\<lambda>r. r\<lparr>mr_historical_share := Some s, mr_historical_share_retried := True\<rparr>)) (\<lambda>_.
          getsS (\<lambda>st.
            case find (nd_chain (ps_node st)) candidate_id of
              Some replayed \<Rightarrow>
                if \<not> validated_ancestry replayed then attempt_revalidate env now mode candidate_id s
                else attempt_receive env now mode s candidate_peer required_capability
            | None \<Rightarrow> attempt_receive env now mode s candidate_peer required_capability))))))))))"

end
