(* ===== verification/Node_Order.thy ===== *)
theory Node_Order
  imports Node_Historical
begin

text \<open>
  Relations between the states of a node that hold across the historical attempt when they hold across the
  primitive changes it makes. Everything that is later shown of the message handler is an instance: its
  invariants, what it may add to the registry, and the measure of its loop.
\<close>

section \<open>From the node to a message being handled\<close>

locale node_order = state_order R for R :: "p2p_node \<Rightarrow> p2p_node \<Rightarrow> bool"
begin

sublocale pass: state_order "\<lambda>s t. R (ps_node s) (ps_node t)"
  by unfold_locales (auto intro: R_refl R_trans)

lemma within_on_node: "within m \<Longrightarrow> pass.within (on_node m)"
  by (auto simp: pass.within_def on_node_def zoom_def split: prod.split dest: withinD)

lemma within_upd_node: "(\<And>n. R n (f n)) \<Longrightarrow> pass.within (upd_node f)"
  by (simp add: pass.within_def upd_node_def modifyS_def)

lemma within_upd_result: "pass.within (upd_result f)"
  by (simp add: pass.within_def upd_result_def modifyS_def R_refl)

lemma within_locals:
  "pass.within (modifyS (\<lambda>s. s\<lparr>ps_followup := e, ps_followup_peer := i\<rparr>))"
  "pass.within (modifyS (\<lambda>s. s\<lparr>ps_followup := e\<rparr>))"
  "pass.within (modifyS (\<lambda>s. s\<lparr>ps_fresh_tip_followup := e\<rparr>))"
  "pass.within (modifyS (\<lambda>s. s\<lparr>ps_relay_share := e\<rparr>))"
  "pass.within (modifyS (\<lambda>s. s\<lparr>ps_relay_tip := e\<rparr>))"
  by (simp_all add: pass.within_def modifyS_def R_refl)

lemmas pass_rules = pass.within_rules within_on_node within_upd_node within_upd_result within_locals

end

section \<open>The attempt\<close>

locale node_attempts = node_order R for R :: "p2p_node \<Rightarrow> p2p_node \<Rightarrow> bool" +
  fixes env :: "('p, 's) node_env"
  assumes R_expire: "R n (expire_historical_state now n)"
    and R_remember_evidence: "R n (remember_historical_evidence key evidence now n)"
    and R_forget_evidence: "R n (n\<lparr>historical_evidence_cache := fmdrop key (historical_evidence_cache n)\<rparr>)"
    and R_erase_retryable: "R n (erase_retryable i n)"
    and R_retryable: "within (remember_retryable_historical s peer cap now)"
    and R_reset: "R n (reset_expected_payout n)"
    and R_prune: "within (node_prune i)"
    and R_queries: "R n (n\<lparr>nd_queries := k\<rparr>)"
    and R_promote: "ne_load_observations env k (ev_proposal evidence) = Ok obs \<Longrightarrow>
      within (node_promote env params s evidence obs)"
    and R_revalidate: "within (node_revalidate env i ctx now mode)"
    and R_receive_share: "within (node_receive_share env peer s cap now mode)"
begin

lemma R_ask: "within (node_ask lookup q)"
  by (simp add: within_def node_ask_def zoom_def ask_def R_queries)

lemma R_forget:
  "R n ((erase_retryable i n)\<lparr>historical_evidence_cache := fmdrop key (historical_evidence_cache n)\<rparr>)"
  using R_trans [OF R_erase_retryable [of n i] R_forget_evidence] by (simp add: erase_retryable_def)

text \<open>The promotion gets the observations that the node's own callback returned.\<close>

lemma observe_within:
  assumes "\<And>k obs. ne_load_observations env k p = Ok obs \<Longrightarrow> pass.within (f obs)"
  shows "pass.within (bindS (on_node (node_ask (ne_load_observations env) p)) f)"
  unfolding pass.within_def
proof
  fix s :: pass
  let ?s = "s\<lparr>ps_node := (ps_node s)\<lparr>nd_queries := Suc (nd_queries (ps_node s))\<rparr>\<rparr>"
  have step: "R (ps_node s) (ps_node ?s)" by (simp add: R_queries)
  show "R (ps_node s) (ps_node (snd (bindS (on_node (node_ask (ne_load_observations env) p)) f s)))"
  proof (cases "ne_load_observations env (nd_queries (ps_node s)) p")
    case (Inl e)
    with step show ?thesis by (simp add: bindS_def on_node_def node_ask_def zoom_def ask_def)
  next
    case (Inr obs)
    have "R (ps_node ?s) (ps_node (snd (f obs ?s)))"
      using assms [OF Inr] unfolding pass.within_def by blast
    with Inr R_trans [OF step] show ?thesis by (simp add: bindS_def on_node_def node_ask_def zoom_def ask_def)
  qed
qed

lemmas attempt_rules = pass_rules R_retryable R_prune R_ask R_promote R_revalidate R_receive_share
  R_erase_retryable R_reset R_remember_evidence R_forget

lemma prune_displaced_within: "pass.within (prune_displaced_replay i)"
  unfolding prune_displaced_replay_def by (rule attempt_rules)+

lemma attempt_rejected_within:
  assumes "allow_parent_defer \<Longrightarrow> within (remember_deferred_historical s peer evidence cap now)"
  shows "pass.within (attempt_rejected i s peer evidence cap allow_parent_defer now trust)"
  unfolding attempt_rejected_def
  by (rule attempt_rules prune_displaced_within assms | simp add: parent_blocked_def)+

lemma attempt_revalidate_within: "pass.within (attempt_revalidate env now mode i s)"
  unfolding attempt_revalidate_def
  by (rule attempt_rules | (split revalidate_share_status.split, intro conjI impI))+

lemma attempt_receive_within: "pass.within (attempt_receive env now mode s peer cap)"
  unfolding attempt_receive_def by (rule attempt_rules)+

lemma attempt_historical_within:
  assumes "allow_parent_defer \<Longrightarrow> within (remember_deferred_historical s peer evidence cap now)"
  shows "pass.within (attempt_historical env now mode s peer evidence cap allow_parent_defer)"
  unfolding attempt_historical_def
  by (rule observe_within attempt_rules attempt_rejected_within attempt_revalidate_within attempt_receive_within assms | assumption)+

end

end
