(* ===== verification/Node_Resume.thy ===== *)
theory Node_Resume
  imports Node_Order Work_Machine
begin

text \<open>
  \<open>src/src/p2p_node.cpp\<close>: the loop that resumes the descendants of a share that became connected, and the
  attempt with work of the node's own archive. The loop's queue grows while it is read; it ends because
  every candidate leaves the set of deferred ones and the attempts put none back.
\<close>

section \<open>Erasing from maps\<close>

lemma erase_fold_lookup:
  "distinct (map fst items) \<Longrightarrow>
    fmlookup (fold (\<lambda>item m. if P (fst item) (snd item) then fmdrop (fst item) m else m) items m) k =
    (if \<exists>v. (k, v) \<in> set items \<and> P k v then None else fmlookup m k)"
proof (induction items arbitrary: m)
  case (Cons item items)
  then show ?case by (cases item) (force simp: image_iff)
qed simp

lemma erase_where_lookup:
  "fmlookup (erase_where P m) k = (case fmlookup m k of None \<Rightarrow> None | Some v \<Rightarrow> if P k v then None else Some v)"
  by (auto simp: erase_where_def erase_fold_lookup split: option.split)

lemma fcard_mono: "(\<And>k. fmlookup m' k \<noteq> None \<Longrightarrow> fmlookup m k \<noteq> None) \<Longrightarrow> fcard (fmdom m') \<le> fcard (fmdom m)"
  unfolding fcard.rep_eq by (rule card_mono) (auto simp: fmlookup_dom_iff)

lemma fcard_submap:
  "(\<And>k v. fmlookup m' k = Some v \<Longrightarrow> fmlookup m k = Some v) \<Longrightarrow> fcard (fmdom m') \<le> fcard (fmdom m)"
  by (rule fcard_mono) (metis not_None_eq option.distinct(1))

lemma fcard_erase_where: "fcard (fmdom (erase_where P m)) \<le> fcard (fmdom m)"
  by (rule fcard_mono) (auto simp: erase_where_lookup split: option.splits)

section \<open>The number of deferred candidates\<close>

abbreviation deferred_count :: "p2p_node \<Rightarrow> nat" where
  "deferred_count n \<equiv> fcard (fmdom (deferred_historical n))"

lemma keeps_deferred:
  "deferred_historical (reset_expected_payout n) = deferred_historical n"
  "deferred_historical (erase_retryable i n) = deferred_historical n"
  "deferred_historical (snd (node_prune i n)) = deferred_historical n"
  "deferred_historical (snd (node_promote env params s evidence obs n)) = deferred_historical n"
  "deferred_historical (snd (node_revalidate env i ctx now mode n)) = deferred_historical n"
  "deferred_historical (snd (node_receive_share env peer s cap now mode n)) = deferred_historical n"
  by (auto simp: reset_expected_payout_def erase_retryable_def node_prune_def node_promote_def node_revalidate_def
      node_receive_share_def split: option.split prod.split sum.split)

text \<open>An attempt that may not defer leaves no new candidate.\<close>

definition deferred_shrinks :: "p2p_node \<Rightarrow> p2p_node \<Rightarrow> bool" where
  "deferred_shrinks n n' \<longleftrightarrow>
    (\<forall>i d. fmlookup (deferred_historical n') i = Some d \<longrightarrow> fmlookup (deferred_historical n) i = Some d)"

lemma deferred_shrinks_count: "deferred_shrinks n n' \<Longrightarrow> deferred_count n' \<le> deferred_count n"
  unfolding deferred_shrinks_def by (rule fcard_submap) blast

lemma deferred_shrinks_None:
  "deferred_shrinks n n' \<Longrightarrow> fmlookup (deferred_historical n) i = None \<Longrightarrow> fmlookup (deferred_historical n') i = None"
  by (cases "fmlookup (deferred_historical n') i") (auto simp: deferred_shrinks_def)

lemma deferred_expire: "deferred_shrinks n (expire_historical_state now n)"
  by (auto simp: deferred_shrinks_def expire_historical_state_def Let_def erase_where_lookup split: option.splits if_splits)

lemma deferred_retryable: "deferred_shrinks n (snd (remember_retryable_historical s peer cap now n))"
  using deferred_expire [of n now]
  by (auto simp: deferred_shrinks_def remember_retryable_historical_def bindS_def modifyS_def liftS_def Let_def
      split: prod.split sum.split)

lemma deferred_evidence: "deferred_shrinks n (remember_historical_evidence key evidence now n)"
  using deferred_expire [of n now]
  by (simp add: deferred_shrinks_def remember_historical_evidence_def Let_def split: option.split)

lemma deferred_order: "state_order deferred_shrinks"
  by unfold_locales (simp_all add: deferred_shrinks_def)

interpretation shrinking: node_attempts deferred_shrinks env for env :: "('p, 's) node_env"
  using deferred_order
  by unfold_locales
    (simp_all add: state_order.within_def [OF deferred_order] state_order_def deferred_expire deferred_retryable deferred_evidence,
      simp_all add: deferred_shrinks_def keeps_deferred)

section \<open>Resuming descendants\<close>

definition ready_children :: "share_id \<Rightarrow> p2p_node \<Rightarrow> share_id list" where
  "ready_children parent n =
    map fst (filter (\<lambda>item. parent_id (dc_share (snd item)) = parent) (sorted_list_of_fmap (deferred_historical n)))"

definition take_deferred :: "share_id \<Rightarrow> p2p_node \<Rightarrow> p2p_node" where
  "take_deferred i n = n\<lparr>deferred_historical := fmdrop i (deferred_historical n)\<rparr>"

fun resume_ready ::
  "('p, 's) node_env \<Rightarrow> u64 \<Rightarrow> progpowz_context_mode \<Rightarrow> share_id list \<Rightarrow> share_id list \<Rightarrow> (pass, share_id list) op"
where
  "resume_ready env now mode [] queue = returnS queue"
| "resume_ready env now mode (i # ids) queue = getsS (\<lambda>s.
    case fmlookup (deferred_historical (ps_node s)) i of
      None \<Rightarrow> resume_ready env now mode ids queue
    | Some deferred \<Rightarrow>
        bindS (upd_node (take_deferred i)) (\<lambda>_.
        bindS (attempt_historical env now mode (dc_share deferred) (dc_candidate_peer deferred) (dc_evidence deferred)
          (dc_required_capability deferred) False) (\<lambda>connected.
          resume_ready env now mode ids (case connected of None \<Rightarrow> queue | Some c \<Rightarrow> queue @ [c]))))"

text \<open>Every identifier that enters the queue pays for it with a deferred candidate.\<close>

lemma resume_ready_measure:
  "resume_ready env now mode ids queue s = (Ok queue', s') \<Longrightarrow>
    length queue' + deferred_count (ps_node s') \<le> length queue + deferred_count (ps_node s)"
proof (induction ids arbitrary: queue s)
  case (Cons i ids)
  show ?case
  proof (cases "fmlookup (deferred_historical (ps_node s)) i")
    case None
    with Cons show ?thesis by (simp add: getsS_def)
  next
    case (Some d)
    let ?s = "s\<lparr>ps_node := take_deferred i (ps_node s)\<rparr>"
    from Cons.prems Some obtain connected t where t:
      "attempt_historical env now mode (dc_share d) (dc_candidate_peer d) (dc_evidence d) (dc_required_capability d) False ?s =
        (Ok connected, t)"
      "resume_ready env now mode ids (case connected of None \<Rightarrow> queue | Some c \<Rightarrow> queue @ [c]) t = (Ok queue', s')"
      by (auto simp: getsS_def bindS_eq_Ok upd_node_def)
    have "deferred_count (ps_node t) \<le> deferred_count (ps_node ?s)"
      using deferred_shrinks_count [OF shrinking.pass.withinD [OF shrinking.attempt_historical_within t(1)]] by simp
    moreover have "Suc (deferred_count (ps_node ?s)) = deferred_count (ps_node s)"
      using fcard_Suc_fminus1 [OF fmdomI [OF Some]] by (simp add: take_deferred_def)
    ultimately show ?thesis using Cons.IH [OF t(2)] by (cases connected) auto
  qed
qed simp

function resume_queue ::
  "('p, 's) node_env \<Rightarrow> u64 \<Rightarrow> progpowz_context_mode \<Rightarrow> share_id list \<Rightarrow> (pass, unit) op"
where
  "resume_queue env now mode [] s = (Ok (), s)"
| "resume_queue env now mode (parent # queue) s =
    (case resume_ready env now mode (ready_children parent (ps_node s)) queue s of
      (Inl e, t) \<Rightarrow> (Throw e, t)
    | (Inr queue', t) \<Rightarrow> resume_queue env now mode queue' t)"
  by pat_completeness auto

termination
  by (relation "measure (\<lambda>(env, now, mode, queue, s). length queue + deferred_count (ps_node s))")
    (auto dest: resume_ready_measure [OF sym])

definition resume_deferred_descendants ::
  "('p, 's) node_env \<Rightarrow> u64 \<Rightarrow> progpowz_context_mode \<Rightarrow> share_id \<Rightarrow> (pass, unit) op"
where
  "resume_deferred_descendants env now mode connected_parent_id = resume_queue env now mode [connected_parent_id]"

lemma resume_ready_shrinks:
  "resume_ready env now mode ids queue s = (Ok queue', s') \<Longrightarrow>
    deferred_shrinks (ps_node s) (ps_node s') \<and> (\<forall>i\<in>set ids. fmlookup (deferred_historical (ps_node s')) i = None)"
proof (induction ids arbitrary: queue s)
  case Nil
  then show ?case by (simp add: returnS_def deferred_shrinks_def)
next
  case (Cons i ids)
  show ?case
  proof (cases "fmlookup (deferred_historical (ps_node s)) i")
    case None
    with Cons.prems Cons.IH [of queue s] deferred_shrinks_None [of "ps_node s" "ps_node s'" i] show ?thesis
      by (simp add: getsS_def)
  next
    case (Some d)
    let ?s = "s\<lparr>ps_node := take_deferred i (ps_node s)\<rparr>"
    from Cons.prems Some obtain connected t where t:
      "attempt_historical env now mode (dc_share d) (dc_candidate_peer d) (dc_evidence d) (dc_required_capability d) False ?s =
        (Ok connected, t)"
      "resume_ready env now mode ids (case connected of None \<Rightarrow> queue | Some c \<Rightarrow> queue @ [c]) t = (Ok queue', s')"
      by (auto simp: getsS_def bindS_eq_Ok upd_node_def)
    have step: "deferred_shrinks (ps_node ?s) (ps_node t)"
      using shrinking.pass.withinD [OF shrinking.attempt_historical_within t(1)] by simp
    have "deferred_shrinks (ps_node s) (ps_node ?s)" "fmlookup (deferred_historical (ps_node ?s)) i = None"
      by (auto simp: deferred_shrinks_def take_deferred_def split: if_splits)
    with step Cons.IH [OF t(2)] show ?thesis unfolding deferred_shrinks_def by (metis not_None_eq set_ConsD)
  qed
qed

lemma resume_queue_shrinks:
  "resume_queue env now mode queue s = (Ok (), s') \<Longrightarrow> deferred_shrinks (ps_node s) (ps_node s')"
proof (induction env now mode queue s rule: resume_queue.induct)
  case (2 env now mode parent queue s)
  then obtain queue' t where t: "resume_ready env now mode (ready_children parent (ps_node s)) queue s = (Ok queue', t)"
    "resume_queue env now mode queue' t = (Ok (), s')" by (auto split: prod.splits sum.splits)
  have "deferred_shrinks (ps_node t) (ps_node s')" using "2.IH" [OF t(1) [symmetric] refl t(2)] .
  with resume_ready_shrinks [OF t(1)] show ?case unfolding deferred_shrinks_def by blast
qed (simp add: deferred_shrinks_def)

lemma fst_filtered: "i \<in> fst ` {item \<in> S. P (snd item)} \<longleftrightarrow> (\<exists>v. (i, v) \<in> S \<and> P v)"
  by force

lemma ready_children_member:
  "i \<in> set (ready_children parent n) \<longleftrightarrow> (\<exists>d. fmlookup (deferred_historical n) i = Some d \<and> parent_id (dc_share d) = parent)"
  using fst_filtered [of i "set (sorted_list_of_fmap (deferred_historical n))" "\<lambda>d. parent_id (dc_share d) = parent"]
  by (simp add: ready_children_def sorted_list_member)


text \<open>A share that waits for another parent than the one that was connected.\<close>

definition sample_waiting :: deferred_historical_candidate where
  "sample_waiting = \<lparr>dc_share = sample_child, dc_candidate_peer = sample_context_peer,
    dc_evidence = \<lparr>ev_proposal = sample_proposal, ev_source_peer = sample_context_peer, ev_received = 0\<rparr>,
    dc_required_capability = 1, dc_recovery_root = sample_id, dc_last_progress = 0\<rparr>"

definition sample_pass :: pass where
  "sample_pass = \<lparr>ps_node = (make_p2p_node sample_chain fmempty)\<lparr>deferred_historical := fmupd sample_id sample_waiting fmempty\<rparr>,
    ps_result = default_message_result, ps_followup = None, ps_followup_peer = 0, ps_fresh_tip_followup = None,
    ps_relay_share = None, ps_relay_tip = None\<rparr>"


section \<open>Work of the node's own archive\<close>

definition node_read_local :: "('p, 's) node_env \<Rightarrow> mining_work_key \<Rightarrow> work_retrieval \<Rightarrow> u8 list option result" where
  "node_read_local env key w = read_local (ne_archive env) (ne_directory env) w key"

definition resume_after ::
  "('p, 's) node_env \<Rightarrow> u64 \<Rightarrow> progpowz_context_mode \<Rightarrow> (pass, share_id option) op \<Rightarrow> (pass, unit) op"
where
  "resume_after env now mode attempt =
    bindS attempt (\<lambda>connected.
      case connected of None \<Rightarrow> returnS () | Some i \<Rightarrow> resume_deferred_descendants env now mode i)"

text \<open>What the message result says of the last attempt: trusted, blocked on ancestry, waiting for the
  daemon, or pruned.\<close>

definition local_result_kept :: "nat \<Rightarrow> p2p_node_message_result \<Rightarrow> bool" where
  "local_result_kept pruned_before r \<longleftrightarrow>
    mr_historical_trust_status r = Some Historical_trusted \<or>
    mr_historical_trust_status r = Some PayoutRejected \<and>
      (mr_historical_payout_status r = Some ParentMissing \<or> mr_historical_payout_status r = Some UnverifiedAncestry) \<or>
    (mr_historical_trust_status r = Some AnchorRejected \<or>
      mr_historical_trust_status r = Some AnchorChangedBeforePromotion) \<and>
      mr_historical_anchor_status r = Some CanonicalPowContextUnavailable \<or>
    mr_historical_pruned_connected_shares r > pruned_before"

definition attempt_local_historical ::
  "('p, 's) node_env \<Rightarrow> u64 \<Rightarrow> progpowz_context_mode \<Rightarrow> share \<Rightarrow> p2p_handshake \<Rightarrow> u64 \<Rightarrow> (pass, bool) op"
where
  "attempt_local_historical env now mode s candidate_peer required_capability = getsS (\<lambda>st.
    case nd_work_retrieval (ps_node st) of
      None \<Rightarrow> returnS False
    | Some w \<Rightarrow>
        if \<not> historical_trust_sources_ready (ps_node st) then returnS False
        else
          bindS (liftS (node_read_local env (work_key_of s) w)) (\<lambda>local_bytes.
          case local_bytes of
            None \<Rightarrow> returnS False
          | Some bytes \<Rightarrow>
              bindS (liftS (deserialize_p2p_mining_context_payload (ne_tokener env) bytes)) (\<lambda>p.
              let evidence = \<lparr>ev_proposal = p, ev_source_peer = candidate_peer, ev_received = now\<rparr>;
                  pruned_before = mr_historical_pruned_connected_shares (ps_result st) in
              bindS (resume_after env now mode
                (attempt_historical env now mode s candidate_peer evidence required_capability True)) (\<lambda>_.
              getsS (\<lambda>st. returnS (local_result_kept pruned_before (ps_result st)))))))"

end
