(* ===== verification/Node_Messages.thy ===== *)
theory Node_Messages
  imports Node_Resume
begin

text \<open>
  \<open>src/src/p2p_node.cpp\<close>: the branches of \<open>handle\<close>, one per kind of message.
\<close>

section \<open>Calls on the references of the node\<close>

definition node_receive ::
  "('p, 's) node_env \<Rightarrow> p2p_handshake \<Rightarrow> p2p_envelope \<Rightarrow> u64 \<Rightarrow> progpowz_context_mode \<Rightarrow>
    (p2p_node, p2p_share_receive_result) op"
where
  "node_receive env peer envelope now mode n =
    (case receive (ne_backend env) (nd_chain n) (nd_trusted_work n) peer envelope now mode of
      (c, r) \<Rightarrow> (r, n\<lparr>nd_chain := c\<rparr>))"

definition node_receive_response ::
  "('p, 's) node_env \<Rightarrow> p2p_handshake \<Rightarrow> p2p_envelope \<Rightarrow> u64 \<Rightarrow> progpowz_context_mode \<Rightarrow>
    (p2p_node, p2p_share_sync_receive_result) op"
where
  "node_receive_response env peer envelope now mode n =
    (case receive_p2p_share_response (ne_backend env) (nd_chain n) (nd_trusted_work n) peer envelope now mode of
      (c, r) \<Rightarrow> (r, n\<lparr>nd_chain := c\<rparr>))"

definition node_begin_work :: "p2p_handshake \<Rightarrow> mining_work_key \<Rightarrow> u64 \<Rightarrow> (p2p_node, p2p_envelope option) op" where
  "node_begin_work peer key now n =
    (case nd_work_retrieval n of
      None \<Rightarrow> (Ok None, n)
    | Some w \<Rightarrow> (case begin_work w peer key now of (w', r) \<Rightarrow> (r, n\<lparr>nd_work_retrieval := Some w'\<rparr>)))"

definition node_receive_work ::
  "('p, 's) node_env \<Rightarrow> p2p_handshake \<Rightarrow> p2p_envelope \<Rightarrow> u64 \<Rightarrow> work_retrieval \<Rightarrow>
    (p2p_node, mining_work_receive_result) op"
where
  "node_receive_work env peer envelope now w n =
    (case receive_work (ne_tokener env) w peer envelope now of (w', r) \<Rightarrow> (r, n\<lparr>nd_work_retrieval := Some w'\<rparr>))"

definition node_take_untrusted :: "mining_work_key \<Rightarrow> (p2p_node, u8 list option) op" where
  "node_take_untrusted key n =
    (case nd_work_retrieval n of
      None \<Rightarrow> (Ok None, n)
    | Some w \<Rightarrow> (case take_untrusted w key of (w', r) \<Rightarrow> (Ok r, n\<lparr>nd_work_retrieval := Some w'\<rparr>)))"

definition erase_pending :: "node_id \<Rightarrow> mining_work_key \<Rightarrow> p2p_node \<Rightarrow> p2p_node" where
  "erase_pending peer_id key n = n\<lparr>pending_historical := fmdrop (peer_id, key) (pending_historical n)\<rparr>"

section \<open>Shares\<close>

definition set_followup :: "p2p_envelope \<Rightarrow> (pass, unit) op" where
  "set_followup e = modifyS (\<lambda>s. s\<lparr>ps_followup := Some e\<rparr>)"

text \<open>The request for the work of a share; the share waits for the answer when old work can be trusted.\<close>

definition request_work :: "p2p_handshake \<Rightarrow> share \<Rightarrow> u64 \<Rightarrow> u64 \<Rightarrow> (pass, unit) op" where
  "request_work peer s required_capability now =
    bindS (on_node (node_begin_work peer (work_key_of s) now)) (\<lambda>work_request.
    case work_request of
      None \<Rightarrow> returnS ()
    | Some e \<Rightarrow>
        bindS (set_followup e) (\<lambda>_. getsS (\<lambda>st.
          if historical_trust_sources_ready (ps_node st)
          then upd_node (remember_pending_historical peer s required_capability now)
          else returnS ())))"

text \<open>What both kinds of messages do with a share on unknown work: use retained evidence, or else \<open>other\<close>.\<close>

definition unknown_work ::
  "('p, 's) node_env \<Rightarrow> p2p_handshake \<Rightarrow> u64 \<Rightarrow> progpowz_context_mode \<Rightarrow> share \<Rightarrow> u64 \<Rightarrow> (pass, unit) op \<Rightarrow> (pass, unit) op"
where
  "unknown_work env peer now mode s required_capability otherwise =
    bindS (upd_node (expire_historical_state now)) (\<lambda>_. getsS (\<lambda>st.
      case fmlookup (historical_evidence_cache (ps_node st)) (work_key_of s) of
        None \<Rightarrow> otherwise
      | Some evidence \<Rightarrow>
          if historical_trust_sources_ready (ps_node st)
          then resume_after env now mode (attempt_historical env now mode s peer evidence required_capability True)
          else otherwise))"

definition after_receive :: "p2p_share_receive_result \<Rightarrow> (pass, unit) op" where
  "after_receive r =
    bindS (if best_tip_changed (chain_result r) then upd_node reset_expected_payout else returnS ()) (\<lambda>_.
    case missing_parent_id r of
      None \<Rightarrow> returnS ()
    | Some missing \<Rightarrow> bindS (liftS (make_p2p_share_request_envelope missing)) set_followup)"

definition relay_connected ::
  "('p, 's) node_env \<Rightarrow> u64 \<Rightarrow> progpowz_context_mode \<Rightarrow> p2p_envelope \<Rightarrow> share_id \<Rightarrow> (pass, unit) op"
where
  "relay_connected env now mode announce i =
    bindS (modifyS (\<lambda>s. s\<lparr>ps_relay_share := Some announce\<rparr>)) (\<lambda>_. getsS (\<lambda>st.
    bindS (liftS (make_p2p_tip_announce_envelope (p2p_tip_hint_from_chain (nd_chain (ps_node st))))) (\<lambda>tip.
    bindS (modifyS (\<lambda>s. s\<lparr>ps_relay_tip := Some tip\<rparr>)) (\<lambda>_.
      resume_deferred_descendants env now mode i))))"

definition handle_share_announce ::
  "('p, 's) node_env \<Rightarrow> p2p_handshake \<Rightarrow> p2p_envelope \<Rightarrow> u64 \<Rightarrow> progpowz_context_mode \<Rightarrow> (pass, unit) op"
where
  "handle_share_announce env peer envelope now mode =
    bindS (on_node (node_receive env peer envelope now mode)) (\<lambda>r.
    bindS (upd_result (\<lambda>m. m\<lparr>mr_status := ShareProcessed, mr_share_status := receive_status r\<rparr>)) (\<lambda>_. getsS (\<lambda>st.
    bindS (if receive_status r = Unknown_work_context \<and> nd_work_retrieval (ps_node st) \<noteq> None
      then bindS (liftS (parse_p2p_share_announce_envelope envelope)) (\<lambda>s.
        unknown_work env peer now mode s kP2pCapabilityShareGossip
          (request_work peer s kP2pCapabilityShareGossip now))
      else returnS ()) (\<lambda>_.
    bindS (after_receive r) (\<lambda>_.
    if receive_status r = Receive_connected then relay_connected env now mode envelope (result_id (chain_result r))
    else returnS ())))))"

definition handle_share_request :: "p2p_handshake \<Rightarrow> p2p_envelope \<Rightarrow> (pass, unit) op" where
  "handle_share_request peer envelope = getsS (\<lambda>st.
    bindS (liftS (answer_p2p_share_request peer envelope (nd_chain (ps_node st)))) (\<lambda>answer.
    bindS (set_followup answer) (\<lambda>_.
    bindS (liftS (parse_p2p_share_response_envelope answer)) (\<lambda>response.
    bindS (let current_tip = p2p_tip_hint_from_chain (nd_chain (ps_node st)) in
      if response_code response = Not_found \<and> \<not> is_zero_share_id (hint_share_id current_tip)
      then bindS (liftS (make_p2p_tip_announce_envelope current_tip)) (\<lambda>e.
        modifyS (\<lambda>s. s\<lparr>ps_fresh_tip_followup := Some e\<rparr>))
      else returnS ()) (\<lambda>_.
    upd_result (\<lambda>m. m\<lparr>mr_status := ShareRequestAnswered\<rparr>))))))"

definition handle_share_response ::
  "('p, 's) node_env \<Rightarrow> p2p_handshake \<Rightarrow> p2p_envelope \<Rightarrow> u64 \<Rightarrow> progpowz_context_mode \<Rightarrow> (pass, unit) op"
where
  "handle_share_response env peer envelope now mode =
    bindS (on_node (node_receive_response env peer envelope now mode)) (\<lambda>sync.
    bindS (upd_result (\<lambda>m. m\<lparr>mr_status := ShareResponseProcessed, mr_sync_status := sync_status sync\<rparr>)) (\<lambda>_.
    case share_result sync of
      None \<Rightarrow> returnS ()
    | Some r \<Rightarrow>
        bindS (upd_result (\<lambda>m. m\<lparr>mr_share_status := receive_status r\<rparr>)) (\<lambda>_. getsS (\<lambda>st.
        bindS (if receive_status r = Unknown_work_context \<and> nd_work_retrieval (ps_node st) \<noteq> None
          then bindS (liftS (parse_p2p_share_response_envelope envelope)) (\<lambda>response.
            case response_share response of
              None \<Rightarrow> returnS ()
            | Some s \<Rightarrow> unknown_work env peer now mode s kP2pCapabilityShareSync
                (bindS (attempt_local_historical env now mode s peer kP2pCapabilityShareSync) (\<lambda>handled.
                  if handled then returnS () else request_work peer s kP2pCapabilityShareSync now)))
          else returnS ()) (\<lambda>_.
        bindS (after_receive r) (\<lambda>_.
        if receive_status r = Receive_connected
        then bindS (liftS (parse_p2p_share_response_envelope envelope)) (\<lambda>response.
          case response_share response of
            None \<Rightarrow> returnS ()
          | Some s \<Rightarrow> bindS (liftS (make_p2p_share_announce_envelope s)) (\<lambda>announce.
              relay_connected env now mode announce (result_id (chain_result r))))
        else returnS ()))))))"

section \<open>Tips\<close>

text \<open>A deferred candidate of this peer whose parent is still to be fetched.\<close>

definition is_unresolved_frontier :: "p2p_node \<Rightarrow> node_id \<Rightarrow> deferred_historical_candidate \<Rightarrow> bool" where
  "is_unresolved_frontier n peer_id d \<longleftrightarrow>
    (let parent = parent_id (dc_share d) in
     \<not> is_zero_share_id parent \<and>
     \<not> (case fmlookup (deferred_historical n) parent of
          None \<Rightarrow> False
        | Some d2 \<Rightarrow> hs_node_id (dc_candidate_peer d2) = peer_id) \<and>
     \<not> (case find (nd_chain n) parent of None \<Rightarrow> False | Some cs \<Rightarrow> validated_ancestry cs))"

definition select_frontier_for_root ::
  "p2p_node \<Rightarrow> node_id \<Rightarrow> share_id \<Rightarrow> deferred_historical_candidate option"
where
  "select_frontier_for_root n peer_id recovery_root =
    fold (\<lambda>item selected.
        let d = snd item in
        if hs_node_id (dc_candidate_peer d) \<noteq> peer_id \<or> dc_recovery_root d \<noteq> recovery_root \<or>
          \<not> is_unresolved_frontier n peer_id d
        then selected
        else (case selected of
          None \<Rightarrow> Some d
        | Some best \<Rightarrow> if share_height (dc_share d) < share_height (dc_share best) then Some d else selected))
      (sorted_list_of_fmap (deferred_historical n)) None"

definition select_oldest_frontier :: "p2p_node \<Rightarrow> node_id \<Rightarrow> deferred_historical_candidate option" where
  "select_oldest_frontier n peer_id =
    fold (\<lambda>item selected.
        let d = snd item in
        if hs_node_id (dc_candidate_peer d) \<noteq> peer_id \<or> \<not> is_unresolved_frontier n peer_id d then selected
        else (case selected of
          None \<Rightarrow> Some d
        | Some best \<Rightarrow>
            if dc_last_progress d < dc_last_progress best \<or>
              dc_last_progress d = dc_last_progress best \<and>
                share_height (dc_share d) < share_height (dc_share best)
            then Some d else selected))
      (sorted_list_of_fmap (deferred_historical n)) None"

text \<open>The walk that the peer's heartbeat continues: the one already chosen, or the oldest, which is then kept.\<close>

definition choose_frontier ::
  "node_id \<Rightarrow> p2p_node \<Rightarrow> deferred_historical_candidate option \<times> p2p_node"
where
  "choose_frontier peer_id n =
    (let roots = active_deferred_recovery_root n;
         (chosen, roots) =
           (case fmlookup roots peer_id of
             None \<Rightarrow> (None, roots)
           | Some root \<Rightarrow>
               (case select_frontier_for_root n peer_id root of
                 None \<Rightarrow> (None, fmdrop peer_id roots)
               | Some d \<Rightarrow> (Some d, roots)))
     in case chosen of
       Some d \<Rightarrow> (Some d, n\<lparr>active_deferred_recovery_root := roots\<rparr>)
     | None \<Rightarrow>
         (case select_oldest_frontier n peer_id of
           None \<Rightarrow> (None, n\<lparr>active_deferred_recovery_root := roots\<rparr>)
         | Some d \<Rightarrow> (Some d, n\<lparr>active_deferred_recovery_root := fmupd peer_id (dc_recovery_root d) roots\<rparr>)))"

definition node_choose_frontier :: "node_id \<Rightarrow> (p2p_node, deferred_historical_candidate option) op" where
  "node_choose_frontier peer_id n = (case choose_frontier peer_id n of (chosen, n') \<Rightarrow> (Ok chosen, n'))"

definition historical_recovery_enabled :: "p2p_node \<Rightarrow> bool" where
  "historical_recovery_enabled n \<longleftrightarrow> nd_work_retrieval n \<noteq> None \<and> historical_trust_sources_ready n"

definition request_share :: "node_id \<Rightarrow> share_id \<Rightarrow> (pass, unit) op" where
  "request_share peer_id i =
    bindS (liftS (make_p2p_share_request_envelope i)) (\<lambda>e.
      modifyS (\<lambda>s. s\<lparr>ps_followup := Some e, ps_followup_peer := peer_id\<rparr>))"

definition handle_tip_announce :: "p2p_handshake \<Rightarrow> p2p_envelope \<Rightarrow> u64 \<Rightarrow> (pass, unit) op" where
  "handle_tip_announce peer envelope now =
    bindS (liftS (parse_p2p_tip_announce_envelope envelope)) (\<lambda>hint. getsS (\<lambda>st.
    let decision = plan_p2p_tip_sync peer hint (nd_chain (ps_node st)) in
    bindS (upd_result (\<lambda>m. m\<lparr>mr_status := TipProcessed, mr_tip_status := tip_status decision\<rparr>)) (\<lambda>_.
    bindS (upd_node (expire_historical_state now)) (\<lambda>_. getsS (\<lambda>st.
    bindS (if historical_recovery_enabled (ps_node st) \<and> hs_capabilities peer AND kP2pCapabilityShareSync \<noteq> 0
      then on_node (node_choose_frontier (hs_node_id peer))
      else returnS None) (\<lambda>deferred_frontier.
    case deferred_frontier of
      Some d \<Rightarrow> request_share (hs_node_id peer) (parent_id (dc_share d))
    | None \<Rightarrow>
        (case tip_requested_id decision of
          Some i \<Rightarrow> bindS (liftS (make_p2p_share_request_envelope i)) set_followup
        | None \<Rightarrow>
            if tip_status decision = Known_connected_tip \<and> historical_recovery_enabled (ps_node st)
            then (case find (nd_chain (ps_node st)) (hint_share_id hint) of
              None \<Rightarrow> returnS ()
            | Some cs \<Rightarrow>
                if \<not> validated_ancestry cs then request_share (hs_node_id peer) (hint_share_id hint) else returnS ())
            else returnS ())))))))"

section \<open>Mining contexts and work\<close>

definition node_promote_context ::
  "('p, 's) node_env \<Rightarrow> p2p_handshake \<Rightarrow> p2p_envelope \<Rightarrow> p2p_mining_anchor \<Rightarrow> share_id \<Rightarrow> pplns_coinbase_plan option \<Rightarrow>
    p2p_payout_address option \<Rightarrow> (p2p_node, p2p_mining_context_trust_result option) op"
where
  "node_promote_context env peer envelope anchor parent plan address n =
    (let promoted =
       (case (plan, address) of
         (Some p, _) \<Rightarrow> Some (promote_p2p_mining_context_plan_at_parent (ne_crypto env) (ne_tokener env)
           (nd_trusted_work n) peer envelope anchor parent p)
       | (None, Some a) \<Rightarrow> Some (promote_p2p_mining_context_at_parent (ne_crypto env) (ne_tokener env)
           (nd_trusted_work n) peer envelope anchor parent a)
       | (None, None) \<Rightarrow> None)
     in case promoted of
       None \<Rightarrow> (Ok None, n)
     | Some (Inl e) \<Rightarrow> (Throw e, n)
     | Some (Inr (reg, r)) \<Rightarrow> (Ok (Some r), n\<lparr>nd_trusted_work := reg\<rparr>))"

definition handle_mining_context_announce ::
  "('p, 's) node_env \<Rightarrow> p2p_handshake \<Rightarrow> p2p_envelope \<Rightarrow> (pass, unit) op"
where
  "handle_mining_context_announce env peer envelope = getsS (\<lambda>st.
    let defer = upd_result (\<lambda>m. m\<lparr>mr_status := MiningContextDeferred\<rparr>); n = ps_node st in
    case local_mining_anchor n of
      None \<Rightarrow> defer
    | Some anchor \<Rightarrow>
        (case expected_payout_parent_id n of
          None \<Rightarrow> defer
        | Some parent \<Rightarrow>
            bindS (on_node (node_promote_context env peer envelope anchor parent (expected_payout_plan n)
              (expected_payout n))) (\<lambda>trust.
            case trust of
              None \<Rightarrow> defer
            | Some r \<Rightarrow> upd_result (\<lambda>m. m\<lparr>mr_status := MiningContextProcessed, mr_mining_context_status := trust_status r,
                mr_mining_context_registry_inserted := registry_inserted r\<rparr>))))"

definition handle_mining_work_request ::
  "('p, 's) node_env \<Rightarrow> p2p_handshake \<Rightarrow> p2p_envelope \<Rightarrow> (pass, unit) op"
where
  "handle_mining_work_request env peer envelope = getsS (\<lambda>st.
    case nd_work_retrieval (ps_node st) of
      None \<Rightarrow> liftS (Throw (Runtime_error ''work retrieval is disabled''))
    | Some w \<Rightarrow>
        bindS (liftS (answer_work (ne_archive env) (ne_directory env) w peer envelope)) (\<lambda>e.
        bindS (set_followup e) (\<lambda>_.
          upd_result (\<lambda>m. m\<lparr>mr_status := MiningWorkRequestAnswered\<rparr>))))"

definition complete_work ::
  "('p, 's) node_env \<Rightarrow> p2p_handshake \<Rightarrow> u64 \<Rightarrow> progpowz_context_mode \<Rightarrow> mining_work_key \<Rightarrow> (pass, unit) op"
where
  "complete_work env peer now mode key =
    bindS (upd_node (expire_historical_state now)) (\<lambda>_. getsS (\<lambda>st.
    case fmlookup (pending_historical (ps_node st)) (hs_node_id peer, key) of
      None \<Rightarrow> returnS ()
    | Some candidate \<Rightarrow>
        if \<not> historical_trust_sources_ready (ps_node st) then returnS ()
        else
          bindS (on_node (node_take_untrusted key)) (\<lambda>work_bytes.
          case work_bytes of
            None \<Rightarrow> liftS (Throw (Runtime_error ''completed historical work is missing from untrusted cache''))
          | Some bytes \<Rightarrow>
              bindS (liftS (deserialize_p2p_mining_context_payload (ne_tokener env) bytes)) (\<lambda>p.
              let evidence = \<lparr>ev_proposal = p, ev_source_peer = peer, ev_received = now\<rparr> in
              bindS (upd_node (erase_pending (hs_node_id peer) key)) (\<lambda>_.
                resume_after env now mode (attempt_historical env now mode (pc_share candidate) peer evidence
                  (pc_required_capability candidate) True))))))"

definition handle_mining_work_response ::
  "('p, 's) node_env \<Rightarrow> p2p_handshake \<Rightarrow> p2p_envelope \<Rightarrow> u64 \<Rightarrow> progpowz_context_mode \<Rightarrow> (pass, unit) op"
where
  "handle_mining_work_response env peer envelope now mode = getsS (\<lambda>st.
    case nd_work_retrieval (ps_node st) of
      None \<Rightarrow> liftS (Throw (Runtime_error ''work retrieval is disabled''))
    | Some w \<Rightarrow>
        bindS (liftS (parse_mining_work_response envelope)) (\<lambda>response.
        let key = rq_key (rs_request response) in
        bindS (on_node (on_throw (node_receive_work env peer envelope now w) (erase_pending (hs_node_id peer) key))) (\<lambda>received.
        bindS (modifyS (\<lambda>s. s\<lparr>ps_followup := rr_followup received\<rparr>)) (\<lambda>_.
        bindS (upd_result (\<lambda>m. m\<lparr>mr_untrusted_work_received := rr_received_id received,
          mr_status := MiningWorkResponseProcessed\<rparr>)) (\<lambda>_.
        if rs_total_size response = 0 then upd_node (erase_pending (hs_node_id peer) key)
        else if rr_received_id received = None then returnS ()
        else complete_work env peer now mode key)))))"

definition handle_message ::
  "('p, 's) node_env \<Rightarrow> p2p_handshake \<Rightarrow> p2p_envelope \<Rightarrow> u64 \<Rightarrow> progpowz_context_mode \<Rightarrow> (pass, unit) op"
where
  "handle_message env peer envelope now mode =
    (case env_type envelope of
      Share_announce \<Rightarrow> handle_share_announce env peer envelope now mode
    | Share_request \<Rightarrow> handle_share_request peer envelope
    | Share_response \<Rightarrow> handle_share_response env peer envelope now mode
    | Tip_announce \<Rightarrow> handle_tip_announce peer envelope now
    | Mining_context_announce \<Rightarrow> handle_mining_context_announce env peer envelope
    | Mining_work_request \<Rightarrow> handle_mining_work_request env peer envelope
    | Mining_work_response \<Rightarrow> handle_mining_work_response env peer envelope now mode
    | Handshake \<Rightarrow> upd_result (\<lambda>m. m\<lparr>mr_status := UnexpectedHandshake\<rparr>))"

end
