(* ===== verification/Node_Handle.thy ===== *)
theory Node_Handle
  imports Node_Messages Peer_Score
begin

text \<open>
  \<open>src/src/p2p_node.cpp\<close>: \<open>handle\<close> as a whole, with the scheduler that advances replayed shares once a
  message needs no reply, and the operations that enter it again on their own: the retry of candidates the
  daemon could not confirm yet, and the periodic recovery.
\<close>

section \<open>The scheduler of replayed shares\<close>

definition replay_parent_ready :: "share_chain \<Rightarrow> connected_share \<Rightarrow> bool" where
  "replay_parent_ready c cs \<longleftrightarrow>
    (if is_zero_share_id (parent_id (cs_share cs)) then True
     else case find c (parent_id (cs_share cs)) of None \<Rightarrow> False | Some parent \<Rightarrow> validated_ancestry parent)"

text \<open>A share that replay left unvalidated, whose parent is validated and which this peer was not asked about.\<close>

definition replay_frontier :: "p2p_node \<Rightarrow> node_id \<Rightarrow> share_id \<Rightarrow> connected_share option" where
  "replay_frontier n peer_id i =
    (case find (nd_chain n) i of
      None \<Rightarrow> None
    | Some cs \<Rightarrow>
        if validated_ancestry cs \<or> \<not> replay_parent_ready (nd_chain n) cs \<or>
          fmlookup (replay_frontier_attempts n) (peer_id, i) \<noteq> None
        then None else Some cs)"

definition mark_attempt :: "node_id \<Rightarrow> share_id \<Rightarrow> u64 \<Rightarrow> p2p_node \<Rightarrow> p2p_node" where
  "mark_attempt peer_id i now n =
    n\<lparr>replay_frontier_attempts := fmupd (peer_id, i) now (replay_frontier_attempts n)\<rparr>"

definition unmark_attempt :: "node_id \<Rightarrow> share_id \<Rightarrow> p2p_node \<Rightarrow> p2p_node" where
  "unmark_attempt peer_id i n =
    n\<lparr>replay_frontier_attempts := fmdrop (peer_id, i) (replay_frontier_attempts n)\<rparr>"

text \<open>The loop; its value says whether a share was connected.\<close>

fun frontier_loop ::
  "('p, 's) node_env \<Rightarrow> p2p_handshake \<Rightarrow> u64 \<Rightarrow> progpowz_context_mode \<Rightarrow> share_id list \<Rightarrow> nat \<Rightarrow> bool \<Rightarrow> (pass, bool) op"
where
  "frontier_loop env peer now mode [] budget any = returnS any"
| "frontier_loop env peer now mode (i # ids) budget any = getsS (\<lambda>st.
    if budget = 0 \<or> ps_followup st \<noteq> None then returnS any
    else (case replay_frontier (ps_node st) (hs_node_id peer) i of
      None \<Rightarrow> frontier_loop env peer now mode ids budget any
    | Some cs \<Rightarrow>
        bindS (attempt_local_historical env now mode (cs_share cs) peer kP2pCapabilityShareSync) (\<lambda>handled_locally.
        if handled_locally
        then bindS (upd_node (mark_attempt (hs_node_id peer) i now)) (\<lambda>_. getsS (\<lambda>st.
          frontier_loop env peer now mode ids (budget - 1) (any \<or> mr_historical_share_connected (ps_result st))))
        else bindS (on_node (node_begin_work peer (work_key_of (cs_share cs)) now)) (\<lambda>work_request.
          bindS (case work_request of
            None \<Rightarrow> returnS ()
          | Some e \<Rightarrow>
              bindS (upd_node (mark_attempt (hs_node_id peer) i now)) (\<lambda>_.
              bindS (modifyS (\<lambda>s. s\<lparr>ps_followup := Some e, ps_followup_peer := hs_node_id peer\<rparr>)) (\<lambda>_.
                upd_node (remember_pending_historical peer (cs_share cs) kP2pCapabilityShareSync now))))
            (\<lambda>_. returnS any)))))"

definition merge_scheduled :: "p2p_node_message_result \<Rightarrow> bool \<Rightarrow> p2p_node_message_result \<Rightarrow> p2p_node_message_result result" where
  "merge_scheduled outer any r =
    (if mr_historical_pruned_connected_shares r < mr_historical_pruned_connected_shares outer \<or>
       length (mr_historical_pruned_share_ids r) < length (mr_historical_pruned_share_ids outer)
     then Throw (Logic_error ''historical prune aggregation regressed'')
     else
       let pruned = mr_historical_pruned_connected_shares r - mr_historical_pruned_connected_shares outer;
           ids = drop (length (mr_historical_pruned_share_ids outer)) (mr_historical_pruned_share_ids r)
       in if pruned \<noteq> length ids then Throw (Logic_error ''historical prune ID/count mismatch'')
          else Ok (outer\<lparr>mr_historical_share_connected := mr_historical_share_connected outer \<or> any,
            mr_historical_pruned_share_ids := mr_historical_pruned_share_ids outer @ ids,
            mr_historical_pruned_connected_shares := mr_historical_pruned_connected_shares outer + pruned\<rparr>))"

definition schedule_replay ::
  "('p, 's) node_env \<Rightarrow> p2p_handshake \<Rightarrow> u64 \<Rightarrow> progpowz_context_mode \<Rightarrow> (pass, unit) op"
where
  "schedule_replay env peer now mode = getsS (\<lambda>st.
    if ps_followup st \<noteq> None \<or> nd_work_retrieval (ps_node st) = None \<or>
      hs_capabilities peer AND kP2pCapabilityShareSync = 0
    then returnS ()
    else
      let outer = ps_result st in
      bindS (upd_node (expire_historical_state now)) (\<lambda>_. getsS (\<lambda>st.
      bindS (if historical_trust_sources_ready (ps_node st)
        then bindS (upd_result (\<lambda>m. m\<lparr>mr_historical_share_connected := False\<rparr>)) (\<lambda>_.
          bindS (frontier_loop env peer now mode (replay_order (nd_chain (ps_node st))) kMiningWorkMaxPending False) (\<lambda>any.
          getsS (\<lambda>st. returnS (any \<or> mr_historical_share_connected (ps_result st)))))
        else returnS False) (\<lambda>connected. getsS (\<lambda>st.
      bindS (liftS (merge_scheduled outer connected (ps_result st))) (\<lambda>r. upd_result (\<lambda>_. r)))))))"

section \<open>The handler\<close>

definition p2p_node_message_penalty :: "p2p_node_message_result \<Rightarrow> u32" where
  "p2p_node_message_penalty r =
    (case mr_status r of
      ShareProcessed \<Rightarrow> if mr_share_status r = Capability_missing then kP2pProtocolViolationPenalty else 0
    | ShareRequestAnswered \<Rightarrow> 0
    | MiningWorkRequestAnswered \<Rightarrow> 0
    | MiningWorkResponseProcessed \<Rightarrow> 0
    | ShareResponseProcessed \<Rightarrow>
        if mr_sync_status r = Sync_capability_missing then kP2pProtocolViolationPenalty
        else if mr_sync_status r = Share_processed \<and> mr_share_status r = Capability_missing
        then kP2pProtocolViolationPenalty else 0
    | TipProcessed \<Rightarrow>
        if mr_tip_status r = Height_mismatch \<or> mr_tip_status r = Tip_capability_missing
        then kP2pProtocolViolationPenalty else 0
    | MiningContextProcessed \<Rightarrow>
        if mr_mining_context_status r = Trust_capability_missing \<or> mr_mining_context_status r = ProofsRejected
        then kP2pProtocolViolationPenalty else 0
    | MiningContextDeferred \<Rightarrow> 0
    | UnexpectedHandshake \<Rightarrow> kP2pProtocolViolationPenalty)"

definition tell :: "node_action \<Rightarrow> (pass, unit) op" where
  "tell action = upd_node (\<lambda>n. n\<lparr>nd_outbox := nd_outbox n @ [action]\<rparr>)"

definition tell_all ::
  "(p2p_envelope \<Rightarrow> node_action) \<Rightarrow> (p2p_envelope \<Rightarrow> p2p_node_message_result \<Rightarrow> p2p_node_message_result) \<Rightarrow>
    p2p_envelope option \<Rightarrow> (pass, unit) op"
where
  "tell_all action note message =
    (case message of None \<Rightarrow> returnS () | Some e \<Rightarrow> bindS (tell (action e)) (\<lambda>_. upd_result (note e)))"

definition send_results :: "('p, 's) node_env \<Rightarrow> p2p_handshake \<Rightarrow> (pass, unit) op" where
  "send_results env peer = getsS (\<lambda>st.
    let penalty = p2p_node_message_penalty (ps_result st) in
    bindS (if penalty \<noteq> 0 then tell (Report_misbehavior (hs_node_id peer) penalty) else returnS ()) (\<lambda>_.
    bindS (tell_all (Send_to (ps_followup_peer st))
      (\<lambda>e r. r\<lparr>mr_sent_followup := ne_send env (ps_followup_peer st) e\<rparr>) (ps_followup st)) (\<lambda>_.
    bindS (tell_all (Send_to (hs_node_id peer)) (\<lambda>_ r. r) (ps_fresh_tip_followup st)) (\<lambda>_.
    bindS (tell_all (Broadcast_except (hs_node_id peer)) (\<lambda>_ r. r\<lparr>mr_relayed_share := True\<rparr>) (ps_relay_share st)) (\<lambda>_.
      tell_all (Broadcast_except (hs_node_id peer)) (\<lambda>_ r. r\<lparr>mr_relayed_tip := True\<rparr>) (ps_relay_tip st))))))"

definition handle_pass ::
  "('p, 's) node_env \<Rightarrow> p2p_handshake \<Rightarrow> p2p_envelope \<Rightarrow> u64 \<Rightarrow> progpowz_context_mode \<Rightarrow> (pass, unit) op"
where
  "handle_pass env peer envelope now mode =
    bindS (handle_message env peer envelope now mode) (\<lambda>_.
    bindS (schedule_replay env peer now mode) (\<lambda>_. send_results env peer))"

definition start_pass :: "p2p_handshake \<Rightarrow> p2p_node \<Rightarrow> pass" where
  "start_pass peer n =
    \<lparr>ps_node = n, ps_result = default_message_result, ps_followup = None, ps_followup_peer = hs_node_id peer,
     ps_fresh_tip_followup = None, ps_relay_share = None, ps_relay_tip = None\<rparr>"

definition handle ::
  "('p, 's) node_env \<Rightarrow> p2p_handshake \<Rightarrow> p2p_envelope \<Rightarrow> u64 \<Rightarrow> progpowz_context_mode \<Rightarrow>
    (p2p_node, p2p_node_message_result) op"
where
  "handle env peer envelope now mode n =
    (case handle_pass env peer envelope now mode (start_pass peer n) of
      (Inl e, st) \<Rightarrow> (Throw e, ps_node st)
    | (Inr _, st) \<Rightarrow> (Ok (ps_result st), ps_node st))"

definition p2p_node_message_status_name :: "p2p_node_message_status \<Rightarrow> string" where
  "p2p_node_message_status_name status =
    (case status of
      ShareProcessed \<Rightarrow> ''share-processed''
    | ShareRequestAnswered \<Rightarrow> ''share-request-answered''
    | ShareResponseProcessed \<Rightarrow> ''share-response-processed''
    | TipProcessed \<Rightarrow> ''tip-processed''
    | MiningContextProcessed \<Rightarrow> ''mining-context-processed''
    | MiningContextDeferred \<Rightarrow> ''mining-context-deferred''
    | MiningWorkRequestAnswered \<Rightarrow> ''mining-work-request-answered''
    | MiningWorkResponseProcessed \<Rightarrow> ''mining-work-response-processed''
    | UnexpectedHandshake \<Rightarrow> ''unexpected-handshake'')"

section \<open>Admitted shares\<close>

definition append_unique :: "share \<Rightarrow> share list \<Rightarrow> share list result" where
  "append_unique s admitted =
    bindE (share_id s) (\<lambda>i.
      Ok (if list_ex (\<lambda>existing. share_id existing = Ok i) admitted then admitted else admitted @ [s]))"

definition p2p_node_unique_admitted_shares :: "p2p_node_message_result \<Rightarrow> p2p_envelope \<Rightarrow> share list result" where
  "p2p_node_unique_admitted_shares r envelope =
    (let direct_share_admitted =
       (mr_status r = ShareProcessed \<or> mr_status r = ShareResponseProcessed) \<and>
       (mr_share_status r = Receive_connected \<or> mr_share_status r = Receive_orphan) in
     bindE (if \<not> direct_share_admitted then Ok []
       else if mr_status r = ShareProcessed
       then bindE (parse_p2p_share_announce_envelope envelope) (\<lambda>s. append_unique s [])
       else bindE (parse_p2p_share_response_envelope envelope) (\<lambda>response.
         case response_share response of None \<Rightarrow> Ok [] | Some s \<Rightarrow> append_unique s [])) (\<lambda>admitted.
     forE append_unique (mr_historical_admitted_shares r) admitted))"

section \<open>Synchronization at the start of a connection\<close>

definition initial_sync_request :: "p2p_handshake \<Rightarrow> p2p_node \<Rightarrow> p2p_envelope option result" where
  "initial_sync_request peer n =
    bindE (p2p_tip_hint_from_handshake peer) (\<lambda>hint.
    let decision = plan_p2p_tip_sync peer hint (nd_chain n);
        fresh_tip =
          (if hs_capabilities peer AND kP2pCapabilityShareSync \<noteq> 0 \<and>
             (tip_status decision = No_remote_tip \<or> tip_status decision = Known_connected_tip)
           then let local_hint = p2p_tip_hint_from_chain (nd_chain n) in
             if is_zero_share_id (hint_share_id local_hint) then Ok None
             else bindE (make_p2p_tip_announce_envelope local_hint) (\<lambda>e. Ok (Some e))
           else Ok None) in
    case tip_requested_id decision of
      Some i \<Rightarrow> bindE (make_p2p_share_request_envelope i) (\<lambda>e. Ok (Some e))
    | None \<Rightarrow>
        if tip_status decision = Known_connected_tip \<and> historical_recovery_enabled n
        then (case find (nd_chain n) (hint_share_id hint) of
          None \<Rightarrow> fresh_tip
        | Some cs \<Rightarrow>
            if \<not> validated_ancestry cs
            then bindE (make_p2p_share_request_envelope (hint_share_id hint)) (\<lambda>e. Ok (Some e))
            else fresh_tip)
        else fresh_tip)"

end
