(* ===== verification/Node_Recovery.thy ===== *)
theory Node_Recovery
  imports Node_Handle
begin

text \<open>
  \<open>src/src/p2p_node.cpp\<close>: \<open>retry_historical_pow_unavailable\<close> and \<open>advance_replay_recovery\<close>, which enter
  the message handler again with an envelope of their own. The peers that the transport reports as live
  are an argument.
\<close>

section \<open>Retrying candidates\<close>

record p2p_historical_retry_summary =
  rt_attempted :: nat
  rt_trusted :: nat
  rt_connected :: nat
  rt_admitted_shares :: "share list"
  rt_pruned_share_ids :: "share_id list"
  rt_pruned_connected_shares :: nat
  rt_remaining :: nat

definition retry_envelope :: "retryable_historical_candidate \<Rightarrow> p2p_envelope result" where
  "retry_envelope candidate =
    (if rc_required_capability candidate = kP2pCapabilityShareGossip
     then make_p2p_share_announce_envelope (rc_share candidate)
     else if rc_required_capability candidate = kP2pCapabilityShareSync
     then bindE (share_id (rc_share candidate)) (\<lambda>i. make_p2p_share_response_envelope i (Some (rc_share candidate)))
     else Throw (Logic_error ''unsupported historical retry capability''))"

text \<open>After an exception the registration is put back unless it is there or too old.\<close>

definition restore_retryable :: "u64 \<Rightarrow> retryable_historical_candidate \<Rightarrow> p2p_node \<Rightarrow> p2p_node" where
  "restore_retryable now candidate n =
    (case share_id (rc_share candidate) of
      Inl e \<Rightarrow> n
    | Inr i \<Rightarrow>
        if now \<ge> rc_started candidate \<and> now - rc_started candidate < kMiningWorkRequestLifetime \<and>
          fmlookup (retryable_historical n) i = None
        then n\<lparr>retryable_historical := fmupd i candidate (retryable_historical n)\<rparr>
        else n)"

definition retry_one ::
  "('p, 's) node_env \<Rightarrow> u64 \<Rightarrow> progpowz_context_mode \<Rightarrow> retryable_historical_candidate \<Rightarrow> p2p_historical_retry_summary \<Rightarrow>
    (p2p_node, p2p_historical_retry_summary) op"
where
  "retry_one env now mode candidate summary =
    bindS (liftS (retry_envelope candidate)) (\<lambda>envelope.
    bindS (on_throw (handle env (rc_candidate_peer candidate) envelope now mode) (restore_retryable now candidate)) (\<lambda>r.
    bindS (liftS (p2p_node_unique_admitted_shares r envelope)) (\<lambda>admitted.
    bindS (liftS (forE append_unique admitted (rt_admitted_shares summary))) (\<lambda>reported.
    bindS (if mr_historical_trust_status r = None \<and> mr_share_status r \<noteq> Unknown_work_context
      then bindS (liftS (share_id (rc_share candidate))) (\<lambda>i. modifyS (erase_retryable i))
      else returnS ()) (\<lambda>_.
    returnS (summary\<lparr>rt_admitted_shares := reported,
      rt_trusted := rt_trusted summary + (if mr_historical_trust_status r = Some Historical_trusted then 1 else 0),
      rt_pruned_share_ids := rt_pruned_share_ids summary @ mr_historical_pruned_share_ids r,
      rt_pruned_connected_shares := rt_pruned_connected_shares summary + mr_historical_pruned_connected_shares r,
      rt_connected := rt_connected summary + (if mr_historical_share_connected r then 1 else 0)\<rparr>))))))"

fun retry_each ::
  "('p, 's) node_env \<Rightarrow> u64 \<Rightarrow> progpowz_context_mode \<Rightarrow> retryable_historical_candidate list \<Rightarrow> p2p_historical_retry_summary \<Rightarrow>
    (p2p_node, p2p_historical_retry_summary) op"
where
  "retry_each env now mode [] summary = returnS summary"
| "retry_each env now mode (candidate # candidates) summary =
    bindS (retry_one env now mode candidate summary) (retry_each env now mode candidates)"

definition retry_historical_pow_unavailable ::
  "('p, 's) node_env \<Rightarrow> u64 \<Rightarrow> progpowz_context_mode \<Rightarrow> (p2p_node, p2p_historical_retry_summary) op"
where
  "retry_historical_pow_unavailable env now mode =
    bindS (modifyS (expire_historical_state now)) (\<lambda>_. getsS (\<lambda>n.
    let retry = map snd (sorted_list_of_fmap (retryable_historical n)) in
    bindS (retry_each env now mode retry
      \<lparr>rt_attempted = length retry, rt_trusted = 0, rt_connected = 0, rt_admitted_shares = [],
       rt_pruned_share_ids = [], rt_pruned_connected_shares = 0, rt_remaining = 0\<rparr>) (\<lambda>summary.
    bindS (modifyS (expire_historical_state now)) (\<lambda>_. getsS (\<lambda>n.
      returnS (summary\<lparr>rt_remaining := fcard (fmdom (retryable_historical n))\<rparr>))))))"

section \<open>Periodic recovery\<close>

record p2p_replay_recovery_summary =
  rr_attempted :: nat
  rr_connected :: nat
  rr_pruned_share_ids :: "share_id list"
  rr_pruned_connected_shares :: nat
  rr_remaining :: nat
  rr_attempted_share_id :: "share_id option"
  rr_attempted_parent_id :: "share_id option"
  rr_trust_status :: "historical_trust_status option"
  rr_anchor_status :: "historical_anchor_status option"
  rr_payout_status :: "historical_payout_status option"
  rr_promotion_status :: "p2p_mining_context_trust_status option"
  rr_proof_status :: "p2p_miner_tx_proof_status option"
  rr_payout_policy_status :: "p2p_payout_policy_status option"

definition default_recovery_summary :: p2p_replay_recovery_summary where
  "default_recovery_summary =
    \<lparr>rr_attempted = 0, rr_connected = 0, rr_pruned_share_ids = [], rr_pruned_connected_shares = 0, rr_remaining = 0,
     rr_attempted_share_id = None, rr_attempted_parent_id = None, rr_trust_status = None, rr_anchor_status = None,
     rr_payout_status = None, rr_promotion_status = None, rr_proof_status = None, rr_payout_policy_status = None\<rparr>"

definition node_audit ::
  "('p, 's) node_env \<Rightarrow> p2p_mining_context_proposal \<Rightarrow> p2p_mining_anchor list \<Rightarrow> (p2p_node, historical_anchor_result) op"
where
  "node_audit env p observations =
    zoom nd_queries (\<lambda>k n. n\<lparr>nd_queries := k\<rparr>)
      (audit_historical_local_anchor (ne_tokener env) (ne_parent_lookup env) None p observations)"

text \<open>The share with the work of the node's own archive: \<open>(revalidated, newly connected)\<close>.\<close>

definition revalidate_audited ::
  "('p, 's) node_env \<Rightarrow> u64 \<Rightarrow> progpowz_context_mode \<Rightarrow> share_id \<Rightarrow> share_work_context \<Rightarrow> (p2p_node, bool \<times> bool) op"
where
  "revalidate_audited env now mode i ctx = getsS (\<lambda>n.
    case find (nd_chain n) i of
      None \<Rightarrow> returnS (False, False)
    | Some current \<Rightarrow>
        if validated_ancestry current then returnS (True, False)
        else bindS (node_revalidate env i ctx now mode) (\<lambda>r.
          returnS (revalidate_status r = Validated \<or> revalidate_status r = AlreadyValidated,
            revalidate_status r = Validated)))"

definition revalidate_from_archive ::
  "('p, 's) node_env \<Rightarrow> u64 \<Rightarrow> progpowz_context_mode \<Rightarrow> share_id \<Rightarrow> share \<Rightarrow> (p2p_node, bool \<times> bool) op"
where
  "revalidate_from_archive env now mode i s = getsS (\<lambda>n.
    case nd_work_retrieval n of
      None \<Rightarrow> returnS (False, False)
    | Some w \<Rightarrow>
        bindS (liftS (node_read_local env (work_key_of s) w)) (\<lambda>local_payload.
        case local_payload of
          None \<Rightarrow> returnS (False, False)
        | Some bytes \<Rightarrow>
            bindS (liftS (deserialize_p2p_mining_context_payload (ne_tokener env) bytes)) (\<lambda>p.
            bindS (liftS (validate_p2p_mining_context_structure (ne_tokener env) p)) (\<lambda>header.
            if zano_height s \<noteq> pr_zano_height p \<or> mining_header_hash s \<noteq> header \<or>
              network_difficulty s \<noteq> pr_network_difficulty p
            then returnS (False, False)
            else
              bindS (node_ask (ne_load_observations env) p) (\<lambda>observations.
              bindS (node_audit env p observations) (\<lambda>initial.
              if anchor_status initial \<noteq> AnchorMatchedUntrusted \<or> anchor_mining_header_hash initial \<noteq> header
              then returnS (False, False)
              else
                bindS (node_audit env p observations) (\<lambda>final.
                if anchor_status final \<noteq> AnchorMatchedUntrusted \<or>
                  anchor_mining_header_hash final \<noteq> anchor_mining_header_hash initial
                then returnS (False, False)
                else revalidate_audited env now mode i \<lparr>ctx_zano_height = pr_zano_height p,
                  ctx_mining_header_hash = header, ctx_network_difficulty = pr_network_difficulty p\<rparr>)))))))"

definition note_recovery :: "p2p_node_message_result \<Rightarrow> p2p_replay_recovery_summary \<Rightarrow> p2p_replay_recovery_summary" where
  "note_recovery r summary =
    summary\<lparr>rr_trust_status := mr_historical_trust_status r, rr_anchor_status := mr_historical_anchor_status r,
      rr_payout_status := mr_historical_payout_status r, rr_promotion_status := mr_historical_promotion_status r,
      rr_proof_status := mr_historical_proof_status r,
      rr_payout_policy_status := mr_historical_payout_policy_status r,
      rr_pruned_share_ids := rr_pruned_share_ids summary @ mr_historical_pruned_share_ids r,
      rr_pruned_connected_shares := rr_pruned_connected_shares summary + mr_historical_pruned_connected_shares r,
      rr_connected := rr_connected summary + (if mr_historical_share_connected r then 1 else 0)\<rparr>"

definition recover_one ::
  "('p, 's) node_env \<Rightarrow> u64 \<Rightarrow> progpowz_context_mode \<Rightarrow> p2p_handshake \<Rightarrow> share_id \<Rightarrow> share \<Rightarrow>
    p2p_replay_recovery_summary \<Rightarrow> (p2p_node, p2p_replay_recovery_summary) op"
where
  "recover_one env now mode peer i s summary =
    bindS (revalidate_from_archive env now mode i s) (\<lambda>(local_archive_revalidated, connected_here).
    let summary = summary\<lparr>rr_connected := rr_connected summary + (if connected_here then 1 else 0)\<rparr> in
    if local_archive_revalidated then returnS (summary\<lparr>rr_trust_status := Some Historical_trusted\<rparr>)
    else
      bindS (liftS (make_p2p_share_response_envelope i (Some s))) (\<lambda>replay.
      bindS (handle env peer replay now mode) (\<lambda>r. returnS (note_recovery r summary))))"

text \<open>The first live peer with a frontier serves; its frontier is reserved before the attempt, and released
  when the attempt throws.\<close>

fun recover_with ::
  "('p, 's) node_env \<Rightarrow> u64 \<Rightarrow> progpowz_context_mode \<Rightarrow> p2p_handshake list \<Rightarrow> p2p_replay_recovery_summary \<Rightarrow>
    (p2p_node, p2p_replay_recovery_summary) op"
where
  "recover_with env now mode [] summary = returnS summary"
| "recover_with env now mode (peer # peers) summary =
    (if hs_capabilities peer AND kP2pCapabilityShareSync = 0 then recover_with env now mode peers summary
     else
       bindS (modifyS (expire_historical_state now)) (\<lambda>_. getsS (\<lambda>n.
       if \<not> historical_recovery_enabled n then returnS summary
       else (case List.find (\<lambda>i. replay_frontier n (hs_node_id peer) i \<noteq> None) (replay_order (nd_chain n)) of
         None \<Rightarrow> recover_with env now mode peers summary
       | Some frontier \<Rightarrow>
           let s = cs_share (the (replay_frontier n (hs_node_id peer) frontier)) in
           bindS (modifyS (mark_attempt (hs_node_id peer) frontier now)) (\<lambda>_.
           bindS (liftS (share_id s)) (\<lambda>i.
           on_throw (recover_one env now mode peer i s
               (summary\<lparr>rr_attempted := rr_attempted summary + 1, rr_attempted_share_id := Some i,
                  rr_attempted_parent_id := Some (parent_id s)\<rparr>))
             (unmark_attempt (hs_node_id peer) frontier)))))))"

definition unvalidated_count :: "share_chain \<Rightarrow> nat" where
  "unvalidated_count c =
    length (filter (\<lambda>i. case find c i of None \<Rightarrow> False | Some cs \<Rightarrow> \<not> validated_ancestry cs) (connected_share_ids c))"

definition advance_replay_recovery ::
  "('p, 's) node_env \<Rightarrow> p2p_handshake list \<Rightarrow> u64 \<Rightarrow> progpowz_context_mode \<Rightarrow> (p2p_node, p2p_replay_recovery_summary) op"
where
  "advance_replay_recovery env peers now mode =
    bindS (recover_with env now mode peers default_recovery_summary) (\<lambda>summary.
    bindS (modifyS (expire_historical_state now)) (\<lambda>_. getsS (\<lambda>n.
      returnS (summary\<lparr>rr_remaining := unvalidated_count (nd_chain n)\<rparr>))))"

end
