(* ===== verification/Node_Protocol.thy ===== *)
theory Node_Protocol
  imports Node_Recovery
begin

text \<open>
  Relations between the states of a node that hold across a whole message when they hold across the
  primitive changes: the locale \<open>node_messages\<close> for the handling of a message up to the point where the
  transport is told, \<open>node_protocol\<close> for the handler and the periodic recovery.
\<close>

locale node_messages = node_attempts R env for R :: "p2p_node \<Rightarrow> p2p_node \<Rightarrow> bool" and env :: "('p, 's) node_env" +
  assumes R_take: "R n (take_deferred i n)"
    and R_defer: "within (remember_deferred_historical s peer evidence cap now)"
    and R_receive: "within (node_receive env peer envelope now mode)"
    and R_response: "within (node_receive_response env peer envelope now mode)"
    and R_retrieval: "R n (n\<lparr>nd_work_retrieval := w\<rparr>)"
    and R_erase_pending: "R n (erase_pending peer_id key n)"
    and R_pending: "R n (remember_pending_historical peer s cap now n)"
    and R_roots: "R n (n\<lparr>active_deferred_recovery_root := roots\<rparr>)"
    and R_promote_context: "local_mining_anchor n = Some anchor \<Longrightarrow> expected_payout_parent_id n = Some parent \<Longrightarrow>
      R n (snd (node_promote_context env peer envelope anchor parent (expected_payout_plan n) (expected_payout n) n))"
    and R_attempts: "R n (n\<lparr>replay_frontier_attempts := attempts\<rparr>)"
begin

lemma begin_work_within: "within (node_begin_work peer key now)"
  by (auto simp: within_def node_begin_work_def R_refl R_retrieval split: option.split prod.split)

lemma receive_work_within: "within (node_receive_work env peer envelope now w)"
  by (auto simp: within_def node_receive_work_def R_retrieval split: prod.split)

lemma take_untrusted_within: "within (node_take_untrusted key)"
  by (auto simp: within_def node_take_untrusted_def R_refl R_retrieval split: option.split prod.split)

lemma choose_frontier_within: "within (node_choose_frontier peer_id)"
  by (auto simp: within_def node_choose_frontier_def choose_frontier_def R_roots R_refl Let_def split: option.split)

lemma mark_within: "R n (mark_attempt peer_id i now n)" "R n (unmark_attempt peer_id i n)"
  by (simp_all add: mark_attempt_def unmark_attempt_def R_attempts)

lemma attempt_within: "pass.within (attempt_historical env now mode s peer evidence cap allow)"
  by (rule attempt_historical_within) (rule R_defer)

lemmas message_rules = attempt_rules attempt_within begin_work_within receive_work_within take_untrusted_within
  choose_frontier_within mark_within R_take R_receive R_response R_erase_pending R_pending R_expire
  within_on_throw

section \<open>Resuming\<close>

lemma resume_ready_within: "pass.within (resume_ready env now mode ids queue)"
  by (induction ids arbitrary: queue) (simp, rule message_rules, simp, (rule message_rules | assumption)+)

lemma resume_queue_within: "pass.within (resume_queue env now mode queue)"
proof -
  have "env' = env \<Longrightarrow> R (ps_node s) (ps_node (snd (resume_queue env' now mode queue s)))"
    for env' :: "('p, 's) node_env" and s
  proof (induction env' now mode queue s rule: resume_queue.induct)
    case (2 env' now mode parent queue s)
    obtain r t where t: "resume_ready env now mode (ready_children parent (ps_node s)) queue s = (r, t)" by force
    then have "R (ps_node s) (ps_node t)" using pass.withinD [OF resume_ready_within] by blast
    with 2 t show ?case by (cases r) (auto intro: R_trans)
  qed (simp add: R_refl)
  then show ?thesis by (simp add: pass.within_def)
qed

lemma resume_after_within: "pass.within m \<Longrightarrow> pass.within (resume_after env now mode m)"
  unfolding resume_after_def resume_deferred_descendants_def by (rule message_rules resume_queue_within | assumption)+

lemma attempt_local_within: "pass.within (attempt_local_historical env now mode s peer cap)"
  unfolding attempt_local_historical_def by (rule message_rules resume_after_within)+

lemmas resume_rules = message_rules resume_queue_within resume_after_within attempt_local_within

section \<open>Messages\<close>

lemma followup_within: "pass.within (set_followup e)" "pass.within (request_share peer_id i)"
  unfolding set_followup_def request_share_def by (rule message_rules)+

lemma request_work_within: "pass.within (request_work peer s cap now)"
  unfolding request_work_def by (rule message_rules followup_within)+

lemma unknown_work_within: "pass.within m \<Longrightarrow> pass.within (unknown_work env peer now mode s cap m)"
  unfolding unknown_work_def by (rule resume_rules | assumption)+

lemma after_receive_within: "pass.within (after_receive r)"
  unfolding after_receive_def by (rule message_rules followup_within)+

lemma relay_connected_within: "pass.within (relay_connected env now mode announce i)"
  unfolding relay_connected_def resume_deferred_descendants_def by (rule resume_rules)+

lemmas share_rules = resume_rules followup_within request_work_within unknown_work_within after_receive_within
  relay_connected_within

lemma share_announce_within: "pass.within (handle_share_announce env peer envelope now mode)"
  unfolding handle_share_announce_def by (rule share_rules)+

lemma share_request_within: "pass.within (handle_share_request peer envelope)"
  unfolding handle_share_request_def by (rule share_rules)+

lemma share_response_within: "pass.within (handle_share_response env peer envelope now mode)"
  unfolding handle_share_response_def by (rule share_rules)+

lemma tip_announce_within: "pass.within (handle_tip_announce peer envelope now)"
  unfolding handle_tip_announce_def by (rule share_rules)+

text \<open>The promotion of announced work reads the node's anchor and expected payout.\<close>

lemma context_announce_within: "pass.within (handle_mining_context_announce env peer envelope)"
proof -
  have "R (ps_node st) (ps_node (snd (handle_mining_context_announce env peer envelope st)))" for st
  proof (cases "local_mining_anchor (ps_node st)")
    case (Some anchor)
    show ?thesis
    proof (cases "expected_payout_parent_id (ps_node st)")
      case None
      then show ?thesis
        using Some by (simp add: handle_mining_context_announce_def getsS_def upd_result_def modifyS_def R_refl)
    next
      case parent: (Some parent)
      obtain r n where "node_promote_context env peer envelope anchor parent (expected_payout_plan (ps_node st))
        (expected_payout (ps_node st)) (ps_node st) = (r, n)" by force
      with R_promote_context [OF Some parent, of peer envelope] show ?thesis
        using Some parent
        by (cases r) (auto simp: handle_mining_context_announce_def getsS_def upd_result_def modifyS_def bindS_def
            on_node_def zoom_def Let_def split: option.split)
    qed
  qed (simp add: handle_mining_context_announce_def getsS_def upd_result_def modifyS_def R_refl)
  then show ?thesis by (simp add: pass.within_def)
qed

lemma work_request_within: "pass.within (handle_mining_work_request env peer envelope)"
  unfolding handle_mining_work_request_def by (rule share_rules)+

lemma complete_work_within: "pass.within (complete_work env peer now mode key)"
  unfolding complete_work_def by (rule share_rules)+

lemma work_response_within: "pass.within (handle_mining_work_response env peer envelope now mode)"
  unfolding handle_mining_work_response_def by (rule share_rules complete_work_within)+

lemma message_within: "pass.within (handle_message env peer envelope now mode)"
  unfolding handle_message_def
  by (cases "env_type envelope")
    (simp_all add: share_announce_within share_request_within share_response_within tip_announce_within
      context_announce_within work_request_within work_response_within within_upd_result)

section \<open>The scheduler\<close>

lemma frontier_loop_within: "pass.within (frontier_loop env peer now mode ids budget any)"
  by (induction ids arbitrary: budget any)
    (simp, rule message_rules, unfold frontier_loop.simps, (rule share_rules | assumption)+)

lemma schedule_within: "pass.within (schedule_replay env peer now mode)"
  unfolding schedule_replay_def by (rule share_rules frontier_loop_within)+

end

section \<open>The handler\<close>

locale node_protocol = node_messages R env for R :: "p2p_node \<Rightarrow> p2p_node \<Rightarrow> bool" and env :: "('p, 's) node_env" +
  assumes R_outbox: "R n (n\<lparr>nd_outbox := out\<rparr>)"
begin

lemma tell_within: "pass.within (tell action)" "pass.within (tell_all act note message)"
  unfolding tell_all_def tell_def by (rule message_rules R_outbox)+

lemma send_results_within: "pass.within (send_results env peer)"
  unfolding send_results_def by (rule message_rules tell_within)+

lemma handle_within: "within (handle env peer envelope now mode)"
proof -
  have "pass.within (handle_pass env peer envelope now mode)"
    unfolding handle_pass_def by (rule message_rules message_within schedule_within send_results_within)+
  from pass.withinD [OF this, of "start_pass peer _"] show ?thesis
    by (auto simp: within_def handle_def split: prod.split sum.split) (auto simp: start_pass_def)
qed

section \<open>Periodic recovery\<close>

lemma audit_within: "within (node_audit env p observations)"
  by (simp add: within_def node_audit_def zoom_def R_queries split: prod.split)

lemmas node_rules = within_rules R_ask audit_within R_revalidate handle_within within_on_throw within_modify
  mark_within R_expire

lemma revalidate_audited_within: "within (revalidate_audited env now mode i ctx)"
  unfolding revalidate_audited_def by (rule node_rules)+

lemma revalidate_from_archive_within: "within (revalidate_from_archive env now mode i s)"
  unfolding revalidate_from_archive_def by (rule node_rules revalidate_audited_within)+

lemma recover_one_within: "within (recover_one env now mode peer i s summary)"
  unfolding recover_one_def by (rule node_rules revalidate_from_archive_within)+

lemma recover_with_within: "within (recover_with env now mode peers summary)"
  by (induction peers arbitrary: summary)
    (simp, rule node_rules, unfold recover_with.simps, (rule node_rules recover_one_within | assumption)+)

lemma advance_within: "within (advance_replay_recovery env peers now mode)"
  unfolding advance_replay_recovery_def by (rule node_rules recover_with_within)+

end

text \<open>The retry of candidates also puts registrations back.\<close>

locale node_retries = node_protocol R env for R :: "p2p_node \<Rightarrow> p2p_node \<Rightarrow> bool" and env :: "('p, 's) node_env" +
  assumes R_restore: "R n (restore_retryable now candidate n)"
begin

lemma retry_one_within: "within (retry_one env now mode candidate summary)"
  unfolding retry_one_def by (rule node_rules R_erase_retryable R_restore)+

lemma retry_each_within: "within (retry_each env now mode candidates summary)"
  by (induction candidates arbitrary: summary)
    (simp, rule node_rules, unfold retry_each.simps, (rule node_rules retry_one_within | assumption)+)

lemma retry_within: "within (retry_historical_pow_unavailable env now mode)"
  unfolding retry_historical_pow_unavailable_def by (rule node_rules retry_each_within)+

end

end
