(* ===== verification/Node_Bounds.thy ===== *)
theory Node_Bounds
  imports Node_Protocol
begin

text \<open>
  Two instances of the protocol locales: the memory that peers can make a node hold for waiting work, and
  the order of changes and messages: the transport is told nothing before the handler is done.
\<close>

section \<open>Operations on the references\<close>

lemma update_order: "n\<lparr>nd_queries := k, nd_trusted_work := reg\<rparr> = n\<lparr>nd_trusted_work := reg, nd_queries := k\<rparr>"
  by simp

text \<open>The calls on the chain, the registry and the daemon change nothing else of the node.\<close>

lemma ledger_ops:
  assumes "\<And>c reg k. P (n\<lparr>nd_chain := c, nd_trusted_work := reg, nd_queries := k\<rparr>)"
  shows "P (snd (node_prune i n))" "P (snd (node_promote env params s evidence obs n))"
    "P (snd (node_revalidate env i ctx now mode n))" "P (snd (node_receive_share env peer s cap now mode n))"
    "P (snd (node_receive env peer envelope now mode n))" "P (snd (node_receive_response env peer envelope now mode n))"
    "P (snd (node_promote_context env peer envelope anchor parent plan address n))" "P (n\<lparr>nd_queries := k\<rparr>)"
proof -
  have P: "P n" "P (n\<lparr>nd_chain := c\<rparr>)" "P (n\<lparr>nd_trusted_work := reg\<rparr>)" "P (n\<lparr>nd_queries := k\<rparr>)"
    "P (n\<lparr>nd_trusted_work := reg, nd_queries := k\<rparr>)" for c reg k
    using assms [where c = "nd_chain n" and reg = "nd_trusted_work n" and k = "nd_queries n"]
      assms [where c = c and reg = "nd_trusted_work n" and k = "nd_queries n"]
      assms [where c = "nd_chain n" and reg = reg and k = "nd_queries n"]
      assms [where c = "nd_chain n" and reg = "nd_trusted_work n" and k = k]
      assms [where c = "nd_chain n" and reg = reg and k = k] by simp_all
  show "P (snd (node_prune i n))" "P (snd (node_promote env params s evidence obs n))"
    "P (snd (node_revalidate env i ctx now mode n))" "P (snd (node_receive_share env peer s cap now mode n))"
    "P (snd (node_receive env peer envelope now mode n))" "P (snd (node_receive_response env peer envelope now mode n))"
    "P (snd (node_promote_context env peer envelope anchor parent plan address n))" "P (n\<lparr>nd_queries := k\<rparr>)"
    by (auto simp: node_prune_def node_promote_def node_revalidate_def node_receive_share_def node_receive_def
        node_receive_response_def node_promote_context_def P
        update_order split: option.split prod.split sum.split)
qed

section \<open>Bounded tables\<close>

definition max_deferred :: "p2p_node \<Rightarrow> nat" where
  "max_deferred n = (case historical_params n of None \<Rightarrow> 0 | Some params \<Rightarrow> unat (difficulty_window_shares params))"

definition node_bounded :: "p2p_node \<Rightarrow> bool" where
  "node_bounded n \<longleftrightarrow>
    fcard (fmdom (pending_historical n)) \<le> kMiningWorkMaxPending \<and>
    fcard (fmdom (historical_evidence_cache n)) \<le> kMiningWorkMaxReceived \<and>
    fcard (fmdom (retryable_historical n)) \<le> kMiningWorkMaxReceived \<and>
    fcard (fmdom (deferred_historical n)) \<le> max_deferred n"

definition keeps_bounds :: "p2p_node \<Rightarrow> p2p_node \<Rightarrow> bool" where
  "keeps_bounds n n' \<longleftrightarrow> historical_params n' = historical_params n \<and> (node_bounded n \<longrightarrow> node_bounded n')"

lemma bounds_refl: "keeps_bounds n n"
  by (simp add: keeps_bounds_def)

lemma bounds_trans: "keeps_bounds n m \<Longrightarrow> keeps_bounds m k \<Longrightarrow> keeps_bounds n k"
  by (simp add: keeps_bounds_def)

lemma bounded_tables:
  "(node_bounded n \<Longrightarrow> fcard (fmdom p) \<le> kMiningWorkMaxPending) \<Longrightarrow> keeps_bounds n (n\<lparr>pending_historical := p\<rparr>)"
  "(node_bounded n \<Longrightarrow> fcard (fmdom e) \<le> kMiningWorkMaxReceived) \<Longrightarrow> keeps_bounds n (n\<lparr>historical_evidence_cache := e\<rparr>)"
  "(node_bounded n \<Longrightarrow> fcard (fmdom r) \<le> kMiningWorkMaxReceived) \<Longrightarrow> keeps_bounds n (n\<lparr>retryable_historical := r\<rparr>)"
  "(node_bounded n \<Longrightarrow> fcard (fmdom d) \<le> max_deferred n) \<Longrightarrow> keeps_bounds n (n\<lparr>deferred_historical := d\<rparr>)"
  by (simp_all add: keeps_bounds_def node_bounded_def max_deferred_def)

lemma bounded_expire: "keeps_bounds n (expire_historical_state now n)"
  by (auto simp: keeps_bounds_def node_bounded_def expire_historical_state_def Let_def max_deferred_def
      intro: order_trans [OF fcard_erase_where])

text \<open>A full table drops an entry that it holds before it takes a new one.\<close>

lemma evicted:
  assumes "fcard (fmdom m) \<le> b" "0 < b" "fmdom m \<noteq> {||} \<Longrightarrow> fmlookup m k \<noteq> None"
  shows "fcard (fmdom (fmupd key e (if b \<le> fcard (fmdom m) then fmdrop k m else m))) \<le> b"
proof (cases "b \<le> fcard (fmdom m)")
  case True
  have "fmdom m \<noteq> {||}"
  proof
    assume "fmdom m = {||}"
    with True assms(2) show False by (simp add: fcard_fempty)
  qed
  with assms(3) have "fcard (fmdom (fmdrop k m)) = fcard (fmdom m) - 1" unfolding fcard_fmdrop by auto
  with True assms(1,2) fcard_fmupd_bound [of key e "fmdrop k m"] show ?thesis by simp
next
  case False
  with fcard_fmupd_bound [of key e m] show ?thesis by simp
qed

lemma sorted_list_nonempty: "fmdom m \<noteq> {||} \<Longrightarrow> sorted_list_of_fmap m \<noteq> []"
  by (auto simp: sorted_list_of_fmap_def sorted_list_of_fset.rep_eq fset_eq_iff)

lemma first_listed: "fmdom m \<noteq> {||} \<Longrightarrow> fmlookup m (fst (hd (sorted_list_of_fmap m))) \<noteq> None"
  using list.set_sel(1) [OF sorted_list_nonempty, of m]
    sorted_list_member [of "fst (hd (sorted_list_of_fmap m))" "snd (hd (sorted_list_of_fmap m))" m] by simp

lemma fold_selects: "fold (\<lambda>x y. if P x y then x else y) xs y \<in> insert y (set xs)"
  by (induction xs arbitrary: y) auto

lemma oldest_listed:
  assumes "fmdom m \<noteq> {||}"
  shows "fmlookup m (oldest_retryable m) \<noteq> None"
proof -
  let ?items = "sorted_list_of_fmap m"
  let ?o = "fold (\<lambda>item oldest. if rc_started (snd item) < rc_started (snd oldest) then item else oldest) ?items (hd ?items)"
  have "?o \<in> insert (hd ?items) (set ?items)" by (rule fold_selects)
  with sorted_list_nonempty [OF assms] have "?o \<in> set ?items" by auto
  then show ?thesis
    using sorted_list_member [of "fst ?o" "snd ?o" m] by (simp add: oldest_retryable_def Let_def)
qed

lemma bounded_evidence: "keeps_bounds n (remember_historical_evidence key evidence now n)"
proof -
  define m where "m = expire_historical_state now n"
  have full: "fcard (fmdom (fmupd key e (if kMiningWorkMaxReceived \<le> fcard (fmdom (historical_evidence_cache m))
      then fmdrop (fst (hd (sorted_list_of_fmap (historical_evidence_cache m)))) (historical_evidence_cache m)
      else historical_evidence_cache m))) \<le> kMiningWorkMaxReceived" if "node_bounded m" for e
    by (rule evicted [OF _ _ first_listed]) (use that in \<open>simp_all add: node_bounded_def kMiningWorkMaxReceived_def\<close>)
  have "keeps_bounds m (remember_historical_evidence key evidence now n)"
  proof (cases "fmlookup (historical_evidence_cache m) key")
    case None
    then show ?thesis
      using full unfolding remember_historical_evidence_def Let_def m_def [symmetric] by (auto intro: bounded_tables)
  next
    case (Some e)
    then show ?thesis
      using fcard_fmupd_present [of "historical_evidence_cache m" key] unfolding remember_historical_evidence_def Let_def m_def [symmetric]
      by (auto simp: node_bounded_def intro!: bounded_tables)
  qed
  with bounds_trans [OF bounded_expire] show ?thesis by (simp add: m_def)
qed

lemma bounded_retryable: "keeps_bounds n (snd (remember_retryable_historical s peer cap now n))"
proof -
  define m where "m = expire_historical_state now n"
  let ?r = "retryable_historical m"
  have dropped: "fcard (fmdom (fmupd i c (fmdrop (oldest_retryable ?r) ?r))) \<le> kMiningWorkMaxReceived"
    if "node_bounded m" "kMiningWorkMaxReceived \<le> fcard (fmdom ?r)" for i c
    using evicted [OF _ _ oldest_listed, of ?r kMiningWorkMaxReceived i c] that
    by (simp only: node_bounded_def if_True) (simp add: kMiningWorkMaxReceived_def)
  have kept: "fcard (fmdom (fmupd i c ?r)) \<le> kMiningWorkMaxReceived"
    if "node_bounded m" "fmlookup ?r i \<noteq> None \<or> \<not> kMiningWorkMaxReceived \<le> fcard (fmdom ?r)" for i c
    using that fcard_fmupd_present [of ?r i c] fcard_fmupd_bound [of i c ?r]
    by (auto simp: node_bounded_def simp del: fmdom_fmupd)
  have "keeps_bounds m (snd (remember_retryable_historical s peer cap now n))"
    using dropped kept unfolding remember_retryable_historical_def
    by (auto simp: bindS_def modifyS_def liftS_def m_def [symmetric] bounds_refl Let_def simp del: fmdom_fmupd
        split: sum.split intro!: bounded_tables)
  with bounds_trans [OF bounded_expire] show ?thesis by (simp add: m_def)
qed

lemma bounded_pending: "keeps_bounds n (remember_pending_historical peer s cap now n)"
proof -
  define m where "m = expire_historical_state now n"
  have "fcard (fmdom (fmupd (hs_node_id peer, work_key_of s) c (pending_historical m))) \<le> kMiningWorkMaxPending"
    if "\<not> kMiningWorkMaxPending \<le> fcard (fmdom (pending_historical m))" for c
    using that fcard_fmupd_bound [of "(hs_node_id peer, work_key_of s)" c "pending_historical m"] by linarith
  then have "keeps_bounds m (remember_pending_historical peer s cap now n)"
    unfolding remember_pending_historical_def Let_def m_def [symmetric]
    by (auto simp: bounds_refl try_emplace_def simp del: fmdom_fmupd split: option.split intro!: bounded_tables)
  with bounds_trans [OF bounded_expire] show ?thesis by (simp add: m_def)
qed

lemma bounded_deferred: "keeps_bounds n (snd (remember_deferred_historical s peer evidence cap now n))"
proof -
  define m where "m = expire_historical_state now n"
  let ?d = "deferred_historical m"
  have one: "fcard (fmdom (fmupd i d t)) \<le> max_deferred m"
    if "node_bounded m" "historical_params m = Some params" "fmdom t = fmdom ?d"
      "fmlookup ?d i \<noteq> None \<or> \<not> unat (difficulty_window_shares params) \<le> fcard (fmdom ?d)" for i d params and t :: "(share_id, deferred_historical_candidate) fmap"
  proof -
    have "fcard (fmdom (fmupd i d ?d)) \<le> max_deferred m"
      using that fcard_fmupd_bound [of i d ?d] fcard_fmupd_present [of ?d i d]
      by (auto simp: node_bounded_def max_deferred_def not_le simp del: fmdom_fmupd)
    with that(3) show ?thesis by simp
  qed
  have "keeps_bounds m (snd (remember_deferred_historical s peer evidence cap now n))"
    using one unfolding remember_deferred_historical_def
    by (auto simp: bindS_def modifyS_def liftS_def getsS_def returnS_def m_def [symmetric] bounds_refl Let_def
        simp del: fmdom_fmupd split: sum.split option.split intro!: bounded_tables)
  with bounds_trans [OF bounded_expire] show ?thesis by (simp add: m_def)
qed

lemma bounded_ledger: "keeps_bounds n (n\<lparr>nd_chain := c, nd_trusted_work := reg, nd_queries := k\<rparr>)"
  by (simp add: keeps_bounds_def node_bounded_def max_deferred_def)

lemma bounded_unrelated:
  "keeps_bounds n (reset_expected_payout n)" "keeps_bounds n (n\<lparr>nd_work_retrieval := w\<rparr>)"
  "keeps_bounds n (n\<lparr>active_deferred_recovery_root := roots\<rparr>)" "keeps_bounds n (n\<lparr>replay_frontier_attempts := attempts\<rparr>)"
  "keeps_bounds n (n\<lparr>nd_outbox := out\<rparr>)"
  by (simp_all add: keeps_bounds_def node_bounded_def max_deferred_def reset_expected_payout_def)

lemma bounded_erased:
  "keeps_bounds n (erase_retryable i n)" "keeps_bounds n (take_deferred i n)" "keeps_bounds n (erase_pending peer_id key n)"
  "keeps_bounds n (n\<lparr>historical_evidence_cache := fmdrop work (historical_evidence_cache n)\<rparr>)"
  unfolding erase_retryable_def take_deferred_def erase_pending_def
  by (rule bounded_tables, unfold fcard_fmdrop node_bounded_def, linarith)+

lemma bounds_order: "state_order keeps_bounds"
  by unfold_locales (fact bounds_refl bounds_trans)+

interpretation bounded: node_protocol keeps_bounds env for env :: "('p, 's) node_env"
  by unfold_locales
    (simp_all add: state_order.within_def [OF bounds_order] ledger_ops [where P = "keeps_bounds n" for n, OF bounded_ledger]
      bounds_refl bounds_trans bounded_expire bounded_evidence bounded_retryable bounded_pending bounded_deferred
      bounded_unrelated bounded_erased, (rule bounds_trans, assumption+)?)


section \<open>What the transport is told\<close>

lemma outbox_order: "state_order (\<lambda>n n'. nd_outbox n' = nd_outbox n)"
  by unfold_locales simp_all

lemma keeps_outbox:
  "nd_outbox (expire_historical_state now n) = nd_outbox n"
  "nd_outbox (remember_historical_evidence key evidence now n) = nd_outbox n"
  "nd_outbox (snd (remember_retryable_historical s peer cap now n)) = nd_outbox n"
  "nd_outbox (snd (remember_deferred_historical s peer evidence cap now n)) = nd_outbox n"
  "nd_outbox (remember_pending_historical peer s cap now n) = nd_outbox n"
  "nd_outbox (erase_retryable i n) = nd_outbox n" "nd_outbox (reset_expected_payout n) = nd_outbox n"
  "nd_outbox (take_deferred i n) = nd_outbox n" "nd_outbox (erase_pending peer_id key' n) = nd_outbox n"
  by (simp_all add: expire_historical_state_def remember_historical_evidence_def remember_retryable_historical_def
      remember_deferred_historical_def remember_pending_historical_def erase_retryable_def reset_expected_payout_def
      take_deferred_def erase_pending_def bindS_def modifyS_def liftS_def getsS_def returnS_def Let_def
      split: option.split sum.split prod.split)

interpretation silent: node_messages "\<lambda>n n'. nd_outbox n' = nd_outbox n" env for env :: "('p, 's) node_env"
  by unfold_locales
    (simp_all add: state_order.within_def [OF outbox_order] keeps_outbox
      ledger_ops [where P = "\<lambda>n'. nd_outbox n' = nd_outbox n" for n])

lemma penalty_ignores [simp]:
  "p2p_node_message_penalty (m\<lparr>mr_sent_followup := b\<rparr>) = p2p_node_message_penalty m"
  "p2p_node_message_penalty (m\<lparr>mr_relayed_share := b\<rparr>) = p2p_node_message_penalty m"
  "p2p_node_message_penalty (m\<lparr>mr_relayed_tip := b\<rparr>) = p2p_node_message_penalty m"
  by (simp_all add: p2p_node_message_penalty_def)

definition listed :: "'a option \<Rightarrow> 'a list" where
  "listed x = (case x of None \<Rightarrow> [] | Some y \<Rightarrow> [y])"

lemma tell_all_run:
  "tell_all act note x st = (Ok (), st\<lparr>ps_node := (ps_node st)\<lparr>nd_outbox := nd_outbox (ps_node st) @ map act (listed x)\<rparr>,
    ps_result := (case x of None \<Rightarrow> ps_result st | Some e \<Rightarrow> note e (ps_result st))\<rparr>)"
  by (cases x) (simp_all add: tell_all_def tell_def listed_def returnS_def bindS_def upd_node_def upd_result_def modifyS_def)

lemma send_results_run:
  "\<exists>st'. send_results env peer st = (Ok (), st') \<and>
    nd_outbox (ps_node st') = nd_outbox (ps_node st) @
      (if p2p_node_message_penalty (ps_result st) = 0 then []
       else [Report_misbehavior (hs_node_id peer) (p2p_node_message_penalty (ps_result st))]) @
      map (Send_to (ps_followup_peer st)) (listed (ps_followup st)) @
      map (Send_to (hs_node_id peer)) (listed (ps_fresh_tip_followup st)) @
      map (Broadcast_except (hs_node_id peer)) (listed (ps_relay_share st) @ listed (ps_relay_tip st)) \<and>
    p2p_node_message_penalty (ps_result st') = p2p_node_message_penalty (ps_result st) \<and>
    (\<forall>e. ps_followup st = Some e \<longrightarrow> mr_sent_followup (ps_result st') = ne_send env (ps_followup_peer st) e) \<and>
    (ps_relay_share st \<noteq> None \<longrightarrow> mr_relayed_share (ps_result st')) \<and>
    (ps_relay_tip st \<noteq> None \<longrightarrow> mr_relayed_tip (ps_result st'))"
  by (cases "p2p_node_message_penalty (ps_result st) = 0")
    (simp_all add: send_results_def getsS_def bindS_def returnS_def tell_all_run tell_def upd_node_def modifyS_def Let_def
      split: option.split)

text \<open>C12. The node tells the transport nothing before a message is completely handled. If the handling throws,
  no envelope was sent and no peer was reported, although the node's tables may have changed. If it returns,
  what is sent is, in this order: a report with exactly the penalty of the result, if there is one; at most
  one followup; at most one fresh tip, to the sender; then at most one share and at most one tip, to
  everyone but the sender, and the result says that they were relayed.\<close>

theorem handle_output:
  assumes "handle env peer envelope now mode n = (r, n')"
  shows "case r of
      Inl e \<Rightarrow> nd_outbox n' = nd_outbox n
    | Inr m \<Rightarrow> \<exists>followup followup_peer fresh_tip relay_share relay_tip.
        nd_outbox n' = nd_outbox n @
          (if p2p_node_message_penalty m = 0 then []
           else [Report_misbehavior (hs_node_id peer) (p2p_node_message_penalty m)]) @
          map (Send_to followup_peer) followup @ map (Send_to (hs_node_id peer)) fresh_tip @
          map (Broadcast_except (hs_node_id peer)) (relay_share @ relay_tip) \<and>
        length followup \<le> 1 \<and> length fresh_tip \<le> 1 \<and> length relay_share \<le> 1 \<and> length relay_tip \<le> 1 \<and>
        (followup \<noteq> [] \<longrightarrow> mr_sent_followup m = ne_send env followup_peer (hd followup)) \<and>
        (relay_share \<noteq> [] \<longrightarrow> mr_relayed_share m) \<and> (relay_tip \<noteq> [] \<longrightarrow> mr_relayed_tip m)"
proof -
  let ?m = "bindS (handle_message env peer envelope now mode) (\<lambda>_. schedule_replay env peer now mode)"
  obtain x st where x: "?m (start_pass peer n) = (x, st)" by force
  have "silent.pass.within ?m" by (rule silent.message_rules silent.message_within silent.schedule_within)+
  from silent.pass.withinD [OF this x] have out: "nd_outbox (ps_node st) = nd_outbox n" by (simp add: start_pass_def)
  have run: "handle_pass env peer envelope now mode (start_pass peer n) =
    (case x of Inl e \<Rightarrow> (Throw e, st) | Inr _ \<Rightarrow> send_results env peer st)"
    using x by (auto simp: handle_pass_def bindS_def split: prod.splits sum.splits)
  show ?thesis
  proof (cases x)
    case (Inl e)
    with run out assms show ?thesis by (auto simp: handle_def)
  next
    case (Inr u)
    obtain st' where st': "send_results env peer st = (Ok (), st')"
      "nd_outbox (ps_node st') = nd_outbox (ps_node st) @
        (if p2p_node_message_penalty (ps_result st) = 0 then []
         else [Report_misbehavior (hs_node_id peer) (p2p_node_message_penalty (ps_result st))]) @
        map (Send_to (ps_followup_peer st)) (listed (ps_followup st)) @
        map (Send_to (hs_node_id peer)) (listed (ps_fresh_tip_followup st)) @
        map (Broadcast_except (hs_node_id peer)) (listed (ps_relay_share st) @ listed (ps_relay_tip st))"
      "p2p_node_message_penalty (ps_result st') = p2p_node_message_penalty (ps_result st)"
      "\<forall>e. ps_followup st = Some e \<longrightarrow> mr_sent_followup (ps_result st') = ne_send env (ps_followup_peer st) e"
      "ps_relay_share st \<noteq> None \<longrightarrow> mr_relayed_share (ps_result st')" "ps_relay_tip st \<noteq> None \<longrightarrow> mr_relayed_tip (ps_result st')"
      using send_results_run [of env peer st] by blast
    from run Inr st'(1) assms have "r = Ok (ps_result st')" "n' = ps_node st'" by (auto simp: handle_def)
    then show ?thesis
      using st'(2-) out
      by (simp, intro exI [of _ "listed (ps_followup st)"] exI [of _ "ps_followup_peer st"]
          exI [of _ "listed (ps_fresh_tip_followup st)"] exI [of _ "listed (ps_relay_share st)"]
          exI [of _ "listed (ps_relay_tip st)"]) (auto simp: listed_def split: option.splits)
  qed
qed

subsection \<open>A small node\<close>

definition sample_env :: "(unit, unit) node_env" where
  "sample_env = \<lparr>ne_crypto = sample_crypto, ne_tokener = sample_tok, ne_backend = Some zero_hash_backend,
    ne_archive = \<lparr>archive_directory = ''work'', archive_sidechain_id = array_of_nat 1\<rparr>, ne_directory = sample_directory,
    ne_load_observations = (\<lambda>k p. Ok [sample_anchor]), ne_parent_lookup = sample_lookup,
    ne_pow_lookup = (\<lambda>k height. Throw (Runtime_error ''daemon is down'')), ne_send = (\<lambda>i e. True)\<rparr>"

definition sample_node :: p2p_node where
  "sample_node = (make_p2p_node sample_chain fmempty)\<lparr>historical_params := Some (canonical_sidechain_parameters Testnet)\<rparr>"

definition sample_message :: "p2p_message_type \<Rightarrow> p2p_envelope" where
  "sample_message t = \<lparr>env_version = 1, env_type = t, env_flags = 0, env_payload = []\<rparr>"


theorem handle_output_witness:
  "\<exists>m n' sent. handle sample_env sample_context_peer (sample_message Handshake) 9 Light sample_node = (Ok m, n') \<and>
    nd_outbox n' = Report_misbehavior 0 25 # sent"
proof -
  let ?st = "(start_pass sample_context_peer sample_node)\<lparr>ps_result := default_message_result\<lparr>mr_status := UnexpectedHandshake\<rparr>\<rparr>"
  obtain st where st: "send_results sample_env sample_context_peer ?st = (Ok (), st)"
    "p2p_node_message_penalty (ps_result st) = p2p_node_message_penalty (ps_result ?st)"
    using send_results_run [of sample_env sample_context_peer ?st] by blast
  have h: "handle sample_env sample_context_peer (sample_message Handshake) 9 Light sample_node = (Ok (ps_result st), ps_node st)"
    using st(1)
    by (simp add: handle_def handle_pass_def handle_message_def sample_message_def upd_result_def modifyS_def bindS_def
        schedule_replay_def getsS_def returnS_def start_pass_def sample_node_def make_p2p_node_def)
  have "p2p_node_message_penalty (ps_result st) = 25"
    unfolding st(2) by (simp add: p2p_node_message_penalty_def kP2pProtocolViolationPenalty_def)
  with handle_output [OF h] h show ?thesis by (auto simp: sample_node_def make_p2p_node_def sample_context_peer_def)
qed

end
