(* ===== verification/Node_Trust.thy ===== *)
theory Node_Trust
  imports Node_Bounds P2p_Trust
begin

text \<open>
  What the messages of peers can change of a node's trust. A third instance of the protocol locales: the
  registry only grows, every entry that it gains is justified by work that the node verified itself, and
  every share that the chain gains was mined on work of the registry.
\<close>

section \<open>Justified trust\<close>

definition node_ok :: "('p, 's) node_env \<Rightarrow> p2p_node \<Rightarrow> bool" where
  "node_ok env n \<longleftrightarrow> chain_reachable False (ne_backend env) (nd_chain n) \<and> registry_inv (nd_trusted_work n)"

text \<open>Work that a peer announced: it matches the block the node's own daemon works on, and pays what the node
  expects for the parent share it mines on.\<close>

definition announced_work ::
  "('p, 's) node_env \<Rightarrow> p2p_node \<Rightarrow> u64 \<times> hash256 \<times> share_id \<Rightarrow> registry_entry \<Rightarrow> bool"
where
  "announced_work env n key entry \<longleftrightarrow> (\<exists>anchor parent p work.
    local_mining_anchor n = Some anchor \<and> expected_payout_parent_id n = Some parent \<and> anchor_matches p anchor \<and>
    derive_mining_header_work (pr_block_template_blob p) = Ok work \<and>
    key = (anchor_zano_height anchor, header_hash work, parent) \<and>
    (case expected_payout_plan n of
       Some plan \<Rightarrow> pays_plan (ne_crypto env) (ne_tokener env) plan p work
     | None \<Rightarrow> \<exists>address. expected_payout n = Some address \<and>
         pays_address (ne_crypto env) (ne_tokener env) address p work) \<and>
    entry = \<lparr>entry_context = \<lparr>ctx_zano_height = anchor_zano_height anchor, ctx_mining_header_hash = header_hash work,
        ctx_network_difficulty = anchor_network_difficulty anchor\<rparr>,
      entry_zano_parent_hash = Some (anchor_prev_hash anchor)\<rparr>)"

text \<open>Old work for one share: the daemon confirmed it twice, with observations the node loaded itself, and it
  pays the plan that a chain of this node gave for the share's parent.\<close>

definition recovered_work ::
  "('p, 's) node_env \<Rightarrow> u64 \<times> hash256 \<times> share_id \<Rightarrow> registry_entry \<Rightarrow> bool"
where
  "recovered_work env key entry \<longleftrightarrow> (\<exists>params chain s p work obs k0 k1 k2.
    chain_reachable False (ne_backend env) chain \<and>
    key = (zano_height s, mining_header_hash s, parent_id s) \<and>
    derive_mining_header_work (pr_block_template_blob p) = Ok work \<and> header_hash work = mining_header_hash s \<and>
    ne_load_observations env k0 p = Ok obs \<and>
    anchored_locally (ne_parent_lookup env) (Some (ne_pow_lookup env)) obs p k1 \<and> k1 < k2 \<and>
    anchored_locally (ne_parent_lookup env) (Some (ne_pow_lookup env)) obs p k2 \<and>
    pays_for_candidate (ne_crypto env) (ne_tokener env) chain params s p work \<and>
    entry = \<lparr>entry_context = fst (mined_on s), entry_zano_parent_hash = Some (pr_prev_hash p)\<rparr>)"

definition expectation_kept :: "p2p_node \<Rightarrow> p2p_node \<Rightarrow> bool" where
  "expectation_kept n n' \<longleftrightarrow>
    local_mining_anchor n' = local_mining_anchor n \<and> historical_params n' = historical_params n \<and>
    (expected_payout_parent_id n' = None \<or>
     expected_payout_parent_id n' = expected_payout_parent_id n \<and> expected_payout_plan n' = expected_payout_plan n \<and>
     expected_payout n' = expected_payout n)"

definition crossing :: "('p, 's) node_env \<Rightarrow> p2p_node \<Rightarrow> p2p_node \<Rightarrow> bool" where
  "crossing env n n' \<longleftrightarrow> (node_ok env n \<longrightarrow>
    node_ok env n' \<and> expectation_kept n n' \<and>
    (\<forall>h hdr p ctx. registry_find (nd_trusted_work n) h hdr p = Some ctx \<longrightarrow>
      registry_find (nd_trusted_work n') h hdr p = Some ctx) \<and>
    (\<forall>key e. fmlookup (nd_trusted_work n') key = Some e \<longrightarrow>
      fmlookup (nd_trusted_work n) key = Some e \<or> announced_work env n key e \<or> recovered_work env key e) \<and>
    (\<forall>s. held (nd_chain n') s \<longrightarrow> held (nd_chain n) s \<or>
      registry_find (nd_trusted_work n') (zano_height s) (mining_header_hash s) (parent_id s) = Some (fst (mined_on s))))"

lemma announced_earlier: "expectation_kept n n' \<Longrightarrow> announced_work env n' key e \<Longrightarrow> announced_work env n key e"
  unfolding expectation_kept_def announced_work_def by (cases "expected_payout_parent_id n'") (simp_all cong: option.case_cong)

lemma crossing_order: "state_order (crossing env)"
proof
  show "crossing env n n" for n by (simp add: crossing_def expectation_kept_def)
next
  fix n m k assume step: "crossing env n m" "crossing env m k"
  have kept: "expectation_kept n m \<Longrightarrow> expectation_kept m k \<Longrightarrow> expectation_kept n k"
    by (auto simp: expectation_kept_def)
  from step show "crossing env n k"
    unfolding crossing_def by (meson kept announced_earlier)
qed

section \<open>The changes\<close>

lemma crossing_same:
  assumes "nd_chain n' = nd_chain n" "nd_trusted_work n' = nd_trusted_work n" "expectation_kept n n'"
  shows "crossing env n n'"
  using assms by (simp add: crossing_def node_ok_def)

lemma crossing_chain:
  assumes "node_ok env n \<Longrightarrow> chain_reachable False (ne_backend env) c"
    and "\<And>s. node_ok env n \<Longrightarrow> held c s \<Longrightarrow> held (nd_chain n) s \<or>
      (\<exists>ctx. registry_find (nd_trusted_work n) (zano_height s) (mining_header_hash s) (parent_id s) = Some ctx \<and>
        mined_on s = (ctx, parent_id s))"
  shows "crossing env n (n\<lparr>nd_chain := c\<rparr>)"
  using assms by (fastforce simp: crossing_def node_ok_def expectation_kept_def)

lemma crossing_prune: "crossing env n (snd (node_prune i n))"
proof (cases "prune_connected_subtree_ids (nd_chain n) i")
  case (Some cr)
  obtain c r where c: "cr = (c, r)" by force
  with Some have prune: "node_prune i n = (r, n\<lparr>nd_chain := c\<rparr>)" by (simp add: node_prune_def)
  have "crossing env n (n\<lparr>nd_chain := c\<rparr>)"
  proof (rule crossing_chain)
    assume ok: "node_ok env n"
    then show "chain_reachable False (ne_backend env) c"
      using node_prune_reachable [OF _ prune] by (simp add: node_ok_def)
    fix s assume "held c s"
    with prune_held [OF chain.reach_inv, of False "ne_backend env" "nd_chain n" i c r s] ok Some c
    show "held (nd_chain n) s \<or> (\<exists>ctx. registry_find (nd_trusted_work n) (zano_height s) (mining_header_hash s) (parent_id s) =
        Some ctx \<and> mined_on s = (ctx, parent_id s))"
      by (simp add: node_ok_def)
  qed
  with prune show ?thesis by simp
qed (simp add: node_prune_def crossing_same expectation_kept_def)

lemma revalidate_held:
  assumes "revalidate_connected_share backend c i ctx now mode = (c', r)" "held c' s"
  shows "held c s"
  using assms(1)
proof (cases rule: revalidate_cases)
  case (validates cs v)
  with assms(2) show ?thesis by (auto simp: held_def mark_validated_def split: if_splits)
qed (use assms(2) in auto)

lemma crossing_revalidate: "crossing env n (snd (node_revalidate env i ctx now mode n))"
proof -
  obtain c r where c: "revalidate_connected_share (ne_backend env) (nd_chain n) i ctx now mode = (c, r)" by force
  have "crossing env n (n\<lparr>nd_chain := c\<rparr>)"
    using chain_step.revalidate [OF c, of False] revalidate_held [OF c]
    by (intro crossing_chain) (auto simp: node_ok_def returned_def intro: reach_step)
  with c show ?thesis by (simp add: node_revalidate_def)
qed

lemma crossing_received:
  assumes "receive_share (ne_backend env) (nd_chain n) (nd_trusted_work n) peer s cap now mode = (c, r)"
  shows "crossing env n (n\<lparr>nd_chain := c\<rparr>)"
proof (rule crossing_chain)
  assume ok: "node_ok env n"
  then show "chain_reachable False (ne_backend env) c"
    using receive_share_reachable [OF _ assms] by (simp add: node_ok_def)
  show "held (nd_chain n) t \<or> (\<exists>ctx. registry_find (nd_trusted_work n) (zano_height t) (mining_header_hash t) (parent_id t) =
      Some ctx \<and> mined_on t = (ctx, parent_id t))" if "held c t" for t
    using receive_share_held [OF _ _ assms that] ok by (simp add: node_ok_def)
qed

lemma crossing_refl: "crossing env n n"
  by (rule crossing_same) (simp_all add: expectation_kept_def)

lemma crossing_receive:
  "crossing env n (snd (node_receive_share env peer s cap now mode n))"
  "crossing env n (snd (node_receive env peer envelope now mode n))"
  "crossing env n (snd (node_receive_response env peer envelope now mode n))"
proof -
  show "crossing env n (snd (node_receive_share env peer s cap now mode n))"
    using crossing_received [of env n peer s cap now mode] by (simp add: node_receive_share_def split: prod.split)
  show "crossing env n (snd (node_receive env peer envelope now mode n))"
    using crossing_received [of env n peer _ kP2pCapabilityShareGossip now mode]
    by (auto simp: node_receive_def receive_def crossing_refl split: prod.split sum.split)
  obtain c r where c: "receive_p2p_share_response (ne_backend env) (nd_chain n) (nd_trusted_work n) peer envelope now mode = (c, r)"
    by force
  from receive_response_share [OF c, of False] show "crossing env n (snd (node_receive_response env peer envelope now mode n))"
    using c crossing_received [of env n peer _ kP2pCapabilityShareSync now mode]
    by (auto simp: node_receive_response_def returned_def crossing_refl)
qed

section \<open>Promotions\<close>

lemma remember_keeps:
  assumes "registry_inv reg" "remember_with_provenance reg ctx parent prev = Ok reg'" "registry_find reg h hdr p = Some c"
  shows "registry_find reg' h hdr p = Some c"
  using disjI1 [OF assms(2), of "remember_at_parent reg ctx parent = Ok reg'"]
proof (cases rule: remember_cases)
  case (known e q)
  with assms(3) show ?thesis by (auto simp: registry_find_def split: option.splits if_splits)
next
  case (fresh q)
  with assms(3) show ?thesis by (auto simp: registry_find_def split: option.splits if_splits)
qed

definition remembered :: "registry \<Rightarrow> registry \<Rightarrow> bool" where
  "remembered reg reg' \<longleftrightarrow> reg' = reg \<or> (\<exists>ctx parent prev. remember_with_provenance reg ctx parent prev = Ok reg')"

lemma promote_impl_remembers:
  "promote_p2p_mining_context_impl tok reg peer envelope anchor parent verify = Ok (reg', r) \<Longrightarrow> remembered reg reg'"
  by (auto simp: promote_p2p_mining_context_impl_def remembered_def bindE_eq_Ok Let_def split: if_splits)

lemma promote_anchored_remembers:
  "promote_anchored crv tok reg peer p s plan = Ok (reg', r) \<Longrightarrow> remembered reg reg'"
  by (auto simp: promote_anchored_def bindE_eq_Ok Let_def promote_bootstrap_p2p_mining_context_def
      promote_p2p_mining_context_plan_at_parent_def intro: promote_impl_remembers split: if_splits)

lemma promote_historical_remembers:
  "promote_historical_mining_context crv tok lookup plk reg chain params s peer p obs k = (Ok (reg', r), k') \<Longrightarrow>
    remembered reg reg'"
  by (auto simp: promote_historical_mining_context_def bindS_eq_Ok Let_def remembered_def
      dest: promote_anchored_remembers [unfolded remembered_def] split: sum.splits exn.splits if_splits)

lemma crossing_registry:
  assumes "remembered (nd_trusted_work n) reg"
    and "node_ok env n \<Longrightarrow> reg = nd_trusted_work n \<or>
      (\<exists>key entry. fmlookup reg = (fmlookup (nd_trusted_work n))(key \<mapsto> entry) \<and>
        (announced_work env n key entry \<or> recovered_work env key entry))"
  shows "crossing env n (n\<lparr>nd_trusted_work := reg, nd_queries := k\<rparr>)"
proof (cases "node_ok env n")
  case True
  then have inv: "registry_inv (nd_trusted_work n)" by (simp add: node_ok_def)
  have inv': "registry_inv reg"
    using assms(1) remember_inv [OF inv, OF disjI1] inv by (auto simp: remembered_def)
  have kept: "registry_find reg h hdr p = Some c" if "registry_find (nd_trusted_work n) h hdr p = Some c" for h hdr p c
    using assms(1) remember_keeps [OF inv _ that] that by (auto simp: remembered_def)
  from assms(2) [OF True] True inv' kept show ?thesis
    unfolding crossing_def by (auto simp: node_ok_def expectation_kept_def split: if_splits)
qed (simp add: crossing_def)

lemma crossing_promote:
  assumes "ne_load_observations env k0 (ev_proposal evidence) = Ok obs"
  shows "crossing env n (snd (node_promote env params s evidence obs n))"
proof -
  let ?p = "ev_proposal evidence" and ?crv = "ne_crypto env" and ?tok = "ne_tokener env"
  let ?lookup = "ne_parent_lookup env" and ?plk = "Some (ne_pow_lookup env)"
  obtain x k where run: "promote_historical_mining_context ?crv ?tok ?lookup ?plk (nd_trusted_work n) (nd_chain n) params s
    (ev_source_peer evidence) ?p obs (nd_queries n) = (x, k)" by force
  show ?thesis
  proof (cases x)
    case (Inl e)
    with run show ?thesis by (auto simp: node_promote_def expectation_kept_def intro!: crossing_same)
  next
    case (Inr y)
    obtain reg r where y: "y = (reg, r)" by force
    have "crossing env n (n\<lparr>nd_trusted_work := reg, nd_queries := k\<rparr>)"
    proof (rule crossing_registry)
      note run' = run [unfolded Inr y]
      show "remembered (nd_trusted_work n) reg" using run' by (rule promote_historical_remembers)
      assume ok: "node_ok env n"
      then have inv: "registry_inv (nd_trusted_work n)" by (simp add: node_ok_def)
      show "reg = nd_trusted_work n \<or> (\<exists>key entry. fmlookup reg = (fmlookup (nd_trusted_work n))(key \<mapsto> entry) \<and>
        (announced_work env n key entry \<or> recovered_work env key entry))"
      proof (cases "ht_status r = Historical_trusted")
        case False
        from promote_historical_not_trusted [OF run' False] show ?thesis by simp
      next
        case True
        from promote_historical_trusted [OF inv run' True] ok assms
        have "\<exists>prev. fmlookup reg = (fmlookup (nd_trusted_work n))((zano_height s, mining_header_hash s, parent_id s) \<mapsto>
            \<lparr>entry_context = fst (mined_on s), entry_zano_parent_hash = Some prev\<rparr>) \<and>
          recovered_work env (zano_height s, mining_header_hash s, parent_id s)
            \<lparr>entry_context = fst (mined_on s), entry_zano_parent_hash = Some prev\<rparr>"
          unfolding recovered_work_def node_ok_def by (intro exI [of _ "pr_prev_hash ?p"]) (fastforce simp: mined_on_def)
        then show ?thesis by blast
      qed
    qed
    with run Inr y show ?thesis by (simp add: node_promote_def update_order)
  qed
qed

lemma promoted_at_anchor:
  assumes "promote_p2p_mining_context_impl tok reg peer envelope anchor parent verify = Ok (reg', r)"
    and "context_verifier tok verify pays" "registry_inv reg"
  shows "reg' = reg \<or> (\<exists>p work. anchor_matches p anchor \<and> derive_mining_header_work (pr_block_template_blob p) = Ok work \<and>
    pays p work \<and> fmlookup reg' = (fmlookup reg)((anchor_zano_height anchor, header_hash work, parent) \<mapsto>
      \<lparr>entry_context = \<lparr>ctx_zano_height = anchor_zano_height anchor, ctx_mining_header_hash = header_hash work,
          ctx_network_difficulty = anchor_network_difficulty anchor\<rparr>,
        entry_zano_parent_hash = Some (anchor_prev_hash anchor)\<rparr>))"
proof (cases "trust_status r = Trusted")
  case True
  from context_verifier.promoted [OF assms(2,1) True] obtain p work where w: "anchor_matches p anchor"
    "derive_mining_header_work (pr_block_template_blob p) = Ok work" "pays p work"
    "trusted_context r = \<lparr>ctx_zano_height = anchor_zano_height anchor, ctx_mining_header_hash = header_hash work,
      ctx_network_difficulty = anchor_network_difficulty anchor\<rparr>"
    "remember_with_provenance reg (trusted_context r) parent (anchor_prev_hash anchor) = Ok reg'" by blast
  from remember_exact [OF assms(3) w(5)] w(1-4) show ?thesis by auto
next
  case False
  with context_verifier.not_promoted [OF assms(2,1)] show ?thesis by simp
qed

lemma crossing_promote_context:
  assumes "local_mining_anchor n = Some anchor" "expected_payout_parent_id n = Some parent"
  shows "crossing env n (snd (node_promote_context env peer envelope anchor parent (expected_payout_plan n) (expected_payout n) n))"
proof -
  have promoted: "crossing env n (n\<lparr>nd_trusted_work := reg\<rparr>)"
    if run: "promote_p2p_mining_context_impl (ne_tokener env) (nd_trusted_work n) peer envelope anchor parent verify = Ok (reg, r)"
      and v: "context_verifier (ne_tokener env) verify pays"
      and pays: "\<And>p work. pays p work \<Longrightarrow> (case expected_payout_plan n of
        Some plan \<Rightarrow> pays_plan (ne_crypto env) (ne_tokener env) plan p work
      | None \<Rightarrow> \<exists>address. expected_payout n = Some address \<and> pays_address (ne_crypto env) (ne_tokener env) address p work)"
    for verify pays reg r
  proof -
    have "crossing env n (n\<lparr>nd_trusted_work := reg, nd_queries := nd_queries n\<rparr>)"
    proof (rule crossing_registry [OF promote_impl_remembers [OF run]])
      assume "node_ok env n"
      then have inv: "registry_inv (nd_trusted_work n)" by (simp add: node_ok_def)
      from promoted_at_anchor [OF run v inv] assms pays
      show "reg = nd_trusted_work n \<or> (\<exists>key entry. fmlookup reg = (fmlookup (nd_trusted_work n))(key \<mapsto> entry) \<and>
        (announced_work env n key entry \<or> recovered_work env key entry))"
        unfolding announced_work_def by blast
    qed
    then show ?thesis by simp
  qed
  show ?thesis
  proof (cases "expected_payout_plan n")
    case (Some plan)
    show ?thesis
      using promoted [OF _ plan_verifier.context_verifier_axioms] Some
      by (auto simp: node_promote_context_def promote_p2p_mining_context_plan_at_parent_def crossing_refl Let_def
          split: sum.split prod.split)
  next
    case None
    show ?thesis
    proof (cases "expected_payout n")
      case addr: (Some a)
      show ?thesis
        using promoted [OF _ address_verifier.context_verifier_axioms] None addr
        by (auto simp: node_promote_context_def promote_p2p_mining_context_at_parent_def crossing_refl Let_def
            split: sum.split prod.split)
    qed (simp add: None node_promote_context_def crossing_refl)
  qed
qed

section \<open>The handler and the periodic operations\<close>

lemma crossing_tables:
  "crossing env n (expire_historical_state now n)"
  "crossing env n (remember_historical_evidence key evidence now n)"
  "crossing env n (snd (remember_retryable_historical s peer cap now n))"
  "crossing env n (snd (remember_deferred_historical s peer evidence cap now n))"
  "crossing env n (remember_pending_historical peer s cap now n)"
  "crossing env n (erase_retryable i n)" "crossing env n (take_deferred i n)" "crossing env n (erase_pending peer_id key n)"
  "crossing env n (n\<lparr>historical_evidence_cache := cache\<rparr>)" "crossing env n (n\<lparr>nd_work_retrieval := w\<rparr>)"
  "crossing env n (n\<lparr>active_deferred_recovery_root := roots\<rparr>)" "crossing env n (n\<lparr>replay_frontier_attempts := attempts\<rparr>)"
  "crossing env n (n\<lparr>nd_outbox := out\<rparr>)" "crossing env n (n\<lparr>nd_queries := k\<rparr>)"
  "crossing env n (restore_retryable now candidate n)"
  by (rule crossing_same; simp add: expire_historical_state_def remember_historical_evidence_def remember_retryable_historical_def
      remember_deferred_historical_def remember_pending_historical_def erase_retryable_def take_deferred_def erase_pending_def
      restore_retryable_def bindS_def modifyS_def liftS_def getsS_def returnS_def Let_def expectation_kept_def
      split: option.split sum.split prod.split)+

lemma crossing_reset: "crossing env n (reset_expected_payout n)"
  by (rule crossing_same) (simp_all add: reset_expected_payout_def expectation_kept_def)

interpretation trust: node_retries "crossing env" env for env :: "('p, 's) node_env"
  using crossing_order [of env]
  by unfold_locales
    (auto simp: state_order.within_def [OF crossing_order] state_order_def crossing_tables crossing_reset crossing_prune
      crossing_promote crossing_revalidate crossing_receive crossing_promote_context)


subsection \<open>A node that mines on the sample template\<close>

definition sample_miner :: p2p_node where
  "sample_miner = sample_node\<lparr>local_mining_anchor := Some sample_anchor, expected_payout_plan := Some sample_plan,
    expected_payout_parent_id := Some 0\<rparr>"

lemma sample_promotes:
  assumes "cn_fast_hash sample_prefix \<noteq> 0"
  shows "\<exists>reg r. promote_p2p_mining_context_plan_at_parent sample_crypto sample_tok fmempty sample_context_peer sample_envelope
      sample_anchor 0 sample_plan = Ok (reg, r) \<and> fmlookup reg (5, header_hash sample_work, 0) \<noteq> None"
proof -
  have d: "anchor_network_difficulty sample_anchor \<noteq> 0"
    by (simp add: sample_anchor_def arr_val_eq_iff [symmetric] arr_val_array_of_nat)
  have status: "check_status sample_check = AnchoredUnverifiedMinerTx" "check_mining_header_hash sample_check = header_hash sample_work"
    by (simp_all add: sample_check_def)
  show ?thesis
    using d sample_proofs(1) [OF assms]
    by (simp add: promote_p2p_mining_context_plan_at_parent_def promote_p2p_mining_context_impl_def sample_inspected
        status sample_parsed(1) remember_with_provenance_def Let_def context_key_def) (simp add: sample_anchor_def)
qed

lemma sample_announced:
  assumes "promote_p2p_mining_context_plan_at_parent sample_crypto sample_tok fmempty sample_context_peer sample_envelope
    sample_anchor 0 sample_plan = Ok (reg, r)"
  shows "nd_trusted_work (snd (handle sample_env sample_context_peer sample_envelope 9 Light sample_miner)) = reg"
  using assms
  by (simp add: handle_def handle_pass_def handle_message_def handle_mining_context_announce_def schedule_replay_def
      send_results_def node_promote_context_def sample_miner_def sample_node_def make_p2p_node_def sample_env_def start_pass_def
      sample_envelope_def on_node_def zoom_def upd_result_def modifyS_def getsS_def returnS_def bindS_def tell_all_run tell_def
      upd_node_def Let_def)


end
