(* ===== verification/Validation_Store.thy ===== *)
theory Validation_Store
  imports Chain_Replay Local_Daemon
begin

text \<open>
  \<open>src/src/replay_validation_store.cpp\<close>: the file in which a node keeps the results of its own proof-of-work
  checks over a restart. The file is absent or a byte string; a save replaces it as a whole (temporary file
  and rename). Failures of the file system are not modelled.
\<close>

section \<open>Data\<close>

record replay_snapshot =
  snap_checkpoint :: replay_validation_checkpoint
  snap_records :: "replay_validation_record list"

definition validation_magic :: "u8 list" where
  "validation_magic = [0x5a, 0x50, 0x32, 0x56, 0x41, 0x4c, 0x30, 0x31]"

definition kPrefixSize :: nat where "kPrefixSize = 8 + 32 + 8 + 32 + 8"

definition kRecordSize :: nat where "kRecordSize = 32 + 32 + 32 + 3"

definition kDigestSize :: nat where "kDigestSize = 32"

definition kMaxRecords :: nat where "kMaxRecords = 1000000"

definition kSizeMax :: nat where "kSizeMax = 2 ^ 64 - 1"

section \<open>Readers\<close>

definition rv_read_u64 :: "u8 list \<Rightarrow> nat \<Rightarrow> (u64 \<times> nat) result" where
  "rv_read_u64 bytes offset =
    (if offset > length bytes \<or> length bytes - offset < 8
     then Throw (Runtime_error ''truncated replay-validation u64'')
     else Ok (foldl shift_in 0 (slice offset 8 bytes), offset + 8))"

definition rv_read_hash :: "string \<Rightarrow> u8 list \<Rightarrow> nat \<Rightarrow> (hash256 \<times> nat) result" where
  "rv_read_hash context bytes offset =
    (if offset > length bytes \<or> length bytes - offset < 32
     then Throw (Runtime_error (''truncated replay-validation '' @ context))
     else Ok (array_of (slice offset 32 bytes), offset + 32))"

definition validate_record :: "replay_validation_record \<Rightarrow> unit result" where
  "validate_record r =
    (let v = replay_validation r in
     if is_zero_share_id (replay_share_id r)
     then Throw (Runtime_error ''replay-validation record has zero ShareId'')
     else if \<not> meets_share_difficulty v
     then Throw (Runtime_error ''replay-validation record does not meet share difficulty'')
     else (case classification v of
       Share_Candidate \<Rightarrow>
         if meets_network_difficulty v
         then Throw (Runtime_error ''share-class replay-validation record unexpectedly meets network difficulty'')
         else Ok ()
     | Block_Candidate \<Rightarrow>
         if \<not> meets_network_difficulty v
         then Throw (Runtime_error ''block-class replay-validation record does not meet network difficulty'')
         else Ok ()
     | Invalid \<Rightarrow> Throw (Runtime_error ''invalid candidate cannot be persisted as validated'')))"

definition classification_byte :: "candidate_classification \<Rightarrow> u8 result" where
  "classification_byte cl =
    (case cl of
      Share_Candidate \<Rightarrow> Ok 1
    | Block_Candidate \<Rightarrow> Ok 2
    | Invalid \<Rightarrow> Throw (Runtime_error ''invalid replay-validation classification''))"

definition classification_from_byte :: "u8 \<Rightarrow> candidate_classification result" where
  "classification_from_byte b =
    (if b = 1 then Ok Share_Candidate
     else if b = 2 then Ok Block_Candidate
     else Throw (Runtime_error ''invalid replay-validation classification byte''))"

definition bool_from_byte :: "u8 \<Rightarrow> string \<Rightarrow> bool result" where
  "bool_from_byte b context =
    (if b > 1 then Throw (Runtime_error (''invalid replay-validation boolean: '' @ context)) else Ok (b \<noteq> 0))"

section \<open>Writing\<close>

fun check_records :: "share_id option \<Rightarrow> replay_validation_record list \<Rightarrow> unit result" where
  "check_records previous [] = Ok ()"
| "check_records previous (r # rs) =
    bindE (validate_record r) (\<lambda>_.
      if previous = Some (replay_share_id r)
      then Throw (Runtime_error ''replay-validation snapshot contains duplicate ShareId'')
      else check_records (Some (replay_share_id r)) rs)"

definition flag_byte :: "bool \<Rightarrow> u8" where
  "flag_byte b = (if b then 1 else 0)"

definition append_record :: "replay_validation_record \<Rightarrow> u8 list \<Rightarrow> u8 list result" where
  "append_record r bytes =
    (let v = replay_validation r in
     bindE (classification_byte (classification v)) (\<lambda>cl.
       Ok (bytes @ bytes_of (replay_share_id r) @ bytes_of (final_hash (pow v)) @ bytes_of (mix_hash (pow v)) @
         [flag_byte (meets_share_difficulty v), flag_byte (meets_network_difficulty v), cl])))"

definition serialize_snapshot :: "hash256 \<Rightarrow> replay_snapshot \<Rightarrow> u8 list result" where
  "serialize_snapshot sid s =
    (if cp_block_hash (snap_checkpoint s) = 0
     then Throw (Runtime_error ''replay-validation checkpoint hash must be nonzero'')
     else if length (snap_records s) > kMaxRecords
     then Throw (Runtime_error ''replay-validation record count exceeds limit'')
     else
       let records = sort_key replay_share_id (snap_records s) in
       bindE (check_records None records) (\<lambda>_.
       if length records > (kSizeMax - kPrefixSize - kDigestSize) div kRecordSize
       then Throw (Runtime_error ''replay-validation snapshot size overflow'')
       else
         bindE (forE append_record records
           (validation_magic @ bytes_of sid @ append_u64_be (cp_zano_height (snap_checkpoint s)) @
            bytes_of (cp_block_hash (snap_checkpoint s)) @ append_u64_be (word_of_nat (length records)))) (\<lambda>bytes.
         Ok (bytes @ bytes_of (cn_fast_hash bytes)))))"

section \<open>Reading\<close>

definition rv_read_record :: "u8 list \<Rightarrow> nat \<Rightarrow> nat \<Rightarrow> (replay_validation_record \<times> nat) result" where
  "rv_read_record bytes digest_offset offset =
    bindE (rv_read_hash ''ShareId'' bytes offset) (\<lambda>(i, offset).
    bindE (rv_read_hash ''PoW final hash'' bytes offset) (\<lambda>(final, offset).
    bindE (rv_read_hash ''PoW mix hash'' bytes offset) (\<lambda>(mix, offset).
    if offset + 3 > digest_offset
    then Throw (Runtime_error ''truncated replay-validation record flags'')
    else
      bindE (bool_from_byte (bytes ! offset) ''meets-share-difficulty'') (\<lambda>meets_share.
      bindE (bool_from_byte (bytes ! (offset + 1)) ''meets-network-difficulty'') (\<lambda>meets_network.
      bindE (classification_from_byte (bytes ! (offset + 2))) (\<lambda>cl.
      let r = \<lparr>replay_share_id = i, replay_validation = \<lparr>pow = \<lparr>final_hash = final, mix_hash = mix\<rparr>,
        meets_share_difficulty = meets_share, meets_network_difficulty = meets_network, classification = cl\<rparr>\<rparr> in
      bindE (validate_record r) (\<lambda>_. Ok (r, offset + 3))))))))"

fun rv_read_records ::
  "u8 list \<Rightarrow> nat \<Rightarrow> nat \<Rightarrow> nat \<Rightarrow> replay_validation_record list \<Rightarrow> (replay_validation_record list \<times> nat) result"
where
  "rv_read_records bytes digest_offset 0 offset records = Ok (records, offset)"
| "rv_read_records bytes digest_offset (Suc n) offset records =
    bindE (rv_read_record bytes digest_offset offset) (\<lambda>(r, offset).
      if records \<noteq> [] \<and> replay_share_id (last records) \<ge> replay_share_id r
      then Throw (Runtime_error ''replay-validation records are not strictly ordered'')
      else rv_read_records bytes digest_offset n offset (records @ [r]))"

definition parse_snapshot :: "hash256 \<Rightarrow> u8 list \<Rightarrow> replay_snapshot result" where
  "parse_snapshot expected_sidechain_id bytes =
    (if length bytes < kPrefixSize + kDigestSize
     then Throw (Runtime_error ''replay-validation store is truncated'')
     else
       let digest_offset = length bytes - kDigestSize in
       bindE (rv_read_hash ''digest'' bytes digest_offset) (\<lambda>(stored_digest, _).
       if cn_fast_hash (take digest_offset bytes) \<noteq> stored_digest
       then Throw (Runtime_error ''replay-validation store digest mismatch'')
       else if take 8 bytes \<noteq> validation_magic
       then Throw (Runtime_error ''invalid replay-validation store magic'')
       else
         bindE (rv_read_hash ''sidechain id'' bytes 8) (\<lambda>(sid, offset).
         if sid \<noteq> expected_sidechain_id
         then Throw (Runtime_error ''replay-validation sidechain id mismatch'')
         else
           bindE (rv_read_u64 bytes offset) (\<lambda>(height, offset).
           bindE (rv_read_hash ''checkpoint hash'' bytes offset) (\<lambda>(block, offset).
           if block = 0
           then Throw (Runtime_error ''replay-validation checkpoint hash is zero'')
           else
             bindE (rv_read_u64 bytes offset) (\<lambda>(record_count, offset).
             if unat record_count > kMaxRecords \<or> unat record_count > kSizeMax
             then Throw (Runtime_error ''replay-validation record count exceeds limit'')
             else if unat record_count > (kSizeMax - kPrefixSize - kDigestSize) div kRecordSize
             then Throw (Runtime_error ''replay-validation record size overflow'')
             else if length bytes \<noteq> kPrefixSize + unat record_count * kRecordSize + kDigestSize
             then Throw (Runtime_error ''replay-validation store size mismatch'')
             else
               bindE (rv_read_records bytes digest_offset (unat record_count) offset []) (\<lambda>(records, offset).
               if offset \<noteq> digest_offset
               then Throw (Runtime_error ''replay-validation parser did not consume the complete record region'')
               else Ok \<lparr>snap_checkpoint = \<lparr>cp_zano_height = height, cp_block_hash = block\<rparr>,
                 snap_records = records\<rparr>)))))))"

section \<open>The store\<close>

record validation_store =
  vs_path :: string
  vs_sidechain_id :: hash256

definition make_validation_store :: "string \<Rightarrow> hash256 \<Rightarrow> validation_store result" where
  "make_validation_store path sid =
    (if path = [] then Throw (Invalid_argument ''replay-validation store path must not be empty'')
     else if sid = 0 then Throw (Invalid_argument ''replay-validation sidechain id must be nonzero'')
     else Ok \<lparr>vs_path = path, vs_sidechain_id = sid\<rparr>)"

definition save_validation :: "validation_store \<Rightarrow> u8 list option \<Rightarrow> replay_snapshot \<Rightarrow> u8 list option \<times> unit result" where
  "save_validation st file s =
    (case serialize_snapshot (vs_sidechain_id st) s of
      Inl e \<Rightarrow> (file, Throw e)
    | Inr bytes \<Rightarrow> (Some bytes, Ok ()))"

definition load_validation :: "validation_store \<Rightarrow> u8 list option \<Rightarrow> replay_snapshot option result" where
  "load_validation st file =
    (case file of
      None \<Rightarrow> Ok None
    | Some bytes \<Rightarrow> bindE (parse_snapshot (vs_sidechain_id st) bytes) (\<lambda>s. Ok (Some s)))"

section \<open>What a file holds\<close>

definition valid_record :: "replay_validation_record \<Rightarrow> bool" where
  "valid_record r \<longleftrightarrow> replay_share_id r \<noteq> 0 \<and> replay_validation_consistent (replay_validation r)"

definition record_code :: "replay_validation_record \<Rightarrow> u8 list" where
  "record_code r =
    (let v = replay_validation r in
     bytes_of (replay_share_id r) @ bytes_of (final_hash (pow v)) @ bytes_of (mix_hash (pow v)) @
     [flag_byte (meets_share_difficulty v), flag_byte (meets_network_difficulty v),
      if classification v = Block_Candidate then 2 else 1])"

definition snapshot_body :: "hash256 \<Rightarrow> replay_validation_checkpoint \<Rightarrow> replay_validation_record list \<Rightarrow> u8 list" where
  "snapshot_body sid cp rs =
    validation_magic @ bytes_of sid @ append_u64_be (cp_zano_height cp) @ bytes_of (cp_block_hash cp) @
    append_u64_be (word_of_nat (length rs)) @ concat (map record_code rs)"

lemma validate_record_iff: "validate_record r = Ok u \<longleftrightarrow> valid_record r"
  by (auto simp: validate_record_def valid_record_def replay_validation_consistent_def Let_def
      split: candidate_classification.splits)

lemma append_record_valid: "valid_record r \<Longrightarrow> append_record r bytes = Ok (bytes @ record_code r)"
  by (auto simp: append_record_def record_code_def valid_record_def replay_validation_consistent_def classification_byte_def
      Let_def split: candidate_classification.splits)

lemma append_records_valid:
  "\<forall>r\<in>set rs. valid_record r \<Longrightarrow> forE append_record rs bytes = Ok (bytes @ concat (map record_code rs))"
  by (induction rs arbitrary: bytes) (simp_all add: append_record_valid)

lemma check_records_iff:
  "sorted (map replay_share_id rs) \<Longrightarrow> (\<And>p r. previous = Some p \<Longrightarrow> r \<in> set rs \<Longrightarrow> p \<le> replay_share_id r) \<Longrightarrow>
    check_records previous rs = Ok u \<longleftrightarrow> (\<forall>r\<in>set rs. valid_record r) \<and> distinct (map replay_share_id rs) \<and>
      (\<forall>p. previous = Some p \<longrightarrow> p \<notin> replay_share_id ` set rs)"
proof (induction rs arbitrary: previous)
  case (Cons r rs)
  have later: "check_records (Some (replay_share_id r)) rs = Ok u \<longleftrightarrow> (\<forall>r\<in>set rs. valid_record r) \<and>
      distinct (map replay_share_id rs) \<and> replay_share_id r \<notin> replay_share_id ` set rs"
    using Cons.IH [of "Some (replay_share_id r)"] Cons.prems(1) by auto
  have "previous = Some p \<Longrightarrow> p \<noteq> replay_share_id r \<Longrightarrow> p \<notin> replay_share_id ` set rs" for p
    using Cons.prems(1) Cons.prems(2) [of p r] by fastforce
  with later show ?case by (auto simp: bindE_eq_Ok validate_record_iff)
qed simp

lemma length_record_code [simp]: "length (record_code r) = 99"
  by (simp add: record_code_def Let_def)

lemma length_record_codes [simp]: "length (concat (map record_code rs)) = 99 * length rs"
  by (induction rs) simp_all

lemma length_snapshot_body [simp]: "length (snapshot_body sid cp rs) = 88 + 99 * length rs"
  by (simp add: snapshot_body_def validation_magic_def)

lemma serialize_snapshot_eq_Ok:
  "serialize_snapshot sid s = Ok bytes \<longleftrightarrow>
    cp_block_hash (snap_checkpoint s) \<noteq> 0 \<and> length (snap_records s) \<le> kMaxRecords \<and>
    (\<forall>r\<in>set (snap_records s). valid_record r) \<and> distinct (map replay_share_id (snap_records s)) \<and>
    (let body = snapshot_body sid (snap_checkpoint s) (sort_key replay_share_id (snap_records s))
     in bytes = body @ bytes_of (cn_fast_hash body))"
proof -
  let ?rs = "sort_key replay_share_id (snap_records s)"
  have d: "distinct (map replay_share_id ?rs) \<longleftrightarrow> distinct (map replay_share_id (snap_records s))"
    by (rule mset_eq_imp_distinct_iff) simp
  have "check_records None ?rs = Ok u \<longleftrightarrow> (\<forall>r\<in>set (snap_records s). valid_record r) \<and> distinct (map replay_share_id (snap_records s))" for u
    using check_records_iff [of ?rs None u] d by simp
  moreover have "\<not> (kSizeMax - kPrefixSize - kDigestSize) div kRecordSize < length (snap_records s)"
    if "length (snap_records s) \<le> kMaxRecords"
    using that by (simp add: kSizeMax_def kPrefixSize_def kDigestSize_def kRecordSize_def kMaxRecords_def)
  ultimately show ?thesis
    by (auto simp: serialize_snapshot_def bindE_eq_Ok append_records_valid snapshot_body_def Let_def)
qed

section \<open>Reading gives back what was written\<close>

lemma slice_add: "slice o1 (a + b) bs = slice o1 a bs @ slice (o1 + a) b bs"
  by (simp add: slice_def take_add add.commute)

lemma slice_3: "o1 + 3 \<le> length bs \<Longrightarrow> slice o1 3 bs = [bs ! o1, bs ! (o1 + 1), bs ! (o1 + 2)]"
  by (simp add: slice_def numeral_3_eq_3 take_Suc_conv_app_nth)

lemma bool_from_byte_eq_Ok: "bool_from_byte b t = Ok x \<longleftrightarrow> b = flag_byte x"
proof -
  have "b > 1 \<longleftrightarrow> b \<noteq> 0 \<and> b \<noteq> 1"
    by (simp add: word_less_nat_alt word_unat_eq_iff) arith
  then show ?thesis by (auto simp: bool_from_byte_def flag_byte_def)
qed

lemma classification_from_byte_eq_Ok:
  "classification_from_byte b = Ok cl \<longleftrightarrow> cl \<noteq> Invalid \<and> b = (if cl = Block_Candidate then 2 else 1)"
  by (cases cl) (auto simp: classification_from_byte_def)

lemma rv_read_hash_in: "o1 + 32 \<le> length bytes \<Longrightarrow> rv_read_hash t bytes o1 = Ok (array_of (slice o1 32 bytes), o1 + 32)"
  by (simp add: rv_read_hash_def)

lemma rv_read_u64_in: "o1 + 8 \<le> length bytes \<Longrightarrow> rv_read_u64 bytes o1 = Ok (foldl shift_in 0 (slice o1 8 bytes), o1 + 8)"
  by (simp add: rv_read_u64_def)

lemma array_of_slice: "length xs = 32 \<Longrightarrow> array_of xs = (a :: hash256) \<longleftrightarrow> xs = bytes_of a"
  by (auto simp: byte_array_eq_iff)

lemma rv_read_record_eq_Ok:
  assumes "o1 + 99 \<le> digest_offset" "digest_offset \<le> length bytes"
  shows "rv_read_record bytes digest_offset o1 = Ok (r, o2) \<longleftrightarrow>
    o2 = o1 + 99 \<and> slice o1 99 bytes = record_code r \<and> valid_record r"
proof -
  have parts: "slice o1 99 bytes = slice o1 32 bytes @ slice (o1 + 32) 32 bytes @ slice (o1 + 64) 32 bytes @
      [bytes ! (o1 + 96), bytes ! (o1 + 97), bytes ! (o1 + 98)]"
    using slice_add [of o1 32 67 bytes] slice_add [of "o1 + 32" 32 35 bytes] slice_add [of "o1 + 64" 32 3 bytes]
      slice_3 [of "o1 + 96" bytes] assms by (simp add: ac_simps)
  have code: "slice o1 99 bytes = record_code r \<longleftrightarrow>
      slice o1 32 bytes = bytes_of (replay_share_id r) \<and> slice (o1 + 32) 32 bytes = bytes_of (final_hash (pow (replay_validation r))) \<and>
      slice (o1 + 64) 32 bytes = bytes_of (mix_hash (pow (replay_validation r))) \<and>
      bytes ! (o1 + 96) = flag_byte (meets_share_difficulty (replay_validation r)) \<and>
      bytes ! (o1 + 97) = flag_byte (meets_network_difficulty (replay_validation r)) \<and>
      bytes ! (o1 + 98) = (if classification (replay_validation r) = Block_Candidate then 2 else 1)"
    unfolding parts record_code_def Let_def using assms by (simp add: append_eq_append_conv)
  have run: "rv_read_record bytes digest_offset o1 =
      bindE (bool_from_byte (bytes ! (o1 + 96)) ''meets-share-difficulty'') (\<lambda>meets_share.
      bindE (bool_from_byte (bytes ! (o1 + 97)) ''meets-network-difficulty'') (\<lambda>meets_network.
      bindE (classification_from_byte (bytes ! (o1 + 98))) (\<lambda>cl.
      let r = \<lparr>replay_share_id = array_of (slice o1 32 bytes), replay_validation = \<lparr>pow =
          \<lparr>final_hash = array_of (slice (o1 + 32) 32 bytes), mix_hash = array_of (slice (o1 + 64) 32 bytes)\<rparr>,
        meets_share_difficulty = meets_share, meets_network_difficulty = meets_network, classification = cl\<rparr>\<rparr> in
      bindE (validate_record r) (\<lambda>_. Ok (r, o1 + 99)))))"
    using assms by (simp add: rv_read_record_def rv_read_hash_in ac_simps)
  have notinv: "valid_record r \<Longrightarrow> classification (replay_validation r) \<noteq> Invalid"
    by (auto simp: valid_record_def replay_validation_consistent_def)
  obtain i fh mh ms mn cl where r: "r = \<lparr>replay_share_id = i, replay_validation = \<lparr>pow = \<lparr>final_hash = fh, mix_hash = mh\<rparr>,
      meets_share_difficulty = ms, meets_network_difficulty = mn, classification = cl\<rparr>\<rparr>"
    by (metis candidate_validation.cases progpowz_result.cases replay_validation_record.cases)
  show ?thesis
    unfolding run code using notinv assms
    by (auto simp: r bindE_eq_Ok Let_def bool_from_byte_eq_Ok classification_from_byte_eq_Ok validate_record_iff array_of_slice)
qed

lemma rv_read_records_eq_Ok:
  "o1 + 99 * n \<le> digest_offset \<Longrightarrow> digest_offset \<le> length bytes \<Longrightarrow> sorted_wrt (<) (map replay_share_id acc) \<Longrightarrow>
    rv_read_records bytes digest_offset n o1 acc = Ok (rs', o2) \<longleftrightarrow>
    (\<exists>rs. rs' = acc @ rs \<and> length rs = n \<and> o2 = o1 + 99 * n \<and> slice o1 (99 * n) bytes = concat (map record_code rs) \<and>
      (\<forall>r\<in>set rs. valid_record r) \<and> sorted_wrt (<) (map replay_share_id (acc @ rs)))"
proof (induction n arbitrary: o1 acc)
  case 0
  then show ?case by (auto simp: slice_def)
next
  case (Suc n)
  have sorted: "sorted_wrt (<) (map replay_share_id (acc @ [r])) \<longleftrightarrow> \<not> (acc \<noteq> [] \<and> replay_share_id r \<le> replay_share_id (last acc))" for r
  proof (cases acc rule: rev_cases)
    case (snoc ys y)
    with Suc.prems(3) show ?thesis by (fastforce simp: sorted_wrt_append not_le)
  qed simp
  have whole: "slice o1 (99 * Suc n) bytes = slice o1 99 bytes @ slice (o1 + 99) (99 * n) bytes"
    using slice_add [of o1 99 "99 * n" bytes] by simp
  have one: "rv_read_record bytes digest_offset o1 = Ok (r, o2) \<longleftrightarrow>
      o2 = o1 + 99 \<and> slice o1 99 bytes = record_code r \<and> valid_record r" for r o2
    using Suc.prems by (intro rv_read_record_eq_Ok) auto
  note rest = Suc.IH [of "o1 + 99" "acc @ [r]" for r]
  show ?case
  proof
    assume "rv_read_records bytes digest_offset (Suc n) o1 acc = Ok (rs', o2)"
    then obtain r where r: "slice o1 99 bytes = record_code r" "valid_record r" "sorted_wrt (<) (map replay_share_id (acc @ [r]))"
      "rv_read_records bytes digest_offset n (o1 + 99) (acc @ [r]) = Ok (rs', o2)"
      unfolding sorted by (auto simp: bindE_eq_Ok one split: if_splits)
    from rest [of r] r(3,4) Suc.prems obtain rs where "rs' = acc @ r # rs" "length rs = n" "o2 = o1 + 99 + 99 * n"
      "slice (o1 + 99) (99 * n) bytes = concat (map record_code rs)" "\<forall>r\<in>set rs. valid_record r"
      "sorted_wrt (<) (map replay_share_id (acc @ r # rs))" by auto
    with r whole show "\<exists>rs. rs' = acc @ rs \<and> length rs = Suc n \<and> o2 = o1 + 99 * Suc n \<and>
        slice o1 (99 * Suc n) bytes = concat (map record_code rs) \<and> (\<forall>r\<in>set rs. valid_record r) \<and>
        sorted_wrt (<) (map replay_share_id (acc @ rs))"
      by (intro exI [of _ "r # rs"]) simp
  next
    assume "\<exists>rs. rs' = acc @ rs \<and> length rs = Suc n \<and> o2 = o1 + 99 * Suc n \<and>
        slice o1 (99 * Suc n) bytes = concat (map record_code rs) \<and> (\<forall>r\<in>set rs. valid_record r) \<and>
        sorted_wrt (<) (map replay_share_id (acc @ rs))"
    then obtain r rs where rs: "rs' = acc @ r # rs" "length rs = n" "o2 = o1 + 99 * Suc n"
      "slice o1 (99 * Suc n) bytes = record_code r @ concat (map record_code rs)" "\<forall>r\<in>set (r # rs). valid_record r"
      "sorted_wrt (<) (map replay_share_id ((acc @ [r]) @ rs))"
      by (auto simp: length_Suc_conv)
    have "length (slice o1 99 bytes) = 99" using Suc.prems(1,2) by (intro length_slice) simp
    with rs(4) whole have s: "slice o1 99 bytes = record_code r" "slice (o1 + 99) (99 * n) bytes = concat (map record_code rs)"
      by simp_all
    from rs(6) have ord: "sorted_wrt (<) (map replay_share_id (acc @ [r]))" by (simp add: sorted_wrt_append)
    have "rv_read_records bytes digest_offset n (o1 + 99) (acc @ [r]) = Ok (rs', o2)"
      using rest [of r] Suc.prems ord rs s by auto
    moreover have "rv_read_record bytes digest_offset o1 = Ok (r, o1 + 99)" using one s rs(5) by simp
    ultimately show "rv_read_records bytes digest_offset (Suc n) o1 acc = Ok (rs', o2)"
      using ord unfolding sorted by auto
  qed
qed

text \<open>The file format has one encoding per snapshot with ordered records, and the parser accepts no others.\<close>

definition ordered_snapshot :: "replay_snapshot \<Rightarrow> bool" where
  "ordered_snapshot s \<longleftrightarrow> sorted_wrt (<) (map replay_share_id (snap_records s))"

lemma ordered_sort: "ordered_snapshot s \<Longrightarrow> sort_key replay_share_id (snap_records s) = snap_records s"
  unfolding ordered_snapshot_def by (intro sort_key_id_if_sorted) (simp add: strict_sorted_iff)

lemma body_parts:
  assumes "bytes = snapshot_body sid cp rs @ digest"
  shows "take 8 bytes = validation_magic" "slice 8 32 bytes = bytes_of sid"
    "slice 40 8 bytes = append_u64_be (cp_zano_height cp)" "slice 48 32 bytes = bytes_of (cp_block_hash cp)"
    "slice 80 8 bytes = append_u64_be (word_of_nat (length rs))"
    "slice 88 (99 * length rs) bytes = concat (map record_code rs)"
  by (simp_all add: assms snapshot_body_def validation_magic_def slice_def)

lemma parse_serialized:
  assumes "serialize_snapshot sid s = Ok bytes" "ordered_snapshot s"
  shows "parse_snapshot sid bytes = Ok s"
proof -
  let ?rs = "snap_records s" and ?cp = "snap_checkpoint s"
  let ?body = "snapshot_body sid ?cp ?rs"
  from assms have ok: "cp_block_hash ?cp \<noteq> 0" "length ?rs \<le> kMaxRecords" "\<forall>r\<in>set ?rs. valid_record r"
    "bytes = ?body @ bytes_of (cn_fast_hash ?body)"
    by (simp_all add: serialize_snapshot_eq_Ok ordered_sort Let_def)
  note parts = body_parts [OF ok(4)]
  have len: "length bytes = 120 + 99 * length ?rs" by (simp add: ok(4))
  have digest: "length bytes - 32 = 88 + 99 * length ?rs" "take (88 + 99 * length ?rs) bytes = ?body"
    "slice (88 + 99 * length ?rs) 32 bytes = bytes_of (cn_fast_hash ?body)"
    by (simp_all add: ok(4) slice_def)
  have n: "unat (word_of_nat (length ?rs) :: u64) = length ?rs"
    using ok(2) by (simp add: unat_of_nat kMaxRecords_def)
  have recs: "rv_read_records bytes (88 + 99 * length ?rs) (length ?rs) 88 [] = Ok (?rs, 88 + 99 * length ?rs)"
    using rv_read_records_eq_Ok [of 88 "length ?rs" "88 + 99 * length ?rs" bytes "[]" ?rs "88 + 99 * length ?rs"]
      len parts(6) ok(3) assms(2) by (simp add: ordered_snapshot_def)
  show ?thesis
    using ok(1,2) recs
    by (simp add: parse_snapshot_def kPrefixSize_def kDigestSize_def kRecordSize_def kSizeMax_def kMaxRecords_def
        len digest rv_read_hash_in rv_read_u64_in parts n Let_def)
qed

lemma parse_parsed:
  assumes "parse_snapshot sid bytes = Ok s"
  shows "ordered_snapshot s \<and> serialize_snapshot sid s = Ok bytes"
proof -
  have min: "120 \<le> length bytes"
    using assms by (simp add: parse_snapshot_def kPrefixSize_def kDigestSize_def split: if_splits)
  let ?n = "unat (foldl shift_in 0 (slice 80 8 bytes) :: u64)" and ?d = "length bytes - 32"
  from assms min have p: "cn_fast_hash (take ?d bytes) = array_of (slice ?d 32 bytes)" "take 8 bytes = validation_magic"
    "array_of (slice 8 32 bytes) = sid" "cp_zano_height (snap_checkpoint s) = foldl shift_in 0 (slice 40 8 bytes)"
    "cp_block_hash (snap_checkpoint s) = array_of (slice 48 32 bytes)" "cp_block_hash (snap_checkpoint s) \<noteq> 0"
    "?n \<le> kMaxRecords" "length bytes = 120 + 99 * ?n"
    "\<exists>o2. rv_read_records bytes ?d ?n 88 [] = Ok (snap_records s, o2)"
    by (auto simp: parse_snapshot_def kPrefixSize_def kDigestSize_def kRecordSize_def rv_read_hash_in rv_read_u64_in
        bindE_eq_Ok Let_def split: if_splits)
  let ?rs = "snap_records s"
  have d: "?d = 88 + 99 * ?n" using p(8) by simp
  from p(9) obtain o2 where "rv_read_records bytes ?d ?n 88 [] = Ok (?rs, o2)" by blast
  then have rs: "length ?rs = ?n" "slice 88 (99 * ?n) bytes = concat (map record_code ?rs)" "\<forall>r\<in>set ?rs. valid_record r"
    "sorted_wrt (<) (map replay_share_id ?rs)"
    using rv_read_records_eq_Ok [of 88 ?n ?d bytes "[]" ?rs o2] d by auto
  have count: "slice 80 8 bytes = append_u64_be (word_of_nat (length ?rs))"
    using min append_foldl_be(3) [of "slice 80 8 bytes"] by (simp add: rs(1))
  have fields: "slice 8 32 bytes = bytes_of sid" "slice 48 32 bytes = bytes_of (cp_block_hash (snap_checkpoint s))"
    "slice 40 8 bytes = append_u64_be (cp_zano_height (snap_checkpoint s))"
    "slice ?d 32 bytes = bytes_of (cn_fast_hash (take ?d bytes))"
    using min p(1,3,4,5) append_foldl_be(3) [of "slice 40 8 bytes"] by (auto simp: array_of_slice [symmetric])
  have "slice 0 ?d bytes = slice 0 8 bytes @ slice 8 32 bytes @ slice 40 8 bytes @ slice 48 32 bytes @ slice 80 8 bytes @
      slice 88 (99 * ?n) bytes"
    unfolding d
    using slice_add [of 0 8 "80 + 99 * ?n" bytes] slice_add [of 8 32 "48 + 99 * ?n" bytes] slice_add [of 40 8 "40 + 99 * ?n" bytes]
      slice_add [of 48 32 "8 + 99 * ?n" bytes] slice_add [of 80 8 "99 * ?n" bytes] by simp
  then have body: "take ?d bytes = snapshot_body sid (snap_checkpoint s) ?rs"
    using p(2) fields count rs(2) by (simp add: snapshot_body_def slice_def)
  have "slice ?d 32 bytes = drop ?d bytes" using min by (simp add: slice_def)
  with fields(4) have bytes: "bytes = take ?d bytes @ bytes_of (cn_fast_hash (take ?d bytes))"
    by (metis append_take_drop_id)
  have ord: "ordered_snapshot s" using rs(4) by (simp add: ordered_snapshot_def)
  then have "distinct (map replay_share_id ?rs)" by (simp add: ordered_snapshot_def strict_sorted_iff)
  with ord p(6,7) rs(1,3) bytes body show ?thesis
    by (simp add: serialize_snapshot_eq_Ok ordered_sort Let_def)
qed

definition encode_ordered :: "hash256 \<Rightarrow> replay_snapshot \<Rightarrow> u8 list result" where
  "encode_ordered sid s = (if ordered_snapshot s then serialize_snapshot sid s else Throw (Logic_error ''records are not ordered''))"

interpretation validation_codec: canonical_codec "encode_ordered sid" "parse_snapshot sid" for sid
  by unfold_locales (auto simp: encode_ordered_def dest: parse_serialized parse_parsed split: if_splits)

lemma serialize_sorts:
  "serialize_snapshot sid s = Ok bytes \<Longrightarrow>
    encode_ordered sid (s\<lparr>snap_records := sort_key replay_share_id (snap_records s)\<rparr>) = Ok bytes"
proof -
  assume ok: "serialize_snapshot sid s = Ok bytes"
  let ?s = "s\<lparr>snap_records := sort_key replay_share_id (snap_records s)\<rparr>"
  have d: "distinct (map replay_share_id (snap_records ?s))"
    using ok mset_eq_imp_distinct_iff [of "map replay_share_id (snap_records ?s)" "map replay_share_id (snap_records s)"]
    by (simp add: serialize_snapshot_eq_Ok)
  then have ord: "ordered_snapshot ?s" by (simp add: ordered_snapshot_def strict_sorted_iff)
  have again: "sort_key replay_share_id (sort_key replay_share_id (snap_records s)) = sort_key replay_share_id (snap_records s)"
    using ordered_sort [OF ord] by simp
  from ord d ok show ?thesis by (simp add: encode_ordered_def serialize_snapshot_eq_Ok again Let_def)
qed

lemma save_load:
  "save_validation st old s = (new, Ok u) \<Longrightarrow>
    load_validation st new = Ok (Some (s\<lparr>snap_records := sort_key replay_share_id (snap_records s)\<rparr>))"
  by (auto simp: save_validation_def load_validation_def split: sum.splits
      dest!: serialize_sorts validation_codec.dec_enc)

lemma save_keeps: "save_validation st old s = (new, Throw e) \<Longrightarrow> new = old"
  by (auto simp: save_validation_def split: sum.splits)


definition sample_record :: replay_validation_record where
  "sample_record = \<lparr>replay_share_id = array_of_nat 7, replay_validation = zero_hash_validation\<rparr>"

definition sample_snapshot :: replay_snapshot where
  "sample_snapshot = \<lparr>snap_checkpoint = \<lparr>cp_zano_height = 4, cp_block_hash = array_of_nat 1\<rparr>, snap_records = [sample_record]\<rparr>"


end
