(* ===== verification/Restart_Recovery.thy ===== *)
theory Restart_Recovery
  imports Validation_Store Historical_Work Chain_Spec Sample_Context
begin

text \<open>
  \<open>src/src/restart_recovery.cpp\<close> and \<open>src/src/restart_revalidation.cpp\<close>: what a restarted node does with the
  shares it replayed from its file. It restores cached validation results behind a checkpoint that its daemon
  confirms, revalidates the others from its own archive, and writes the cache again.
\<close>

section \<open>Operations of the parts\<close>

text \<open>A method that returns the new object first, as an operation.\<close>

definition as_op :: "('s \<Rightarrow> 's \<times> 'a result) \<Rightarrow> ('s, 'a) op" where
  "as_op f s = (case f s of (s', r) \<Rightarrow> (r, s'))"

definition on_fst :: "('s, 'a) op \<Rightarrow> ('s \<times> 't, 'a) op" where
  "on_fst m = zoom fst (\<lambda>x (_, y). (x, y)) m"

definition on_snd :: "('t, 'a) op \<Rightarrow> ('s \<times> 't, 'a) op" where
  "on_snd m = zoom snd (\<lambda>y (x, _). (x, y)) m"

lemma as_op_eq [simp]: "as_op f s = (r, s') \<longleftrightarrow> f s = (s', r)"
  by (auto simp: as_op_def split: prod.splits)

lemma on_fst_eq [simp]: "on_fst m (x, y) = (r, (x', y')) \<longleftrightarrow> m x = (r, x') \<and> y' = y"
  by (auto simp: on_fst_def zoom_def split: prod.splits)

lemma on_snd_eq [simp]: "on_snd m (x, y) = (r, (x', y')) \<longleftrightarrow> m y = (r, y') \<and> x' = x"
  by (auto simp: on_snd_def zoom_def split: prod.splits)

section \<open>The cache\<close>

datatype restart_replay_validation_status = Cache_missing | Cache_restored | Cache_stale

record restart_replay_validation_result =
  rv_status :: restart_replay_validation_status
  rv_checkpoint :: "replay_validation_checkpoint option"
  rv_records_loaded :: nat
  rv_records_restored :: nat

text \<open>The daemon is asked after the file was read and before the chain changes; the number of queries is the
  state that both leave behind.\<close>

definition restore_replayed_validation_cache ::
  "canonical_lookup \<Rightarrow> sidechain_parameters \<Rightarrow> validation_store \<Rightarrow> u8 list option \<Rightarrow>
    (share_chain \<times> nat, restart_replay_validation_result) op"
where
  "restore_replayed_validation_cache lookup params st file = getsS (\<lambda>(chain, _).
    bindS (liftS (matches_sidechain_parameters chain params)) (\<lambda>matches.
    if \<not> matches
    then liftS (Throw (Runtime_error ''replay-validation cache sidechain parameter mismatch''))
    else
      bindS (liftS (load_validation st file)) (\<lambda>snapshot.
      case snapshot of
        None \<Rightarrow> returnS \<lparr>rv_status = Cache_missing, rv_checkpoint = None, rv_records_loaded = 0, rv_records_restored = 0\<rparr>
      | Some s \<Rightarrow>
          let result = \<lparr>rv_status = Cache_missing, rv_checkpoint = Some (snap_checkpoint s),
            rv_records_loaded = length (snap_records s), rv_records_restored = 0\<rparr> in
          bindS (on_snd (stable_canonical_checkpoint_matches lookup (snap_checkpoint s))) (\<lambda>confirmed.
          if \<not> confirmed then returnS (result\<lparr>rv_status := Cache_stale\<rparr>)
          else
            bindS (on_fst (as_op (\<lambda>c. restore_replay_validation c (snap_records s))))
              (\<lambda>restored. returnS (result\<lparr>rv_records_restored := restored, rv_status := Cache_restored\<rparr>)))))) "

datatype restart_replay_validation_persist_status = Persist_saved | CanonicalChanged | CheckpointTooOld

record restart_replay_validation_persist_result =
  rp_status :: restart_replay_validation_persist_status
  rp_checkpoint :: "replay_validation_checkpoint option"
  rp_records_exported :: nat
  rp_records_saved :: nat

text \<open>The loop over the exported records: \<open>True\<close> when one lies beyond the checkpoint.\<close>

fun beyond_checkpoint :: "share_chain \<Rightarrow> u64 \<Rightarrow> replay_validation_record list \<Rightarrow> bool result" where
  "beyond_checkpoint chain h [] = Ok False"
| "beyond_checkpoint chain h (r # rs) =
    (case find chain (replay_share_id r) of
      None \<Rightarrow> Throw (Logic_error ''replay-validation export record is no longer connected'')
    | Some cs \<Rightarrow>
        if zano_height (cs_share cs) = 0
        then Throw (Logic_error ''validated replay share has zero Zano work height'')
        else if zano_height (cs_share cs) > h then Ok True
        else beyond_checkpoint chain h rs)"

definition persist_replayed_validation_cache ::
  "canonical_lookup \<Rightarrow> share_chain \<Rightarrow> sidechain_parameters \<Rightarrow> validation_store \<Rightarrow> u64 \<Rightarrow> hash256 \<Rightarrow>
    (u8 list option \<times> nat, restart_replay_validation_persist_result) op"
where
  "persist_replayed_validation_cache lookup chain params st checkpoint_work_height expected_parent_hash =
    bindS (liftS (matches_sidechain_parameters chain params)) (\<lambda>matches.
    if \<not> matches
    then liftS (Throw (Runtime_error ''replay-validation persistence sidechain parameter mismatch''))
    else if checkpoint_work_height = 0
    then liftS (Throw (Invalid_argument ''replay-validation persistence requires nonzero checkpoint work height''))
    else if expected_parent_hash = 0
    then liftS (Throw (Invalid_argument ''replay-validation persistence expected parent hash must be nonzero''))
    else
      bindS (on_snd (stable_canonical_parent_for_work_height lookup checkpoint_work_height)) (\<lambda>stable_parent.
      if stable_parent = 0
      then liftS (Throw (Runtime_error ''replay-validation persistence canonical parent is zero''))
      else
        let checkpoint = \<lparr>cp_zano_height = checkpoint_work_height - 1, cp_block_hash = stable_parent\<rparr>;
            result = \<lparr>rp_status = Persist_saved, rp_checkpoint = Some checkpoint, rp_records_exported = 0,
              rp_records_saved = 0\<rparr> in
        if stable_parent \<noteq> expected_parent_hash then returnS (result\<lparr>rp_status := CanonicalChanged\<rparr>)
        else
          bindS (liftS (replay_validation_snapshot chain)) (\<lambda>records.
          let result = result\<lparr>rp_records_exported := length records\<rparr> in
          bindS (liftS (beyond_checkpoint chain checkpoint_work_height records)) (\<lambda>beyond.
          if beyond then returnS (result\<lparr>rp_status := CheckpointTooOld\<rparr>)
          else
            bindS (on_fst (as_op (\<lambda>file. save_validation st file
                \<lparr>snap_checkpoint = checkpoint, snap_records = records\<rparr>))) (\<lambda>_.
            returnS (result\<lparr>rp_records_saved := length records, rp_status := Persist_saved\<rparr>))))))"

section \<open>One replayed share\<close>

datatype restart_revalidation_status =
    Revalidated
  | Restart_already_validated
  | ShareMissing
  | Restart_parameter_mismatch
  | Restart_candidate_mismatch
  | Restart_parent_unvalidated
  | Restart_anchor_rejected
  | AnchorChangedBeforeRevalidation
  | ShareRejected

record restart_revalidation_result =
  rs_status :: restart_revalidation_status
  rs_share_id :: share_id
  rs_initial_anchor :: historical_anchor_result
  rs_final_anchor :: historical_anchor_result
  rs_share_result :: revalidate_share_result

definition default_restart_result :: "share_id \<Rightarrow> restart_revalidation_result" where
  "default_restart_result i = \<lparr>rs_status = ShareMissing, rs_share_id = i, rs_initial_anchor = default_anchor_result,
    rs_final_anchor = default_anchor_result,
    rs_share_result = \<lparr>revalidate_status = NotConnected, revalidate_reason = No_Reason, revalidate_id = 0\<rparr>\<rparr>"

definition crossing_status :: "revalidate_share_status \<Rightarrow> restart_revalidation_status" where
  "crossing_status status =
    (case status of
      Validated \<Rightarrow> Revalidated
    | AlreadyValidated \<Rightarrow> Restart_already_validated
    | NotConnected \<Rightarrow> ShareMissing
    | ParentUnvalidated \<Rightarrow> Restart_parent_unvalidated
    | Revalidate_Rejected \<Rightarrow> ShareRejected)"

definition read_archived :: "json_tokener \<Rightarrow> work_archive \<Rightarrow> directory \<Rightarrow> hash256 \<Rightarrow> p2p_mining_context_proposal result" where
  "read_archived tok ar dir i = bindE (archive_read ar dir i) (deserialize_p2p_mining_context_payload tok)"

definition parent_ready :: "share_chain \<Rightarrow> share \<Rightarrow> bool" where
  "parent_ready chain s \<longleftrightarrow> is_zero_share_id (parent_id s) \<or>
    (case find chain (parent_id s) of None \<Rightarrow> False | Some parent \<Rightarrow> validated_ancestry parent)"

definition revalidate_recovered_share ::
  "progpow_backend option \<Rightarrow> json_tokener \<Rightarrow> canonical_lookup \<Rightarrow> sidechain_parameters \<Rightarrow> work_archive \<Rightarrow> directory \<Rightarrow>
    p2p_mining_anchor list \<Rightarrow> u64 \<Rightarrow> progpowz_context_mode \<Rightarrow> share_id \<Rightarrow> hash256 \<Rightarrow>
    (share_chain \<times> nat, restart_revalidation_result) op"
where
  "revalidate_recovered_share backend tok lookup params ar dir observations now mode i proposal_id =
    (let result = default_restart_result i in
     getsS (\<lambda>(chain, _).
     bindS (liftS (matches_sidechain_parameters chain params)) (\<lambda>matches.
     if \<not> matches then returnS (result\<lparr>rs_status := Restart_parameter_mismatch\<rparr>)
     else (case find chain i of
       None \<Rightarrow> returnS (result\<lparr>rs_status := ShareMissing\<rparr>)
     | Some cs \<Rightarrow>
         if validated_ancestry cs then returnS (result\<lparr>rs_status := Restart_already_validated\<rparr>)
         else
           bindS (liftS (read_archived tok ar dir proposal_id)) (\<lambda>p.
           let candidate = cs_share cs in
           bindS (liftS (validate_p2p_mining_context_structure tok p)) (\<lambda>header.
           if zano_height candidate \<noteq> pr_zano_height p \<or> mining_header_hash candidate \<noteq> header \<or>
             network_difficulty candidate \<noteq> pr_network_difficulty p
           then returnS (result\<lparr>rs_status := Restart_candidate_mismatch\<rparr>)
           else if \<not> parent_ready chain candidate
           then returnS (result\<lparr>rs_status := Restart_parent_unvalidated\<rparr>)
           else
             bindS (on_snd (audit_historical_local_anchor tok lookup None p observations)) (\<lambda>initial.
             let result = result\<lparr>rs_initial_anchor := initial\<rparr> in
             if anchor_status initial \<noteq> AnchorMatchedUntrusted \<or> anchor_mining_header_hash initial \<noteq> header
             then returnS (result\<lparr>rs_status := Restart_anchor_rejected\<rparr>)
             else
               bindS (on_snd (audit_historical_local_anchor tok lookup None p observations)) (\<lambda>final.
               let result = result\<lparr>rs_final_anchor := final\<rparr> in
               if anchor_status final \<noteq> AnchorMatchedUntrusted \<or>
                 anchor_mining_header_hash final \<noteq> anchor_mining_header_hash initial
               then returnS (result\<lparr>rs_status := AnchorChangedBeforeRevalidation\<rparr>)
               else
                 bindS (on_fst (as_op (\<lambda>c. revalidate_connected_share backend c i
                     \<lparr>ctx_zano_height = pr_zano_height p, ctx_mining_header_hash = header,
                      ctx_network_difficulty = pr_network_difficulty p\<rparr> now mode))) (\<lambda>r.
                 returnS (result\<lparr>rs_share_result := r, rs_status := crossing_status (revalidate_status r)\<rparr>))))))))))"

definition restart_revalidation_status_name :: "restart_revalidation_status \<Rightarrow> string" where
  "restart_revalidation_status_name status =
    (case status of
      Revalidated \<Rightarrow> ''revalidated''
    | Restart_already_validated \<Rightarrow> ''already-validated''
    | ShareMissing \<Rightarrow> ''share-missing''
    | Restart_parameter_mismatch \<Rightarrow> ''parameter-mismatch''
    | Restart_candidate_mismatch \<Rightarrow> ''candidate-mismatch''
    | Restart_parent_unvalidated \<Rightarrow> ''parent-unvalidated''
    | Restart_anchor_rejected \<Rightarrow> ''anchor-rejected''
    | AnchorChangedBeforeRevalidation \<Rightarrow> ''anchor-changed-before-revalidation''
    | ShareRejected \<Rightarrow> ''share-rejected'')"

section \<open>The whole history\<close>

type_synonym recovery_work_key = "u64 \<times> hash256 \<times> difficulty128"

record restart_recovery_result =
  rec_archive_records :: nat
  rec_connected_considered :: nat
  rec_revalidated :: nat
  rec_already_validated :: nat
  rec_missing_local_work :: nat
  rec_parent_unvalidated :: nat
  rec_rejected :: nat
  rec_pruned_connected_shares :: nat

text \<open>Of several records for the same work the smallest identifier is kept.\<close>

definition index_step ::
  "json_tokener \<Rightarrow> work_archive \<Rightarrow> directory \<Rightarrow> hash256 \<Rightarrow> (recovery_work_key, hash256) fmap \<Rightarrow>
    (recovery_work_key, hash256) fmap result"
where
  "index_step tok ar dir i index =
    bindE (read_archived tok ar dir i) (\<lambda>p.
    bindE (validate_p2p_mining_context_structure tok p) (\<lambda>header.
    let key = (pr_zano_height p, header, pr_network_difficulty p) in
    Ok (case fmlookup index key of
      None \<Rightarrow> fmupd key i index
    | Some j \<Rightarrow> if i < j then fmupd key i index else index)))"

definition recovery_order :: "share_chain \<Rightarrow> share_id list" where
  "recovery_order chain =
    sort_key (\<lambda>i. (share_height (cs_share (the (find chain i))), i)) (connected_share_ids chain)"

definition count_crossing :: "restart_revalidation_status \<Rightarrow> restart_recovery_result \<Rightarrow> restart_recovery_result" where
  "count_crossing status r =
    (case status of
      Revalidated \<Rightarrow> r\<lparr>rec_revalidated := rec_revalidated r + 1\<rparr>
    | Restart_already_validated \<Rightarrow> r\<lparr>rec_already_validated := rec_already_validated r + 1\<rparr>
    | Restart_parent_unvalidated \<Rightarrow> r\<lparr>rec_parent_unvalidated := rec_parent_unvalidated r + 1\<rparr>
    | _ \<Rightarrow> r\<lparr>rec_rejected := rec_rejected r + 1\<rparr>)"

fun recover_shares ::
  "progpow_backend option \<Rightarrow> json_tokener \<Rightarrow> canonical_lookup \<Rightarrow> sidechain_parameters \<Rightarrow> work_archive \<Rightarrow> directory \<Rightarrow>
    p2p_mining_anchor list \<Rightarrow> u64 \<Rightarrow> progpowz_context_mode \<Rightarrow> (recovery_work_key, hash256) fmap \<Rightarrow> share_id list \<Rightarrow>
    restart_recovery_result \<times> share_id list \<Rightarrow> (share_chain \<times> nat, restart_recovery_result \<times> share_id list) op"
where
  "recover_shares backend tok lookup params ar dir observations now mode index [] (result, roots) = returnS (result, roots)"
| "recover_shares backend tok lookup params ar dir observations now mode index (i # ids) (result, roots) = getsS (\<lambda>(chain, _).
    let result = result\<lparr>rec_connected_considered := rec_connected_considered result + 1\<rparr>;
        continue = recover_shares backend tok lookup params ar dir observations now mode index ids in
    case find chain i of
      None \<Rightarrow> liftS (Throw (Runtime_error ''connected share disappeared during restart recovery''))
    | Some cs \<Rightarrow>
        if validated_ancestry cs
        then continue (result\<lparr>rec_already_validated := rec_already_validated result + 1\<rparr>, roots)
        else
          let s = cs_share cs in
          (case fmlookup index (zano_height s, mining_header_hash s, network_difficulty s) of
            None \<Rightarrow> continue (result\<lparr>rec_missing_local_work := rec_missing_local_work result + 1\<rparr>, roots)
          | Some proposal_id \<Rightarrow>
              bindS (revalidate_recovered_share backend tok lookup params ar dir observations now mode i proposal_id) (\<lambda>crossing.
              continue (count_crossing (rs_status crossing) result,
                if rs_status crossing = Restart_anchor_rejected \<and>
                  anchor_status (rs_initial_anchor crossing) = Anchor_parent_mismatch
                then roots @ [i] else roots))))"

definition prune_root :: "share_id \<Rightarrow> (share_chain, nat) op" where
  "prune_root i c =
    (case prune_connected_subtree c i of
      None \<Rightarrow> (Throw (Logic_error ''subtree collection does not end''), c)
    | Some (c', r) \<Rightarrow> (r, c'))"

fun prune_roots :: "share_id list \<Rightarrow> nat \<Rightarrow> (share_chain, nat) op" where
  "prune_roots [] n = returnS n"
| "prune_roots (i # ids) n = bindS (prune_root i) (\<lambda>k. prune_roots ids (n + k))"

definition recover_replayed_history ::
  "progpow_backend option \<Rightarrow> json_tokener \<Rightarrow> canonical_lookup \<Rightarrow> sidechain_parameters \<Rightarrow> work_archive \<Rightarrow> directory \<Rightarrow>
    nat \<Rightarrow> u64 \<Rightarrow> progpowz_context_mode \<Rightarrow> (share_chain \<times> nat, restart_recovery_result) op"
where
  "recover_replayed_history backend tok lookup params ar dir max_archive_records now mode = getsS (\<lambda>(chain, _).
    bindS (liftS (matches_sidechain_parameters chain params)) (\<lambda>matches.
    if \<not> matches then liftS (Throw (Runtime_error ''restart recovery sidechain parameter mismatch''))
    else
      bindS (liftS (list_ids ar dir max_archive_records)) (\<lambda>proposal_ids.
      bindS (liftS (load_local_mining_anchors tok ar dir max_archive_records)) (\<lambda>observations.
      if length observations \<noteq> length proposal_ids
      then liftS (Throw (Runtime_error ''mining-work archive enumeration changed during recovery''))
      else
        bindS (liftS (forE (index_step tok ar dir) proposal_ids fmempty)) (\<lambda>index.
        bindS (recover_shares backend tok lookup params ar dir observations now mode index (recovery_order chain)
          (\<lparr>rec_archive_records = length proposal_ids, rec_connected_considered = 0, rec_revalidated = 0,
            rec_already_validated = 0, rec_missing_local_work = 0, rec_parent_unvalidated = 0, rec_rejected = 0,
            rec_pruned_connected_shares = 0\<rparr>, [])) (\<lambda>(result, roots).
        bindS (on_fst (prune_roots roots 0)) (\<lambda>pruned.
        returnS (result\<lparr>rec_pruned_connected_shares := pruned\<rparr>))))))))"

section \<open>The cache gives back what was validated\<close>

lemma bindS_eq:
  "bindS m f s = (r, t) \<longleftrightarrow> (\<exists>e. m s = (Throw e, t) \<and> r = Throw e) \<or> (\<exists>x u. m s = (Ok x, u) \<and> f x u = (r, t))"
  by (auto simp: bindS_def split: prod.splits sum.splits)

lemma bindS_lift_Ok: "bindS (liftS (Ok x)) f = f x"
  by (rule ext) (simp add: bindS_def liftS_def)

lemma matches_forget [simp]:
  "matches_sidechain_parameters (forget_validation c) params = matches_sidechain_parameters c params"
  by (simp add: matches_sidechain_parameters_def)

lemma persist_saved:
  assumes "persist_replayed_validation_cache lookup c params st h parent (old, k) = (Ok r, (new, k'))" "rp_status r = Persist_saved"
  shows "matches_sidechain_parameters c params = Ok True \<and> parent \<noteq> 0 \<and> (\<exists>records. replay_validation_snapshot c = Ok records \<and>
    save_validation st old \<lparr>snap_checkpoint = \<lparr>cp_zano_height = h - 1, cp_block_hash = parent\<rparr>, snap_records = records\<rparr> =
      (new, Ok ()))"
  using assms
  by (auto simp: persist_replayed_validation_cache_def bindS_eq_Ok liftS_def returnS_def Let_def split: if_splits)

lemma persist_not_saved:
  assumes "persist_replayed_validation_cache lookup c params st h parent (old, k) = (x, (new, k'))"
    "\<And>r. x = Ok r \<Longrightarrow> rp_status r \<noteq> Persist_saved"
  shows "new = old"
  using assms
  by (auto simp: persist_replayed_validation_cache_def bindS_eq liftS_def returnS_def Let_def
      dest: save_keeps split: if_splits)

text \<open>C23. A restart gives back exactly the validation that was cached, and only with the daemon's consent. Let the
  node write its cache for a chain it can reach. If that reports saved, a later start that replays the same shares
  without proof of work, and whose daemon answers twice with the same block for the checkpoint's height, ends
  with the chain as it was, every proof of work included; if the daemon answers with another block, nothing is
  restored. If the write does not report saved, or throws, the file is unchanged.\<close>

theorem validation_cache_roundtrip:
  assumes "chain_reachable full backend c" "difficulty_policy c \<noteq> None" "\<not> contains c 0"
    and "persist_replayed_validation_cache lookup c params st h parent (old, k) = (x, (new, k'))"
    and "answered_twice later m (h - 1) block" "block \<noteq> 0"
  shows "case x of
      Inl e \<Rightarrow> new = old
    | Inr r \<Rightarrow>
        if rp_status r \<noteq> Persist_saved then new = old
        else \<exists>n. restore_replayed_validation_cache later params st new (forget_validation c, m) =
          (Ok \<lparr>rv_status = (if block = parent then Cache_restored else Cache_stale),
             rv_checkpoint = Some \<lparr>cp_zano_height = h - 1, cp_block_hash = parent\<rparr>,
             rv_records_loaded = n, rv_records_restored = (if block = parent then n else 0)\<rparr>,
           (if block = parent then c else forget_validation c, m + 2))"
proof (cases "\<exists>r. x = Ok r \<and> rp_status r = Persist_saved")
  case False
  with persist_not_saved [OF assms(4)] show ?thesis by (auto split: sum.split)
next
  case True
  then obtain r where x: "x = Ok r" "rp_status r = Persist_saved" by blast
  let ?cp = "\<lparr>cp_zano_height = h - 1, cp_block_hash = parent\<rparr>"
  from persist_saved [OF assms(4) [unfolded x(1)] x(2)] obtain records where
    records: "matches_sidechain_parameters c params = Ok True" "parent \<noteq> 0" "replay_validation_snapshot c = Ok records"
      "save_validation st old \<lparr>snap_checkpoint = ?cp, snap_records = records\<rparr> = (new, Ok ())" by blast
  let ?rs = "sort_key replay_share_id records"
  have load: "load_validation st new = Ok (Some \<lparr>snap_checkpoint = ?cp, snap_records = ?rs\<rparr>)"
    using save_load [OF records(4)] by simp
  have inv: "chain_inv full c" using assms(1) by (rule chain.reach_inv)
  obtain rs where rs: "replay_validation_snapshot c = Ok rs" "distinct (map replay_share_id rs)"
    "\<forall>i v. (\<exists>r\<in>set rs. replay_share_id r = i \<and> replay_validation r = v) \<longleftrightarrow>
      (\<exists>cs. fmlookup (connected c) i = Some cs \<and> validated_ancestry cs \<and> pow_validation cs = Some v)"
    using snapshot_ok [OF chain_invD(2) [OF inv] assms(2)] .
  have "distinct (map replay_share_id ?rs)"
    using rs(1,2) records(3) mset_eq_imp_distinct_iff [of "map replay_share_id ?rs" "map replay_share_id records"] by simp
  moreover have "fmlookup (connected c) 0 = None" using assms(3) by (simp add: contains_def fmlookup_dom_iff)
  ultimately have restore: "restore_replay_validation (forget_validation c) ?rs = (c, Ok (length ?rs))"
    using records_restore [OF inv assms(2), of ?rs] rs(1,3) records(3) by simp
  have stable: "stable_canonical_checkpoint_matches later ?cp m = (Ok (block = parent), m + 2)"
    using assms(5,6) records(2) by (auto simp: stable_checkpoint_eq_Ok)
  have run: "restore_replayed_validation_cache later params st new (forget_validation c, m) =
      (Ok \<lparr>rv_status = (if block = parent then Cache_restored else Cache_stale), rv_checkpoint = Some ?cp,
         rv_records_loaded = length ?rs, rv_records_restored = (if block = parent then length ?rs else 0)\<rparr>,
       (if block = parent then c else forget_validation c, m + 2))"
    using load restore stable records(1)
    by (simp add: restore_replayed_validation_cache_def getsS_def bindS_def liftS_def returnS_def on_fst_def on_snd_def zoom_def
        as_op_def Let_def)
  show ?thesis using x run by auto
qed

text \<open>A node that has just started, and a daemon with one block.\<close>

definition still_daemon :: canonical_lookup where
  "still_daemon k height = Ok \<lparr>header_height = height, header_block_hash = array_of_nat 1\<rparr>"

definition sample_store :: validation_store where
  "sample_store = \<lparr>vs_path = ''v'', vs_sidechain_id = array_of_nat 2\<rparr>"

theorem validation_cache_roundtrip_witness:
  "\<exists>r new. persist_replayed_validation_cache still_daemon sample_start (canonical_sidechain_parameters Testnet) sample_store 5
      (array_of_nat 1) (None, 0) = (Ok r, (new, 2)) \<and> rp_status r = Persist_saved \<and>
    (\<exists>res. restore_replayed_validation_cache still_daemon (canonical_sidechain_parameters Testnet) sample_store new
      (forget_validation sample_start, 0) = (Ok res, (sample_start, 2)) \<and> rv_status res = Cache_restored)"
proof -
  let ?params = "canonical_sidechain_parameters Testnet" and ?one = "array_of_nat 1 :: hash256"
  have one: "?one \<noteq> 0" by (simp add: arr_val_eq_iff [symmetric] arr_val_array_of_nat)
  have twice: "answered_twice still_daemon k h ?one" for k h by (simp add: answered_twice_def still_daemon_def)
  then have stable: "stable_canonical_parent_for_work_height still_daemon 5 0 = (Ok ?one, 2)" by (simp add: stable_parent_eq_Ok)
  have snap: "replay_validation_snapshot sample_start = Ok []"
    by (simp add: replay_validation_snapshot_def sample_start_fields sorted_list_of_fmap_def sorted_list_of_fset.rep_eq)
  obtain bytes where bytes: "serialize_snapshot (vs_sidechain_id sample_store)
      \<lparr>snap_checkpoint = \<lparr>cp_zano_height = 4, cp_block_hash = ?one\<rparr>, snap_records = []\<rparr> = Ok bytes"
    using one by (auto simp: serialize_snapshot_eq_Ok Let_def)
  have "\<exists>r. persist_replayed_validation_cache still_daemon sample_start ?params sample_store 5 ?one (None, 0) =
      (Ok r, (Some bytes, 2)) \<and> rp_status r = Persist_saved"
    using one stable snap bytes sample_matches
    by (simp add: persist_replayed_validation_cache_def bindS_def liftS_def returnS_def on_fst_def on_snd_def zoom_def
        as_op_def save_validation_def Let_def)
  then obtain r where r: "persist_replayed_validation_cache still_daemon sample_start ?params sample_store 5 ?one (None, 0) =
      (Ok r, (Some bytes, 2))" "rp_status r = Persist_saved" by blast
  have "chain_reachable True None sample_start"
    using sample_start_ok by (intro reach_start) (auto simp: chain_start_def)
  moreover have "difficulty_policy sample_start \<noteq> None" "\<not> contains sample_start 0"
    by (simp_all add: sample_start_fields contains_def)
  ultimately show ?thesis
    using validation_cache_roundtrip [OF _ _ _ r(1) twice [of 0] one] r by fastforce
qed

section \<open>Recovery from the archive\<close>

text \<open>The archive has work for the share, and the daemon confirmed it twice, together with what the archive itself
  observed.\<close>

definition archived_and_anchored ::
  "json_tokener \<Rightarrow> canonical_lookup \<Rightarrow> work_archive \<Rightarrow> directory \<Rightarrow> p2p_mining_anchor list \<Rightarrow> share \<Rightarrow> bool"
where
  "archived_and_anchored tok lookup ar dir observations s \<longleftrightarrow> (\<exists>i p k1 k2. read_archived tok ar dir i = Ok p \<and>
    validate_p2p_mining_context_structure tok p = Ok (mining_header_hash s) \<and> zano_height s = pr_zano_height p \<and>
    network_difficulty s = pr_network_difficulty p \<and> anchored_locally lookup None observations p k1 \<and> k1 < k2 \<and>
    anchored_locally lookup None observations p k2)"

lemma revalidate_recovered_steps:
  assumes "revalidate_recovered_share backend tok lookup params ar dir obs now mode i pid (c, k) = (r, (c', k'))"
  shows "(\<exists>cs ctx x. find c i = Some cs \<and> archived_and_anchored tok lookup ar dir obs (cs_share cs) \<and>
    revalidate_connected_share backend c i ctx now mode = (c', x)) \<or> c' = c"
proof (rule disjCI)
  assume changed: "c' \<noteq> c"
  from assms obtain cs p header initial k1 final k2 x where "find c i = Some cs" "read_archived tok ar dir pid = Ok p"
    "validate_p2p_mining_context_structure tok p = Ok header" "zano_height (cs_share cs) = pr_zano_height p"
    "mining_header_hash (cs_share cs) = header" "network_difficulty (cs_share cs) = pr_network_difficulty p"
    "audit_historical_local_anchor tok lookup None p obs k = (Ok initial, k1)" "anchor_status initial = AnchorMatchedUntrusted"
    "audit_historical_local_anchor tok lookup None p obs k1 = (Ok final, k2)" "anchor_status final = AnchorMatchedUntrusted"
    "revalidate_connected_share backend c i \<lparr>ctx_zano_height = pr_zano_height p, ctx_mining_header_hash = header,
      ctx_network_difficulty = pr_network_difficulty p\<rparr> now mode = (c', x)"
    using changed
    by (auto simp: revalidate_recovered_share_def getsS_def Let_def bindS_eq liftS_def returnS_def
        split: if_splits option.splits)
  then show "\<exists>cs ctx x. find c i = Some cs \<and> archived_and_anchored tok lookup ar dir obs (cs_share cs) \<and>
    revalidate_connected_share backend c i ctx now mode = (c', x)"
    unfolding archived_and_anchored_def
    using audit_anchor_eq_Ok [of tok lookup None p obs k initial k1] audit_anchor_eq_Ok [of tok lookup None p obs k1 final k2]
    by blast
qed

definition recovers ::
  "progpow_backend option \<Rightarrow> (share \<Rightarrow> bool) \<Rightarrow> share_chain \<times> nat \<Rightarrow> share_chain \<times> nat \<Rightarrow> bool"
where
  "recovers backend anchored s t \<longleftrightarrow> (chain_reachable False backend (fst s) \<longrightarrow> chain_reachable False backend (fst t) \<and>
    (\<forall>i new. find (fst t) i = Some new \<longrightarrow> (\<exists>old. find (fst s) i = Some old \<and> cs_share new = cs_share old \<and>
      (validated_ancestry new \<longrightarrow> validated_ancestry old \<or> anchored (cs_share old)))))"

lemma recovers_order: "state_order (recovers backend anchored)"
proof
  show "recovers backend anchored s s" for s by (simp add: recovers_def)
  show "recovers backend anchored s u" if "recovers backend anchored s t" "recovers backend anchored t u" for s t u
    using that unfolding recovers_def by fastforce
qed

interpretation recovery: state_order "recovers backend anchored" for backend anchored
  by (rule recovers_order)

lemma recovers_revalidate:
  assumes "revalidate_connected_share backend c i ctx now mode = (c', x)" "find c i = Some cs" "anchored (cs_share cs)"
  shows "recovers backend anchored (c, k) (c', k')"
proof -
  have "\<exists>old. find c j = Some old \<and> cs_share new = cs_share old \<and>
      (validated_ancestry new \<longrightarrow> validated_ancestry old \<or> anchored (cs_share old))" if "find c' j = Some new" for j new
    using assms(1)
  proof (cases rule: revalidate_cases)
    case (validates a v)
    with that assms(2,3) show ?thesis by (cases "j = i") (auto simp: mark_validated_def find_def)
  qed (use that in auto)
  then show ?thesis
    using chain_step.revalidate [OF assms(1), of False] by (auto simp: recovers_def returned_def intro: reach_step)
qed

lemma recovers_same: "recovers backend anchored (c, k) (c, k')"
  by (simp add: recovers_def)

lemma recover_share_within:
  "recovery.within backend (archived_and_anchored tok lookup ar dir obs)
    (revalidate_recovered_share backend tok lookup params ar dir obs now mode i pid)"
  unfolding recovery.within_def
proof
  fix s :: "share_chain \<times> nat"
  obtain c k r c' k' where s: "s = (c, k)" "revalidate_recovered_share backend tok lookup params ar dir obs now mode i pid (c, k) =
    (r, (c', k'))" by (metis surj_pair)
  from revalidate_recovered_steps [OF s(2)] show "recovers backend (archived_and_anchored tok lookup ar dir obs) s
      (snd (revalidate_recovered_share backend tok lookup params ar dir obs now mode i pid s))"
    unfolding s by (elim disjE exE conjE) (simp_all add: s(2) recovers_same recovers_revalidate)
qed

lemma recover_shares_within:
  "recovery.within backend (archived_and_anchored tok lookup ar dir obs)
    (recover_shares backend tok lookup params ar dir obs now mode index ids acc)"
proof (induction ids arbitrary: acc)
  case Nil
  then show ?case by (cases acc) (simp add: recovery.within_return)
next
  case (Cons i ids)
  obtain result roots where acc: "acc = (result, roots)" by force
  show ?case
    unfolding acc recover_shares.simps Let_def by (rule recovery.within_rules recover_share_within Cons.IH)+
qed

lemma on_fst_bind: "on_fst (bindS m f) = bindS (on_fst m) (\<lambda>x. on_fst (f x))"
  by (rule ext) (auto simp: on_fst_def zoom_def bindS_def split: prod.splits sum.splits)

lemma on_fst_return: "on_fst (returnS x) = returnS x"
  by (rule ext) (auto simp: on_fst_def zoom_def returnS_def split: prod.splits)

lemma prune_root_within: "recovery.within backend anchored (on_fst (prune_root i))"
  unfolding recovery.within_def
proof
  fix s :: "share_chain \<times> nat"
  obtain c k where s: "s = (c, k)" by force
  show "recovers backend anchored s (snd (on_fst (prune_root i) s))"
  proof (cases "chain_reachable False backend c")
    case True
    obtain d ids where d: "prune_connected_subtree_ids c i = Some (d, Ok ids)"
      "\<And>j. fmlookup (connected d) j = (if j \<in> set ids then None else fmlookup (connected c) j)"
      by (rule prune_result [OF chain.reach_inv [OF True], of i], rule that, assumption+)
    have "chain_reachable False backend d"
      using reach_step [OF True chain_step.prune [OF d(1)]] by (simp add: returned_def)
    then show ?thesis
      by (auto simp: s recovers_def on_fst_def zoom_def prune_root_def prune_connected_subtree_def d find_def split: if_splits)
  qed (simp add: s recovers_def)
qed

lemma prune_roots_within: "recovery.within backend anchored (on_fst (prune_roots ids n))"
  by (induction ids arbitrary: n) (simp_all add: on_fst_bind on_fst_return recovery.within_return recovery.within_bind prune_root_within)

text \<open>C22. Recovery after a restart trusts nothing but the node's archive and its daemon. For every outcome, an
  exception included: the chain stays one that the share chain's operations can reach; no share is added or
  altered; and every share that is validated afterwards either was so before, or has work of the node's own archive
  with its height, difficulty and header, whose parent block the daemon confirmed in two audits together with
  everything the archive itself observed about it.\<close>

theorem recovery_trusts_only_the_archive:
  assumes "chain_reachable False backend c"
    and "recover_replayed_history backend tok lookup params ar dir max_records now mode (c, k) = (r, (c', k'))"
  shows "chain_reachable False backend c' \<and>
    (\<forall>i new. find c' i = Some new \<longrightarrow> (\<exists>old. find c i = Some old \<and> cs_share new = cs_share old \<and>
      (validated_ancestry new \<longrightarrow> validated_ancestry old \<or>
        (\<exists>obs. load_local_mining_anchors tok ar dir max_records = Ok obs \<and>
          archived_and_anchored tok lookup ar dir obs (cs_share old)))))"
proof (cases "load_local_mining_anchors tok ar dir max_records")
  case (Inl e)
  with assms show ?thesis
    by (auto simp: recover_replayed_history_def getsS_def bindS_eq liftS_def split: if_splits)
next
  case (Inr obs)
  have "recovery.within backend (archived_and_anchored tok lookup ar dir obs)
      (recover_replayed_history backend tok lookup params ar dir max_records now mode)"
    unfolding recover_replayed_history_def Inr bindS_lift_Ok
    by (rule recovery.within_rules recover_shares_within prune_roots_within)+
  from recovery.withinD [OF this assms(2)]
  have "recovers backend (archived_and_anchored tok lookup ar dir obs) (c, k) (c', k')" .
  with assms(1) Inr show ?thesis unfolding recovers_def by fastforce
qed

theorem recovery_trusts_only_the_archive_witness:
  "\<exists>r c' k'. recover_replayed_history (Some zero_hash_backend) sample_tok still_daemon (canonical_sidechain_parameters Testnet)
      \<lparr>archive_directory = ''work'', archive_sidechain_id = array_of_nat 2\<rparr> [] 10 1000 Light (sample_chain, 0) = (r, (c', k')) \<and>
    (\<forall>i new. find c' i = Some new \<longrightarrow> find sample_chain i \<noteq> None)"
proof -
  let ?run = "recover_replayed_history (Some zero_hash_backend) sample_tok still_daemon (canonical_sidechain_parameters Testnet)
      \<lparr>archive_directory = ''work'', archive_sidechain_id = array_of_nat 2\<rparr> [] 10 1000 Light (sample_chain, 0)"
  obtain r c' k' where run: "?run = (r, (c', k'))" by (metis surj_pair)
  from recovery_trusts_only_the_archive [OF reachable_loose [OF sample_reachable] run] run show ?thesis by blast
qed

end
