(* ===== verification/Block_Submitter.thy ===== *)
theory Block_Submitter
  imports Sample_Context
begin

text \<open>
  \<open>src/src/block_submitter.cpp\<close>: the templates that were handed out, the queue of solved blocks and the
  thread that submits them. Each step below holds the submitter's mutex once, or calls out without it, so the
  step relation has every interleaving of the worker with the callers. The daemon's answer and the failures of
  a call are inputs of the steps; what the submitter told its two callbacks is kept as lists.
\<close>

section \<open>Data\<close>

record block_candidate =
  bc_zano_height :: u64
  bc_mining_header_hash :: hash256
  bc_nonce :: u64

datatype block_submit_status = Block_submitted | Block_alternative_accepted | SubmissionFailed

datatype block_submission_result = Result_submitted | Result_alternative_accepted

record block_submit_event =
  be_status :: block_submit_status
  be_candidate :: block_candidate
  be_error :: string

datatype block_candidate_queue_status = Candidate_queued | StaleTemplate | QueueFull | Submitter_stopped

definition queue_result_handled :: "block_candidate_queue_status \<Rightarrow> bool" where
  "queue_result_handled status \<longleftrightarrow> status = Candidate_queued \<or> status = StaleTemplate"

record queued_candidate =
  qc_candidate :: block_candidate
  qc_block_blob_hex :: string

text \<open>Where the worker thread stands. \<open>Submit_returned\<close> is the moment after the daemon accepted a block and
  before the worker takes the mutex again.\<close>

datatype worker =
    No_worker
  | Worker_waiting
  | Worker_submitting queued_candidate
  | Submit_returned queued_candidate block_submission_result
  | Worker_emitting block_submit_event
  | Worker_exited

record submitter =
  sm_handler :: bool
  sm_max_templates :: nat
  sm_max_queue :: nat
  sm_running :: bool
  sm_stop_requested :: bool
  sm_worker :: worker
  sm_templates :: "(hash256, string) fmap"
  sm_template_order :: "hash256 list"
  sm_queue :: "queued_candidate list"
  sm_calls :: "(block_candidate \<times> string) list"
  sm_events :: "block_submit_event list"

section \<open>The block with a nonce\<close>

definition nonce_byte :: "u64 \<Rightarrow> nat \<Rightarrow> u8" where
  "nonce_byte n i = ucast (drop_bit (i * 8) n AND 0xff)"

definition set_nonce :: "u64 \<Rightarrow> u8 list \<Rightarrow> u8 list" where
  "set_nonce n bytes = fold (\<lambda>i bs. bs[1 + i := nonce_byte n i]) [0..<8] bytes"

definition block_blob_with_nonce :: "string \<Rightarrow> u64 \<Rightarrow> string result" where
  "block_blob_with_nonce block_blob_hex n =
    bindE (hex_to_bytes block_blob_hex) (\<lambda>bytes.
      if length bytes < 9 then Throw (Runtime_error ''block template is too short to contain nonce'')
      else Ok (bytes_to_hex (set_nonce n bytes)))"

section \<open>Callers\<close>

definition make_block_submitter :: "bool \<Rightarrow> bool \<Rightarrow> nat \<Rightarrow> nat \<Rightarrow> submitter result" where
  "make_block_submitter submit handler max_templates max_queue =
    (if \<not> submit then Throw (Invalid_argument ''block submit function is required'')
     else if max_templates = 0 \<or> max_queue = 0
     then Throw (Invalid_argument ''block submitter bounds must be nonzero'')
     else Ok \<lparr>sm_handler = handler, sm_max_templates = max_templates, sm_max_queue = max_queue, sm_running = False,
       sm_stop_requested = False, sm_worker = No_worker, sm_templates = fmempty, sm_template_order = [],
       sm_queue = [], sm_calls = [], sm_events = []\<rparr>)"

text \<open>\<open>spawn\<close> is the exception of the thread's constructor, if it threw.\<close>

definition submitter_start :: "exn option \<Rightarrow> submitter \<Rightarrow> submitter \<times> unit result" where
  "submitter_start spawn s =
    (if sm_running s then (s, Throw (Runtime_error ''block submitter is already running''))
     else
       let s = s\<lparr>sm_stop_requested := False, sm_running := True\<rparr> in
       case spawn of
         None \<Rightarrow> (s\<lparr>sm_worker := Worker_waiting\<rparr>, Ok ())
       | Some e \<Rightarrow> (s\<lparr>sm_running := False\<rparr>, Throw e))"

text \<open>\<open>stop\<close> asks the worker to end, waits for it without the mutex, and takes the mutex again.\<close>

definition stop_request :: "submitter \<Rightarrow> submitter" where
  "stop_request s = (if \<not> sm_running s then s else s\<lparr>sm_stop_requested := True\<rparr>)"

definition stop_finish :: "submitter \<Rightarrow> submitter" where
  "stop_finish s = s\<lparr>sm_worker := No_worker, sm_running := False, sm_queue := []\<rparr>"

partial_function (option) evict_templates ::
  "nat \<Rightarrow> hash256 \<Rightarrow> hash256 list \<Rightarrow> (hash256, string) fmap \<Rightarrow> (hash256 list \<times> (hash256, string) fmap) option"
where
  "evict_templates max_templates h order templates =
    (if max_templates < fcard (fmdom templates) \<and> order \<noteq> []
     then
       if hd order = h then evict_templates max_templates h (tl order @ [hd order]) templates
       else evict_templates max_templates h (tl order) (fmdrop (hd order) templates)
     else Some (order, templates))"

definition remember_template :: "hash256 \<Rightarrow> string \<Rightarrow> submitter \<Rightarrow> (submitter \<times> unit result) option" where
  "remember_template h block_blob_hex s =
    (case block_blob_with_nonce block_blob_hex 0 of
      Throw e \<Rightarrow> Some (s, Throw e)
    | Ok _ \<Rightarrow>
        let order = (if fmlookup (sm_templates s) h = None then sm_template_order s @ [h] else sm_template_order s);
            templates = fmupd h block_blob_hex (sm_templates s) in
        (case evict_templates (sm_max_templates s) h order templates of
          None \<Rightarrow> None
        | Some (order, templates) \<Rightarrow> Some (s\<lparr>sm_template_order := order, sm_templates := templates\<rparr>, Ok ())))"

definition enqueue :: "block_candidate \<Rightarrow> submitter \<Rightarrow> submitter \<times> block_candidate_queue_status" where
  "enqueue candidate s =
    (if \<not> sm_running s \<or> sm_stop_requested s then (s, Submitter_stopped)
     else (case fmlookup (sm_templates s) (bc_mining_header_hash candidate) of
       None \<Rightarrow> (s, StaleTemplate)
     | Some blob \<Rightarrow>
         if sm_max_queue s \<le> length (sm_queue s) then (s, QueueFull)
         else (s\<lparr>sm_queue := sm_queue s @ [\<lparr>qc_candidate = candidate, qc_block_blob_hex = blob\<rparr>]\<rparr>, Candidate_queued)))"

definition submitter_running :: "submitter \<Rightarrow> bool" where
  "submitter_running s \<longleftrightarrow> sm_running s \<and> \<not> sm_stop_requested s"

definition submitter_queued :: "submitter \<Rightarrow> nat" where
  "submitter_queued s = length (sm_queue s)"

definition template_count :: "submitter \<Rightarrow> nat" where
  "template_count s = fcard (fmdom (sm_templates s))"

section \<open>The worker\<close>

definition emit :: "block_submit_event \<Rightarrow> submitter \<Rightarrow> submitter" where
  "emit event s = (if \<not> sm_handler s then s else s\<lparr>sm_events := sm_events s @ [event]\<rparr>)"

text \<open>The wait ends when a stop was requested or the queue is not empty.\<close>

definition worker_wake :: "submitter \<Rightarrow> submitter option" where
  "worker_wake s =
    (if sm_stop_requested s then Some (s\<lparr>sm_worker := Worker_exited\<rparr>)
     else (case sm_queue s of
       [] \<Rightarrow> None
     | q # queue \<Rightarrow> Some (s\<lparr>sm_worker := Worker_submitting q, sm_queue := queue\<rparr>)))"

text \<open>How the submit function ended: a result, an exception with its text, or something else thrown.\<close>

datatype submit_outcome = Returned block_submission_result | Threw string | Threw_other

definition failed_event :: "block_candidate \<Rightarrow> string \<Rightarrow> block_submit_event" where
  "failed_event candidate error = \<lparr>be_status = SubmissionFailed, be_candidate = candidate, be_error = error\<rparr>"

fun exn_what :: "exn \<Rightarrow> string" where
  "exn_what (Invalid_argument m) = m"
| "exn_what (Out_of_range m) = m"
| "exn_what (Runtime_error m) = m"
| "exn_what (Logic_error m) = m"
| "exn_what (Overflow_error m) = m"
| "exn_what Bad_alloc = ''std::bad_alloc''"

definition worker_submit :: "queued_candidate \<Rightarrow> submit_outcome \<Rightarrow> submitter \<Rightarrow> submitter" where
  "worker_submit q outcome s =
    (case block_blob_with_nonce (qc_block_blob_hex q) (bc_nonce (qc_candidate q)) of
      Throw e \<Rightarrow> s\<lparr>sm_worker := Worker_emitting (failed_event (qc_candidate q) (exn_what e))\<rparr>
    | Ok blob \<Rightarrow>
        let s = s\<lparr>sm_calls := sm_calls s @ [(qc_candidate q, blob)]\<rparr> in
        (case outcome of
          Returned result \<Rightarrow> s\<lparr>sm_worker := Submit_returned q result\<rparr>
        | Threw m \<Rightarrow> s\<lparr>sm_worker := Worker_emitting (failed_event (qc_candidate q) m)\<rparr>
        | Threw_other \<Rightarrow>
            s\<lparr>sm_worker := Worker_emitting (failed_event (qc_candidate q) ''unknown block submission failure'')\<rparr>))"

definition worker_retire :: "queued_candidate \<Rightarrow> block_submission_result \<Rightarrow> submitter \<Rightarrow> submitter" where
  "worker_retire q result s =
    (let h = bc_mining_header_hash (qc_candidate q) in
     s\<lparr>sm_queue := filter (\<lambda>sibling. bc_mining_header_hash (qc_candidate sibling) \<noteq> h) (sm_queue s),
       sm_templates := fmdrop h (sm_templates s),
       sm_template_order := filter (\<lambda>k. k \<noteq> h) (sm_template_order s),
       sm_worker := Worker_emitting
         \<lparr>be_status = (if result = Result_alternative_accepted then Block_alternative_accepted else Block_submitted),
          be_candidate = qc_candidate q, be_error = ''''\<rparr>\<rparr>)"

definition worker_emit :: "block_submit_event \<Rightarrow> submitter \<Rightarrow> submitter" where
  "worker_emit event s = (emit event s)\<lparr>sm_worker := Worker_waiting\<rparr>"

fun block_submit_status_name :: "block_submit_status \<Rightarrow> string" where
  "block_submit_status_name Block_submitted = ''submitted''"
| "block_submit_status_name Block_alternative_accepted = ''alternative-accepted''"
| "block_submit_status_name SubmissionFailed = ''submission-failed''"

fun block_candidate_queue_status_name :: "block_candidate_queue_status \<Rightarrow> string" where
  "block_candidate_queue_status_name Candidate_queued = ''queued''"
| "block_candidate_queue_status_name StaleTemplate = ''stale-template''"
| "block_candidate_queue_status_name QueueFull = ''queue-full''"
| "block_candidate_queue_status_name Submitter_stopped = ''stopped''"

section \<open>All interleavings\<close>

text \<open>\<open>allowed\<close> says which templates the callers remember. \<open>stop\<close> is entered by one thread at a time, as
  joining a thread requires.\<close>

inductive submitter_step :: "(hash256 \<Rightarrow> string \<Rightarrow> bool) \<Rightarrow> submitter \<Rightarrow> submitter \<Rightarrow> bool" for allowed where
  S_start: "submitter_start spawn s = (t, r) \<Longrightarrow> submitter_step allowed s t"
| S_stop: "submitter_step allowed s (stop_request s)"
| S_joined: "sm_worker s = Worker_exited \<Longrightarrow> submitter_step allowed s (stop_finish s)"
| S_remember: "allowed h blob \<Longrightarrow> remember_template h blob s = Some (t, r) \<Longrightarrow> submitter_step allowed s t"
| S_enqueue: "enqueue candidate s = (t, status) \<Longrightarrow> submitter_step allowed s t"
| S_wake: "sm_worker s = Worker_waiting \<Longrightarrow> worker_wake s = Some t \<Longrightarrow> submitter_step allowed s t"
| S_submit: "sm_worker s = Worker_submitting q \<Longrightarrow> submitter_step allowed s (worker_submit q outcome s)"
| S_retire: "sm_worker s = Submit_returned q result \<Longrightarrow> submitter_step allowed s (worker_retire q result s)"
| S_emit: "sm_worker s = Worker_emitting event \<Longrightarrow> submitter_step allowed s (worker_emit event s)"

definition submitter_new :: "submitter \<Rightarrow> bool" where
  "submitter_new s \<longleftrightarrow> (\<exists>submit handler m n. make_block_submitter submit handler m n = Ok s)"

section \<open>The nonce is all that changes\<close>

lemma nth_set_nonce:
  assumes "9 \<le> length bytes"
  shows "length (set_nonce n bytes) = length bytes"
    "i < length bytes \<Longrightarrow> set_nonce n bytes ! i = (if 1 \<le> i \<and> i < 9 then nonce_byte n (i - 1) else bytes ! i)"
proof -
  have len: "length (fold (\<lambda>i bs. bs[1 + i := nonce_byte n i]) [0..<k] bytes) = length bytes" for k
    by (induction k) auto
  have "k \<le> 8 \<Longrightarrow> i < length bytes \<Longrightarrow> fold (\<lambda>i bs. bs[1 + i := nonce_byte n i]) [0..<k] bytes ! i =
      (if 1 \<le> i \<and> i < 1 + k then nonce_byte n (i - 1) else bytes ! i)" for k
    using assms len by (induction k) (auto simp: nth_list_update)
  from this [of 8]
  show "i < length bytes \<Longrightarrow> set_nonce n bytes ! i = (if 1 \<le> i \<and> i < 9 then nonce_byte n (i - 1) else bytes ! i)"
    by (simp add: set_nonce_def)
  show "length (set_nonce n bytes) = length bytes" using len by (simp add: set_nonce_def)
qed

lemma blob_with_nonce_eq_Ok:
  "block_blob_with_nonce hex n = Ok blob \<longleftrightarrow>
    (\<exists>bytes. hex_to_bytes hex = Ok bytes \<and> 9 \<le> length bytes \<and> blob = bytes_to_hex (set_nonce n bytes))"
  by (auto simp: block_blob_with_nonce_def bindE_eq_Ok not_less)

lemma blob_with_nonce_any:
  "block_blob_with_nonce hex m = Ok blob \<Longrightarrow> \<exists>blob'. block_blob_with_nonce hex n = Ok blob'"
  by (auto simp: blob_with_nonce_eq_Ok)

lemma set_nonce_same_header:
  assumes "9 \<le> length bytes"
  shows "derive_mining_header_work (set_nonce n bytes) = derive_mining_header_work bytes"
  using nth_set_nonce [OF assms] by (intro mining_header_nonce_free) auto

section \<open>Eviction\<close>

text \<open>The tables of templates: the order lists exactly the remembered headers, each once.\<close>

definition tables_ok :: "nat \<Rightarrow> hash256 list \<Rightarrow> (hash256, string) fmap \<Rightarrow> bool" where
  "tables_ok bound order templates \<longleftrightarrow> distinct order \<and> set order = fset (fmdom templates) \<and> length order \<le> bound"

lemma tables_count: "distinct order \<Longrightarrow> set order = fset (fmdom templates) \<Longrightarrow> fcard (fmdom templates) = length order"
  by (metis distinct_card fcard.rep_eq)

text \<open>The loop ends after at most one round: only a new header can exceed the bound, by one, and then the
  oldest header is another one.\<close>

lemma evict_new:
  assumes "tables_ok m order templates" "0 < m" "fmlookup templates h = None"
  shows "evict_templates m h (order @ [h]) (fmupd h blob templates) =
    (if length order < m then Some (order @ [h], fmupd h blob templates)
     else Some (tl order @ [h], fmdrop (hd order) (fmupd h blob templates)))"
proof -
  have new: "h \<notin> set order"
    using assms(1,3) by (auto simp: tables_ok_def fmdom_notI)
  have count: "fcard (finsert h (fmdom templates)) = length order + 1"
    using assms(1) new tables_count [of "order @ [h]" "fmupd h blob templates"] by (simp add: tables_ok_def)
  show ?thesis
  proof (cases "length order < m")
    case True
    then show ?thesis by (subst evict_templates.simps) (simp add: count)
  next
    case False
    then obtain k ks where order: "order = k # ks" using assms(2) by (cases order) auto
    have "fcard (fmdom (fmdrop k (fmupd h blob templates))) = length (ks @ [h])"
      using assms(1) new order by (intro tables_count) (auto simp: tables_ok_def)
    then have "evict_templates m h (ks @ [h]) (fmdrop k (fmupd h blob templates)) =
        Some (ks @ [h], fmdrop k (fmupd h blob templates))"
      using assms(1) order by (subst evict_templates.simps) (simp add: tables_ok_def)
    then show ?thesis using False new count order assms(1)
      by (subst evict_templates.simps) (auto simp: tables_ok_def)
  qed
qed

lemma evict_known:
  assumes "tables_ok m order templates" "fmlookup templates h = Some old"
  shows "evict_templates m h order (fmupd h blob templates) = Some (order, fmupd h blob templates)"
proof -
  have "fcard (fmdom (fmupd h blob templates)) = length order"
    using assms by (intro tables_count) (auto simp: tables_ok_def dest: fmdomI)
  then show ?thesis using assms(1) by (subst evict_templates.simps) (simp add: tables_ok_def)
qed

text \<open>A call of \<open>remember_template\<close> that does not throw: the new template is the last one, or stays where it was.\<close>

definition remembered_order :: "nat \<Rightarrow> hash256 \<Rightarrow> hash256 list \<Rightarrow> hash256 list" where
  "remembered_order m h order =
    (if h \<in> set order then order else if length order < m then order @ [h] else tl order @ [h])"

lemma remember_template_run:
  assumes "tables_ok (sm_max_templates s) (sm_template_order s) (sm_templates s)" "0 < sm_max_templates s"
    "block_blob_with_nonce blob 0 = Ok x"
  shows "\<exists>templates. remember_template h blob s =
      Some (s\<lparr>sm_template_order := remembered_order (sm_max_templates s) h (sm_template_order s),
        sm_templates := templates\<rparr>, Ok ()) \<and>
    tables_ok (sm_max_templates s) (remembered_order (sm_max_templates s) h (sm_template_order s)) templates \<and>
    fmlookup templates h = Some blob \<and>
    (\<forall>k. k \<noteq> h \<longrightarrow> fmlookup templates k =
      (if k \<in> set (remembered_order (sm_max_templates s) h (sm_template_order s)) then fmlookup (sm_templates s) k else None))"
proof (cases "fmlookup (sm_templates s) h")
  case None
  have new: "h \<notin> set (sm_template_order s)"
    using assms(1) None by (auto simp: tables_ok_def fmdom_notI)
  have dom: "k \<in> set (sm_template_order s) \<longleftrightarrow> fmlookup (sm_templates s) k \<noteq> None" for k
    using assms(1) by (auto simp: tables_ok_def fmlookup_dom_iff)
  show ?thesis
  proof (cases "length (sm_template_order s) < sm_max_templates s")
    case True
    then show ?thesis
      using evict_new [OF assms(1,2) None, of blob] assms None new dom
      by (auto simp: remember_template_def remembered_order_def tables_ok_def)
  next
    case False
    then obtain k ks where order: "sm_template_order s = k # ks" using assms(2) by (cases "sm_template_order s") auto
    have rest: "k \<noteq> h" "k \<notin> set ks" "j \<notin> set ks \<Longrightarrow> j \<noteq> k \<Longrightarrow> fmlookup (sm_templates s) j = None" for j
      using new order dom [of j] assms(1) by (auto simp: tables_ok_def)
    have "tables_ok (sm_max_templates s) (ks @ [h]) (fmdrop k (fmupd h blob (sm_templates s)))"
      using assms(1) new order by (auto simp: tables_ok_def)
    then show ?thesis
      using evict_new [OF assms(1,2) None, of blob] assms(3) None new order False rest
      by (intro exI [of _ "fmdrop k (fmupd h blob (sm_templates s))"])
        (auto simp: remember_template_def remembered_order_def)
  qed
next
  case (Some old)
  then have known: "h \<in> set (sm_template_order s)"
    using assms(1) by (auto simp: tables_ok_def dest: fmdomI)
  have dom: "k \<in> set (sm_template_order s) \<longleftrightarrow> fmlookup (sm_templates s) k \<noteq> None" for k
    using assms(1) by (auto simp: tables_ok_def fmlookup_dom_iff)
  show ?thesis
    using evict_known [OF assms(1) Some, of blob] assms(1,3) Some known dom
    by (intro exI [of _ "fmupd h blob (sm_templates s)"])
      (auto simp: remember_template_def remembered_order_def tables_ok_def)
qed

section \<open>The invariant\<close>

text \<open>A blob that was remembered under a header, or was copied from there.\<close>

definition good_blob :: "(hash256 \<Rightarrow> string \<Rightarrow> bool) \<Rightarrow> hash256 \<Rightarrow> string \<Rightarrow> bool" where
  "good_blob allowed h blob \<longleftrightarrow> allowed h blob \<and> (\<exists>x. block_blob_with_nonce blob 0 = Ok x)"

definition good_queued :: "(hash256 \<Rightarrow> string \<Rightarrow> bool) \<Rightarrow> queued_candidate \<Rightarrow> bool" where
  "good_queued allowed q \<longleftrightarrow> good_blob allowed (bc_mining_header_hash (qc_candidate q)) (qc_block_blob_hex q)"

fun worker_item :: "worker \<Rightarrow> queued_candidate option" where
  "worker_item (Worker_submitting q) = Some q"
| "worker_item (Submit_returned q _) = Some q"
| "worker_item _ = None"

definition submitter_inv :: "(hash256 \<Rightarrow> string \<Rightarrow> bool) \<Rightarrow> submitter \<Rightarrow> bool" where
  "submitter_inv allowed s \<longleftrightarrow>
    0 < sm_max_templates s \<and> tables_ok (sm_max_templates s) (sm_template_order s) (sm_templates s) \<and>
    length (sm_queue s) \<le> sm_max_queue s \<and>
    (\<forall>h blob. fmlookup (sm_templates s) h = Some blob \<longrightarrow> good_blob allowed h blob) \<and>
    (\<forall>q \<in> set (sm_queue s). good_queued allowed q) \<and>
    (\<forall>q. worker_item (sm_worker s) = Some q \<longrightarrow> good_queued allowed q) \<and>
    (\<forall>(c, blob) \<in> set (sm_calls s). \<exists>template. good_blob allowed (bc_mining_header_hash c) template \<and>
      block_blob_with_nonce template (bc_nonce c) = Ok blob) \<and>
    (sm_running s \<longleftrightarrow> sm_worker s \<noteq> No_worker) \<and> (\<not> sm_running s \<longrightarrow> sm_queue s = [])"

lemma submitter_invD:
  assumes "submitter_inv allowed s"
  shows "tables_ok (sm_max_templates s) (sm_template_order s) (sm_templates s)" "0 < sm_max_templates s"
    "length (sm_queue s) \<le> sm_max_queue s" "fmlookup (sm_templates s) h = Some blob \<Longrightarrow> good_blob allowed h blob"
    "(c, call) \<in> set (sm_calls s) \<Longrightarrow>
      \<exists>template. good_blob allowed (bc_mining_header_hash c) template \<and> block_blob_with_nonce template (bc_nonce c) = Ok call"
  using assms by (auto simp: submitter_inv_def)

lemma inv_new: "submitter_new s \<Longrightarrow> submitter_inv allowed s"
  by (auto simp: submitter_new_def make_block_submitter_def submitter_inv_def tables_ok_def split: if_splits)

lemma inv_remember:
  assumes "submitter_inv allowed s" "allowed h blob" "remember_template h blob s = Some (t, r)"
  shows "submitter_inv allowed t"
proof (cases "block_blob_with_nonce blob 0")
  case (Inl e)
  then show ?thesis using assms by (simp add: remember_template_def)
next
  case (Inr x)
  obtain templates where run: "t = s\<lparr>sm_template_order := remembered_order (sm_max_templates s) h (sm_template_order s),
        sm_templates := templates\<rparr>"
    and tables: "tables_ok (sm_max_templates s) (remembered_order (sm_max_templates s) h (sm_template_order s)) templates"
    and lookup: "fmlookup templates h = Some blob" "\<And>k. k \<noteq> h \<Longrightarrow> fmlookup templates k =
      (if k \<in> set (remembered_order (sm_max_templates s) h (sm_template_order s)) then fmlookup (sm_templates s) k else None)"
    using remember_template_run [OF submitter_invD(1,2) [OF assms(1)] Inr, of h] assms(3) by auto
  have "good_blob allowed k b" if "fmlookup templates k = Some b" for k b
    using that lookup submitter_invD(4) [OF assms(1), of k b] assms(2) Inr
    by (cases "k = h") (auto simp: good_blob_def split: if_splits)
  then show ?thesis using assms(1) tables by (simp add: submitter_inv_def run)
qed

lemma inv_enqueue: "submitter_inv allowed s \<Longrightarrow> enqueue c s = (t, status) \<Longrightarrow> submitter_inv allowed t"
  by (auto simp: enqueue_def submitter_inv_def good_queued_def split: if_splits option.splits)

lemma inv_wake:
  "submitter_inv allowed s \<Longrightarrow> sm_worker s = Worker_waiting \<Longrightarrow> worker_wake s = Some t \<Longrightarrow> submitter_inv allowed t"
  by (auto simp: worker_wake_def submitter_inv_def split: if_splits list.splits)

lemma inv_submit:
  assumes "submitter_inv allowed s" "sm_worker s = Worker_submitting q"
  shows "submitter_inv allowed (worker_submit q outcome s)"
proof -
  have good: "good_queued allowed q" using assms by (simp add: submitter_inv_def)
  show ?thesis
    using assms good
    by (cases "block_blob_with_nonce (qc_block_blob_hex q) (bc_nonce (qc_candidate q))"; cases outcome)
      (auto simp: worker_submit_def submitter_inv_def good_queued_def Let_def)
qed

lemma inv_retire:
  assumes "submitter_inv allowed s" "sm_worker s = Submit_returned q result"
  shows "submitter_inv allowed (worker_retire q result s)"
proof -
  let ?h = "bc_mining_header_hash (qc_candidate q)"
  have "tables_ok (sm_max_templates s) (filter (\<lambda>k. k \<noteq> ?h) (sm_template_order s)) (fmdrop ?h (sm_templates s))"
    using submitter_invD(1) [OF assms(1)]
    by (auto simp: tables_ok_def intro: le_trans [OF length_filter_le])
  moreover have "length (filter (\<lambda>r. bc_mining_header_hash (qc_candidate r) \<noteq> ?h) (sm_queue s)) \<le> sm_max_queue s"
    using submitter_invD(3) [OF assms(1)] by (rule le_trans [OF length_filter_le])
  ultimately show ?thesis using assms by (auto simp: worker_retire_def submitter_inv_def Let_def)
qed

lemma submitter_step_inv: "submitter_step allowed s t \<Longrightarrow> submitter_inv allowed s \<Longrightarrow> submitter_inv allowed t"
proof (induction rule: submitter_step.induct)
  case (S_start spawn s t r)
  then show ?case by (auto simp: submitter_start_def submitter_inv_def Let_def split: if_splits option.splits)
next
  case (S_stop s)
  then show ?case by (simp add: stop_request_def submitter_inv_def)
next
  case (S_joined s)
  then show ?case by (simp add: stop_finish_def submitter_inv_def)
next
  case (S_emit s event)
  then show ?case by (simp add: worker_emit_def emit_def submitter_inv_def)
qed (auto intro: inv_remember inv_enqueue inv_wake inv_submit inv_retire)

interpretation submitter_machine: machine_invariant submitter_new "submitter_step allowed" "submitter_inv allowed"
  for allowed
  by unfold_locales (auto intro: inv_new submitter_step_inv)

section \<open>What is submitted\<close>

text \<open>The callers remember a template under the header hash that they derived from its bytes.\<close>

definition keyed_by_header :: "hash256 \<Rightarrow> string \<Rightarrow> bool" where
  "keyed_by_header h blob \<longleftrightarrow>
    (\<exists>bytes work. hex_to_bytes blob = Ok bytes \<and> derive_mining_header_work bytes = Ok work \<and> header_hash work = h)"

lemma keyed_with_nonce:
  assumes "good_blob keyed_by_header h template" "block_blob_with_nonce template n = Ok blob"
  shows "\<exists>bytes work. hex_to_bytes blob = Ok bytes \<and> derive_mining_header_work bytes = Ok work \<and> header_hash work = h \<and>
    9 \<le> length bytes \<and> (\<forall>i < 8. bytes ! (1 + i) = nonce_byte n i)"
proof -
  obtain bytes where bytes: "hex_to_bytes template = Ok bytes" "9 \<le> length bytes" "blob = bytes_to_hex (set_nonce n bytes)"
    using assms(2) by (auto simp: blob_with_nonce_eq_Ok)
  moreover obtain work where "derive_mining_header_work bytes = Ok work" "header_hash work = h"
    using assms(1) bytes(1) by (auto simp: good_blob_def keyed_by_header_def)
  ultimately show ?thesis
    by (auto simp: hex_to_bytes_bytes_to_hex set_nonce_same_header nth_set_nonce)
qed


section \<open>Memory\<close>

text \<open>C35. The eviction of templates ends, and the bounds hold. In every reachable state there are at most the
  configured numbers of templates and of queued blocks, and a call of \<open>remember_template\<close> whose blob is long
  enough returns: the header is remembered with the new blob, and the headers that stay are the newest ones, in
  the order of their first arrival, with their blobs unchanged. A blob that cannot hold a nonce is refused and
  changes nothing.\<close>

theorem remember_template_exact:
  assumes "reach submitter_new (submitter_step allowed) s"
  shows "template_count s \<le> sm_max_templates s \<and> submitter_queued s \<le> sm_max_queue s \<and>
    (case block_blob_with_nonce blob 0 of
      Throw e \<Rightarrow> remember_template h blob s = Some (s, Throw e)
    | Ok _ \<Rightarrow>
        let order = remembered_order (sm_max_templates s) h (sm_template_order s) in
        \<exists>templates. remember_template h blob s = Some (s\<lparr>sm_template_order := order, sm_templates := templates\<rparr>, Ok ()) \<and>
          fmlookup templates h = Some blob \<and> fcard (fmdom templates) \<le> sm_max_templates s \<and>
          (\<forall>k. k \<noteq> h \<longrightarrow> fmlookup templates k = (if k \<in> set order then fmlookup (sm_templates s) k else None)))"
proof -
  note inv = submitter_machine.reach_inv [OF assms]
  have count: "tables_ok m order templates \<Longrightarrow> fcard (fmdom templates) \<le> m" for m order templates
    using tables_count [of order templates] by (simp add: tables_ok_def)
  have "template_count s \<le> sm_max_templates s" "submitter_queued s \<le> sm_max_queue s"
    using count [OF submitter_invD(1) [OF inv]] submitter_invD(3) [OF inv]
    by (simp_all add: template_count_def submitter_queued_def)
  moreover have "remember_template h blob s = Some (s, Throw e)" if "block_blob_with_nonce blob 0 = Throw e" for e
    using that by (simp add: remember_template_def)
  moreover have "block_blob_with_nonce blob 0 = Ok x \<Longrightarrow> \<exists>templates. remember_template h blob s =
        Some (s\<lparr>sm_template_order := remembered_order (sm_max_templates s) h (sm_template_order s),
          sm_templates := templates\<rparr>, Ok ()) \<and>
      fmlookup templates h = Some blob \<and> fcard (fmdom templates) \<le> sm_max_templates s \<and>
      (\<forall>k. k \<noteq> h \<longrightarrow> fmlookup templates k =
        (if k \<in> set (remembered_order (sm_max_templates s) h (sm_template_order s)) then fmlookup (sm_templates s) k else None))"
    for x
    using remember_template_run [OF submitter_invD(1,2) [OF inv], of blob x h] count by blast
  ultimately show ?thesis by (cases "block_blob_with_nonce blob 0") (simp_all add: Let_def)
qed

section \<open>A solved header\<close>

text \<open>Nothing of the header is left: no template, no queued block, none in the worker's hands.\<close>

definition retired :: "hash256 \<Rightarrow> submitter \<Rightarrow> bool" where
  "retired h s \<longleftrightarrow> fmlookup (sm_templates s) h = None \<and>
    (\<forall>q \<in> set (sm_queue s). bc_mining_header_hash (qc_candidate q) \<noteq> h) \<and>
    (\<forall>q. worker_item (sm_worker s) = Some q \<longrightarrow> bc_mining_header_hash (qc_candidate q) \<noteq> h)"

definition calls_for :: "hash256 \<Rightarrow> submitter \<Rightarrow> (block_candidate \<times> string) list" where
  "calls_for h s = filter (\<lambda>(c, _). bc_mining_header_hash c = h) (sm_calls s)"

lemma retired_remember:
  assumes "submitter_inv allowed s" "retired h s" "k \<noteq> h" "remember_template k blob s = Some (t, r)"
  shows "retired h t \<and> sm_calls t = sm_calls s"
proof (cases "block_blob_with_nonce blob 0")
  case (Inl e)
  then show ?thesis using assms by (simp add: remember_template_def)
next
  case (Inr x)
  show ?thesis
    using remember_template_run [OF submitter_invD(1,2) [OF assms(1)] Inr, of k] assms(2-4)
    by (auto simp: retired_def)
qed

lemma retired_step:
  assumes "submitter_step (\<lambda>k blob. allowed k blob \<and> k \<noteq> h) s t" "submitter_inv allowed s" "retired h s"
  shows "retired h t \<and> calls_for h t = calls_for h s"
  using assms
proof (induction rule: submitter_step.induct)
  case (S_start spawn s t r)
  then show ?case
    by (auto simp: submitter_start_def retired_def calls_for_def Let_def split: if_splits option.splits)
next
  case (S_stop s)
  then show ?case by (simp add: stop_request_def retired_def calls_for_def)
next
  case (S_joined s)
  then show ?case by (simp add: stop_finish_def retired_def calls_for_def)
next
  case (S_remember k blob s t r)
  then show ?case using retired_remember [of allowed s h k blob t r] by (simp add: calls_for_def)
next
  case (S_enqueue c s t status)
  then show ?case by (auto simp: enqueue_def retired_def calls_for_def split: if_splits option.splits)
next
  case (S_wake s t)
  then show ?case by (auto simp: worker_wake_def retired_def calls_for_def split: if_splits list.splits)
next
  case (S_submit s q outcome)
  then show ?case
    by (auto simp: worker_submit_def retired_def calls_for_def Let_def split: sum.splits submit_outcome.splits)
next
  case (S_retire s q result)
  then show ?case by (simp add: worker_retire_def retired_def calls_for_def Let_def)
next
  case (S_emit s event)
  then show ?case by (simp add: worker_emit_def emit_def retired_def calls_for_def)
qed

lemma step_mono: "submitter_step P s t \<Longrightarrow> (\<And>k blob. P k blob \<Longrightarrow> Q k blob) \<Longrightarrow> submitter_step Q s t"
  by (induction rule: submitter_step.induct) (auto intro: submitter_step.intros)

text \<open>C34. A header whose block the daemon accepted is not submitted again. Once the worker has recorded the
  acceptance, every execution that follows, with any interleaving and any number of stops and starts, passes no
  further block of that header to the daemon and refuses every further candidate for it, unless a caller
  remembers a template for the header again.\<close>

theorem solved_header_retired:
  assumes "reach submitter_new (submitter_step allowed) s" "sm_worker s = Submit_returned q result"
    "h = bc_mining_header_hash (qc_candidate q)"
    "(submitter_step (\<lambda>k blob. allowed k blob \<and> k \<noteq> h))\<^sup>*\<^sup>* (worker_retire q result s) t"
  shows "calls_for h t = calls_for h s \<and>
    (bc_mining_header_hash candidate = h \<longrightarrow> enqueue candidate t \<in> {(t, StaleTemplate), (t, Submitter_stopped)})"
proof -
  have "submitter_inv allowed t \<and> retired h t \<and> calls_for h t = calls_for h s"
    using assms(4)
  proof (induction rule: rtranclp_induct)
    case base
    have "submitter_inv allowed (worker_retire q result s)"
      by (rule inv_retire [OF submitter_machine.reach_inv [OF assms(1)] assms(2)])
    then show ?case by (simp add: worker_retire_def retired_def calls_for_def Let_def assms(3))
  next
    case (step t u)
    then show ?case
      using retired_step [OF step(2)] submitter_step_inv [OF step_mono [OF step(2)], of allowed] by simp
  qed
  then show ?thesis by (auto simp: enqueue_def retired_def)
qed

section \<open>Witnesses\<close>

text \<open>One template, one candidate, accepted by the daemon.\<close>

definition sample_submitter :: "block_candidate \<Rightarrow> string \<Rightarrow> submitter" where
  "sample_submitter c template = \<lparr>sm_handler = True, sm_max_templates = 8, sm_max_queue = 64, sm_running = True,
    sm_stop_requested = False, sm_worker = Worker_waiting,
    sm_templates = fmupd (bc_mining_header_hash c) template fmempty, sm_template_order = [bc_mining_header_hash c],
    sm_queue = [], sm_calls = [], sm_events = []\<rparr>"

definition sample_started :: submitter where
  "sample_started = \<lparr>sm_handler = True, sm_max_templates = 8, sm_max_queue = 64, sm_running = True,
    sm_stop_requested = False, sm_worker = Worker_waiting, sm_templates = fmempty, sm_template_order = [],
    sm_queue = [], sm_calls = [], sm_events = []\<rparr>"

lemma sample_started_reachable: "reach submitter_new (submitter_step allowed) sample_started"
proof -
  let ?new = "sample_started\<lparr>sm_running := False, sm_worker := No_worker\<rparr>"
  have "make_block_submitter True True 8 64 = Ok ?new"
    by (simp add: make_block_submitter_def sample_started_def)
  then have "submitter_new ?new" unfolding submitter_new_def by blast
  moreover have "submitter_start None ?new = (sample_started, Ok ())"
    by (simp add: submitter_start_def sample_started_def)
  ultimately show ?thesis by (blast intro: reach_start reach_step S_start)
qed

lemma sample_submitter_reachable:
  assumes "allowed (bc_mining_header_hash c) template" "block_blob_with_nonce template 0 = Ok x"
  shows "reach submitter_new (submitter_step allowed) (sample_submitter c template)"
proof -
  have "evict_templates 8 h [h] (fmupd h template fmempty) = Some ([h], fmupd h template fmempty)" for h
    by (subst evict_templates.simps) (simp add: fcard_finsert_if fcard_fempty)
  then have "remember_template (bc_mining_header_hash c) template sample_started = Some (sample_submitter c template, Ok ())"
    by (simp add: remember_template_def assms(2) sample_started_def sample_submitter_def)
  from S_remember [of allowed, OF assms(1) this]
  show ?thesis by (rule reach_step [OF sample_started_reachable])
qed

lemma sample_submission:
  assumes "allowed (bc_mining_header_hash c) template" "block_blob_with_nonce template (bc_nonce c) = Ok blob"
  defines "q \<equiv> \<lparr>qc_candidate = c, qc_block_blob_hex = template\<rparr>"
  shows "reach submitter_new (submitter_step allowed)
    ((sample_submitter c template)\<lparr>sm_worker := Submit_returned q Result_submitted, sm_calls := [(c, blob)]\<rparr>)"
proof -
  let ?s = "sample_submitter c template"
  obtain x where "block_blob_with_nonce template 0 = Ok x" using blob_with_nonce_any [OF assms(2)] by blast
  note first = sample_submitter_reachable [of allowed c template, OF assms(1) this]
  have "submitter_step allowed ?s (?s\<lparr>sm_queue := [q]\<rparr>)"
    by (rule S_enqueue [of c]) (simp add: enqueue_def sample_submitter_def q_def)
  note queued = reach_step [OF first this]
  have "submitter_step allowed (?s\<lparr>sm_queue := [q]\<rparr>) (?s\<lparr>sm_worker := Worker_submitting q\<rparr>)"
    by (rule S_wake) (simp_all add: worker_wake_def sample_submitter_def)
  note taken = reach_step [OF queued this]
  have "submitter_step allowed (?s\<lparr>sm_worker := Worker_submitting q\<rparr>)
      (worker_submit q (Returned Result_submitted) (?s\<lparr>sm_worker := Worker_submitting q\<rparr>))"
    by (rule S_submit) simp
  note submitted = reach_step [OF taken this]
  then show ?thesis using assms(2) by (simp add: worker_submit_def q_def sample_submitter_def)
qed

text \<open>A template that parses, with the hash of its header as the key.\<close>

definition sample_candidate :: block_candidate where
  "sample_candidate = \<lparr>bc_zano_height = 5, bc_mining_header_hash = header_hash sample_work, bc_nonce = 0x0102030405060708\<rparr>"

lemma sample_template_keyed: "keyed_by_header (bc_mining_header_hash sample_candidate) (bytes_to_hex sample_blob)"
  by (simp add: keyed_by_header_def sample_candidate_def hex_to_bytes_bytes_to_hex sample_work_derived(1))

lemma sample_template_fits: "block_blob_with_nonce (bytes_to_hex sample_blob) n = Ok (bytes_to_hex (set_nonce n sample_blob))"
  by (simp add: blob_with_nonce_eq_Ok hex_to_bytes_bytes_to_hex sample_lengths)


theorem remember_template_exact_witness:
  "template_count (sample_submitter sample_candidate (bytes_to_hex sample_blob)) \<le> 8 \<and>
   (\<exists>t. remember_template 0 (bytes_to_hex sample_blob) (sample_submitter sample_candidate (bytes_to_hex sample_blob)) =
     Some (t, Ok ()))"
proof -
  have "reach submitter_new (submitter_step keyed_by_header) (sample_submitter sample_candidate (bytes_to_hex sample_blob))"
    by (rule sample_submitter_reachable [of keyed_by_header sample_candidate, OF sample_template_keyed sample_template_fits])
  from remember_template_exact [OF this, of 0 "bytes_to_hex sample_blob"]
  show ?thesis by (auto simp: sample_template_fits Let_def) (simp add: sample_submitter_def)
qed

theorem solved_header_retired_witness:
  "let q = \<lparr>qc_candidate = sample_candidate, qc_block_blob_hex = bytes_to_hex sample_blob\<rparr>;
       s = (sample_submitter sample_candidate (bytes_to_hex sample_blob))\<lparr>sm_worker := Submit_returned q Result_submitted,
         sm_calls := [(sample_candidate, bytes_to_hex (set_nonce 0x0102030405060708 sample_blob))]\<rparr>;
       t = worker_retire q Result_submitted s in
    calls_for (header_hash sample_work) t = calls_for (header_hash sample_work) s \<and>
    enqueue sample_candidate t \<in> {(t, StaleTemplate), (t, Submitter_stopped)}"
proof -
  have nonce: "bc_nonce sample_candidate = 0x0102030405060708"
    "bc_mining_header_hash sample_candidate = header_hash sample_work"
    by (simp_all add: sample_candidate_def)
  have "reach submitter_new (submitter_step keyed_by_header) ((sample_submitter sample_candidate (bytes_to_hex sample_blob))
      \<lparr>sm_worker := Submit_returned \<lparr>qc_candidate = sample_candidate, qc_block_blob_hex = bytes_to_hex sample_blob\<rparr> Result_submitted,
       sm_calls := [(sample_candidate, bytes_to_hex (set_nonce 0x0102030405060708 sample_blob))]\<rparr>)"
    using sample_submission [of keyed_by_header sample_candidate, OF sample_template_keyed sample_template_fits] unfolding nonce .
  from solved_header_retired [OF this _ refl rtranclp.rtrancl_refl, of _ _ sample_candidate]
  show ?thesis by (simp add: Let_def nonce)
qed

end
