(* ===== verification/Pplns_Template.thy ===== *)
theory Pplns_Template
  imports Historical_Payout Block_Submitter Stratum_Session
begin

text \<open>
  \<open>src/src/zano_miner_tx.cpp\<close>, \<open>src/include/zano_p2pool/pplns_template.hpp\<close> and the functions of
  \<open>src/src/main.cpp\<close> that make the template of a round: the physical outputs of a payout plan, the replacement
  of the daemon's miner transaction, and the template that is handed to miners. Zano's own transaction code is
  the record \<open>zano_builder\<close>, absent when the node is built without it; no law is assumed of it.
\<close>

section \<open>The miner transaction\<close>

definition kZanoFullRewardZoneBytes :: nat where
  "kZanoFullRewardZoneBytes = 125000"

text \<open>A destination entry: the address has no flags and the asset is the native one, explicitly, in all of them.\<close>

record tx_destination_entry =
  de_payout :: payout_public_keys
  de_amount :: u64

text \<open>The arguments of \<open>construct_miner_tx\<close> that vary; the block size, the generated coins and the stake entry
  are zero.\<close>

record miner_tx_request =
  mt_height :: u64
  mt_median_size :: nat
  mt_fee :: u64
  mt_miner_address :: payout_public_keys
  mt_stakeholder_address :: payout_public_keys
  mt_cumulative_size :: u64
  mt_tx_version :: nat
  mt_hardfork_id :: nat
  mt_extra_nonce :: string
  mt_max_outs :: nat
  mt_destinations :: "tx_destination_entry list"

record ('tx, 'tgc) zano_builder =
  zb_parse_tx :: "u8 list \<Rightarrow> 'tx option"
  zb_cumulative_size :: "'tx \<Rightarrow> u64 option"
  zb_construct_miner_tx :: "miner_tx_request \<Rightarrow> ('tx \<times> 'tgc \<times> u64 \<times> u64) option"
  zb_dump_binary :: "'tx \<Rightarrow> u8 list option"
  zb_store_json :: "'tgc \<Rightarrow> string"

record zano_miner_tx_result =
  mx_tx_blob_hex :: string
  mx_miner_tx_tgc_json :: string
  mx_block_reward_without_fee :: u64
  mx_block_reward :: u64

definition zano_miner_tx_builder_available :: "('tx, 'tgc) zano_builder option \<Rightarrow> bool" where
  "zano_miner_tx_builder_available zb \<longleftrightarrow> zb \<noteq> None"

definition extract_zano_hf6_coinbase_cumulative_size :: "('tx, 'tgc) zano_builder option \<Rightarrow> u8 list \<Rightarrow> u64 result" where
  "extract_zano_hf6_coinbase_cumulative_size zb tx_blob =
    (case zb of
      None \<Rightarrow> Throw (Runtime_error
        ''exact Zano miner-tx parser is not enabled; configure with ZANO_P2POOL_ZANO_SOURCE_DIR'')
    | Some z \<Rightarrow>
        if tx_blob = [] then Throw (Invalid_argument ''daemon miner transaction is empty'')
        else (case zb_parse_tx z tx_blob of
          None \<Rightarrow> Throw (Runtime_error ''failed to parse daemon Zano miner transaction'')
        | Some tx \<Rightarrow> (case zb_cumulative_size z tx of
            None \<Rightarrow> Throw (Runtime_error ''daemon HF6 miner transaction is missing cumulative block size'')
          | Some v \<Rightarrow> Ok v)))"

text \<open>A single recipient is paid by two outputs, because Zano wants two.\<close>

definition physical_destinations :: "pplns_coinbase_plan \<Rightarrow> tx_destination_entry list result" where
  "physical_destinations plan =
    (let entries = map (\<lambda>d. \<lparr>de_payout = cd_payout d, de_amount = cd_amount d\<rparr>) (plan_destinations plan) in
     bindE
       (if length entries = 1
        then
          let d = hd (plan_destinations plan) in
          if cd_amount d < 2
          then Throw (Invalid_argument ''single-recipient PPLNS payout is too small for Zano minimum outputs'')
          else
            let first_amount = cd_amount d div 2; second_amount = cd_amount d - first_amount in
            Ok (entries[0 := (entries ! 0)\<lparr>de_amount := first_amount\<rparr>] @
              [\<lparr>de_payout = cd_payout d, de_amount = second_amount\<rparr>])
        else Ok entries)
       (\<lambda>entries.
         if kZanoHf6MaxCoinbaseOutputs < length entries
         then Throw (Invalid_argument ''expanded PPLNS coinbase exceeds Zano output limit'')
         else Ok entries))"

definition build_zano_hf6_pplns_miner_tx ::
  "('tx, 'tgc) zano_builder option \<Rightarrow> u64 \<Rightarrow> u64 \<Rightarrow> u64 \<Rightarrow> pplns_coinbase_plan \<Rightarrow> string \<Rightarrow> u64 \<Rightarrow>
    zano_miner_tx_result result"
where
  "build_zano_hf6_pplns_miner_tx zb h fee expected_block_reward plan extra_text cumulative_size =
    (case zb of
      None \<Rightarrow> Throw (Runtime_error
        ''exact Zano miner-tx builder is not enabled; configure with ZANO_P2POOL_ZANO_SOURCE_DIR'')
    | Some z \<Rightarrow>
        if plan_status plan \<noteq> Ready then Throw (Invalid_argument ''PPLNS coinbase plan is not ready'')
        else if plan_destinations plan = [] then Throw (Invalid_argument ''PPLNS coinbase plan has no destinations'')
        else if kZanoHf6MaxCoinbaseOutputs < length (plan_destinations plan)
        then Throw (Invalid_argument ''PPLNS coinbase plan exceeds Zano output limit'')
        else if plan_reward_atomic plan \<noteq> expected_block_reward
        then Throw (Invalid_argument ''PPLNS coinbase reward does not match daemon template reward'')
        else
          bindE (physical_destinations plan) (\<lambda>destinations.
          let miner_address = de_payout (hd destinations);
              request = \<lparr>mt_height = h, mt_median_size = kZanoFullRewardZoneBytes, mt_fee = fee,
                mt_miner_address = miner_address, mt_stakeholder_address = miner_address,
                mt_cumulative_size = cumulative_size, mt_tx_version = 4, mt_hardfork_id = 6,
                mt_extra_nonce = extra_text, mt_max_outs = kZanoHf6MaxCoinbaseOutputs,
                mt_destinations = destinations\<rparr> in
          (case zb_construct_miner_tx z request of
            None \<Rightarrow> Throw (Runtime_error ''Zano construct_miner_tx rejected PPLNS destinations'')
          | Some (tx, generation_context, block_reward_without_fee, block_reward) \<Rightarrow>
              if block_reward \<noteq> expected_block_reward \<or> block_reward_without_fee \<noteq> expected_block_reward
              then Throw (Runtime_error ''Zano canonical miner-tx reward disagrees with daemon template'')
              else (case zb_dump_binary z tx of
                None \<Rightarrow> Throw (Runtime_error ''failed to serialize canonical Zano miner tx'')
              | Some bytes \<Rightarrow>
                  let json = zb_store_json z generation_context in
                  if json = []
                  then Throw (Runtime_error ''failed to serialize canonical Zano miner tx generation context'')
                  else Ok \<lparr>mx_tx_blob_hex = bytes_to_hex bytes, mx_miner_tx_tgc_json = json,
                    mx_block_reward_without_fee = block_reward_without_fee, mx_block_reward = block_reward\<rparr>))))"

section \<open>The template\<close>

datatype pplns_template_status =
    Template_ready
  | PayoutPlanUnavailable
  | BackendUnavailable
  | InvalidDaemonTemplate
  | BlockTooLarge

record pplns_template_result =
  pt_status :: pplns_template_status
  pt_plan :: pplns_coinbase_plan
  pt_block :: block_template
  pt_mining_work :: mining_header_work
  pt_error :: string

definition default_mining_work :: mining_header_work where
  "default_mining_work =
    \<lparr>block_header = \<lparr>header_serialized_size = 0, header_serialized = []\<rparr>,
     miner_tx_prefix = \<lparr>miner_tx_version = 0, hardfork_id = 0, vin_count = 0, extra_count = 0, vout_count = 0,
       prefix_serialized_size = 0, prefix_serialized = [], prefix_hash = 0\<rparr>,
     tx_hashes = \<lparr>trailer_serialized_offset = 0, trailer_serialized_size = 0, trailer_hashes = []\<rparr>,
     tx_tree_root = 0, hashing_blob = [], header_hash = 0\<rparr>"

text \<open>The body of the \<open>try\<close> block between the plan and the second derivation: an early return (\<open>Inl\<close>), or the
  parsed daemon template, the new transaction and the rebuilt block.\<close>

definition rebuild_daemon_block ::
  "('tx, 'tgc) zano_builder option \<Rightarrow> block_template \<Rightarrow> pplns_coinbase_plan \<Rightarrow> string \<Rightarrow>
    (pplns_template_status \<times> string + mining_header_work \<times> zano_miner_tx_result \<times> u8 list) result"
where
  "rebuild_daemon_block zb daemon plan extra_text =
    bindE (hex_to_bytes (blocktemplate_blob daemon)) (\<lambda>daemon_blob.
    bindE (derive_mining_header_work daemon_blob) (\<lambda>daemon_work.
    let header_end = header_serialized_size (block_header daemon_work);
        trailer_begin = trailer_serialized_offset (tx_hashes daemon_work) in
    if header_end > trailer_begin \<or> trailer_begin > length daemon_blob
    then Ok (Inl (InvalidDaemonTemplate, ''invalid daemon miner-transaction offsets''))
    else
      bindE (extract_zano_hf6_coinbase_cumulative_size zb (prefix_serialized (miner_tx_prefix daemon_work))) (\<lambda>cumulative.
      bindE (build_zano_hf6_pplns_miner_tx zb (bt_height daemon) (bt_txs_fee daemon) (bt_block_reward daemon) plan
        extra_text cumulative) (\<lambda>miner_tx.
      bindE (hex_to_bytes (mx_tx_blob_hex miner_tx)) (\<lambda>miner_tx_bytes.
      let rebuilt = take header_end daemon_blob @ miner_tx_bytes @ drop trailer_begin daemon_blob in
      if kZanoFullRewardZoneBytes < length rebuilt
      then Ok (Inl (BlockTooLarge, ''rebuilt block exceeds the audited full-reward zone''))
      else Ok (Inr (daemon_work, miner_tx, rebuilt)))))))"

definition build_canonical_pplns_template ::
  "('tx, 'tgc) zano_builder option \<Rightarrow> block_template \<Rightarrow> share_chain \<Rightarrow> sidechain_parameters \<Rightarrow> string \<Rightarrow>
    pplns_template_result"
where
  "build_canonical_pplns_template zb daemon chain params extra_text =
    (let result = \<lparr>pt_status = InvalidDaemonTemplate, pt_plan = empty_plan, pt_block = daemon, pt_mining_work = default_mining_work,
           pt_error = ''''\<rparr>;
         caught = (\<lambda>r e. r\<lparr>pt_status := InvalidDaemonTemplate, pt_error := exn_what e\<rparr>) in
     case bindE (difficulty128_from_decimal (bt_difficulty daemon)) (\<lambda>network.
         bindE (build_sidechain_pplns_window chain params network) (\<lambda>window.
           make_pplns_coinbase_plan window (bt_block_reward daemon) params)) of
       Throw e \<Rightarrow> caught result e
     | Ok plan \<Rightarrow>
         let result = result\<lparr>pt_plan := plan\<rparr> in
         if plan_status plan \<noteq> Ready
         then result\<lparr>pt_status := PayoutPlanUnavailable, pt_error := pplns_coinbase_plan_status_name (plan_status plan)\<rparr>
         else if \<not> zano_miner_tx_builder_available zb
         then result\<lparr>pt_status := BackendUnavailable, pt_error := ''exact Zano miner-tx builder is unavailable''\<rparr>
         else (case rebuild_daemon_block zb daemon plan extra_text of
           Throw e \<Rightarrow> caught result e
         | Ok (Inl (status, message)) \<Rightarrow> result\<lparr>pt_status := status, pt_error := message\<rparr>
         | Ok (Inr (daemon_work, miner_tx, rebuilt)) \<Rightarrow>
             (case derive_mining_header_work rebuilt of
               Throw e \<Rightarrow> caught result e
             | Ok work \<Rightarrow>
                 let result = result\<lparr>pt_mining_work := work\<rparr> in
                 if header_serialized (block_header work) \<noteq> header_serialized (block_header daemon_work) \<or>
                   trailer_hashes (tx_hashes work) \<noteq> trailer_hashes (tx_hashes daemon_work)
                 then result\<lparr>pt_status := InvalidDaemonTemplate,
                   pt_error := ''PPLNS rebuild changed daemon header or regular transactions''\<rparr>
                 else result\<lparr>pt_status := Template_ready,
                   pt_block := daemon\<lparr>blocktemplate_blob := bytes_to_hex rebuilt,
                     miner_tx_tgc_json := mx_miner_tx_tgc_json miner_tx\<rparr>\<rparr>)))"

fun pplns_template_status_name :: "pplns_template_status \<Rightarrow> string" where
  "pplns_template_status_name Template_ready = ''ready''"
| "pplns_template_status_name PayoutPlanUnavailable = ''payout-plan-unavailable''"
| "pplns_template_status_name BackendUnavailable = ''backend-unavailable''"
| "pplns_template_status_name InvalidDaemonTemplate = ''invalid-daemon-template''"
| "pplns_template_status_name BlockTooLarge = ''block-too-large''"

section \<open>The template of a round\<close>

record live_template =
  lt_block :: block_template
  lt_mining_work :: mining_header_work
  lt_seed_hash :: hash256
  lt_network_difficulty :: difficulty128
  lt_payout_plan :: "pplns_coinbase_plan option"
  lt_parent_binding :: "stratum_parent_binding option"

definition parse_hash256 :: "string \<Rightarrow> hash256 result" where
  "parse_hash256 hex =
    bindE (hex_to_bytes (strip_0x hex)) (\<lambda>bytes.
      if length bytes \<noteq> 32 then Throw (Runtime_error ''expected a 32-byte hash from Zano RPC'')
      else Ok (array_of bytes))"

text \<open>The daemon's answer is the argument.\<close>

definition fetch_live_template :: "block_template result \<Rightarrow> live_template result" where
  "fetch_live_template answer =
    bindE answer (\<lambda>block.
    bindE (hex_to_bytes (blocktemplate_blob block)) (\<lambda>block_blob.
    bindE (derive_mining_header_work block_blob) (\<lambda>work.
    bindE (parse_hash256 (bt_seed block)) (\<lambda>seed.
    bindE (difficulty128_from_decimal (bt_difficulty block)) (\<lambda>network.
      Ok \<lparr>lt_block = block, lt_mining_work = work, lt_seed_hash = seed, lt_network_difficulty = network,
        lt_payout_plan = None, lt_parent_binding = None\<rparr>)))))"

definition apply_canonical_pplns_template ::
  "('tx, 'tgc) zano_builder option \<Rightarrow> live_template \<Rightarrow> share_chain \<Rightarrow> sidechain_parameters \<Rightarrow>
    live_template \<times> bool result"
where
  "apply_canonical_pplns_template zb live chain params =
    (if connected_size chain = 0
     then (live\<lparr>lt_payout_plan := None,
       lt_parent_binding := Some \<lparr>binding_parent_id = 0, binding_share_height = 0\<rparr>\<rparr>, Ok False)
     else (case best_tip chain of
       None \<Rightarrow> (live\<lparr>lt_payout_plan := None, lt_parent_binding := None\<rparr>, Ok False)
     | Some tip \<Rightarrow>
         if \<not> validated_ancestry tip
         then (live\<lparr>lt_payout_plan := None, lt_parent_binding := None\<rparr>, Ok False)
         else if share_height (cs_share tip) = - 1
         then (live, Throw (Runtime_error ''sidechain share height exhausted while constructing PPLNS template''))
         else
           let live = live\<lparr>lt_parent_binding := Some
                 \<lparr>binding_parent_id = cs_id tip, binding_share_height = share_height (cs_share tip) + 1\<rparr>\<rparr>;
               rebuilt = build_canonical_pplns_template zb (lt_block live) chain params ''zano-p2pool'' in
           if pt_status rebuilt \<noteq> Template_ready
           then (live, Throw (Runtime_error (''canonical PPLNS template unavailable: '' @
             pplns_template_status_name (pt_status rebuilt) @
             (if pt_error rebuilt = [] then [] else '' ('' @ pt_error rebuilt @ '')''))))
           else (live\<lparr>lt_block := pt_block rebuilt, lt_mining_work := pt_mining_work rebuilt,
             lt_payout_plan := Some (pt_plan rebuilt)\<rparr>, Ok True)))"

definition trusted_context_from_live :: "live_template \<Rightarrow> share_work_context" where
  "trusted_context_from_live live =
    \<lparr>ctx_zano_height = bt_height (lt_block live), ctx_mining_header_hash = header_hash (lt_mining_work live),
     ctx_network_difficulty = lt_network_difficulty live\<rparr>"

section \<open>What the transaction pays\<close>

text \<open>The outputs pay every recipient of the plan exactly, and nobody else, within Zano's limits.\<close>

definition pays_plan :: "pplns_coinbase_plan \<Rightarrow> tx_destination_entry list \<Rightarrow> bool" where
  "pays_plan plan entries \<longleftrightarrow> 2 \<le> length entries \<and> length entries \<le> kZanoHf6MaxCoinbaseOutputs \<and>
    (\<forall>keys. (\<Sum>e\<leftarrow>entries. if de_payout e = keys then unat (de_amount e) else 0) =
      (\<Sum>d\<leftarrow>plan_destinations plan. if cd_payout d = keys then unat (cd_amount d) else 0))"

lemma split_amount:
  assumes "2 \<le> (a :: u64)"
  shows "unat (a div 2) + unat (a - a div 2) = unat a"
proof -
  have "a div 2 \<le> a" by (simp add: word_le_nat_alt unat_div)
  then show ?thesis by (simp add: unat_sub word_le_nat_alt)
qed

lemma physical_destinations_pay:
  assumes "physical_destinations plan = Ok entries" "plan_destinations plan \<noteq> []"
  shows "pays_plan plan entries"
proof (cases "length (plan_destinations plan) = 1")
  case True
  then obtain d where d: "plan_destinations plan = [d]" by (auto simp: length_Suc_conv)
  from assms(1) have big: "2 \<le> cd_amount d"
    and e: "entries = [\<lparr>de_payout = cd_payout d, de_amount = cd_amount d div 2\<rparr>,
      \<lparr>de_payout = cd_payout d, de_amount = cd_amount d - cd_amount d div 2\<rparr>]"
    by (auto simp: physical_destinations_def d Let_def bindE_eq_Ok not_less split: if_splits)
  show ?thesis using split_amount [OF big] by (simp add: pays_plan_def e d kZanoHf6MaxCoinbaseOutputs_def)
next
  case False
  then have "2 \<le> length (plan_destinations plan)"
    using assms(2) by (cases "plan_destinations plan" rule: remdups_adj.cases) auto
  moreover have "entries = map (\<lambda>d. \<lparr>de_payout = cd_payout d, de_amount = cd_amount d\<rparr>) (plan_destinations plan)"
    "length entries \<le> kZanoHf6MaxCoinbaseOutputs"
    using assms(1) False by (auto simp: physical_destinations_def Let_def bindE_eq_Ok split: if_splits)
  ultimately show ?thesis by (simp add: pays_plan_def comp_def cong: if_cong)
qed

text \<open>The transaction is one that the builder made for outputs that pay the plan.\<close>

definition built_for_plan ::
  "('tx, 'tgc) zano_builder option \<Rightarrow> block_template \<Rightarrow> pplns_coinbase_plan \<Rightarrow> u8 list \<Rightarrow> string \<Rightarrow> bool"
where
  "built_for_plan zb daemon plan bytes json \<longleftrightarrow>
    (\<exists>z request tx generation_context. zb = Some z \<and>
      zb_construct_miner_tx z request = Some (tx, generation_context, bt_block_reward daemon, bt_block_reward daemon) \<and>
      zb_dump_binary z tx = Some bytes \<and> zb_store_json z generation_context = json \<and>
      mt_height request = bt_height daemon \<and> mt_fee request = bt_txs_fee daemon \<and>
      pays_plan plan (mt_destinations request))"

lemma build_miner_tx_built:
  assumes "build_zano_hf6_pplns_miner_tx zb (bt_height daemon) (bt_txs_fee daemon) (bt_block_reward daemon) plan extra n = Ok m"
  shows "\<exists>bytes. mx_tx_blob_hex m = bytes_to_hex bytes \<and> built_for_plan zb daemon plan bytes (mx_miner_tx_tgc_json m)"
proof -
  obtain z where z: "zb = Some z" using assms by (cases zb) (simp_all add: build_zano_hf6_pplns_miner_tx_def)
  obtain entries where entries: "physical_destinations plan = Ok entries" "plan_destinations plan \<noteq> []"
    using assms by (auto simp: build_zano_hf6_pplns_miner_tx_def z bindE_eq_Ok split: if_splits)
  define request where "request = \<lparr>mt_height = bt_height daemon, mt_median_size = kZanoFullRewardZoneBytes,
    mt_fee = bt_txs_fee daemon, mt_miner_address = de_payout (hd entries), mt_stakeholder_address = de_payout (hd entries),
    mt_cumulative_size = n, mt_tx_version = 4, mt_hardfork_id = 6, mt_extra_nonce = extra,
    mt_max_outs = kZanoHf6MaxCoinbaseOutputs, mt_destinations = entries\<rparr>"
  obtain tx g without reward where made: "zb_construct_miner_tx z request = Some (tx, g, without, reward)"
    using assms entries
    by (cases "zb_construct_miner_tx z request")
      (auto simp: build_zano_hf6_pplns_miner_tx_def z Let_def request_def [symmetric] split: if_splits)
  then have reward: "reward = bt_block_reward daemon" "without = bt_block_reward daemon"
    using assms entries
    by (auto simp: build_zano_hf6_pplns_miner_tx_def z Let_def request_def [symmetric] split: if_splits)
  obtain bytes where bytes: "zb_dump_binary z tx = Some bytes"
    using assms entries made reward
    by (cases "zb_dump_binary z tx")
      (auto simp: build_zano_hf6_pplns_miner_tx_def z Let_def request_def [symmetric] split: if_splits)
  have "m = \<lparr>mx_tx_blob_hex = bytes_to_hex bytes, mx_miner_tx_tgc_json = zb_store_json z g,
      mx_block_reward_without_fee = without, mx_block_reward = reward\<rparr>"
    using assms entries made reward bytes
    by (auto simp: build_zano_hf6_pplns_miner_tx_def z Let_def request_def [symmetric] split: if_splits)
  moreover have "pays_plan plan (mt_destinations request)" "mt_height request = bt_height daemon"
    "mt_fee request = bt_txs_fee daemon"
    using physical_destinations_pay [OF entries] by (simp_all add: request_def)
  ultimately show ?thesis using made bytes reward z by (auto simp: built_for_plan_def)
qed

lemma rebuild_daemon_block_eq_Ok:
  assumes "rebuild_daemon_block zb daemon plan extra = Ok (Inr (daemon_work, m, rebuilt))"
  shows "\<exists>bytes tx. hex_to_bytes (blocktemplate_blob daemon) = Ok bytes \<and> derive_mining_header_work bytes = Ok daemon_work \<and>
    rebuilt = take (header_serialized_size (block_header daemon_work)) bytes @ tx @
      drop (trailer_serialized_offset (tx_hashes daemon_work)) bytes \<and>
    length rebuilt \<le> kZanoFullRewardZoneBytes \<and> built_for_plan zb daemon plan tx (mx_miner_tx_tgc_json m)"
  using assms
  by (auto simp: rebuild_daemon_block_def bindE_eq_Ok Let_def not_less split: if_splits
      dest!: build_miner_tx_built)
    (metis hex_to_bytes_bytes_to_hex sum.inject(2))

text \<open>The daemon's block with another miner transaction.\<close>

definition rebuilt_from ::
  "('tx, 'tgc) zano_builder option \<Rightarrow> block_template \<Rightarrow> pplns_coinbase_plan \<Rightarrow> block_template \<Rightarrow> mining_header_work \<Rightarrow> bool"
where
  "rebuilt_from zb daemon plan block work \<longleftrightarrow>
    (\<exists>bytes daemon_work tx. hex_to_bytes (blocktemplate_blob daemon) = Ok bytes \<and>
      derive_mining_header_work bytes = Ok daemon_work \<and>
      (let rebuilt = take (header_serialized_size (block_header daemon_work)) bytes @ tx @
         drop (trailer_serialized_offset (tx_hashes daemon_work)) bytes in
       block = daemon\<lparr>blocktemplate_blob := bytes_to_hex rebuilt, miner_tx_tgc_json := miner_tx_tgc_json block\<rparr> \<and>
       length rebuilt \<le> kZanoFullRewardZoneBytes \<and> derive_mining_header_work rebuilt = Ok work) \<and>
      header_serialized (block_header work) = header_serialized (block_header daemon_work) \<and>
      trailer_hashes (tx_hashes work) = trailer_hashes (tx_hashes daemon_work) \<and>
      built_for_plan zb daemon plan tx (miner_tx_tgc_json block))"

lemma template_ready:
  assumes "build_canonical_pplns_template zb daemon chain params extra = result" "pt_status result = Template_ready"
  shows "\<exists>network window. difficulty128_from_decimal (bt_difficulty daemon) = Ok network \<and>
      build_sidechain_pplns_window chain params network = Ok window \<and>
      make_pplns_coinbase_plan window (bt_block_reward daemon) params = Ok (pt_plan result) \<and>
      plan_status (pt_plan result) = Ready"
    and "rebuilt_from zb daemon (pt_plan result) (pt_block result) (pt_mining_work result)"
proof -
  let ?plan = "bindE (difficulty128_from_decimal (bt_difficulty daemon)) (\<lambda>network.
         bindE (build_sidechain_pplns_window chain params network) (\<lambda>window.
           make_pplns_coinbase_plan window (bt_block_reward daemon) params))"
  obtain plan where plan: "?plan = Ok plan" "plan_status plan = Ready" "zb \<noteq> None"
    using assms by (cases ?plan)
      (auto simp: build_canonical_pplns_template_def zano_miner_tx_builder_available_def Let_def split: if_splits)
  obtain daemon_work m rebuilt where r: "rebuild_daemon_block zb daemon plan extra = Ok (Inr (daemon_work, m, rebuilt))"
    using assms plan
    by (cases "rebuild_daemon_block zb daemon plan extra")
      (auto simp: build_canonical_pplns_template_def zano_miner_tx_builder_available_def rebuild_daemon_block_def
        bindE_eq_Ok Let_def split: sum.splits if_splits)
  obtain work where w: "derive_mining_header_work rebuilt = Ok work"
    using assms plan r by (cases "derive_mining_header_work rebuilt")
      (auto simp: build_canonical_pplns_template_def zano_miner_tx_builder_available_def Let_def)
  have eq: "header_serialized (block_header work) = header_serialized (block_header daemon_work)"
    "trailer_hashes (tx_hashes work) = trailer_hashes (tx_hashes daemon_work)" "pt_plan result = plan"
    "pt_mining_work result = work"
    "pt_block result = daemon\<lparr>blocktemplate_blob := bytes_to_hex rebuilt, miner_tx_tgc_json := mx_miner_tx_tgc_json m\<rparr>"
    using assms plan r w
    by (auto simp: build_canonical_pplns_template_def zano_miner_tx_builder_available_def Let_def split: if_splits)
  show "\<exists>network window. difficulty128_from_decimal (bt_difficulty daemon) = Ok network \<and>
      build_sidechain_pplns_window chain params network = Ok window \<and>
      make_pplns_coinbase_plan window (bt_block_reward daemon) params = Ok (pt_plan result) \<and>
      plan_status (pt_plan result) = Ready"
    using plan(1,2) unfolding eq bindE_eq_Ok by blast
  show "rebuilt_from zb daemon (pt_plan result) (pt_block result) (pt_mining_work result)"
    using rebuild_daemon_block_eq_Ok [OF r] w eq by (auto simp: rebuilt_from_def Let_def)
qed

section \<open>The template that is published\<close>

lemma empty_window_not_ready: "make_pplns_coinbase_plan empty_window reward params = Ok plan \<Longrightarrow> plan_status plan \<noteq> Ready"
  by (auto simp: make_pplns_coinbase_plan_def bindE_eq_Ok empty_window_def Let_def)

lemma ready_plan_derived:
  assumes "conn_inv chain" "best_tip chain = Some tip" "validated_ancestry tip"
    "matches_sidechain_parameters chain params = Ok True"
    "build_sidechain_pplns_window chain params network = Ok window"
    "make_pplns_coinbase_plan window reward params = Ok plan" "plan_status plan = Ready"
  shows "derive_historical_payout_plan chain params (cs_id tip) network reward =
    Ok \<lparr>historical_status = PlanDerived, historical_parent_id = cs_id tip, historical_plan = plan\<rparr>"
proof -
  have found: "find chain (cs_id tip) = Some tip"
    using assms(2) conn_invD(4) [OF assms(1)] by (auto simp: best_tip_def find_def keyed_def split: option.splits)
  have window: "build_sidechain_pplns_window_at_parent chain (cs_id tip) params network = Ok window"
    using assms(2,5) by (simp add: build_sidechain_pplns_window_def)
  have "window \<noteq> empty_window" using empty_window_not_ready assms(6,7) by blast
  with window have "cs_id tip \<noteq> 0"
    by (auto simp: build_sidechain_pplns_window_at_parent_def split: if_splits)
  then show ?thesis
    using assms(3,4,6,7) found window by (simp add: derive_historical_payout_plan_def is_zero_iff Let_def)
qed

text \<open>C18. The template of a round pays what every peer derives for its parent, or nothing is published. Take any
  reachable chain and any library that builds transactions. When the node reports a canonical template, its parent
  is the best tip, which is validated; its payout plan is exactly the plan that a peer derives from the history
  of that parent; the block is the daemon's block with only the miner transaction replaced, in size within the
  full-reward zone, with the daemon's header and transactions, and the transaction was built for outputs that pay
  each recipient of the plan exactly; the mining header is the one of the new block, so the block is remembered for
  submission under the hash that miners work on. When it reports no template there is no payout plan, and the tip
  is missing or not validated. When it throws, block, header and plan are those from before.\<close>

theorem published_template_sound:
  assumes "chain_reachable full backend chain" "matches_sidechain_parameters chain params = Ok True"
    "apply_canonical_pplns_template zb live chain params = (live', r)"
  shows "case r of
    Ok True \<Rightarrow> \<exists>tip plan network. best_tip chain = Some tip \<and> validated_ancestry tip \<and>
      lt_parent_binding live' = Some
        \<lparr>binding_parent_id = cs_id tip, binding_share_height = share_height (cs_share tip) + 1\<rparr> \<and>
      lt_payout_plan live' = Some plan \<and> difficulty128_from_decimal (bt_difficulty (lt_block live)) = Ok network \<and>
      derive_historical_payout_plan chain params (cs_id tip) network (bt_block_reward (lt_block live)) =
        Ok \<lparr>historical_status = PlanDerived, historical_parent_id = cs_id tip, historical_plan = plan\<rparr> \<and>
      rebuilt_from zb (lt_block live) plan (lt_block live') (lt_mining_work live') \<and>
      keyed_by_header (header_hash (lt_mining_work live')) (blocktemplate_blob (lt_block live'))
  | Ok False \<Rightarrow> lt_payout_plan live' = None \<and> lt_block live' = lt_block live \<and>
      (connected_size chain = 0 \<or> (\<forall>tip. best_tip chain = Some tip \<longrightarrow> \<not> validated_ancestry tip))
  | Throw e \<Rightarrow> lt_block live' = lt_block live \<and> lt_mining_work live' = lt_mining_work live \<and>
      lt_payout_plan live' = lt_payout_plan live"
proof (cases "r = Ok True")
  case True
  with assms(3) obtain tip where tip: "best_tip chain = Some tip" "validated_ancestry tip"
    by (auto simp: apply_canonical_pplns_template_def Let_def split: if_splits option.splits)
  define result where "result = build_canonical_pplns_template zb (lt_block live) chain params ''zano-p2pool''"
  have ready: "pt_status result = Template_ready" and live': "live' = live\<lparr>lt_parent_binding :=
      Some \<lparr>binding_parent_id = cs_id tip, binding_share_height = share_height (cs_share tip) + 1\<rparr>,
      lt_block := pt_block result, lt_mining_work := pt_mining_work result, lt_payout_plan := Some (pt_plan result)\<rparr>"
    using assms(3) True tip
    by (auto simp: apply_canonical_pplns_template_def result_def [symmetric] Let_def split: if_splits)
  note parts = template_ready [OF result_def [symmetric] ready]
  from parts(1) obtain network window where plan: "difficulty128_from_decimal (bt_difficulty (lt_block live)) = Ok network"
    "build_sidechain_pplns_window chain params network = Ok window"
    "make_pplns_coinbase_plan window (bt_block_reward (lt_block live)) params = Ok (pt_plan result)"
    "plan_status (pt_plan result) = Ready" by blast
  have "keyed_by_header (header_hash (pt_mining_work result)) (blocktemplate_blob (pt_block result))"
    using parts(2) by (auto simp: rebuilt_from_def keyed_by_header_def Let_def)
      (metis block_template.select_convs(3) block_template.surjective block_template.update_convs(3,6) hex_to_bytes_bytes_to_hex)
  with tip plan parts(2) ready_plan_derived [OF reachable_conn [OF assms(1)] tip assms(2) plan(2-4)] True
  show ?thesis by (simp add: live')
next
  case False
  with assms(3) show ?thesis
    by (auto simp: apply_canonical_pplns_template_def Let_def split: if_splits option.splits sum.splits bool.splits)
qed

section \<open>Witness\<close>

text \<open>The sample chain: one share of the operator, which is the whole window.\<close>

definition sample_window :: "pplns_window" where
  "sample_window =
    \<lparr>requested_work = array_of_nat 100000000, covered_work = array_of_nat 100000000, included_shares = 1, complete = True,
     miners = [\<lparr>pm_miner_id = miner_id_from_payout kCanonicalOperatorFeePayout, pm_work = array_of_nat 100000000,
       pm_payout = Some kCanonicalOperatorFeePayout\<rparr>]\<rparr>"

definition sample_plan :: pplns_coinbase_plan where
  "sample_plan = \<lparr>plan_status = Ready, plan_reward_atomic = 10000, plan_destinations =
    [\<lparr>cd_miner_id = miner_id_from_payout kCanonicalOperatorFeePayout, cd_payout = kCanonicalOperatorFeePayout,
      cd_amount = 10000\<rparr>]\<rparr>"

lemma sample_works:
  "work_to_int (array_of_nat 100000000) = 100000000" "int_to_work 100000000 = Ok (array_of_nat 100000000)"
  by (simp_all add: work_to_int_arr_val arr_val_array_of_nat int_to_work_eq)

lemma sample_best_tip: "best_tip sample_chain = Some sample_connected" "find sample_chain sample_id = Some sample_connected"
  "connected_size sample_chain \<noteq> 0"
  by (simp_all add: best_tip_def find_def connected_size_def sample_chain_def sample_start_fields fcard_finsert_if)

lemma sample_sidechain_window:
  assumes "sample_id \<noteq> 0"
  shows "build_sidechain_pplns_window sample_chain (canonical_sidechain_parameters Testnet) (array_of_nat 200000000) =
    Ok sample_window"
proof -
  let ?p = "canonical_sidechain_parameters Testnet"
  have p: "pplns_window_shares ?p = 31" "pplns_max_network_difficulty_multiplier ?p = 2"
    by (simp_all add: canonical_sidechain_parameters_def share_constants kCanonicalPplnsWindowShares_def)
  have own: "share_work (share_difficulty (cs_share sample_connected)) = Ok (array_of_nat 100000000)"
    "require_validated_payout_ancestry sample_chain sample_connected = Ok ()" "parent_id (cs_share sample_connected) = 0"
    "cs_id sample_connected = sample_id"
    using sample_work by (simp_all add: sample_connected_def require_validated_payout_ancestry_def sample_share_def)
  obtain w where w: "share_work (array_of_nat 200000000) = Ok w" "arr_val w = 200000000"
    using share_work_ok [OF sample_difficulties(2)] by (metis arr_val_array_of_nat sample_difficulties)
  have recent: "recent_work sample_chain 31 sample_connected 0 0 = Ok 100000000"
    by (subst recent_work.simps) (simp add: own sample_works)
  have walk: "pplns_walk sample_chain sample_connected 100000000 0 fmempty =
      Ok (0, 1, fmupd (miner_id_from_payout kCanonicalOperatorFeePayout)
        \<lparr>cw_work = 100000000, cw_payout = Some kCanonicalOperatorFeePayout\<rparr> fmempty)"
    by (subst pplns_walk.simps)
      (simp add: own sample_works Let_def merge_payout_identity_def credited_row_def,
       simp add: sample_connected_def sample_share_def share_constants)
  have "build_pplns_window_at_parent sample_chain sample_id (array_of_nat 100000000) = Ok sample_window"
    using assms by (simp add: build_pplns_window_at_parent_def sample_best_tip is_zero_iff walk sample_works Let_def
        sorted_list_of_fmap_single window_row_def sample_window_def)
  then show ?thesis
    using assms p w
    by (simp add: build_sidechain_pplns_window_def build_sidechain_pplns_window_at_parent_def sample_best_tip own is_zero_iff
        recent sample_works sample_difficulties kCanonicalPplnsWindowShares_def Let_def sample_window_def work_to_int_arr_val)
qed

lemma sample_coinbase_plan:
  "make_pplns_coinbase_plan sample_window 10000 (canonical_sidechain_parameters Testnet) = Ok sample_plan"
proof -
  let ?p = "canonical_sidechain_parameters Testnet"
  have fields: "operator_fee_basis_points ?p = 100" "pplns_window_shares ?p = 31"
    "operator_fee_payout ?p = kCanonicalOperatorFeePayout"
    by (simp_all add: canonical_sidechain_parameters_def kCanonicalOperatorFeeBasisPoints_def
        kCanonicalPplnsWindowShares_def)
  have fee: "calculate_basis_point_share 10000 100 = Some 100"
    by (simp add: calculate_basis_point_share_def kOperatorFeeBasisPointDenominator_def Let_def)
  have "serialize_sidechain_parameters ?p = Ok (sidechain_parameter_bytes ?p)"
    using canonical_valid [of Testnet] by (simp add: valid_parameters_def)
  moreover have "allocate_pplns_reward sample_window 9900 =
    Ok [\<lparr>pp_miner_id = miner_id_from_payout kCanonicalOperatorFeePayout, pp_work = array_of_nat 100000000, amount = 9900,
         pp_payout = Some kCanonicalOperatorFeePayout\<rparr>]"
    by (simp add: allocate_pplns_reward_def sample_window_def aggregate_row_def credited_row_def sample_works
        sorted_list_of_fmap_single allocate_step_def Let_def)
  moreover have "miners sample_window \<noteq> []" "complete sample_window"
    by (simp_all add: sample_window_def)
  ultimately show ?thesis
    by (simp add: make_pplns_coinbase_plan_def fields fee kZanoHf6MaxCoinbaseOutputs_def credit_operator_def sample_plan_def)
qed

text \<open>A builder that always returns the miner transaction of the sample block.\<close>

definition sample_builder :: "(unit, unit) zano_builder" where
  "sample_builder = \<lparr>zb_parse_tx = (\<lambda>_. Some ()), zb_cumulative_size = (\<lambda>_. Some 0),
    zb_construct_miner_tx = (\<lambda>_. Some ((), (), 10000, 10000)),
    zb_dump_binary = (\<lambda>_. Some (take 1304 (drop 44 sample_blob))), zb_store_json = (\<lambda>_. ''x'')\<rparr>"

definition sample_daemon_template :: block_template where
  "sample_daemon_template = \<lparr>bt_block_reward = 10000, bt_block_reward_without_fee = 10000,
    blocktemplate_blob = bytes_to_hex sample_blob, bt_difficulty = ''200000000'', bt_height = 4, miner_tx_tgc_json = ''y'',
    bt_prev_hash = '''', bt_seed = '''', bt_status = ''OK'', bt_txs_fee = 0\<rparr>"

definition sample_live :: live_template where
  "sample_live = \<lparr>lt_block = sample_daemon_template, lt_mining_work = sample_work, lt_seed_hash = 0,
    lt_network_difficulty = array_of_nat 200000000, lt_payout_plan = None, lt_parent_binding = None\<rparr>"

lemma sample_rebuild:
  "rebuild_daemon_block (Some sample_builder) sample_daemon_template sample_plan extra =
    Ok (Inr (sample_work, \<lparr>mx_tx_blob_hex = bytes_to_hex (take 1304 (drop 44 sample_blob)), mx_miner_tx_tgc_json = ''x'',
      mx_block_reward_without_fee = 10000, mx_block_reward = 10000\<rparr>, sample_blob))"
proof -
  have blob: "take 44 sample_blob @ take 1304 (drop 44 sample_blob) @ drop 1348 sample_blob = sample_blob"
    using append_take_drop_id [of 1304 "drop 44 sample_blob"] by simp
  have "sample_prefix \<noteq> []" using sample_lengths by auto
  then show ?thesis
    by (simp add: rebuild_daemon_block_def sample_daemon_template_def hex_to_bytes_bytes_to_hex sample_work_derived
        extract_zano_hf6_coinbase_cumulative_size_def sample_builder_def build_zano_hf6_pplns_miner_tx_def sample_plan_def
        physical_destinations_def kZanoHf6MaxCoinbaseOutputs_def kZanoFullRewardZoneBytes_def sample_lengths Let_def
        blob)
qed

lemma sample_template_ready:
  assumes "sample_id \<noteq> 0"
  shows "\<exists>live'. apply_canonical_pplns_template (Some sample_builder) sample_live sample_chain
      (canonical_sidechain_parameters Testnet) = (live', Ok True) \<and> lt_payout_plan live' = Some sample_plan"
proof -
  have network: "difficulty128_from_decimal ''200000000'' = Ok (array_of_nat 200000000)"
    unfolding difficulty128_from_decimal_iff
    by (simp add: arr_val_array_of_nat is_decimal_digit_def decimal_value_def digit_value_def)
  have daemon: "bt_difficulty sample_daemon_template = ''200000000''" "bt_block_reward sample_daemon_template = 10000"
    "blocktemplate_blob sample_daemon_template = bytes_to_hex sample_blob"
    by (simp_all add: sample_daemon_template_def)
  have plan: "plan_status sample_plan = Ready" by (simp add: sample_plan_def)
  let ?result = "build_canonical_pplns_template (Some sample_builder) sample_daemon_template sample_chain
      (canonical_sidechain_parameters Testnet) ''zano-p2pool''"
  have "pt_status ?result = Template_ready" "pt_plan ?result = sample_plan"
    by (simp_all add: build_canonical_pplns_template_def daemon network sample_sidechain_window [OF assms]
        sample_coinbase_plan plan sample_rebuild zano_miner_tx_builder_available_def sample_work_derived(1) Let_def)
  moreover have "validated_ancestry sample_connected" "share_height (cs_share sample_connected) = 0"
    by (simp_all add: sample_connected_def sample_share_def)
  ultimately show ?thesis
    using sample_best_tip by (simp add: apply_canonical_pplns_template_def sample_live_def Let_def)
qed

theorem published_template_sound_witness:
  "sample_id = 0 \<or> (\<exists>live' network. apply_canonical_pplns_template (Some sample_builder) sample_live sample_chain
      (canonical_sidechain_parameters Testnet) = (live', Ok True) \<and>
    derive_historical_payout_plan sample_chain (canonical_sidechain_parameters Testnet) sample_id network 10000 =
      Ok \<lparr>historical_status = PlanDerived, historical_parent_id = sample_id, historical_plan = sample_plan\<rparr> \<and>
    rebuilt_from (Some sample_builder) sample_daemon_template sample_plan (lt_block live') (lt_mining_work live'))"
proof (cases "sample_id = 0")
  case False
  then obtain live' where live': "apply_canonical_pplns_template (Some sample_builder) sample_live sample_chain
      (canonical_sidechain_parameters Testnet) = (live', Ok True)" "lt_payout_plan live' = Some sample_plan"
    using sample_template_ready by blast
  have "cs_id sample_connected = sample_id" "lt_block sample_live = sample_daemon_template"
    "bt_block_reward sample_daemon_template = 10000"
    by (simp_all add: sample_connected_def sample_live_def sample_daemon_template_def)
  with published_template_sound [OF sample_reachable sample_matches(2) live'(1)] live' sample_best_tip(1)
  show ?thesis by auto
qed simp

end
