(* ===== verification/Spec2Isabelle.thy ===== *)
theory Spec2Isabelle
  imports Chain_Spec Pplns_Coinbase P2p_Trust Stratum_Submission Store_Restart Historical_Payout
    Peer_Score Rpc_Backoff Template_Refresh Context_Trust Work_Machine Node_Trust Restart_Recovery Pplns_Template
begin

text \<open>
  A verification development of the Zano P2Pool node (\<open>src/src\<close>, \<open>src/include/zano_p2pool\<close>).

  \<^bold>\<open>The program.\<close> Miners work for a pool that has no operator. Every solution that meets a share
  difficulty becomes a \<open>share\<close>; the nodes exchange shares and agree on a chain of them; when a share
  is also a block of the parent network its reward is divided among the miners of the last shares.
  A share enters a node through the Stratum side (a local miner) or through the peer-to-peer side. In
  both cases it is checked against a work context that the node trusts and then submitted to the share
  chain, which decides on admission, keeps orphans and chooses the best tip. The reward division walks
  the chain from the tip.

  \<^bold>\<open>Theories and sources.\<close>
  \<^item> \<open>Prelude\<close>: results with exceptions as values (\<open>Ok\<close>, \<open>Throw\<close>), machine words, fixed-size byte
    arrays ordered as in C++, big-endian values, reachable states and the locale
    \<open>machine_invariant\<close>, which every component with a life cycle interprets.
  \<^item> \<open>Byte_Codec\<close>: readers of byte buffers and the locale of codecs with one encoding per value.
  \<^item> \<open>Crypto_Hash\<close> (\<open>crypto_hash.cpp\<close>): Keccak and \<open>cn_fast_hash\<close>, hexadecimal text.
  \<^item> \<open>Pow_Target\<close>, \<open>Share_Validation\<close> (\<open>pow_target.cpp\<close>, \<open>share_validation.cpp\<close>, \<open>progpowz.cpp\<close>):
    decimal difficulties, targets, classification of a hash.
  \<^item> \<open>Share\<close> (\<open>share.cpp\<close>): the share, its two encodings, its identifier.
  \<^item> \<open>Sidechain_Params\<close>, \<open>Sidechain_Difficulty\<close> (\<open>sidechain_params.hpp\<close>,
    \<open>sidechain_difficulty.hpp\<close>): consensus parameters and the retarget rule.
  \<^item> \<open>Share_Chain\<close> (\<open>share_chain.cpp\<close>): the state of \<open>ShareChain\<close> and all its operations. The
    theories \<open>Chain_Work\<close>, \<open>Chain_Inv\<close>, \<open>Chain_Ops\<close>, \<open>Chain_Admission\<close>, \<open>Chain_Replay\<close>,
    \<open>Chain_Prune\<close> hold the invariant and what each operation does to it, \<open>Chain_Machine\<close> the step
    relation over all operations, \<open>Chain_Spec\<close> the abstract promises.
  \<^item> \<open>Pplns\<close>, \<open>Pplns_Alloc\<close>, \<open>Pplns_Window\<close>, \<open>Pplns_Coinbase\<close> (\<open>pplns.cpp\<close>,
    \<open>pplns_coinbase.cpp\<close>): the window of counted shares, the division of a reward, the coinbase plan.
  \<^item> \<open>P2p_Protocol\<close>, \<open>P2p_Sync\<close> (\<open>p2p_protocol.cpp\<close>, \<open>p2p_sync.cpp\<close>, \<open>p2p_tip.cpp\<close>): the wire
    format, requests and answers, the plan of a synchronization.
  \<^item> \<open>Work_Registry\<close>, \<open>P2p_Share\<close>, \<open>P2p_Trust\<close> (\<open>p2p_share.cpp\<close>): the registry of trusted work,
    the receiver of shares from peers, and the node as the product of registry and chain.
  \<^item> \<open>Zano_Address\<close> (\<open>zano_address.cpp\<close>): payout addresses.
  \<^item> \<open>Stratum_Session\<close>, \<open>Stratum_Submission\<close> (\<open>stratum_session.cpp\<close>, \<open>stratum_submission.cpp\<close>): the
    sessions of miners with their jobs, and the router of their solutions.
  \<^item> \<open>Share_Store\<close>, \<open>Store_Restart\<close> (\<open>share_store.hpp\<close>): the append-only file of shares as a byte
    string, and a node that stops, or is cut off while it writes, and starts again.
  \<^item> \<open>Mining_Header\<close>, \<open>Template_Refresh\<close> (\<open>mining_header.cpp\<close>, \<open>template_refresh.cpp\<close>,
    \<open>pplns_block_template.cpp\<close>): the mining header of a block template, its Merkle root, the
    replacement of its miner transaction, the audit after a reorganization of the parent network.
  \<^item> \<open>Historical_Payout\<close> (\<open>historical_payout.cpp\<close>): the coinbase plan derived from history.
  \<^item> \<open>Json_Value\<close>, \<open>Mining_Context\<close> (\<open>p2p_mining_context.cpp\<close>): the values of the JSON library,
    the mining contexts that peers propose, and their inspection against the node's own daemon.
  \<^item> \<open>Zano_Curve\<close>, \<open>Miner_Tx_Binding\<close>, \<open>Payout_Policy\<close>, \<open>Miner_Tx_Proofs\<close>, \<open>Context_Trust\<close>
    (\<open>zano_curve.cpp\<close>, \<open>p2p_miner_tx_binding.cpp\<close>, \<open>p2p_payout_policy.cpp\<close>,
    \<open>p2p_miner_tx_proofs.cpp\<close>, \<open>p2p_mining_context_trust.cpp\<close>): the verification of a peer's
    miner transaction and the promotion of its work into the registry. \<open>Payout_Exact\<close> holds what a
    verified policy establishes; the locale \<open>context_verifier\<close> is the contract of the three proof
    verifiers that the promotion uses.
  \<^item> \<open>Work_Archive\<close>, \<open>Work_Retrieval\<close>, \<open>Work_Transfer\<close>, \<open>Work_Machine\<close>
    (\<open>mining_work_archive.cpp\<close>, \<open>p2p_work_retrieval.cpp\<close>): the archive of mining work over a
    directory, the transfer of its records between nodes, the bounds on what peers can make a node
    hold. \<open>Sample_Context\<close> and \<open>Sample_Payout\<close> hold a small template for the witnesses.
  \<^item> \<open>State_Ops\<close>: operations that change a state and may throw, and the locale \<open>state_order\<close> of the
    relations that survive their composition.
  \<^item> \<open>Local_Daemon\<close>, \<open>Historical_Work\<close>, \<open>Historical_Trust\<close> (\<open>rpc_client.cpp\<close>,
    \<open>historical_work.cpp\<close>, \<open>historical_trust.cpp\<close>): the daemon's answers as functions of the number of
    queries, the audit of old work against them, the trust crossing for one candidate share.
  \<^item> \<open>Node_State\<close>, \<open>Node_Local\<close>, \<open>Node_Historical\<close>, \<open>Node_Resume\<close>, \<open>Node_Messages\<close>,
    \<open>Node_Handle\<close>, \<open>Node_Recovery\<close> (\<open>p2p_node.cpp\<close>): the state of the node, the withdrawal of work
    after a change of the daemon's chain, shares that wait for trust, the loop that resumes their
    descendants, one function per kind of message, the scheduler of replayed shares, the handler as a
    whole and the two periodic operations that enter it again. \<open>Node_Order\<close> and \<open>Node_Protocol\<close> hold the
    locales in which a relation between states is carried from the primitive changes to a whole message;
    \<open>Node_Bounds\<close> and \<open>Node_Trust\<close> are their instances: memory, output and trust.
  \<^item> \<open>Validation_Store\<close>, \<open>Restart_Recovery\<close> (\<open>replay_validation_store.cpp\<close>, \<open>restart_recovery.cpp\<close>,
    \<open>restart_revalidation.cpp\<close>): the file of validation results as a byte string, and what a restarted node
    does with the shares of its file: it takes cached results behind a checkpoint that its daemon confirms,
    revalidates the other shares from its own archive and removes those on a displaced parent.
  \<^item> \<open>Pplns_Template\<close> (\<open>zano_miner_tx.cpp\<close>, \<open>pplns_template.hpp\<close>, the template functions of \<open>main.cpp\<close>):
    the outputs that pay a plan, the daemon's block with its miner transaction replaced, the template of a round.
  \<^item> \<open>Block_Submitter\<close> (\<open>block_submitter.cpp\<close>): the templates that were handed out, the queue of solved
    blocks and the thread that submits them, with a step for each time a thread holds the mutex.
  \<^item> \<open>Peer_Score\<close>, \<open>Rpc_Backoff\<close> (\<open>p2p_peer_score.hpp\<close>, \<open>rpc_backoff.hpp\<close>): temporary bans of
    peers, and the delays between attempts to reach the daemon. The clock is an argument.

  \<^bold>\<open>How the code is translated.\<close> Structs are records, enums are datatypes, \<open>std::map\<close> is a finite
  map, \<open>uint64_t\<close> is a 64 bit word with C++'s wrap-around, \<open>cpp_int\<close> is \<open>int\<close> or \<open>nat\<close>. A method of
  a class is a function from the old state to the new state and the result; a method that can throw
  after it changed the state returns the changed state next to the exception. Loops are recursive
  functions with termination proofs. The walks of \<open>ShareChain\<close> towards the root follow parent links
  of the map and are partial functions: \<open>None\<close> is a walk that never ends, and the invariant shows it
  does not occur. No definition uses fuel.

  \<^bold>\<open>What is shown.\<close> For the share chain: the invariant of all reachable states, also after
  exceptions; exact conditions of admission; the best tip is the best connected share and does not
  depend on the order of arrival; cumulative work is the sum over the ancestry; pruning removes
  exactly a subtree; replay snapshots restore what they recorded. For rewards: the window is exactly
  the counted part of the ancestry, the division pays the whole reward by largest remainders, and a published
  template pays the plan that every peer derives for its parent. For
  peers: encodings are canonical, only trusted work enters the chain and no message of a peer creates
  trust, requests are answered. For miners: a job is the published template, an accepted solution is
  real work for it, no solution is counted twice, a block that reaches the daemon is the work its candidate solved
  and an accepted header is not submitted again. For a node over time: a restart from the share
  file gives back the chain, also after a cut write, and the cached validation exactly when the daemon confirms
  the checkpoint; recovery revalidates a share only on work of the node's own archive; two nodes that derive a payout for the same
  parent agree on it; the mining header hash ignores the nonce; the Merkle root is that of the
  balanced tree; a reorganization stops publication before anything else; bans and retry delays are
  exactly the configured ones. For work of peers: the promotion writes one registry entry, and only when
  the template matches the node's own daemon, its miner transaction pays the plan exactly and both of its
  proofs hold; an archived record is read back exactly, a transfer of it ends within four rounds with the
  same bytes, and the memory that peers can claim is bounded. Old work is trusted only for an exact
  candidate and after two local audits; when the daemon's chain changes, exactly the shares and the
  authorisations that rest on the displaced block are withdrawn. For the message handler as a whole, also
  when it throws: no message adds trust that the node did not verify or a share on work it does not trust, the
  tables of waiting work stay bounded, nothing is sent before a message is handled, and no share keeps waiting
  for a parent that was connected.

  \<^bold>\<open>Parameters.\<close> The ProgPowZ hash comes from an external library: it is an argument, absent when
  the library is not built in, and no law about it is assumed; statements hold for every hash
  function. The JSON library is the argument \<open>tok\<close>, a function from texts to values. Zano's crypto
  library is the record \<open>zano_crypto\<close> of the operations that the sources call, its transaction builder the
  record \<open>zano_builder\<close>. The record \<open>node_env\<close>
  holds these for a node, with the callbacks to its daemon, the directory of its archive and whether the
  transport could send. No law is assumed of any of them.

  \<^bold>\<open>Not modelled.\<close> Exhaustion of memory; threads and mutexes outside \<open>Block_Submitter\<close>
  (each modelled method runs under its class's lock in the program, and the message handler, which takes the node's lock for each of its
  phases, is one step); sockets, HTTP and the JSON texts of the Stratum and daemon
  protocols; failures of the file system; the daemon; Zano's construction of miner transactions; the
  order in which the parts are started, the refresh loop and the command line, in \<open>main.cpp\<close>.
\<close>

end
